(* ===== verification/Go_Prelude.thy ===== *)
theory Go_Prelude
  imports Main "HOL-Library.Multiset" "HOL-Library.Sublist" "HOL-Library.List_Lexorder" "HOL-Library.Char_ord"
begin

text \<open>
  The part of Go and of its standard library that every component uses: byte strings and the
  functions of package \<open>strings\<close>, 64-bit integers, calls that may fail, and the two notions all
  stores share, an operation that either fails or returns a result with a new state, and a run of
  operations.

  A Go \<open>string\<close> is a list of bytes, here a \<^typ>\<open>string\<close>, whose characters are the 256 bytes.
  \<open>strings.TrimSpace\<close> is exact: the white space of Unicode is given by its UTF-8 sequences.
  \<open>strings.ToLower\<close> and \<open>strings.EqualFold\<close> fold the letters of ASCII, which is what they do on the
  ASCII values the code gives them (repository names, modes, header names).
\<close>

named_theorems go_str \<open>rewrite rules for the string functions\<close>
named_theorems store_op \<open>definitions of the operations of a store\<close>
named_theorems store_row \<open>definitions of row updates and queries\<close>

section \<open>Package strings\<close>

definition hasPrefix :: "string \<Rightarrow> string \<Rightarrow> bool" where
  "hasPrefix s p = (take (length p) s = p)"

definition hasSuffix :: "string \<Rightarrow> string \<Rightarrow> bool" where
  "hasSuffix s p = (length p \<le> length s \<and> drop (length s - length p) s = p)"

definition trimPrefix :: "string \<Rightarrow> string \<Rightarrow> string" where
  "trimPrefix s p = (if hasPrefix s p then drop (length p) s else s)"

fun containsStr :: "string \<Rightarrow> string \<Rightarrow> bool" where
  "containsStr [] p = (p = [])"
| "containsStr (c # s) p = (hasPrefix (c # s) p \<or> containsStr s p)"

fun joinStr :: "string list \<Rightarrow> string \<Rightarrow> string" where
  "joinStr [] sep = []"
| "joinStr [x] sep = x"
| "joinStr (x # y # xs) sep = x @ sep @ joinStr (y # xs) sep"

definition space_seqs :: "string list" where
  "space_seqs =
     [[CHR 0x20], [CHR 0x09], [CHR 0x0A], [CHR 0x0B], [CHR 0x0C], [CHR 0x0D],
      [CHR 0xC2, CHR 0x85], [CHR 0xC2, CHR 0xA0], [CHR 0xE1, CHR 0x9A, CHR 0x80],
      [CHR 0xE2, CHR 0x80, CHR 0x80], [CHR 0xE2, CHR 0x80, CHR 0x81],
      [CHR 0xE2, CHR 0x80, CHR 0x82], [CHR 0xE2, CHR 0x80, CHR 0x83],
      [CHR 0xE2, CHR 0x80, CHR 0x84], [CHR 0xE2, CHR 0x80, CHR 0x85],
      [CHR 0xE2, CHR 0x80, CHR 0x86], [CHR 0xE2, CHR 0x80, CHR 0x87],
      [CHR 0xE2, CHR 0x80, CHR 0x88], [CHR 0xE2, CHR 0x80, CHR 0x89],
      [CHR 0xE2, CHR 0x80, CHR 0x8A], [CHR 0xE2, CHR 0x80, CHR 0xA8],
      [CHR 0xE2, CHR 0x80, CHR 0xA9], [CHR 0xE2, CHR 0x80, CHR 0xAF],
      [CHR 0xE2, CHR 0x81, CHR 0x9F], [CHR 0xE3, CHR 0x80, CHR 0x80]]"

fun stripSeqs :: "nat \<Rightarrow> string list \<Rightarrow> string \<Rightarrow> string" where
  "stripSeqs 0 seqs s = s"
| "stripSeqs (Suc n) seqs s =
     (case find (\<lambda>p. hasPrefix s p) seqs of
        None \<Rightarrow> s
      | Some p \<Rightarrow> stripSeqs n seqs (drop (length p) s))"

definition trimLeftSpace :: "string \<Rightarrow> string" where
  "trimLeftSpace s = stripSeqs (length s) space_seqs s"

definition trimSpace :: "string \<Rightarrow> string" where
  "trimSpace s =
     (let l = trimLeftSpace s in rev (stripSeqs (length l) (map rev space_seqs) (rev l)))"

definition toLowerChar :: "char \<Rightarrow> char" where
  "toLowerChar c =
     (let n = (of_char c :: nat) in if 65 \<le> n \<and> n \<le> 90 then char_of (n + 32) else c)"

definition toLower :: "string \<Rightarrow> string" where
  "toLower s = map toLowerChar s"

definition equalFold :: "string \<Rightarrow> string \<Rightarrow> bool" where
  "equalFold s t = (toLower s = toLower t)"

text \<open>\<open>contains\<close> and \<open>containsFold\<close> are written out several times in the source (packages policy,
  proxy, sandbox and server), always as the same loop.\<close>

fun containsItem :: "string list \<Rightarrow> string \<Rightarrow> bool" where
  "containsItem [] want = False"
| "containsItem (item # items) want = (if item = want then True else containsItem items want)"

fun containsFold :: "string list \<Rightarrow> string \<Rightarrow> bool" where
  "containsFold [] want = False"
| "containsFold (item # items) want =
     (if equalFold item want then True else containsFold items want)"

section \<open>Integers\<close>

definition wrap64 :: "int \<Rightarrow> int" where
  "wrap64 x = (x + 2 ^ 63) mod 2 ^ 64 - 2 ^ 63"

definition int64_range :: "int \<Rightarrow> bool" where
  "int64_range x \<longleftrightarrow> - (2 ^ 63) \<le> x \<and> x < 2 ^ 63"

fun nat_digits :: "nat \<Rightarrow> string" where
  "nat_digits n =
     (if n < 10 then [char_of (48 + n)] else nat_digits (n div 10) @ [char_of (48 + n mod 10)])"

declare nat_digits.simps [simp del]

definition formatInt :: "int \<Rightarrow> string" where
  "formatInt i = (if i < 0 then CHR ''-'' # nat_digits (nat (- i)) else nat_digits (nat i))"

section \<open>Hexadecimal\<close>

definition hexDigit :: "nat \<Rightarrow> char" where
  "hexDigit n = (if n < 10 then char_of (48 + n) else char_of (87 + n))"

definition hexEncode :: "string \<Rightarrow> string" where
  "hexEncode bs = concat (map (\<lambda>b. [hexDigit (of_char b div 16), hexDigit (of_char b mod 16)]) bs)"

definition isHexChar :: "char \<Rightarrow> bool" where
  "isHexChar c =
     (let n = (of_char c :: nat) in
      (48 \<le> n \<and> n \<le> 57) \<or> (97 \<le> n \<and> n \<le> 102) \<or> (65 \<le> n \<and> n \<le> 70))"

text \<open>\<open>hex.DecodeString\<close> succeeds on an even number of hexadecimal digits of either case.\<close>

definition hexDecodes :: "string \<Rightarrow> bool" where
  "hexDecodes s = (even (length s) \<and> list_all isHexChar s)"

section \<open>Maps\<close>

text \<open>
  A Go map keyed by strings is an association list: a lookup reads the first entry of the key, a
  \<open>range\<close> loop visits the entries in the order of the list. Go leaves that order open, so a theorem
  about a loop over a map is stated for every list, that is for every order.
\<close>

type_synonym 'v gomap = "(string \<times> 'v) list"

definition gget :: "'v gomap \<Rightarrow> string \<Rightarrow> 'v option" where
  "gget m k = map_of m k"

fun gput :: "string \<Rightarrow> 'v \<Rightarrow> 'v gomap \<Rightarrow> 'v gomap" where
  "gput k v [] = [(k, v)]"
| "gput k v ((k', v') # m) = (if k = k' then (k, v) # m else (k', v') # gput k v m)"

definition gdel :: "string \<Rightarrow> 'v gomap \<Rightarrow> 'v gomap" where
  "gdel k m = filter (\<lambda>e. fst e \<noteq> k) m"

text \<open>Reading a missing key of a map of strings gives the empty string, of a map of integers 0.\<close>

definition gstr :: "string gomap \<Rightarrow> string \<Rightarrow> string" where
  "gstr m k = (case gget m k of None \<Rightarrow> [] | Some v \<Rightarrow> v)"

definition gint :: "int gomap \<Rightarrow> string \<Rightarrow> int" where
  "gint m k = (case gget m k of None \<Rightarrow> 0 | Some v \<Rightarrow> v)"

section \<open>Calls that may fail\<close>

text \<open>
  An operation on a database or on a file makes several calls, each of which may fail. The \<open>i\<close>-th
  call of the operation, in the order of the source, fails when \<open>f i\<close> holds. A failing call of a
  transaction makes the deferred rollback run, so the durable state is the one before the operation.
\<close>

type_synonym faults = "nat \<Rightarrow> bool"

definition no_faults :: faults where
  "no_faults = (\<lambda>_. False)"

type_synonym ('e, 'a, 's) outcome = "('e + 'a) \<times> 's"

definition failed :: "('e, 'a, 's) outcome \<Rightarrow> bool" where
  "failed r = (case fst r of Inl _ \<Rightarrow> True | Inr _ \<Rightarrow> False)"

section \<open>Lemmas on strings\<close>

lemma hasPrefix_iff_prefix [go_str]: "hasPrefix s p \<longleftrightarrow> prefix p s"
proof
  assume "hasPrefix s p"
  then show "prefix p s" unfolding hasPrefix_def by (metis take_is_prefix)
next
  assume "prefix p s"
  then show "hasPrefix s p" by (auto simp: hasPrefix_def prefix_def)
qed

lemma trimPrefix_append [simp]: "trimPrefix (p @ s) p = s"
  by (simp add: trimPrefix_def hasPrefix_def)

lemma hasPrefix_trimPrefix: "hasPrefix s p \<Longrightarrow> s = p @ trimPrefix s p"
  by (metis append_take_drop_id hasPrefix_def trimPrefix_def)

lemma containsItem_iff [simp]: "containsItem items want \<longleftrightarrow> want \<in> set items"
  by (induction items) auto

lemma containsFold_iff [simp]:
  "containsFold items want \<longleftrightarrow> (\<exists>item \<in> set items. equalFold item want)"
  by (induction items) auto

lemma equalFold_refl [simp]: "equalFold s s"
  by (simp add: equalFold_def)

lemma equalFold_sym: "equalFold s t \<Longrightarrow> equalFold t s"
  by (simp add: equalFold_def)

lemma equalFold_trans: "equalFold s t \<Longrightarrow> equalFold t u \<Longrightarrow> equalFold s u"
  by (simp add: equalFold_def)

lemma of_char_less_256: "(of_char c :: nat) < 256"
  using nat_of_char_less_256 by simp

lemma toLowerChar_idem [simp]: "toLowerChar (toLowerChar c) = toLowerChar c"
  by (auto simp: toLowerChar_def Let_def)

lemma toLower_idem [simp]: "toLower (toLower s) = toLower s"
  by (simp add: toLower_def)

lemma length_toLower [simp]: "length (toLower s) = length s"
  by (simp add: toLower_def)

lemma equalFold_toLower: "equalFold (toLower s) s"
  by (simp add: equalFold_def)

lemma stripSeqs_suffix: "\<exists>p. s = p @ stripSeqs n seqs s"
proof (induction n arbitrary: s)
  case 0
  then show ?case by simp
next
  case (Suc n)
  show ?case
  proof (cases "find (\<lambda>p. hasPrefix s p) seqs")
    case None
    then show ?thesis by simp
  next
    case (Some p)
    from Suc.IH obtain q where "drop (length p) s = q @ stripSeqs n seqs (drop (length p) s)"
      by blast
    then have "s = (take (length p) s @ q) @ stripSeqs (Suc n) seqs s"
      using Some by simp
    then show ?thesis by blast
  qed
qed

lemma trimSpace_sublist: "\<exists>p q. s = p @ trimSpace s @ q"
proof -
  obtain p where p: "s = p @ trimLeftSpace s"
    using stripSeqs_suffix [of s] unfolding trimLeftSpace_def by blast
  let ?l = "trimLeftSpace s"
  obtain q where "rev ?l = q @ stripSeqs (length ?l) (map rev space_seqs) (rev ?l)"
    using stripSeqs_suffix by blast
  then have "?l = trimSpace s @ rev q"
    unfolding trimSpace_def Let_def by (metis rev_append rev_rev_ident)
  with p show ?thesis by (metis append.assoc)
qed

lemma length_trimSpace: "length (trimSpace s) \<le> length s"
  by (metis (no_types) trimSpace_sublist length_append le_add2 trans_le_add1 add.commute)

lemma trimSpace_Nil [simp]: "trimSpace [] = []"
  by (simp add: trimSpace_def trimLeftSpace_def)

lemma length_hexEncode [simp]: "length (hexEncode bs) = 2 * length bs"
  by (induction bs) (simp_all add: hexEncode_def)

lemma isHexChar_hexDigit: "n < 16 \<Longrightarrow> isHexChar (hexDigit n)"
  by (auto simp: isHexChar_def hexDigit_def Let_def)

lemma hexDecodes_hexEncode [simp]: "hexDecodes (hexEncode bs)"
proof -
  have "list_all isHexChar (hexEncode bs)"
    by (induction bs)
      (auto simp: hexEncode_def intro!: isHexChar_hexDigit less_mult_imp_div_less of_char_less_256 [THEN order.strict_trans2])
  then show ?thesis by (simp add: hexDecodes_def)
qed

section \<open>Lemmas on maps\<close>

lemma gget_gput [simp]: "gget (gput k v m) k' = (if k' = k then Some v else gget m k')"
  by (induction m) (auto simp: gget_def)

lemma gget_gdel [simp]: "gget (gdel k m) k' = (if k' = k then None else gget m k')"
  by (induction m) (auto simp: gget_def gdel_def)

lemma gget_Nil [simp]: "gget [] k = None"
  by (simp add: gget_def)

lemma gget_Cons [simp]: "gget ((k', v) # m) k = (if k = k' then Some v else gget m k)"
  by (simp add: gget_def)

lemma gget_SomeD: "gget m k = Some v \<Longrightarrow> (k, v) \<in> set m"
  by (simp add: gget_def map_of_SomeD)

lemma gget_None_iff: "gget m k = None \<longleftrightarrow> k \<notin> fst ` set m"
  by (simp add: gget_def map_of_eq_None_iff)

lemma fst_gput: "fst ` set (gput k v m) = insert k (fst ` set m)"
proof (induction m)
  case (Cons e m)
  then show ?case by (cases e) (auto simp: insert_commute)
qed simp

lemma distinct_gput: "distinct (map fst m) \<Longrightarrow> distinct (map fst (gput k v m))"
proof (induction m)
  case (Cons e m)
  obtain k' v' where e: "e = (k', v')" by (cases e)
  have "k' \<notin> set (map fst (gput k v m)) \<longleftrightarrow> k' \<noteq> k \<and> k' \<notin> set (map fst m)"
    using fst_gput [of k v m] by auto
  with Cons e show ?case by auto
qed simp

lemma gint_gput [simp]: "gint (gput k v m) k' = (if k' = k then v else gint m k')"
  by (simp add: gint_def)

lemma gstr_gput [simp]: "gstr (gput k v m) k' = (if k' = k then v else gstr m k')"
  by (simp add: gstr_def)

text \<open>A table with a unique key: looking up the key of a row finds the row.\<close>

lemma find_by_key: "distinct (map k xs) \<Longrightarrow> x \<in> set xs \<Longrightarrow> find (\<lambda>y. k y = k x) xs = Some x"
  by (induction xs) (auto simp: image_iff)

section \<open>Lemmas on integers\<close>

lemma wrap64_id: "int64_range x \<Longrightarrow> wrap64 x = x"
  by (simp add: wrap64_def int64_range_def)

lemma wrap64_range [simp]: "int64_range (wrap64 x)"
proof -
  have "0 \<le> (x + 2 ^ 63) mod 2 ^ 64" "(x + 2 ^ 63) mod 2 ^ 64 < (2 ^ 64 :: int)"
    by simp_all
  then show ?thesis by (simp add: wrap64_def int64_range_def)
qed

lemma wrap64_between:
  "0 \<le> x \<Longrightarrow> x \<le> y \<Longrightarrow> int64_range y \<Longrightarrow> wrap64 x = x"
  by (rule wrap64_id) (simp add: int64_range_def)

section \<open>Operations of a store and their runs\<close>

text \<open>
  A store is a state with operations that fail or answer, and return the state they leave. Every
  store of the broker keeps an invariant (\<open>inv_store\<close>); where each operation is one transaction, an
  operation that fails also leaves the durable state as it was (\<open>atomic_store\<close>). A client that only
  knows these laws can reason about any sequence of operations.
\<close>

fun run_ops :: "('o \<Rightarrow> 's \<Rightarrow> ('e, 'a, 's) outcome) \<Rightarrow> 'o list \<Rightarrow> 's \<Rightarrow> 's" where
  "run_ops exec [] s = s"
| "run_ops exec (x # xs) s = run_ops exec xs (snd (exec x s))"

lemma run_ops_append [simp]: "run_ops exec (xs @ ys) s = run_ops exec ys (run_ops exec xs s)"
  by (induction xs arbitrary: s) auto

locale inv_store =
  fixes exec :: "'o \<Rightarrow> 's \<Rightarrow> ('e, 'a, 's) outcome"
    and inv :: "'s \<Rightarrow> bool"
  assumes inv_exec: "inv s \<Longrightarrow> inv (snd (exec x s))"
begin

lemma inv_run: "inv s \<Longrightarrow> inv (run_ops exec xs s)"
  by (induction xs arbitrary: s) (auto intro: inv_exec)

lemma guarded_run:
  assumes "inv s" and "P s" and "\<And>s x. inv s \<Longrightarrow> P s \<Longrightarrow> x \<in> set xs \<Longrightarrow> P (snd (exec x s))"
  shows "P (run_ops exec xs s)"
  using assms
proof (induction xs arbitrary: s)
  case (Cons x xs)
  then have "inv (snd (exec x s))" "P (snd (exec x s))" by (simp_all add: inv_exec)
  with Cons show ?case by simp
qed simp

end

locale atomic_store = inv_store +
  assumes fail_unchanged: "inv s \<Longrightarrow> failed (exec x s) \<Longrightarrow> snd (exec x s) = s"
begin

lemma all_failed_run:
  assumes "inv s" and "\<And>x. x \<in> set xs \<Longrightarrow> failed (exec x s)"
  shows "run_ops exec xs s = s"
  using assms
proof (induction xs arbitrary: s)
  case Nil
  then show ?case by simp
next
  case (Cons x xs)
  then have "snd (exec x s) = s" by (simp add: fail_unchanged)
  with Cons show ?case by simp
qed

lemma run_drop_failed:
  assumes "inv s" and "failed (exec x (run_ops exec xs s))"
  shows "run_ops exec (xs @ x # ys) s = run_ops exec (xs @ ys) s"
  using assms inv_run [of s xs] by (simp add: fail_unchanged)

end

text \<open>A store whose states only move forward in a preorder: counters that grow, rows that stay,
  terminal states that are never left.\<close>

locale forward_store = inv_store +
  fixes le :: "'b \<Rightarrow> 'b \<Rightarrow> bool"
  assumes le_refl: "le s s"
    and le_trans: "le s t \<Longrightarrow> le t u \<Longrightarrow> le s u"
    and le_exec: "inv s \<Longrightarrow> le s (snd (exec x s))"
begin

lemma le_run: "inv s \<Longrightarrow> le s (run_ops exec xs s)"
proof (induction xs arbitrary: s)
  case Nil
  then show ?case by (simp add: le_refl)
next
  case (Cons x xs)
  then have "le s (snd (exec x s))" "inv (snd (exec x s))"
    by (simp_all add: le_exec inv_exec)
  with Cons.IH show ?case by (auto intro: le_trans)
qed

lemma le_run_between: "inv s \<Longrightarrow> le (run_ops exec xs s) (run_ops exec (xs @ ys) s)"
  by (simp add: inv_run le_run)

end

text \<open>The sum, over a run, of a weight each answer has: the number of answers of a kind when the weight
  is 0 or 1, the amount granted when it is an amount.\<close>

fun sum_ops ::
  "('o \<Rightarrow> 's \<Rightarrow> ('e, 'a, 's) outcome) \<Rightarrow> ('o \<Rightarrow> 'e + 'a \<Rightarrow> int) \<Rightarrow> 'o list \<Rightarrow> 's \<Rightarrow> int" where
  "sum_ops exec w [] s = 0"
| "sum_ops exec w (x # xs) s = w x (fst (exec x s)) + sum_ops exec w xs (snd (exec x s))"

text \<open>A store with a meter: a quantity that every operation raises by the weight of its answer, and
  that the invariant bounds. Whatever happens in between, a run grants at most what is left.\<close>

locale metered_store = inv_store +
  fixes meter :: "'b \<Rightarrow> int"
    and weight :: "'a \<Rightarrow> 'c + 'd \<Rightarrow> int"
    and cap :: int
  assumes meter_exec: "inv s \<Longrightarrow> meter (snd (exec x s)) = meter s + weight x (fst (exec x s))"
    and meter_cap: "inv s \<Longrightarrow> meter s \<le> cap"
begin

lemma meter_run: "inv s \<Longrightarrow> meter (run_ops exec xs s) = meter s + sum_ops exec weight xs s"
  by (induction xs arbitrary: s) (auto simp: meter_exec inv_exec)

lemma run_within_cap: "inv s \<Longrightarrow> meter s + sum_ops exec weight xs s \<le> cap"
  using meter_run meter_cap inv_run by metis

end

text \<open>A store in which something can be taken once: an answer that takes it is given only where it is
  not taken, takes it, and no operation gives it back. Then at most one answer of a run takes it.\<close>

locale once_store = inv_store +
  fixes taken :: "'b \<Rightarrow> bool"
    and takes :: "'a \<Rightarrow> 'c + 'd \<Rightarrow> bool"
  assumes takes_free: "inv s \<Longrightarrow> takes x (fst (exec x s)) \<Longrightarrow> \<not> taken s"
    and takes_taken: "inv s \<Longrightarrow> takes x (fst (exec x s)) \<Longrightarrow> taken (snd (exec x s))"
    and taken_stays: "inv s \<Longrightarrow> taken s \<Longrightarrow> taken (snd (exec x s))"
begin

lemma taken_sum: "inv s \<Longrightarrow> taken s \<Longrightarrow> sum_ops exec (\<lambda>x r. of_bool (takes x r)) xs s = 0"
proof (induction xs arbitrary: s)
  case (Cons x xs)
  then have "\<not> takes x (fst (exec x s))" using takes_free by blast
  with Cons show ?case by (simp add: taken_stays inv_exec)
qed simp

lemma takes_at_most_once: "inv s \<Longrightarrow> sum_ops exec (\<lambda>x r. of_bool (takes x r)) xs s \<le> 1"
proof (induction xs arbitrary: s)
  case (Cons x xs)
  show ?case
  proof (cases "takes x (fst (exec x s))")
    case True
    then show ?thesis using Cons.prems by (simp add: taken_sum takes_taken inv_exec)
  next
    case False
    then show ?thesis using Cons by (simp add: inv_exec)
  qed
qed simp

lemma taken_run: "inv s \<Longrightarrow> taken s \<Longrightarrow> taken (run_ops exec xs s)"
  by (induction xs arbitrary: s) (auto simp: taken_stays inv_exec)

end

end
