(* ===== verification/Broker_Config.thy ===== *)
theory Broker_Config
  imports Go_Prelude
begin

text \<open>
  Package \<open>config\<close> (\<open>src/internal/config/config.go\<close>): the configuration of the broker as records,
  its defaults, the resolution of secrets from the environment, its validation, and the lookups the
  server makes in it (agents, GitHub App contexts, installations). Decoding the YAML text is outside
  the model: \<open>load_config\<close> starts from what reading and decoding the file gives. A validation error is a value of
  \<open>cfg_error\<close>, one constructor for each message of the source.
\<close>

section \<open>Data\<close>

record outbox_config =
  ob_consumerToken :: string
  ob_consumerTokenEnv :: string
  ob_claimTTLSeconds :: int
  ob_maxClaimBatch :: int

record correlation_config =
  cc_storePath :: string
  cc_capabilityAPIURL :: string
  cc_capabilityAPIToken :: string
  cc_capabilityAPITokenEnv :: string
  cc_outbox :: outbox_config

record tripwire_repository =
  tr_githubApp :: string
  tr_baseRef :: string
  tr_refPatterns :: "string list"

record tripwire_binding =
  tb_workerID :: string
  tb_logicalSessionID :: string
  tb_sessionLineageID :: string
  tb_workerStorageLineageID :: string
  tb_workerFenceEpoch :: int

record tripwire_profile =
  tp_generation :: int
  tp_allowHalt :: bool
  tp_allowFence :: bool
  tp_bindings :: "tripwire_binding list"

record tripwire_bounds =
  tw_maxCommits :: int
  tw_maxPaths :: int
  tw_maxCommitMessageBytes :: int
  tw_maxBlobBytes :: int
  tw_maxTotalBytes :: int

record tripwire_config =
  tc_enabled :: bool
  tc_scannerID :: string
  tc_scannerSecret :: string
  tc_scannerSecretEnv :: string
  tc_statePath :: string
  tc_repositories :: "tripwire_repository gomap"
  tc_responseProfiles :: "tripwire_profile gomap"
  tc_bounds :: tripwire_bounds

record server_config =
  sc_listen :: string
  sc_adminSecret :: string
  sc_adminSecretEnv :: string
  sc_localSandboxOnly :: bool
  sc_production :: bool

record app_config =
  ga_appID :: int
  ga_privateKeyPath :: string
  ga_installations :: "int gomap"

record github_config =
  gh_appID :: int
  gh_privateKeyPath :: string
  gh_apiBaseURL :: string
  gh_gitBaseURL :: string
  gh_installations :: "int gomap"
  gh_apps :: "app_config gomap"

record limits_config =
  lc_statePath :: string
  lc_runMetadataField :: string
  lc_actionMetadataField :: string
  lc_maxNewObjectsPerRun :: int
  lc_classLimits :: "int gomap"
  lc_operationClasses :: "string gomap"

record idempotency_config =
  ic_statePath :: string

record branch_guard =
  bg_mode :: string
  bg_stalePRStates :: "string list"
  bg_operations :: "string list"

record assertion_field =
  af_name :: string
  af_required :: bool
  af_pattern :: string
  af_value :: string
  af_locations :: "string list"

record assertion_policy =
  ap_mode :: string
  ap_fields :: "assertion_field list"

record agent =
  ag_id :: string
  ag_enabled :: bool
  ag_secret :: string
  ag_secretEnv :: string
  ag_githubApp :: string
  ag_repositories :: "string list"
  ag_operations :: "string list"
  ag_branchPatterns :: "string list"
  ag_baseBranches :: "string list"
  ag_branchGuard :: branch_guard
  ag_permissions :: "string list"
  ag_metadataAssertions :: "assertion_policy gomap"
  ag_gitReceivePack :: string

record broker_config =
  bc_server :: server_config
  bc_auditPath :: string
  bc_github :: github_config
  bc_mutationLimits :: limits_config
  bc_idempotency :: idempotency_config
  bc_pushTripwire :: tripwire_config
  bc_correlation :: correlation_config
  bc_agents :: "agent list"

datatype cfg_error =
    ConfigReadError | ConfigYAMLError
  | LocalOnlyInProduction | LocalOnlyWithApps | LocalOnlyWithAgents | AppContextRequired
  | AppIDRequired string | AppKeyRequired string | AppInstallationsEmpty string
  | ScannerIDRequired | ScannerSecretRequired | TripwireStatePathRequired
  | TripwireRepositoriesEmpty | TripwireProfilesEmpty
  | ProfileInvalid string | ProfileFenceWithoutBindings string | ProfileIncompleteBinding string
  | TripwireBoundsOutside
  | TripwireRepoNotLower string | TripwireRepoNotCovered string string
  | TripwireRepoBaseRef string | TripwireRepoNoPatterns string
  | TripwirePatternNotAnchored string | TripwirePatternInvalid string
  | AgentIDRequired | DuplicateAgentID string | AgentReceivePackInvalid string
  | AgentNoSecret string | AgentUnknownApp string string | AgentRepoNotCovered string string string
  | AgentBranchGuard string
  | CorrelationStoreNotAbs | CorrelationStoreMissing | CorrelationURLMissing
  | CorrelationURLNotHTTP | CorrelationTokenMissing
  | OutboxTokenMissing | OutboxStoreMissing | OutboxTTLBounds | OutboxBatchBounds

section \<open>Effective values and lookups\<close>

definition OutboxEnabled :: "correlation_config \<Rightarrow> bool" where
  "OutboxEnabled c \<longleftrightarrow>
     trimSpace (cc_storePath c) \<noteq> [] \<and> trimSpace (ob_consumerToken (cc_outbox c)) \<noteq> []"

definition OutboxClaimTTLSeconds :: "correlation_config \<Rightarrow> int" where
  "OutboxClaimTTLSeconds c =
     (if ob_claimTTLSeconds (cc_outbox c) \<le> 0 then 300 else ob_claimTTLSeconds (cc_outbox c))"

definition OutboxMaxClaimBatch :: "correlation_config \<Rightarrow> int" where
  "OutboxMaxClaimBatch c =
     (if ob_maxClaimBatch (cc_outbox c) \<le> 0 then 100 else ob_maxClaimBatch (cc_outbox c))"

definition CorrelationEnabled :: "correlation_config \<Rightarrow> bool" where
  "CorrelationEnabled c \<longleftrightarrow>
     trimSpace (cc_storePath c) \<noteq> [] \<and> trimSpace (cc_capabilityAPIURL c) \<noteq> [] \<and>
     trimSpace (cc_capabilityAPIToken c) \<noteq> []"

fun AgentByID :: "agent list \<Rightarrow> string \<Rightarrow> agent option" where
  "AgentByID [] i = None"
| "AgentByID (a # as) i = (if ag_id a = i then Some a else AgentByID as i)"

text \<open>\<open>strings.Cut s "/"\<close>: the part before and the part after the first slash.\<close>

fun cutSlash :: "string \<Rightarrow> (string \<times> string) option" where
  "cutSlash [] = None"
| "cutSlash (c # s) =
     (if c = CHR ''/'' then Some ([], s)
      else map_option (\<lambda>(a, b). (c # a, b)) (cutSlash s))"

definition installationCoversRepo :: "string \<Rightarrow> string \<Rightarrow> bool" where
  "installationCoversRepo configured0 repo0 =
     (let configured = trimSpace configured0; repo = trimSpace repo0 in
      if equalFold configured repo then True
      else case cutSlash repo of
        None \<Rightarrow> False
      | Some (own, _) \<Rightarrow>
          if own = [] then False
          else case cutSlash configured of
            None \<Rightarrow> False
          | Some (wildcardOwner, wildcardSuffix) \<Rightarrow>
              wildcardSuffix = ''*'' \<and> equalFold wildcardOwner own)"

definition AppContexts :: "github_config \<Rightarrow> app_config gomap" where
  "AppContexts g =
     (let out = (if gh_appID g \<noteq> 0 \<or> gh_privateKeyPath g \<noteq> [] \<or> 0 < length (gh_installations g)
                 then [(''default'', \<lparr>ga_appID = gh_appID g, ga_privateKeyPath = gh_privateKeyPath g,
                                    ga_installations = gh_installations g\<rparr>)]
                 else [])
      in foldl (\<lambda>m (name, app). gput name app m) out (gh_apps g))"

definition AppContext :: "github_config \<Rightarrow> string \<Rightarrow> app_config option" where
  "AppContext g name = gget (AppContexts g) (if name = [] then ''default'' else name)"

fun firstCovering :: "int gomap \<Rightarrow> string \<Rightarrow> int option" where
  "firstCovering [] repo = None"
| "firstCovering ((configuredRepo, i) # m) repo =
     (if installationCoversRepo configuredRepo repo then Some i else firstCovering m repo)"

definition InstallationIDForApp :: "github_config \<Rightarrow> string \<Rightarrow> string \<Rightarrow> int option" where
  "InstallationIDForApp g appName repo =
     (case AppContext g appName of
        None \<Rightarrow> None
      | Some app \<Rightarrow>
          (case gget (ga_installations app) (toLower repo) of
             Some i \<Rightarrow> Some i
           | None \<Rightarrow>
               (case gget (ga_installations app) repo of
                  Some i \<Rightarrow> Some i
                | None \<Rightarrow> firstCovering (ga_installations app) repo)))"

definition GitHubAppName :: "agent \<Rightarrow> string" where
  "GitHubAppName a = (if ag_githubApp a \<noteq> [] then ag_githubApp a else ''default'')"

section \<open>Defaults and secrets\<close>

definition guardApplyDefaults :: "branch_guard \<Rightarrow> branch_guard" where
  "guardApplyDefaults g0 =
     (let g = (if trimSpace (bg_mode g0) = [] then g0\<lparr>bg_mode := ''off''\<rparr> else g0) in
      if equalFold (bg_mode g) ''off'' then g
      else
        let g1 = (if bg_stalePRStates g = [] then g\<lparr>bg_stalePRStates := [''closed'']\<rparr> else g) in
        if bg_operations g1 = []
        then g1\<lparr>bg_operations := [''git.receive-pack'', ''pull.create'']\<rparr> else g1)"

definition orElse :: "string \<Rightarrow> string \<Rightarrow> string" where
  "orElse s d = (if s = [] then d else s)"

definition orElseInt :: "int \<Rightarrow> int \<Rightarrow> int" where
  "orElseInt i d = (if i = 0 then d else i)"

definition boundsDefaults :: "tripwire_bounds \<Rightarrow> tripwire_bounds" where
  "boundsDefaults b =
     \<lparr>tw_maxCommits = orElseInt (tw_maxCommits b) 100,
      tw_maxPaths = orElseInt (tw_maxPaths b) 300,
      tw_maxCommitMessageBytes = orElseInt (tw_maxCommitMessageBytes b) (64 * 2 ^ 10),
      tw_maxBlobBytes = orElseInt (tw_maxBlobBytes b) (2 ^ 20),
      tw_maxTotalBytes = orElseInt (tw_maxTotalBytes b) (16 * 2 ^ 20)\<rparr>"

definition agentDefaults :: "agent \<Rightarrow> agent" where
  "agentDefaults a =
     (let a1 = a\<lparr>ag_branchGuard := guardApplyDefaults (ag_branchGuard a)\<rparr> in
      if ag_gitReceivePack a1 = [] then a1\<lparr>ag_gitReceivePack := ''allow_opaque''\<rparr> else a1)"

definition applyDefaults :: "broker_config \<Rightarrow> broker_config" where
  "applyDefaults c =
     c\<lparr>bc_server := (bc_server c)\<lparr>sc_listen := orElse (sc_listen (bc_server c)) ''127.0.0.1:8080''\<rparr>,
       bc_github := (bc_github c)
         \<lparr>gh_apiBaseURL := orElse (gh_apiBaseURL (bc_github c)) ''https://api.github.com'',
          gh_gitBaseURL := orElse (gh_gitBaseURL (bc_github c)) ''https://github.com''\<rparr>,
       bc_pushTripwire := (bc_pushTripwire c)
         \<lparr>tc_bounds := boundsDefaults (tc_bounds (bc_pushTripwire c))\<rparr>,
       bc_agents := map agentDefaults (bc_agents c)\<rparr>"

text \<open>\<open>env\<close> is \<open>os.Getenv\<close>, the empty string for an unset variable.\<close>

definition secretFrom :: "(string \<Rightarrow> string) \<Rightarrow> string \<Rightarrow> string \<Rightarrow> string" where
  "secretFrom env s var = (if s = [] \<and> var \<noteq> [] then env var else s)"

definition resolveSecrets :: "(string \<Rightarrow> string) \<Rightarrow> broker_config \<Rightarrow> broker_config" where
  "resolveSecrets env c =
     (let sv = bc_server c; tw = bc_pushTripwire c; co = bc_correlation c; ob = cc_outbox co in
      c\<lparr>bc_server := sv\<lparr>sc_adminSecret := secretFrom env (sc_adminSecret sv) (sc_adminSecretEnv sv)\<rparr>,
        bc_pushTripwire := tw\<lparr>tc_scannerSecret :=
          secretFrom env (tc_scannerSecret tw) (tc_scannerSecretEnv tw)\<rparr>,
        bc_correlation := co
          \<lparr>cc_capabilityAPIToken :=
             secretFrom env (cc_capabilityAPIToken co) (cc_capabilityAPITokenEnv co),
           cc_outbox := ob\<lparr>ob_consumerToken :=
             secretFrom env (ob_consumerToken ob) (ob_consumerTokenEnv ob)\<rparr>\<rparr>,
        bc_agents := map (\<lambda>a. a\<lparr>ag_secret := secretFrom env (ag_secret a) (ag_secretEnv a)\<rparr>)
          (bc_agents c)\<rparr>)"

section \<open>Validation\<close>

definition guardValidate :: "branch_guard \<Rightarrow> bool" where
  "guardValidate g =
     (let mode = toLower (trimSpace (bg_mode g)); mode = (if mode = [] then ''off'' else mode) in
      (if mode = ''off'' \<or> mode = ''warn'' \<or> mode = ''enforce'' then
         (if list_all (\<lambda>st. toLower (trimSpace st) = ''closed'') (bg_stalePRStates g) then
            list_all (\<lambda>op. trimSpace op = ''git.receive-pack'' \<or> trimSpace op = ''pull.create'')
              (bg_operations g)
          else False)
       else False))"

definition outboxValidationErrors :: "correlation_config \<Rightarrow> cfg_error list" where
  "outboxValidationErrors c =
     (let store = trimSpace (cc_storePath c);
          consumerToken = trimSpace (ob_consumerToken (cc_outbox c));
          consumerTokenEnv = trimSpace (ob_consumerTokenEnv (cc_outbox c));
          ttl = ob_claimTTLSeconds (cc_outbox c);
          batch = ob_maxClaimBatch (cc_outbox c)
      in if \<not> (consumerToken \<noteq> [] \<or> consumerTokenEnv \<noteq> [] \<or> ttl \<noteq> 0 \<or> batch \<noteq> 0) then []
         else
           (if consumerToken = [] then [OutboxTokenMissing] else []) @
           (if store = [] then [OutboxStoreMissing] else []) @
           (if ttl \<noteq> 0 \<and> (ttl < 30 \<or> ttl > 3600) then [OutboxTTLBounds] else []) @
           (if batch \<noteq> 0 \<and> (batch < 1 \<or> batch > 1000) then [OutboxBatchBounds] else []))"

definition isAbsPath :: "string \<Rightarrow> bool" where
  "isAbsPath p = hasPrefix p ''/''"

definition correlationValidationErrors :: "correlation_config \<Rightarrow> cfg_error list" where
  "correlationValidationErrors c =
     (let store = trimSpace (cc_storePath c);
          url = trimSpace (cc_capabilityAPIURL c);
          token = trimSpace (cc_capabilityAPIToken c);
          tokenEnv = trimSpace (cc_capabilityAPITokenEnv c)
      in if \<not> (store \<noteq> [] \<or> url \<noteq> [] \<or> token \<noteq> [] \<or> tokenEnv \<noteq> []) then []
         else
           (if store \<noteq> [] \<and> \<not> isAbsPath store then [CorrelationStoreNotAbs] else []) @
           (if store = [] then [CorrelationStoreMissing] else []) @
           (if url = [] then [CorrelationURLMissing]
            else if \<not> hasPrefix url ''http://'' \<and> \<not> hasPrefix url ''https://''
            then [CorrelationURLNotHTTP] else []) @
           (if token = [] then [CorrelationTokenMissing] else []) @
           outboxValidationErrors c)"

definition appErrors :: "app_config gomap \<Rightarrow> cfg_error list" where
  "appErrors apps =
     concat (map (\<lambda>(name, app).
       (if ga_appID app = 0 then [AppIDRequired name] else []) @
       (if ga_privateKeyPath app = [] then [AppKeyRequired name] else []) @
       (if ga_installations app = [] then [AppInstallationsEmpty name] else [])) apps)"

definition profileErrors :: "tripwire_profile gomap \<Rightarrow> cfg_error list" where
  "profileErrors ps =
     concat (map (\<lambda>(profile, sc).
       (if profile = [] \<or> tp_generation sc < 1 \<or> (\<not> tp_allowHalt sc \<and> \<not> tp_allowFence sc)
        then [ProfileInvalid profile] else []) @
       (if tp_allowFence sc \<and> tp_bindings sc = [] then [ProfileFenceWithoutBindings profile] else []) @
       concat (map (\<lambda>b.
         if tb_workerID b = [] \<or> tb_logicalSessionID b = [] \<or> tb_sessionLineageID b = [] \<or>
            tb_workerStorageLineageID b = [] \<or> tb_workerFenceEpoch b < 1
         then [ProfileIncompleteBinding profile] else []) (tp_bindings sc))) ps)"

definition boundsErrors :: "tripwire_bounds \<Rightarrow> cfg_error list" where
  "boundsErrors b =
     (if tw_maxCommits b < 1 \<or> tw_maxCommits b > 1000 \<or> tw_maxPaths b < 1 \<or> tw_maxPaths b > 3000 \<or>
         tw_maxCommitMessageBytes b < 1 \<or> tw_maxCommitMessageBytes b > 2 ^ 20 \<or>
         tw_maxBlobBytes b < 1 \<or> tw_maxBlobBytes b > 10 * 2 ^ 20 \<or>
         tw_maxTotalBytes b < 1 \<or> tw_maxTotalBytes b > 64 * 2 ^ 20
      then [TripwireBoundsOutside] else [])"

text \<open>\<open>re p\<close> is \<open>regexp.Compile p\<close>: \<open>None\<close> for an error, else \<open>MatchString\<close> of the result.\<close>

definition tripwireRepoErrors ::
  "(string \<Rightarrow> (string \<Rightarrow> bool) option) \<Rightarrow> github_config \<Rightarrow> tripwire_repository gomap \<Rightarrow> cfg_error list"
where
  "tripwireRepoErrors re g repos =
     concat (map (\<lambda>(repo, tr).
       if count_list repo (CHR ''/'') \<noteq> 1 \<or> toLower repo \<noteq> repo then [TripwireRepoNotLower repo]
       else
         (let appName = (if tr_githubApp tr = [] then ''default'' else tr_githubApp tr) in
          (if InstallationIDForApp g appName repo = None
           then [TripwireRepoNotCovered repo appName] else [])) @
         (if \<not> hasPrefix (tr_baseRef tr) ''refs/heads/'' \<or> length (tr_baseRef tr) > 240
          then [TripwireRepoBaseRef repo] else []) @
         (if tr_refPatterns tr = [] then [TripwireRepoNoPatterns repo] else []) @
         concat (map (\<lambda>pattern.
           if \<not> hasPrefix pattern ''^'' \<or> \<not> hasSuffix pattern ''$''
           then [TripwirePatternNotAnchored repo]
           else if re pattern = None then [TripwirePatternInvalid repo] else [])
           (tr_refPatterns tr))) repos)"

definition tripwireErrors ::
  "(string \<Rightarrow> (string \<Rightarrow> bool) option) \<Rightarrow> github_config \<Rightarrow> tripwire_config \<Rightarrow> cfg_error list" where
  "tripwireErrors re g t =
     (if \<not> tc_enabled t then []
      else
        (if tc_scannerID t = [] then [ScannerIDRequired] else []) @
        (if tc_scannerSecret t = [] then [ScannerSecretRequired] else []) @
        (if tc_statePath t = [] then [TripwireStatePathRequired] else []) @
        (if tc_repositories t = [] then [TripwireRepositoriesEmpty] else []) @
        (if tc_responseProfiles t = [] then [TripwireProfilesEmpty] else []) @
        profileErrors (tc_responseProfiles t) @
        boundsErrors (tc_bounds t) @
        tripwireRepoErrors re g (tc_repositories t))"

text \<open>The body of the loop over the agents; \<open>seen\<close> holds the identifiers of the agents before.\<close>

definition oneAgentErrors :: "github_config \<Rightarrow> string list \<Rightarrow> agent \<Rightarrow> cfg_error list" where
  "oneAgentErrors g seen a =
     (if ag_id a = [] then [AgentIDRequired] else []) @
     (if ag_id a \<in> set seen then [DuplicateAgentID (ag_id a)] else []) @
     (if ag_gitReceivePack a \<noteq> [] \<and> ag_gitReceivePack a \<noteq> ''allow_opaque'' \<and>
         ag_gitReceivePack a \<noteq> ''deny_opaque''
      then [AgentReceivePackInvalid (ag_id a)] else []) @
     (if ag_enabled a \<and> ag_secret a = [] then [AgentNoSecret (ag_id a)] else []) @
     (let appName = GitHubAppName a in
      if gget (AppContexts g) appName = None then [AgentUnknownApp (ag_id a) appName]
      else if ag_enabled a then
        concat (map (\<lambda>repo.
          if repo = [] then []
          else if InstallationIDForApp g appName repo = None
          then [AgentRepoNotCovered (ag_id a) repo appName] else []) (ag_repositories a))
      else []) @
     (if \<not> guardValidate (ag_branchGuard a) then [AgentBranchGuard (ag_id a)] else [])"

fun agentErrors :: "github_config \<Rightarrow> string list \<Rightarrow> agent list \<Rightarrow> cfg_error list" where
  "agentErrors g seen [] = []"
| "agentErrors g seen (a # as) = oneAgentErrors g seen a @ agentErrors g (ag_id a # seen) as"

definition configErrors ::
  "(string \<Rightarrow> (string \<Rightarrow> bool) option) \<Rightarrow> broker_config \<Rightarrow> cfg_error list" where
  "configErrors re c =
     (let apps = AppContexts (bc_github c) in
      (if sc_localSandboxOnly (bc_server c) then
         (if sc_production (bc_server c) then [LocalOnlyInProduction] else []) @
         (if apps \<noteq> [] then [LocalOnlyWithApps] else []) @
         (if bc_agents c \<noteq> [] then [LocalOnlyWithAgents] else [])
       else if apps = [] then [AppContextRequired] else []) @
      appErrors apps @
      tripwireErrors re (bc_github c) (bc_pushTripwire c) @
      agentErrors (bc_github c) [] (bc_agents c) @
      correlationValidationErrors (bc_correlation c))"

definition configValidate ::
  "(string \<Rightarrow> (string \<Rightarrow> bool) option) \<Rightarrow> broker_config \<Rightarrow> cfg_error list + unit" where
  "configValidate re c =
     (let errs = configErrors re c in if 0 < length errs then Inl errs else Inr ())"

text \<open>What reading the file and decoding its YAML gives.\<close>

datatype config_file = ConfigUnreadable | ConfigNotYAML | ConfigDecoded broker_config

fun load_config ::
  "(string \<Rightarrow> (string \<Rightarrow> bool) option) \<Rightarrow> (string \<Rightarrow> string) \<Rightarrow> config_file \<Rightarrow>
     cfg_error list + broker_config" where
  "load_config re env ConfigUnreadable = Inl [ConfigReadError]"
| "load_config re env ConfigNotYAML = Inl [ConfigYAMLError]"
| "load_config re env (ConfigDecoded decoded) =
     (let cfg = resolveSecrets env (applyDefaults decoded) in
      case configValidate re cfg of Inl errs \<Rightarrow> Inl errs | Inr _ \<Rightarrow> Inr cfg)"

section \<open>Lemmas\<close>

definition agent_ok :: "github_config \<Rightarrow> agent \<Rightarrow> bool" where
  "agent_ok g a \<longleftrightarrow>
     ag_id a \<noteq> [] \<and>
     (ag_enabled a \<longrightarrow> ag_secret a \<noteq> [] \<and>
        (\<forall>repo \<in> set (ag_repositories a). repo \<noteq> [] \<longrightarrow>
           InstallationIDForApp g (GitHubAppName a) repo \<noteq> None)) \<and>
     gget (AppContexts g) (GitHubAppName a) \<noteq> None \<and>
     guardValidate (ag_branchGuard a) \<and>
     ag_gitReceivePack a \<in> {[], ''allow_opaque'', ''deny_opaque''}"

definition bounds_ok :: "tripwire_bounds \<Rightarrow> bool" where
  "bounds_ok b \<longleftrightarrow>
     tw_maxCommits b \<in> {1..1000} \<and> tw_maxPaths b \<in> {1..3000} \<and>
     tw_maxCommitMessageBytes b \<in> {1..2 ^ 20} \<and> tw_maxBlobBytes b \<in> {1..10 * 2 ^ 20} \<and>
     tw_maxTotalBytes b \<in> {1..64 * 2 ^ 20}"

lemma err_Nil [simp]: "(if c then [x] else []) = [] \<longleftrightarrow> \<not> c"
  by simp

lemma oneAgentErrors_Nil:
  "oneAgentErrors g seen a = [] \<longleftrightarrow> ag_id a \<notin> set seen \<and> agent_ok g a"
proof -
  let ?cov = "\<lambda>repo. if repo = [] then []
      else if InstallationIDForApp g (GitHubAppName a) repo = None
      then [AgentRepoNotCovered (ag_id a) repo (GitHubAppName a)] else []"
  have cov: "concat (map ?cov rs) = [] \<longleftrightarrow>
      (\<forall>repo \<in> set rs. repo \<noteq> [] \<longrightarrow> InstallationIDForApp g (GitHubAppName a) repo \<noteq> None)" for rs
    by (induction rs) simp_all
  have app: "(if n then [x] else if e then concat (map ?cov rs) else []) = [] \<longleftrightarrow>
      \<not> n \<and> (e \<longrightarrow> concat (map ?cov rs) = [])" for n e x rs
    by simp
  show ?thesis
    unfolding oneAgentErrors_def agent_ok_def Let_def append_is_Nil_conv err_Nil app cov
    by blast
qed

lemma agentErrors_Nil:
  "agentErrors g seen as = [] \<longleftrightarrow>
     distinct (map ag_id as) \<and> set (map ag_id as) \<inter> set seen = {} \<and> (\<forall>a \<in> set as. agent_ok g a)"
  by (induction as arbitrary: seen) (auto simp: oneAgentErrors_Nil)

lemma boundsErrors_Nil: "boundsErrors b = [] \<longleftrightarrow> bounds_ok b"
  by (auto simp: boundsErrors_def bounds_ok_def)

lemma appErrors_Nil:
  "appErrors apps = [] \<longleftrightarrow>
     (\<forall>(name, app) \<in> set apps.
        ga_appID app \<noteq> 0 \<and> ga_privateKeyPath app \<noteq> [] \<and> ga_installations app \<noteq> [])"
  by (auto simp: appErrors_def)

lemma outbox_bounds:
  assumes "correlationValidationErrors c = []" and "OutboxEnabled c"
  shows "OutboxClaimTTLSeconds c \<in> {30..3600}" and "OutboxMaxClaimBatch c \<in> {1..1000}"
    and "isAbsPath (trimSpace (cc_storePath c))" and "CorrelationEnabled c"
proof -
  have store: "trimSpace (cc_storePath c) \<noteq> []"
    and token: "trimSpace (ob_consumerToken (cc_outbox c)) \<noteq> []"
    using assms(2) by (auto simp: OutboxEnabled_def)
  then have "outboxValidationErrors c = []"
    using assms(1) by (simp add: correlationValidationErrors_def Let_def split: if_splits)
  then show "OutboxClaimTTLSeconds c \<in> {30..3600}" "OutboxMaxClaimBatch c \<in> {1..1000}"
    using token by (auto simp: outboxValidationErrors_def Let_def OutboxClaimTTLSeconds_def
        OutboxMaxClaimBatch_def split: if_splits)
  show "isAbsPath (trimSpace (cc_storePath c))" "CorrelationEnabled c"
    using assms(1) store
    by (auto simp: correlationValidationErrors_def Let_def CorrelationEnabled_def split: if_splits)
qed

lemma load_config_InrD:
  assumes "load_config re env src = Inr cfg"
  shows "configErrors re cfg = []"
  using assms by (cases src) (auto simp: configValidate_def Let_def split: sum.splits if_splits)

lemma configErrors_NilD:
  assumes "configErrors re c = []"
  shows "agentErrors (bc_github c) [] (bc_agents c) = []"
    and "correlationValidationErrors (bc_correlation c) = []"
    and "tripwireErrors re (bc_github c) (bc_pushTripwire c) = []"
    and "appErrors (AppContexts (bc_github c)) = []"
  using assms by (simp_all add: configErrors_def Let_def)

lemma firstCovering_Some:
  "firstCovering m repo = Some i \<Longrightarrow> \<exists>key. (key, i) \<in> set m \<and> installationCoversRepo key repo"
  by (induction m repo rule: firstCovering.induct) (auto split: if_splits)

lemma firstCovering_None:
  "firstCovering m repo = None \<longleftrightarrow> (\<forall>(key, i) \<in> set m. \<not> installationCoversRepo key repo)"
  by (induction m repo rule: firstCovering.induct) auto

text \<open>An outbox token alone passes the validation, although the outbox then has no store to drain:
  the early return for an unset correlation comes before the checks of the outbox.\<close>

lemma outbox_alone_unchecked:
  assumes "cc_storePath c = []" and "cc_capabilityAPIURL c = []" and "cc_capabilityAPIToken c = []"
    and "cc_capabilityAPITokenEnv c = []" and "trimSpace (ob_consumerToken (cc_outbox c)) \<noteq> []"
  shows "correlationValidationErrors c = [] \<and> OutboxStoreMissing \<in> set (outboxValidationErrors c)"
  using assms by (simp add: correlationValidationErrors_def outboxValidationErrors_def Let_def)

section \<open>Properties\<close>

text \<open>A configuration the examples load: one App that covers one owner, one enabled agent.\<close>

definition exampleAgent :: agent where
  "exampleAgent =
     \<lparr>ag_id = ''bot'', ag_enabled = True, ag_secret = [], ag_secretEnv = ''BOT_SECRET'',
      ag_githubApp = [], ag_repositories = [''acme/site''], ag_operations = [''pull.create''],
      ag_branchPatterns = [], ag_baseBranches = [''main''],
      ag_branchGuard = \<lparr>bg_mode = [], bg_stalePRStates = [], bg_operations = []\<rparr>,
      ag_permissions = [''contents:read''], ag_metadataAssertions = [], ag_gitReceivePack = []\<rparr>"

definition exampleConfig :: broker_config where
  "exampleConfig =
     \<lparr>bc_server = \<lparr>sc_listen = [], sc_adminSecret = [], sc_adminSecretEnv = [],
        sc_localSandboxOnly = False, sc_production = True\<rparr>,
      bc_auditPath = [],
      bc_github = \<lparr>gh_appID = 7, gh_privateKeyPath = ''/k'', gh_apiBaseURL = [], gh_gitBaseURL = [],
        gh_installations = [(''acme/*'', 11)], gh_apps = []\<rparr>,
      bc_mutationLimits = \<lparr>lc_statePath = [], lc_runMetadataField = [],
        lc_actionMetadataField = [], lc_maxNewObjectsPerRun = 0, lc_classLimits = [],
        lc_operationClasses = []\<rparr>,
      bc_idempotency = \<lparr>ic_statePath = []\<rparr>,
      bc_pushTripwire = \<lparr>tc_enabled = False, tc_scannerID = [], tc_scannerSecret = [],
        tc_scannerSecretEnv = [], tc_statePath = [], tc_repositories = [],
        tc_responseProfiles = [],
        tc_bounds = \<lparr>tw_maxCommits = 0, tw_maxPaths = 0, tw_maxCommitMessageBytes = 0,
          tw_maxBlobBytes = 0, tw_maxTotalBytes = 0\<rparr>\<rparr>,
      bc_correlation = \<lparr>cc_storePath = ''/var/c.db'', cc_capabilityAPIURL = ''http://c'',
        cc_capabilityAPIToken = ''t'', cc_capabilityAPITokenEnv = [],
        cc_outbox = \<lparr>ob_consumerToken = ''o'', ob_consumerTokenEnv = [], ob_claimTTLSeconds = 0,
          ob_maxClaimBatch = 50\<rparr>\<rparr>,
      bc_agents = [exampleAgent]\<rparr>"

text \<open>C2. A configuration that loads is usable: agent identifiers are distinct and not empty, every
  enabled agent has a secret and an App with an installation for each of its repositories, every App
  has an id, a key and installations, the bounds of an enabled push tripwire are in their ranges, and
  when the outbox is enabled its store path is absolute, correlation is enabled, the claim TTL is
  30 to 3600 seconds and a claim takes 1 to 1000 events.\<close>

theorem load_config_sound:
  assumes "load_config re env src = Inr cfg"
  shows "distinct (map ag_id (bc_agents cfg)) \<and> (\<forall>a \<in> set (bc_agents cfg). agent_ok (bc_github cfg) a) \<and>
         (\<forall>(name, app) \<in> set (AppContexts (bc_github cfg)).
            ga_appID app \<noteq> 0 \<and> ga_privateKeyPath app \<noteq> [] \<and> ga_installations app \<noteq> []) \<and>
         (tc_enabled (bc_pushTripwire cfg) \<longrightarrow>
            bounds_ok (tc_bounds (bc_pushTripwire cfg)) \<and> tc_scannerSecret (bc_pushTripwire cfg) \<noteq> []) \<and>
         (OutboxEnabled (bc_correlation cfg) \<longrightarrow>
            OutboxClaimTTLSeconds (bc_correlation cfg) \<in> {30..3600} \<and>
            OutboxMaxClaimBatch (bc_correlation cfg) \<in> {1..1000} \<and>
            isAbsPath (trimSpace (cc_storePath (bc_correlation cfg))) \<and>
            CorrelationEnabled (bc_correlation cfg))"
proof -
  note errs = configErrors_NilD [OF load_config_InrD [OF assms]]
  have "tc_enabled (bc_pushTripwire cfg) \<longrightarrow>
      bounds_ok (tc_bounds (bc_pushTripwire cfg)) \<and> tc_scannerSecret (bc_pushTripwire cfg) \<noteq> []"
    using errs(3) by (simp add: tripwireErrors_def boundsErrors_Nil split: if_splits)
  with errs(1) errs(4) outbox_bounds [OF errs(2)] show ?thesis
    by (simp add: agentErrors_Nil appErrors_Nil)
qed

theorem load_config_sound_witness:
  "\<exists>cfg. load_config (\<lambda>_. None) (\<lambda>v. if v = ''BOT_SECRET'' then ''s3'' else []) (ConfigDecoded exampleConfig) = Inr cfg \<and>
     OutboxMaxClaimBatch (bc_correlation cfg) \<in> {1..1000} \<and> map ag_secret (bc_agents cfg) = [''s3'']"
proof -
  let ?env = "\<lambda>v. if v = ''BOT_SECRET'' then ''s3'' else []"
  let ?cfg = "resolveSecrets ?env (applyDefaults exampleConfig)"
  have ok: "load_config (\<lambda>_. None) ?env (ConfigDecoded exampleConfig) = Inr ?cfg" by code_simp
  have "OutboxEnabled (bc_correlation ?cfg)" by code_simp
  with load_config_sound [OF ok] have "OutboxMaxClaimBatch (bc_correlation ?cfg) \<in> {1..1000}" by simp
  moreover have "map ag_secret (bc_agents ?cfg) = [''s3'']" by code_simp
  ultimately show ?thesis by (intro exI [of _ ?cfg] conjI ok)
qed

text \<open>The installation for a repository is one of the App's own: an entry for the repository in
  lower case wins, then one for the repository as written, then one that covers it by name or by
  owner wildcard, and there is none exactly when the App is unknown or has no such entry.\<close>

theorem InstallationIDForApp_spec:
  "InstallationIDForApp g appName repo =
     (case AppContext g appName of None \<Rightarrow> None | Some app \<Rightarrow>
        if gget (ga_installations app) (toLower repo) \<noteq> None
        then gget (ga_installations app) (toLower repo)
        else if gget (ga_installations app) repo \<noteq> None then gget (ga_installations app) repo
        else map_option snd (find (\<lambda>e. installationCoversRepo (fst e) repo) (ga_installations app)))"
proof -
  have "firstCovering m repo = map_option snd (find (\<lambda>e. installationCoversRepo (fst e) repo) m)"
    for m by (induction m repo rule: firstCovering.induct) auto
  then show ?thesis by (simp add: InstallationIDForApp_def split: option.splits)
qed

text \<open>The map is iterated in an order Go leaves open, and the order can decide which installation
  acts: with an entry for the repository in another case beside a wildcard for its owner, two orders
  of the same map give two installations.\<close>

theorem InstallationIDForApp_order_dependent:
  "\<exists>m m'. distinct (map fst m) \<and> set m = set m' \<and> distinct (map fst m') \<and>
     InstallationIDForApp \<lparr>gh_appID = 1, gh_privateKeyPath = ''k'', gh_apiBaseURL = [],
       gh_gitBaseURL = [], gh_installations = m, gh_apps = []\<rparr> [] ''acme/site'' \<noteq>
     InstallationIDForApp \<lparr>gh_appID = 1, gh_privateKeyPath = ''k'', gh_apiBaseURL = [],
       gh_gitBaseURL = [], gh_installations = m', gh_apps = []\<rparr> [] ''acme/site''"
  by (rule exI [of _ "[(''Acme/Site'', 1), (''acme/*'', 2)]"],
      rule exI [of _ "[(''acme/*'', 2), (''Acme/Site'', 1)]"]) code_simp

end
