(* ===== verification/Go_Regexp.thy ===== *)
theory Go_Regexp
  imports Go_Prelude
begin

text \<open>
  The regular expressions the source compiles from constants (\<open>regexp.MustCompile\<close>), all of them
  anchored with \<open>^\<close> and \<open>$\<close>, so that \<open>MatchString\<close> decides whether the whole string is in the
  language. Each constant is transcribed as a term of the datatype below; \<open>re_match\<close> runs it on a
  string by derivatives, and \<open>re_match_iff\<close> says that this is membership in the language.
  Patterns that come from the configuration are arguments of the definitions that use them.
\<close>

datatype re =
    ReZero
  | ReEps
  | ReCls "(char \<times> char) list"
  | ReSeq re re
  | ReAlt re re
  | ReStar re
  | ReRep nat nat re

definition in_class :: "char \<Rightarrow> (char \<times> char) list \<Rightarrow> bool" where
  "in_class c cs = list_ex (\<lambda>(a, b). (of_char a :: nat) \<le> of_char c \<and> (of_char c :: nat) \<le> of_char b) cs"

definition reSeq :: "re \<Rightarrow> re \<Rightarrow> re" where
  "reSeq r q =
     (if r = ReZero \<or> q = ReZero then ReZero else if r = ReEps then q else ReSeq r q)"

definition reAlt :: "re \<Rightarrow> re \<Rightarrow> re" where
  "reAlt r q = (if r = ReZero then q else if q = ReZero then r else ReAlt r q)"

fun nullable :: "re \<Rightarrow> bool" where
  "nullable ReZero = False"
| "nullable ReEps = True"
| "nullable (ReCls cs) = False"
| "nullable (ReSeq r q) = (nullable r \<and> nullable q)"
| "nullable (ReAlt r q) = (nullable r \<or> nullable q)"
| "nullable (ReStar r) = True"
| "nullable (ReRep lo hi r) = (lo = 0 \<or> (nullable r \<and> lo \<le> hi))"

fun deriv :: "char \<Rightarrow> re \<Rightarrow> re" where
  "deriv c ReZero = ReZero"
| "deriv c ReEps = ReZero"
| "deriv c (ReCls cs) = (if in_class c cs then ReEps else ReZero)"
| "deriv c (ReSeq r q) =
     (if nullable r then reAlt (reSeq (deriv c r) q) (deriv c q) else reSeq (deriv c r) q)"
| "deriv c (ReAlt r q) = reAlt (deriv c r) (deriv c q)"
| "deriv c (ReStar r) = reSeq (deriv c r) (ReStar r)"
| "deriv c (ReRep lo hi r) =
     (if hi = 0 then ReZero else reSeq (deriv c r) (ReRep (lo - 1) (hi - 1) r))"

fun re_match :: "re \<Rightarrow> string \<Rightarrow> bool" where
  "re_match r [] = nullable r"
| "re_match r (c # s) = re_match (deriv c r) s"

definition rePlus :: "re \<Rightarrow> re" where
  "rePlus r = ReSeq r (ReStar r)"

definition reOpt :: "re \<Rightarrow> re" where
  "reOpt r = ReAlt r ReEps"

fun reLit :: "string \<Rightarrow> re" where
  "reLit [] = ReEps"
| "reLit (c # s) = ReSeq (ReCls [(c, c)]) (reLit s)"

text \<open>Patterns of the configuration: what compiling one gives, when it compiles, is its test of a string.\<close>

type_synonym regexps = "string \<Rightarrow> (string \<Rightarrow> bool) option"

text \<open>The language of an expression.\<close>

inductive re_acc :: "re \<Rightarrow> string \<Rightarrow> bool" where
  eps: "re_acc ReEps []"
| cls: "in_class c cs \<Longrightarrow> re_acc (ReCls cs) [c]"
| seq: "re_acc r s \<Longrightarrow> re_acc q t \<Longrightarrow> re_acc (ReSeq r q) (s @ t)"
| altL: "re_acc r s \<Longrightarrow> re_acc (ReAlt r q) s"
| altR: "re_acc q s \<Longrightarrow> re_acc (ReAlt r q) s"
| star0: "re_acc (ReStar r) []"
| starS: "re_acc r s \<Longrightarrow> re_acc (ReStar r) t \<Longrightarrow> re_acc (ReStar r) (s @ t)"
| rep0: "re_acc (ReRep 0 hi r) []"
| repS: "re_acc r s \<Longrightarrow> re_acc (ReRep (lo - 1) hi r) t \<Longrightarrow> re_acc (ReRep lo (Suc hi) r) (s @ t)"

inductive_cases acc_zeroE [elim!]: "re_acc ReZero s"
inductive_cases acc_epsE [elim!]: "re_acc ReEps s"
inductive_cases acc_clsE [elim!]: "re_acc (ReCls cs) s"
inductive_simps acc_seq_iff: "re_acc (ReSeq r q) s"
inductive_simps acc_alt_iff: "re_acc (ReAlt r q) s"
inductive_cases acc_starE: "re_acc (ReStar r) s"
inductive_cases acc_repE: "re_acc (ReRep lo hi r) s"

section \<open>The matcher decides the language\<close>

lemma acc_reSeq [simp]: "re_acc (reSeq r q) s = re_acc (ReSeq r q) s"
  unfolding reSeq_def by (auto simp: acc_seq_iff intro: re_acc.intros)

lemma acc_reAlt [simp]: "re_acc (reAlt r q) s = re_acc (ReAlt r q) s"
  unfolding reAlt_def by (auto simp: acc_alt_iff)

lemma acc_rep_pad: "re_acc r [] \<Longrightarrow> re_acc (ReRep lo hi r) t \<Longrightarrow> re_acc (ReRep (Suc lo) (Suc hi) r) t"
  using re_acc.repS [of r "[]" "Suc lo" hi t] by simp

lemma acc_rep_unfold:
  "re_acc (ReRep lo hi r) t \<longleftrightarrow>
     (lo = 0 \<and> t = []) \<or>
     (\<exists>k x y. hi = Suc k \<and> t = x @ y \<and> re_acc r x \<and> re_acc (ReRep (lo - 1) k r) y)"
  by (auto elim: acc_repE intro: re_acc.intros)

lemma acc_rep_widen: "re_acc (ReRep lo hi r) t \<Longrightarrow> re_acc (ReRep lo (Suc hi) r) t"
proof (induction hi arbitrary: lo t)
  case 0
  then show ?case by (auto elim: acc_repE intro: re_acc.intros)
next
  case (Suc hi)
  from Suc.prems consider "lo = 0" "t = []"
    | x y where "t = x @ y" "re_acc r x" "re_acc (ReRep (lo - 1) hi r) y"
    unfolding acc_rep_unfold [of lo "Suc hi"] by blast
  then show ?case
  proof cases
    case 1
    then show ?thesis by (simp add: re_acc.rep0)
  next
    case 2
    with Suc.IH [of "lo - 1" y] show ?thesis by (simp add: re_acc.repS)
  qed
qed

lemma nullable_iff: "nullable r = re_acc r []"
proof (induction r)
  case (ReStar r)
  then show ?case by (auto intro: re_acc.intros)
next
  case (ReRep lo hi r)
  have "re_acc (ReRep lo hi r) []" if "re_acc r []" "lo \<le> hi"
    using that(2)
  proof (induction lo arbitrary: hi)
    case (Suc lo)
    then show ?case using acc_rep_pad [OF that(1)] by (cases hi) auto
  qed (rule re_acc.rep0)
  moreover have "lo = 0 \<or> (re_acc r [] \<and> lo \<le> hi)" if "re_acc (ReRep lo hi r) []"
    using that
  proof (induction hi arbitrary: lo)
    case (Suc hi)
    from Suc.prems show ?case
      by (rule acc_repE) (use Suc.IH [of "lo - 1"] in auto)
  qed (auto elim: acc_repE)
  ultimately show ?case using ReRep by (auto intro: re_acc.intros)
qed (auto simp: acc_seq_iff acc_alt_iff intro: re_acc.intros)

lemma acc_star_Cons:
  assumes "re_acc (ReStar r) (c # u)"
  shows "\<exists>s t. re_acc r (c # s) \<and> re_acc (ReStar r) t \<and> u = s @ t"
proof -
  have "re_acc q v \<Longrightarrow> q = ReStar r \<Longrightarrow> v = c # u \<Longrightarrow>
          \<exists>s t. re_acc r (c # s) \<and> re_acc (ReStar r) t \<and> u = s @ t" for q v
    by (induction rule: re_acc.induct) (auto simp: append_eq_Cons_conv)
  with assms show ?thesis by blast
qed

lemma acc_rep_Cons:
  "re_acc (ReRep lo hi r) (c # u) \<Longrightarrow>
     0 < hi \<and> (\<exists>s t. re_acc r (c # s) \<and> re_acc (ReRep (lo - 1) (hi - 1) r) t \<and> u = s @ t)"
proof (induction hi arbitrary: lo)
  case 0
  then show ?case by (auto elim: acc_repE)
next
  case (Suc hi)
  then obtain x y where a: "c # u = x @ y" "re_acc r x" "re_acc (ReRep (lo - 1) hi r) y"
    unfolding acc_rep_unfold [of lo "Suc hi"] by blast
  show ?case
  proof (cases x)
    case Nil
    with a Suc.IH [of "lo - 1"] obtain v w where "0 < hi" and v: "re_acc r (c # v)"
      and w: "re_acc (ReRep (lo - 1 - 1) (hi - 1) r) w" and u: "u = v @ w" by auto
    then obtain k where k: "hi = Suc k" by (cases hi) auto
    have "re_acc (ReRep (lo - 1) hi r) w"
    proof (cases "lo - 1")
      case 0
      with w k show ?thesis by (auto intro: acc_rep_widen)
    next
      case (Suc m)
      then have "lo - 1 - 1 = m" by simp
      with w k a(2) Nil Suc show ?thesis by (metis acc_rep_pad diff_Suc_1)
    qed
    with v u show ?thesis by auto
  next
    case (Cons d x')
    with a show ?thesis by auto
  qed
qed

lemma deriv_iff: "re_acc (deriv c r) s = re_acc r (c # s)"
proof (induction r arbitrary: s)
  case (ReSeq r q)
  have "re_acc (ReSeq r q) (c # s) \<longleftrightarrow>
      (\<exists>x y. s = x @ y \<and> re_acc r (c # x) \<and> re_acc q y) \<or> (re_acc r [] \<and> re_acc q (c # s))"
    by (auto simp: acc_seq_iff Cons_eq_append_conv)
  then show ?case using ReSeq by (auto simp: nullable_iff acc_seq_iff acc_alt_iff)
next
  case (ReStar r)
  have "re_acc (ReStar r) (c # s) \<longleftrightarrow> (\<exists>x y. s = x @ y \<and> re_acc r (c # x) \<and> re_acc (ReStar r) y)"
    using acc_star_Cons re_acc.starS [of r "c # _"] by fastforce
  then show ?case using ReStar by (auto simp: acc_seq_iff)
next
  case (ReRep lo hi r)
  have "re_acc (ReRep lo hi r) (c # s) \<longleftrightarrow>
      0 < hi \<and> (\<exists>x y. s = x @ y \<and> re_acc r (c # x) \<and> re_acc (ReRep (lo - 1) (hi - 1) r) y)"
    using acc_rep_Cons [of lo hi r c s] re_acc.repS [of r "c # _" lo "hi - 1"] by fastforce
  then show ?case using ReRep by (auto simp: acc_seq_iff)
qed (auto simp: acc_alt_iff intro: re_acc.intros)

theorem re_match_iff: "re_match r s = re_acc r s"
  by (induction s arbitrary: r) (simp_all add: nullable_iff deriv_iff)

section \<open>Languages of the constructions the patterns use\<close>

lemma acc_Lit [simp]: "re_acc (reLit p) s \<longleftrightarrow> s = p"
proof (induction p arbitrary: s)
  case Nil
  then show ?case by (auto intro: re_acc.intros)
next
  case (Cons c p)
  have "in_class d [(c, c)] \<longleftrightarrow> d = c" for d
    by (auto simp: in_class_def)
  with Cons show ?case
    by (auto simp: acc_seq_iff) (metis append_Cons append_Nil re_acc.cls)
qed

lemma acc_star_class: "re_acc (ReStar (ReCls cs)) s \<longleftrightarrow> list_all (\<lambda>c. in_class c cs) s"
proof
  have "re_acc q s \<Longrightarrow> q = ReStar (ReCls cs) \<Longrightarrow> list_all (\<lambda>c. in_class c cs) s" for q
    by (induction rule: re_acc.induct) auto
  then show "re_acc (ReStar (ReCls cs)) s \<Longrightarrow> list_all (\<lambda>c. in_class c cs) s" by blast
next
  show "list_all (\<lambda>c. in_class c cs) s \<Longrightarrow> re_acc (ReStar (ReCls cs)) s"
  proof (induction s)
    case (Cons c s)
    then show ?case using re_acc.starS [OF re_acc.cls, of c cs s] by simp
  qed (simp add: re_acc.star0)
qed

lemma acc_plus_class:
  "re_acc (rePlus (ReCls cs)) s \<longleftrightarrow> s \<noteq> [] \<and> list_all (\<lambda>c. in_class c cs) s"
proof
  show "re_acc (rePlus (ReCls cs)) s \<Longrightarrow> s \<noteq> [] \<and> list_all (\<lambda>c. in_class c cs) s"
    by (auto simp: rePlus_def acc_seq_iff acc_star_class)
next
  assume "s \<noteq> [] \<and> list_all (\<lambda>c. in_class c cs) s"
  then obtain c t where "s = [c] @ t" "in_class c cs" "list_all (\<lambda>c. in_class c cs) t"
    by (cases s) auto
  then show "re_acc (rePlus (ReCls cs)) s"
    unfolding rePlus_def by (metis acc_star_class re_acc.cls re_acc.seq)
qed

lemma acc_rep_class:
  "re_acc (ReRep lo hi (ReCls cs)) s \<longleftrightarrow>
     lo \<le> length s \<and> (length s \<le> hi \<or> s = []) \<and> list_all (\<lambda>c. in_class c cs) s"
proof (induction s arbitrary: lo hi)
  case Nil
  show ?case by (simp add: nullable_iff [symmetric])
next
  case (Cons c s)
  have "re_acc (ReRep lo hi (ReCls cs)) (c # s) \<longleftrightarrow>
      0 < hi \<and> in_class c cs \<and> re_acc (ReRep (lo - 1) (hi - 1) (ReCls cs)) s"
    by (subst deriv_iff [symmetric]) (auto simp: acc_seq_iff intro: re_acc.intros)
  then show ?case unfolding Cons.IH by auto
qed

end
