(* ===== verification/Policy.thy ===== *)
theory Policy
  imports Broker_Config Go_Regexp
begin

text \<open>
  Package \<open>policy\<close> (\<open>src/internal/policy/policy.go\<close>): the check of one request of an agent against
  its configuration. \<open>re\<close> stands for \<open>regexp.Compile\<close> and \<open>MatchString\<close> on the patterns of the
  configuration. The text of a message is a value of \<open>check_message\<close>.

  \<open>authorised\<close> and \<open>field_ok\<close> at the end say, without accumulators or order, what the check decides.
\<close>

section \<open>Data\<close>

record policy_request =
  pr_agent :: agent
  pr_agentID :: string
  pr_repo :: string
  pr_operation :: string
  pr_branch :: string
  pr_baseBranch :: string
  pr_permissions :: "string list"
  pr_metadata :: "string gomap"
  pr_locations :: "string gomap gomap"

datatype check_message =
    PlainMessage string
  | MissingField string string
  | UnexpectedValue string
  | PatternMismatch string

record failed_check =
  fc_dimension :: string
  fc_field :: string
  fc_location :: string
  fc_expected :: string
  fc_actual :: string
  fc_safeToDisplay :: bool
  fc_message :: check_message

record required_change =
  rc_field :: string
  rc_location :: string
  rc_action :: string

datatype decision = DecisionAllow | DecisionDeny | DecisionWarn | DecisionUnset

record policy_result =
  res_allowed :: bool
  res_decision :: decision
  res_failedChecks :: "failed_check list"
  res_warnings :: "failed_check list"
  res_requiredChanges :: "required_change list"

section \<open>Metadata assertions\<close>

definition matchesAny :: "regexps \<Rightarrow> string list \<Rightarrow> string \<Rightarrow> bool" where
  "matchesAny re patterns v =
     list_ex (\<lambda>p. case re p of None \<Rightarrow> False | Some matchString \<Rightarrow> matchString v) patterns"

definition valuesForLocation :: "string \<Rightarrow> policy_request \<Rightarrow> string gomap" where
  "valuesForLocation loc req =
     (if loc = ''request'' \<or> loc = [] then pr_metadata req
      else case gget (pr_locations req) loc of Some values \<Rightarrow> values | None \<Rightarrow> [])"

definition requiredChangeFor :: "assertion_field \<Rightarrow> failed_check \<Rightarrow> required_change" where
  "requiredChangeFor f chk =
     \<lparr>rc_field = af_name f, rc_location = fc_location chk,
      rc_action =
        (if fc_expected chk = ''present'' then ''add the required metadata field''
         else if fc_expected chk \<noteq> []
         then ''change the metadata field to satisfy: '' @ fc_expected chk
         else ''supply valid metadata'')\<rparr>"

definition metadataCheck ::
  "assertion_field \<Rightarrow> string \<Rightarrow> string \<Rightarrow> string \<Rightarrow> check_message \<Rightarrow> failed_check" where
  "metadataCheck f loc expected actual message =
     \<lparr>fc_dimension = ''metadata'', fc_field = af_name f, fc_location = loc, fc_expected = expected,
      fc_actual = actual, fc_safeToDisplay = True, fc_message = message\<rparr>"

text \<open>The loop of \<open>checkField\<close> over the locations of a field.\<close>

fun checkLocations ::
  "regexps \<Rightarrow> assertion_field \<Rightarrow> policy_request \<Rightarrow> string list \<Rightarrow> failed_check option" where
  "checkLocations re f req [] = None"
| "checkLocations re f req (loc # locs) =
     (let v = gstr (valuesForLocation loc req) (af_name f) in
      if v = [] then
        if af_required f
        then Some (metadataCheck f loc ''present'' [] (MissingField (af_name f) loc))
        else checkLocations re f req locs
      else if af_value f \<noteq> [] \<and> v \<noteq> af_value f
      then Some (metadataCheck f loc (af_value f) v (UnexpectedValue (af_name f)))
      else if af_pattern f \<noteq> [] \<and>
        (case re (af_pattern f) of None \<Rightarrow> True | Some matchString \<Rightarrow> \<not> matchString v)
      then Some (metadataCheck f loc (''match '' @ af_pattern f) v (PatternMismatch (af_name f)))
      else checkLocations re f req locs)"

definition checkField :: "regexps \<Rightarrow> assertion_field \<Rightarrow> policy_request \<Rightarrow> failed_check option" where
  "checkField re f req =
     (if af_name f = [] then None
      else checkLocations re f req
        (if af_locations f = [] then [''request''] else af_locations f))"

definition assertionPolicies :: "assertion_policy gomap \<Rightarrow> string \<Rightarrow> assertion_policy list" where
  "assertionPolicies m op =
     (if m = [] then []
      else (case gget m ''*'' of Some ap \<Rightarrow> [ap] | None \<Rightarrow> []) @
           (case gget m op of Some ap \<Rightarrow> [ap] | None \<Rightarrow> []))"

definition assertionMode :: "assertion_policy \<Rightarrow> string" where
  "assertionMode ap =
     (let mode = toLower (trimSpace (ap_mode ap)) in if mode = [] then ''enforce'' else mode)"

definition emptyResult :: policy_result where
  "emptyResult =
     \<lparr>res_allowed = False, res_decision = DecisionUnset, res_failedChecks = [], res_warnings = [],
      res_requiredChanges = []\<rparr>"

fun checkFields ::
  "regexps \<Rightarrow> policy_request \<Rightarrow> string \<Rightarrow> assertion_field list \<Rightarrow> policy_result \<Rightarrow> policy_result" where
  "checkFields re req mode [] res = res"
| "checkFields re req mode (f # fs) res =
     checkFields re req mode fs
       (case checkField re f req of
          None \<Rightarrow> res
        | Some check \<Rightarrow>
            if mode = ''warn'' then res\<lparr>res_warnings := res_warnings res @ [check]\<rparr>
            else res\<lparr>res_failedChecks := res_failedChecks res @ [check],
                     res_requiredChanges := res_requiredChanges res @ [requiredChangeFor f check]\<rparr>)"

fun checkPolicies ::
  "regexps \<Rightarrow> policy_request \<Rightarrow> assertion_policy list \<Rightarrow> policy_result \<Rightarrow> policy_result" where
  "checkPolicies re req [] res = res"
| "checkPolicies re req (ap # aps) res =
     checkPolicies re req aps
       (if assertionMode ap = ''off'' then res
        else checkFields re req (assertionMode ap) (ap_fields ap) res)"

definition checkAssertions :: "regexps \<Rightarrow> policy_request \<Rightarrow> policy_result" where
  "checkAssertions re req =
     checkPolicies re req
       (assertionPolicies (ag_metadataAssertions (pr_agent req)) (pr_operation req)) emptyResult"

section \<open>The check\<close>

definition addFailure ::
  "string \<Rightarrow> string \<Rightarrow> string \<Rightarrow> string \<Rightarrow> policy_result \<Rightarrow> policy_result" where
  "addFailure dimension expected actual message r =
     r\<lparr>res_failedChecks := res_failedChecks r @
        [\<lparr>fc_dimension = dimension, fc_field = [], fc_location = [], fc_expected = expected,
          fc_actual = actual, fc_safeToDisplay = True, fc_message = PlainMessage message\<rparr>]\<rparr>"

definition addChange :: "string \<Rightarrow> string \<Rightarrow> policy_result \<Rightarrow> policy_result" where
  "addChange location action r =
     r\<lparr>res_requiredChanges := res_requiredChanges r @
        [\<lparr>rc_field = [], rc_location = location, rc_action = action\<rparr>]\<rparr>"

fun checkPermissions :: "string list \<Rightarrow> string list \<Rightarrow> policy_result \<Rightarrow> policy_result" where
  "checkPermissions granted [] res = res"
| "checkPermissions granted (p # ps) res =
     checkPermissions granted ps
       (if \<not> containsItem granted p
        then addFailure ''permission'' ''permission in agent allowlist'' p
          ''requested permission is not allowed for this agent'' res
        else res)"

text \<open>The tests of \<open>Check\<close> in their order, each adding to the result.\<close>

definition checkIdentity :: "policy_request \<Rightarrow> policy_result \<Rightarrow> policy_result" where
  "checkIdentity req res =
     (if pr_agentID req = [] \<or> ag_id (pr_agent req) = [] \<or> pr_agentID req \<noteq> ag_id (pr_agent req) \<or>
         \<not> ag_enabled (pr_agent req)
      then addFailure ''agent'' ''enabled authenticated agent'' (pr_agentID req)
        ''agent is not enabled or does not match authenticated identity'' res
      else res)"

definition checkRepo :: "policy_request \<Rightarrow> policy_result \<Rightarrow> policy_result" where
  "checkRepo req res =
     (if \<not> containsFold (ag_repositories (pr_agent req)) (pr_repo req)
      then addFailure ''repo'' ''allowed repository'' (pr_repo req)
        ''repository is not allowed for this agent'' res
      else res)"

definition checkOperation :: "policy_request \<Rightarrow> policy_result \<Rightarrow> policy_result" where
  "checkOperation req res =
     (if \<not> containsItem (ag_operations (pr_agent req)) (pr_operation req)
      then addFailure ''operation'' ''allowed operation'' (pr_operation req)
        ''operation is not allowed for this agent'' res
      else res)"

definition checkBranch :: "regexps \<Rightarrow> policy_request \<Rightarrow> policy_result \<Rightarrow> policy_result" where
  "checkBranch re req res =
     (let patterns = ag_branchPatterns (pr_agent req) in
      if pr_branch req \<noteq> [] \<and> 0 < length patterns \<and> \<not> matchesAny re patterns (pr_branch req)
      then addChange ''branch'' ''use a branch matching one of the allowed branch patterns''
        (addFailure ''branch'' (joinStr patterns '' OR '') (pr_branch req)
          ''branch does not match an allowed pattern'' res)
      else res)"

definition checkBaseBranch :: "policy_request \<Rightarrow> policy_result \<Rightarrow> policy_result" where
  "checkBaseBranch req res =
     (let bases = ag_baseBranches (pr_agent req) in
      if pr_baseBranch req \<noteq> [] \<and> 0 < length bases \<and> \<not> containsItem bases (pr_baseBranch req)
      then addChange ''base_branch'' ''use an allowed base branch''
        (addFailure ''base_branch'' (joinStr bases '', '') (pr_baseBranch req)
          ''base branch is not allowed for this agent'' res)
      else res)"

definition appendResult :: "policy_result \<Rightarrow> policy_result \<Rightarrow> policy_result" where
  "appendResult assertRes res =
     res\<lparr>res_failedChecks := res_failedChecks res @ res_failedChecks assertRes,
         res_warnings := res_warnings res @ res_warnings assertRes,
         res_requiredChanges := res_requiredChanges res @ res_requiredChanges assertRes\<rparr>"

definition decide :: "policy_result \<Rightarrow> policy_result" where
  "decide res =
     (if 0 < length (res_failedChecks res)
      then res\<lparr>res_allowed := False, res_decision := DecisionDeny\<rparr>
      else if 0 < length (res_warnings res) then res\<lparr>res_decision := DecisionWarn\<rparr>
      else res)"

definition policyCheck :: "regexps \<Rightarrow> policy_request \<Rightarrow> policy_result" where
  "policyCheck re req =
     decide (appendResult (checkAssertions re req)
       (checkPermissions (ag_permissions (pr_agent req)) (pr_permissions req)
         (checkBaseBranch req (checkBranch re req (checkOperation req (checkRepo req
           (checkIdentity req
             (emptyResult\<lparr>res_allowed := True, res_decision := DecisionAllow\<rparr>))))))))"

section \<open>Specification\<close>

text \<open>A value satisfies a field when it has the required value and matches the required pattern.\<close>

definition value_ok :: "regexps \<Rightarrow> assertion_field \<Rightarrow> string \<Rightarrow> bool" where
  "value_ok re f v \<longleftrightarrow>
     (if v = [] then \<not> af_required f
      else (af_value f \<noteq> [] \<longrightarrow> v = af_value f) \<and>
           (af_pattern f \<noteq> [] \<longrightarrow> (\<exists>matchString. re (af_pattern f) = Some matchString \<and> matchString v)))"

definition field_ok :: "regexps \<Rightarrow> policy_request \<Rightarrow> assertion_field \<Rightarrow> bool" where
  "field_ok re req f \<longleftrightarrow>
     af_name f = [] \<or>
     (\<forall>loc \<in> (if af_locations f = [] then {''request''} else set (af_locations f)).
        value_ok re f (gstr (valuesForLocation loc req) (af_name f)))"

definition applicable :: "policy_request \<Rightarrow> assertion_policy set" where
  "applicable req =
     {ap. gget (ag_metadataAssertions (pr_agent req)) ''*'' = Some ap \<or>
          gget (ag_metadataAssertions (pr_agent req)) (pr_operation req) = Some ap}"

definition authorised :: "regexps \<Rightarrow> policy_request \<Rightarrow> bool" where
  "authorised re req \<longleftrightarrow>
     (let a = pr_agent req in
      ag_enabled a \<and> pr_agentID req = ag_id a \<and> ag_id a \<noteq> [] \<and>
      (\<exists>r \<in> set (ag_repositories a). equalFold r (pr_repo req)) \<and>
      pr_operation req \<in> set (ag_operations a) \<and>
      (pr_branch req = [] \<or> ag_branchPatterns a = [] \<or>
        (\<exists>p \<in> set (ag_branchPatterns a). \<exists>m. re p = Some m \<and> m (pr_branch req))) \<and>
      (pr_baseBranch req = [] \<or> ag_baseBranches a = [] \<or>
        pr_baseBranch req \<in> set (ag_baseBranches a)) \<and>
      set (pr_permissions req) \<subseteq> set (ag_permissions a) \<and>
      (\<forall>ap \<in> applicable req. assertionMode ap \<notin> {''off'', ''warn''} \<longrightarrow>
        (\<forall>f \<in> set (ap_fields ap). field_ok re req f)))"

definition warned :: "regexps \<Rightarrow> policy_request \<Rightarrow> bool" where
  "warned re req \<longleftrightarrow>
     (\<exists>ap \<in> applicable req. assertionMode ap = ''warn'' \<and>
        (\<exists>f \<in> set (ap_fields ap). \<not> field_ok re req f))"

section \<open>Lemmas\<close>

lemma checkLocations_None:
  "checkLocations re f req locs = None \<longleftrightarrow>
     (\<forall>loc \<in> set locs. value_ok re f (gstr (valuesForLocation loc req) (af_name f)))"
  by (induction locs) (auto simp: Let_def value_ok_def split: option.splits)

lemma checkField_None: "checkField re f req = None \<longleftrightarrow> field_ok re req f"
  by (auto simp: checkField_def field_ok_def checkLocations_None)

lemma checkFields_lists:
  "res_failedChecks (checkFields re req mode fs res) = [] \<longleftrightarrow>
     res_failedChecks res = [] \<and> (mode = ''warn'' \<or> (\<forall>f \<in> set fs. field_ok re req f))"
  "res_warnings (checkFields re req mode fs res) = [] \<longleftrightarrow>
     res_warnings res = [] \<and> (mode \<noteq> ''warn'' \<or> (\<forall>f \<in> set fs. field_ok re req f))"
  by (induction fs arbitrary: res) (auto simp flip: checkField_None split: option.splits)

lemma checkPolicies_lists:
  "res_failedChecks (checkPolicies re req aps res) = [] \<longleftrightarrow>
     res_failedChecks res = [] \<and>
     (\<forall>ap \<in> set aps. assertionMode ap \<notin> {''off'', ''warn''} \<longrightarrow>
        (\<forall>f \<in> set (ap_fields ap). field_ok re req f))"
  "res_warnings (checkPolicies re req aps res) = [] \<longleftrightarrow>
     res_warnings res = [] \<and>
     (\<forall>ap \<in> set aps. assertionMode ap = ''warn'' \<longrightarrow>
        (\<forall>f \<in> set (ap_fields ap). field_ok re req f))"
  by (induction aps arbitrary: res) (auto simp: checkFields_lists)

lemma set_assertionPolicies:
  "set (assertionPolicies (ag_metadataAssertions (pr_agent req)) (pr_operation req)) = applicable req"
  by (auto simp: assertionPolicies_def applicable_def split: option.splits)

lemma checkAssertions_failures:
  "res_failedChecks (checkAssertions re req) = [] \<longleftrightarrow>
     (\<forall>ap \<in> applicable req. assertionMode ap \<notin> {''off'', ''warn''} \<longrightarrow>
        (\<forall>f \<in> set (ap_fields ap). field_ok re req f))"
  by (simp add: checkAssertions_def checkPolicies_lists set_assertionPolicies emptyResult_def)

lemma checkAssertions_warnings:
  "res_warnings (checkAssertions re req) = [] \<longleftrightarrow> \<not> warned re req"
  by (auto simp: checkAssertions_def checkPolicies_lists set_assertionPolicies emptyResult_def
        warned_def)

lemma addFailure_simps [simp]:
  "res_failedChecks (addFailure d e a m r) \<noteq> []"
  "res_warnings (addFailure d e a m r) = res_warnings r"
  "res_allowed (addFailure d e a m r) = res_allowed r"
  "res_decision (addFailure d e a m r) = res_decision r"
  by (simp_all add: addFailure_def)

lemma addChange_simps [simp]:
  "res_failedChecks (addChange l a r) = res_failedChecks r"
  "res_warnings (addChange l a r) = res_warnings r"
  "res_allowed (addChange l a r) = res_allowed r"
  "res_decision (addChange l a r) = res_decision r"
  by (simp_all add: addChange_def)

lemma checkPermissions_simps [simp]:
  "res_warnings (checkPermissions granted ps res) = res_warnings res"
  "res_allowed (checkPermissions granted ps res) = res_allowed res"
  "res_decision (checkPermissions granted ps res) = res_decision res"
  by (induction ps arbitrary: res) simp_all

lemma checkPermissions_failures [simp]:
  "res_failedChecks (checkPermissions granted ps res) = [] \<longleftrightarrow>
     res_failedChecks res = [] \<and> set ps \<subseteq> set granted"
  by (induction ps arbitrary: res) auto

lemma matchesAny_iff:
  "matchesAny re ps v \<longleftrightarrow> (\<exists>p \<in> set ps. \<exists>m. re p = Some m \<and> m v)"
  by (auto simp: matchesAny_def list_ex_iff split: option.splits)

lemmas check_steps =
  checkIdentity_def checkRepo_def checkOperation_def checkBranch_def checkBaseBranch_def Let_def

lemma check_steps_kept [simp]:
  "res_warnings (checkIdentity req res) = res_warnings res"
  "res_warnings (checkRepo req res) = res_warnings res"
  "res_warnings (checkOperation req res) = res_warnings res"
  "res_warnings (checkBranch re req res) = res_warnings res"
  "res_warnings (checkBaseBranch req res) = res_warnings res"
  "res_allowed (checkIdentity req res) = res_allowed res"
  "res_allowed (checkRepo req res) = res_allowed res"
  "res_allowed (checkOperation req res) = res_allowed res"
  "res_allowed (checkBranch re req res) = res_allowed res"
  "res_allowed (checkBaseBranch req res) = res_allowed res"
  "res_decision (checkIdentity req res) = res_decision res"
  "res_decision (checkRepo req res) = res_decision res"
  "res_decision (checkOperation req res) = res_decision res"
  "res_decision (checkBranch re req res) = res_decision res"
  "res_decision (checkBaseBranch req res) = res_decision res"
  by (simp_all add: check_steps)

lemma check_steps_failures [simp]:
  "res_failedChecks (checkIdentity req res) = [] \<longleftrightarrow>
     res_failedChecks res = [] \<and> ag_enabled (pr_agent req) \<and>
     pr_agentID req = ag_id (pr_agent req) \<and> ag_id (pr_agent req) \<noteq> []"
  "res_failedChecks (checkRepo req res) = [] \<longleftrightarrow>
     res_failedChecks res = [] \<and>
     (\<exists>r \<in> set (ag_repositories (pr_agent req)). equalFold r (pr_repo req))"
  "res_failedChecks (checkOperation req res) = [] \<longleftrightarrow>
     res_failedChecks res = [] \<and> pr_operation req \<in> set (ag_operations (pr_agent req))"
  "res_failedChecks (checkBranch re req res) = [] \<longleftrightarrow>
     res_failedChecks res = [] \<and>
     (pr_branch req = [] \<or> ag_branchPatterns (pr_agent req) = [] \<or>
        (\<exists>p \<in> set (ag_branchPatterns (pr_agent req)). \<exists>m. re p = Some m \<and> m (pr_branch req)))"
  "res_failedChecks (checkBaseBranch req res) = [] \<longleftrightarrow>
     res_failedChecks res = [] \<and>
     (pr_baseBranch req = [] \<or> ag_baseBranches (pr_agent req) = [] \<or>
        pr_baseBranch req \<in> set (ag_baseBranches (pr_agent req)))"
  by (auto simp: check_steps matchesAny_iff)

lemma decide_simps:
  "res_failedChecks (decide r) = res_failedChecks r"
  "res_warnings (decide r) = res_warnings r"
  "res_allowed (decide r) \<longleftrightarrow> res_failedChecks r = [] \<and> res_allowed r"
  "res_decision (decide r) =
     (if res_failedChecks r \<noteq> [] then DecisionDeny
      else if res_warnings r \<noteq> [] then DecisionWarn else res_decision r)"
  by (auto simp: decide_def)

lemma appendResult_simps:
  "res_failedChecks (appendResult a r) = res_failedChecks r @ res_failedChecks a"
  "res_warnings (appendResult a r) = res_warnings r @ res_warnings a"
  "res_allowed (appendResult a r) = res_allowed r"
  "res_decision (appendResult a r) = res_decision r"
  by (simp_all add: appendResult_def)

lemmas result_simps = decide_simps appendResult_simps emptyResult_def

lemma policyCheck_failures:
  "res_failedChecks (policyCheck re req) = [] \<longleftrightarrow> authorised re req"
  unfolding policyCheck_def authorised_def Let_def
  by (simp add: result_simps checkAssertions_failures conj_assoc)

lemma policyCheck_allowed:
  "res_allowed (policyCheck re req) \<longleftrightarrow> authorised re req"
  using policyCheck_failures [of re req]
  by (simp add: policyCheck_def result_simps)

lemma policyCheck_warnings:
  "res_warnings (policyCheck re req) = [] \<longleftrightarrow> \<not> warned re req"
  by (simp add: policyCheck_def result_simps checkAssertions_warnings)

lemma policyCheck_decision:
  "res_decision (policyCheck re req) =
     (if res_failedChecks (policyCheck re req) \<noteq> [] then DecisionDeny
      else if res_warnings (policyCheck re req) \<noteq> [] then DecisionWarn else DecisionAllow)"
  by (simp add: policyCheck_def result_simps del: check_steps_failures)

section \<open>Properties\<close>

text \<open>C1. A request is allowed exactly when it is authorised: the authenticated agent is enabled and
  is the configured one, repository, operation, branch, base branch and every permission are in its
  lists, and every enforced metadata assertion for the operation or for all operations holds. The
  decision is to deny when it is not authorised, to warn when it is and a warning-mode assertion
  fails, and to allow otherwise, so that a request is never allowed with a failed check.\<close>

theorem policyCheck_decides_authorisation:
  "(res_allowed (policyCheck re req) \<longleftrightarrow> authorised re req) \<and>
   res_decision (policyCheck re req) =
     (if \<not> authorised re req then DecisionDeny
      else if warned re req then DecisionWarn else DecisionAllow) \<and>
   (res_failedChecks (policyCheck re req) = [] \<longleftrightarrow> authorised re req) \<and>
   (res_warnings (policyCheck re req) = [] \<longleftrightarrow> \<not> warned re req)"
  by (simp add: policyCheck_allowed policyCheck_decision policyCheck_failures policyCheck_warnings)

end
