(* ===== verification/Agent_Auth.thy ===== *)
theory Agent_Auth
  imports Broker_Config
begin

text \<open>
  Package \<open>auth\<close> (\<open>src/internal/auth/auth.go\<close>), which authenticates agents and the administrator,
  and package \<open>metadata\<close> (\<open>src/internal/metadata/metadata.go\<close>), which adds the broker's own fields
  to the metadata of a request and renders them. Of an HTTP request the code reads the value of a
  header and the decoded credentials of basic authentication.
\<close>

section \<open>Authentication\<close>

record http_request =
  hr_header :: "string \<Rightarrow> string"
  hr_basicAuth :: "(string \<times> string) option"

record principal =
  pp_agent :: agent
  pp_id :: string
  pp_transport :: string

definition AuthenticateAgent :: "http_request \<Rightarrow> broker_config \<Rightarrow> principal option" where
  "AuthenticateAgent r cfg =
     (let id0 = hr_header r ''X-Agent-ID''; secret0 = hr_header r ''X-Agent-Secret'';
          (id1, secret) = (if id0 = [] \<or> secret0 = [] then
                             (case hr_basicAuth r of Some (u, p) \<Rightarrow> (u, p) | None \<Rightarrow> (id0, secret0))
                           else (id0, secret0));
          i = trimSpace id1
      in if i = [] \<or> secret = [] then None
         else case AgentByID (bc_agents cfg) i of
           None \<Rightarrow> None
         | Some a \<Rightarrow>
             if \<not> ag_enabled a \<or> ag_secret a = [] then None
             else if secret \<noteq> ag_secret a then None
             else Some \<lparr>pp_agent = a, pp_id = i, pp_transport = i\<rparr>)"

definition AuthenticateAdmin :: "http_request \<Rightarrow> broker_config \<Rightarrow> bool" where
  "AuthenticateAdmin r cfg =
     (if sc_adminSecret (bc_server cfg) = [] then False
      else
        (let got = hr_header r ''X-Admin-Secret'';
             got = (if got = [] then (case hr_basicAuth r of Some (_, p) \<Rightarrow> p | None \<Rightarrow> []) else got)
         in got = sc_adminSecret (bc_server cfg)))"

section \<open>Metadata\<close>

definition WithBrokerFields :: "string gomap \<Rightarrow> string \<Rightarrow> string \<Rightarrow> int \<Rightarrow> string gomap" where
  "WithBrokerFields inp agentID operationID installationID =
     (let out = foldl (\<lambda>m (k, v). gput k v m) [] inp;
          out = (if agentID \<noteq> [] then gput ''Agent-Id'' agentID out else out);
          out = (if operationID \<noteq> [] then gput ''Broker-Operation-Id'' operationID out else out)
      in if installationID \<noteq> 0
         then gput ''GitHub-App-Installation-Id'' (formatInt installationID) out else out)"

definition RenderBlock :: "string gomap \<Rightarrow> string" where
  "RenderBlock values =
     (if values = [] then []
      else
        [CHR 0x0A, CHR 0x0A] @ ''<!-- gh-agent-broker:metadata'' @ [CHR 0x0A] @
        concat (map (\<lambda>k. k @ '': '' @ gstr values k @ [CHR 0x0A]) (sort (map fst values))) @
        ''-->'' @ [CHR 0x0A])"

section \<open>Lemmas\<close>

lemma AgentByID_SomeD: "AgentByID as i = Some a \<Longrightarrow> a \<in> set as \<and> ag_id a = i"
  by (induction as) (auto split: if_splits)

lemma AgentByID_eq_find: "AgentByID as i = find (\<lambda>a. ag_id a = i) as"
  by (induction as) auto

lemma gget_foldl_gput:
  "distinct (map fst xs) \<Longrightarrow>
     gget (foldl (\<lambda>m (k, v). gput k v m) m xs) k =
       (case gget xs k of Some v \<Rightarrow> Some v | None \<Rightarrow> gget m k)"
proof (induction xs arbitrary: m)
  case (Cons x xs)
  then have "k = fst x \<Longrightarrow> gget xs k = None" by (simp add: gget_None_iff)
  with Cons show ?case by (cases x) (auto split: option.splits)
qed simp

lemma gget_eq_same_keys:
  assumes "\<And>k. gget m k = gget m' k" and "distinct (map fst m)" and "distinct (map fst m')"
  shows "sort (map fst m) = sort (map fst m')"
proof -
  have "set (map fst m) = set (map fst m')"
    using assms(1) gget_None_iff [of m] gget_None_iff [of m'] by fastforce
  then have "mset (map fst m) = mset (map fst m')"
    using assms(2,3) set_eq_iff_mset_eq_distinct by blast
  then show ?thesis by (simp add: properties_for_sort)
qed

section \<open>Properties\<close>

text \<open>Whoever is authenticated as an agent presented, in the two headers or else by basic
  authentication, the exact non-empty secret of the first configured agent with the presented
  (trimmed) identifier, and that agent is enabled.\<close>

theorem AuthenticateAgent_sound:
  assumes "AuthenticateAgent r cfg = Some p"
  shows "find (\<lambda>a. ag_id a = pp_id p) (bc_agents cfg) = Some (pp_agent p) \<and>
         ag_enabled (pp_agent p) \<and> ag_id (pp_agent p) = pp_id p \<and> pp_transport p = pp_id p \<and>
         pp_id p \<noteq> [] \<and> ag_secret (pp_agent p) \<noteq> [] \<and>
         ((trimSpace (hr_header r ''X-Agent-ID'') = pp_id p \<and>
           hr_header r ''X-Agent-Secret'' = ag_secret (pp_agent p)) \<or>
          (\<exists>u. hr_basicAuth r = Some (u, ag_secret (pp_agent p)) \<and> trimSpace u = pp_id p))"
  using assms unfolding AuthenticateAgent_def Let_def
  by (auto simp: AgentByID_eq_find [symmetric] dest: AgentByID_SomeD
      split: if_splits option.splits prod.splits)

theorem AuthenticateAgent_sound_witness:
  "\<exists>p. AuthenticateAgent \<lparr>hr_header = (\<lambda>_. []), hr_basicAuth = Some ('' bot'', ''s3'')\<rparr>
       (exampleConfig\<lparr>bc_agents := [exampleAgent\<lparr>ag_secret := ''s3''\<rparr>]\<rparr>) = Some p \<and>
     pp_id p = ''bot'' \<and> ag_enabled (pp_agent p)"
proof -
  let ?p = "\<lparr>pp_agent = exampleAgent\<lparr>ag_secret := ''s3''\<rparr>, pp_id = ''bot'', pp_transport = ''bot''\<rparr>"
  have "AuthenticateAgent \<lparr>hr_header = (\<lambda>_. []), hr_basicAuth = Some ('' bot'', ''s3'')\<rparr>
       (exampleConfig\<lparr>bc_agents := [exampleAgent\<lparr>ag_secret := ''s3''\<rparr>]\<rparr>) = Some ?p" by code_simp
  from this AuthenticateAgent_sound [OF this] show ?thesis by (intro exI [of _ ?p]) simp
qed

text \<open>The fields the broker adds win over what the agent sent, every other field is kept, and
  the rendered block does not depend on the order in which Go iterates over the map.\<close>

theorem broker_fields_win:
  assumes "distinct (map fst inp)" and "agentID \<noteq> []" and "operationID \<noteq> []" and "inst \<noteq> 0"
    and "distinct (map fst m)" and "distinct (map fst m')" and "\<And>k. gget m k = gget m' k"
  shows "gget (WithBrokerFields inp agentID operationID inst) k =
           (if k = ''GitHub-App-Installation-Id'' then Some (formatInt inst)
            else if k = ''Broker-Operation-Id'' then Some operationID
            else if k = ''Agent-Id'' then Some agentID
            else gget inp k) \<and>
         RenderBlock m = RenderBlock m'"
proof
  show "gget (WithBrokerFields inp agentID operationID inst) k =
           (if k = ''GitHub-App-Installation-Id'' then Some (formatInt inst)
            else if k = ''Broker-Operation-Id'' then Some operationID
            else if k = ''Agent-Id'' then Some agentID
            else gget inp k)"
    using assms(1-4) by (simp add: WithBrokerFields_def gget_foldl_gput split: option.splits)
  have "sort (map fst m) = sort (map fst m')"
    using assms(5-7) by (intro gget_eq_same_keys) auto
  moreover from this have "m = [] \<longleftrightarrow> m' = []"
    by (metis length_0_conv length_map length_sort)
  ultimately show "RenderBlock m = RenderBlock m'"
    using assms(7) by (simp add: RenderBlock_def gstr_def)
qed

theorem broker_fields_win_witness:
  "gget (WithBrokerFields [(''Agent-Id'', ''root'')] ''a1'' ''op1'' 7) ''Agent-Id'' = Some ''a1'' \<and>
   RenderBlock [(''b'', ''1''), (''a'', ''2'')] = RenderBlock [(''a'', ''2''), (''b'', ''1'')]"
  using broker_fields_win [of "[(''Agent-Id'', ''root'')]" "''a1''" "''op1''" 7
      "[(''b'', ''1''), (''a'', ''2'')]" "[(''a'', ''2''), (''b'', ''1'')]" "''Agent-Id''"]
  by simp

end
