(* ===== verification/State_File.thy ===== *)
theory State_File
  imports Go_Prelude
begin

text \<open>
  The state files of the mutation budget, of the idempotency records and of the proxy budget: JSON
  documents read whole and replaced by writing a temporary file and renaming it. A file is described
  by what reading and decoding it gives. \<open>json\<close> is a JSON value: two texts that differ in white
  space only, as \<open>MarshalIndent\<close> makes them differ, are the same value; a number that is not whole is given by
  its text (\<open>JFloat\<close>).

  The locale \<open>state_file\<close> is what the clients rely on: a write that succeeds is read back, one that
  fails leaves the file, and a file that cannot be read or decoded is an error. Packages \<open>limits\<close> and
  \<open>idempotency\<close> interpret it.
\<close>

datatype json =
    JNull
  | JBool bool
  | JNum int
  | JFloat string
  | JStr string
  | JArr "json list"
  | JObj "(string \<times> json) list"

datatype 'm jfile =
    NoFile
  | ReadFails
  | EmptyFile
  | BadJSON
  | JSONMap "'m option"

text \<open>\<open>JSONMap None\<close> is a document whose map is null.\<close>

datatype file_error = ReadError | DecodeError | WriteError

locale state_file =
  fixes readf :: "'m jfile \<Rightarrow> file_error + 'm"
    and writef :: "faults \<Rightarrow> 'm \<Rightarrow> 'm jfile \<Rightarrow> (file_error, unit, 'm jfile) outcome"
    and norm :: "'m \<Rightarrow> 'm"
    and empty :: 'm
  assumes write_fails: "failed (writef f m fl) \<Longrightarrow> snd (writef f m fl) = fl"
    and write_reads: "\<not> failed (writef f m fl) \<Longrightarrow> readf (snd (writef f m fl)) = Inr (norm m)"
    and write_no_faults: "\<not> failed (writef no_faults m fl)"
    and read_missing: "readf NoFile = Inr empty" "readf EmptyFile = Inr empty"
    and read_bad: "readf ReadFails = Inl ReadError" "readf BadJSON = Inl DecodeError"
begin

text \<open>A content predicate that \<open>norm\<close> keeps and that the written map has holds of what is read.\<close>

lemma write_keeps:
  assumes "readf fl = Inr m0" and "P m0" and "P m" and "\<And>x. P x \<Longrightarrow> P (norm x)"
    and "readf (snd (writef f m fl)) = Inr m1"
  shows "P m1"
  using assms by (cases "failed (writef f m fl)") (auto simp: write_fails write_reads)

end

end
