(* ===== verification/Limits.thy ===== *)
theory Limits
  imports State_File Broker_Config
begin

text \<open>
  Package \<open>limits\<close> (\<open>src/internal/limits/limits.go\<close>): the budget of new GitHub objects of one run,
  in total and for each class of operation. The counters are in a state file that is read and written
  under one lock, so every call is one step on the file.
\<close>

section \<open>Data\<close>

record run_state =
  rs_total :: int
  rs_classes :: "int gomap"

type_synonym limits_state = "run_state gomap"

datatype limit_reason = NoReason | RunFieldRequired string | RunBudgetExhausted | ClassBudgetExhausted string

record limit_decision =
  ld_allowed :: bool
  ld_reason :: limit_reason
  ld_runID :: string
  ld_class :: string

section \<open>Operations\<close>

fun limits_readState :: "limits_state jfile \<Rightarrow> file_error + limits_state" where
  "limits_readState NoFile = Inr []"
| "limits_readState ReadFails = Inl ReadError"
| "limits_readState EmptyFile = Inr []"
| "limits_readState BadJSON = Inl DecodeError"
| "limits_readState (JSONMap None) = Inr []"
| "limits_readState (JSONMap (Some runs)) = Inr runs"

text \<open>The calls that may fail: \<open>MkdirAll\<close>, \<open>WriteFile\<close> of the temporary file, \<open>Rename\<close>.\<close>

definition limits_writeState ::
  "faults \<Rightarrow> limits_state \<Rightarrow> limits_state jfile \<Rightarrow> (file_error, unit, limits_state jfile) outcome" where
  "limits_writeState f st fl =
     (if f 0 then (Inl WriteError, fl)
      else if f 1 then (Inl WriteError, fl)
      else if f 2 then (Inl WriteError, fl)
      else (Inr (), JSONMap (Some st)))"

definition operationClass :: "limits_config \<Rightarrow> string \<Rightarrow> string gomap \<Rightarrow> string" where
  "operationClass cfg operation metadata =
     (if lc_actionMetadataField cfg \<noteq> [] \<and> gstr metadata (lc_actionMetadataField cfg) \<noteq> []
      then gstr metadata (lc_actionMetadataField cfg)
      else if gstr (lc_operationClasses cfg) operation \<noteq> []
      then gstr (lc_operationClasses cfg) operation
      else operation)"

definition zeroRun :: run_state where
  "zeroRun = \<lparr>rs_total = 0, rs_classes = []\<rparr>"

definition runOf :: "limits_state \<Rightarrow> string \<Rightarrow> run_state" where
  "runOf st runID = (case gget st runID of None \<Rightarrow> zeroRun | Some rs \<Rightarrow> rs)"

definition CheckAndReserve ::
  "faults \<Rightarrow> limits_config \<Rightarrow> string \<Rightarrow> string gomap \<Rightarrow> limits_state jfile \<Rightarrow>
     (file_error, limit_decision, limits_state jfile) outcome" where
  "CheckAndReserve f cfg operation metadata fl =
     (if lc_statePath cfg = [] \<or> lc_maxNewObjectsPerRun cfg = 0 \<and> lc_classLimits cfg = []
      then (Inr \<lparr>ld_allowed = True, ld_reason = NoReason, ld_runID = [], ld_class = []\<rparr>, fl)
      else
        (let runField = (if lc_runMetadataField cfg = [] then ''Run-Id'' else lc_runMetadataField cfg);
             runID = gstr metadata runField
         in if runID = [] then
              (Inr \<lparr>ld_allowed = False, ld_reason = RunFieldRequired runField, ld_runID = [],
                    ld_class = []\<rparr>, fl)
            else
              (let cls = operationClass cfg operation metadata in
               case limits_readState fl of
                 Inl e \<Rightarrow> (Inl e, fl)
               | Inr st \<Rightarrow>
                   (let rs = runOf st runID; limit = gint (lc_classLimits cfg) cls in
                    if lc_maxNewObjectsPerRun cfg > 0 \<and> rs_total rs \<ge> lc_maxNewObjectsPerRun cfg
                    then (Inr \<lparr>ld_allowed = False, ld_reason = RunBudgetExhausted, ld_runID = runID,
                               ld_class = cls\<rparr>, fl)
                    else if limit > 0 \<and> gint (rs_classes rs) cls \<ge> limit
                    then (Inr \<lparr>ld_allowed = False, ld_reason = ClassBudgetExhausted cls,
                               ld_runID = runID, ld_class = cls\<rparr>, fl)
                    else
                      (let rs' = \<lparr>rs_total = wrap64 (rs_total rs + 1),
                                  rs_classes = gput cls (wrap64 (gint (rs_classes rs) cls + 1))
                                                 (rs_classes rs)\<rparr>
                       in case limits_writeState f (gput runID rs' st) fl of
                            (Inl e, fl') \<Rightarrow> (Inl e, fl')
                          | (Inr _, fl') \<Rightarrow>
                              (Inr \<lparr>ld_allowed = True, ld_reason = NoReason, ld_runID = runID,
                                    ld_class = cls\<rparr>, fl'))))))"

section \<open>The state file\<close>

interpretation limits_file: state_file limits_readState limits_writeState "\<lambda>m. m" "[]"
  by unfold_locales
    (auto simp: limits_writeState_def failed_def no_faults_def split: if_splits)

section \<open>The budget\<close>

text \<open>The counters of a file that can be read, and that they are within the limits.\<close>

definition run_total :: "limits_state jfile \<Rightarrow> string \<Rightarrow> int" where
  "run_total fl r =
     (case limits_readState fl of Inl _ \<Rightarrow> 0 | Inr st \<Rightarrow> rs_total (runOf st r))"

definition class_total :: "limits_state jfile \<Rightarrow> string \<Rightarrow> string \<Rightarrow> int" where
  "class_total fl r c =
     (case limits_readState fl of Inl _ \<Rightarrow> 0 | Inr st \<Rightarrow> gint (rs_classes (runOf st r)) c)"

definition within_budget :: "limits_config \<Rightarrow> limits_state jfile \<Rightarrow> bool" where
  "within_budget cfg fl \<longleftrightarrow>
     (\<forall>r. int64_range (run_total fl r) \<and>
          (lc_maxNewObjectsPerRun cfg > 0 \<longrightarrow> run_total fl r \<le> lc_maxNewObjectsPerRun cfg) \<and>
          (\<forall>c. int64_range (class_total fl r c) \<and>
               (gint (lc_classLimits cfg) c > 0 \<longrightarrow>
                  class_total fl r c \<le> gint (lc_classLimits cfg) c)))"

text \<open>The limits of a configuration are values of Go's \<open>int\<close>.\<close>

definition limits_typed :: "limits_config \<Rightarrow> bool" where
  "limits_typed cfg \<longleftrightarrow>
     int64_range (lc_maxNewObjectsPerRun cfg) \<and> (\<forall>c. int64_range (gint (lc_classLimits cfg) c))"

lemma runOf_gput [simp]: "runOf (gput r v st) r' = (if r' = r then v else runOf st r')"
  by (simp add: runOf_def)

lemma limits_writeState_ok:
  "limits_writeState f st fl = (Inr u, fl') \<Longrightarrow> fl' = JSONMap (Some st)"
  by (auto simp: limits_writeState_def split: if_splits)

lemma limits_writeState_err:
  "limits_writeState f st fl = (Inl e, fl') \<Longrightarrow> fl' = fl"
  by (auto simp: limits_writeState_def split: if_splits)

text \<open>What a call does to the file: nothing, or it counts one object for its run and its class, and
  then it was allowed and the counters were below the limits.\<close>

lemma CheckAndReserve_cases:
  assumes "CheckAndReserve f cfg op md fl = (res, fl')"
  obtains (same) "fl' = fl"
  | (counted) st r c where "limits_readState fl = Inr st"
      "res = Inr \<lparr>ld_allowed = True, ld_reason = NoReason, ld_runID = r, ld_class = c\<rparr>" "r \<noteq> []"
      "\<not> (lc_maxNewObjectsPerRun cfg > 0 \<and> rs_total (runOf st r) \<ge> lc_maxNewObjectsPerRun cfg)"
      "\<not> (gint (lc_classLimits cfg) c > 0 \<and>
          gint (rs_classes (runOf st r)) c \<ge> gint (lc_classLimits cfg) c)"
      "fl' = JSONMap (Some (gput r
         \<lparr>rs_total = wrap64 (rs_total (runOf st r) + 1),
          rs_classes = gput c (wrap64 (gint (rs_classes (runOf st r)) c + 1))
                         (rs_classes (runOf st r))\<rparr> st))"
  using assms unfolding CheckAndReserve_def Let_def
  by (auto split: if_splits sum.splits prod.splits dest: limits_writeState_err limits_writeState_ok)

lemma CheckAndReserve_failed:
  "failed (CheckAndReserve f cfg op md fl) \<Longrightarrow> snd (CheckAndReserve f cfg op md fl) = fl"
  by (cases "CheckAndReserve f cfg op md fl" rule: prod.exhaust)
    (auto simp: failed_def elim: CheckAndReserve_cases)

lemma wrap64_incr_below: "int64_range x \<Longrightarrow> int64_range y \<Longrightarrow> x < y \<Longrightarrow> wrap64 (x + 1) = x + 1"
  by (rule wrap64_id) (simp add: int64_range_def)

lemma within_budget_step:
  assumes "limits_typed cfg" and "within_budget cfg fl"
    and "CheckAndReserve f cfg op md fl = (res, fl')"
  shows "within_budget cfg fl'"
  using assms(3)
proof (cases rule: CheckAndReserve_cases)
  case same
  with assms(2) show ?thesis by simp
next
  case (counted st r c)
  have total: "rs_total (runOf st r') = run_total fl r'" for r'
    by (simp add: run_total_def counted(1))
  have cls: "gint (rs_classes (runOf st r')) c' = class_total fl r' c'" for r' c'
    by (simp add: class_total_def counted(1))
  have total': "run_total fl' r' = (if r' = r then wrap64 (run_total fl r + 1) else run_total fl r')" for r'
    by (simp add: run_total_def counted(1,6))
  have cls': "class_total fl' r' c' =
      (if r' = r \<and> c' = c then wrap64 (class_total fl r c + 1) else class_total fl r' c')" for r' c'
    by (simp add: class_total_def counted(1,6))
  have "lc_maxNewObjectsPerRun cfg > 0 \<Longrightarrow> wrap64 (run_total fl r + 1) \<le> lc_maxNewObjectsPerRun cfg"
    using counted(4) assms(1,2) wrap64_incr_below [of "run_total fl r" "lc_maxNewObjectsPerRun cfg"]
    by (simp add: total limits_typed_def within_budget_def)
  moreover have "gint (lc_classLimits cfg) c > 0 \<Longrightarrow>
      wrap64 (class_total fl r c + 1) \<le> gint (lc_classLimits cfg) c"
    using counted(5) assms(1,2) wrap64_incr_below [of "class_total fl r c" "gint (lc_classLimits cfg) c"]
    by (simp add: cls limits_typed_def within_budget_def)
  ultimately show ?thesis
    using assms(2) by (simp add: within_budget_def total' cls')
qed

text \<open>A call as an operation of the store of the budget.\<close>

datatype limits_op = Reserve faults string "string gomap"

primrec limits_exec ::
  "limits_config \<Rightarrow> limits_op \<Rightarrow> limits_state jfile \<Rightarrow> (file_error, limit_decision, limits_state jfile) outcome"
where
  "limits_exec cfg (Reserve f op md) fl = CheckAndReserve f cfg op md fl"

text \<open>What the answer says of the counter of a run: an allowed call for the run adds one, every other
  call leaves it.\<close>

lemma run_total_step:
  assumes "limits_typed cfg" and "within_budget cfg fl" and "lc_maxNewObjectsPerRun cfg > 0"
    and "r \<noteq> []" and "CheckAndReserve f cfg op md fl = (res, fl')"
  shows "run_total fl' r = run_total fl r +
           (case res of Inl _ \<Rightarrow> 0 | Inr d \<Rightarrow> if ld_allowed d \<and> ld_runID d = r then 1 else 0)"
proof -
  have incr: "wrap64 (run_total fl r' + 1) = run_total fl r' + 1"
    if "\<not> run_total fl r' \<ge> lc_maxNewObjectsPerRun cfg" for r'
    using that assms(1-2) by (intro wrap64_incr_below) (auto simp: limits_typed_def within_budget_def)
  show ?thesis
    using assms(3-5) incr unfolding CheckAndReserve_def Let_def
    by (auto simp: run_total_def split: if_splits sum.splits prod.splits
        dest!: limits_writeState_ok limits_writeState_err)
qed

lemma limits_exec_inv:
  assumes "limits_typed cfg \<and> within_budget cfg s"
  shows "limits_typed cfg \<and> within_budget cfg (snd (limits_exec cfg x s))"
  using assms by (cases x) (auto intro: within_budget_step [OF _ _ surjective_pairing])

lemma limits_exec_failed: "failed (limits_exec cfg x s) \<Longrightarrow> snd (limits_exec cfg x s) = s"
  by (cases x) (simp add: CheckAndReserve_failed)

text \<open>The counters of every configuration, and, where runs have a limit, the meter of one run: an
  allowed call for it weighs 1.\<close>

interpretation limits_store:
  atomic_store "limits_exec cfg" "\<lambda>fl. limits_typed cfg \<and> within_budget cfg fl" for cfg
  by unfold_locales (simp_all add: limits_exec_inv limits_exec_failed)

definition allows :: "string \<Rightarrow> limits_op \<Rightarrow> file_error + limit_decision \<Rightarrow> int" where
  "allows r x res =
     (case res of Inl _ \<Rightarrow> 0 | Inr d \<Rightarrow> if ld_allowed d \<and> ld_runID d = r then 1 else 0)"

definition metered :: "limits_config \<Rightarrow> string \<Rightarrow> limits_state jfile \<Rightarrow> bool" where
  "metered cfg r fl \<longleftrightarrow>
     limits_typed cfg \<and> within_budget cfg fl \<and> 0 < lc_maxNewObjectsPerRun cfg \<and> r \<noteq> []"

interpretation limits_meter:
  metered_store "limits_exec cfg" "metered cfg r" "\<lambda>fl. run_total fl r" "allows r"
    "lc_maxNewObjectsPerRun cfg" for cfg r
proof
  fix s x
  show "metered cfg r (snd (limits_exec cfg x s))" if "metered cfg r s"
    using that limits_exec_inv unfolding metered_def by blast
  show "run_total (snd (limits_exec cfg x s)) r = run_total s r + allows r x (fst (limits_exec cfg x s))"
    if "metered cfg r s"
    using that run_total_step [OF _ _ _ _ surjective_pairing]
    by (cases x) (auto simp: metered_def allows_def)
  show "run_total s r \<le> lc_maxNewObjectsPerRun cfg" if "metered cfg r s"
    using that by (simp add: metered_def within_budget_def)
qed

section \<open>Properties\<close>

text \<open>C3. No sequence of calls, whatever fails in between, lets a run create more objects than its
  budget: the calls allowed for the run and the objects counted for it before are at most the limit
  per run, and every counter, in total and for each class, stays within its limit.\<close>

theorem mutation_budget_never_exceeded:
  assumes "limits_typed cfg" and "within_budget cfg fl" and "0 < lc_maxNewObjectsPerRun cfg" and "r \<noteq> []"
  shows "within_budget cfg (run_ops (limits_exec cfg) xs fl) \<and>
         run_total fl r + sum_ops (limits_exec cfg) (allows r) xs fl \<le> lc_maxNewObjectsPerRun cfg"
  using limits_store.inv_run limits_meter.run_within_cap assms unfolding metered_def by blast

definition exampleLimits :: limits_config where
  "exampleLimits =
     \<lparr>lc_statePath = ''/s'', lc_runMetadataField = [], lc_actionMetadataField = [],
      lc_maxNewObjectsPerRun = 2, lc_classLimits = [], lc_operationClasses = []\<rparr>"

lemma within_budget_NoFile: "limits_typed cfg \<Longrightarrow> within_budget cfg NoFile"
  by (simp add: within_budget_def run_total_def class_total_def runOf_def zeroRun_def gint_def
      int64_range_def)

theorem mutation_budget_never_exceeded_witness:
  "sum_ops (limits_exec exampleLimits) (allows ''r1'') (replicate 5 (Reserve no_faults ''issue.create'' [(''Run-Id'', ''r1'')]))
     NoFile \<le> 2 \<and>
   fst (CheckAndReserve no_faults exampleLimits ''issue.create'' [(''Run-Id'', ''r1'')] NoFile) =
     Inr \<lparr>ld_allowed = True, ld_reason = NoReason, ld_runID = ''r1'', ld_class = ''issue.create''\<rparr>"
proof
  have typed: "limits_typed exampleLimits"
    by (simp add: limits_typed_def exampleLimits_def int64_range_def gint_def)
  let ?xs = "replicate 5 (Reserve no_faults ''issue.create'' [(''Run-Id'', ''r1'')])"
  have "run_total NoFile ''r1'' + sum_ops (limits_exec exampleLimits) (allows ''r1'') ?xs NoFile
      \<le> lc_maxNewObjectsPerRun exampleLimits"
    using mutation_budget_never_exceeded [OF typed within_budget_NoFile [OF typed], of "''r1''" ?xs]
    by (simp add: exampleLimits_def)
  then show "sum_ops (limits_exec exampleLimits) (allows ''r1'') ?xs NoFile \<le> 2"
    by (simp add: exampleLimits_def run_total_def runOf_def zeroRun_def)
  show "fst (CheckAndReserve no_faults exampleLimits ''issue.create'' [(''Run-Id'', ''r1'')] NoFile) =
     Inr \<lparr>ld_allowed = True, ld_reason = NoReason, ld_runID = ''r1'', ld_class = ''issue.create''\<rparr>"
    by (simp add: CheckAndReserve_def exampleLimits_def gstr_def gint_def operationClass_def runOf_def
        zeroRun_def limits_writeState_def no_faults_def Let_def)
qed

end
