(* ===== verification/Go_Time.thy ===== *)
theory Go_Time
  imports Go_Prelude
begin

text \<open>
  Instants and their text. A \<open>time.Time\<close> in UTC is the number of nanoseconds since Go's zero time,
  the start of 1 January of the year 1, so that \<open>IsZero\<close> is equality with 0; a \<open>time.Duration\<close> is a
  number of nanoseconds. \<open>formatTime\<close> is \<open>t.UTC().Format(time.RFC3339Nano)\<close>, the text the stores
  write into their timestamp columns: a fixed-width date and time of day, then the fraction of the
  second without its trailing zeros, and without the point when it is 0.

  The last section relates the order of the texts to the order of the instants, because a query of
  the outbox compares the texts.
\<close>

type_synonym gotime = int
type_synonym duration = int

definition isZero :: "gotime \<Rightarrow> bool" where
  "isZero t \<longleftrightarrow> t = 0"

definition nsPerSec :: int where
  "nsPerSec = 1000000000"

section \<open>The civil calendar\<close>

definition leap :: "int \<Rightarrow> bool" where
  "leap y \<longleftrightarrow> (4 dvd y \<and> \<not> 100 dvd y) \<or> 400 dvd y"

definition year_start :: "int \<Rightarrow> int" where
  "year_start y = 365 * (y - 1) + (y - 1) div 4 - (y - 1) div 100 + (y - 1) div 400"

definition year_of :: "int \<Rightarrow> int" where
  "year_of d = (let y = (400 * d) div 146097 + 1 in if year_start (y + 1) \<le> d then y + 1 else y)"

definition days_before :: "bool \<Rightarrow> int \<Rightarrow> int" where
  "days_before l m =
     [0, 31, 59, 90, 120, 151, 181, 212, 243, 273, 304, 334, 365] ! nat (m - 1)
     + (if l \<and> 2 < m then 1 else 0)"

fun month_from :: "bool \<Rightarrow> int \<Rightarrow> int list \<Rightarrow> int \<Rightarrow> int" where
  "month_from l n [] m = m"
| "month_from l n (b # bs) m = (if n < days_before l b then m else month_from l n bs b)"

definition month_of :: "bool \<Rightarrow> int \<Rightarrow> int" where
  "month_of l n = month_from l n [2, 3, 4, 5, 6, 7, 8, 9, 10, 11, 12] 1"

section \<open>The text of an instant\<close>

fun digits_w :: "nat \<Rightarrow> nat \<Rightarrow> string" where
  "digits_w 0 n = []"
| "digits_w (Suc w) n = digits_w w (n div 10) @ [char_of (48 + n mod 10)]"

definition year_text :: "int \<Rightarrow> string" where
  "year_text y =
     (if 0 \<le> y \<and> y \<le> 9999 then digits_w 4 (nat y)
      else if y < 0 \<and> -9999 \<le> y then CHR ''-'' # digits_w 4 (nat (- y))
      else formatInt y)"

definition date_text :: "int \<Rightarrow> string" where
  "date_text d =
     (let y = year_of d; n = d - year_start y; m = month_of (leap y) n
      in year_text y @ ''-'' @ digits_w 2 (nat m) @ ''-'' @
         digits_w 2 (nat (n - days_before (leap y) m + 1)))"

definition clock_text :: "int \<Rightarrow> string" where
  "clock_text s =
     digits_w 2 (nat (s div 3600)) @ '':'' @ digits_w 2 (nat (s mod 3600 div 60)) @ '':'' @
     digits_w 2 (nat (s mod 60))"

definition second_text :: "int \<Rightarrow> string" where
  "second_text s = date_text (s div 86400) @ ''T'' @ clock_text (s mod 86400)"

definition fraction_text :: "nat \<Rightarrow> string" where
  "fraction_text ns =
     (let ds = rev (dropWhile (\<lambda>c. c = CHR ''0'') (rev (digits_w 9 ns)))
      in if ds = [] then [] else CHR ''.'' # ds)"

definition formatTime :: "gotime \<Rightarrow> string" where
  "formatTime t = second_text (t div nsPerSec) @ fraction_text (nat (t mod nsPerSec)) @ ''Z''"

section \<open>The calendar is right\<close>

text \<open>The quotients are named before the arithmetic, which would otherwise split each of them.\<close>

lemma div_between: "0 < k \<Longrightarrow> \<exists>q. (x::int) div k = q \<and> k * q \<le> x \<and> x \<le> k * q + (k - 1)"
proof (intro exI conjI)
  assume "0 < k"
  then have "0 \<le> x mod k" "x mod k < k" by (rule pos_mod_sign, rule pos_mod_bound)
  then show "k * (x div k) \<le> x" "x \<le> k * (x div k) + (k - 1)"
    using mult_div_mod_eq [of k x] by linarith+
qed (rule refl)

lemma year_start_between:
  "400 * year_start (x + 1) \<le> 146097 * x + 396" "146097 * x - 699 \<le> 400 * year_start (x + 1)"
proof -
  obtain a where a: "x div 4 = a" "4 * a \<le> x" "x \<le> 4 * a + 3" using div_between [of 4 x] by auto
  obtain b where b: "x div 100 = b" "100 * b \<le> x" "x \<le> 100 * b + 99" using div_between [of 100 x] by auto
  obtain c where c: "x div 400 = c" "400 * c \<le> x" "x \<le> 400 * c + 399" using div_between [of 400 x] by auto
  have "year_start (x + 1) = 365 * x + a - b + c"
    unfolding year_start_def add_diff_cancel_right' a(1) b(1) c(1) by (rule refl)
  then show "400 * year_start (x + 1) \<le> 146097 * x + 396" "146097 * x - 699 \<le> 400 * year_start (x + 1)"
    using a(2,3) b(2,3) c(2,3) by linarith+
qed

lemma year_of_bounds: "year_start (year_of d) \<le> d" "d < year_start (year_of d + 1)"
proof -
  obtain k where k: "(400 * d) div 146097 = k" "146097 * k \<le> 400 * d" "400 * d \<le> 146097 * k + 146096"
    using div_between [of 146097 "400 * d"] by auto
  have 1: "year_start (k + 1) \<le> d" using year_start_between(1) [of k] k(2) by linarith
  have 2: "d < year_start (k + 3)" using year_start_between(2) [of "k + 2"] k(3) by (simp add: add.commute)
  have y: "year_of d = (if year_start (k + 2) \<le> d then k + 2 else k + 1)"
    unfolding year_of_def Let_def k(1) by (simp add: add.assoc)
  show "year_start (year_of d) \<le> d" "d < year_start (year_of d + 1)"
    unfolding y using 1 2 by (cases "year_start (k + 2) \<le> d"; simp add: add.assoc)+
qed

lemma year_start_Suc: "year_start (y + 1) = year_start y + (if leap y then 366 else 365)"
proof -
  have step: "(y::int) div k = (y - 1) div k + (if k dvd y then 1 else 0)" if "0 < k" for k
  proof (cases "k dvd y")
    case True
    then obtain q where "y = k * q" by blast
    moreover have "(k * q - 1) div k = q - 1"
      using that by (intro int_div_pos_eq [where r = "k - 1"]) (auto simp: algebra_simps)
    ultimately show ?thesis using that by simp
  next
    case False
    then have "y mod k \<noteq> 0" by (simp add: dvd_eq_mod_eq_0)
    then have "0 \<le> y mod k - 1" "y mod k - 1 < k"
      using that pos_mod_sign [of k y] pos_mod_bound [of k y] by linarith+
    then have "(y - 1) div k = y div k"
      by (intro int_div_pos_eq [where r = "y mod k - 1"]) auto
    then show ?thesis using False by simp
  qed
  have "(400::int) dvd y \<Longrightarrow> 100 dvd y" "(100::int) dvd y \<Longrightarrow> 4 dvd y"
    by (auto intro: dvd_trans [of 100 400] dvd_trans [of 4 100])
  then show ?thesis
    by (auto simp: year_start_def leap_def step [of 4] step [of 100] step [of 400])
qed

lemma year_start_mono: "y \<le> z \<Longrightarrow> year_start y \<le> year_start z"
proof (induction z rule: int_ge_induct)
  case (step i)
  then show ?case by (simp add: year_start_Suc split: if_splits)
qed simp


lemma year_of_pos: "0 \<le> d \<Longrightarrow> 1 \<le> year_of d"
proof (rule ccontr)
  assume d: "0 \<le> d" and "\<not> 1 \<le> year_of d"
  then have "year_start (year_of d + 1) \<le> year_start 1" by (intro year_start_mono) simp
  moreover have "year_start 1 = 0" by (simp add: year_start_def)
  ultimately show False using d year_of_bounds(2) [of d] by simp
qed

lemma year_of_mono: "d \<le> e \<Longrightarrow> year_of d \<le> year_of e"
proof (rule ccontr)
  assume "d \<le> e" and "\<not> year_of d \<le> year_of e"
  then have "year_start (year_of e + 1) \<le> year_start (year_of d)" by (intro year_start_mono) simp
  with \<open>d \<le> e\<close> show False using year_of_bounds [of d] year_of_bounds [of e] by simp
qed

lemma year_day_bound: "d - year_start (year_of d) < (if leap (year_of d) then 366 else 365)"
  using year_of_bounds [of d] by (simp add: year_start_Suc split: if_splits)

lemma days_before_leap:
  "days_before True 1 = 0" "days_before True 2 = 31" "days_before True 3 = 60"
  "days_before True 4 = 91" "days_before True 5 = 121" "days_before True 6 = 152"
  "days_before True 7 = 182" "days_before True 8 = 213" "days_before True 9 = 244"
  "days_before True 10 = 274" "days_before True 11 = 305" "days_before True 12 = 335"
  by (simp_all add: days_before_def)

lemma days_before_common:
  "days_before False 1 = 0" "days_before False 2 = 31" "days_before False 3 = 59"
  "days_before False 4 = 90" "days_before False 5 = 120" "days_before False 6 = 151"
  "days_before False 7 = 181" "days_before False 8 = 212" "days_before False 9 = 243"
  "days_before False 10 = 273" "days_before False 11 = 304" "days_before False 12 = 334"
  by (simp_all add: days_before_def)

lemmas days_values = days_before_leap days_before_common

lemma month_from_mem: "month_from l n bs m \<in> set (m # bs)"
  by (induction bs arbitrary: m) auto

lemma month_from_start: "days_before l m \<le> n \<Longrightarrow> days_before l (month_from l n bs m) \<le> n"
  by (induction bs arbitrary: m) auto

lemma month_from_end:
  "successively (\<lambda>a b. days_before l b \<le> days_before l a + 31) (m # bs) \<Longrightarrow>
     n < days_before l (last (m # bs)) + 31 \<Longrightarrow> n < days_before l (month_from l n bs m) + 31"
  by (induction bs arbitrary: m) auto

lemma month_from_mono:
  "n \<le> k \<Longrightarrow> sorted (m # bs) \<Longrightarrow> month_from l n bs m \<le> month_from l k bs m"
proof (induction bs arbitrary: m)
  case (Cons b bs)
  have "m \<le> month_from l k (b # bs) m" using month_from_mem [of l k "b # bs" m] Cons.prems(2) by auto
  with Cons show ?case by auto
qed simp

lemma month_of_range: "1 \<le> month_of l n" "month_of l n \<le> 12"
  using month_from_mem [of l n "[2, 3, 4, 5, 6, 7, 8, 9, 10, 11, 12]" 1] by (auto simp: month_of_def)

lemma month_of_start: "0 \<le> n \<Longrightarrow> days_before l (month_of l n) \<le> n"
  unfolding month_of_def by (rule month_from_start) (cases l; simp only: days_values)

lemma month_of_end:
  "n < (if l then 366 else 365) \<Longrightarrow> n < days_before l (month_of l n) + 31"
  unfolding month_of_def by (rule month_from_end; cases l; simp add: days_values)

lemma month_of_mono: "n \<le> k \<Longrightarrow> month_of l n \<le> month_of l k"
  unfolding month_of_def by (rule month_from_mono) simp_all

section \<open>The order of the texts\<close>

lemma lex_append:
  fixes xs ys :: "'a::order list"
  shows "length xs = length ys \<Longrightarrow> (xs @ us < ys @ vs) \<longleftrightarrow> xs < ys \<or> (xs = ys \<and> us < vs)"
  by (induction xs ys rule: list_induct2) auto

lemma length_digits_w [simp]: "length (digits_w w n) = w"
  by (induction w arbitrary: n) auto

lemma digit_less: "a < 10 \<Longrightarrow> b < 10 \<Longrightarrow> (char_of (48 + a) :: char) < char_of (48 + b) \<longleftrightarrow> a < (b :: nat)"
  by (simp add: less_char_def)

lemma digits_w_less: "n < m \<Longrightarrow> m < 10 ^ w \<Longrightarrow> digits_w w n < digits_w w m"
proof (induction w arbitrary: n m)
  case 0
  then show ?case by simp
next
  case (Suc w)
  show ?case
  proof (cases "n div 10 < m div 10")
    case True
    with Suc have "digits_w w (n div 10) < digits_w w (m div 10)" by simp
    then show ?thesis by (simp add: lex_append)
  next
    case False
    with Suc.prems have "n div 10 = m div 10" by (simp add: div_le_mono le_antisym)
    moreover from this Suc.prems have "n mod 10 < m mod 10"
      by (metis add_less_cancel_left mult_div_mod_eq)
    ultimately show ?thesis by (simp add: lex_append digit_less)
  qed
qed

lemma length_date_text: "0 \<le> d \<Longrightarrow> year_of d \<le> 9999 \<Longrightarrow> length (date_text d) = 10"
  using year_of_pos [of d] by (simp add: date_text_def Let_def year_text_def)

lemma date_text_less:
  assumes "0 \<le> d" "d < e" "year_of e \<le> 9999"
  shows "date_text d < date_text e"
proof -
  let ?y = "year_of d" and ?z = "year_of e"
  have yz: "1 \<le> ?y" "?y \<le> ?z"
    using assms year_of_pos [of d] year_of_mono [of d e] by simp_all
  show ?thesis
  proof (cases "?y < ?z")
    case True
    then have "digits_w 4 (nat ?y) < digits_w 4 (nat ?z)"
      using yz assms by (intro digits_w_less) auto
    then show ?thesis using yz assms by (simp add: date_text_def Let_def year_text_def lex_append)
  next
    case False
    with yz have eq: "?z = ?y" by simp
    let ?l = "leap ?y"
    let ?n = "d - year_start ?y" and ?k = "e - year_start ?y"
    let ?m = "month_of ?l ?n" and ?q = "month_of ?l ?k"
    have nk: "0 \<le> ?n" "?n < ?k" using year_of_bounds(1) [of d] assms by simp_all
    have k: "?k < days_before ?l ?q + 31"
      using month_of_end [of ?k ?l] year_day_bound [of e] eq by simp
    have mq: "1 \<le> ?m" "?m \<le> ?q" "?q \<le> 12"
      using month_of_range month_of_mono [of ?n ?k ?l] nk by simp_all
    show ?thesis
    proof (cases "?m < ?q")
      case True
      then have "digits_w 2 (nat ?m) < digits_w 2 (nat ?q)"
        using mq by (intro digits_w_less) auto
      then show ?thesis using yz assms eq
        by (simp add: date_text_def Let_def year_text_def lex_append)
    next
      case False
      with mq have q: "?q = ?m" by simp
      have "digits_w 2 (nat (?n - days_before ?l ?m + 1)) < digits_w 2 (nat (?k - days_before ?l ?m + 1))"
        using nk k month_of_start [of ?n ?l] q by (intro digits_w_less) auto
      then show ?thesis using yz assms eq q
        by (simp add: date_text_def Let_def year_text_def lex_append)
    qed
  qed
qed

lemma same_div_less_mod: "(s::int) < u \<Longrightarrow> s div k = u div k \<Longrightarrow> s mod k < u mod k"
  by (metis add_less_cancel_left mult_div_mod_eq)

lemma not_less_same_div: "(s::int) < u \<Longrightarrow> 0 < k \<Longrightarrow> \<not> s div k < u div k \<Longrightarrow> s div k = u div k"
  by (simp add: zdiv_mono1 antisym)

lemma digits2_less: "0 \<le> x \<Longrightarrow> x < y \<Longrightarrow> y < 100 \<Longrightarrow> digits_w 2 (nat x) < digits_w 2 (nat y)"
  by (rule digits_w_less) simp_all

lemma clock_text_less:
  assumes "0 \<le> s" "s < u" "u < 86400"
  shows "clock_text s < clock_text u"
proof (cases "s div 3600 < u div 3600")
  case True
  obtain q where "u div 3600 = q" "3600 * q \<le> u" using div_between [of 3600 u] by auto
  then have "u div 3600 < 100" using assms(3) by linarith
  then have "digits_w 2 (nat (s div 3600)) < digits_w 2 (nat (u div 3600))"
    using assms(1) True by (intro digits2_less pos_imp_zdiv_nonneg_iff [THEN iffD2]) simp_all
  then show ?thesis by (simp add: clock_text_def lex_append)
next
  case False
  with assms have h: "s div 3600 = u div 3600" by (intro not_less_same_div) simp_all
  have sec: "s mod 3600 < u mod 3600" by (rule same_div_less_mod [OF assms(2) h])
  show ?thesis
  proof (cases "s mod 3600 div 60 < u mod 3600 div 60")
    case True
    have "u mod 3600 < 3600" "0 \<le> s mod 3600" by simp_all
    moreover obtain q where "u mod 3600 div 60 = q" "60 * q \<le> u mod 3600" using div_between [of 60 "u mod 3600"] by auto
    ultimately have "u mod 3600 div 60 < 100" "0 \<le> s mod 3600 div 60" by simp_all
    then have "digits_w 2 (nat (s mod 3600 div 60)) < digits_w 2 (nat (u mod 3600 div 60))"
      using True by (intro digits2_less)
    then show ?thesis by (simp add: clock_text_def lex_append h)
  next
    case False
    with sec have m: "s mod 3600 div 60 = u mod 3600 div 60" by (intro not_less_same_div) simp_all
    have "s mod 3600 mod 60 < u mod 3600 mod 60" by (rule same_div_less_mod [OF sec m])
    then have less: "s mod 60 < u mod 60" by (simp add: mod_mod_cancel)
    have "u mod 60 < 60" "0 \<le> s mod 60" by simp_all
    with less have "digits_w 2 (nat (s mod 60)) < digits_w 2 (nat (u mod 60))"
      by (intro digits2_less) simp_all
    then show ?thesis by (simp add: clock_text_def lex_append h m)
  qed
qed

lemma second_text_less:
  assumes "0 \<le> s" "s < u" "year_of (u div 86400) \<le> 9999"
  shows "second_text s < second_text u"
proof (cases "s div 86400 < u div 86400")
  case True
  have len: "length (date_text (s div 86400)) = length (date_text (u div 86400))"
    using assms True year_of_mono [of "s div 86400" "u div 86400"] by (simp add: length_date_text)
  have "date_text (s div 86400) < date_text (u div 86400)"
    using assms True by (intro date_text_less) auto
  then show ?thesis using len by (simp add: second_text_def lex_append)
next
  case False
  with assms have d: "s div 86400 = u div 86400" by (simp add: not_less_same_div)
  with assms have "s mod 86400 < u mod 86400" by (simp add: same_div_less_mod)
  then have "clock_text (s mod 86400) < clock_text (u mod 86400)"
    by (intro clock_text_less) auto
  then show ?thesis by (simp add: second_text_def lex_append d)
qed

lemma length_second_text:
  "0 \<le> s \<Longrightarrow> year_of (s div 86400) \<le> 9999 \<Longrightarrow> length (second_text s) = 19"
  by (simp add: second_text_def clock_text_def length_date_text)

definition in_text_range :: "gotime \<Rightarrow> bool" where
  "in_text_range t \<longleftrightarrow> 0 \<le> t \<and> year_of (t div nsPerSec div 86400) \<le> 9999"

lemma formatTime_less_seconds:
  assumes "in_text_range t" "in_text_range u" "t div nsPerSec < u div nsPerSec"
  shows "formatTime t < formatTime u"
proof -
  let ?s = "t div nsPerSec" and ?v = "u div nsPerSec"
  have "0 \<le> ?s" "0 \<le> ?v" using assms by (simp_all add: in_text_range_def nsPerSec_def pos_imp_zdiv_nonneg_iff)
  with assms have "length (second_text ?s) = length (second_text ?v)" "second_text ?s < second_text ?v"
    by (simp_all add: length_second_text second_text_less in_text_range_def)
  then show ?thesis by (simp add: formatTime_def lex_append)
qed

text \<open>An instant that was written with \<open>formatTime\<close> and read back with \<open>time.Parse\<close>: the instant itself
  when its year has four digits; a text that does not parse is read as the zero time.\<close>

definition storedTime :: "gotime \<Rightarrow> gotime" where
  "storedTime t = (if in_text_range t then t else 0)"

lemma storedTime_in_range [simp]: "in_text_range t \<Longrightarrow> storedTime t = t"
  by (simp add: storedTime_def)

end
