(* ===== verification/Idempotency.thy ===== *)
theory Idempotency
  imports State_File Go_Time Broker_Config
begin

text \<open>
  Package \<open>idempotency\<close> (\<open>src/internal/idempotency/idempotency.go\<close>): records of mutations under
  their idempotency keys, in a state file read and written under one lock. A nil \<open>json.RawMessage\<close>
  is \<open>None\<close>; it is written as \<open>null\<close>, and reading \<open>null\<close> gives the JSON value null, so what is read
  back is \<open>storedRecord\<close> of what was written.
\<close>

section \<open>Data\<close>

record idem_record =
  ir_createdAt :: gotime
  ir_operation :: string
  ir_requestDigest :: string
  ir_status :: int
  ir_body :: "json option"
  ir_pending :: bool
  ir_semanticBody :: string

type_synonym idem_state = "idem_record gomap"

definition zeroRecord :: idem_record where
  "zeroRecord = \<lparr>ir_createdAt = 0, ir_operation = [], ir_requestDigest = [], ir_status = 0,
     ir_body = None, ir_pending = False, ir_semanticBody = []\<rparr>"

definition storedRecord :: "idem_record \<Rightarrow> idem_record" where
  "storedRecord r = r\<lparr>ir_body := Some (case ir_body r of None \<Rightarrow> JNull | Some b \<Rightarrow> b)\<rparr>"

definition storedKeys :: "idem_state \<Rightarrow> idem_state" where
  "storedKeys m = map (\<lambda>(k, r). (k, storedRecord r)) m"

text \<open>What \<open>ReserveExact\<close> returns: the record, whether it was there, whether it conflicts.\<close>

record reserve_answer =
  ra_record :: idem_record
  ra_found :: bool
  ra_conflict :: bool

section \<open>Operations\<close>

fun idem_readState :: "idem_state jfile \<Rightarrow> file_error + idem_state" where
  "idem_readState NoFile = Inr []"
| "idem_readState ReadFails = Inl ReadError"
| "idem_readState EmptyFile = Inr []"
| "idem_readState BadJSON = Inl DecodeError"
| "idem_readState (JSONMap None) = Inr []"
| "idem_readState (JSONMap (Some keys)) = Inr keys"

definition idem_writeState ::
  "faults \<Rightarrow> idem_state \<Rightarrow> idem_state jfile \<Rightarrow> (file_error, unit, idem_state jfile) outcome" where
  "idem_writeState f st fl =
     (if f 0 then (Inl WriteError, fl)
      else if f 1 then (Inl WriteError, fl)
      else if f 2 then (Inl WriteError, fl)
      else (Inr (), JSONMap (Some (storedKeys st))))"

definition ReserveExact ::
  "faults \<Rightarrow> gotime \<Rightarrow> idempotency_config \<Rightarrow> string \<Rightarrow> string \<Rightarrow> string \<Rightarrow> string \<Rightarrow> idem_state jfile \<Rightarrow>
     (file_error, reserve_answer, idem_state jfile) outcome" where
  "ReserveExact f now cfg key operation digest semanticBody fl =
     (if ic_statePath cfg = [] \<or> key = []
      then (Inr \<lparr>ra_record = zeroRecord, ra_found = False, ra_conflict = False\<rparr>, fl)
      else
        case idem_readState fl of
          Inl e \<Rightarrow> (Inl e, fl)
        | Inr st \<Rightarrow>
            (case gget st key of
               Some rec \<Rightarrow>
                 if ir_operation rec \<noteq> operation \<or> ir_requestDigest rec = [] \<or>
                    ir_requestDigest rec \<noteq> digest
                 then (Inr \<lparr>ra_record = rec, ra_found = True, ra_conflict = True\<rparr>, fl)
                 else (Inr \<lparr>ra_record = rec, ra_found = True, ra_conflict = False\<rparr>, fl)
             | None \<Rightarrow>
                 (let rec = zeroRecord\<lparr>ir_createdAt := now, ir_operation := operation,
                              ir_requestDigest := digest, ir_pending := True,
                              ir_semanticBody := semanticBody\<rparr>
                  in case idem_writeState f (gput key rec st) fl of
                       (Inl e, fl') \<Rightarrow> (Inl e, fl')
                     | (Inr _, fl') \<Rightarrow>
                         (Inr \<lparr>ra_record = rec, ra_found = False, ra_conflict = False\<rparr>, fl'))))"

definition LoadRecord ::
  "idempotency_config \<Rightarrow> string \<Rightarrow> idem_state jfile \<Rightarrow> file_error + idem_record \<times> bool" where
  "LoadRecord cfg key fl =
     (if ic_statePath cfg = [] \<or> key = [] then Inr (zeroRecord, False)
      else
        case idem_readState fl of
          Inl e \<Rightarrow> Inl e
        | Inr st \<Rightarrow>
            (case gget st key of None \<Rightarrow> Inr (zeroRecord, False) | Some rec \<Rightarrow> Inr (rec, True)))"

definition StoreRecord ::
  "faults \<Rightarrow> gotime \<Rightarrow> idempotency_config \<Rightarrow> string \<Rightarrow> idem_record \<Rightarrow> idem_state jfile \<Rightarrow>
     (file_error, unit, idem_state jfile) outcome" where
  "StoreRecord f now cfg key rec fl =
     (if ic_statePath cfg = [] \<or> key = [] then (Inr (), fl)
      else
        (let rec = (if isZero (ir_createdAt rec) then rec\<lparr>ir_createdAt := now\<rparr> else rec) in
         case idem_readState fl of
           Inl e \<Rightarrow> (Inl e, fl)
         | Inr st \<Rightarrow> idem_writeState f (gput key rec st) fl))"

section \<open>The state file\<close>

interpretation idem_file: state_file idem_readState idem_writeState storedKeys "[]"
  by unfold_locales
    (auto simp: idem_writeState_def failed_def no_faults_def split: if_splits)

section \<open>Lemmas\<close>

lemma storedRecord_simps [simp]:
  "ir_operation (storedRecord r) = ir_operation r"
  "ir_requestDigest (storedRecord r) = ir_requestDigest r"
  "ir_pending (storedRecord r) = ir_pending r"
  "ir_semanticBody (storedRecord r) = ir_semanticBody r"
  "ir_createdAt (storedRecord r) = ir_createdAt r"
  "ir_status (storedRecord r) = ir_status r"
  "storedRecord (storedRecord r) = storedRecord r"
  by (simp_all add: storedRecord_def)

lemma gget_storedKeys [simp]: "gget (storedKeys m) k = map_option storedRecord (gget m k)"
  by (induction m) (auto simp: storedKeys_def)

lemma idem_writeState_ok:
  "idem_writeState f st fl = (Inr u, fl') \<Longrightarrow> fl' = JSONMap (Some (storedKeys st))"
  by (auto simp: idem_writeState_def split: if_splits)

lemma idem_writeState_err: "idem_writeState f st fl = (Inl e, fl') \<Longrightarrow> fl' = fl"
  by (auto simp: idem_writeState_def split: if_splits)

text \<open>The keys with a record.\<close>

definition idem_has :: "string \<Rightarrow> idem_state jfile \<Rightarrow> bool" where
  "idem_has key fl =
     (case idem_readState fl of Inl _ \<Rightarrow> False | Inr st \<Rightarrow> gget st key \<noteq> None)"

datatype idem_op =
    OpReserve faults gotime string string string string
  | OpLoad string
  | OpStore faults gotime string idem_record

datatype idem_answer = Reserved reserve_answer | Loaded idem_record bool | Stored

fun idem_exec ::
  "idempotency_config \<Rightarrow> idem_op \<Rightarrow> idem_state jfile \<Rightarrow> (file_error, idem_answer, idem_state jfile) outcome"
where
  "idem_exec cfg (OpReserve f now key operation digest body) fl =
     (case ReserveExact f now cfg key operation digest body fl of
        (Inl e, fl') \<Rightarrow> (Inl e, fl') | (Inr a, fl') \<Rightarrow> (Inr (Reserved a), fl'))"
| "idem_exec cfg (OpLoad key) fl =
     (case LoadRecord cfg key fl of Inl e \<Rightarrow> (Inl e, fl) | Inr (r, found) \<Rightarrow> (Inr (Loaded r found), fl))"
| "idem_exec cfg (OpStore f now key rec) fl =
     (case StoreRecord f now cfg key rec fl of
        (Inl e, fl') \<Rightarrow> (Inl e, fl') | (Inr _, fl') \<Rightarrow> (Inr Stored, fl'))"

text \<open>The caller that may go on and post: its reservation found no record.\<close>

definition wins :: "string \<Rightarrow> idem_op \<Rightarrow> file_error + idem_answer \<Rightarrow> bool" where
  "wins key x res =
     (case (x, res) of
        (OpReserve _ _ k _ _ _, Inr (Reserved a)) \<Rightarrow> k = key \<and> \<not> ra_found a
      | _ \<Rightarrow> False)"

lemma idem_exec_failed: "failed (idem_exec cfg x fl) \<Longrightarrow> snd (idem_exec cfg x fl) = fl"
  by (cases x)
    (auto simp: failed_def ReserveExact_def LoadRecord_def StoreRecord_def Let_def
      split: sum.splits prod.splits if_splits option.splits dest: idem_writeState_err)

lemma idem_has_write:
  "idem_writeState f (gput k r st) fl = (res, fl') \<Longrightarrow> idem_readState fl = Inr st \<Longrightarrow>
     idem_has key fl' \<longleftrightarrow> idem_has key fl \<or> (key = k \<and> \<not> failed (res, fl'))"
  by (auto simp: idem_has_def idem_writeState_def failed_def split: if_splits)

lemma idem_has_stays: "idem_has key fl \<Longrightarrow> idem_has key (snd (idem_exec cfg x fl))"
  by (cases x)
    (auto simp: ReserveExact_def LoadRecord_def StoreRecord_def Let_def
      split: sum.splits prod.splits if_splits option.splits dest: idem_has_write)

lemma wins_reserve:
  assumes "wins key x (fst (idem_exec cfg x fl))" and "ic_statePath cfg \<noteq> []" and "key \<noteq> []"
  shows "\<not> idem_has key fl \<and> idem_has key (snd (idem_exec cfg x fl))"
  using assms
  by (cases x)
    (auto simp: wins_def ReserveExact_def Let_def idem_has_def failed_def
      split: sum.splits prod.splits if_splits option.splits dest!: idem_writeState_ok)

interpretation idem_once:
  once_store "idem_exec cfg" "\<lambda>_. ic_statePath cfg \<noteq> [] \<and> key \<noteq> []" "idem_has key" "wins key" for cfg key
  by unfold_locales (auto simp: idem_exec_failed idem_has_stays dest: wins_reserve)

section \<open>Properties\<close>

text \<open>C4. In every sequence of reservations, loads and stores, with whatever failures in between, at
  most one caller that reserves a key is told that nothing was there, so at most one posts; from then
  on the key has a record.\<close>

theorem reservation_won_at_most_once:
  assumes "ic_statePath cfg \<noteq> []" and "key \<noteq> []"
  shows "sum_ops (idem_exec cfg) (\<lambda>x r. of_bool (wins key x r)) xs fl \<le> 1 \<and>
         (idem_has key fl \<longrightarrow>
            sum_ops (idem_exec cfg) (\<lambda>x r. of_bool (wins key x r)) xs fl = 0 \<and>
            idem_has key (run_ops (idem_exec cfg) xs fl))"
  using assms idem_once.takes_at_most_once idem_once.taken_sum idem_once.taken_run by blast

definition exampleReserve :: idem_op where
  "exampleReserve = OpReserve no_faults 5 ''k1'' ''pull.create'' ''d1'' ''b''"

theorem reservation_won_at_most_once_witness:
  "sum_ops (idem_exec \<lparr>ic_statePath = ''/s''\<rparr>) (\<lambda>x r. of_bool (wins ''k1'' x r))
     [exampleReserve, exampleReserve, exampleReserve] NoFile \<le> 1 \<and>
   wins ''k1'' exampleReserve (fst (idem_exec \<lparr>ic_statePath = ''/s''\<rparr> exampleReserve NoFile))"
  using reservation_won_at_most_once [of "\<lparr>ic_statePath = ''/s''\<rparr>" "''k1''"
      "[exampleReserve, exampleReserve, exampleReserve]" NoFile]
  by (simp add: exampleReserve_def wins_def ReserveExact_def idem_writeState_def no_faults_def Let_def)

text \<open>A retry gets the record of the first request: once a record is stored, a reservation of its
  key answers that record and changes nothing, without a conflict exactly for the same operation and
  the same, not empty, digest; a load answers the same record.\<close>

theorem retry_gets_the_record:
  assumes "ic_statePath cfg \<noteq> []" and "key \<noteq> []" and "StoreRecord f t cfg key rec fl = (Inr u, fl')"
  shows "ReserveExact f' now cfg key operation digest body fl' =
           (Inr \<lparr>ra_record = storedRecord (rec\<lparr>ir_createdAt := if isZero (ir_createdAt rec) then t else ir_createdAt rec\<rparr>),
                 ra_found = True,
                 ra_conflict = (\<not> (operation = ir_operation rec \<and> digest = ir_requestDigest rec \<and>
                                   digest \<noteq> []))\<rparr>, fl') \<and>
         LoadRecord cfg key fl' =
           Inr (storedRecord (rec\<lparr>ir_createdAt := if isZero (ir_createdAt rec) then t else ir_createdAt rec\<rparr>), True)"
  using assms
  by (auto simp: ReserveExact_def LoadRecord_def StoreRecord_def Let_def
      split: sum.splits dest!: idem_writeState_ok)

theorem retry_gets_the_record_witness:
  "LoadRecord \<lparr>ic_statePath = ''/s''\<rparr> ''k1''
     (snd (StoreRecord no_faults 5 \<lparr>ic_statePath = ''/s''\<rparr> ''k1'' (zeroRecord\<lparr>ir_status := 201\<rparr>) NoFile)) =
   Inr (storedRecord (zeroRecord\<lparr>ir_status := 201, ir_createdAt := 5\<rparr>), True)"
proof -
  have "fst (StoreRecord no_faults 5 \<lparr>ic_statePath = ''/s''\<rparr> ''k1'' (zeroRecord\<lparr>ir_status := 201\<rparr>) NoFile)
      = Inr ()"
    by (simp add: StoreRecord_def idem_writeState_def no_faults_def zeroRecord_def Let_def)
  then have "StoreRecord no_faults 5 \<lparr>ic_statePath = ''/s''\<rparr> ''k1'' (zeroRecord\<lparr>ir_status := 201\<rparr>) NoFile =
      (Inr (), snd (StoreRecord no_faults 5 \<lparr>ic_statePath = ''/s''\<rparr> ''k1'' (zeroRecord\<lparr>ir_status := 201\<rparr>) NoFile))"
    by (metis prod.collapse)
  from retry_gets_the_record [OF _ _ this] show ?thesis
    by (simp add: zeroRecord_def isZero_def)
qed

end
