(* ===== verification/Release.thy ===== *)
theory Release
  imports Go_Time Go_Regexp
begin

text \<open>
  Package \<open>release\<close> (\<open>src/internal/release/release.go\<close>): the registry of agent releases. The two
  tables of the database are two lists in the order of insertion; \<open>rg_seq\<close> is the sequence of the
  \<open>AUTOINCREMENT\<close> column. Each operation is one transaction whose statements may fail
  (\<open>faults\<close>, in the order of the source); the \<open>i\<close>-th reading of the clock in an operation is \<open>clk i\<close>.
  Timestamp columns hold instants, what is read from them is \<open>storedTime\<close>. The acquisition of an image
  and the check whether it is present are arguments.

  Properties: at most one release of an agent type is active, promotion moves forward only, a launch
  resolves an active release with a local image, reconciliation makes the registry agree with the
  images that are present, and no operation but promotion and rollback changes what is active.
\<close>

section \<open>Data\<close>

datatype release_state = StateCandidate | StateVerified | StateActive | StateSuperseded | StateRolledBack

datatype release_operation =
  OperationPublish | OperationVerify | OperationAcquire | OperationPromote | OperationRollback | OperationEvict

record provenance =
  pv_sourceRevision :: string
  pv_dependencyManifestSHA256 :: string
  pv_platform :: string
  pv_publishedBy :: string
  pv_publishedAt :: string

record release =
  rl_generation :: int
  rl_agentType :: string
  rl_imageReference :: string
  rl_imageDigest :: string
  rl_provenance :: provenance
  rl_state :: release_state
  rl_available :: bool
  rl_createdAt :: gotime
  rl_updatedAt :: gotime

record requirements =
  rq_provenanceFields :: "string list"
  rq_platforms :: "string list"

record audit_entry =
  ae_generation :: int
  ae_agentType :: string
  ae_operation :: release_operation
  ae_actor :: string
  ae_detail :: string
  ae_recordedAt :: gotime

record registry =
  rg_rows :: "release list"
  rg_seq :: int
  rg_audit :: "audit_entry list"

record reconcile_result =
  rr_agentType :: string
  rr_generation :: int
  rr_imageReference :: string
  rr_imageDigest :: string

datatype rel_error =
    RelAgentType | RelNotPinned | RelDigest | RelActor | RelDB
  | ErrRelNotFound int | ErrNoActiveRelease string | ErrUnavailable int
  | ErrNotPromotable int release_state | ErrNotMonotonic int int
  | RelUnknownField string | RelMissingField string | RelPlatform string
  | RelOtherAgentType int string | RelNoCheck | RelCheckFailed string | RelAcquireFailed

section \<open>Image references\<close>

definition lowerDigit :: re where
  "lowerDigit = ReCls [(CHR ''a'', CHR ''z''), (CHR ''0'', CHR ''9'')]"

definition hexDigest :: re where
  "hexDigest = ReRep 64 64 (ReCls [(CHR ''0'', CHR ''9''), (CHR ''a'', CHR ''f'')])"

definition digestPinnedReference :: re where
  "digestPinnedReference =
     ReSeq (rePlus lowerDigit)
       (ReSeq (ReStar (ReSeq (ReCls [(CHR ''.'', CHR ''.''), (CHR ''_'', CHR ''_''),
                                    (CHR ''-'', CHR ''-''), (CHR ''/'', CHR ''/'')])
                             (rePlus lowerDigit)))
         (ReSeq (reOpt (ReSeq (ReCls [(CHR '':'', CHR '':'')])
                   (rePlus (ReCls [(CHR ''A'', CHR ''Z''), (CHR ''a'', CHR ''z''),
                     (CHR ''0'', CHR ''9''), (CHR ''.'', CHR ''.''), (CHR ''_'', CHR ''_''),
                     (CHR ''-'', CHR ''-'')]))))
           (ReSeq (reLit ''@sha256:'') hexDigest)))"

definition digestOnly :: re where
  "digestOnly = ReSeq (reLit ''sha256:'') hexDigest"

definition agentTypePattern :: re where
  "agentTypePattern =
     ReSeq (rePlus lowerDigit) (ReStar (ReSeq (ReCls [(CHR ''-'', CHR ''-'')]) (rePlus lowerDigit)))"

text \<open>The part after the last \<open>@\<close>, if there is one.\<close>

definition afterLastAt :: "string \<Rightarrow> string option" where
  "afterLastAt s =
     (if CHR ''@'' \<in> set s then Some (rev (takeWhile (\<lambda>c. c \<noteq> CHR ''@'') (rev s))) else None)"

definition rel_digestOf :: "string \<Rightarrow> rel_error + string" where
  "rel_digestOf reference =
     (case afterLastAt reference of
        None \<Rightarrow> Inl RelNotPinned
      | Some digest \<Rightarrow> if re_match digestOnly digest then Inr digest else Inl RelDigest)"

section \<open>Rows\<close>

definition scanRelease :: "release \<Rightarrow> release" where
  "scanRelease r =
     r\<lparr>rl_createdAt := storedTime (rl_createdAt r), rl_updatedAt := storedTime (rl_updatedAt r)\<rparr>"

definition findRelease :: "registry \<Rightarrow> int \<Rightarrow> release option" where
  "findRelease s g = find (\<lambda>r. rl_generation r = g) (rg_rows s)"

definition findActive :: "registry \<Rightarrow> string \<Rightarrow> release option" where
  "findActive s t = find (\<lambda>r. rl_agentType r = t \<and> rl_state r = StateActive) (rg_rows s)"

text \<open>\<open>loadTx\<close>, \<open>load\<close> and \<open>Get\<close> are the same query; so are \<open>activeTx\<close> and \<open>Active\<close>. The flag says
  that the query fails.\<close>

definition loadTx :: "bool \<Rightarrow> int \<Rightarrow> registry \<Rightarrow> rel_error + release" where
  "loadTx fails generation s =
     (if fails then Inl RelDB
      else case findRelease s generation of
        None \<Rightarrow> Inl (ErrRelNotFound generation)
      | Some r \<Rightarrow> Inr (scanRelease r))"

definition activeTx :: "bool \<Rightarrow> string \<Rightarrow> registry \<Rightarrow> rel_error + release" where
  "activeTx fails agentType s =
     (if fails then Inl RelDB
      else case findActive s agentType of
        None \<Rightarrow> Inl (ErrNoActiveRelease agentType)
      | Some r \<Rightarrow> Inr (scanRelease r))"

definition setState :: "int \<Rightarrow> release_state \<Rightarrow> gotime \<Rightarrow> registry \<Rightarrow> registry" where
  "setState g st t s =
     s\<lparr>rg_rows := map (\<lambda>r. if rl_generation r = g then r\<lparr>rl_state := st, rl_updatedAt := t\<rparr> else r)
        (rg_rows s)\<rparr>"

definition setAvailable :: "int \<Rightarrow> bool \<Rightarrow> gotime \<Rightarrow> registry \<Rightarrow> registry" where
  "setAvailable g b t s =
     s\<lparr>rg_rows := map (\<lambda>r. if rl_generation r = g then r\<lparr>rl_available := b, rl_updatedAt := t\<rparr> else r)
        (rg_rows s)\<rparr>"

definition rel_audit ::
  "int \<Rightarrow> string \<Rightarrow> release_operation \<Rightarrow> string \<Rightarrow> string \<Rightarrow> gotime \<Rightarrow> registry \<Rightarrow> registry" where
  "rel_audit generation agentType operation actor detail t s =
     s\<lparr>rg_audit := rg_audit s @
        [\<lparr>ae_generation = generation, ae_agentType = agentType, ae_operation = operation,
          ae_actor = actor, ae_detail = detail, ae_recordedAt = t\<rparr>]\<rparr>"

section \<open>Operations\<close>

text \<open>The insert of \<open>PublishCandidate\<close> fails on the unique index of agent type and digest, and when the
  sequence is at its end.\<close>

definition insertRow :: "release \<Rightarrow> registry \<Rightarrow> registry option" where
  "insertRow row s =
     (if \<exists>r \<in> set (rg_rows s). rl_agentType r = rl_agentType row \<and> rl_imageDigest r = rl_imageDigest row
      then None
      else if rg_seq s \<ge> 2 ^ 63 - 1 then None
      else Some (s\<lparr>rg_rows := rg_rows s @ [row\<lparr>rl_generation := rg_seq s + 1\<rparr>], rg_seq := rg_seq s + 1\<rparr>))"

definition PublishCandidate ::
  "faults \<Rightarrow> (nat \<Rightarrow> gotime) \<Rightarrow> string \<Rightarrow> string \<Rightarrow> provenance \<Rightarrow> string \<Rightarrow> registry \<Rightarrow>
     (rel_error, release, registry) outcome" where
  "PublishCandidate f clk agentType imageReference prov actor s =
     (if \<not> re_match agentTypePattern agentType then (Inl RelAgentType, s)
      else if \<not> re_match digestPinnedReference imageReference then (Inl RelNotPinned, s)
      else case rel_digestOf imageReference of
        Inl e \<Rightarrow> (Inl e, s)
      | Inr digest \<Rightarrow>
          if actor = [] then (Inl RelActor, s)
          else if f 0 then (Inl RelDB, s)
          else
            (let row = \<lparr>rl_generation = 0, rl_agentType = agentType, rl_imageReference = imageReference,
                        rl_imageDigest = digest, rl_provenance = prov, rl_state = StateCandidate,
                        rl_available = False, rl_createdAt = clk 0, rl_updatedAt = clk 0\<rparr>
             in if f 1 then (Inl RelDB, s)
                else case insertRow row s of
                  None \<Rightarrow> (Inl RelDB, s)
                | Some s1 \<Rightarrow>
                    if f 2 then (Inl RelDB, s)
                    else if f 3 then (Inl RelDB, s)
                    else if f 4 then (Inl RelDB, s)
                    else (Inr (scanRelease (row\<lparr>rl_generation := rg_seq s1\<rparr>)),
                          rel_audit (rg_seq s1) agentType OperationPublish actor imageReference (clk 1) s1)))"

fun requiredFields :: "release \<Rightarrow> string list \<Rightarrow> rel_error + unit" where
  "requiredFields item [] = Inr ()"
| "requiredFields item (field # fs) =
     (let present = [(''source_revision'', pv_sourceRevision (rl_provenance item)),
                     (''dependency_manifest_sha256'', pv_dependencyManifestSHA256 (rl_provenance item)),
                     (''platform'', pv_platform (rl_provenance item)),
                     (''image_digest'', rl_imageDigest item)]
      in case gget present field of
           None \<Rightarrow> Inl (RelUnknownField field)
         | Some v \<Rightarrow> if v = [] then Inl (RelMissingField field) else requiredFields item fs)"

definition checkRequirements :: "release \<Rightarrow> requirements \<Rightarrow> rel_error + unit" where
  "checkRequirements item req =
     (case requiredFields item (rq_provenanceFields req) of
        Inl e \<Rightarrow> Inl e
      | Inr _ \<Rightarrow>
          if 0 < length (rq_platforms req) \<and>
             \<not> list_ex (\<lambda>p. p = pv_platform (rl_provenance item)) (rq_platforms req)
          then Inl (RelPlatform (pv_platform (rl_provenance item)))
          else Inr ())"

definition rel_verify ::
  "faults \<Rightarrow> (nat \<Rightarrow> gotime) \<Rightarrow> int \<Rightarrow> requirements \<Rightarrow> string \<Rightarrow> registry \<Rightarrow>
     (rel_error, unit, registry) outcome" where
  "rel_verify f clk generation req actor s =
     (if actor = [] then (Inl RelActor, s)
      else if f 0 then (Inl RelDB, s)
      else case loadTx (f 1) generation s of
        Inl e \<Rightarrow> (Inl e, s)
      | Inr item \<Rightarrow>
          if rl_state item \<noteq> StateCandidate \<and> rl_state item \<noteq> StateVerified
          then (Inl (ErrNotPromotable generation (rl_state item)), s)
          else case checkRequirements item req of
            Inl e \<Rightarrow> (Inl e, s)
          | Inr _ \<Rightarrow>
              if f 2 then (Inl RelDB, s)
              else if f 3 then (Inl RelDB, s)
              else if f 4 then (Inl RelDB, s)
              else (Inr (), rel_audit generation (rl_agentType item) OperationVerify actor
                     (rl_imageDigest item) (clk 1) (setState generation StateVerified (clk 0) s)))"

definition markAvailable ::
  "faults \<Rightarrow> (nat \<Rightarrow> gotime) \<Rightarrow> int \<Rightarrow> bool \<Rightarrow> string \<Rightarrow> registry \<Rightarrow>
     (rel_error, unit, registry) outcome" where
  "markAvailable f clk generation available actor s =
     (if actor = [] then (Inl RelActor, s)
      else if f 0 then (Inl RelDB, s)
      else case loadTx (f 1) generation s of
        Inl e \<Rightarrow> (Inl e, s)
      | Inr item \<Rightarrow>
          (let operation = (if available then OperationAcquire else OperationEvict) in
           if f 2 then (Inl RelDB, s)
           else if f 3 then (Inl RelDB, s)
           else if f 4 then (Inl RelDB, s)
           else (Inr (), rel_audit generation (rl_agentType item) operation actor
                  (rl_imageDigest item) (clk 1) (setAvailable generation available (clk 0) s))))"

text \<open>\<open>acquire\<close> answers whether the acquisition of the image succeeds. The faults and clocks of the
  three parts are separate.\<close>

definition VerifyAndMarkAvailable ::
  "faults \<Rightarrow> (nat \<Rightarrow> gotime) \<Rightarrow> bool \<Rightarrow> faults \<Rightarrow> (nat \<Rightarrow> gotime) \<Rightarrow> int \<Rightarrow> requirements \<Rightarrow> string \<Rightarrow>
     string \<Rightarrow> (release \<Rightarrow> bool) \<Rightarrow> registry \<Rightarrow> (rel_error, unit, registry) outcome" where
  "VerifyAndMarkAvailable f clk loadFails f' clk' generation req verifier acquirer acquire s =
     (case rel_verify f clk generation req verifier s of
        (Inl e, s1) \<Rightarrow> (Inl e, s1)
      | (Inr _, s1) \<Rightarrow>
          (case loadTx loadFails generation s1 of
             Inl e \<Rightarrow> (Inl e, s1)
           | Inr item \<Rightarrow>
               if \<not> acquire item then (Inl RelAcquireFailed, s1)
               else markAvailable f' clk' generation True acquirer s1))"

fun isNoActive :: "rel_error \<Rightarrow> bool" where
  "isNoActive (ErrNoActiveRelease _) = True"
| "isNoActive _ = False"

definition Promote ::
  "faults \<Rightarrow> (nat \<Rightarrow> gotime) \<Rightarrow> int \<Rightarrow> string \<Rightarrow> registry \<Rightarrow> (rel_error, unit, registry) outcome" where
  "Promote f clk generation actor s =
     (if actor = [] then (Inl RelActor, s)
      else if f 0 then (Inl RelDB, s)
      else case loadTx (f 1) generation s of
        Inl e \<Rightarrow> (Inl e, s)
      | Inr item \<Rightarrow>
          if rl_state item \<noteq> StateVerified
          then (Inl (ErrNotPromotable generation (rl_state item)), s)
          else if \<not> rl_available item then (Inl (ErrUnavailable generation), s)
          else
            (let finish = (\<lambda>s1.
               if f 4 then (Inl RelDB, s)
               else if f 5 then (Inl RelDB, s)
               else if f 6 then (Inl RelDB, s)
               else (Inr (), rel_audit generation (rl_agentType item) OperationPromote actor
                      (rl_imageDigest item) (clk 2) (setState generation StateActive (clk 1) s1)))
             in case activeTx (f 2) (rl_agentType item) s of
                  Inl e \<Rightarrow> if isNoActive e then finish s else (Inl e, s)
                | Inr active \<Rightarrow>
                    if generation \<le> rl_generation active
                    then (Inl (ErrNotMonotonic generation (rl_generation active)), s)
                    else if f 3 then (Inl RelDB, s)
                    else finish (setState (rl_generation active) StateSuperseded (clk 0) s)))"

definition Rollback ::
  "faults \<Rightarrow> (nat \<Rightarrow> gotime) \<Rightarrow> string \<Rightarrow> int \<Rightarrow> string \<Rightarrow> registry \<Rightarrow> (rel_error, unit, registry) outcome" where
  "Rollback f clk agentType generation actor s =
     (if actor = [] then (Inl RelActor, s)
      else if f 0 then (Inl RelDB, s)
      else case loadTx (f 1) generation s of
        Inl e \<Rightarrow> (Inl e, s)
      | Inr item \<Rightarrow>
          if rl_agentType item \<noteq> agentType
          then (Inl (RelOtherAgentType generation (rl_agentType item)), s)
          else if \<not> rl_available item then (Inl (ErrUnavailable generation), s)
          else if rl_state item \<noteq> StateSuperseded \<and> rl_state item \<noteq> StateRolledBack \<and>
                  rl_state item \<noteq> StateVerified
          then (Inl (ErrNotPromotable generation (rl_state item)), s)
          else
            (let finish = (\<lambda>s1.
               if f 4 then (Inl RelDB, s)
               else if f 5 then (Inl RelDB, s)
               else if f 6 then (Inl RelDB, s)
               else (Inr (), rel_audit generation agentType OperationRollback actor
                      (rl_imageDigest item) (clk 2) (setState generation StateActive (clk 1) s1)))
             in case activeTx (f 2) agentType s of
                  Inl e \<Rightarrow> if isNoActive e then finish s else (Inl e, s)
                | Inr active \<Rightarrow>
                    if f 3 then (Inl RelDB, s)
                    else finish (setState (rl_generation active) StateRolledBack (clk 0) s)))"

definition Resolve :: "bool \<Rightarrow> string \<Rightarrow> registry \<Rightarrow> rel_error + release" where
  "Resolve fails agentType s =
     (case activeTx fails agentType s of
        Inl e \<Rightarrow> Inl e
      | Inr item \<Rightarrow>
          if \<not> rl_available item then Inl (ErrUnavailable (rl_generation item)) else Inr item)"

definition ActiveReleases :: "faults \<Rightarrow> registry \<Rightarrow> rel_error + release list" where
  "ActiveReleases f s =
     (if f 0 then Inl RelDB
      else
        (let rows = sort_key rl_agentType (filter (\<lambda>r. rl_state r = StateActive) (rg_rows s)) in
         if list_ex (\<lambda>i. f (Suc i)) [0..<length rows + 1] then Inl RelDB else Inr (map scanRelease rows)))"

definition missingEntry :: "release \<Rightarrow> reconcile_result" where
  "missingEntry item =
     \<lparr>rr_agentType = rl_agentType item, rr_generation = rl_generation item,
      rr_imageReference = rl_imageReference item, rr_imageDigest = rl_imageDigest item\<rparr>"

text \<open>The two loops of \<open>Reconcile\<close>. \<open>check i ref digest\<close> is the answer of the \<open>i\<close>-th call of the
  availability check, \<open>None\<close> for an error; \<open>fs i\<close> and \<open>clks i\<close> are the faults and the clock of the
  update for the \<open>i\<close>-th release.\<close>

type_synonym availability = "nat \<Rightarrow> string \<Rightarrow> string \<Rightarrow> bool option"

fun reconcileMark ::
  "availability \<Rightarrow> (nat \<Rightarrow> faults) \<Rightarrow> (nat \<Rightarrow> nat \<Rightarrow> gotime) \<Rightarrow> string \<Rightarrow> nat \<Rightarrow> release list \<Rightarrow>
     reconcile_result list \<Rightarrow> registry \<Rightarrow> (rel_error, reconcile_result list, registry) outcome" where
  "reconcileMark check fs clks actor i [] missing s = (Inr missing, s)"
| "reconcileMark check fs clks actor i (item # items) missing s =
     (case check i (rl_imageReference item) (rl_imageDigest item) of
        None \<Rightarrow> (Inl (RelCheckFailed (rl_imageDigest item)), s)
      | Some available \<Rightarrow>
          if available = rl_available item
          then reconcileMark check fs clks actor (Suc i) items missing s
          else case markAvailable (fs i) (clks i) (rl_generation item) available actor s of
            (Inl e, s1) \<Rightarrow> (Inl e, s1)
          | (Inr _, s1) \<Rightarrow>
              reconcileMark check fs clks actor (Suc i) items
                (if \<not> available then missing @ [missingEntry item] else missing) s1)"

fun reconcileReport ::
  "availability \<Rightarrow> nat \<Rightarrow> release list \<Rightarrow> reconcile_result list \<Rightarrow> rel_error + reconcile_result list" where
  "reconcileReport check i [] missing = Inr missing"
| "reconcileReport check i (item # items) missing =
     (if rl_available item then reconcileReport check i items missing
      else if list_ex (\<lambda>e. rr_generation e = rl_generation item) missing
      then reconcileReport check i items missing
      else case check i (rl_imageReference item) (rl_imageDigest item) of
        None \<Rightarrow> Inl (RelCheckFailed (rl_imageDigest item))
      | Some available \<Rightarrow>
          reconcileReport check (Suc i) items
            (if \<not> available then missing @ [missingEntry item] else missing))"

definition Reconcile ::
  "availability option \<Rightarrow> faults \<Rightarrow> (nat \<Rightarrow> faults) \<Rightarrow> (nat \<Rightarrow> nat \<Rightarrow> gotime) \<Rightarrow> string \<Rightarrow> registry \<Rightarrow>
     (rel_error, reconcile_result list, registry) outcome" where
  "Reconcile check0 f fs clks actor s =
     (case check0 of
        None \<Rightarrow> (Inl RelNoCheck, s)
      | Some check \<Rightarrow>
          if actor = [] then (Inl RelActor, s)
          else case ActiveReleases f s of
            Inl e \<Rightarrow> (Inl e, s)
          | Inr items \<Rightarrow>
              (case reconcileMark check fs clks actor 0 items [] s of
                 (Inl e, s1) \<Rightarrow> (Inl e, s1)
               | (Inr missing, s1) \<Rightarrow>
                   (case reconcileReport check (length items) items missing of
                      Inl e \<Rightarrow> (Inl e, s1)
                    | Inr missing' \<Rightarrow> (Inr missing', s1))))"

definition AuditTrail :: "faults \<Rightarrow> int \<Rightarrow> registry \<Rightarrow> rel_error + audit_entry list" where
  "AuditTrail f generation s =
     (if f 0 then Inl RelDB
      else
        (let rows = filter (\<lambda>e. ae_generation e = generation) (rg_audit s) in
         if list_ex (\<lambda>i. f (Suc i)) [0..<length rows + 1] then Inl RelDB
         else Inr (map (\<lambda>e. e\<lparr>ae_recordedAt := storedTime (ae_recordedAt e)\<rparr>) rows)))"

text \<open>\<open>initialize\<close> and \<open>migrateV1\<close>: the answers of the pragmas, then a new database gets empty tables and
  schema version 1. The version of the schema is part of the file.\<close>

record release_file =
  rf_version :: int
  rf_registry :: registry

definition emptyRegistry :: registry where
  "emptyRegistry = \<lparr>rg_rows = [], rg_seq = 0, rg_audit = []\<rparr>"

definition rel_migrateV1 :: "faults \<Rightarrow> release_file \<Rightarrow> (rel_error, unit, release_file) outcome" where
  "rel_migrateV1 f db =
     (if f 0 then (Inl RelDB, db)
      else if list_ex f [1..<7] then (Inl RelDB, db)
      else if f 7 then (Inl RelDB, db)
      else (Inr (), \<lparr>rf_version = 1, rf_registry = emptyRegistry\<rparr>))"

definition rel_initialize ::
  "faults \<Rightarrow> string \<Rightarrow> int \<Rightarrow> string \<Rightarrow> faults \<Rightarrow> release_file \<Rightarrow> (rel_error, unit, release_file) outcome" where
  "rel_initialize f journal synchronous integrity g db =
     (if f 0 \<or> journal \<noteq> ''wal'' then (Inl RelDB, db)
      else if f 1 then (Inl RelDB, db)
      else if f 2 \<or> synchronous \<noteq> 2 then (Inl RelDB, db)
      else if f 3 then (Inl RelDB, db)
      else if f 4 then (Inl RelDB, db)
      else if f 5 \<or> integrity \<noteq> ''ok'' then (Inl RelDB, db)
      else if f 6 then (Inl RelDB, db)
      else if rf_version db \<noteq> 0 \<and> rf_version db \<noteq> 1 then (Inl RelDB, db)
      else if rf_version db = 0 then rel_migrateV1 g db
      else (Inr (), db))"

section \<open>Lemmas on rows\<close>

text \<open>What never changes of a release once it is published.\<close>

definition artifact :: "release \<Rightarrow> int \<times> string \<times> string \<times> string \<times> provenance \<times> gotime" where
  "artifact r = (rl_generation r, rl_agentType r, rl_imageReference r, rl_imageDigest r,
     rl_provenance r, rl_createdAt r)"

definition artifacts :: "registry \<Rightarrow> (int \<times> string \<times> string \<times> string \<times> provenance \<times> gotime) list" where
  "artifacts s = map artifact (rg_rows s)"

text \<open>The active release of a type leaves its state for another one.\<close>

definition retire :: "string \<Rightarrow> release_state \<Rightarrow> gotime \<Rightarrow> registry \<Rightarrow> registry" where
  "retire t st now s =
     (case findActive s t of None \<Rightarrow> s | Some a \<Rightarrow> setState (rl_generation a) st now s)"

definition actives :: "registry \<Rightarrow> (string \<times> int) set" where
  "actives s =
     (\<lambda>r. (rl_agentType r, rl_generation r)) ` {r \<in> set (rg_rows s). rl_state r = StateActive}"

definition static_inv :: "registry \<Rightarrow> bool" where
  "static_inv s \<longleftrightarrow>
     0 \<le> rg_seq s \<and> sorted_wrt (<) (map fst (artifacts s)) \<and>
     distinct (map (\<lambda>(_, t, _, d, _). (t, d)) (artifacts s)) \<and>
     (\<forall>(g, t, ref, d, p, c) \<in> set (artifacts s).
        1 \<le> g \<and> g \<le> rg_seq s \<and> re_match agentTypePattern t \<and>
        re_match digestPinnedReference ref \<and> rel_digestOf ref = Inr d)"

definition rel_inv :: "registry \<Rightarrow> bool" where
  "rel_inv s \<longleftrightarrow> static_inv s \<and> (\<forall>t g g'. (t, g) \<in> actives s \<longrightarrow> (t, g') \<in> actives s \<longrightarrow> g = g')"

lemma in_actives:
  "(t, g) \<in> actives s \<longleftrightarrow>
     (\<exists>r \<in> set (rg_rows s). rl_state r = StateActive \<and> rl_agentType r = t \<and> rl_generation r = g)"
  by (auto simp: actives_def)

lemma artifact_upd [simp]:
  "artifact (r\<lparr>rl_state := st, rl_updatedAt := t\<rparr>) = artifact r"
  "artifact (r\<lparr>rl_available := b, rl_updatedAt := t\<rparr>) = artifact r"
  by (simp_all add: artifact_def)

lemma artifacts_simps [simp]:
  "artifacts (setState g st t s) = artifacts s"
  "artifacts (setAvailable g b t s) = artifacts s"
  "artifacts (rel_audit g ty op actor d t s) = artifacts s"
  "artifacts (retire ty st t s) = artifacts s"
  by (auto simp: artifacts_def setState_def setAvailable_def rel_audit_def retire_def
      split: option.splits)

lemma seq_simps [simp]:
  "rg_seq (setState g st t s) = rg_seq s"
  "rg_seq (setAvailable g b t s) = rg_seq s"
  "rg_seq (rel_audit g ty op actor d t s) = rg_seq s"
  "rg_seq (retire ty st t s) = rg_seq s"
  by (auto simp: setState_def setAvailable_def rel_audit_def retire_def split: option.splits)

lemma audit_simps [simp]:
  "rg_audit (setState g st t s) = rg_audit s"
  "rg_audit (setAvailable g b t s) = rg_audit s"
  "rg_audit (retire ty st t s) = rg_audit s"
  "rg_rows (rel_audit g ty op actor d t s) = rg_rows s"
  "findActive (rel_audit g ty op actor d t s) = findActive s"
  "findRelease (rel_audit g ty op actor d t s) = findRelease s"
  "actives (rel_audit g ty op actor d t s) = actives s"
  by (auto simp: setState_def setAvailable_def rel_audit_def retire_def findActive_def findRelease_def
      actives_def fun_eq_iff split: option.splits)

lemma findRelease_SomeD:
  "findRelease s g = Some r \<Longrightarrow> r \<in> set (rg_rows s) \<and> rl_generation r = g"
  by (auto simp: findRelease_def find_Some_iff)

lemma findActive_SomeD:
  "findActive s t = Some r \<Longrightarrow>
     r \<in> set (rg_rows s) \<and> rl_agentType r = t \<and> rl_state r = StateActive"
  by (auto simp: findActive_def find_Some_iff)

lemma findActive_None: "findActive s t = None \<longleftrightarrow> (\<forall>g. (t, g) \<notin> actives s)"
  by (auto simp: findActive_def find_None_iff actives_def)

lemma static_inv_distinct: "static_inv s \<Longrightarrow> distinct (map rl_generation (rg_rows s))"
proof -
  assume "static_inv s"
  then have "sorted_wrt (<) (map rl_generation (rg_rows s))"
    by (simp add: static_inv_def artifacts_def artifact_def comp_def)
  then show ?thesis by (simp add: strict_sorted_iff)
qed

lemma generation_unique:
  "static_inv s \<Longrightarrow> r \<in> set (rg_rows s) \<Longrightarrow> r' \<in> set (rg_rows s) \<Longrightarrow>
     rl_generation r = rl_generation r' \<Longrightarrow> r = r'"
  using static_inv_distinct by (metis distinct_map inj_onD)

lemma find_unique:
  assumes "x \<in> set xs" and "P x" and "\<And>y. y \<in> set xs \<Longrightarrow> P y \<Longrightarrow> y = x"
  shows "find P xs = Some x"
proof (cases "find P xs")
  case None
  with assms(1,2) show ?thesis unfolding find_None_iff by blast
next
  case (Some y)
  then have "y \<in> set xs" "P y" by (auto simp: find_Some_iff)
  with assms(3) Some show ?thesis by blast
qed

lemma findRelease_eq: "static_inv s \<Longrightarrow> r \<in> set (rg_rows s) \<Longrightarrow> findRelease s (rl_generation r) = Some r"
  unfolding findRelease_def by (rule find_unique) (use generation_unique in blast)+

lemma findActive_iff:
  assumes "rel_inv s"
  shows "findActive s t = Some r \<longleftrightarrow>
    r \<in> set (rg_rows s) \<and> rl_agentType r = t \<and> rl_state r = StateActive"
proof
  assume r: "r \<in> set (rg_rows s) \<and> rl_agentType r = t \<and> rl_state r = StateActive"
  show "findActive s t = Some r"
    unfolding findActive_def
  proof (rule find_unique)
    fix y
    assume y: "y \<in> set (rg_rows s)" "rl_agentType y = t \<and> rl_state y = StateActive"
    with r have "(t, rl_generation r) \<in> actives s" "(t, rl_generation y) \<in> actives s"
      by (auto simp: in_actives)
    with assms have "rl_generation y = rl_generation r" by (auto simp: rel_inv_def)
    with assms r y(1) show "y = r" by (auto simp: rel_inv_def dest: generation_unique)
  qed (use r in auto)
qed (auto dest: findActive_SomeD)

section \<open>What is active after an update\<close>

lemma actives_setAvailable [simp]: "actives (setAvailable g b t s) = actives s"
proof -
  have "(ty, g') \<in> actives (setAvailable g b t s) \<longleftrightarrow> (ty, g') \<in> actives s" for ty g'
    by (auto simp: in_actives setAvailable_def simp del: if_image_distrib)
  then show ?thesis by auto
qed

lemma actives_setState_inactive:
  assumes "st \<noteq> StateActive"
  shows "(ty, g') \<in> actives (setState g st t s) \<longleftrightarrow> (ty, g') \<in> actives s \<and> g' \<noteq> g"
  using assms by (auto simp: in_actives setState_def simp del: if_image_distrib)

lemma actives_setState_active:
  assumes "static_inv s" and "item \<in> set (rg_rows s)" and "rl_generation item = g"
  shows "(ty, g') \<in> actives (setState g StateActive t s) \<longleftrightarrow>
    (ty = rl_agentType item \<and> g' = g) \<or> (ty, g') \<in> actives s"
proof -
  have same: "r = item" if "r \<in> set (rg_rows s)" "rl_generation r = g" for r
    using generation_unique [OF assms(1) that(1) assms(2)] that assms(3) by simp
  have "(ty, g') \<in> actives (setState g StateActive t s) \<longleftrightarrow>
      (\<exists>r \<in> set (rg_rows s). (rl_generation r = g \<or> rl_state r = StateActive) \<and>
         rl_agentType r = ty \<and> rl_generation r = g')"
    by (auto simp: in_actives setState_def simp del: if_image_distrib)
  also have "\<dots> \<longleftrightarrow> (ty = rl_agentType item \<and> g' = g) \<or> (ty, g') \<in> actives s"
    unfolding in_actives using same assms(2,3) by blast
  finally show ?thesis .
qed

lemma actives_retire:
  assumes "rel_inv s" and "st \<noteq> StateActive"
  shows "(ty, g) \<in> actives (retire t st now s) \<longleftrightarrow> (ty, g) \<in> actives s \<and> ty \<noteq> t"
proof (cases "findActive s t")
  case None
  then have "\<forall>g. (t, g) \<notin> actives s" by (simp add: findActive_None)
  with None show ?thesis by (auto simp: retire_def)
next
  case (Some a)
  then have a: "a \<in> set (rg_rows s)" "rl_agentType a = t" "rl_state a = StateActive"
    by (auto dest: findActive_SomeD)
  have "ty = t" if "(ty, rl_generation a) \<in> actives s" for ty
    using that a generation_unique assms(1) unfolding in_actives rel_inv_def by metis
  moreover have "g = rl_generation a" if "(t, g) \<in> actives s" for g
    using that a assms(1) by (auto simp: in_actives rel_inv_def)
  ultimately show ?thesis
    using Some assms(2) by (auto simp: retire_def actives_setState_inactive)
qed

text \<open>The two updates of a promotion or rollback.\<close>

definition activate ::
  "release \<Rightarrow> release_state \<Rightarrow> (nat \<Rightarrow> gotime) \<Rightarrow> registry \<Rightarrow> registry" where
  "activate item st clk s =
     setState (rl_generation item) StateActive (clk 1) (retire (rl_agentType item) st (clk 0) s)"

lemma artifact_in_rows:
  assumes "artifacts s = artifacts s'" and "r \<in> set (rg_rows s)"
  obtains r' where "r' \<in> set (rg_rows s')" "artifact r' = artifact r"
proof -
  have "artifact r \<in> set (artifacts s)" using assms(2) by (simp add: artifacts_def)
  then have "artifact r \<in> set (artifacts s')" by (simp add: assms(1))
  then show thesis using that by (auto simp: artifacts_def)
qed

lemma actives_activate:
  assumes "rel_inv s" and "item \<in> set (rg_rows s)" and "st \<noteq> StateActive"
  shows "(ty, g) \<in> actives (activate item st clk s) \<longleftrightarrow>
    (if ty = rl_agentType item then g = rl_generation item else (ty, g) \<in> actives s)"
proof -
  let ?s = "retire (rl_agentType item) st (clk 0) s"
  have "static_inv ?s" using assms(1) by (simp add: rel_inv_def static_inv_def)
  moreover obtain item' where "item' \<in> set (rg_rows ?s)" "artifact item' = artifact item"
    using artifact_in_rows [of s ?s item] assms(2) by auto
  ultimately have "(ty, g) \<in> actives (setState (rl_generation item) StateActive (clk 1) ?s) \<longleftrightarrow>
      (ty = rl_agentType item \<and> g = rl_generation item) \<or> (ty, g) \<in> actives ?s"
    using actives_setState_active [of ?s item'] by (auto simp: artifact_def)
  then show ?thesis using assms by (simp add: activate_def actives_retire)
qed

lemma static_inv_cong: "artifacts s = artifacts s' \<Longrightarrow> rg_seq s = rg_seq s' \<Longrightarrow> static_inv s = static_inv s'"
  by (simp add: static_inv_def)

lemma artifacts_activate [simp]:
  "artifacts (activate item st clk s) = artifacts s" "rg_seq (activate item st clk s) = rg_seq s"
  "rg_audit (activate item st clk s) = rg_audit s"
  by (simp_all add: activate_def)

lemma rel_inv_activate:
  assumes "rel_inv s" and "item \<in> set (rg_rows s)" and "st \<noteq> StateActive"
  shows "rel_inv (activate item st clk s)"
  using assms static_inv_cong [of "activate item st clk s" s]
  by (simp add: rel_inv_def actives_activate)

section \<open>What the operations do\<close>

lemma loadTx_Inr:
  "loadTx b g s = Inr item \<longleftrightarrow> (\<not> b \<and> (\<exists>r. findRelease s g = Some r \<and> item = scanRelease r))"
  by (auto simp: loadTx_def split: option.splits)

lemma activeTx_Inr:
  "activeTx b t s = Inr item \<longleftrightarrow> (\<not> b \<and> (\<exists>r. findActive s t = Some r \<and> item = scanRelease r))"
  by (auto simp: activeTx_def split: option.splits)

lemma activeTx_Inl:
  "activeTx b t s = Inl e \<Longrightarrow> e = RelDB \<or> (e = ErrNoActiveRelease t \<and> findActive s t = None)"
  by (auto simp: activeTx_def split: option.splits if_splits)

lemma scanRelease_simps [simp]:
  "rl_generation (scanRelease r) = rl_generation r" "rl_agentType (scanRelease r) = rl_agentType r"
  "rl_imageReference (scanRelease r) = rl_imageReference r"
  "rl_imageDigest (scanRelease r) = rl_imageDigest r" "rl_state (scanRelease r) = rl_state r"
  "rl_available (scanRelease r) = rl_available r" "rl_provenance (scanRelease r) = rl_provenance r"
  by (simp_all add: scanRelease_def)

lemma tx_fails:
  "Promote f clk g actor s = (Inl e, s') \<Longrightarrow> s' = s"
  "Rollback f clk t g actor s = (Inl e, s') \<Longrightarrow> s' = s"
  "rel_verify f clk g req actor s = (Inl e, s') \<Longrightarrow> s' = s"
  "markAvailable f clk g b actor s = (Inl e, s') \<Longrightarrow> s' = s"
  "PublishCandidate f clk t ref prov actor s = (Inl e', s') \<Longrightarrow> s' = s"
  by (auto simp: Promote_def Rollback_def rel_verify_def markAvailable_def PublishCandidate_def Let_def
      split: if_splits sum.splits option.splits)

lemma Promote_ok:
  assumes "Promote f clk g actor s = (Inr u, s')"
  shows "\<exists>item. findRelease s g = Some item \<and> rl_state item = StateVerified \<and> rl_available item \<and>
    actor \<noteq> [] \<and> (case findActive s (rl_agentType item) of None \<Rightarrow> True | Some a \<Rightarrow> rl_generation a < g) \<and>
    s' = rel_audit g (rl_agentType item) OperationPromote actor (rl_imageDigest item) (clk 2)
           (activate item StateSuperseded clk s)"
proof -
  obtain item where item: "findRelease s g = Some item" and load: "loadTx (f 1) g s = Inr (scanRelease item)"
    using assms by (auto simp: Promote_def loadTx_Inr split: if_splits sum.splits)
  have g: "g = rl_generation item" using findRelease_SomeD [OF item] by simp
  have load': "loadTx (f (Suc 0)) (rl_generation item) s = Inr (scanRelease item)"
    using load g by simp
  show ?thesis
  proof (cases "activeTx (f 2) (rl_agentType item) s")
    case (Inl e)
    then show ?thesis
      using assms item g activeTx_Inl [OF Inl]
      by (auto simp: Promote_def load' Let_def activate_def retire_def split: if_splits)
  next
    case (Inr a)
    then obtain r where r: "findActive s (rl_agentType item) = Some r" "a = scanRelease r" by (auto simp: activeTx_Inr)
    show ?thesis
      using assms item g Inr r
      by (auto simp: Promote_def load' Let_def activate_def retire_def split: if_splits)
  qed
qed

lemma Rollback_ok:
  assumes "Rollback f clk t g actor s = (Inr u, s')"
  shows "\<exists>item. findRelease s g = Some item \<and> rl_agentType item = t \<and>
    rl_state item \<in> {StateSuperseded, StateRolledBack, StateVerified} \<and> rl_available item \<and> actor \<noteq> [] \<and>
    s' = rel_audit g t OperationRollback actor (rl_imageDigest item) (clk 2)
           (activate item StateRolledBack clk s)"
proof -
  obtain item where item: "findRelease s g = Some item" and load: "loadTx (f 1) g s = Inr (scanRelease item)"
    using assms by (auto simp: Rollback_def loadTx_Inr split: if_splits sum.splits)
  have g: "g = rl_generation item" using findRelease_SomeD [OF item] by simp
  have load': "loadTx (f (Suc 0)) (rl_generation item) s = Inr (scanRelease item)"
    using load g by simp
  show ?thesis
  proof (cases "activeTx (f 2) t s")
    case (Inl e)
    then show ?thesis
      using assms item g activeTx_Inl [OF Inl]
      by (auto simp: Rollback_def load' Let_def activate_def retire_def split: if_splits)
  next
    case (Inr a)
    then obtain r where r: "findActive s t = Some r" "a = scanRelease r" by (auto simp: activeTx_Inr)
    show ?thesis
      using assms item g Inr r
      by (auto simp: Rollback_def load' Let_def activate_def retire_def split: if_splits)
  qed
qed

lemma rel_verify_ok:
  assumes "rel_verify f clk g req actor s = (Inr u, s')"
  shows "\<exists>item. findRelease s g = Some item \<and> actor \<noteq> [] \<and>
    rl_state item \<in> {StateCandidate, StateVerified} \<and> checkRequirements (scanRelease item) req = Inr () \<and>
    s' = rel_audit g (rl_agentType item) OperationVerify actor (rl_imageDigest item) (clk 1)
           (setState g StateVerified (clk 0) s)"
  using assms unfolding rel_verify_def
  by (auto simp: loadTx_Inr split: if_splits sum.splits)

lemma markAvailable_ok:
  assumes "markAvailable f clk g b actor s = (Inr u, s')"
  shows "\<exists>item. findRelease s g = Some item \<and> actor \<noteq> [] \<and>
    s' = rel_audit g (rl_agentType item) (if b then OperationAcquire else OperationEvict) actor
           (rl_imageDigest item) (clk 1) (setAvailable g b (clk 0) s)"
  using assms unfolding markAvailable_def Let_def
  by (auto simp: loadTx_Inr split: if_splits sum.splits)

lemma PublishCandidate_ok:
  assumes "PublishCandidate f clk t ref prov actor s = (Inr r, s')"
  shows "\<exists>d row. rel_digestOf ref = Inr d \<and> re_match agentTypePattern t \<and> actor \<noteq> [] \<and>
    re_match digestPinnedReference ref \<and> rg_seq s < 2 ^ 63 - 1 \<and>
    row = \<lparr>rl_generation = rg_seq s + 1, rl_agentType = t,
       rl_imageReference = ref, rl_imageDigest = d, rl_provenance = prov, rl_state = StateCandidate,
       rl_available = False, rl_createdAt = clk 0, rl_updatedAt = clk 0\<rparr> \<and>
    (\<forall>r \<in> set (rg_rows s). \<not> (rl_agentType r = t \<and> rl_imageDigest r = d)) \<and> r = scanRelease row \<and>
    s' = rel_audit (rg_seq s + 1) t OperationPublish actor ref (clk 1)
           (s\<lparr>rg_rows := rg_rows s @ [row], rg_seq := rg_seq s + 1\<rparr>)"
  using assms unfolding PublishCandidate_def Let_def
  by (auto simp: insertRow_def split: if_splits sum.splits option.splits)

section \<open>The registry as a store\<close>

datatype rel_op =
    RelPublish faults "nat \<Rightarrow> gotime" string string provenance string
  | RelVerify faults "nat \<Rightarrow> gotime" int requirements string
  | RelMark faults "nat \<Rightarrow> gotime" int bool string
  | RelPromote faults "nat \<Rightarrow> gotime" int string
  | RelRollback faults "nat \<Rightarrow> gotime" string int string

definition forget :: "(rel_error, 'a, registry) outcome \<Rightarrow> (rel_error, unit, registry) outcome" where
  "forget r = (case r of (Inl e, s) \<Rightarrow> (Inl e, s) | (Inr _, s) \<Rightarrow> (Inr (), s))"

fun rel_exec :: "rel_op \<Rightarrow> registry \<Rightarrow> (rel_error, unit, registry) outcome" where
  "rel_exec (RelPublish f clk t ref prov actor) s = forget (PublishCandidate f clk t ref prov actor s)"
| "rel_exec (RelVerify f clk g req actor) s = rel_verify f clk g req actor s"
| "rel_exec (RelMark f clk g b actor) s = markAvailable f clk g b actor s"
| "rel_exec (RelPromote f clk g actor) s = Promote f clk g actor s"
| "rel_exec (RelRollback f clk t g actor) s = Rollback f clk t g actor s"

text \<open>Releases and audit entries are only ever added, and the sequence only grows.\<close>

definition rel_le :: "registry \<Rightarrow> registry \<Rightarrow> bool" where
  "rel_le s s' \<longleftrightarrow>
     prefix (artifacts s) (artifacts s') \<and> rg_seq s \<le> rg_seq s' \<and> prefix (rg_audit s) (rg_audit s')"

lemma forget_simps [simp]: "snd (forget r) = snd r" "failed (forget r) = failed r"
  by (auto simp: forget_def failed_def split: sum.splits prod.splits)

lemma rel_audit_le: "rel_le s (rel_audit g t op actor d now s)"
  unfolding rel_le_def by (simp add: rel_audit_def artifacts_def)

lemma rel_exec_failed: "failed (rel_exec x s) \<Longrightarrow> snd (rel_exec x s) = s"
  by (cases x) (auto simp: failed_def forget_def split: sum.splits prod.splits dest: tx_fails
      simp: prod_eq_iff intro: tx_fails [OF prod_eqI])

text \<open>A successful operation adds one audit entry that names its operation.\<close>

primrec op_kind :: "rel_op \<Rightarrow> release_operation" where
  "op_kind (RelPublish f clk t ref prov actor) = OperationPublish"
| "op_kind (RelVerify f clk g req actor) = OperationVerify"
| "op_kind (RelMark f clk g b actor) = (if b then OperationAcquire else OperationEvict)"
| "op_kind (RelPromote f clk g actor) = OperationPromote"
| "op_kind (RelRollback f clk t g actor) = OperationRollback"

primrec op_actor :: "rel_op \<Rightarrow> string" where
  "op_actor (RelPublish f clk t ref prov actor) = actor"
| "op_actor (RelVerify f clk g req actor) = actor"
| "op_actor (RelMark f clk g b actor) = actor"
| "op_actor (RelPromote f clk g actor) = actor"
| "op_actor (RelRollback f clk t g actor) = actor"

lemma static_inv_insert:
  assumes "static_inv s" and "re_match agentTypePattern t" and "re_match digestPinnedReference ref"
    and "rel_digestOf ref = Inr d" and "rl_generation row = rg_seq s + 1" and "rl_agentType row = t"
    and "rl_imageReference row = ref" and "rl_imageDigest row = d"
    and "\<forall>r \<in> set (rg_rows s). \<not> (rl_agentType r = t \<and> rl_imageDigest r = d)"
  shows "static_inv (s\<lparr>rg_rows := rg_rows s @ [row], rg_seq := rg_seq s + 1\<rparr>)"
  using assms
  by (auto simp: static_inv_def artifacts_def artifact_def sorted_wrt_append)

lemma rel_exec_ok:
  assumes "rel_inv s" and "rel_exec x s = (Inr u, s')"
  shows "rel_inv s' \<and> rel_le s s' \<and>
    (\<exists>e. rg_audit s' = rg_audit s @ [e] \<and> ae_operation e = op_kind x \<and> ae_actor e = op_actor x \<and>
       op_actor x \<noteq> [])"
proof (cases x)
  case (RelPublish f clk t ref prov actor)
  then obtain r where "PublishCandidate f clk t ref prov actor s = (Inr r, s')"
    using assms(2) by (auto simp: forget_def split: sum.splits prod.splits)
  from PublishCandidate_ok [OF this] obtain d row where pub:
    "rel_digestOf ref = Inr d" "re_match agentTypePattern t" "actor \<noteq> []"
    "re_match digestPinnedReference ref"
    "row = \<lparr>rl_generation = rg_seq s + 1, rl_agentType = t,
       rl_imageReference = ref, rl_imageDigest = d, rl_provenance = prov, rl_state = StateCandidate,
       rl_available = False, rl_createdAt = clk 0, rl_updatedAt = clk 0\<rparr>"
    "\<forall>r \<in> set (rg_rows s). \<not> (rl_agentType r = t \<and> rl_imageDigest r = d)"
    "s' = rel_audit (rg_seq s + 1) t OperationPublish actor ref (clk 1)
           (s\<lparr>rg_rows := rg_rows s @ [row], rg_seq := rg_seq s + 1\<rparr>)"
    by blast
  let ?s = "s\<lparr>rg_rows := rg_rows s @ [row], rg_seq := rg_seq s + 1\<rparr>"
  have "static_inv ?s"
    by (rule static_inv_insert [OF _ pub(2,4,1) _ _ _ _ pub(6)])
      (use assms(1) pub(5) in \<open>simp_all add: rel_inv_def\<close>)
  moreover have "actives ?s = actives s"
    using pub(5) by (auto simp: actives_def)
  ultimately have "rel_inv ?s" using assms(1) by (simp add: rel_inv_def)
  then have "rel_inv s'" unfolding pub(7) rel_inv_def static_inv_def by simp
  then show ?thesis
    using RelPublish pub(3,7) by (simp add: rel_le_def artifacts_def rel_audit_def)
next
  case (RelVerify f clk g req actor)
  with assms(2) have "rel_verify f clk g req actor s = (Inr u, s')" by simp
  from rel_verify_ok [OF this] show ?thesis
    using assms(1) RelVerify
    by (auto simp: rel_inv_def static_inv_def rel_le_def actives_setState_inactive)
       (simp_all add: rel_audit_def)
next
  case (RelMark f clk g b actor)
  with assms(2) have "markAvailable f clk g b actor s = (Inr u, s')" by simp
  from markAvailable_ok [OF this] show ?thesis
    using assms(1) RelMark
    by (auto simp: rel_inv_def static_inv_def rel_le_def) (simp_all add: rel_audit_def)
next
  case (RelPromote f clk g actor)
  with assms(2) have "Promote f clk g actor s = (Inr u, s')" by simp
  from Promote_ok [OF this] obtain item where item: "findRelease s g = Some item" "actor \<noteq> []"
    "s' = rel_audit g (rl_agentType item) OperationPromote actor (rl_imageDigest item) (clk 2)
       (activate item StateSuperseded clk s)" by blast
  then have "rel_inv (activate item StateSuperseded clk s)"
    using assms(1) findRelease_SomeD by (intro rel_inv_activate) auto
  then show ?thesis
    using item RelPromote by (simp add: rel_inv_def static_inv_def rel_le_def) (simp add: rel_audit_def)
next
  case (RelRollback f clk t g actor)
  with assms(2) have "Rollback f clk t g actor s = (Inr u, s')" by simp
  from Rollback_ok [OF this] obtain item where item: "findRelease s g = Some item" "actor \<noteq> []"
    "s' = rel_audit g t OperationRollback actor (rl_imageDigest item) (clk 2)
       (activate item StateRolledBack clk s)" by blast
  then have "rel_inv (activate item StateRolledBack clk s)"
    using assms(1) findRelease_SomeD by (intro rel_inv_activate) auto
  then show ?thesis
    using item RelRollback by (simp add: rel_inv_def static_inv_def rel_le_def) (simp add: rel_audit_def)
qed

lemma rel_exec_inv_le:
  assumes "rel_inv s"
  shows "rel_inv (snd (rel_exec x s)) \<and> rel_le s (snd (rel_exec x s))"
proof (cases "failed (rel_exec x s)")
  case True
  with assms show ?thesis by (simp add: rel_exec_failed rel_le_def)
next
  case False
  then obtain u s' where "rel_exec x s = (Inr u, s')"
    by (cases "rel_exec x s") (auto simp: failed_def split: sum.splits)
  with rel_exec_ok [OF assms this] show ?thesis by simp
qed

lemma rel_le_refl: "rel_le s s"
  by (simp add: rel_le_def)

lemma rel_le_trans: "rel_le s t \<Longrightarrow> rel_le t u \<Longrightarrow> rel_le s u"
  by (auto simp: rel_le_def intro: prefix_order.trans)

interpretation registry_store: forward_store rel_exec rel_inv rel_le
  by unfold_locales (simp_all add: rel_exec_inv_le rel_le_refl rel_le_trans)

interpretation registry_tx: atomic_store rel_exec rel_inv
  by unfold_locales (simp_all add: rel_exec_failed)

section \<open>Reconciliation\<close>

definition availableOf :: "registry \<Rightarrow> int \<Rightarrow> bool option" where
  "availableOf s g = map_option rl_available (findRelease s g)"

lemma find_map_gen:
  assumes "\<And>r. rl_generation (h r) = rl_generation r"
  shows "find (\<lambda>r. rl_generation r = g) (map h rs) = map_option h (find (\<lambda>r. rl_generation r = g) rs)"
  by (induction rs) (simp_all add: assms)

lemma availableOf_setAvailable:
  "availableOf (setAvailable g b t s) g' = (if g' = g then map_option (\<lambda>_. b) (availableOf s g) else availableOf s g')"
proof -
  let ?h = "\<lambda>r. if rl_generation r = g then r\<lparr>rl_available := b, rl_updatedAt := t\<rparr> else r"
  have "findRelease (setAvailable g b t s) g' = map_option ?h (findRelease s g')"
    unfolding findRelease_def setAvailable_def by (simp add: find_map_gen)
  then show ?thesis
    by (auto simp: availableOf_def option.map_comp comp_def dest!: findRelease_SomeD
        split: option.splits intro!: option.map_cong)
qed

lemma availableOf_audit [simp]: "availableOf (rel_audit g ty op actor d t s) = availableOf s"
  by (simp add: availableOf_def fun_eq_iff)

text \<open>An availability check that answers every call and always the same for the same image.\<close>

definition steady :: "(string \<Rightarrow> string \<Rightarrow> bool) \<Rightarrow> availability" where
  "steady present = (\<lambda>_ ref d. Some (present ref d))"

lemma reconcileMark_ok:
  assumes "reconcileMark (steady present) fs clks actor i items missing s = (Inr m, s')"
    and "distinct (map rl_generation items)"
    and "\<forall>item \<in> set items. availableOf s (rl_generation item) = Some (rl_available item)"
  shows "m = missing @ map missingEntry (filter (\<lambda>it. rl_available it \<and>
             \<not> present (rl_imageReference it) (rl_imageDigest it)) items) \<and>
    (\<forall>item \<in> set items. availableOf s' (rl_generation item) =
       Some (present (rl_imageReference item) (rl_imageDigest item))) \<and>
    (\<forall>g. g \<notin> rl_generation ` set items \<longrightarrow> availableOf s' g = availableOf s g) \<and>
    actives s' = actives s \<and> artifacts s' = artifacts s \<and> rg_seq s' = rg_seq s"
  using assms
proof (induction items arbitrary: i missing s)
  case (Cons item items)
  let ?p = "present (rl_imageReference item) (rl_imageDigest item)"
  show ?case
  proof (cases "?p = rl_available item")
    case True
    then have "reconcileMark (steady present) fs clks actor (Suc i) items missing s = (Inr m, s')"
      using Cons.prems(1) by (simp add: steady_def)
    from Cons.IH [OF this] Cons.prems(2,3) True show ?thesis by auto
  next
    case False
    then obtain s1 where mark: "markAvailable (fs i) (clks i) (rl_generation item) ?p actor s = (Inr (), s1)"
      and rest: "reconcileMark (steady present) fs clks actor (Suc i) items
        (if \<not> ?p then missing @ [missingEntry item] else missing) s1 = (Inr m, s')"
      using Cons.prems(1) by (auto simp: steady_def split: prod.splits sum.splits)
    have "availableOf s (rl_generation item) = Some (rl_available item)" using Cons.prems(3) by simp
    with markAvailable_ok [OF mark] have s1: "availableOf s1 g = (if g = rl_generation item then Some ?p else availableOf s g)"
      "actives s1 = actives s" "artifacts s1 = artifacts s" "rg_seq s1 = rg_seq s" for g
      by (auto simp: availableOf_setAvailable)
    have "\<forall>it \<in> set items. availableOf s1 (rl_generation it) = Some (rl_available it)"
    proof
      fix it assume it: "it \<in> set items"
      then have "rl_generation it \<noteq> rl_generation item" using Cons.prems(2) by (metis distinct.simps(2) image_eqI list.map(2) list.set_map)
      with it Cons.prems(3) show "availableOf s1 (rl_generation it) = Some (rl_available it)"
        by (simp add: s1(1))
    qed
    from Cons.IH [OF rest _ this] Cons.prems(2) False s1 show ?thesis by auto
  qed
qed simp

lemma reconcileReport_ok:
  assumes "reconcileReport (steady present) i items missing = Inr m"
    and "distinct (map rl_generation items)"
    and "\<forall>e \<in> set missing. \<forall>it \<in> set items. \<not> rl_available it \<longrightarrow> rr_generation e \<noteq> rl_generation it"
  shows "m = missing @ map missingEntry (filter (\<lambda>it. \<not> rl_available it \<and>
             \<not> present (rl_imageReference it) (rl_imageDigest it)) items)"
  using assms
proof (induction items arbitrary: i missing)
  case (Cons item items)
  show ?case
  proof (cases "rl_available item")
    case True
    with Cons show ?thesis by simp
  next
    case False
    then have "\<not> list_ex (\<lambda>e. rr_generation e = rl_generation item) missing"
      using Cons.prems(3) by (auto simp: list_ex_iff)
    then have "reconcileReport (steady present) (Suc i) items
        (if \<not> present (rl_imageReference item) (rl_imageDigest item)
         then missing @ [missingEntry item] else missing) = Inr m"
      using Cons.prems(1) False by (simp add: steady_def)
    moreover have "\<forall>e \<in> set (if \<not> present (rl_imageReference item) (rl_imageDigest item)
         then missing @ [missingEntry item] else missing).
        \<forall>it \<in> set items. \<not> rl_available it \<longrightarrow> rr_generation e \<noteq> rl_generation it"
      using Cons.prems(2,3) by (auto simp: missingEntry_def)
    ultimately show ?thesis using Cons.IH Cons.prems(2) False by fastforce
  qed
qed simp

definition activeRows :: "registry \<Rightarrow> release list" where
  "activeRows s = map scanRelease (sort_key rl_agentType (filter (\<lambda>r. rl_state r = StateActive) (rg_rows s)))"

lemma ActiveReleases_Inr: "ActiveReleases f s = Inr items \<Longrightarrow> items = activeRows s"
  by (auto simp: ActiveReleases_def activeRows_def Let_def split: if_splits)

lemma set_activeRows:
  "set (activeRows s) = scanRelease ` {r \<in> set (rg_rows s). rl_state r = StateActive}"
  by (simp add: activeRows_def)

lemma distinct_activeRows: "static_inv s \<Longrightarrow> distinct (map rl_generation (activeRows s))"
proof -
  assume "static_inv s"
  then have "distinct (map rl_generation (filter (\<lambda>r. rl_state r = StateActive) (rg_rows s)))"
    using static_inv_distinct by (auto simp: distinct_map intro: inj_on_subset)
  then have "distinct (map rl_generation (sort_key rl_agentType (filter (\<lambda>r. rl_state r = StateActive) (rg_rows s))))"
    by (simp add: distinct_map)
  then show ?thesis by (simp add: activeRows_def comp_def)
qed

lemma availableOf_row: "static_inv s \<Longrightarrow> r \<in> set (rg_rows s) \<Longrightarrow> availableOf s (rl_generation r) = Some (rl_available r)"
  by (simp add: availableOf_def findRelease_eq)

lemma Reconcile_ok:
  assumes "rel_inv s" and "Reconcile (Some (steady present)) f fs clks actor s = (Inr missing, s')"
  shows "set missing = missingEntry ` {r \<in> set (rg_rows s). rl_state r = StateActive \<and>
           \<not> present (rl_imageReference r) (rl_imageDigest r)}"
    and "\<forall>r \<in> set (rg_rows s). availableOf s' (rl_generation r) =
           Some (if rl_state r = StateActive then present (rl_imageReference r) (rl_imageDigest r)
                 else rl_available r)"
    and "rel_inv s'" and "actives s' = actives s" and "artifacts s' = artifacts s"
proof -
  let ?items = "activeRows s"
  have st: "static_inv s" using assms(1) by (simp add: rel_inv_def)
  obtain m1 s1 where mark: "reconcileMark (steady present) fs clks actor 0 ?items [] s = (Inr m1, s1)"
    and rep: "reconcileReport (steady present) (length ?items) ?items m1 = Inr missing" and "s' = s1"
    using assms(2) by (auto simp: Reconcile_def split: if_splits sum.splits prod.splits dest!: ActiveReleases_Inr)
  have av: "\<forall>item \<in> set ?items. availableOf s (rl_generation item) = Some (rl_available item)"
    using availableOf_row [OF st] by (auto simp: set_activeRows)
  note M = reconcileMark_ok [OF mark distinct_activeRows [OF st] av]
  have "\<forall>e \<in> set m1. \<forall>it \<in> set ?items. \<not> rl_available it \<longrightarrow> rr_generation e \<noteq> rl_generation it"
  proof (intro ballI impI notI)
    fix e it
    assume e: "e \<in> set m1" "it \<in> set ?items" "\<not> rl_available it" "rr_generation e = rl_generation it"
    then obtain it' where it': "it' \<in> set ?items" "rl_available it'" "e = missingEntry it'"
      using M by auto
    with e have "rl_generation it' = rl_generation it" by (simp add: missingEntry_def)
    then have "it' = it"
      using distinct_activeRows [OF st] it'(1) e(2) by (meson distinct_map inj_onD)
    with e(3) it'(2) show False by simp
  qed
  from reconcileReport_ok [OF rep distinct_activeRows [OF st] this] M
  have "set missing = missingEntry ` {it \<in> set ?items. \<not> present (rl_imageReference it) (rl_imageDigest it)}"
    by auto
  also have "\<dots> = missingEntry ` {r \<in> set (rg_rows s). rl_state r = StateActive \<and>
           \<not> present (rl_imageReference r) (rl_imageDigest r)}"
  proof -
    have "{it \<in> set ?items. \<not> present (rl_imageReference it) (rl_imageDigest it)} =
        scanRelease ` {r \<in> set (rg_rows s). rl_state r = StateActive \<and>
           \<not> present (rl_imageReference r) (rl_imageDigest r)}"
      by (auto simp: set_activeRows)
    then show ?thesis by (simp add: image_image missingEntry_def)
  qed
  finally show "set missing = missingEntry ` {r \<in> set (rg_rows s). rl_state r = StateActive \<and>
           \<not> present (rl_imageReference r) (rl_imageDigest r)}" .
  show "\<forall>r \<in> set (rg_rows s). availableOf s' (rl_generation r) =
           Some (if rl_state r = StateActive then present (rl_imageReference r) (rl_imageDigest r)
                 else rl_available r)"
  proof
    fix r assume r: "r \<in> set (rg_rows s)"
    have "rl_generation r \<notin> rl_generation ` set ?items" if "rl_state r \<noteq> StateActive"
    proof
      assume "rl_generation r \<in> rl_generation ` set ?items"
      then obtain q where "q \<in> set (rg_rows s)" "rl_state q = StateActive" "rl_generation q = rl_generation r"
        by (auto simp: set_activeRows)
      with that generation_unique [OF st _ r] show False by blast
    qed
    then have "availableOf s' (rl_generation r) = Some (rl_available r)" if "rl_state r \<noteq> StateActive"
      using that M \<open>s' = s1\<close> availableOf_row [OF st r] by simp
    moreover have "availableOf s' (rl_generation r) = Some (present (rl_imageReference r) (rl_imageDigest r))"
      if "rl_state r = StateActive"
    proof -
      have "scanRelease r \<in> set ?items" using that r by (simp add: set_activeRows)
      with M \<open>s' = s1\<close> show ?thesis by force
    qed
    ultimately show "availableOf s' (rl_generation r) =
           Some (if rl_state r = StateActive then present (rl_imageReference r) (rl_imageDigest r)
                 else rl_available r)" by simp
  qed
  show "actives s' = actives s" "artifacts s' = artifacts s" using M \<open>s' = s1\<close> by auto
  then show "rel_inv s'"
    using M \<open>s' = s1\<close> assms(1) static_inv_cong [of s' s] by (simp add: rel_inv_def)
qed

section \<open>Properties\<close>

lemma rel_inv_empty: "rel_inv emptyRegistry"
  by (simp add: rel_inv_def static_inv_def emptyRegistry_def artifacts_def in_actives)

lemma findActive_actives:
  assumes "rel_inv s"
  shows "(\<exists>r. findActive s t = Some r \<and> rl_generation r = g) \<longleftrightarrow> (t, g) \<in> actives s"
  using findActive_iff [OF assms] by (auto simp: in_actives)

lemma Resolve_launchable:
  assumes "rel_inv s"
  shows "(\<exists>r. Resolve False t s = Inr r \<and> rl_generation r = g) \<longleftrightarrow>
    (t, g) \<in> actives s \<and> availableOf s g = Some True"
proof (cases "findActive s t")
  case None
  then have "(t, g) \<notin> actives s" by (simp add: findActive_None)
  with None show ?thesis by (simp add: Resolve_def activeTx_def)
next
  case (Some a)
  then have "a \<in> set (rg_rows s)" by (simp add: findActive_SomeD)
  then have "availableOf s (rl_generation a) = Some (rl_available a)"
    using assms by (simp add: rel_inv_def availableOf_row)
  moreover have "(t, g) \<in> actives s \<longleftrightarrow> g = rl_generation a"
    using findActive_actives [OF assms, of t g] Some by auto
  ultimately show ?thesis using Some by (auto simp: Resolve_def activeTx_def)
qed

lemma Promote_succeeds:
  assumes "findRelease s g = Some item" and "rl_state item = StateVerified" and "rl_available item"
    and "(actor :: string) \<noteq> []"
    and "case findActive s (rl_agentType item) of None \<Rightarrow> True | Some a \<Rightarrow> rl_generation a < g"
  shows "\<exists>s'. Promote no_faults clk g actor s = (Inr (), s')"
  using assms by (auto simp: Promote_def no_faults_def loadTx_def activeTx_def Let_def split: option.splits)

text \<open>A registry for the examples: two releases of one agent type are published, and the first is
  verified, acquired and promoted.\<close>

definition exampleProvenance :: provenance where
  "exampleProvenance = \<lparr>pv_sourceRevision = ''r1'', pv_dependencyManifestSHA256 = [], pv_platform = ''linux'',
     pv_publishedBy = [], pv_publishedAt = []\<rparr>"

definition exampleRelease :: "int \<Rightarrow> release_state \<Rightarrow> bool \<Rightarrow> string \<Rightarrow> release" where
  "exampleRelease g st av d =
     \<lparr>rl_generation = g, rl_agentType = ''coder'', rl_imageReference = ''img@'' @ d, rl_imageDigest = d,
      rl_provenance = exampleProvenance, rl_state = st, rl_available = av, rl_createdAt = 0, rl_updatedAt = 0\<rparr>"

definition exampleDigest :: "char \<Rightarrow> string" where
  "exampleDigest c = ''sha256:'' @ replicate 64 c"

definition exampleRegistry :: registry where
  "exampleRegistry =
     \<lparr>rg_rows = [exampleRelease 1 StateActive True (exampleDigest (CHR ''a'')),
                 exampleRelease 2 StateVerified True (exampleDigest (CHR ''b''))],
      rg_seq = 2, rg_audit = []\<rparr>"

lemma example_references:
  "re_match agentTypePattern ''coder''"
  "re_match digestPinnedReference (''img@'' @ exampleDigest (CHR ''a''))"
  "re_match digestPinnedReference (''img@'' @ exampleDigest (CHR ''b''))"
  "rel_digestOf (''img@'' @ exampleDigest (CHR ''a'')) = Inr (exampleDigest (CHR ''a''))"
  "rel_digestOf (''img@'' @ exampleDigest (CHR ''b'')) = Inr (exampleDigest (CHR ''b''))"
  by code_simp+

lemma exampleDigest_inj: "exampleDigest (CHR ''a'') \<noteq> exampleDigest (CHR ''b'')"
  by (simp add: exampleDigest_def)

lemma rel_inv_example: "rel_inv exampleRegistry"
  using exampleDigest_inj example_references
  by (simp add: rel_inv_def static_inv_def artifacts_def artifact_def exampleRegistry_def in_actives)
     (simp add: exampleRelease_def)

text \<open>C5. Whatever operations are applied to the registry, in whatever order and with whatever
  failures, at most one release of an agent type is active, generations grow strictly in the order of
  publication, every release is digest-pinned, no agent type has a digest twice, and what was published
  (generation, type, image, provenance) and what was audited stays as it is.\<close>

theorem registry_keeps_invariant:
  assumes "rel_inv s"
  shows "rel_inv (run_ops rel_exec xs s) \<and> rel_le s (run_ops rel_exec xs s) \<and>
         (\<forall>r \<in> set (rg_rows (run_ops rel_exec xs s)). \<forall>r' \<in> set (rg_rows (run_ops rel_exec xs s)).
            rl_state r = StateActive \<and> rl_state r' = StateActive \<and> rl_agentType r = rl_agentType r' \<longrightarrow> r = r')"
proof -
  let ?s = "run_ops rel_exec xs s"
  have inv: "rel_inv ?s" using assms by (rule registry_store.inv_run)
  then have "r = r'" if "r \<in> set (rg_rows ?s)" "r' \<in> set (rg_rows ?s)" "rl_state r = StateActive"
    "rl_state r' = StateActive" "rl_agentType r = rl_agentType r'" for r r'
    using that findActive_iff [OF inv] by (metis option.inject)
  with inv registry_store.le_run [OF assms] show ?thesis by blast
qed

theorem registry_keeps_invariant_witness:
  "rel_inv (run_ops rel_exec [RelPromote no_faults (\<lambda>_. 9) 2 ''ops'', RelRollback no_faults (\<lambda>_. 10) ''coder'' 1 ''ops'']
     exampleRegistry)"
  using registry_keeps_invariant [OF rel_inv_example] by blast

text \<open>A promotion succeeds only for a verified release with a local image that is newer than the
  active one. Then it is the active release of its type, the previous one is no longer active, the other
  agent types keep theirs, and one audit entry names the actor. Without failures every such promotion
  succeeds.\<close>

theorem Promote_moves_forward:
  assumes "rel_inv s"
  shows "(\<forall>f clk actor u s'. Promote f clk g actor s = (Inr u, s') \<longrightarrow>
            (\<exists>item. findRelease s g = Some item \<and> rl_state item = StateVerified \<and> rl_available item \<and>
               (\<forall>g'. (rl_agentType item, g') \<in> actives s \<longrightarrow> g' < g) \<and>
               (\<forall>t g'. (t, g') \<in> actives s' \<longleftrightarrow>
                  (if t = rl_agentType item then g' = g else (t, g') \<in> actives s)) \<and>
               rg_audit s' = rg_audit s @ [\<lparr>ae_generation = g, ae_agentType = rl_agentType item,
                 ae_operation = OperationPromote, ae_actor = actor, ae_detail = rl_imageDigest item,
                 ae_recordedAt = clk 2\<rparr>])) \<and>
         (\<forall>clk actor item. findRelease s g = Some item \<and> rl_state item = StateVerified \<and>
            rl_available item \<and> actor \<noteq> [] \<and> (\<forall>g'. (rl_agentType item, g') \<in> actives s \<longrightarrow> g' < g) \<longrightarrow>
            (\<exists>s'. Promote no_faults clk g actor s = (Inr (), s')))"
proof (intro conjI allI impI)
  fix f clk actor u s'
  assume "Promote f clk g actor s = (Inr u, s')"
  from Promote_ok [OF this] obtain item where item: "findRelease s g = Some item"
    "rl_state item = StateVerified" "rl_available item"
    "case findActive s (rl_agentType item) of None \<Rightarrow> True | Some a \<Rightarrow> rl_generation a < g"
    "s' = rel_audit g (rl_agentType item) OperationPromote actor (rl_imageDigest item) (clk 2)
           (activate item StateSuperseded clk s)" by blast
  have mem: "item \<in> set (rg_rows s)" and gen: "rl_generation item = g"
    using findRelease_SomeD [OF item(1)] by auto
  have "g' < g" if "(rl_agentType item, g') \<in> actives s" for g'
    using that item(4) findActive_actives [OF assms, of "rl_agentType item" g'] by auto
  moreover have "(t, g') \<in> actives s' \<longleftrightarrow>
      (if t = rl_agentType item then g' = g else (t, g') \<in> actives s)" for t g'
    by (simp add: item(5) actives_activate [OF assms mem] gen)
  moreover have "rg_audit s' = rg_audit s @ [\<lparr>ae_generation = g, ae_agentType = rl_agentType item,
      ae_operation = OperationPromote, ae_actor = actor, ae_detail = rl_imageDigest item,
      ae_recordedAt = clk 2\<rparr>]"
    by (simp add: item(5) rel_audit_def)
  ultimately show "\<exists>item. findRelease s g = Some item \<and> rl_state item = StateVerified \<and> rl_available item \<and>
      (\<forall>g'. (rl_agentType item, g') \<in> actives s \<longrightarrow> g' < g) \<and>
      (\<forall>t g'. (t, g') \<in> actives s' \<longleftrightarrow>
         (if t = rl_agentType item then g' = g else (t, g') \<in> actives s)) \<and>
      rg_audit s' = rg_audit s @ [\<lparr>ae_generation = g, ae_agentType = rl_agentType item,
        ae_operation = OperationPromote, ae_actor = actor, ae_detail = rl_imageDigest item,
        ae_recordedAt = clk 2\<rparr>]"
    using item(1-3) by blast
next
  fix clk and actor :: string and item
  assume h: "findRelease s g = Some item \<and> rl_state item = StateVerified \<and> rl_available item \<and>
    actor \<noteq> [] \<and> (\<forall>g'. (rl_agentType item, g') \<in> actives s \<longrightarrow> g' < g)"
  have "case findActive s (rl_agentType item) of None \<Rightarrow> True | Some a \<Rightarrow> rl_generation a < g"
    using h findActive_actives [OF assms, of "rl_agentType item"] by (auto split: option.splits)
  with h show "\<exists>s'. Promote no_faults clk g actor s = (Inr (), s')" by (intro Promote_succeeds) auto
qed

theorem Promote_moves_forward_witness:
  "\<exists>s'. Promote no_faults (\<lambda>_. 9) 2 ''ops'' exampleRegistry = (Inr (), s') \<and>
     (''coder'', 2) \<in> actives s' \<and> (''coder'', 1) \<notin> actives s'"
proof -
  let ?item = "exampleRelease 2 StateVerified True (exampleDigest (CHR ''b''))"
  have "findRelease exampleRegistry 2 = Some ?item"
    by (simp add: findRelease_def exampleRegistry_def exampleRelease_def)
  moreover have "\<forall>g'. (rl_agentType ?item, g') \<in> actives exampleRegistry \<longrightarrow> g' < 2"
    by (auto simp: in_actives exampleRegistry_def exampleRelease_def)
  moreover have "rl_state ?item = StateVerified" "rl_available ?item" "''ops'' \<noteq> []"
    by (simp_all add: exampleRelease_def)
  ultimately obtain s' where ok: "Promote no_faults (\<lambda>_. 9) 2 ''ops'' exampleRegistry = (Inr (), s')"
    using Promote_moves_forward [OF rel_inv_example, of 2, THEN conjunct2] by blast
  with \<open>findRelease exampleRegistry 2 = Some ?item\<close> have "(''coder'', g') \<in> actives s' \<longleftrightarrow> g' = 2" for g'
    using Promote_moves_forward [OF rel_inv_example, of 2] by (fastforce simp: exampleRelease_def)
  with ok show ?thesis by auto
qed

text \<open>C6. A launch resolves the one active release of its agent type, with an image that was found
  locally, pinned by the digest it is registered with; when the active release has no local image, or
  none is active, it is refused.\<close>

theorem Resolve_fails_closed:
  assumes "rel_inv s"
  shows "(\<forall>r. Resolve False t s = Inr r \<longleftrightarrow>
            (\<exists>row \<in> set (rg_rows s). rl_agentType row = t \<and> rl_state row = StateActive \<and>
               rl_available row \<and> r = scanRelease row)) \<and>
         (\<forall>r fails. Resolve fails t s = Inr r \<longrightarrow>
            rl_available r \<and> re_match digestPinnedReference (rl_imageReference r) \<and>
            rel_digestOf (rl_imageReference r) = Inr (rl_imageDigest r)) \<and>
         (Resolve False t s = Inl (ErrNoActiveRelease t) \<longleftrightarrow> (\<forall>g. (t, g) \<notin> actives s)) \<and>
         (\<forall>g. Resolve False t s = Inl (ErrUnavailable g) \<longleftrightarrow>
            (t, g) \<in> actives s \<and> availableOf s g = Some False)"
proof -
  have pinned: "re_match digestPinnedReference (rl_imageReference r) \<and>
      rel_digestOf (rl_imageReference r) = Inr (rl_imageDigest r)" if "r \<in> set (rg_rows s)" for r
    using that assms by (force simp: rel_inv_def static_inv_def artifacts_def artifact_def)
  have st: "static_inv s" using assms by (simp add: rel_inv_def)
  show ?thesis
  proof (cases "findActive s t")
    case None
    then have "\<forall>g. (t, g) \<notin> actives s" by (simp add: findActive_None)
    with None show ?thesis by (auto simp: Resolve_def activeTx_def in_actives)
  next
    case (Some a)
    then have a: "a \<in> set (rg_rows s)" "rl_agentType a = t" "rl_state a = StateActive"
      by (auto dest: findActive_SomeD)
    have only: "row = a" if "row \<in> set (rg_rows s)" "rl_agentType row = t" "rl_state row = StateActive" for row
      using that Some findActive_iff [OF assms] by (metis option.inject)
    have act: "(t, g) \<in> actives s \<longleftrightarrow> g = rl_generation a" for g
      using findActive_actives [OF assms, of t g] Some by auto
    have av: "availableOf s (rl_generation a) = Some (rl_available a)" by (rule availableOf_row [OF st a(1)])
    have res: "Resolve fails t s = (if fails then Inl RelDB else if \<not> rl_available a
        then Inl (ErrUnavailable (rl_generation a)) else Inr (scanRelease a))" for fails
      using Some by (simp add: Resolve_def activeTx_def)
    have "(\<exists>row \<in> set (rg_rows s). rl_agentType row = t \<and> rl_state row = StateActive \<and> rl_available row \<and>
        r = scanRelease row) \<longleftrightarrow> rl_available a \<and> r = scanRelease a" for r
      using a only by blast
    then show ?thesis using pinned [OF a(1)] av by (auto simp: res act)
  qed
qed

theorem Resolve_fails_closed_witness:
  "\<exists>r. Resolve False ''coder'' exampleRegistry = Inr r \<and> rl_available r \<and>
     re_match digestPinnedReference (rl_imageReference r)"
proof -
  have "Resolve False ''coder'' exampleRegistry =
      Inr (scanRelease (exampleRelease 1 StateActive True (exampleDigest (CHR ''a''))))"
    by (simp add: Resolve_def activeTx_def findActive_def exampleRegistry_def exampleRelease_def)
  with Resolve_fails_closed [OF rel_inv_example, of "''coder''"] show ?thesis by blast
qed

text \<open>C7. After a reconciliation that succeeds, for a check of the local images that does not change
  its answers, the registry agrees with the images: a release is launchable exactly when it is active and
  its image is present, the report names exactly the active releases without an image, and what is active
  did not change.\<close>

theorem Reconcile_agrees_with_images:
  assumes "rel_inv s" and "Reconcile (Some (steady present)) f fs clks actor s = (Inr missing, s')"
  shows "rel_inv s' \<and> actives s' = actives s \<and>
         (\<forall>t g. (\<exists>r. Resolve False t s' = Inr r \<and> rl_generation r = g) \<longleftrightarrow>
            (\<exists>row \<in> set (rg_rows s). rl_agentType row = t \<and> rl_generation row = g \<and>
               rl_state row = StateActive \<and> present (rl_imageReference row) (rl_imageDigest row))) \<and>
         set missing = missingEntry ` {r \<in> set (rg_rows s). rl_state r = StateActive \<and>
           \<not> present (rl_imageReference r) (rl_imageDigest r)}"
proof -
  note R = Reconcile_ok [OF assms]
  note launch = Resolve_launchable [OF R(3)]
  have "availableOf s' g = Some True \<longleftrightarrow> present (rl_imageReference row) (rl_imageDigest row)"
    if "row \<in> set (rg_rows s)" "rl_state row = StateActive" "rl_generation row = g" for row g
    using R(2) that by auto
  then have "(t, g) \<in> actives s \<and> availableOf s' g = Some True \<longleftrightarrow>
      (\<exists>row \<in> set (rg_rows s). rl_agentType row = t \<and> rl_generation row = g \<and>
         rl_state row = StateActive \<and> present (rl_imageReference row) (rl_imageDigest row))" for t g
    unfolding in_actives by blast
  with launch R show ?thesis by simp
qed

theorem Reconcile_agrees_with_images_witness:
  "\<exists>missing s'. Reconcile (Some (steady (\<lambda>_ _. False))) no_faults (\<lambda>_. no_faults) (\<lambda>_ _. 9) ''ops''
       exampleRegistry = (Inr missing, s') \<and>
     set missing = {missingEntry (exampleRelease 1 StateActive True (exampleDigest (CHR ''a'')))}"
proof -
  have "\<exists>missing s'. Reconcile (Some (steady (\<lambda>_ _. False))) no_faults (\<lambda>_. no_faults) (\<lambda>_ _. 9) ''ops''
       exampleRegistry = (Inr missing, s')"
    by (simp add: Reconcile_def ActiveReleases_def exampleRegistry_def exampleRelease_def no_faults_def
        steady_def markAvailable_def loadTx_def findRelease_def list_ex_iff missingEntry_def scanRelease_def Let_def)
  then obtain missing s' where ok: "Reconcile (Some (steady (\<lambda>_ _. False))) no_faults (\<lambda>_. no_faults)
      (\<lambda>_ _. 9) ''ops'' exampleRegistry = (Inr missing, s')" by blast
  have "{r \<in> set (rg_rows exampleRegistry). rl_state r = StateActive} =
      {exampleRelease 1 StateActive True (exampleDigest (CHR ''a''))}"
    by (auto simp: exampleRegistry_def exampleRelease_def)
  with Reconcile_agrees_with_images [OF rel_inv_example ok] ok show ?thesis by simp
qed

text \<open>Publishing, verifying and acquiring change nothing of what is active: only a promotion or a
  rollback does, and only for its own agent type. A release that was just published is not active and
  has no local image, so it cannot be launched or promoted.\<close>

theorem only_promotion_and_rollback_activate:
  assumes "rel_inv s"
  shows "(op_kind x \<notin> {OperationPromote, OperationRollback} \<longrightarrow> actives (snd (rel_exec x s)) = actives s) \<and>
         (\<forall>f clk t ref prov actor r s'. PublishCandidate f clk t ref prov actor s = (Inr r, s') \<longrightarrow>
            rl_generation r = rg_seq s + 1 \<and> findRelease s (rl_generation r) = None \<and>
            (\<forall>f' clk' actor'. failed (Promote f' clk' (rl_generation r) actor' s')))"
proof (intro conjI impI allI)
  assume kind: "op_kind x \<notin> {OperationPromote, OperationRollback}"
  show "actives (snd (rel_exec x s)) = actives s"
  proof (cases "failed (rel_exec x s)")
    case True
    then show ?thesis by (simp add: rel_exec_failed)
  next
    case False
    then obtain u s' where ok: "rel_exec x s = (Inr u, s')"
      by (cases "rel_exec x s") (auto simp: failed_def split: sum.splits)
    show ?thesis
    proof (cases x)
      case (RelPublish f clk t ref prov actor)
      then obtain r where "PublishCandidate f clk t ref prov actor s = (Inr r, s')"
        using ok by (auto simp: forget_def split: sum.splits prod.splits)
      from PublishCandidate_ok [OF this] ok show ?thesis by (auto simp: actives_def)
    next
      case (RelVerify f clk g req actor)
      then have "rel_verify f clk g req actor s = (Inr u, s')" using ok by simp
      from rel_verify_ok [OF this] obtain item where item: "findRelease s g = Some item"
        "rl_state item \<in> {StateCandidate, StateVerified}"
        "s' = rel_audit g (rl_agentType item) OperationVerify actor (rl_imageDigest item) (clk 1)
           (setState g StateVerified (clk 0) s)" by blast
      have "(t, g) \<notin> actives s" for t
        using item(1,2) assms findRelease_SomeD [OF item(1)]
        by (auto simp: in_actives rel_inv_def dest: generation_unique)
      then have "(t, g') \<in> actives s' \<longleftrightarrow> (t, g') \<in> actives s" for t g'
        by (auto simp: item(3) actives_setState_inactive)
      then show ?thesis using ok by auto
    next
      case (RelMark f clk g b actor)
      then have "markAvailable f clk g b actor s = (Inr u, s')" using ok by simp
      from markAvailable_ok [OF this] ok show ?thesis by auto
    qed (use kind in auto)
  qed
next
  fix f clk t ref prov actor r s'
  assume "PublishCandidate f clk t ref prov actor s = (Inr r, s')"
  from PublishCandidate_ok [OF this] obtain d row where pub:
    "row = \<lparr>rl_generation = rg_seq s + 1, rl_agentType = t,
       rl_imageReference = ref, rl_imageDigest = d, rl_provenance = prov, rl_state = StateCandidate,
       rl_available = False, rl_createdAt = clk 0, rl_updatedAt = clk 0\<rparr>" "r = scanRelease row"
    "s' = rel_audit (rg_seq s + 1) t OperationPublish actor ref (clk 1)
           (s\<lparr>rg_rows := rg_rows s @ [row], rg_seq := rg_seq s + 1\<rparr>)" by blast
  then have row: "rl_generation row = rg_seq s + 1" "rl_state row = StateCandidate"
    "r = scanRelease row" "rg_rows s' = rg_rows s @ [row]" by simp_all
  show "rl_generation r = rg_seq s + 1" using row by simp
  have fresh: "rl_generation q \<noteq> rg_seq s + 1" if "q \<in> set (rg_rows s)" for q
    using that assms by (force simp: rel_inv_def static_inv_def artifacts_def artifact_def)
  then show "findRelease s (rl_generation r) = None"
    using row by (auto simp: findRelease_def find_None_iff)
  have "findRelease s' (rl_generation r) = Some row"
    using row fresh by (auto simp: findRelease_def intro!: find_unique)
  then show "failed (Promote f' clk' (rl_generation r) actor' s')" for f' clk' actor'
    using row(2) Promote_ok [of f' clk' "rl_generation r" actor' s']
    by (cases "Promote f' clk' (rl_generation r) actor' s'") (auto simp: failed_def split: sum.splits)
qed

theorem only_promotion_and_rollback_activate_witness:
  "actives (snd (rel_exec (RelMark no_faults (\<lambda>_. 9) 1 False ''ops'') exampleRegistry)) = actives exampleRegistry"
  using only_promotion_and_rollback_activate [OF rel_inv_example, of "RelMark no_faults (\<lambda>_. 9) 1 False ''ops''"]
  by simp

text \<open>A rollback may activate a release that was never active and is newer than the active one, as
  long as it is verified and has a local image.\<close>

lemma Rollback_can_move_forward:
  "\<exists>s'. Rollback no_faults (\<lambda>_. 9) ''coder'' 2 ''ops'' exampleRegistry = (Inr (), s') \<and> (''coder'', 2) \<in> actives s'"
proof -
  have "\<exists>s'. Rollback no_faults (\<lambda>_. 9) ''coder'' 2 ''ops'' exampleRegistry = (Inr (), s')"
    by (simp add: Rollback_def no_faults_def loadTx_def activeTx_def findRelease_def findActive_def
        exampleRegistry_def exampleRelease_def scanRelease_def Let_def)
  then obtain s' where ok: "Rollback no_faults (\<lambda>_. 9) ''coder'' 2 ''ops'' exampleRegistry = (Inr (), s')" by blast
  from Rollback_ok [OF ok] have "(''coder'', 2) \<in> actives s'"
    using actives_activate [OF rel_inv_example] findRelease_SomeD by fastforce
  with ok show ?thesis by blast
qed

end
