(* ===== verification/Capability.thy ===== *)
theory Capability
  imports Go_Time
begin

text \<open>
  Package \<open>capability\<close>, the claims and the policy (\<open>src/internal/capability/capability.go\<close>): the
  immutable claims of a run's capability, their construction, and the stateless evaluator that
  decides whether a request is within them. The set of allowed models, a Go map, is the list of its
  elements without repetition. Budgets and increments are 64-bit: the one subtraction of the policy is
  written with its wrap-around.
\<close>

section \<open>Data\<close>

record claims =
  cl_agentType :: string
  cl_mode :: string
  cl_runID :: string
  cl_workItemID :: string
  cl_allowedModels :: "string list"
  cl_callBudget :: int
  cl_tokenBudget :: int
  cl_expiry :: gotime

record claims_input =
  ci_agentType :: string
  ci_mode :: string
  ci_runID :: string
  ci_workItemID :: string
  ci_allowedModels :: "string list"
  ci_callBudget :: int
  ci_tokenBudget :: int
  ci_expiry :: gotime

record cap_request =
  cq_agentType :: string
  cq_mode :: string
  cq_runID :: string
  cq_workItemID :: string
  cq_model :: string
  cq_calls :: int
  cq_tokens :: int
  cq_reservedCalls :: int
  cq_reservedTokens :: int

datatype cap_error =
    ErrInvalidClaims | ErrExpired | ErrAgentTypeMismatch | ErrModeMismatch | ErrRunMismatch
  | ErrWorkItemMismatch | ErrModelDenied | ErrCallBudget | ErrTokenBudget
  | ErrHandleNotFound | ErrRevoked | ErrHandleMalformed | CapRandom | CapDB | CapTimestamp
  | CapSchemaVersion | CapStoredHash | CapReservationOutside

section \<open>Claims\<close>

definition coherentModelAccess :: "bool \<Rightarrow> int \<Rightarrow> int \<Rightarrow> bool" where
  "coherentModelAccess modelEnabled callBudget tokenBudget =
     (if modelEnabled then callBudget > 0 \<and> tokenBudget > 0 else callBudget = 0 \<and> tokenBudget = 0)"

fun collectModels :: "string list \<Rightarrow> string list \<Rightarrow> string list option" where
  "collectModels [] models = Some models"
| "collectModels (x # xs) models =
     (if x = [] then None else collectModels xs (if x \<in> set models then models else models @ [x]))"

definition NewClaims :: "claims_input \<Rightarrow> cap_error + claims" where
  "NewClaims inp =
     (if ci_agentType inp = [] then Inl ErrInvalidClaims
      else if ci_mode inp = [] then Inl ErrInvalidClaims
      else if ci_runID inp = [] then Inl ErrInvalidClaims
      else if ci_workItemID inp = [] then Inl ErrInvalidClaims
      else if isZero (ci_expiry inp) then Inl ErrInvalidClaims
      else if ci_callBudget inp < 0 \<or> ci_tokenBudget inp < 0 then Inl ErrInvalidClaims
      else case collectModels (ci_allowedModels inp) [] of
        None \<Rightarrow> Inl ErrInvalidClaims
      | Some models \<Rightarrow>
          if \<not> coherentModelAccess (0 < length models) (ci_callBudget inp) (ci_tokenBudget inp)
          then Inl ErrInvalidClaims
          else Inr \<lparr>cl_agentType = ci_agentType inp, cl_mode = ci_mode inp, cl_runID = ci_runID inp,
                     cl_workItemID = ci_workItemID inp, cl_allowedModels = models,
                     cl_callBudget = ci_callBudget inp, cl_tokenBudget = ci_tokenBudget inp,
                     cl_expiry = ci_expiry inp\<rparr>)"

definition ModelEnabled :: "claims \<Rightarrow> bool" where
  "ModelEnabled c = (0 < length (cl_allowedModels c))"

definition AllowedModels :: "claims \<Rightarrow> string list" where
  "AllowedModels c = sort (cl_allowedModels c)"

definition AllowsModel :: "claims \<Rightarrow> string \<Rightarrow> bool" where
  "AllowsModel c model = (model \<in> set (cl_allowedModels c))"

section \<open>Policy\<close>

definition claimsValidate :: "claims \<Rightarrow> gotime \<Rightarrow> cap_error + unit" where
  "claimsValidate c now =
     (if cl_agentType c = [] \<or> cl_mode c = [] \<or> cl_runID c = [] \<or> cl_workItemID c = [] \<or>
         isZero (cl_expiry c)
      then Inl ErrInvalidClaims
      else if cl_callBudget c < 0 \<or> cl_tokenBudget c < 0 then Inl ErrInvalidClaims
      else if \<not> coherentModelAccess (0 < length (cl_allowedModels c)) (cl_callBudget c) (cl_tokenBudget c)
      then Inl ErrInvalidClaims
      else if \<not> now < cl_expiry c then Inl ErrExpired
      else Inr ())"

definition Authorize :: "claims \<Rightarrow> cap_request \<Rightarrow> gotime \<Rightarrow> cap_error + unit" where
  "Authorize c req now =
     (case claimsValidate c now of
        Inl e \<Rightarrow> Inl e
      | Inr _ \<Rightarrow>
          if cq_agentType req \<noteq> cl_agentType c then Inl ErrAgentTypeMismatch
          else if cq_mode req \<noteq> cl_mode c then Inl ErrModeMismatch
          else if cq_runID req \<noteq> cl_runID c then Inl ErrRunMismatch
          else if cq_workItemID req \<noteq> cl_workItemID c then Inl ErrWorkItemMismatch
          else if cq_calls req < 0 \<or> cq_tokens req < 0 \<or> cq_reservedCalls req < 0 \<or>
                  cq_reservedTokens req < 0
          then Inl ErrInvalidClaims
          else if \<not> ModelEnabled c then
            (if cq_model req \<noteq> [] then Inl ErrModelDenied
             else if cq_calls req > 0 \<or> cq_reservedCalls req > 0 then Inl ErrCallBudget
             else if cq_tokens req > 0 \<or> cq_reservedTokens req > 0 then Inl ErrTokenBudget
             else Inr ())
          else if cq_model req \<noteq> [] \<and> \<not> AllowsModel c (cq_model req) then Inl ErrModelDenied
          else if cq_reservedCalls req > cl_callBudget c \<or>
                  cq_calls req > wrap64 (cl_callBudget c - cq_reservedCalls req)
          then Inl ErrCallBudget
          else if cq_reservedTokens req > cl_tokenBudget c \<or>
                  cq_tokens req > wrap64 (cl_tokenBudget c - cq_reservedTokens req)
          then Inl ErrTokenBudget
          else Inr ())"

section \<open>Specification\<close>

text \<open>What makes claims well-formed: identity and expiry are there, and model access is in one of two
  states, disabled (no models, no budgets) or enabled (models and both budgets).\<close>

definition claims_wf :: "claims \<Rightarrow> bool" where
  "claims_wf c \<longleftrightarrow>
     cl_agentType c \<noteq> [] \<and> cl_mode c \<noteq> [] \<and> cl_runID c \<noteq> [] \<and> cl_workItemID c \<noteq> [] \<and> cl_expiry c \<noteq> 0 \<and>
     distinct (cl_allowedModels c) \<and> [] \<notin> set (cl_allowedModels c) \<and>
     ((cl_allowedModels c = [] \<and> cl_callBudget c = 0 \<and> cl_tokenBudget c = 0) \<or>
      (cl_allowedModels c \<noteq> [] \<and> 0 < cl_callBudget c \<and> 0 < cl_tokenBudget c))"

definition budgets_typed :: "claims \<Rightarrow> bool" where
  "budgets_typed c \<longleftrightarrow> int64_range (cl_callBudget c) \<and> int64_range (cl_tokenBudget c)"

text \<open>A request within the claims, over the integers.\<close>

definition within_claims :: "claims \<Rightarrow> cap_request \<Rightarrow> gotime \<Rightarrow> bool" where
  "within_claims c req now \<longleftrightarrow>
     now < cl_expiry c \<and>
     cq_agentType req = cl_agentType c \<and> cq_mode req = cl_mode c \<and> cq_runID req = cl_runID c \<and>
     cq_workItemID req = cl_workItemID c \<and>
     0 \<le> cq_calls req \<and> 0 \<le> cq_tokens req \<and> 0 \<le> cq_reservedCalls req \<and> 0 \<le> cq_reservedTokens req \<and>
     (cq_model req = [] \<or> cq_model req \<in> set (cl_allowedModels c)) \<and>
     cq_reservedCalls req + cq_calls req \<le> cl_callBudget c \<and>
     cq_reservedTokens req + cq_tokens req \<le> cl_tokenBudget c"

section \<open>Lemmas\<close>

lemma collectModels_Some:
  "collectModels xs acc = Some models \<Longrightarrow> distinct acc \<Longrightarrow> [] \<notin> set acc \<Longrightarrow>
     distinct models \<and> set models = set acc \<union> set xs \<and> [] \<notin> set xs"
  by (induction xs arbitrary: acc) (auto split: if_splits)

lemma collectModels_None: "collectModels xs acc = None \<longleftrightarrow> [] \<in> set xs"
  by (induction xs arbitrary: acc) auto

text \<open>The stored form of the models, the sorted list, collects to itself.\<close>

lemma collectModels_distinct:
  "distinct (acc @ xs) \<Longrightarrow> [] \<notin> set xs \<Longrightarrow> collectModels xs acc = Some (acc @ xs)"
  by (induction xs arbitrary: acc) auto

lemma NewClaims_Inr:
  assumes "NewClaims inp = Inr c"
  shows "claims_wf c" "cl_agentType c = ci_agentType inp" "cl_mode c = ci_mode inp"
    "cl_runID c = ci_runID inp" "cl_workItemID c = ci_workItemID inp"
    "set (cl_allowedModels c) = set (ci_allowedModels inp)" "cl_callBudget c = ci_callBudget inp"
    "cl_tokenBudget c = ci_tokenBudget inp" "cl_expiry c = ci_expiry inp"
  using assms
  by (auto simp: NewClaims_def claims_wf_def coherentModelAccess_def isZero_def
      split: if_splits option.splits dest!: collectModels_Some)

lemma claims_wf_NewClaims:
  assumes "claims_wf c"
  shows "NewClaims \<lparr>ci_agentType = cl_agentType c, ci_mode = cl_mode c, ci_runID = cl_runID c,
      ci_workItemID = cl_workItemID c, ci_allowedModels = cl_allowedModels c,
      ci_callBudget = cl_callBudget c, ci_tokenBudget = cl_tokenBudget c, ci_expiry = cl_expiry c\<rparr> = Inr c"
  using assms
  by (auto simp: NewClaims_def claims_wf_def coherentModelAccess_def isZero_def collectModels_distinct)

lemma claims_wf_sorted:
  assumes "claims_wf c"
  shows "claims_wf (c\<lparr>cl_allowedModels := AllowedModels c\<rparr>)"
proof -
  have "sort xs = [] \<longleftrightarrow> xs = []" for xs :: "string list" by (metis set_sort set_empty)
  with assms show ?thesis unfolding claims_wf_def AllowedModels_def by simp
qed

lemma claimsValidate_wf:
  "claims_wf c \<Longrightarrow> claimsValidate c now = (if now < cl_expiry c then Inr () else Inl ErrExpired)"
  by (auto simp: claimsValidate_def claims_wf_def coherentModelAccess_def isZero_def)

lemma Authorize_iff:
  assumes "claims_wf c" and "budgets_typed c"
  shows "Authorize c req now = Inr () \<longleftrightarrow> within_claims c req now"
proof -
  have sub: "wrap64 (b - r) = b - r" if "0 \<le> r" "r \<le> b" "int64_range b" for b r
    using that by (intro wrap64_id) (auto simp: int64_range_def)
  have call: "cq_reservedCalls req > cl_callBudget c \<or>
      cq_calls req > wrap64 (cl_callBudget c - cq_reservedCalls req) \<longleftrightarrow>
      cq_reservedCalls req + cq_calls req > cl_callBudget c"
    if "0 \<le> cq_reservedCalls req" "0 \<le> cq_calls req"
    using that sub [of "cq_reservedCalls req" "cl_callBudget c"] assms(2)
    by (cases "cq_reservedCalls req \<le> cl_callBudget c") (auto simp: budgets_typed_def)
  have token: "cq_reservedTokens req > cl_tokenBudget c \<or>
      cq_tokens req > wrap64 (cl_tokenBudget c - cq_reservedTokens req) \<longleftrightarrow>
      cq_reservedTokens req + cq_tokens req > cl_tokenBudget c"
    if "0 \<le> cq_reservedTokens req" "0 \<le> cq_tokens req"
    using that sub [of "cq_reservedTokens req" "cl_tokenBudget c"] assms(2)
    by (cases "cq_reservedTokens req \<le> cl_tokenBudget c") (auto simp: budgets_typed_def)
  show ?thesis
  proof (cases "cq_calls req < 0 \<or> cq_tokens req < 0 \<or> cq_reservedCalls req < 0 \<or> cq_reservedTokens req < 0")
    case True
    then show ?thesis
      by (auto simp: Authorize_def within_claims_def split: sum.splits if_splits)
  next
    case False
    then have nonneg: "0 \<le> cq_calls req" "0 \<le> cq_tokens req" "0 \<le> cq_reservedCalls req"
      "0 \<le> cq_reservedTokens req" by auto
    show ?thesis
    proof (cases "ModelEnabled c")
      case True
      with nonneg call token show ?thesis
        by (auto simp: Authorize_def within_claims_def claimsValidate_wf [OF assms(1)] AllowsModel_def)
    next
      case False
      then have "cl_allowedModels c = []" "cl_callBudget c = 0" "cl_tokenBudget c = 0"
        using assms(1) by (auto simp: ModelEnabled_def claims_wf_def)
      with False nonneg show ?thesis
        by (auto simp: Authorize_def within_claims_def claimsValidate_wf [OF assms(1)])
    qed
  qed
qed

section \<open>Properties\<close>

text \<open>Claims can be built exactly from inputs with an identity, an expiry, no blank model, and
  model access either disabled (no models, both budgets zero) or enabled (models, both budgets
  positive); they then carry the values of the input.\<close>

theorem NewClaims_accepts_coherent:
  "(\<exists>c. NewClaims inp = Inr c) \<longleftrightarrow>
     ci_agentType inp \<noteq> [] \<and> ci_mode inp \<noteq> [] \<and> ci_runID inp \<noteq> [] \<and> ci_workItemID inp \<noteq> [] \<and>
     ci_expiry inp \<noteq> 0 \<and> [] \<notin> set (ci_allowedModels inp) \<and>
     ((ci_allowedModels inp = [] \<and> ci_callBudget inp = 0 \<and> ci_tokenBudget inp = 0) \<or>
      (ci_allowedModels inp \<noteq> [] \<and> 0 < ci_callBudget inp \<and> 0 < ci_tokenBudget inp))"
proof (cases "collectModels (ci_allowedModels inp) []")
  case None
  then have "[] \<in> set (ci_allowedModels inp)" by (simp add: collectModels_None)
  with None show ?thesis by (auto simp: NewClaims_def)
next
  case (Some models)
  then have "distinct models \<and> set models = set (ci_allowedModels inp) \<and> [] \<notin> set (ci_allowedModels inp)"
    using collectModels_Some [OF Some] by simp
  moreover from this have "models = [] \<longleftrightarrow> ci_allowedModels inp = []" by (metis set_empty)
  ultimately show ?thesis
    using Some by (auto simp: NewClaims_def coherentModelAccess_def isZero_def)
qed

text \<open>C8. A capability permits a request exactly when it has not expired, the request names its agent
  type, mode, run and work item, names no model or an allowed one, and its increments added to what is
  reserved fit both budgets as integers: no 64-bit increment, however large, gets past a budget by
  overflow.\<close>

theorem Authorize_is_within_claims:
  assumes "NewClaims inp = Inr c" and "int64_range (ci_callBudget inp)" and "int64_range (ci_tokenBudget inp)"
  shows "Authorize c req now = Inr () \<longleftrightarrow> within_claims c req now"
  using assms NewClaims_Inr [OF assms(1)] by (intro Authorize_iff) (auto simp: budgets_typed_def)

definition exampleInput :: claims_input where
  "exampleInput = \<lparr>ci_agentType = ''coder'', ci_mode = ''fix'', ci_runID = ''r1'', ci_workItemID = ''w1'',
     ci_allowedModels = [''m1'', ''m0'', ''m1''], ci_callBudget = 10, ci_tokenBudget = 1000, ci_expiry = 500\<rparr>"

definition exampleClaims :: claims where
  "exampleClaims = \<lparr>cl_agentType = ''coder'', cl_mode = ''fix'', cl_runID = ''r1'', cl_workItemID = ''w1'',
     cl_allowedModels = [''m1'', ''m0''], cl_callBudget = 10, cl_tokenBudget = 1000, cl_expiry = 500\<rparr>"

definition exampleRequest :: cap_request where
  "exampleRequest = \<lparr>cq_agentType = ''coder'', cq_mode = ''fix'', cq_runID = ''r1'', cq_workItemID = ''w1'',
     cq_model = ''m0'', cq_calls = 2 ^ 63 - 1, cq_tokens = 5, cq_reservedCalls = 1, cq_reservedTokens = 0\<rparr>"

lemma NewClaims_example: "NewClaims exampleInput = Inr exampleClaims"
  by (simp add: NewClaims_def exampleInput_def exampleClaims_def coherentModelAccess_def isZero_def)

theorem Authorize_is_within_claims_witness:
  "Authorize exampleClaims (exampleRequest\<lparr>cq_calls := 9\<rparr>) 499 = Inr () \<and>
   Authorize exampleClaims exampleRequest 499 \<noteq> Inr ()"
  using Authorize_is_within_claims [OF NewClaims_example, of "exampleRequest\<lparr>cq_calls := 9\<rparr>" 499]
    Authorize_is_within_claims [OF NewClaims_example, of exampleRequest 499]
  by (simp add: exampleInput_def int64_range_def within_claims_def exampleClaims_def exampleRequest_def)

end
