(* ===== verification/Capability_Store.thy ===== *)
theory Capability_Store
  imports Capability
begin

text \<open>
  Package \<open>capability\<close>, the store (\<open>src/internal/capability/store.go\<close>): capabilities under the
  SHA-256 digest of their handle. \<open>sha\<close> stands for \<open>hashHandle\<close>, the hexadecimal SHA-256 of a handle;
  the random bytes of a new handle are an argument of \<open>Issue\<close>. The table is the list of its rows in
  the order of insertion; the column of allowed models is the decoded list. The \<open>i\<close>-th reading of the
  clock in an operation is \<open>clk i\<close>. \<open>Revoke\<close> is a single statement outside a transaction: when
  reading its number of rows fails, the update has been made.
\<close>

section \<open>Data\<close>

datatype cap_state = CapActive | CapRevoked | CapOtherState string

record cap_row =
  cp_digest :: string
  cp_agentType :: string
  cp_mode :: string
  cp_runID :: string
  cp_workItemID :: string
  cp_allowedModels :: "string list"
  cp_callBudget :: int
  cp_tokenBudget :: int
  cp_expiry :: gotime
  cp_state :: cap_state
  cp_reservedCalls :: int
  cp_reservedTokens :: int
  cp_createdAt :: gotime
  cp_updatedAt :: gotime

record cap_store =
  cs_version :: int
  cs_rows :: "cap_row list"

record reservation =
  rv_calls :: int
  rv_tokens :: int

section \<open>Helpers\<close>

definition digestOf :: "(string \<Rightarrow> string) \<Rightarrow> string \<Rightarrow> cap_error + string" where
  "digestOf sha handle =
     (if length handle \<noteq> 64 then Inl ErrHandleMalformed
      else if \<not> hexDecodes handle then Inl ErrHandleMalformed
      else Inr (sha handle))"

definition parseStoreTime :: "gotime \<Rightarrow> cap_error + gotime" where
  "parseStoreTime t = (if in_text_range t then Inr t else Inl CapTimestamp)"

definition rowInput :: "cap_row \<Rightarrow> gotime \<Rightarrow> claims_input" where
  "rowInput r expiry =
     \<lparr>ci_agentType = cp_agentType r, ci_mode = cp_mode r, ci_runID = cp_runID r,
      ci_workItemID = cp_workItemID r, ci_allowedModels = cp_allowedModels r,
      ci_callBudget = cp_callBudget r, ci_tokenBudget = cp_tokenBudget r, ci_expiry = expiry\<rparr>"

definition findRow :: "cap_store \<Rightarrow> string \<Rightarrow> cap_row option" where
  "findRow s d = find (\<lambda>r. cp_digest r = d) (cs_rows s)"

definition scanCapabilityTx :: "bool \<Rightarrow> string \<Rightarrow> cap_store \<Rightarrow> cap_error + claims \<times> reservation" where
  "scanCapabilityTx fails d s =
     (if fails then Inl CapDB
      else case findRow s d of
        None \<Rightarrow> Inl ErrHandleNotFound
      | Some r \<Rightarrow>
          if cp_digest r \<noteq> d then Inl ErrHandleNotFound
          else if cp_state r = CapRevoked then Inl ErrRevoked
          else case parseStoreTime (cp_expiry r) of
            Inl e \<Rightarrow> Inl e
          | Inr expiry \<Rightarrow>
              (case NewClaims (rowInput r expiry) of
                 Inl e \<Rightarrow> Inl e
               | Inr c \<Rightarrow>
                   Inr (c, \<lparr>rv_calls = cp_reservedCalls r, rv_tokens = cp_reservedTokens r\<rparr>)))"

definition cap_lookup ::
  "(string \<Rightarrow> string) \<Rightarrow> faults \<Rightarrow> string \<Rightarrow> cap_store \<Rightarrow> cap_error + claims \<times> reservation" where
  "cap_lookup sha f handle s =
     (case digestOf sha handle of
        Inl e \<Rightarrow> Inl e
      | Inr d \<Rightarrow> if f 0 then Inl CapDB else scanCapabilityTx (f 1) d s)"

definition updateRow :: "string \<Rightarrow> (cap_row \<Rightarrow> cap_row) \<Rightarrow> cap_store \<Rightarrow> cap_store" where
  "updateRow d h s =
     s\<lparr>cs_rows := map (\<lambda>r. if cp_digest r = d then h r else r) (cs_rows s)\<rparr>"

section \<open>Operations\<close>

definition Issue ::
  "(string \<Rightarrow> string) \<Rightarrow> faults \<Rightarrow> (nat \<Rightarrow> gotime) \<Rightarrow> string option \<Rightarrow> claims \<Rightarrow> cap_store \<Rightarrow>
     (cap_error, string, cap_store) outcome" where
  "Issue sha f clk raw c s =
     (case claimsValidate c (clk 0) of
        Inl e \<Rightarrow> (Inl e, s)
      | Inr _ \<Rightarrow>
          (case raw of
             None \<Rightarrow> (Inl CapRandom, s)
           | Some bytes \<Rightarrow>
               (let handle = hexEncode bytes; d = sha handle in
                if f 0 \<or> findRow s d \<noteq> None then (Inl CapDB, s)
                else (Inr handle,
                  s\<lparr>cs_rows := cs_rows s @
                     [\<lparr>cp_digest = d, cp_agentType = cl_agentType c, cp_mode = cl_mode c,
                       cp_runID = cl_runID c, cp_workItemID = cl_workItemID c,
                       cp_allowedModels = AllowedModels c, cp_callBudget = cl_callBudget c,
                       cp_tokenBudget = cl_tokenBudget c, cp_expiry = cl_expiry c,
                       cp_state = CapActive, cp_reservedCalls = 0, cp_reservedTokens = 0,
                       cp_createdAt = clk 1, cp_updatedAt = clk 1\<rparr>]\<rparr>))))"

definition Verify ::
  "(string \<Rightarrow> string) \<Rightarrow> faults \<Rightarrow> (nat \<Rightarrow> gotime) \<Rightarrow> string \<Rightarrow> cap_store \<Rightarrow>
     cap_error + claims \<times> reservation" where
  "Verify sha f clk handle s =
     (case cap_lookup sha f handle s of
        Inl e \<Rightarrow> Inl e
      | Inr (c, res) \<Rightarrow>
          (case claimsValidate c (clk 0) of Inl e \<Rightarrow> Inl e | Inr _ \<Rightarrow> Inr (c, res)))"

definition Reserve ::
  "(string \<Rightarrow> string) \<Rightarrow> faults \<Rightarrow> (nat \<Rightarrow> gotime) \<Rightarrow> string \<Rightarrow> cap_request \<Rightarrow> cap_store \<Rightarrow>
     (cap_error, reservation, cap_store) outcome" where
  "Reserve sha f clk handle req0 s =
     (case digestOf sha handle of
        Inl e \<Rightarrow> (Inl e, s)
      | Inr d \<Rightarrow>
          if f 0 then (Inl CapDB, s)
          else case scanCapabilityTx (f 1) d s of
            Inl e \<Rightarrow> (Inl e, s)
          | Inr (c, res) \<Rightarrow>
              (let req = req0\<lparr>cq_reservedCalls := rv_calls res, cq_reservedTokens := rv_tokens res\<rparr> in
               case Authorize c req (clk 0) of
                 Inl e \<Rightarrow> (Inl e, s)
               | Inr _ \<Rightarrow>
                   (let newCalls = wrap64 (rv_calls res + cq_calls req);
                        newTokens = wrap64 (rv_tokens res + cq_tokens req)
                    in if f 2 then (Inl CapDB, s)
                       else if f 3 then (Inl CapDB, s)
                       else (Inr \<lparr>rv_calls = newCalls, rv_tokens = newTokens\<rparr>,
                             updateRow d (\<lambda>r. if cp_state r = CapActive
                               then r\<lparr>cp_reservedCalls := newCalls, cp_reservedTokens := newTokens,
                                      cp_updatedAt := clk 1\<rparr> else r) s))))"

definition Revoke ::
  "(string \<Rightarrow> string) \<Rightarrow> faults \<Rightarrow> (nat \<Rightarrow> gotime) \<Rightarrow> string \<Rightarrow> cap_store \<Rightarrow>
     (cap_error, unit, cap_store) outcome" where
  "Revoke sha f clk handle s =
     (case digestOf sha handle of
        Inl e \<Rightarrow> (Inl e, s)
      | Inr d \<Rightarrow>
          if f 0 then (Inl CapDB, s)
          else
            (let s' = updateRow d (\<lambda>r. r\<lparr>cp_state := CapRevoked, cp_updatedAt := clk 0\<rparr>) s;
                 affected = length (filter (\<lambda>r. cp_digest r = d) (cs_rows s))
             in if f 1 then (Inl CapDB, s')
                else if affected = 0 then (Inl ErrHandleNotFound, s')
                else (Inr (), s')))"

text \<open>The body of the loop of the offline \<open>Validate\<close>, then \<open>Validate\<close>; the faults are those of the
  two queries, of each row and of the end of the iteration.\<close>

definition validateRow :: "cap_row \<Rightarrow> cap_error + unit" where
  "validateRow r =
     (if length (cp_digest r) \<noteq> 64 then Inl CapStoredHash
      else if cp_state r \<noteq> CapActive \<and> cp_state r \<noteq> CapRevoked then Inl CapStoredHash
      else case parseStoreTime (cp_expiry r) of
        Inl e \<Rightarrow> Inl e
      | Inr expiry \<Rightarrow>
          (case NewClaims (rowInput r expiry) of
             Inl e \<Rightarrow> Inl e
           | Inr _ \<Rightarrow>
               if cp_reservedCalls r < 0 \<or> cp_reservedTokens r < 0 \<or>
                  cp_reservedCalls r > cp_callBudget r \<or> cp_reservedTokens r > cp_tokenBudget r
               then Inl CapReservationOutside
               else Inr ()))"

fun validateRows :: "(nat \<Rightarrow> bool) \<Rightarrow> nat \<Rightarrow> cap_row list \<Rightarrow> cap_error + unit" where
  "validateRows f i [] = (if f i then Inl CapDB else Inr ())"
| "validateRows f i (r # rs) =
     (if f i then Inl CapDB
      else case validateRow r of Inl e \<Rightarrow> Inl e | Inr _ \<Rightarrow> validateRows f (Suc i) rs)"

definition storeValidate :: "faults \<Rightarrow> cap_store \<Rightarrow> cap_error + unit" where
  "storeValidate f s =
     (if f 0 then Inl CapDB
      else if cs_version s \<noteq> 1 then Inl CapSchemaVersion
      else if f 1 then Inl CapDB
      else validateRows f 2 (cs_rows s))"

definition cap_migrateV1 :: "faults \<Rightarrow> cap_store \<Rightarrow> (cap_error, unit, cap_store) outcome" where
  "cap_migrateV1 f s =
     (if f 0 then (Inl CapDB, s)
      else if list_ex f [1..<4] then (Inl CapDB, s)
      else if f 4 then (Inl CapDB, s)
      else (Inr (), \<lparr>cs_version = 1, cs_rows = []\<rparr>))"

definition cap_initialize ::
  "faults \<Rightarrow> string \<Rightarrow> int \<Rightarrow> string \<Rightarrow> faults \<Rightarrow> cap_store \<Rightarrow> (cap_error, unit, cap_store) outcome" where
  "cap_initialize f journal synchronous integrity g s =
     (if f 0 \<or> journal \<noteq> ''wal'' then (Inl CapDB, s)
      else if f 1 then (Inl CapDB, s)
      else if f 2 \<or> synchronous \<noteq> 2 then (Inl CapDB, s)
      else if f 3 then (Inl CapDB, s)
      else if f 4 \<or> integrity \<noteq> ''ok'' then (Inl CapDB, s)
      else if f 5 then (Inl CapDB, s)
      else if cs_version s \<noteq> 0 \<and> cs_version s \<noteq> 1 then (Inl CapSchemaVersion, s)
      else if cs_version s = 0 then cap_migrateV1 g s
      else (Inr (), s))"

section \<open>Invariant\<close>

definition row_claims :: "cap_row \<Rightarrow> claims" where
  "row_claims r =
     \<lparr>cl_agentType = cp_agentType r, cl_mode = cp_mode r, cl_runID = cp_runID r,
      cl_workItemID = cp_workItemID r, cl_allowedModels = cp_allowedModels r,
      cl_callBudget = cp_callBudget r, cl_tokenBudget = cp_tokenBudget r, cl_expiry = cp_expiry r\<rparr>"

definition row_ok :: "cap_row \<Rightarrow> bool" where
  "row_ok r \<longleftrightarrow>
     claims_wf (row_claims r) \<and> budgets_typed (row_claims r) \<and> cp_state r \<in> {CapActive, CapRevoked} \<and>
     0 \<le> cp_reservedCalls r \<and> cp_reservedCalls r \<le> cp_callBudget r \<and>
     0 \<le> cp_reservedTokens r \<and> cp_reservedTokens r \<le> cp_tokenBudget r"

definition cap_inv :: "cap_store \<Rightarrow> bool" where
  "cap_inv s \<longleftrightarrow> distinct (map cp_digest (cs_rows s)) \<and> (\<forall>r \<in> set (cs_rows s). row_ok r)"

text \<open>Claims exist only as results of \<open>NewClaims\<close>; issuing is modelled from its input.\<close>

datatype cap_op =
    CapIssue faults "nat \<Rightarrow> gotime" "string option" claims_input
  | CapVerify faults "nat \<Rightarrow> gotime" string
  | CapReserve faults "nat \<Rightarrow> gotime" string cap_request
  | CapRevoke faults "nat \<Rightarrow> gotime" string

datatype cap_answer = Issued string | Verified claims reservation | Granted reservation | Gone

definition typed_input :: "claims_input \<Rightarrow> bool" where
  "typed_input inp \<longleftrightarrow> int64_range (ci_callBudget inp) \<and> int64_range (ci_tokenBudget inp)"

fun cap_exec :: "(string \<Rightarrow> string) \<Rightarrow> cap_op \<Rightarrow> cap_store \<Rightarrow> (cap_error, cap_answer, cap_store) outcome" where
  "cap_exec sha (CapIssue f clk raw inp) s =
     (if \<not> typed_input inp then (Inl ErrInvalidClaims, s)
      else case NewClaims inp of
        Inl e \<Rightarrow> (Inl e, s)
      | Inr c \<Rightarrow>
          (case Issue sha f clk raw c s of (Inl e, s') \<Rightarrow> (Inl e, s') | (Inr h, s') \<Rightarrow> (Inr (Issued h), s')))"
| "cap_exec sha (CapVerify f clk handle) s =
     (case Verify sha f clk handle s of Inl e \<Rightarrow> (Inl e, s) | Inr (c, res) \<Rightarrow> (Inr (Verified c res), s))"
| "cap_exec sha (CapReserve f clk handle req) s =
     (case Reserve sha f clk handle req s of (Inl e, s') \<Rightarrow> (Inl e, s') | (Inr res, s') \<Rightarrow> (Inr (Granted res), s'))"
| "cap_exec sha (CapRevoke f clk handle) s =
     (case Revoke sha f clk handle s of (Inl e, s') \<Rightarrow> (Inl e, s') | (Inr _, s') \<Rightarrow> (Inr Gone, s'))"

section \<open>Lemmas\<close>

lemma findRow_SomeD: "findRow s d = Some r \<Longrightarrow> r \<in> set (cs_rows s) \<and> cp_digest r = d"
  by (auto simp: findRow_def find_Some_iff)

lemma findRow_None: "findRow s d = None \<longleftrightarrow> d \<notin> set (map cp_digest (cs_rows s))"
  by (auto simp: findRow_def find_None_iff)

lemma findRow_updateRow:
  assumes "\<And>r. cp_digest (h r) = cp_digest r"
  shows "findRow (updateRow d h s) d' = (if d' = d then map_option h (findRow s d) else findRow s d')"
proof -
  have "find (\<lambda>r. cp_digest r = d') (map (\<lambda>r. if cp_digest r = d then h r else r) rs) =
      (if d' = d then map_option h (find (\<lambda>r. cp_digest r = d) rs) else find (\<lambda>r. cp_digest r = d') rs)" for rs
    by (induction rs) (auto simp: assms)
  then show ?thesis by (simp add: findRow_def updateRow_def)
qed

lemma cap_inv_updateRow:
  assumes "cap_inv s" and "\<And>r. cp_digest (h r) = cp_digest r"
    and "\<And>r. r \<in> set (cs_rows s) \<Longrightarrow> cp_digest r = d \<Longrightarrow> row_ok (h r)"
  shows "cap_inv (updateRow d h s)"
proof -
  have "map cp_digest (map (\<lambda>r. if cp_digest r = d then h r else r) (cs_rows s)) = map cp_digest (cs_rows s)"
    by (simp add: assms(2))
  with assms show ?thesis by (auto simp: cap_inv_def updateRow_def simp del: map_map)
qed

lemma cap_inv_row: "cap_inv s \<Longrightarrow> findRow s d = Some r \<Longrightarrow> row_ok r"
  by (auto simp: cap_inv_def dest: findRow_SomeD)

text \<open>Reading a well-formed row gives its claims back.\<close>

lemma row_scan:
  assumes "row_ok r" and "in_text_range (cp_expiry r)"
  shows "NewClaims (rowInput r (cp_expiry r)) = Inr (row_claims r)"
  using assms claims_wf_NewClaims [of "row_claims r"] by (simp add: row_ok_def rowInput_def row_claims_def)

lemma scan_Inr:
  assumes "cap_inv s" and "scanCapabilityTx b d s = Inr (c, res)"
  obtains r where "findRow s d = Some r" "cp_state r = CapActive" "c = row_claims r" "row_ok r"
    "res = \<lparr>rv_calls = cp_reservedCalls r, rv_tokens = cp_reservedTokens r\<rparr>" "in_text_range (cp_expiry r)"
proof -
  obtain r where r: "findRow s d = Some r" "cp_state r \<noteq> CapRevoked" "in_text_range (cp_expiry r)"
    "NewClaims (rowInput r (cp_expiry r)) = Inr c"
    "res = \<lparr>rv_calls = cp_reservedCalls r, rv_tokens = cp_reservedTokens r\<rparr>"
    using assms(2) by (auto simp: scanCapabilityTx_def parseStoreTime_def split: if_splits option.splits sum.splits)
  have ok: "row_ok r" by (rule cap_inv_row [OF assms(1) r(1)])
  then have "c = row_claims r" using row_scan [OF ok r(3)] r(4) by simp
  with r ok that show thesis by (auto simp: row_ok_def)
qed

text \<open>What a successful reservation does.\<close>

definition addReservation :: "cap_request \<Rightarrow> gotime \<Rightarrow> cap_row \<Rightarrow> cap_row" where
  "addReservation req now r =
     r\<lparr>cp_reservedCalls := cp_reservedCalls r + cq_calls req,
       cp_reservedTokens := cp_reservedTokens r + cq_tokens req, cp_updatedAt := now\<rparr>"

lemma updateRow_cong:
  "(\<And>r. r \<in> set (cs_rows s) \<Longrightarrow> cp_digest r = d \<Longrightarrow> h r = h' r) \<Longrightarrow> updateRow d h s = updateRow d h' s"
  by (simp add: updateRow_def)

lemma Reserve_Inl: "Reserve sha f clk handle req s = (Inl e, s') \<Longrightarrow> s' = s"
  by (auto simp: Reserve_def Let_def split: sum.splits if_splits prod.splits)

lemma Reserve_ok:
  assumes "cap_inv s" and "Reserve sha f clk handle req s = (Inr res, s')"
  obtains r where "digestOf sha handle = Inr (sha handle)" "findRow s (sha handle) = Some r"
    "cp_state r = CapActive" "0 \<le> cq_calls req" "0 \<le> cq_tokens req"
    "cp_reservedCalls r + cq_calls req \<le> cp_callBudget r"
    "cp_reservedTokens r + cq_tokens req \<le> cp_tokenBudget r" "clk 0 < cp_expiry r"
    "cq_model req = [] \<or> cq_model req \<in> set (cp_allowedModels r)"
    "res = \<lparr>rv_calls = cp_reservedCalls r + cq_calls req, rv_tokens = cp_reservedTokens r + cq_tokens req\<rparr>"
    "s' = updateRow (sha handle) (addReservation req (clk 1)) s" "row_ok (addReservation req (clk 1) r)"
proof -
  obtain c old where dg: "digestOf sha handle = Inr (sha handle)"
    and scan: "scanCapabilityTx (f 1) (sha handle) s = Inr (c, old)"
    and auth: "Authorize c (req\<lparr>cq_reservedCalls := rv_calls old, cq_reservedTokens := rv_tokens old\<rparr>) (clk 0) = Inr ()"
    and res: "res = \<lparr>rv_calls = wrap64 (rv_calls old + cq_calls req), rv_tokens = wrap64 (rv_tokens old + cq_tokens req)\<rparr>"
    and s': "s' = updateRow (sha handle) (\<lambda>r. if cp_state r = CapActive
        then r\<lparr>cp_reservedCalls := wrap64 (rv_calls old + cq_calls req),
               cp_reservedTokens := wrap64 (rv_tokens old + cq_tokens req), cp_updatedAt := clk 1\<rparr> else r) s"
    using assms(2)
    by (auto simp: Reserve_def digestOf_def Let_def split: sum.splits if_splits prod.splits)
  obtain r where r: "findRow s (sha handle) = Some r" "cp_state r = CapActive" "c = row_claims r" "row_ok r"
    "old = \<lparr>rv_calls = cp_reservedCalls r, rv_tokens = cp_reservedTokens r\<rparr>"
    by (rule scan_Inr [OF assms(1) scan]) auto
  have wf: "claims_wf c" "budgets_typed c" using r(3,4) by (simp_all add: row_ok_def)
  from auth have within: "within_claims c (req\<lparr>cq_reservedCalls := rv_calls old, cq_reservedTokens := rv_tokens old\<rparr>) (clk 0)"
    by (simp only: Authorize_iff [OF wf])
  have fits: "0 \<le> cq_calls req" "0 \<le> cq_tokens req" "cp_reservedCalls r + cq_calls req \<le> cp_callBudget r"
    "cp_reservedTokens r + cq_tokens req \<le> cp_tokenBudget r" "clk 0 < cp_expiry r"
    "cq_model req = [] \<or> cq_model req \<in> set (cp_allowedModels r)"
    using within r(3,5) by (auto simp: within_claims_def row_claims_def)
  have nowrap: "wrap64 (cp_reservedCalls r + cq_calls req) = cp_reservedCalls r + cq_calls req"
    "wrap64 (cp_reservedTokens r + cq_tokens req) = cp_reservedTokens r + cq_tokens req"
    using fits wf(2) r(3,4) by (auto simp: budgets_typed_def row_claims_def row_ok_def int64_range_def intro!: wrap64_id)
  have only: "q = r" if "q \<in> set (cs_rows s)" "cp_digest q = sha handle" for q
    using that r(1) assms(1) findRow_SomeD [OF r(1)] unfolding cap_inv_def by (metis distinct_map inj_onD)
  have upd: "s' = updateRow (sha handle) (addReservation req (clk 1)) s"
    unfolding s' using r(2,5) nowrap by (intro updateRow_cong) (auto simp: addReservation_def dest!: only)
  have "row_ok (addReservation req (clk 1) r)"
    using fits r(4) by (simp add: row_ok_def addReservation_def row_claims_def)
  with that [OF dg r(1,2) fits(1-6) _ upd] show thesis using res r(5) nowrap by simp
qed

lemma Issue_Inl: "Issue sha f clk raw c s = (Inl e, s') \<Longrightarrow> s' = s"
  by (auto simp: Issue_def Let_def split: sum.splits if_splits option.splits)

definition newRow :: "string \<Rightarrow> claims \<Rightarrow> gotime \<Rightarrow> cap_row" where
  "newRow d c now =
     \<lparr>cp_digest = d, cp_agentType = cl_agentType c, cp_mode = cl_mode c, cp_runID = cl_runID c,
      cp_workItemID = cl_workItemID c, cp_allowedModels = AllowedModels c,
      cp_callBudget = cl_callBudget c, cp_tokenBudget = cl_tokenBudget c, cp_expiry = cl_expiry c,
      cp_state = CapActive, cp_reservedCalls = 0, cp_reservedTokens = 0, cp_createdAt = now,
      cp_updatedAt = now\<rparr>"

lemma Issue_ok:
  assumes "Issue sha f clk raw c s = (Inr h, s')"
  shows "(\<exists>bytes. raw = Some bytes \<and> h = hexEncode bytes) \<and> claimsValidate c (clk 0) = Inr () \<and>
    findRow s (sha h) = None \<and> s' = s\<lparr>cs_rows := cs_rows s @ [newRow (sha h) c (clk 1)]\<rparr>"
  using assms by (auto simp: Issue_def Let_def newRow_def split: sum.splits if_splits option.splits)

lemma row_claims_newRow: "row_claims (newRow d c now) = c\<lparr>cl_allowedModels := AllowedModels c\<rparr>"
  by (simp add: row_claims_def newRow_def)

lemma newRow_ok:
  assumes "claims_wf c" and "budgets_typed c"
  shows "row_ok (newRow d c now)"
proof -
  have "claims_wf (row_claims (newRow d c now))" "budgets_typed (row_claims (newRow d c now))"
    using assms claims_wf_sorted [OF assms(1)] by (simp_all add: row_claims_newRow budgets_typed_def)
  moreover have "0 \<le> cl_callBudget c" "0 \<le> cl_tokenBudget c" using assms(1) by (auto simp: claims_wf_def)
  ultimately show ?thesis unfolding row_ok_def by (simp add: newRow_def)
qed

lemma cap_inv_append:
  "cap_inv s \<Longrightarrow> row_ok r \<Longrightarrow> findRow s (cp_digest r) = None \<Longrightarrow> cap_inv (s\<lparr>cs_rows := cs_rows s @ [r]\<rparr>)"
  by (auto simp: cap_inv_def findRow_None)

lemma findRow_append:
  "findRow s d = None \<Longrightarrow> findRow (s\<lparr>cs_rows := cs_rows s @ [r]\<rparr>) d' =
     (if d' = d \<and> cp_digest r = d then Some r
      else case findRow s d' of Some q \<Rightarrow> Some q | None \<Rightarrow> if cp_digest r = d' then Some r else None)"
proof -
  have "find P (xs @ [r]) = (case find P xs of Some q \<Rightarrow> Some q | None \<Rightarrow> if P r then Some r else None)"
    for P :: "cap_row \<Rightarrow> bool" and xs by (induction xs) auto
  then show "findRow s d = None \<Longrightarrow> ?thesis" by (auto simp: findRow_def)
qed

section \<open>The store keeps its invariant and its budgets\<close>

definition revokedRow :: "gotime \<Rightarrow> cap_row \<Rightarrow> cap_row" where
  "revokedRow now r = r\<lparr>cp_state := CapRevoked, cp_updatedAt := now\<rparr>"

lemma Revoke_state:
  "snd (Revoke sha f clk handle s) =
     (case digestOf sha handle of
        Inl _ \<Rightarrow> s | Inr d \<Rightarrow> if f 0 then s else updateRow d (revokedRow (clk 0)) s)"
  by (auto simp: Revoke_def Let_def revokedRow_def [abs_def] split: sum.splits)

text \<open>The state after an operation, by cases.\<close>

lemma cap_exec_state:
  assumes "cap_inv s"
  obtains (same) "snd (cap_exec sha x s) = s"
  | (issued) f clk raw inp c h where "x = CapIssue f clk raw inp" "NewClaims inp = Inr c" "typed_input inp"
      "fst (cap_exec sha x s) = Inr (Issued h)" "findRow s (sha h) = None"
      "snd (cap_exec sha x s) = s\<lparr>cs_rows := cs_rows s @ [newRow (sha h) c (clk 1)]\<rparr>"
  | (reserved) f clk handle req r where "x = CapReserve f clk handle req"
      "findRow s (sha handle) = Some r" "cp_state r = CapActive" "digestOf sha handle = Inr (sha handle)"
      "row_ok (addReservation req (clk 1) r)"
      "snd (cap_exec sha x s) = updateRow (sha handle) (addReservation req (clk 1)) s"
      "0 \<le> cq_calls req" "0 \<le> cq_tokens req" "\<exists>g. fst (cap_exec sha x s) = Inr (Granted g)"
  | (revoked) f clk handle where "x = CapRevoke f clk handle"
      "snd (cap_exec sha x s) = updateRow (sha handle) (revokedRow (clk 0)) s"
proof (cases x)
  case (CapIssue f clk raw inp)
  show ?thesis
  proof (cases "\<exists>h. fst (cap_exec sha x s) = Inr (Issued h)")
    case False
    then have "snd (cap_exec sha x s) = s"
      using CapIssue by (auto split: sum.splits prod.splits if_splits dest: Issue_Inl)
    then show ?thesis by (rule same)
  next
    case True
    then obtain h c s' where *: "typed_input inp" "NewClaims inp = Inr c" "Issue sha f clk raw c s = (Inr h, s')"
      "fst (cap_exec sha x s) = Inr (Issued h)" "snd (cap_exec sha x s) = s'"
      using CapIssue by (auto split: sum.splits prod.splits if_splits)
    from Issue_ok [OF *(3)] * CapIssue show ?thesis by (intro issued) auto
  qed
next
  case (CapVerify f clk handle)
  then have "snd (cap_exec sha x s) = s" by (auto split: sum.splits)
  then show ?thesis by (rule same)
next
  case (CapReserve f clk handle req)
  show ?thesis
  proof (cases "Reserve sha f clk handle req s")
    case (Pair res s')
    show ?thesis
    proof (cases res)
      case (Inl e)
      then have "snd (cap_exec sha x s) = s" using Pair CapReserve Reserve_Inl [of sha f clk handle req s e s'] by simp
      then show ?thesis by (rule same)
    next
      case (Inr g)
      with Pair have ok: "Reserve sha f clk handle req s = (Inr g, s')" by simp
      show ?thesis
        by (rule Reserve_ok [OF assms ok]) (use CapReserve ok in \<open>auto intro!: reserved\<close>)
    qed
  qed
next
  case (CapRevoke f clk handle)
  have st: "snd (cap_exec sha x s) = snd (Revoke sha f clk handle s)"
    using CapRevoke by (auto split: sum.splits prod.splits)
  show ?thesis
  proof (cases "\<exists>d. digestOf sha handle = Inr d \<and> \<not> f 0")
    case True
    then have "digestOf sha handle = Inr (sha handle)" by (auto simp: digestOf_def split: if_splits)
    with True st CapRevoke show ?thesis by (intro revoked) (auto simp: Revoke_state)
  next
    case False
    then have "snd (cap_exec sha x s) = s" unfolding st Revoke_state by (auto split: sum.splits)
    then show ?thesis by (rule same)
  qed
qed

lemma digest_kept [simp]:
  "cp_digest (addReservation req now r) = cp_digest r" "cp_digest (revokedRow now r) = cp_digest r"
  by (simp_all add: addReservation_def revokedRow_def)

lemma row_unique:
  "cap_inv s \<Longrightarrow> findRow s d = Some r \<Longrightarrow> q \<in> set (cs_rows s) \<Longrightarrow> cp_digest q = d \<Longrightarrow> q = r"
  using findRow_SomeD [of s d r] unfolding cap_inv_def by (metis distinct_map inj_onD)

lemma cap_inv_exec:
  assumes "cap_inv s"
  shows "cap_inv (snd (cap_exec sha x s))"
  using assms
proof (cases rule: cap_exec_state [where sha = sha and x = x])
  case same
  with assms show ?thesis by simp
next
  case (issued f clk raw inp c h)
  have "claims_wf c" "budgets_typed c"
    using NewClaims_Inr [OF issued(2)] issued(3) by (auto simp: typed_input_def budgets_typed_def)
  then have "row_ok (newRow (sha h) c (clk 1))" by (rule newRow_ok)
  then show ?thesis using assms issued by (simp add: cap_inv_append newRow_def)
next
  case (reserved f clk handle req r)
  show ?thesis unfolding reserved(6)
    using assms row_unique [OF assms reserved(2)] reserved(5) by (intro cap_inv_updateRow) auto
next
  case (revoked f clk handle)
  have "row_ok (revokedRow (clk 0) r)" if "r \<in> set (cs_rows s)" for r
    using that assms by (auto simp: cap_inv_def row_ok_def revokedRow_def row_claims_def)
  then show ?thesis unfolding revoked(2) using assms by (intro cap_inv_updateRow) auto
qed

text \<open>Under one digest, the budgets never change, what is reserved only grows, and a revoked capability
  stays revoked.\<close>

definition row_le :: "cap_row \<Rightarrow> cap_row \<Rightarrow> bool" where
  "row_le r q \<longleftrightarrow>
     row_claims q = row_claims r \<and> cp_reservedCalls r \<le> cp_reservedCalls q \<and>
     cp_reservedTokens r \<le> cp_reservedTokens q \<and> (cp_state r = CapRevoked \<longrightarrow> cp_state q = CapRevoked \<and>
       cp_reservedCalls q = cp_reservedCalls r \<and> cp_reservedTokens q = cp_reservedTokens r)"

definition cap_le :: "cap_store \<Rightarrow> cap_store \<Rightarrow> bool" where
  "cap_le s t \<longleftrightarrow> (\<forall>d r. findRow s d = Some r \<longrightarrow> (\<exists>q. findRow t d = Some q \<and> row_le r q))"

lemma row_le_refl: "row_le r r"
  by (simp add: row_le_def)

lemma cap_le_refl: "cap_le s s"
  by (auto simp: cap_le_def row_le_refl)

lemma row_le_trans: "row_le r q \<Longrightarrow> row_le q p \<Longrightarrow> row_le r p"
  by (auto simp: row_le_def)

lemma cap_le_trans: "cap_le s t \<Longrightarrow> cap_le t u \<Longrightarrow> cap_le s u"
  unfolding cap_le_def using row_le_trans by blast

lemma cap_le_updateRow:
  assumes "\<And>r. cp_digest (h r) = cp_digest r" and "\<And>r. findRow s d = Some r \<Longrightarrow> row_le r (h r)"
  shows "cap_le s (updateRow d h s)"
  using assms by (auto simp: cap_le_def findRow_updateRow row_le_refl)

lemma cap_le_exec:
  assumes "cap_inv s"
  shows "cap_le s (snd (cap_exec sha x s))"
  using assms
proof (cases rule: cap_exec_state [where sha = sha and x = x])
  case same
  then show ?thesis by (simp add: cap_le_refl)
next
  case (issued f clk raw inp c h)
  then show ?thesis
    unfolding cap_le_def issued(6) using row_le_refl
    by (auto simp: findRow_append [OF issued(5)] newRow_def split: option.splits)
next
  case (reserved f clk handle req r)
  then show ?thesis
    by (auto intro!: cap_le_updateRow simp: row_le_def addReservation_def row_claims_def)
next
  case (revoked f clk handle)
  then show ?thesis
    by (auto intro!: cap_le_updateRow simp: row_le_def revokedRow_def row_claims_def)
qed

interpretation capability_store: forward_store "cap_exec sha" cap_inv cap_le for sha
  by unfold_locales (simp_all add: cap_inv_exec cap_le_refl cap_le_exec, rule cap_le_trans)

text \<open>The meters of one capability: its calls and its tokens.\<close>

datatype budget_kind = Calls | Tokens

fun budgetOf :: "budget_kind \<Rightarrow> cap_row \<Rightarrow> int" where
  "budgetOf Calls r = cp_callBudget r"
| "budgetOf Tokens r = cp_tokenBudget r"

fun reservedOf :: "budget_kind \<Rightarrow> cap_row \<Rightarrow> int" where
  "reservedOf Calls r = cp_reservedCalls r"
| "reservedOf Tokens r = cp_reservedTokens r"

fun amountOf :: "budget_kind \<Rightarrow> cap_request \<Rightarrow> int" where
  "amountOf Calls req = cq_calls req"
| "amountOf Tokens req = cq_tokens req"

definition granted ::
  "(string \<Rightarrow> string) \<Rightarrow> string \<Rightarrow> budget_kind \<Rightarrow> cap_op \<Rightarrow> cap_error + cap_answer \<Rightarrow> int" where
  "granted sha d k x res =
     (case (x, res) of
        (CapReserve _ _ handle req, Inr (Granted _)) \<Rightarrow> if sha handle = d then amountOf k req else 0
      | _ \<Rightarrow> 0)"

definition reserved_under :: "string \<Rightarrow> budget_kind \<Rightarrow> cap_store \<Rightarrow> int" where
  "reserved_under d k s = (case findRow s d of None \<Rightarrow> 0 | Some r \<Rightarrow> reservedOf k r)"

definition has_budget :: "string \<Rightarrow> budget_kind \<Rightarrow> int \<Rightarrow> cap_store \<Rightarrow> bool" where
  "has_budget d k b s \<longleftrightarrow> cap_inv s \<and> (\<exists>r. findRow s d = Some r \<and> budgetOf k r = b)"

lemma reservedOf_add: "reservedOf k (addReservation req now r) = reservedOf k r + amountOf k req"
  by (cases k) (simp_all add: addReservation_def)

lemma reservedOf_revoked: "reservedOf k (revokedRow now r) = reservedOf k r"
  by (cases k) (simp_all add: revokedRow_def)

lemma budgetOf_claims: "row_claims q = row_claims r \<Longrightarrow> budgetOf k q = budgetOf k r"
  by (cases k) (simp_all add: row_claims_def)

lemma has_budget_exec:
  assumes "has_budget d k b s"
  shows "has_budget d k b (snd (cap_exec sha x s))"
proof -
  obtain r where r: "findRow s d = Some r" "budgetOf k r = b" and inv: "cap_inv s"
    using assms by (auto simp: has_budget_def)
  obtain q where "findRow (snd (cap_exec sha x s)) d = Some q" "row_le r q"
    using cap_le_exec [OF inv, of sha x] r(1) by (auto simp: cap_le_def)
  with r(2) show ?thesis
    using cap_inv_exec [OF inv] budgetOf_claims [of q r k] by (auto simp: has_budget_def row_le_def)
qed

lemma reserved_under_exec:
  assumes "has_budget d k b s"
  shows "reserved_under d k (snd (cap_exec sha x s)) =
    reserved_under d k s + granted sha d k x (fst (cap_exec sha x s))"
proof -
  obtain r0 where r0: "findRow s d = Some r0" and inv: "cap_inv s"
    using assms by (auto simp: has_budget_def)
  show ?thesis
    using inv
  proof (cases rule: cap_exec_state [where sha = sha and x = x])
    case same
    have "granted sha d k x (fst (cap_exec sha x s)) = 0"
    proof (cases "\<exists>f clk handle req g. x = CapReserve f clk handle req \<and> fst (cap_exec sha x s) = Inr (Granted g)
        \<and> sha handle = d")
      case False
      then show ?thesis by (auto simp: granted_def split: cap_op.splits sum.splits cap_answer.splits)
    next
      case True
      then obtain f clk handle req g s' where ok: "x = CapReserve f clk handle req" "sha handle = d"
        "Reserve sha f clk handle req s = (Inr g, s')" "s' = s" "fst (cap_exec sha x s) = Inr (Granted g)"
        using same by (auto split: sum.splits prod.splits)
      show ?thesis
      proof (rule Reserve_ok [OF inv ok(3)])
        fix r assume "findRow s (sha handle) = Some r" "s' = updateRow (sha handle) (addReservation req (clk 1)) s"
        then have "Some r = Some (addReservation req (clk 1) r)"
          using findRow_updateRow [of "addReservation req (clk 1)" "sha handle" s "sha handle"] ok(4) by simp
        then have "amountOf k req = 0" using reservedOf_add [of k req "clk 1" r] by simp
        then show ?thesis using ok by (simp add: granted_def)
      qed
    qed
    with same show ?thesis by simp
  next
    case (issued f clk raw inp c h)
    then show ?thesis using r0 by (auto simp: reserved_under_def granted_def findRow_append [OF issued(5)])
  next
    case (reserved f clk handle req r)
    then obtain g where "fst (cap_exec sha x s) = Inr (Granted g)" by blast
    with reserved r0 show ?thesis
      by (auto simp: reserved_under_def granted_def findRow_updateRow reservedOf_add)
  next
    case (revoked f clk handle)
    then show ?thesis
      using r0 by (auto simp: reserved_under_def granted_def findRow_updateRow reservedOf_revoked)
  qed
qed

interpretation capability_meter:
  metered_store "cap_exec sha" "has_budget d k b" "reserved_under d k" "granted sha d k" b for sha d k b
proof
  fix s x
  show "has_budget d k b (snd (cap_exec sha x s))" if "has_budget d k b s"
    using that by (rule has_budget_exec)
  show "reserved_under d k (snd (cap_exec sha x s)) = reserved_under d k s + granted sha d k x (fst (cap_exec sha x s))"
    if "has_budget d k b s" using that by (rule reserved_under_exec)
  show "reserved_under d k s \<le> b" if "has_budget d k b s"
    using that by (cases k) (auto simp: has_budget_def reserved_under_def row_ok_def dest: cap_inv_row)
qed

section \<open>Offline validation\<close>

lemma validateRow_ok:
  assumes "row_ok r" and "in_text_range (cp_expiry r)" and "length (cp_digest r) = 64"
  shows "validateRow r = Inr ()"
  using assms row_scan [OF assms(1,2)] by (auto simp: validateRow_def parseStoreTime_def row_ok_def)

lemma validateRows_ok:
  "(\<forall>r \<in> set rs. validateRow r = Inr ()) \<Longrightarrow> validateRows no_faults i rs = Inr ()"
  by (induction rs arbitrary: i) (auto simp: no_faults_def)

definition hashed :: "(string \<Rightarrow> string) \<Rightarrow> cap_store \<Rightarrow> bool" where
  "hashed sha s \<longleftrightarrow> cap_inv s \<and> cs_version s = 1 \<and> (\<forall>r \<in> set (cs_rows s). cp_digest r \<in> range sha)"

lemma hashed_exec:
  assumes "hashed sha s"
  shows "hashed sha (snd (cap_exec sha x s))"
proof -
  have inv: "cap_inv s" using assms by (simp add: hashed_def)
  have "cs_version (snd (cap_exec sha x s)) = 1 \<and> (\<forall>r \<in> set (cs_rows (snd (cap_exec sha x s))). cp_digest r \<in> range sha)"
    using inv assms
    by (cases rule: cap_exec_state [where sha = sha and x = x])
       (auto simp: hashed_def updateRow_def newRow_def)
  with cap_inv_exec [OF inv] show ?thesis by (simp add: hashed_def)
qed

interpretation capability_hashed: inv_store "cap_exec sha" "hashed sha" for sha
  by unfold_locales (rule hashed_exec)

section \<open>Properties\<close>

definition emptyCapStore :: cap_store where
  "emptyCapStore = \<lparr>cs_version = 1, cs_rows = []\<rparr>"

lemma hashed_empty: "hashed sha emptyCapStore"
  by (simp add: hashed_def emptyCapStore_def cap_inv_def)

text \<open>A stand-in for SHA-256 in the examples: a handle of 64 digits is its own digest.\<close>

definition exampleHandle :: string where
  "exampleHandle = hexEncode (replicate 32 (CHR 0x00))"

definition exampleCapStore :: cap_store where
  "exampleCapStore = \<lparr>cs_version = 1, cs_rows = [newRow exampleHandle exampleClaims 5]\<rparr>"

lemma exampleClaims_wf: "claims_wf exampleClaims" "budgets_typed exampleClaims"
  by (simp_all add: claims_wf_def budgets_typed_def exampleClaims_def int64_range_def)

lemma cap_inv_example: "cap_inv exampleCapStore"
  by (simp add: cap_inv_def exampleCapStore_def newRow_ok exampleClaims_wf)

lemma findRow_example: "findRow exampleCapStore exampleHandle = Some (newRow exampleHandle exampleClaims 5)"
  by (simp add: findRow_def exampleCapStore_def newRow_def)

text \<open>C9. Whatever operations are applied to the store, the calls and the tokens granted under one
  handle stay within its budgets: what was reserved before and the sum of all later grants is at most
  the budget, and every capability in the store stays well-formed with its reservation within budget.\<close>

theorem capability_budget_never_exceeded:
  assumes "cap_inv s" and "findRow s d = Some r"
  shows "reservedOf k r + sum_ops (cap_exec sha) (granted sha d k) xs s \<le> budgetOf k r \<and>
         cap_inv (run_ops (cap_exec sha) xs s)"
proof -
  have "has_budget d k (budgetOf k r) s" using assms by (auto simp: has_budget_def)
  then have "reserved_under d k s + sum_ops (cap_exec sha) (granted sha d k) xs s \<le> budgetOf k r"
    by (rule capability_meter.run_within_cap)
  then show ?thesis
    using assms capability_store.inv_run by (auto simp: reserved_under_def)
qed

theorem capability_budget_never_exceeded_witness:
  "sum_ops (cap_exec (\<lambda>h. h)) (granted (\<lambda>h. h) exampleHandle Calls)
     (replicate 20 (CapReserve no_faults (\<lambda>_. 9) exampleHandle (exampleRequest\<lparr>cq_calls := 3\<rparr>))) exampleCapStore \<le> 10"
proof -
  have "reservedOf Calls (newRow exampleHandle exampleClaims 5) +
      sum_ops (cap_exec (\<lambda>h. h)) (granted (\<lambda>h. h) exampleHandle Calls)
        (replicate 20 (CapReserve no_faults (\<lambda>_. 9) exampleHandle (exampleRequest\<lparr>cq_calls := 3\<rparr>))) exampleCapStore
      \<le> budgetOf Calls (newRow exampleHandle exampleClaims 5)"
    using capability_budget_never_exceeded [OF cap_inv_example findRow_example] by blast
  then show ?thesis by (simp add: newRow_def exampleClaims_def)
qed

text \<open>C10. Revocation is final: after a successful \<open>Revoke\<close> of a handle, whatever is done to the store,
  verifying it and reserving under it fail, and a reservation changes nothing.\<close>

theorem revocation_is_final:
  assumes "cap_inv s" and "Revoke sha f clk handle s = (Inr u, s1)"
  shows "Verify sha f' clk' handle (run_ops (cap_exec sha) xs s1) \<in> {Inl ErrRevoked, Inl CapDB} \<and>
         (\<exists>e. Reserve sha f' clk' handle req (run_ops (cap_exec sha) xs s1) =
            (Inl e, run_ops (cap_exec sha) xs s1))"
proof -
  let ?d = "sha handle" and ?t = "run_ops (cap_exec sha) xs s1"
  have dg: "digestOf sha handle = Inr ?d"
    using assms(2) by (auto simp: Revoke_def digestOf_def split: if_splits)
  have s1: "s1 = updateRow ?d (revokedRow (clk 0)) s" and "length (filter (\<lambda>r. cp_digest r = ?d) (cs_rows s)) \<noteq> 0"
    using assms(2) dg by (auto simp: Revoke_def Let_def revokedRow_def [abs_def] split: if_splits)
  then have "findRow s ?d \<noteq> None" by (auto simp: findRow_def find_None_iff2 find_None_iff filter_empty_conv)
  then obtain r where r: "findRow s1 ?d = Some r" "cp_state r = CapRevoked"
    by (auto simp: s1 findRow_updateRow revokedRow_def)
  have "snd (cap_exec sha (CapRevoke f clk handle) s) = s1" using assms(2) by simp
  then have "cap_inv s1" using cap_inv_exec [OF assms(1), of sha "CapRevoke f clk handle"] by simp
  from capability_store.le_run [OF this, of sha xs] r
  obtain q where q: "findRow ?t ?d = Some q" "cp_state q = CapRevoked"
    by (auto simp: cap_le_def row_le_def)
  have scan: "scanCapabilityTx b ?d ?t = (if b then Inl CapDB else Inl ErrRevoked)" for b
    using q findRow_SomeD [OF q(1)] by (simp add: scanCapabilityTx_def)
  show ?thesis
    by (auto simp: Verify_def cap_lookup_def Reserve_def dg scan)
qed

theorem revocation_is_final_witness:
  "Verify (\<lambda>h. h) no_faults (\<lambda>_. 9) exampleHandle
     (run_ops (cap_exec (\<lambda>h. h)) [CapIssue no_faults (\<lambda>_. 9) (Some (replicate 32 (CHR 0x00))) exampleInput]
       (snd (Revoke (\<lambda>h. h) no_faults (\<lambda>_. 7) exampleHandle exampleCapStore)))
   \<in> {Inl ErrRevoked, Inl CapDB}"
proof -
  have dg: "digestOf (\<lambda>h. h) exampleHandle = Inr exampleHandle"
    unfolding digestOf_def exampleHandle_def by simp
  have "fst (Revoke (\<lambda>h. h) no_faults (\<lambda>_. 7) exampleHandle exampleCapStore) = Inr ()"
    by (simp add: Revoke_def dg no_faults_def exampleCapStore_def newRow_def Let_def)
  then have "Revoke (\<lambda>h. h) no_faults (\<lambda>_. 7) exampleHandle exampleCapStore =
      (Inr (), snd (Revoke (\<lambda>h. h) no_faults (\<lambda>_. 7) exampleHandle exampleCapStore))"
    by (metis prod.collapse)
  from revocation_is_final [OF cap_inv_example this] show ?thesis by blast
qed

text \<open>C11. A handle verifies to the claims it was issued with: right after \<open>Issue\<close>, and until the
  expiry, \<open>Verify\<close> of the returned handle answers the same identity, budgets and models, in sorted
  order, and nothing reserved.\<close>

theorem issued_handle_verifies:
  assumes "cap_inv s" and "NewClaims inp = Inr c" and "typed_input inp" and "in_text_range (ci_expiry inp)"
    and "length bytes = 32" and "Issue sha f clk (Some bytes) c s = (Inr h, s')" and "clk' 0 < ci_expiry inp"
  shows "Verify sha no_faults clk' h s' =
    Inr (c\<lparr>cl_allowedModels := sort (cl_allowedModels c)\<rparr>, \<lparr>rv_calls = 0, rv_tokens = 0\<rparr>)"
proof -
  have h: "h = hexEncode bytes" "findRow s (sha h) = None"
    "s' = s\<lparr>cs_rows := cs_rows s @ [newRow (sha h) c (clk 1)]\<rparr>"
    using Issue_ok [OF assms(6)] by auto
  have dg: "digestOf sha h = Inr (sha h)" using h(1) assms(5) by (simp add: digestOf_def)
  let ?r = "newRow (sha h) c (clk 1)"
  have wf: "claims_wf c" "budgets_typed c"
    using NewClaims_Inr [OF assms(2)] assms(3) by (auto simp: typed_input_def budgets_typed_def)
  have exp: "cp_expiry ?r = ci_expiry inp" using NewClaims_Inr [OF assms(2)] by (simp add: newRow_def)
  have "findRow s' (sha h) = Some ?r" unfolding h(3) by (simp add: findRow_append [OF h(2)] newRow_def)
  then have "scanCapabilityTx False (sha h) s' = Inr (row_claims ?r, \<lparr>rv_calls = 0, rv_tokens = 0\<rparr>)"
    using row_scan [OF newRow_ok [OF wf], of "sha h" "clk 1"] assms(4) exp
    by (simp add: scanCapabilityTx_def parseStoreTime_def) (simp add: newRow_def)
  moreover have "claimsValidate (row_claims ?r) (clk' 0) = Inr ()"
    using claimsValidate_wf [OF claims_wf_sorted [OF wf(1)], of "clk' 0"] assms(7) NewClaims_Inr(9) [OF assms(2)]
    by (simp add: row_claims_newRow)
  ultimately show ?thesis
    by (simp add: Verify_def cap_lookup_def dg no_faults_def row_claims_newRow AllowedModels_def)
qed

lemma issue_example:
  "Issue (\<lambda>h. h) no_faults (\<lambda>_. 9) (Some (replicate 32 (CHR 0x01))) exampleClaims emptyCapStore =
   (Inr (hexEncode (replicate 32 (CHR 0x01))),
    snd (Issue (\<lambda>h. h) no_faults (\<lambda>_. 9) (Some (replicate 32 (CHR 0x01))) exampleClaims emptyCapStore))"
  by (simp add: Issue_def claimsValidate_wf [OF exampleClaims_wf(1)] no_faults_def findRow_def emptyCapStore_def Let_def)
     (simp add: exampleClaims_def)

theorem issued_handle_verifies_witness:
  "Verify (\<lambda>h. h) no_faults (\<lambda>_. 499) (hexEncode (replicate 32 (CHR 0x01)))
     (snd (Issue (\<lambda>h. h) no_faults (\<lambda>_. 9) (Some (replicate 32 (CHR 0x01))) exampleClaims emptyCapStore)) =
   Inr (exampleClaims\<lparr>cl_allowedModels := sort [''m1'', ''m0'']\<rparr>, \<lparr>rv_calls = 0, rv_tokens = 0\<rparr>)"
proof -
  have "in_text_range (ci_expiry exampleInput)" by code_simp
  moreover have "typed_input exampleInput" by (simp add: typed_input_def exampleInput_def int64_range_def)
  moreover have "(499 :: gotime) < ci_expiry exampleInput" by (simp add: exampleInput_def)
  moreover have "cap_inv emptyCapStore" using hashed_empty by (simp add: hashed_def)
  ultimately show ?thesis
    using issued_handle_verifies [OF _ NewClaims_example _ _ _ issue_example, of "\<lambda>_. 499"]
    by (simp add: exampleClaims_def)
qed

text \<open>The offline validation never rejects what the store itself produced: every store reached
  from an empty one passes it, when the digests have 64 characters and the expiries have four-digit
  years.\<close>

theorem reachable_store_validates:
  assumes "\<And>h. length (sha h) = 64"
    and "\<And>r. r \<in> set (cs_rows (run_ops (cap_exec sha) xs emptyCapStore)) \<Longrightarrow> in_text_range (cp_expiry r)"
  shows "storeValidate no_faults (run_ops (cap_exec sha) xs emptyCapStore) = Inr ()"
proof -
  let ?s = "run_ops (cap_exec sha) xs emptyCapStore"
  have h: "hashed sha ?s" by (rule capability_hashed.inv_run [OF hashed_empty])
  have "validateRow r = Inr ()" if "r \<in> set (cs_rows ?s)" for r
    using that h assms by (intro validateRow_ok) (auto simp: hashed_def cap_inv_def)
  then show ?thesis
    using h validateRows_ok [of "cs_rows ?s" 2] by (simp add: storeValidate_def hashed_def no_faults_def)
qed

theorem reachable_store_validates_witness:
  "storeValidate no_faults (run_ops (cap_exec (\<lambda>_. replicate 64 (CHR ''0'')))
     [CapIssue no_faults (\<lambda>_. 9) (Some []) exampleInput] emptyCapStore) = Inr ()"
proof (rule reachable_store_validates)
  fix r
  assume "r \<in> set (cs_rows (run_ops (cap_exec (\<lambda>_. replicate 64 (CHR ''0'')))
     [CapIssue no_faults (\<lambda>_. 9) (Some []) exampleInput] emptyCapStore))"
  then have "cp_expiry r = 500"
    by (auto simp: NewClaims_example Issue_def Let_def emptyCapStore_def exampleClaims_def
        split: sum.splits if_splits prod.splits)
  moreover have "in_text_range 500" by code_simp
  ultimately show "in_text_range (cp_expiry r)" by simp
qed simp

end
