(* ===== verification/Go_Http.thy ===== *)
theory Go_Http
  imports Go_Prelude
begin

text \<open>
  What the private HTTP handlers read of a request, and the checks they share: the bearer token and
  the bound on the body. A body is described by whether reading it fails, by its length and, in each
  handler, by what decoding it gives.
\<close>

record web_request =
  wr_method :: string
  wr_path :: string
  wr_authorization :: string
  wr_bodyFails :: bool
  wr_bodyLength :: int

definition bearerMatches :: "string \<Rightarrow> string \<Rightarrow> bool" where
  "bearerMatches token auth =
     (if \<not> hasPrefix auth ''Bearer '' then False else trimPrefix auth ''Bearer '' = token)"

text \<open>\<open>strings.Trim s "/"\<close>.\<close>

definition trimSlashes :: "string \<Rightarrow> string" where
  "trimSlashes s =
     rev (dropWhile (\<lambda>c. c = CHR ''/'') (rev (dropWhile (\<lambda>c. c = CHR ''/'') s)))"

lemma bearerMatches_iff: "bearerMatches token auth \<longleftrightarrow> auth = ''Bearer '' @ token"
proof
  assume "bearerMatches token auth"
  then have "hasPrefix auth ''Bearer ''" "trimPrefix auth ''Bearer '' = token"
    by (simp_all add: bearerMatches_def split: if_splits)
  then show "auth = ''Bearer '' @ token" using hasPrefix_trimPrefix by metis
next
  assume "auth = ''Bearer '' @ token"
  then show "bearerMatches token auth"
    using trimPrefix_append [of "''Bearer ''" token] by (simp add: bearerMatches_def hasPrefix_def)
qed

end
