(* ===== verification/Capability_Rest.thy ===== *)
theory Capability_Rest
  imports Capability_Store Go_Http
begin

text \<open>
  Package \<open>capability\<close>, the private REST surface (\<open>src/internal/capability/rest.go\<close>). The body of a
  request is the pair of what decoding it as a handle and as a reservation gives; the handle travels in
  the body only, and no constructor of a response carries it. \<open>store = None\<close> is a handler without a
  store. The calls into the store take their own faults and clock.
\<close>

section \<open>Data\<close>

record cap_body =
  cb_handle :: "string option"
  cb_reserve :: "(string \<times> int \<times> int) option"

datatype cap_response =
    CapPlainNotFound
  | CapError int string
  | CapVerifyResponse claims "string list" string reservation
  | CapReserveResponse reservation
  | CapNoContent

record cap_call =
  cc_faults :: faults
  cc_clock :: "nat \<Rightarrow> gotime"

section \<open>Handlers\<close>

definition decodeCapRequest :: "web_request \<Rightarrow> 'a option \<Rightarrow> cap_response + 'a" where
  "decodeCapRequest r decoded =
     (if wr_bodyFails r \<or> wr_bodyLength r > 8 * 1024
      then Inl (CapError 400 ''request body invalid or too large'')
      else case decoded of None \<Rightarrow> Inl (CapError 400 ''invalid json'') | Some v \<Rightarrow> Inr v)"

definition writeCapStoreError :: "cap_error \<Rightarrow> cap_response" where
  "writeCapStoreError e =
     (if e = ErrHandleMalformed then CapError 400 ''handle_malformed''
      else if e = ErrHandleNotFound then CapError 404 ''handle_not_found''
      else if e = ErrRevoked then CapError 409 ''revoked''
      else if e = ErrExpired then CapError 409 ''expired''
      else if e = ErrModelDenied then CapError 403 ''model_denied''
      else if e = ErrCallBudget then CapError 409 ''call_budget_exhausted''
      else if e = ErrTokenBudget then CapError 409 ''token_budget_exhausted''
      else if e = ErrInvalidClaims then CapError 422 ''invalid_claims''
      else CapError 400 ''reservation_denied'')"

definition handleVerify ::
  "(string \<Rightarrow> string) \<Rightarrow> cap_call \<Rightarrow> web_request \<Rightarrow> cap_body \<Rightarrow> cap_store \<Rightarrow> cap_response \<times> cap_store" where
  "handleVerify sha k r b s =
     (case decodeCapRequest r (cb_handle b) of
        Inl resp \<Rightarrow> (resp, s)
      | Inr handle \<Rightarrow>
          (case Verify sha (cc_faults k) (cc_clock k) handle s of
             Inl e \<Rightarrow> (writeCapStoreError e, s)
           | Inr (c, res) \<Rightarrow>
               (CapVerifyResponse c (AllowedModels c) (formatTime (cl_expiry c)) res, s)))"

definition reserveRequest :: "claims \<Rightarrow> string \<Rightarrow> int \<Rightarrow> int \<Rightarrow> cap_request" where
  "reserveRequest c model calls tokens =
     \<lparr>cq_agentType = cl_agentType c, cq_mode = cl_mode c, cq_runID = cl_runID c,
      cq_workItemID = cl_workItemID c, cq_model = model, cq_calls = calls, cq_tokens = tokens,
      cq_reservedCalls = 0, cq_reservedTokens = 0\<rparr>"

definition handleReserve ::
  "(string \<Rightarrow> string) \<Rightarrow> cap_call \<Rightarrow> cap_call \<Rightarrow> web_request \<Rightarrow> cap_body \<Rightarrow> cap_store \<Rightarrow>
     cap_response \<times> cap_store" where
  "handleReserve sha k k' r b s =
     (case decodeCapRequest r
         (case (cb_handle b, cb_reserve b) of (Some h, Some v) \<Rightarrow> Some (h, v) | _ \<Rightarrow> None) of
        Inl resp \<Rightarrow> (resp, s)
      | Inr (handle, model, calls, tokens) \<Rightarrow>
          if calls < 0 \<or> tokens < 0 then (CapError 400 ''negative reservation'', s)
          else case Verify sha (cc_faults k) (cc_clock k) handle s of
            Inl e \<Rightarrow> (writeCapStoreError e, s)
          | Inr (c, _) \<Rightarrow>
              (case Reserve sha (cc_faults k') (cc_clock k') handle (reserveRequest c model calls tokens) s of
                 (Inl e, s') \<Rightarrow> (writeCapStoreError e, s')
               | (Inr res, s') \<Rightarrow> (CapReserveResponse res, s')))"

definition handleRevoke ::
  "(string \<Rightarrow> string) \<Rightarrow> cap_call \<Rightarrow> web_request \<Rightarrow> cap_body \<Rightarrow> cap_store \<Rightarrow> cap_response \<times> cap_store" where
  "handleRevoke sha k r b s =
     (case decodeCapRequest r (cb_handle b) of
        Inl resp \<Rightarrow> (resp, s)
      | Inr handle \<Rightarrow>
          (case Revoke sha (cc_faults k) (cc_clock k) handle s of
             (Inl e, s') \<Rightarrow> (writeCapStoreError e, s')
           | (Inr _, s') \<Rightarrow> (CapNoContent, s')))"

definition capServeHTTP ::
  "(string \<Rightarrow> string) \<Rightarrow> bool \<Rightarrow> string \<Rightarrow> cap_call \<Rightarrow> cap_call \<Rightarrow> web_request \<Rightarrow> cap_body \<Rightarrow> cap_store \<Rightarrow>
     cap_response \<times> cap_store" where
  "capServeHTTP sha hasStore token k k' r b s =
     (if \<not> hasStore \<or> token = [] then (CapPlainNotFound, s)
      else if \<not> bearerMatches token (wr_authorization r) then (CapError 401 ''unauthorized'', s)
      else if wr_method r \<noteq> ''POST'' then (CapError 405 ''method_not_allowed'', s)
      else
        (let path = trimSlashes (trimPrefix (wr_path r) ''/v1/capabilities/'') in
         if path = ''verify'' then handleVerify sha k r b s
         else if path = ''reserve'' then handleReserve sha k k' r b s
         else if path = ''revoke'' then handleRevoke sha k r b s
         else (CapError 404 ''not_found'', s)))"

section \<open>The operation a request stands for\<close>

text \<open>Read off the contract of the surface, not off the handlers: who may ask, what each path asks of the store, and what the
  answer of the store becomes. A reservation is of the identity that the handle was issued for, which the store tells; when
  the handle is not good, the request does no more than verify it.\<close>

definition capRequestOp ::
  "(string \<Rightarrow> string) \<Rightarrow> bool \<Rightarrow> string \<Rightarrow> cap_call \<Rightarrow> cap_call \<Rightarrow> web_request \<Rightarrow> cap_body \<Rightarrow> cap_store \<Rightarrow> cap_op option" where
  "capRequestOp sha hasStore token k k' r b s =
     (if \<not> (hasStore \<and> token \<noteq> [] \<and> wr_authorization r = ''Bearer '' @ token \<and> wr_method r = ''POST'' \<and>
           \<not> wr_bodyFails r \<and> wr_bodyLength r \<le> 8192)
      then None
      else case cb_handle b of
        None \<Rightarrow> None
      | Some h \<Rightarrow>
          (let endpoint = trimSlashes (trimPrefix (wr_path r) ''/v1/capabilities/'') in
           if endpoint = ''verify'' then Some (CapVerify (cc_faults k) (cc_clock k) h)
           else if endpoint = ''revoke'' then Some (CapRevoke (cc_faults k) (cc_clock k) h)
           else if endpoint = ''reserve'' then
             (case cb_reserve b of
                None \<Rightarrow> None
              | Some (model, calls, tokens) \<Rightarrow>
                  if calls < 0 \<or> tokens < 0 then None
                  else (case Verify sha (cc_faults k) (cc_clock k) h s of
                     Inl e \<Rightarrow> Some (CapVerify (cc_faults k) (cc_clock k) h)
                   | Inr (c, res) \<Rightarrow> Some (CapReserve (cc_faults k') (cc_clock k') h
                       \<lparr>cq_agentType = cl_agentType c, cq_mode = cl_mode c, cq_runID = cl_runID c,
                        cq_workItemID = cl_workItemID c, cq_model = model, cq_calls = calls, cq_tokens = tokens,
                        cq_reservedCalls = 0, cq_reservedTokens = 0\<rparr>)))
           else None))"

fun capRespond :: "cap_error + cap_answer \<Rightarrow> cap_response" where
  "capRespond (Inl e) = writeCapStoreError e"
| "capRespond (Inr (Verified c res)) = CapVerifyResponse c (AllowedModels c) (formatTime (cl_expiry c)) res"
| "capRespond (Inr (Granted res)) = CapReserveResponse res"
| "capRespond (Inr Gone) = CapNoContent"
| "capRespond (Inr (Issued h)) = CapPlainNotFound"

definition capRefusal :: "cap_response \<Rightarrow> bool" where
  "capRefusal resp \<longleftrightarrow> resp = CapPlainNotFound \<or> (\<exists>code \<in> {400, 401, 404, 405}. \<exists>msg. resp = CapError code msg)"

lemma handleVerify_op:
  "handleVerify sha k r b s =
     (case decodeCapRequest r (cb_handle b) of
        Inl resp \<Rightarrow> (resp, s)
      | Inr h \<Rightarrow> map_prod capRespond id (cap_exec sha (CapVerify (cc_faults k) (cc_clock k) h) s))"
  by (auto simp: handleVerify_def split: sum.splits)

lemma handleRevoke_op:
  "handleRevoke sha k r b s =
     (case decodeCapRequest r (cb_handle b) of
        Inl resp \<Rightarrow> (resp, s)
      | Inr h \<Rightarrow> map_prod capRespond id (cap_exec sha (CapRevoke (cc_faults k) (cc_clock k) h) s))"
  by (auto simp: handleRevoke_def split: sum.splits prod.splits)

lemma handleReserve_op:
  "handleReserve sha k k' r b s =
     (case decodeCapRequest r (case (cb_handle b, cb_reserve b) of (Some h, Some v) \<Rightarrow> Some (h, v) | _ \<Rightarrow> None) of
        Inl resp \<Rightarrow> (resp, s)
      | Inr (h, model, calls, tokens) \<Rightarrow>
          if calls < 0 \<or> tokens < 0 then (CapError 400 ''negative reservation'', s)
          else map_prod capRespond id (cap_exec sha
            (case Verify sha (cc_faults k) (cc_clock k) h s of
               Inl e \<Rightarrow> CapVerify (cc_faults k) (cc_clock k) h
             | Inr (c, res) \<Rightarrow> CapReserve (cc_faults k') (cc_clock k') h (reserveRequest c model calls tokens)) s))"
  by (auto simp: handleReserve_def split: sum.splits prod.splits)

lemma decodeCapRequest_cases:
  "decodeCapRequest r d =
     (if wr_bodyFails r \<or> 8192 < wr_bodyLength r then Inl (CapError 400 ''request body invalid or too large'')
      else case d of None \<Rightarrow> Inl (CapError 400 ''invalid json'') | Some v \<Rightarrow> Inr v)"
  by (simp add: decodeCapRequest_def)

lemma capServeHTTP_op:
  "case capRequestOp sha hasStore token k k' r b s of
     Some x \<Rightarrow> capServeHTTP sha hasStore token k k' r b s = map_prod capRespond id (cap_exec sha x s)
   | None \<Rightarrow> snd (capServeHTTP sha hasStore token k k' r b s) = s \<and> capRefusal (fst (capServeHTTP sha hasStore token k k' r b s))"
proof -
  let ?endpoint = "trimSlashes (trimPrefix (wr_path r) ''/v1/capabilities/'')"
  show ?thesis
  proof (cases "hasStore \<and> token \<noteq> [] \<and> wr_authorization r = ''Bearer '' @ token \<and> wr_method r = ''POST'' \<and>
      \<not> wr_bodyFails r \<and> wr_bodyLength r \<le> 8192")
    case False
    then show ?thesis
      by (auto simp: capRequestOp_def capServeHTTP_def capRefusal_def bearerMatches_iff handleVerify_op handleRevoke_op
          handleReserve_op decodeCapRequest_cases Let_def simp del: cap_exec.simps)
  next
    case True
    then have served: "capServeHTTP sha hasStore token k k' r b s =
        (if ?endpoint = ''verify'' then handleVerify sha k r b s
         else if ?endpoint = ''reserve'' then handleReserve sha k k' r b s
         else if ?endpoint = ''revoke'' then handleRevoke sha k r b s
         else (CapError 404 ''not_found'', s))"
      by (simp add: capServeHTTP_def bearerMatches_iff Let_def)
    show ?thesis
      using True unfolding served
      by (auto simp: capRequestOp_def capRefusal_def handleVerify_op handleRevoke_op handleReserve_op decodeCapRequest_cases
          reserveRequest_def Let_def simp del: cap_exec.simps split: option.splits sum.splits)
  qed
qed

text \<open>A sequence of requests.\<close>

type_synonym cap_web = "cap_call \<times> cap_call \<times> web_request \<times> cap_body"

fun serveAll :: "(string \<Rightarrow> string) \<Rightarrow> bool \<Rightarrow> string \<Rightarrow> cap_web list \<Rightarrow> cap_store \<Rightarrow> cap_store" where
  "serveAll sha hasStore token [] s = s"
| "serveAll sha hasStore token ((k, k', r, b) # ws) s =
     serveAll sha hasStore token ws (snd (capServeHTTP sha hasStore token k k' r b s))"

lemma capServeHTTP_state:
  "\<exists>ops. snd (capServeHTTP sha hasStore token k k' r b s) = run_ops (cap_exec sha) ops s"
proof (cases "capRequestOp sha hasStore token k k' r b s")
  case None
  then show ?thesis using capServeHTTP_op [of sha hasStore token k k' r b s] by (intro exI [of _ "[]"]) simp
next
  case (Some x)
  then show ?thesis using capServeHTTP_op [of sha hasStore token k k' r b s]
    by (intro exI [of _ "[x]"]) (simp del: cap_exec.simps)
qed

lemma serveAll_ops: "\<exists>ops. serveAll sha hasStore token ws s = run_ops (cap_exec sha) ops s"
proof (induction ws arbitrary: s)
  case Nil
  then show ?case by (intro exI [of _ "[]"]) simp
next
  case (Cons w ws)
  obtain k k' r b where w: "w = (k, k', r, b)" by (cases w)
  obtain ops where "snd (capServeHTTP sha hasStore token k k' r b s) = run_ops (cap_exec sha) ops s"
    using capServeHTTP_state by blast
  moreover obtain ops' where "serveAll sha hasStore token ws (run_ops (cap_exec sha) ops s) =
      run_ops (cap_exec sha) ops' (run_ops (cap_exec sha) ops s)" using Cons by blast
  ultimately show ?case by (intro exI [of _ "ops @ ops'"]) (simp add: w)
qed

section \<open>Properties\<close>

text \<open>C12. Each HTTP request does exactly the operation of the store that it stands for, and answers what the store answers:
  an authenticated \<open>POST\<close> with a readable body verifies the handle, reserves under it for the identity that it was issued for,
  or revokes it, as its path says. Every other request is refused with 400, 401, 404 or 405, or not found, and changes nothing. Over any
  sequence of requests the store keeps its invariant, so that every reservation stays within its budget, and no revoked
  capability comes back.\<close>

theorem capability_api_refines_store:
  assumes "cap_inv s"
  shows "(case capRequestOp sha hasStore token k k' r b s of
            Some x \<Rightarrow> capServeHTTP sha hasStore token k k' r b s = map_prod capRespond id (cap_exec sha x s)
          | None \<Rightarrow> snd (capServeHTTP sha hasStore token k k' r b s) = s \<and>
                    capRefusal (fst (capServeHTTP sha hasStore token k k' r b s))) \<and>
         cap_inv (serveAll sha hasStore token ws s) \<and> cap_le s (serveAll sha hasStore token ws s)"
proof -
  obtain ops where "serveAll sha hasStore token ws s = run_ops (cap_exec sha) ops s"
    using serveAll_ops by blast
  then have "cap_inv (serveAll sha hasStore token ws s) \<and> cap_le s (serveAll sha hasStore token ws s)"
    using assms capability_store.inv_run capability_store.le_run by simp
  then show ?thesis using capServeHTTP_op by blast
qed

definition exampleCapCall :: cap_call where
  "exampleCapCall = \<lparr>cc_faults = no_faults, cc_clock = (\<lambda>_. 9)\<rparr>"

definition exampleRevokeRequest :: web_request where
  "exampleRevokeRequest =
     \<lparr>wr_method = ''POST'', wr_path = ''/v1/capabilities/revoke'', wr_authorization = ''Bearer t'', wr_bodyFails = False,
      wr_bodyLength = 80\<rparr>"

text \<open>An authenticated revocation: it is answered with no content, and the capability is revoked.\<close>

theorem capability_api_refines_store_witness:
  "let (resp, t) = capServeHTTP (\<lambda>h. h) True ''t'' exampleCapCall exampleCapCall exampleRevokeRequest
         \<lparr>cb_handle = Some exampleHandle, cb_reserve = None\<rparr> exampleCapStore
   in resp = CapNoContent \<and> map_option cp_state (findRow t exampleHandle) = Some CapRevoked \<and>
      cap_inv (serveAll (\<lambda>h. h) True ''t''
        [(exampleCapCall, exampleCapCall, exampleRevokeRequest, \<lparr>cb_handle = Some exampleHandle, cb_reserve = None\<rparr>)] exampleCapStore)"
proof -
  let ?b = "\<lparr>cb_handle = Some exampleHandle, cb_reserve = None\<rparr>"
  let ?x = "CapRevoke no_faults (\<lambda>_. 9) exampleHandle"
  have endpoint: "trimSlashes (trimPrefix ''/v1/capabilities/revoke'' ''/v1/capabilities/'') = ''revoke''" by code_simp
  have x: "capRequestOp (\<lambda>h. h) True ''t'' exampleCapCall exampleCapCall exampleRevokeRequest ?b exampleCapStore = Some ?x"
    by (simp add: capRequestOp_def exampleRevokeRequest_def exampleCapCall_def endpoint)
  note C = capability_api_refines_store [OF cap_inv_example, of "\<lambda>h. h" True "''t''" exampleCapCall exampleCapCall
      exampleRevokeRequest ?b "[(exampleCapCall, exampleCapCall, exampleRevokeRequest, ?b)]", unfolded x option.case]
  have "cap_exec (\<lambda>h. h) ?x exampleCapStore = (Inr Gone, snd (cap_exec (\<lambda>h. h) ?x exampleCapStore)) \<and>
      map_option cp_state (findRow (snd (cap_exec (\<lambda>h. h) ?x exampleCapStore)) exampleHandle) = Some CapRevoked"
    by code_simp
  then have "map_prod capRespond id (cap_exec (\<lambda>h. h) ?x exampleCapStore) =
      (CapNoContent, snd (cap_exec (\<lambda>h. h) ?x exampleCapStore)) \<and>
      map_option cp_state (findRow (snd (cap_exec (\<lambda>h. h) ?x exampleCapStore)) exampleHandle) = Some CapRevoked"
    by (metis capRespond.simps(4) id_apply map_prod_simp)
  with C show ?thesis by (simp only: Let_def split_conv simp_thms)
qed

end
