(* ===== verification/Correlation.thy ===== *)
theory Correlation
  imports Go_Time
begin

text \<open>
  Package \<open>correlation\<close> (\<open>src/internal/correlation/correlation.go\<close>): the association of a run with
  the pull request it opened, and the outbox of events a consumer claims, acknowledges or hands back.
  The two tables are lists in the order of insertion, with the sequences of their \<open>AUTOINCREMENT\<close>
  columns. Timestamp columns hold instants; the comparison of the claim time with the expiry is made on
  their texts, as in the query. The payload of an event is the record that is encoded; \<open>jlen\<close> is the
  length of its JSON encoding. Each operation reads the clock once.

  The life of an event is the step relation \<open>ev_step\<close>; the operations are shown to follow it.
\<close>

section \<open>Data\<close>

record identity =
  id_agentType :: string
  id_mode :: string
  id_runID :: string
  id_workItemID :: string
  id_operationID :: string

record correlation =
  co_id :: int
  co_agentType :: string
  co_mode :: string
  co_runID :: string
  co_workItemID :: string
  co_operationID :: string
  co_repo :: string
  co_prNumber :: int
  co_createdAt :: gotime

record event_payload =
  ep_version :: string
  ep_agentType :: string
  ep_mode :: string
  ep_runID :: string
  ep_workItemID :: string
  ep_operationID :: string
  ep_repo :: string
  ep_prNumber :: int
  ep_recordedAt :: string

datatype event_status = StatusPending | StatusClaimed | StatusAcked

record outbox_event =
  oe_id :: int
  oe_correlationID :: int
  oe_version :: string
  oe_status :: event_status
  oe_payload :: event_payload
  oe_claimToken :: string
  oe_claimedAt :: "gotime option"
  oe_attempts :: int
  oe_createdAt :: gotime
  oe_updatedAt :: gotime

record corr_store =
  ct_version :: int
  ct_correlations :: "correlation list"
  ct_corrSeq :: int
  ct_events :: "outbox_event list"
  ct_eventSeq :: int

datatype corr_error =
    ErrNotFound | ErrClaimMismatch | ErrPayloadBounds
  | CorrIncomplete | CorrRepoOrPR | CorrNoToken | CorrDB | CorrTimestamp
  | CorrSchema | CorrOrphans | CorrWithoutEvent | CorrEventVersion | CorrMissingField | CorrDisagrees

definition OutboxEventVersion :: string where
  "OutboxEventVersion = ''run-pr-correlation/v2''"

section \<open>Queries\<close>

definition identityValid :: "identity \<Rightarrow> bool" where
  "identityValid i \<longleftrightarrow>
     id_agentType i \<noteq> [] \<and> id_mode i \<noteq> [] \<and> id_runID i \<noteq> [] \<and> id_workItemID i \<noteq> [] \<and> id_operationID i \<noteq> []"

definition corr_parseTime :: "gotime \<Rightarrow> corr_error + gotime" where
  "corr_parseTime t = (if in_text_range t then Inr t else Inl CorrTimestamp)"

definition scanCorrelation :: "bool \<Rightarrow> correlation option \<Rightarrow> corr_error + correlation" where
  "scanCorrelation fails row =
     (if fails then Inl CorrDB
      else case row of
        None \<Rightarrow> Inl ErrNotFound
      | Some c \<Rightarrow> (case corr_parseTime (co_createdAt c) of Inl e \<Rightarrow> Inl e | Inr _ \<Rightarrow> Inr c))"

definition correlationByOperation :: "bool \<Rightarrow> string \<Rightarrow> corr_store \<Rightarrow> corr_error + correlation" where
  "correlationByOperation fails operationID s =
     scanCorrelation fails (find (\<lambda>c. co_operationID c = operationID) (ct_correlations s))"

definition GetByPR :: "bool \<Rightarrow> string \<Rightarrow> int \<Rightarrow> corr_store \<Rightarrow> corr_error + correlation" where
  "GetByPR fails repo prNumber s =
     scanCorrelation fails (find (\<lambda>c. co_repo c = repo \<and> co_prNumber c = prNumber) (ct_correlations s))"

definition findEvent :: "corr_store \<Rightarrow> int \<Rightarrow> outbox_event option" where
  "findEvent s i = find (\<lambda>e. oe_id e = i) (ct_events s)"

definition outboxByID :: "bool \<Rightarrow> int \<Rightarrow> corr_store \<Rightarrow> corr_error + outbox_event" where
  "outboxByID fails i s =
     (if fails then Inl CorrDB
      else case findEvent s i of
        None \<Rightarrow> Inl ErrNotFound
      | Some e \<Rightarrow>
          (case (case oe_claimedAt e of None \<Rightarrow> Inr 0 | Some t \<Rightarrow> corr_parseTime t) of
             Inl x \<Rightarrow> Inl x
           | Inr _ \<Rightarrow>
               (case corr_parseTime (oe_createdAt e) of
                  Inl x \<Rightarrow> Inl x
                | Inr _ \<Rightarrow> (case corr_parseTime (oe_updatedAt e) of Inl x \<Rightarrow> Inl x | Inr _ \<Rightarrow> Inr e))))"

definition updateEvent :: "int \<Rightarrow> (outbox_event \<Rightarrow> outbox_event) \<Rightarrow> corr_store \<Rightarrow> corr_store" where
  "updateEvent i h s =
     s\<lparr>ct_events := map (\<lambda>e. if oe_id e = i then h e else e) (ct_events s)\<rparr>"

section \<open>Recording\<close>

definition buildPayload ::
  "(event_payload \<Rightarrow> int) \<Rightarrow> identity \<Rightarrow> string \<Rightarrow> int \<Rightarrow> gotime \<Rightarrow> corr_error + event_payload" where
  "buildPayload jlen i repo prNumber now =
     (let p = \<lparr>ep_version = OutboxEventVersion, ep_agentType = id_agentType i, ep_mode = id_mode i,
               ep_runID = id_runID i, ep_workItemID = id_workItemID i, ep_operationID = id_operationID i,
               ep_repo = repo, ep_prNumber = prNumber, ep_recordedAt = formatTime now\<rparr>
      in if jlen p > 8 * 1024 then Inl ErrPayloadBounds else Inr p)"

definition newCorrelation :: "int \<Rightarrow> identity \<Rightarrow> string \<Rightarrow> int \<Rightarrow> gotime \<Rightarrow> correlation" where
  "newCorrelation n i repo prNumber now =
     \<lparr>co_id = n, co_agentType = id_agentType i, co_mode = id_mode i, co_runID = id_runID i,
      co_workItemID = id_workItemID i, co_operationID = id_operationID i, co_repo = repo,
      co_prNumber = prNumber, co_createdAt = now\<rparr>"

definition newEvent :: "int \<Rightarrow> int \<Rightarrow> event_payload \<Rightarrow> gotime \<Rightarrow> outbox_event" where
  "newEvent n c p now =
     \<lparr>oe_id = n, oe_correlationID = c, oe_version = OutboxEventVersion, oe_status = StatusPending,
      oe_payload = p, oe_claimToken = [], oe_claimedAt = None, oe_attempts = 0, oe_createdAt = now,
      oe_updatedAt = now\<rparr>"

text \<open>The insert into \<open>pr_correlations\<close> fails on its unique columns and at the end of the sequence.\<close>

definition Record ::
  "(event_payload \<Rightarrow> int) \<Rightarrow> faults \<Rightarrow> gotime \<Rightarrow> identity \<Rightarrow> string \<Rightarrow> int \<Rightarrow> corr_store \<Rightarrow>
     (corr_error, correlation, corr_store) outcome" where
  "Record jlen f now i repo prNumber s =
     (if \<not> identityValid i then (Inl CorrIncomplete, s)
      else if repo = [] \<or> prNumber \<le> 0 then (Inl CorrRepoOrPR, s)
      else if f 0 then (Inl CorrDB, s)
      else case correlationByOperation (f 1) (id_operationID i) s of
        Inr existing \<Rightarrow> (Inr existing, s)
      | Inl e \<Rightarrow>
          if e \<noteq> ErrNotFound then (Inl e, s)
          else if f 2 \<or> ct_corrSeq s \<ge> 2 ^ 63 - 1 \<or>
             list_ex (\<lambda>c. (co_repo c = repo \<and> co_prNumber c = prNumber) \<or>
                          co_operationID c = id_operationID i) (ct_correlations s)
          then (Inl CorrDB, s)
          else if f 3 then (Inl CorrDB, s)
          else case buildPayload jlen i repo prNumber now of
            Inl e' \<Rightarrow> (Inl e', s)
          | Inr p \<Rightarrow>
              if f 4 \<or> ct_eventSeq s \<ge> 2 ^ 63 - 1 then (Inl CorrDB, s)
              else if f 5 then (Inl CorrDB, s)
              else
                (let c = newCorrelation (ct_corrSeq s + 1) i repo prNumber now in
                 (Inr c, s\<lparr>ct_correlations := ct_correlations s @ [c], ct_corrSeq := ct_corrSeq s + 1,
                           ct_events := ct_events s @ [newEvent (ct_eventSeq s + 1) (co_id c) p now],
                           ct_eventSeq := ct_eventSeq s + 1\<rparr>)))"

section \<open>Claiming and acknowledging\<close>

definition claimable :: "gotime \<Rightarrow> outbox_event \<Rightarrow> bool" where
  "claimable expiry e \<longleftrightarrow>
     oe_status e = StatusPending \<or>
     (oe_status e = StatusClaimed \<and>
       (case oe_claimedAt e of None \<Rightarrow> True | Some t \<Rightarrow> formatTime t \<le> formatTime expiry))"

definition claimEvent :: "string \<Rightarrow> gotime \<Rightarrow> outbox_event \<Rightarrow> outbox_event" where
  "claimEvent token now e =
     e\<lparr>oe_status := StatusClaimed, oe_claimToken := token, oe_claimedAt := Some now,
       oe_attempts := oe_attempts e + 1, oe_updatedAt := now\<rparr>"

text \<open>The loop over the candidates: the update of the \<open>j\<close>-th fails when \<open>g (2 * j)\<close> holds or the
  counter is at its end, reading it back when \<open>g (2 * j + 1)\<close> holds.\<close>

fun claimLoop ::
  "faults \<Rightarrow> nat \<Rightarrow> string \<Rightarrow> gotime \<Rightarrow> int list \<Rightarrow> outbox_event list \<Rightarrow> corr_store \<Rightarrow>
     corr_error + outbox_event list \<times> corr_store" where
  "claimLoop g j token now [] claimed s = Inr (claimed, s)"
| "claimLoop g j token now (i # is) claimed s =
     (if g (2 * j) \<or> (case findEvent s i of None \<Rightarrow> False | Some e \<Rightarrow> oe_attempts e \<ge> 2 ^ 63 - 1)
      then Inl CorrDB
      else
        (let s1 = updateEvent i (claimEvent token now) s in
         case outboxByID (g (2 * j + 1)) i s1 of
           Inl e \<Rightarrow> Inl e
         | Inr event \<Rightarrow> claimLoop g (Suc j) token now is (claimed @ [event]) s1))"

definition candidates :: "int \<Rightarrow> gotime \<Rightarrow> corr_store \<Rightarrow> int list" where
  "candidates limit expiry s =
     take (nat limit) (map oe_id (sort_key oe_id (filter (claimable expiry) (ct_events s))))"

definition ClaimPending ::
  "faults \<Rightarrow> faults \<Rightarrow> gotime \<Rightarrow> string \<Rightarrow> int \<Rightarrow> duration \<Rightarrow> corr_store \<Rightarrow>
     (corr_error, outbox_event list, corr_store) outcome" where
  "ClaimPending f g now claimToken limit0 claimTTL s =
     (if claimToken = [] then (Inl CorrNoToken, s)
      else
        (let limit = (if limit0 \<le> 0 then 1 else limit0); expiry = now - claimTTL in
         if f 0 then (Inl CorrDB, s)
         else if f 1 then (Inl CorrDB, s)
         else if f 2 then (Inl CorrDB, s)
         else case claimLoop g 0 claimToken now (candidates limit expiry s) [] s of
           Inl e \<Rightarrow> (Inl e, s)
         | Inr (claimed, s1) \<Rightarrow> if f 3 then (Inl CorrDB, s) else (Inr claimed, s1)))"

definition ackEvent :: "gotime \<Rightarrow> outbox_event \<Rightarrow> outbox_event" where
  "ackEvent now e = e\<lparr>oe_status := StatusAcked, oe_updatedAt := now\<rparr>"

definition Ack ::
  "faults \<Rightarrow> gotime \<Rightarrow> int \<Rightarrow> string \<Rightarrow> corr_store \<Rightarrow> (corr_error, unit, corr_store) outcome" where
  "Ack f now eventID claimToken s =
     (if f 0 then (Inl CorrDB, s)
      else case outboxByID (f 1) eventID s of
        Inl e \<Rightarrow> (Inl e, s)
      | Inr event \<Rightarrow>
          if oe_status event \<noteq> StatusClaimed \<or> oe_claimToken event \<noteq> claimToken
          then (Inl ErrClaimMismatch, s)
          else if f 2 then (Inl CorrDB, s)
          else if f 3 then (Inl CorrDB, s)
          else (Inr (), updateEvent eventID (ackEvent now) s))"

definition releaseEvent :: "gotime \<Rightarrow> outbox_event \<Rightarrow> outbox_event" where
  "releaseEvent now e =
     e\<lparr>oe_status := StatusPending, oe_claimToken := [], oe_claimedAt := None, oe_updatedAt := now\<rparr>"

definition Reclaim ::
  "faults \<Rightarrow> gotime \<Rightarrow> int \<Rightarrow> string \<Rightarrow> corr_store \<Rightarrow> (corr_error, unit, corr_store) outcome" where
  "Reclaim f now eventID claimToken s =
     (if claimToken = [] then (Inl CorrNoToken, s)
      else if f 0 then (Inl CorrDB, s)
      else case outboxByID (f 1) eventID s of
        Inl e \<Rightarrow> (Inl e, s)
      | Inr event \<Rightarrow>
          if oe_status event \<noteq> StatusClaimed \<or> oe_claimToken event \<noteq> claimToken
          then (Inl ErrClaimMismatch, s)
          else if f 2 then (Inl CorrDB, s)
          else if f 3 then (Inl CorrDB, s)
          else (Inr (), updateEvent eventID (releaseEvent now) s))"

definition PendingCount :: "bool \<Rightarrow> corr_store \<Rightarrow> corr_error + int" where
  "PendingCount fails s =
     (if fails then Inl CorrDB
      else Inr (int (length (filter (\<lambda>e. oe_status e \<noteq> StatusAcked) (ct_events s)))))"

section \<open>Offline validation\<close>

definition validateEvent :: "(event_payload \<Rightarrow> int) \<Rightarrow> correlation \<Rightarrow> outbox_event \<Rightarrow> corr_error + unit" where
  "validateEvent jlen c e =
     (if oe_version e \<noteq> OutboxEventVersion then Inl CorrEventVersion
      else if co_agentType c = [] \<or> co_mode c = [] \<or> co_runID c = [] \<or> co_workItemID c = [] \<or>
              co_operationID c = []
      then Inl CorrMissingField
      else if jlen (oe_payload e) > 8 * 1024 then Inl ErrPayloadBounds
      else
        (let d = oe_payload e in
         if ep_repo d \<noteq> co_repo c \<or> ep_prNumber d \<noteq> co_prNumber c \<or> ep_operationID d \<noteq> co_operationID c \<or>
            ep_agentType d \<noteq> co_agentType c \<or> ep_mode d \<noteq> co_mode c \<or> ep_runID d \<noteq> co_runID c \<or>
            ep_workItemID d \<noteq> co_workItemID c
         then Inl CorrDisagrees
         else if ep_version d \<noteq> OutboxEventVersion then Inl CorrDisagrees
         else Inr ()))"

fun validateJoin ::
  "(event_payload \<Rightarrow> int) \<Rightarrow> faults \<Rightarrow> nat \<Rightarrow> (correlation \<times> outbox_event) list \<Rightarrow> corr_error + unit" where
  "validateJoin jlen f n [] = (if f n then Inl CorrDB else Inr ())"
| "validateJoin jlen f n ((c, e) # rows) =
     (if f n then Inl CorrDB
      else case validateEvent jlen c e of Inl x \<Rightarrow> Inl x | Inr _ \<Rightarrow> validateJoin jlen f (Suc n) rows)"

definition joinRows :: "corr_store \<Rightarrow> (correlation \<times> outbox_event) list" where
  "joinRows s =
     [(c, e). e \<leftarrow> ct_events s, c \<leftarrow> ct_correlations s, co_id c = oe_correlationID e]"

definition corrValidate :: "(event_payload \<Rightarrow> int) \<Rightarrow> faults \<Rightarrow> corr_store \<Rightarrow> corr_error + unit" where
  "corrValidate jlen f s =
     (if f 0 then Inl CorrDB
      else if ct_version s \<noteq> 1 then Inl CorrSchema
      else if f 1 then Inl CorrDB
      else if list_ex (\<lambda>e. \<not> list_ex (\<lambda>c. co_id c = oe_correlationID e) (ct_correlations s)) (ct_events s)
      then Inl CorrOrphans
      else if f 2 then Inl CorrDB
      else if list_ex (\<lambda>c. \<not> list_ex (\<lambda>e. oe_correlationID e = co_id c) (ct_events s)) (ct_correlations s)
      then Inl CorrWithoutEvent
      else if f 3 then Inl CorrDB
      else validateJoin jlen f 4 (joinRows s))"

definition emptyCorrStore :: corr_store where
  "emptyCorrStore = \<lparr>ct_version = 1, ct_correlations = [], ct_corrSeq = 0, ct_events = [], ct_eventSeq = 0\<rparr>"

definition corr_migrateV1 :: "faults \<Rightarrow> corr_store \<Rightarrow> (corr_error, unit, corr_store) outcome" where
  "corr_migrateV1 f s =
     (if f 0 then (Inl CorrDB, s)
      else if list_ex f [1..<6] then (Inl CorrDB, s)
      else if f 6 then (Inl CorrDB, s)
      else (Inr (), emptyCorrStore))"

definition corr_initialize ::
  "faults \<Rightarrow> string \<Rightarrow> int \<Rightarrow> string \<Rightarrow> faults \<Rightarrow> corr_store \<Rightarrow> (corr_error, unit, corr_store) outcome" where
  "corr_initialize f journal synchronous integrity g s =
     (if f 0 \<or> journal \<noteq> ''wal'' then (Inl CorrDB, s)
      else if f 1 then (Inl CorrDB, s)
      else if f 2 \<or> synchronous \<noteq> 2 then (Inl CorrDB, s)
      else if f 3 then (Inl CorrDB, s)
      else if f 4 then (Inl CorrDB, s)
      else if f 5 \<or> integrity \<noteq> ''ok'' then (Inl CorrDB, s)
      else if f 6 then (Inl CorrDB, s)
      else if ct_version s \<noteq> 0 \<and> ct_version s \<noteq> 1 then (Inl CorrSchema, s)
      else if ct_version s = 0 then corr_migrateV1 g s
      else (Inr (), s))"

section \<open>Operations and the invariant\<close>

datatype corr_op =
    CorrRecord faults gotime identity string int
  | CorrClaim faults faults gotime string int duration
  | CorrAck faults gotime int string
  | CorrReclaim faults gotime int string

datatype corr_answer = AnsRecorded correlation | AnsClaimed "outbox_event list" | AnsDone

fun corr_exec ::
  "(event_payload \<Rightarrow> int) \<Rightarrow> corr_op \<Rightarrow> corr_store \<Rightarrow> (corr_error, corr_answer, corr_store) outcome" where
  "corr_exec jlen (CorrRecord f now i repo pr) s =
     (case Record jlen f now i repo pr s of (r, s') \<Rightarrow> (map_sum id AnsRecorded r, s'))"
| "corr_exec jlen (CorrClaim f g now token limit ttl) s =
     (case ClaimPending f g now token limit ttl s of (r, s') \<Rightarrow> (map_sum id AnsClaimed r, s'))"
| "corr_exec jlen (CorrAck f now i token) s =
     (case Ack f now i token s of (r, s') \<Rightarrow> (map_sum id (\<lambda>_. AnsDone) r, s'))"
| "corr_exec jlen (CorrReclaim f now i token) s =
     (case Reclaim f now i token s of (r, s') \<Rightarrow> (map_sum id (\<lambda>_. AnsDone) r, s'))"

definition pair_ok :: "(event_payload \<Rightarrow> int) \<Rightarrow> correlation \<Rightarrow> outbox_event \<Rightarrow> bool" where
  "pair_ok jlen c e \<longleftrightarrow>
     oe_correlationID e = co_id c \<and> validateEvent jlen c e = Inr () \<and> co_repo c \<noteq> [] \<and> 0 < co_prNumber c"

definition claim_ok :: "outbox_event \<Rightarrow> bool" where
  "claim_ok e \<longleftrightarrow>
     0 \<le> oe_attempts e \<and> oe_attempts e < 2 ^ 63 \<and>
     (if oe_status e = StatusPending then oe_claimToken e = [] \<and> oe_claimedAt e = None
      else oe_claimToken e \<noteq> [] \<and> oe_claimedAt e \<noteq> None \<and> 0 < oe_attempts e)"

definition corr_inv :: "(event_payload \<Rightarrow> int) \<Rightarrow> corr_store \<Rightarrow> bool" where
  "corr_inv jlen s \<longleftrightarrow>
     ct_version s = 1 \<and>
     list_all2 (pair_ok jlen) (ct_correlations s) (ct_events s) \<and>
     distinct (map co_id (ct_correlations s)) \<and> (\<forall>c \<in> set (ct_correlations s). co_id c \<le> ct_corrSeq s) \<and>
     distinct (map co_operationID (ct_correlations s)) \<and>
     distinct (map (\<lambda>c. (co_repo c, co_prNumber c)) (ct_correlations s)) \<and>
     distinct (map oe_id (ct_events s)) \<and> (\<forall>e \<in> set (ct_events s). oe_id e \<le> ct_eventSeq s) \<and>
     (\<forall>e \<in> set (ct_events s). claim_ok e)"

section \<open>Rows of the outbox\<close>

lemma findEvent_SomeD: "findEvent s i = Some e \<Longrightarrow> e \<in> set (ct_events s) \<and> oe_id e = i"
  by (auto simp: findEvent_def find_Some_iff)

lemma findEvent_None: "findEvent s i = None \<longleftrightarrow> i \<notin> oe_id ` set (ct_events s)"
  by (auto simp: findEvent_def find_None_iff)

lemma find_map_id:
  assumes "\<And>e. oe_id (h e) = oe_id e"
  shows "find (\<lambda>e. oe_id e = i) (map h es) = map_option h (find (\<lambda>e. oe_id e = i) es)"
  using assms by (induction es) auto

lemma findEvent_map:
  "(\<And>e. oe_id (h e) = oe_id e) \<Longrightarrow>
     findEvent (s\<lparr>ct_events := map h (ct_events s)\<rparr>) i = map_option h (findEvent s i)"
  by (simp add: findEvent_def find_map_id)

lemma findEvent_mem:
  assumes "distinct (map oe_id (ct_events s))" and "e \<in> set (ct_events s)"
  shows "findEvent s (oe_id e) = Some e"
proof -
  have "findEvent s (oe_id e) \<noteq> None" using assms(2) by (auto simp: findEvent_None)
  then obtain d where d: "findEvent s (oe_id e) = Some d" by blast
  with findEvent_SomeD [OF d] assms have "d = e" by (auto simp: distinct_map inj_on_def)
  with d show ?thesis by simp
qed

text \<open>Every change of the outbox is a map over its rows that keeps the columns of the record.\<close>

definition keeps_row :: "(outbox_event \<Rightarrow> outbox_event) \<Rightarrow> bool" where
  "keeps_row h \<longleftrightarrow>
     (\<forall>e. oe_id (h e) = oe_id e \<and> oe_correlationID (h e) = oe_correlationID e \<and>
          oe_version (h e) = oe_version e \<and> oe_payload (h e) = oe_payload e \<and> oe_createdAt (h e) = oe_createdAt e)"

lemma keeps_row_updates [simp]:
  "keeps_row (claimEvent token now)" "keeps_row (ackEvent now)" "keeps_row (releaseEvent now)"
  by (simp_all add: keeps_row_def claimEvent_def ackEvent_def releaseEvent_def)

lemma keeps_row_if [simp]: "keeps_row h \<Longrightarrow> keeps_row (\<lambda>e. if P e then h e else e)"
  by (simp add: keeps_row_def)

lemma pair_ok_keeps: "keeps_row h \<Longrightarrow> pair_ok jlen c (h e) = pair_ok jlen c e"
  by (simp add: pair_ok_def validateEvent_def keeps_row_def Let_def)

definition mapEvents :: "(outbox_event \<Rightarrow> outbox_event) \<Rightarrow> corr_store \<Rightarrow> corr_store" where
  "mapEvents h s = s\<lparr>ct_events := map h (ct_events s)\<rparr>"

lemma findEvent_mapEvents: "keeps_row h \<Longrightarrow> findEvent (mapEvents h s) i = map_option h (findEvent s i)"
  by (simp add: mapEvents_def findEvent_map keeps_row_def)

lemma updateEvent_mapEvents: "updateEvent i h s = mapEvents (\<lambda>e. if oe_id e = i then h e else e) s"
  by (simp add: updateEvent_def mapEvents_def)

lemma corr_inv_mapEvents:
  assumes "corr_inv jlen s" and "keeps_row h" and "\<And>e. e \<in> set (ct_events s) \<Longrightarrow> claim_ok (h e)"
  shows "corr_inv jlen (mapEvents h s)"
proof -
  have "list_all2 (pair_ok jlen) (ct_correlations s) (map h (ct_events s))"
    using assms(1,2) by (simp add: corr_inv_def list_all2_map2 pair_ok_keeps)
  moreover have "map oe_id (map h (ct_events s)) = map oe_id (ct_events s)"
    using assms(2) by (simp add: keeps_row_def)
  ultimately show ?thesis
    using assms by (auto simp: corr_inv_def mapEvents_def keeps_row_def comp_def)
qed

section \<open>The claim loop\<close>

definition claimAll :: "string \<Rightarrow> gotime \<Rightarrow> int list \<Rightarrow> corr_store \<Rightarrow> corr_store" where
  "claimAll token now is s = mapEvents (\<lambda>e. if oe_id e \<in> set is then claimEvent token now e else e) s"

lemma claimAll_Nil [simp]: "claimAll token now [] s = s"
  by (simp add: claimAll_def mapEvents_def)

lemma oe_id_updates [simp]:
  "oe_id (claimEvent token now e) = oe_id e" "oe_id (ackEvent now e) = oe_id e"
  "oe_id (releaseEvent now e) = oe_id e"
  by (simp_all add: claimEvent_def ackEvent_def releaseEvent_def)

lemma claimAll_Cons:
  "i \<notin> set is \<Longrightarrow>
     claimAll token now is (updateEvent i (claimEvent token now) s) = claimAll token now (i # is) s"
  by (auto simp: claimAll_def updateEvent_def mapEvents_def)

lemma findEvent_updateEvent:
  "keeps_row h \<Longrightarrow>
     findEvent (updateEvent i h s) j = (if j = i then map_option h (findEvent s i) else findEvent s j)"
proof -
  assume h: "keeps_row h"
  have "map_option (\<lambda>e. if oe_id e = i then h e else e) (findEvent s j) =
      (if j = i then map_option h (findEvent s i) else findEvent s j)"
    by (cases "findEvent s j") (auto dest: findEvent_SomeD)
  then show ?thesis using h by (simp add: updateEvent_mapEvents findEvent_mapEvents)
qed

lemma outboxByID_Inr:
  "outboxByID b i s = Inr e \<Longrightarrow> \<not> b \<and> findEvent s i = Some e"
  by (auto simp: outboxByID_def split: if_splits option.splits sum.splits)

lemma claimLoop_ok:
  assumes "claimLoop g j token now is acc s = Inr (cl, s1)" and "distinct is"
  shows "s1 = claimAll token now is s \<and> set is \<subseteq> oe_id ` set (ct_events s) \<and>
         (\<forall>i \<in> set is. \<forall>e. findEvent s i = Some e \<longrightarrow> oe_attempts e < 2 ^ 63 - 1) \<and>
         cl = acc @ map (\<lambda>i. claimEvent token now (the (findEvent s i))) is"
  using assms
proof (induction "is" arbitrary: j acc s)
  case Nil
  then show ?case by simp
next
  case (Cons i "is")
  let ?s = "updateEvent i (claimEvent token now) s"
  have nov: "\<forall>e. findEvent s i = Some e \<longrightarrow> oe_attempts e < 2 ^ 63 - 1"
    using Cons.prems(1) by (auto split: if_splits option.splits)
  obtain ev where ev: "outboxByID (g (2 * j + 1)) i ?s = Inr ev"
      "claimLoop g (Suc j) token now is (acc @ [ev]) ?s = Inr (cl, s1)"
    using Cons.prems(1) by (auto simp: Let_def split: if_splits sum.splits)
  from outboxByID_Inr [OF ev(1)] obtain e where
    e: "findEvent s i = Some e" "ev = claimEvent token now e"
    by (auto simp: findEvent_updateEvent)
  have same: "findEvent ?s k = findEvent s k" if "k \<in> set is" for k
    using that Cons.prems(2) by (auto simp: findEvent_updateEvent)
  have ids: "oe_id ` set (ct_events ?s) = oe_id ` set (ct_events s)"
    unfolding list.set_map [symmetric] by (rule arg_cong [of _ _ set]) (simp add: updateEvent_def)
  from Cons.IH [OF ev(2)] Cons.prems(2) show ?case
    using nov e same ids findEvent_SomeD [OF e(1)]
    by (auto simp: claimAll_Cons cong: map_cong)
qed

lemma candidates_distinct: "distinct (map oe_id (ct_events s)) \<Longrightarrow> distinct (candidates limit expiry s)"
proof -
  assume "distinct (map oe_id (ct_events s))"
  then have "distinct (map oe_id (filter (claimable expiry) (ct_events s)))"
    by (simp add: distinct_map_filter)
  then have "distinct (map oe_id (sort_key oe_id (filter (claimable expiry) (ct_events s))))"
    by (simp add: distinct_map)
  then show ?thesis by (simp add: candidates_def distinct_take del: distinct_map)
qed

lemma candidates_mem:
  "i \<in> set (candidates limit expiry s) \<Longrightarrow> \<exists>e \<in> set (ct_events s). oe_id e = i \<and> claimable expiry e"
  unfolding candidates_def by (drule in_set_takeD) auto

section \<open>What each operation does to the store\<close>

lemma ClaimPending_ok:
  assumes "ClaimPending f g now token limit ttl s = (Inr cl, s')" and "distinct (map oe_id (ct_events s))"
  defines "is \<equiv> candidates (if limit \<le> 0 then 1 else limit) (now - ttl) s"
  shows "token \<noteq> [] \<and> s' = claimAll token now is s \<and>
         (\<forall>i \<in> set is. \<forall>e. findEvent s i = Some e \<longrightarrow> oe_attempts e < 2 ^ 63 - 1) \<and>
         cl = map (\<lambda>i. claimEvent token now (the (findEvent s i))) is"
proof -
  obtain s1 where "token \<noteq> []" "claimLoop g 0 token now is [] s = Inr (cl, s1)" "s' = s1"
    using assms(1) by (auto simp: ClaimPending_def Let_def is_def split: if_splits sum.splits)
  then show ?thesis using claimLoop_ok candidates_distinct [OF assms(2)] unfolding is_def by fastforce
qed

lemma Ack_ok:
  assumes "Ack f now i token s = (Inr u, s')"
  shows "\<exists>e. findEvent s i = Some e \<and> oe_status e = StatusClaimed \<and> oe_claimToken e = token \<and>
             s' = updateEvent i (ackEvent now) s"
  using assms by (auto simp: Ack_def dest!: outboxByID_Inr split: if_splits sum.splits)

lemma Reclaim_ok:
  assumes "Reclaim f now i token s = (Inr u, s')"
  shows "\<exists>e. findEvent s i = Some e \<and> oe_status e = StatusClaimed \<and> oe_claimToken e = token \<and>
             s' = updateEvent i (releaseEvent now) s"
  using assms by (auto simp: Reclaim_def dest!: outboxByID_Inr split: if_splits sum.splits)

lemma buildPayload_ok:
  "buildPayload jlen i repo pr now = Inr p \<Longrightarrow>
     jlen p \<le> 8 * 1024 \<and> p = \<lparr>ep_version = OutboxEventVersion, ep_agentType = id_agentType i, ep_mode = id_mode i,
               ep_runID = id_runID i, ep_workItemID = id_workItemID i, ep_operationID = id_operationID i,
               ep_repo = repo, ep_prNumber = pr, ep_recordedAt = formatTime now\<rparr>"
  by (auto simp: buildPayload_def Let_def split: if_splits)

definition recorded :: "event_payload \<Rightarrow> gotime \<Rightarrow> identity \<Rightarrow> string \<Rightarrow> int \<Rightarrow> corr_store \<Rightarrow> corr_store" where
  "recorded p now i repo pr s =
     s\<lparr>ct_correlations := ct_correlations s @ [newCorrelation (ct_corrSeq s + 1) i repo pr now],
       ct_corrSeq := ct_corrSeq s + 1,
       ct_events := ct_events s @ [newEvent (ct_eventSeq s + 1) (ct_corrSeq s + 1) p now],
       ct_eventSeq := ct_eventSeq s + 1\<rparr>"

lemma Record_ok:
  assumes "Record jlen f now i repo pr s = (Inr c, s')"
  shows "(s' = s \<and> c \<in> set (ct_correlations s) \<and> co_operationID c = id_operationID i) \<or>
         (\<exists>p. s' = recorded p now i repo pr s \<and> c = newCorrelation (ct_corrSeq s + 1) i repo pr now \<and>
              identityValid i \<and> repo \<noteq> [] \<and> 0 < pr \<and> buildPayload jlen i repo pr now = Inr p \<and>
              (\<forall>d \<in> set (ct_correlations s).
                 co_operationID d \<noteq> id_operationID i \<and> (co_repo d, co_prNumber d) \<noteq> (repo, pr)))"
  using assms
  by (auto simp: Record_def Let_def recorded_def newCorrelation_def correlationByOperation_def scanCorrelation_def
        find_Some_iff list_ex_iff split: if_splits sum.splits option.splits)

lemma Record_failed: "fst (Record jlen f now i repo pr s) = Inl e \<Longrightarrow> snd (Record jlen f now i repo pr s) = s"
  by (auto simp: Record_def Let_def split: if_splits sum.splits)

lemma ClaimPending_failed:
  "fst (ClaimPending f g now token limit ttl s) = Inl e \<Longrightarrow> snd (ClaimPending f g now token limit ttl s) = s"
  by (auto simp: ClaimPending_def Let_def split: if_splits sum.splits)

lemma Ack_failed: "fst (Ack f now n token s) = Inl e \<Longrightarrow> snd (Ack f now n token s) = s"
  by (auto simp: Ack_def split: if_splits sum.splits)

lemma Reclaim_failed: "fst (Reclaim f now n token s) = Inl e \<Longrightarrow> snd (Reclaim f now n token s) = s"
  by (auto simp: Reclaim_def split: if_splits sum.splits)

lemmas failed_ops_unchanged = Record_failed ClaimPending_failed Ack_failed Reclaim_failed

text \<open>The operations change the store in four ways.\<close>

lemma corr_exec_cases:
  assumes "corr_inv jlen s"
  shows "snd (corr_exec jlen x s) = s \<or>
    (\<exists>f now i repo pr p. x = CorrRecord f now i repo pr \<and> snd (corr_exec jlen x s) = recorded p now i repo pr s \<and>
       identityValid i \<and> repo \<noteq> [] \<and> 0 < pr \<and> buildPayload jlen i repo pr now = Inr p \<and>
       (\<forall>d \<in> set (ct_correlations s). co_operationID d \<noteq> id_operationID i \<and> (co_repo d, co_prNumber d) \<noteq> (repo, pr))) \<or>
    (\<exists>f g now token limit ttl. x = CorrClaim f g now token limit ttl \<and> token \<noteq> [] \<and>
       snd (corr_exec jlen x s) =
         claimAll token now (candidates (if limit \<le> 0 then 1 else limit) (now - ttl) s) s \<and>
       (\<forall>i \<in> set (candidates (if limit \<le> 0 then 1 else limit) (now - ttl) s).
          \<forall>e. findEvent s i = Some e \<longrightarrow> oe_attempts e < 2 ^ 63 - 1)) \<or>
    (\<exists>f now i token e. x = CorrAck f now i token \<and> findEvent s i = Some e \<and> oe_status e = StatusClaimed \<and>
       oe_claimToken e = token \<and> snd (corr_exec jlen x s) = updateEvent i (ackEvent now) s) \<or>
    (\<exists>f now i token e. x = CorrReclaim f now i token \<and> findEvent s i = Some e \<and> oe_status e = StatusClaimed \<and>
       oe_claimToken e = token \<and> snd (corr_exec jlen x s) = updateEvent i (releaseEvent now) s)"
proof (cases x)
  case (CorrRecord f now i repo pr)
  show ?thesis
  proof (cases "fst (Record jlen f now i repo pr s)")
    case (Inl e)
    with failed_ops_unchanged(1) [OF Inl] CorrRecord show ?thesis by (simp add: case_prod_beta)
  next
    case (Inr c)
    then have "Record jlen f now i repo pr s = (Inr c, snd (Record jlen f now i repo pr s))"
      by (metis prod.collapse)
    from Record_ok [OF this] CorrRecord show ?thesis by (auto simp: case_prod_beta)
  qed
next
  case (CorrClaim f g now token limit ttl)
  have d: "distinct (map oe_id (ct_events s))" using assms by (simp add: corr_inv_def)
  show ?thesis
  proof (cases "fst (ClaimPending f g now token limit ttl s)")
    case (Inl e)
    with failed_ops_unchanged(2) [OF Inl] CorrClaim show ?thesis by (simp add: case_prod_beta)
  next
    case (Inr c)
    then have "ClaimPending f g now token limit ttl s = (Inr c, snd (ClaimPending f g now token limit ttl s))"
      by (metis prod.collapse)
    from ClaimPending_ok [OF this d] CorrClaim show ?thesis by (simp add: case_prod_beta)
  qed
next
  case (CorrAck f now i token)
  show ?thesis
  proof (cases "fst (Ack f now i token s)")
    case (Inl e)
    with failed_ops_unchanged(3) [OF Inl] CorrAck show ?thesis by (simp add: case_prod_beta)
  next
    case (Inr c)
    then have "Ack f now i token s = (Inr c, snd (Ack f now i token s))" by (metis prod.collapse)
    from Ack_ok [OF this] CorrAck show ?thesis by (auto simp: case_prod_beta)
  qed
next
  case (CorrReclaim f now i token)
  show ?thesis
  proof (cases "fst (Reclaim f now i token s)")
    case (Inl e)
    with failed_ops_unchanged(4) [OF Inl] CorrReclaim show ?thesis by (simp add: case_prod_beta)
  next
    case (Inr c)
    then have "Reclaim f now i token s = (Inr c, snd (Reclaim f now i token s))" by (metis prod.collapse)
    from Reclaim_ok [OF this] CorrReclaim show ?thesis by (auto simp: case_prod_beta)
  qed
qed

lemma corr_inv_recorded:
  assumes "corr_inv jlen s" "identityValid i" "repo \<noteq> []" "0 < pr" "buildPayload jlen i repo pr now = Inr p"
    "\<forall>d \<in> set (ct_correlations s). co_operationID d \<noteq> id_operationID i \<and> (co_repo d, co_prNumber d) \<noteq> (repo, pr)"
  shows "corr_inv jlen (recorded p now i repo pr s)"
proof -
  have "pair_ok jlen (newCorrelation (ct_corrSeq s + 1) i repo pr now)
          (newEvent (ct_eventSeq s + 1) (ct_corrSeq s + 1) p now)"
    using assms(2-4) buildPayload_ok [OF assms(5)]
    by (auto simp: pair_ok_def validateEvent_def newCorrelation_def newEvent_def identityValid_def)
  moreover have "claim_ok (newEvent (ct_eventSeq s + 1) (ct_corrSeq s + 1) p now)"
    by (simp add: claim_ok_def newEvent_def)
  moreover have "ct_corrSeq s + 1 \<notin> co_id ` set (ct_correlations s)"
      "ct_eventSeq s + 1 \<notin> oe_id ` set (ct_events s)"
    using assms(1) by (fastforce simp: corr_inv_def)+
  moreover have "\<forall>d \<in> set (ct_correlations s). co_id d \<le> ct_corrSeq s + 1"
      "\<forall>d \<in> set (ct_events s). oe_id d \<le> ct_eventSeq s + 1"
    using assms(1) by (fastforce simp: corr_inv_def)+
  ultimately show ?thesis
    using assms(1,6)
    by (auto simp: corr_inv_def recorded_def list_all2_append list_all2_lengthD newCorrelation_def newEvent_def)
qed

lemma claim_ok_claimEvent:
  "claim_ok e \<Longrightarrow> token \<noteq> [] \<Longrightarrow> oe_attempts e < 2 ^ 63 - 1 \<Longrightarrow> claim_ok (claimEvent token now e)"
  by (simp add: claim_ok_def claimEvent_def split: if_splits)

lemma corr_inv_claimAll:
  assumes "corr_inv jlen s" "token \<noteq> []"
    "\<forall>i \<in> set is. \<forall>e. findEvent s i = Some e \<longrightarrow> oe_attempts e < 2 ^ 63 - 1"
  shows "corr_inv jlen (claimAll token now is s)"
  unfolding claimAll_def
proof (rule corr_inv_mapEvents [OF assms(1)])
  fix e
  assume e: "e \<in> set (ct_events s)"
  then have "findEvent s (oe_id e) = Some e" "claim_ok e"
    using assms(1) by (simp_all add: corr_inv_def findEvent_mem)
  with assms(2,3) show "claim_ok (if oe_id e \<in> set is then claimEvent token now e else e)"
    by (auto intro: claim_ok_claimEvent)
qed simp

lemma corr_inv_updateEvent:
  assumes "corr_inv jlen s" "keeps_row h" "findEvent s i = Some e" "claim_ok (h e)"
  shows "corr_inv jlen (updateEvent i h s)"
  unfolding updateEvent_mapEvents
proof (rule corr_inv_mapEvents [OF assms(1)])
  fix d
  assume "d \<in> set (ct_events s)"
  then have "findEvent s (oe_id d) = Some d" "claim_ok d"
    using assms(1) by (simp_all add: corr_inv_def findEvent_mem)
  with assms(3,4) show "claim_ok (if oe_id d = i then h d else d)" by auto
qed (simp add: assms(2))

lemma claimed_updates_ok:
  "claim_ok e \<Longrightarrow> oe_status e = StatusClaimed \<Longrightarrow> claim_ok (ackEvent now e) \<and> claim_ok (releaseEvent now e)"
  by (simp add: claim_ok_def ackEvent_def releaseEvent_def)

lemma corr_inv_exec:
  assumes "corr_inv jlen s"
  shows "corr_inv jlen (snd (corr_exec jlen x s))"
proof -
  have claimed: "claim_ok e" if "findEvent s i = Some e" for i e
    using that assms findEvent_SomeD by (fastforce simp: corr_inv_def)
  show ?thesis
    using corr_exec_cases [OF assms, of x] assms
    by (elim disjE exE conjE)
       (simp_all add: corr_inv_recorded corr_inv_claimAll corr_inv_updateEvent claimed claimed_updates_ok)
qed

section \<open>The life of an event\<close>

text \<open>
  The abstract specification: an event is pending, held by a token since some instant, or acknowledged,
  and counts the claims it has seen. A pending event can be claimed; a held one can be acknowledged or
  released by its holder, or claimed again once the text of its claim time is not after that of the
  expiry. There is no step out of the acknowledged phase.
\<close>

datatype phase = Waiting | Held string gotime | Delivered

definition phase_of :: "outbox_event \<Rightarrow> phase" where
  "phase_of e =
     (case oe_status e of
        StatusPending \<Rightarrow> Waiting
      | StatusClaimed \<Rightarrow> Held (oe_claimToken e) (case oe_claimedAt e of None \<Rightarrow> 0 | Some t \<Rightarrow> t)
      | StatusAcked \<Rightarrow> Delivered)"

inductive ev_step :: "phase \<times> int \<Rightarrow> phase \<times> int \<Rightarrow> bool" where
  claim: "token \<noteq> [] \<Longrightarrow> ev_step (Waiting, n) (Held token now, n + 1)"
| take_over: "token' \<noteq> [] \<Longrightarrow> formatTime t \<le> formatTime expiry \<Longrightarrow>
     ev_step (Held token t, n) (Held token' now, n + 1)"
| deliver: "ev_step (Held token t, n) (Delivered, n)"
| release: "ev_step (Held token t, n) (Waiting, n)"

inductive_cases ev_step_DeliveredE: "ev_step (Delivered, n) q"
inductive_cases ev_stepE: "ev_step (p, n) q"

definition view :: "outbox_event \<Rightarrow> phase \<times> int" where
  "view e = (phase_of e, oe_attempts e)"

lemma delivered_final: "ev_step\<^sup>*\<^sup>* q r \<Longrightarrow> fst q = Delivered \<Longrightarrow> r = q"
proof (induction rule: rtranclp_induct)
  case (step y z)
  then have "ev_step (Delivered, snd q) z" by (metis prod.collapse)
  then show ?case by (rule ev_step_DeliveredE)
qed simp

lemma attempts_grow: "ev_step\<^sup>*\<^sup>* q r \<Longrightarrow> snd q \<le> snd r"
proof (induction rule: rtranclp_induct)
  case (step y z)
  from step(2) have "snd y \<le> snd z" by cases auto
  with step show ?case by simp
qed simp

lemma view_claim:
  assumes "claim_ok e" "claimable expiry e" "token \<noteq> []"
  shows "ev_step (view e) (view (claimEvent token now e))"
proof (cases "oe_status e")
  case StatusPending
  then show ?thesis using assms by (simp add: view_def phase_of_def claimEvent_def ev_step.claim)
next
  case StatusClaimed
  with assms show ?thesis
    by (auto simp: view_def phase_of_def claimEvent_def claimable_def claim_ok_def intro!: ev_step.take_over
        split: option.splits)
next
  case StatusAcked
  with assms show ?thesis by (simp add: claimable_def)
qed

lemma view_holder:
  "oe_status e = StatusClaimed \<Longrightarrow> ev_step (view e) (view (ackEvent now e)) \<and> ev_step (view e) (view (releaseEvent now e))"
  by (simp add: view_def phase_of_def ackEvent_def releaseEvent_def ev_step.deliver ev_step.release)

text \<open>One event before and after an operation: the same row, in the same phase or one step further.\<close>

definition event_le :: "outbox_event \<Rightarrow> outbox_event \<Rightarrow> bool" where
  "event_le e d \<longleftrightarrow> oe_correlationID d = oe_correlationID e \<and> oe_version d = oe_version e \<and>
     oe_payload d = oe_payload e \<and> oe_createdAt d = oe_createdAt e \<and> ev_step\<^sup>*\<^sup>* (view e) (view d)"

lemma event_le_refl [simp]: "event_le e e"
  by (simp add: event_le_def)

lemma event_le_step: "keeps_row h \<Longrightarrow> ev_step (view e) (view (h e)) \<Longrightarrow> event_le e (h e)"
  by (auto simp: event_le_def keeps_row_def)

definition corr_le :: "corr_store \<Rightarrow> corr_store \<Rightarrow> bool" where
  "corr_le s t \<longleftrightarrow> prefix (ct_correlations s) (ct_correlations t) \<and>
     (\<forall>i e. findEvent s i = Some e \<longrightarrow> (\<exists>d. findEvent t i = Some d \<and> event_le e d))"

lemma corr_le_refl: "corr_le s s"
  by (auto simp: corr_le_def)

lemma corr_le_trans: "corr_le s t \<Longrightarrow> corr_le t u \<Longrightarrow> corr_le s u"
proof -
  assume a: "corr_le s t" "corr_le t u"
  have "\<exists>d. findEvent u i = Some d \<and> event_le e d" if se: "findEvent s i = Some e" for i e
  proof -
    obtain d where d: "findEvent t i = Some d" "event_le e d" using a(1) se unfolding corr_le_def by blast
    then obtain d' where "findEvent u i = Some d'" "event_le d d'" using a(2) unfolding corr_le_def by blast
    with d show ?thesis by (auto simp: event_le_def)
  qed
  moreover have "prefix (ct_correlations s) (ct_correlations u)"
    using a prefix_order.trans by (auto simp: corr_le_def)
  ultimately show ?thesis by (simp add: corr_le_def)
qed

lemma corr_le_mapEvents:
  assumes "keeps_row h" "\<And>e. e \<in> set (ct_events s) \<Longrightarrow> event_le e (h e)"
  shows "corr_le s (mapEvents h s)"
proof -
  have "\<exists>d. findEvent (mapEvents h s) i = Some d \<and> event_le e d" if "findEvent s i = Some e" for i e
    using that assms findEvent_SomeD [OF that] by (simp add: findEvent_mapEvents)
  then show ?thesis by (auto simp: corr_le_def mapEvents_def)
qed

lemma candidates_claimable:
  assumes "corr_inv jlen s" "e \<in> set (ct_events s)" "oe_id e \<in> set (candidates limit expiry s)"
  shows "claimable expiry e"
proof -
  obtain d where d: "d \<in> set (ct_events s)" "oe_id d = oe_id e" "claimable expiry d"
    using candidates_mem [OF assms(3)] by blast
  then have "d = e" using assms(1,2) by (auto simp: corr_inv_def distinct_map inj_on_def)
  with d show ?thesis by simp
qed

lemma corr_le_claimAll:
  assumes "corr_inv jlen s" "token \<noteq> []"
  shows "corr_le s (claimAll token now (candidates limit expiry s) s)"
  unfolding claimAll_def
proof (rule corr_le_mapEvents)
  fix e
  assume e: "e \<in> set (ct_events s)"
  then have ok: "claim_ok e" using assms(1) by (simp add: corr_inv_def)
  have "event_le e (claimEvent token now e)" if "oe_id e \<in> set (candidates limit expiry s)"
    by (rule event_le_step) (auto intro: view_claim [OF ok candidates_claimable [OF assms(1) e that] assms(2)])
  then show "event_le e (if oe_id e \<in> set (candidates limit expiry s) then claimEvent token now e else e)"
    by simp
qed simp

lemma corr_le_updateEvent:
  assumes "corr_inv jlen s" "keeps_row h" "findEvent s i = Some e" "ev_step (view e) (view (h e))"
  shows "corr_le s (updateEvent i h s)"
  unfolding updateEvent_mapEvents
proof (rule corr_le_mapEvents)
  fix d
  assume "d \<in> set (ct_events s)"
  then have "findEvent s (oe_id d) = Some d" using assms(1) by (simp add: corr_inv_def findEvent_mem)
  with assms(2-4) show "event_le d (if oe_id d = i then h d else d)" by (auto intro: event_le_step)
qed (simp add: assms(2))

lemma findEvent_recorded:
  assumes "corr_inv jlen s"
  shows "findEvent (recorded p now i repo pr s) n =
    (case findEvent s n of Some e \<Rightarrow> Some e
     | None \<Rightarrow> if n = ct_eventSeq s + 1 then Some (newEvent (ct_eventSeq s + 1) (ct_corrSeq s + 1) p now) else None)"
proof -
  have "find P (es @ [e]) = (case find P es of Some d \<Rightarrow> Some d | None \<Rightarrow> if P e then Some e else None)"
    for P es and e :: outbox_event
    by (induction es) auto
  moreover have "oe_id (newEvent a b p now) = a" for a b by (simp add: newEvent_def)
  ultimately show ?thesis by (simp add: findEvent_def recorded_def)
qed

lemma corr_le_exec:
  assumes "corr_inv jlen s"
  shows "corr_le s (snd (corr_exec jlen x s))"
proof -
  have "corr_le s (recorded p now i repo pr s)" for p now i repo pr
    by (auto simp: corr_le_def findEvent_recorded [OF assms]) (simp add: recorded_def)
  then show ?thesis
    using corr_exec_cases [OF assms, of x]
    by (elim disjE exE conjE)
       (simp_all add: corr_le_refl corr_le_claimAll [OF assms] corr_le_updateEvent [OF assms] view_holder)
qed

lemma corr_exec_failed: "failed (corr_exec jlen x s) \<Longrightarrow> snd (corr_exec jlen x s) = s"
proof (cases x)
  case (CorrRecord f now i repo pr)
  assume "failed (corr_exec jlen x s)"
  then obtain e where "fst (Record jlen f now i repo pr s) = Inl e"
    using CorrRecord by (cases "fst (Record jlen f now i repo pr s)") (auto simp: failed_def case_prod_beta)
  from failed_ops_unchanged(1) [OF this] show ?thesis using CorrRecord by (simp add: case_prod_beta)
next
  case (CorrClaim f g now token limit ttl)
  assume "failed (corr_exec jlen x s)"
  then obtain e where "fst (ClaimPending f g now token limit ttl s) = Inl e"
    using CorrClaim by (cases "fst (ClaimPending f g now token limit ttl s)") (auto simp: failed_def case_prod_beta)
  from failed_ops_unchanged(2) [OF this] show ?thesis using CorrClaim by (simp add: case_prod_beta)
next
  case (CorrAck f now i token)
  assume "failed (corr_exec jlen x s)"
  then obtain e where "fst (Ack f now i token s) = Inl e"
    using CorrAck by (cases "fst (Ack f now i token s)") (auto simp: failed_def case_prod_beta)
  from failed_ops_unchanged(3) [OF this] show ?thesis using CorrAck by (simp add: case_prod_beta)
next
  case (CorrReclaim f now i token)
  assume "failed (corr_exec jlen x s)"
  then obtain e where "fst (Reclaim f now i token s) = Inl e"
    using CorrReclaim by (cases "fst (Reclaim f now i token s)") (auto simp: failed_def case_prod_beta)
  from failed_ops_unchanged(4) [OF this] show ?thesis using CorrReclaim by (simp add: case_prod_beta)
qed

interpretation outbox_store: atomic_store "corr_exec jlen" "corr_inv jlen" for jlen
  by unfold_locales (rule corr_inv_exec, assumption, rule corr_exec_failed, assumption)

interpretation outbox_forward: forward_store "corr_exec jlen" "corr_inv jlen" corr_le for jlen
  by unfold_locales (rule corr_le_refl, erule corr_le_trans, assumption, rule corr_le_exec, assumption)

section \<open>Claims succeed, and so do acknowledgements\<close>

definition readable :: "outbox_event \<Rightarrow> bool" where
  "readable e \<longleftrightarrow>
     in_text_range (oe_createdAt e) \<and> in_text_range (oe_updatedAt e) \<and>
     (case oe_claimedAt e of None \<Rightarrow> True | Some t \<Rightarrow> in_text_range t)"

lemma outboxByID_readable:
  "findEvent s i = Some e \<Longrightarrow> readable e \<Longrightarrow> outboxByID False i s = Inr e"
  by (auto simp: outboxByID_def readable_def corr_parseTime_def split: option.splits)

lemma readable_updates:
  "in_text_range now \<Longrightarrow> readable e \<Longrightarrow> readable (claimEvent token now e)"
  "in_text_range now \<Longrightarrow> readable e \<Longrightarrow> readable (ackEvent now e)"
  by (auto simp: readable_def claimEvent_def ackEvent_def)

lemma claimLoop_succeeds:
  assumes "in_text_range now" "distinct is" "set is \<subseteq> oe_id ` set (ct_events s)"
    "\<forall>i \<in> set is. \<forall>e. findEvent s i = Some e \<longrightarrow> readable e \<and> oe_attempts e < 2 ^ 63 - 1"
  shows "\<exists>r. claimLoop no_faults j token now is acc s = Inr r"
  using assms
proof (induction "is" arbitrary: j acc s)
  case (Cons i "is")
  let ?s = "updateEvent i (claimEvent token now) s"
  obtain e where e: "findEvent s i = Some e"
    using Cons.prems(3) findEvent_None [of s i] by auto
  then have ok: "readable e" "oe_attempts e < 2 ^ 63 - 1" using Cons.prems(4) by auto
  have "findEvent ?s i = Some (claimEvent token now e)" by (simp add: findEvent_updateEvent e)
  then have read: "outboxByID False i ?s = Inr (claimEvent token now e)"
    using outboxByID_readable readable_updates(1) [OF Cons.prems(1) ok(1)] by blast
  have "\<exists>r. claimLoop no_faults (Suc j) token now is (acc @ [claimEvent token now e]) ?s = Inr r"
  proof (rule Cons.IH [OF Cons.prems(1)])
    show "distinct is" using Cons.prems(2) by simp
    have "map oe_id (ct_events ?s) = map oe_id (ct_events s)" by (simp add: updateEvent_def)
    then show "set is \<subseteq> oe_id ` set (ct_events ?s)"
      using Cons.prems(3) unfolding list.set_map [symmetric] by simp
    show "\<forall>k \<in> set is. \<forall>e. findEvent ?s k = Some e \<longrightarrow> readable e \<and> oe_attempts e < 2 ^ 63 - 1"
      using Cons.prems(2,4) by (auto simp: findEvent_updateEvent)
  qed
  then show ?case using e ok read by (simp add: no_faults_def Let_def)
qed simp

lemma candidates_subset: "set (candidates limit expiry s) \<subseteq> oe_id ` set (ct_events s)"
  using candidates_mem by fastforce

lemma length_candidates:
  "length (candidates limit expiry s) =
     min (nat limit) (length (filter (claimable expiry) (ct_events s)))"
  by (simp add: candidates_def min.commute)

definition claim_ready :: "gotime \<Rightarrow> corr_store \<Rightarrow> bool" where
  "claim_ready now s \<longleftrightarrow>
     in_text_range now \<and> (\<forall>e \<in> set (ct_events s). readable e \<and> oe_attempts e < 2 ^ 63 - 1)"

lemma ClaimPending_succeeds:
  fixes limit ttl :: int
  assumes "corr_inv jlen s" "claim_ready now s" "token \<noteq> []"
  defines "is \<equiv> candidates (if limit \<le> 0 then 1 else limit) (now - ttl) s"
  shows "ClaimPending no_faults no_faults now token limit ttl s =
    (Inr (map (\<lambda>i. claimEvent token now (the (findEvent s i))) is), claimAll token now is s)"
proof -
  have d: "distinct (map oe_id (ct_events s))" using assms(1) by (simp add: corr_inv_def)
  have "\<exists>r. claimLoop no_faults 0 token now is [] s = Inr r"
    using assms(2) candidates_distinct [OF d] candidates_subset findEvent_SomeD
    unfolding is_def claim_ready_def by (intro claimLoop_succeeds) blast+
  then obtain cl s1 where "claimLoop no_faults 0 token now is [] s = Inr (cl, s1)" by auto
  then have "ClaimPending no_faults no_faults now token limit ttl s = (Inr cl, s1)"
    using assms(3) by (simp add: ClaimPending_def Let_def is_def no_faults_def)
  with ClaimPending_ok [OF this d] show ?thesis by (simp add: is_def)
qed

lemma Ack_succeeds:
  assumes "findEvent s i = Some e" "readable e" "oe_status e = StatusClaimed" "oe_claimToken e = token"
  shows "Ack no_faults now i token s = (Inr (), updateEvent i (ackEvent now) s)"
  using assms by (simp add: Ack_def no_faults_def outboxByID_readable)

definition unacked :: "corr_store \<Rightarrow> nat" where
  "unacked s = length (filter (\<lambda>e. oe_status e \<noteq> StatusAcked) (ct_events s))"

lemma filter_one_less:
  assumes "distinct (map k xs)" "x \<in> set xs" "P x" "\<not> P (h x)"
  shows "Suc (length (filter P (map (\<lambda>y. if k y = k x then h y else y) xs))) = length (filter P xs)"
proof -
  obtain us vs where xs: "xs = us @ x # vs" using split_list [OF assms(2)] by blast
  then have "k x \<notin> k ` set us" "k x \<notin> k ` set vs" using assms(1) by auto
  then have "\<forall>z \<in> set us. k z \<noteq> k x" "\<forall>z \<in> set vs. k z \<noteq> k x" by (metis imageI)+
  then have "map (\<lambda>y. if k y = k x then h y else y) us = us" "map (\<lambda>y. if k y = k x then h y else y) vs = vs"
    by (simp_all add: map_idI)
  with xs assms(3,4) show ?thesis by simp
qed

lemma unacked_ack:
  assumes "distinct (map oe_id (ct_events s))" "findEvent s i = Some e" "oe_status e \<noteq> StatusAcked"
  shows "Suc (unacked (updateEvent i (ackEvent now) s)) = unacked s"
proof -
  note e = findEvent_SomeD [OF assms(2)]
  have "Suc (length (filter (\<lambda>e. oe_status e \<noteq> StatusAcked)
      (map (\<lambda>y. if oe_id y = oe_id e then ackEvent now y else y) (ct_events s)))) =
    length (filter (\<lambda>e. oe_status e \<noteq> StatusAcked) (ct_events s))"
    by (rule filter_one_less [OF assms(1)]) (use e assms(3) in \<open>auto simp: ackEvent_def\<close>)
  then show ?thesis using e by (simp add: unacked_def updateEvent_def)
qed


lemma acks_succeed:
  assumes "distinct (map oe_id (ct_events s))" "distinct is"
    "\<forall>i \<in> set is. \<exists>e. findEvent s i = Some e \<and> readable e \<and> oe_status e = StatusClaimed \<and> oe_claimToken e = token"
  shows "unacked (run_ops (corr_exec jlen) (map (\<lambda>i. CorrAck no_faults now i token) is) s) + length is = unacked s"
  using assms
proof (induction "is" arbitrary: s)
  case (Cons i "is")
  let ?s = "updateEvent i (ackEvent now) s"
  let ?t = "run_ops (corr_exec jlen) (map (\<lambda>i. CorrAck no_faults now i token) is) ?s"
  obtain e where e: "findEvent s i = Some e" "readable e" "oe_status e = StatusClaimed" "oe_claimToken e = token"
    using Cons.prems(3) by auto
  have exec: "snd (corr_exec jlen (CorrAck no_faults now i token) s) = ?s"
    by (simp add: Ack_succeeds [OF e])
  have "map oe_id (ct_events ?s) = map oe_id (ct_events s)" by (simp add: updateEvent_def)
  then have "unacked ?t + length is = unacked ?s"
    using Cons.prems by (intro Cons.IH) (auto simp: findEvent_updateEvent)
  with unacked_ack [OF Cons.prems(1) e(1), of now] e(3) show ?case
    using exec by (simp del: corr_exec.simps)
qed simp

lemma unacked_claimAll:
  assumes "corr_inv jlen s"
  shows "unacked (claimAll token now (candidates limit expiry s) s) = unacked s"
proof -
  have "filter (\<lambda>e. oe_status e \<noteq> StatusAcked) (map (\<lambda>e. if oe_id e \<in> set (candidates limit expiry s)
          then claimEvent token now e else e) (ct_events s)) =
      map (\<lambda>e. if oe_id e \<in> set (candidates limit expiry s) then claimEvent token now e else e)
        (filter (\<lambda>e. oe_status e \<noteq> StatusAcked) (ct_events s))"
    unfolding filter_map comp_def
  proof (rule arg_cong [of _ _ "map _"], rule filter_cong [OF refl])
    fix e
    assume "e \<in> set (ct_events s)"
    from candidates_claimable [OF assms this, of limit expiry]
    show "(oe_status (if oe_id e \<in> set (candidates limit expiry s) then claimEvent token now e else e) \<noteq> StatusAcked) =
        (oe_status e \<noteq> StatusAcked)"
      by (auto simp: claimEvent_def claimable_def)
  qed
  then show ?thesis by (simp add: unacked_def claimAll_def mapEvents_def)
qed

section \<open>Lemmas behind the properties\<close>

lemma validateJoin_ok:
  "\<forall>(c, e) \<in> set rows. validateEvent jlen c e = Inr () \<Longrightarrow> validateJoin jlen no_faults n rows = Inr ()"
  by (induction rows arbitrary: n) (auto simp: no_faults_def)

lemma corr_inv_validates:
  assumes "corr_inv jlen s"
  shows "corrValidate jlen no_faults s = Inr ()"
proof -
  let ?cs = "ct_correlations s" and ?es = "ct_events s"
  have pairs: "list_all2 (pair_ok jlen) ?cs ?es" and ids: "distinct (map co_id ?cs)"
    using assms by (simp_all add: corr_inv_def)
  have event: "\<exists>c \<in> set ?cs. pair_ok jlen c e" if "e \<in> set ?es" for e
    using pairs that by (metis in_set_conv_nth list_all2_conv_all_nth)
  have corr: "\<exists>e \<in> set ?es. pair_ok jlen c e" if "c \<in> set ?cs" for c
    using pairs that by (metis in_set_conv_nth list_all2_conv_all_nth)
  have "validateEvent jlen c e = Inr ()" if "(c, e) \<in> set (joinRows s)" for c e
  proof -
    have ce: "c \<in> set ?cs" "e \<in> set ?es" "co_id c = oe_correlationID e" using that by (auto simp: joinRows_def)
    obtain d where d: "d \<in> set ?cs" "pair_ok jlen d e" using event ce(2) by blast
    with ce ids have "d = c" by (auto simp: pair_ok_def distinct_map inj_on_def)
    with d show ?thesis by (simp add: pair_ok_def)
  qed
  then have "validateJoin jlen no_faults 4 (joinRows s) = Inr ()" by (intro validateJoin_ok) auto
  moreover have "\<not> list_ex (\<lambda>e. \<not> list_ex (\<lambda>c. co_id c = oe_correlationID e) ?cs) ?es"
    using event by (fastforce simp: list_ex_iff pair_ok_def)
  moreover have "\<not> list_ex (\<lambda>c. \<not> list_ex (\<lambda>e. oe_correlationID e = co_id c) ?es) ?cs"
    using corr by (fastforce simp: list_ex_iff pair_ok_def)
  ultimately show ?thesis using assms by (simp add: corrValidate_def corr_inv_def no_faults_def)
qed

lemma corr_inv_empty: "corr_inv jlen emptyCorrStore"
  by (simp add: corr_inv_def emptyCorrStore_def)

text \<open>Operations that leave a claim alone: those of other tokens, and claims whose expiry lies in an
  earlier second than the claim.\<close>

fun leaves_claim :: "int \<Rightarrow> string \<Rightarrow> gotime \<Rightarrow> corr_op \<Rightarrow> bool" where
  "leaves_claim i token t (CorrRecord f now idn repo pr) = True"
| "leaves_claim i token t (CorrClaim f g now tk limit ttl) =
     (in_text_range (now - ttl) \<and> (now - ttl) div nsPerSec < t div nsPerSec)"
| "leaves_claim i token t (CorrAck f now j tk) = (j = i \<longrightarrow> tk \<noteq> token)"
| "leaves_claim i token t (CorrReclaim f now j tk) = (j = i \<longrightarrow> tk \<noteq> token)"

lemma fresh_not_claimable:
  assumes "oe_status e = StatusClaimed" "oe_claimedAt e = Some t" "in_text_range t" "in_text_range expiry"
    "expiry div nsPerSec < t div nsPerSec"
  shows "\<not> claimable expiry e"
  using formatTime_less_seconds [OF assms(4,3,5)] assms by (simp add: claimable_def)

lemma expired_claimable:
  assumes "oe_status e = StatusClaimed" "oe_claimedAt e = Some t" "in_text_range t" "in_text_range expiry"
    "t div nsPerSec < expiry div nsPerSec"
  shows "claimable expiry e"
  using formatTime_less_seconds [OF assms(3-5)] assms by (simp add: claimable_def)

lemma claim_kept:
  assumes inv: "corr_inv jlen s" and e: "findEvent s i = Some e" and st: "oe_status e = StatusClaimed"
    and tk: "oe_claimToken e = token" and at: "oe_claimedAt e = Some t" "in_text_range t"
    and x: "leaves_claim i token t x"
  shows "findEvent (snd (corr_exec jlen x s)) i = Some e"
proof -
  note mem = findEvent_SomeD [OF e]
  have claim: "findEvent (claimAll tk now (candidates limit expiry s) s) i = Some e"
    if "in_text_range expiry" "expiry div nsPerSec < t div nsPerSec" for tk now limit expiry
  proof -
    have "oe_id e \<notin> set (candidates limit expiry s)"
      using candidates_claimable [OF inv conjunct1 [OF mem]] fresh_not_claimable [OF st at that] by blast
    then show ?thesis by (simp add: claimAll_def findEvent_mapEvents e)
  qed
  show ?thesis
    using corr_exec_cases [OF inv, of x] x e st tk
    by (elim disjE exE conjE) (auto simp: findEvent_recorded [OF inv] claim findEvent_updateEvent)
qed

lemma correlation_found:
  assumes "corr_inv jlen s" "c \<in> set (ct_correlations s)" "in_text_range (co_createdAt c)"
  shows "correlationByOperation False (co_operationID c) s = Inr c"
    and "GetByPR False (co_repo c) (co_prNumber c) s = Inr c"
proof -
  have "find (\<lambda>d. co_operationID d = co_operationID c) (ct_correlations s) = Some c"
      "find (\<lambda>d. (co_repo d, co_prNumber d) = (co_repo c, co_prNumber c)) (ct_correlations s) = Some c"
    using assms(1,2) unfolding corr_inv_def
    by (intro find_by_key find_by_key [where k = "\<lambda>c. (co_repo c, co_prNumber c)"]; blast)+
  then show "correlationByOperation False (co_operationID c) s = Inr c"
    "GetByPR False (co_repo c) (co_prNumber c) s = Inr c"
    using assms(3) by (simp_all add: correlationByOperation_def GetByPR_def scanCorrelation_def corr_parseTime_def)
qed

lemma expired_unacked:
  assumes "corr_inv jlen s" "\<forall>e \<in> set (ct_events s). readable e" "in_text_range expiry"
    "\<And>e t. e \<in> set (ct_events s) \<Longrightarrow> oe_status e = StatusClaimed \<Longrightarrow> oe_claimedAt e = Some t \<Longrightarrow>
       t div nsPerSec < expiry div nsPerSec"
  shows "filter (claimable expiry) (ct_events s) = filter (\<lambda>e. oe_status e \<noteq> StatusAcked) (ct_events s)"
proof -
  have "claimable expiry e \<longleftrightarrow> oe_status e \<noteq> StatusAcked" if e: "e \<in> set (ct_events s)" for e
  proof (cases "oe_status e")
    case StatusClaimed
    then have "oe_claimedAt e \<noteq> None" using assms(1) e by (simp add: corr_inv_def claim_ok_def)
    then obtain t where t: "oe_claimedAt e = Some t" by blast
    then have "in_text_range t" using assms(2) e by (auto simp: readable_def split: option.splits)
    with expired_claimable [OF StatusClaimed t] assms(3,4) e t StatusClaimed show ?thesis by simp
  qed (simp_all add: claimable_def)
  then show ?thesis by (intro filter_cong) simp_all
qed

lemma candidate_found: "i \<in> set (candidates limit expiry s) \<Longrightarrow> \<exists>e. findEvent s i = Some e"
  using candidates_subset findEvent_None [of s i] by fastforce

lemma claimed_held:
  assumes "claim_ready now s" "i \<in> set (candidates limit expiry s)"
  shows "\<exists>e. findEvent (claimAll token now (candidates limit expiry s) s) i = Some e \<and> readable e \<and>
             oe_status e = StatusClaimed \<and> oe_claimToken e = token"
proof -
  obtain e where e: "findEvent s i = Some e" using candidate_found [OF assms(2)] by blast
  have "findEvent (claimAll token now (candidates limit expiry s) s) i = Some (claimEvent token now e)"
    using e assms(2) findEvent_SomeD [OF e] by (simp add: claimAll_def findEvent_mapEvents)
  moreover have "readable (claimEvent token now e)"
    using assms(1) findEvent_SomeD [OF e] by (auto simp: claim_ready_def intro: readable_updates)
  moreover have "oe_status (claimEvent token now e) = StatusClaimed" "oe_claimToken (claimEvent token now e) = token"
    by (simp_all add: claimEvent_def)
  ultimately show ?thesis by blast
qed

lemma sort_map_key: "map f (sort_key f xs) = sort (map f xs)"
proof (rule properties_for_sort [symmetric])
  show "mset (map f (sort_key f xs)) = mset (map f xs)" unfolding mset_map mset_sort ..
qed (rule sorted_sort_key)

lemma claimed_ids:
  "map oe_id (map (\<lambda>i. claimEvent token now (the (findEvent s i))) (candidates limit expiry s)) =
     candidates limit expiry s"
proof -
  have "oe_id (the (findEvent s i)) = i" if "i \<in> set (candidates limit expiry s)" for i
    using candidate_found [OF that] findEvent_SomeD by auto
  then show ?thesis by (simp add: map_idI)
qed

section \<open>Properties\<close>

definition exampleIdentity :: identity where
  "exampleIdentity = \<lparr>id_agentType = ''coder'', id_mode = ''launch'', id_runID = ''r1'', id_workItemID = ''w1'',
     id_operationID = ''op1''\<rparr>"

definition examplePayload :: event_payload where
  "examplePayload = \<lparr>ep_version = OutboxEventVersion, ep_agentType = ''coder'', ep_mode = ''launch'', ep_runID = ''r1'',
     ep_workItemID = ''w1'', ep_operationID = ''op1'', ep_repo = ''o/r'', ep_prNumber = 7, ep_recordedAt = []\<rparr>"

text \<open>One event, claimed by \<open>a\<close> at the instant \<open>t\<close>.\<close>

definition exampleOutbox :: "gotime \<Rightarrow> corr_store" where
  "exampleOutbox t = \<lparr>ct_version = 1, ct_correlations = [newCorrelation 1 exampleIdentity ''o/r'' 7 0], ct_corrSeq = 1,
     ct_events = [claimEvent ''a'' t (newEvent 1 1 examplePayload 0)], ct_eventSeq = 1\<rparr>"

lemma exampleOutbox_inv: "corr_inv (\<lambda>_. 100) (exampleOutbox t)"
  by (simp add: corr_inv_def exampleOutbox_def pair_ok_def validateEvent_def newCorrelation_def newEvent_def
      claimEvent_def claim_ok_def exampleIdentity_def examplePayload_def Let_def)

lemma exampleOutbox_event:
  "findEvent (exampleOutbox t) 1 = Some (claimEvent ''a'' t (newEvent 1 1 examplePayload 0))"
  by (simp add: findEvent_def exampleOutbox_def newEvent_def claimEvent_def)

text \<open>C13. Whatever operations are applied to a store that satisfies the invariant, it still does, and then
  the offline validation accepts it: every correlation has its one event, whose payload is within bounds and
  agrees with it, and no operation id and no pull request occurs twice.\<close>

theorem outbox_always_validates:
  assumes "corr_inv jlen s"
  shows "corr_inv jlen (run_ops (corr_exec jlen) xs s) \<and>
         corrValidate jlen no_faults (run_ops (corr_exec jlen) xs s) = Inr ()"
  using outbox_store.inv_run [OF assms] corr_inv_validates by blast

theorem outbox_always_validates_witness:
  "corrValidate (\<lambda>_. 100) no_faults
     (run_ops (corr_exec (\<lambda>_. 100)) [CorrRecord no_faults 5 exampleIdentity ''o/r'' 7, CorrAck no_faults 9 1 ''a'']
       emptyCorrStore) = Inr ()"
  using outbox_always_validates [OF corr_inv_empty] by blast

text \<open>C14. Recording is idempotent on the operation id: once an operation has been recorded, recording it
  again, whatever was done in between and whatever the other arguments are, answers the first correlation
  and writes nothing; and the pull request resolves to it.\<close>

theorem Record_is_idempotent:
  assumes "corr_inv jlen s" and "Record jlen f now i repo pr s = (Inr c, s1)" and "in_text_range (co_createdAt c)"
    and "identityValid i'" and "id_operationID i' = id_operationID i" and "repo' \<noteq> []" and "0 < pr'"
  shows "Record jlen no_faults now' i' repo' pr' (run_ops (corr_exec jlen) xs s1) =
           (Inr c, run_ops (corr_exec jlen) xs s1) \<and>
         GetByPR False (co_repo c) (co_prNumber c) (run_ops (corr_exec jlen) xs s1) = Inr c"
proof -
  let ?t = "run_ops (corr_exec jlen) xs s1"
  have s1: "snd (corr_exec jlen (CorrRecord f now i repo pr) s) = s1" using assms(2) by simp
  have inv1: "corr_inv jlen s1" using corr_inv_exec [OF assms(1), of "CorrRecord f now i repo pr"] s1 by simp
  have c: "c \<in> set (ct_correlations s1)" "co_operationID c = id_operationID i"
    using Record_ok [OF assms(2)] by (auto simp: recorded_def newCorrelation_def)
  have "prefix (ct_correlations s1) (ct_correlations ?t)"
    using outbox_forward.le_run [OF inv1] by (simp add: corr_le_def)
  with c have "c \<in> set (ct_correlations ?t)" using set_mono_prefix by blast
  note found = correlation_found [OF outbox_store.inv_run [OF inv1] this assms(3)]
  show ?thesis using found c(2) assms(4-7) by (simp add: Record_def no_faults_def)
qed

lemma exampleRecord:
  "Record (\<lambda>_. 100) no_faults 5 exampleIdentity ''o/r'' 7 emptyCorrStore =
     (Inr (newCorrelation 1 exampleIdentity ''o/r'' 7 5),
      snd (Record (\<lambda>_. 100) no_faults 5 exampleIdentity ''o/r'' 7 emptyCorrStore))"
  by (simp add: Record_def no_faults_def exampleIdentity_def identityValid_def correlationByOperation_def
      emptyCorrStore_def scanCorrelation_def buildPayload_def Let_def newCorrelation_def)

theorem Record_is_idempotent_witness:
  "Record (\<lambda>_. 100) no_faults 9 exampleIdentity ''o/other'' 8
     (run_ops (corr_exec (\<lambda>_. 100)) [] (snd (Record (\<lambda>_. 100) no_faults 5 exampleIdentity ''o/r'' 7 emptyCorrStore))) =
   (Inr (newCorrelation 1 exampleIdentity ''o/r'' 7 5),
    run_ops (corr_exec (\<lambda>_. 100)) [] (snd (Record (\<lambda>_. 100) no_faults 5 exampleIdentity ''o/r'' 7 emptyCorrStore)))"
proof -
  have "in_text_range (co_createdAt (newCorrelation 1 exampleIdentity ''o/r'' 7 5))" by code_simp
  moreover have "identityValid exampleIdentity" by code_simp
  ultimately show ?thesis
    by (intro conjunct1 [OF Record_is_idempotent [OF corr_inv_empty exampleRecord]]) simp_all
qed

text \<open>C15. The outbox implements the life of an event: over any run an event keeps its identity and payload,
  its phase moves by steps of \<open>ev_step\<close>, its attempts never decrease, and once it is acknowledged it is
  neither claimed nor released again.\<close>

theorem outbox_refines_event_life:
  assumes "corr_inv jlen s" and "findEvent s i = Some e"
  shows "\<exists>d. findEvent (run_ops (corr_exec jlen) xs s) i = Some d \<and> oe_payload d = oe_payload e \<and>
             oe_correlationID d = oe_correlationID e \<and> ev_step\<^sup>*\<^sup>* (view e) (view d) \<and>
             oe_attempts e \<le> oe_attempts d \<and>
             (oe_status e = StatusAcked \<longrightarrow> oe_status d = StatusAcked \<and> oe_attempts d = oe_attempts e)"
proof -
  obtain d where d: "findEvent (run_ops (corr_exec jlen) xs s) i = Some d" "event_le e d"
    using outbox_forward.le_run [OF assms(1), of xs] assms(2) unfolding corr_le_def by blast
  then have steps: "ev_step\<^sup>*\<^sup>* (view e) (view d)" by (simp add: event_le_def)
  have "view d = view e" if "oe_status e = StatusAcked"
    using delivered_final [OF steps] that by (simp add: view_def phase_of_def)
  then have "oe_status e = StatusAcked \<longrightarrow> oe_status d = StatusAcked \<and> oe_attempts d = oe_attempts e"
    by (auto simp: view_def phase_of_def split: event_status.splits)
  with d steps attempts_grow [OF steps] show ?thesis by (auto simp: event_le_def view_def)
qed

theorem outbox_refines_event_life_witness:
  "\<exists>d. findEvent (run_ops (corr_exec (\<lambda>_. 100)) [CorrReclaim no_faults 9 1 ''a'', CorrAck no_faults 9 1 ''a''] (exampleOutbox 5)) 1 =
     Some d \<and> oe_payload d = examplePayload"
proof -
  obtain d where "findEvent (run_ops (corr_exec (\<lambda>_. 100)) [CorrReclaim no_faults 9 1 ''a'', CorrAck no_faults 9 1 ''a'']
      (exampleOutbox 5)) 1 = Some d" "oe_payload d = oe_payload (claimEvent ''a'' 5 (newEvent 1 1 examplePayload 0))"
    using outbox_refines_event_life [OF exampleOutbox_inv exampleOutbox_event] by blast
  then show ?thesis by (simp add: claimEvent_def newEvent_def)
qed

text \<open>C16. A claim is exclusive until its time to live has passed, counted from the start of the second in which it was made: as
  long as every later claim comes before that, and acknowledgements and releases of the event carry other tokens, no run
  of operations touches the claimed event, and its holder's acknowledgement succeeds. Between that moment and the end of the
  time to live, which is less than a second, the event may be taken over early (\<open>claim_order_within_a_second\<close>).\<close>

theorem claim_is_exclusive:
  assumes "corr_inv jlen s" and "findEvent s i = Some e" and "oe_status e = StatusClaimed"
    and "oe_claimedAt e = Some t" and "readable e" and "\<forall>x \<in> set xs. leaves_claim i (oe_claimToken e) t x"
  shows "findEvent (run_ops (corr_exec jlen) xs s) i = Some e \<and>
         Ack no_faults now i (oe_claimToken e) (run_ops (corr_exec jlen) xs s) =
           (Inr (), updateEvent i (ackEvent now) (run_ops (corr_exec jlen) xs s))"
proof -
  have t: "in_text_range t" using assms(4,5) by (simp add: readable_def)
  have "findEvent (run_ops (corr_exec jlen) xs s) i = Some e"
    by (rule outbox_store.guarded_run [OF assms(1), where P = "\<lambda>s. findEvent s i = Some e"])
       (use assms t claim_kept in blast)+
  then show ?thesis using Ack_succeeds assms(3,5) by blast
qed

theorem claim_is_exclusive_witness:
  "findEvent (run_ops (corr_exec (\<lambda>_. 100)) [CorrClaim no_faults no_faults 30000000000 ''b'' 1 25000000000]
     (exampleOutbox 6000000000)) 1 = Some (claimEvent ''a'' 6000000000 (newEvent 1 1 examplePayload 0))"
proof -
  let ?e = "claimEvent ''a'' 6000000000 (newEvent 1 1 examplePayload 0)"
  have "readable ?e" by code_simp
  moreover have "oe_status ?e = StatusClaimed" "oe_claimedAt ?e = Some 6000000000" by (simp_all add: claimEvent_def)
  moreover have "leaves_claim 1 (oe_claimToken ?e) 6000000000 (CorrClaim no_faults no_faults 30000000000 ''b'' 1 25000000000)"
    by code_simp
  then have "\<forall>x \<in> set [CorrClaim no_faults no_faults 30000000000 ''b'' 1 25000000000].
      leaves_claim 1 (oe_claimToken ?e) 6000000000 x"
    by (simp only: list.set ball_simps simp_thms)
  ultimately show ?thesis
    using claim_is_exclusive [OF exampleOutbox_inv exampleOutbox_event] by blast
qed

text \<open>C17. The outbox drains in order: when every claim is older than the time to live, in whole seconds, a claim without
  faults hands out the first \<open>limit\<close>, by id, of the events that are not acknowledged, each as the store had it but for the
  claim, and after their acknowledgement exactly that many fewer are left.\<close>

theorem outbox_drains:
  assumes "corr_inv jlen s" and "claim_ready now s" and "token \<noteq> []" and "0 < limit"
    and "in_text_range (now - ttl)"
    and "\<And>e t. e \<in> set (ct_events s) \<Longrightarrow> oe_status e = StatusClaimed \<Longrightarrow> oe_claimedAt e = Some t \<Longrightarrow>
           t div nsPerSec < (now - ttl) div nsPerSec"
  shows "\<exists>cl s1. ClaimPending no_faults no_faults now token limit ttl s = (Inr cl, s1) \<and>
           map oe_id cl = take (nat limit) (sort (map oe_id (filter (\<lambda>e. oe_status e \<noteq> StatusAcked) (ct_events s)))) \<and>
           cl = map (\<lambda>i. claimEvent token now (the (findEvent s i))) (map oe_id cl) \<and>
           PendingCount False (run_ops (corr_exec jlen) (map (\<lambda>e. CorrAck no_faults now' (oe_id e) token) cl) s1) =
             Inr (int (unacked s) - int (length cl))"
proof -
  let ?is = "candidates limit (now - ttl) s"
  let ?s1 = "claimAll token now ?is s"
  let ?cl = "map (\<lambda>i. claimEvent token now (the (findEvent s i))) ?is"
  have claim: "ClaimPending no_faults no_faults now token limit ttl s = (Inr ?cl, ?s1)"
    using ClaimPending_succeeds [OF assms(1-3), of limit ttl] assms(4) by simp
  have "?is = take (nat limit) (sort (map oe_id (filter (\<lambda>e. oe_status e \<noteq> StatusAcked) (ct_events s))))"
    using expired_unacked [OF assms(1) _ assms(5,6)] assms(2) by (simp add: candidates_def claim_ready_def sort_map_key)
  then have ids: "map oe_id ?cl = take (nat limit) (sort (map oe_id (filter (\<lambda>e. oe_status e \<noteq> StatusAcked) (ct_events s))))"
    using claimed_ids [of token now s limit "now - ttl"] by (rule trans [rotated])
  have as_stored: "?cl = map (\<lambda>i. claimEvent token now (the (findEvent s i))) (map oe_id ?cl)" by (simp only: claimed_ids)
  have dist: "distinct (map oe_id (ct_events s))" using assms(1) by (simp add: corr_inv_def)
  have "map (\<lambda>e. CorrAck no_faults now' (oe_id e) token) ?cl =
      map (\<lambda>i. CorrAck no_faults now' i token) (map oe_id ?cl)" by (simp add: comp_def)
  then have acks: "map (\<lambda>e. CorrAck no_faults now' (oe_id e) token) ?cl = map (\<lambda>i. CorrAck no_faults now' i token) ?is"
    by (simp only: claimed_ids)
  have "map oe_id (ct_events ?s1) = map oe_id (ct_events s)" by (simp add: claimAll_def mapEvents_def)
  then have "unacked (run_ops (corr_exec jlen) (map (\<lambda>i. CorrAck no_faults now' i token) ?is) ?s1) + length ?is = unacked s"
    using acks_succeed [of ?s1 ?is token] dist candidates_distinct [OF dist] claimed_held [OF assms(2)]
    by (metis unacked_claimAll [OF assms(1)])
  then have "PendingCount False (run_ops (corr_exec jlen) (map (\<lambda>e. CorrAck no_faults now' (oe_id e) token) ?cl) ?s1) =
      Inr (int (unacked s) - int (length ?cl))"
    unfolding acks by (simp add: PendingCount_def unacked_def)
  with claim ids as_stored show ?thesis by blast
qed

theorem outbox_drains_witness:
  "\<exists>cl s1. ClaimPending no_faults no_faults 90000000000 ''b'' 5 25000000000 (exampleOutbox 6000000000) = (Inr cl, s1) \<and>
     map oe_id cl = [1] \<and> map oe_claimToken cl = [''b''] \<and>
     PendingCount False (run_ops (corr_exec (\<lambda>_. 100)) [CorrAck no_faults 0 1 ''b''] s1) = Inr 0"
proof -
  let ?s = "exampleOutbox 6000000000"
  have "claim_ready 90000000000 ?s" by code_simp
  moreover have "in_text_range (90000000000 - 25000000000)" by code_simp
  moreover have "t div nsPerSec < (90000000000 - 25000000000) div nsPerSec"
    if "e \<in> set (ct_events ?s)" "oe_status e = StatusClaimed" "oe_claimedAt e = Some t" for e t
    using that by (simp add: exampleOutbox_def claimEvent_def nsPerSec_def)
  ultimately obtain cl s1 where
    claim: "ClaimPending no_faults no_faults 90000000000 ''b'' 5 25000000000 ?s = (Inr cl, s1)" and
    ids: "map oe_id cl = take (nat 5) (sort (map oe_id (filter (\<lambda>e. oe_status e \<noteq> StatusAcked) (ct_events ?s))))" and
    cl: "cl = map (\<lambda>i. claimEvent ''b'' 90000000000 (the (findEvent ?s i))) (map oe_id cl)" and
    left: "PendingCount False (run_ops (corr_exec (\<lambda>_. 100)) (map (\<lambda>e. CorrAck no_faults 0 (oe_id e) ''b'') cl) s1) =
       Inr (int (unacked ?s) - int (length cl))"
    using outbox_drains [OF exampleOutbox_inv, of 90000000000 6000000000 "''b''" 5 25000000000 0] by fastforce
  have "take (nat 5) (sort (map oe_id (filter (\<lambda>e. oe_status e \<noteq> StatusAcked) (ct_events ?s)))) = [1]"
    by (simp add: exampleOutbox_def claimEvent_def newEvent_def)
  then have one: "map oe_id cl = [1]" using ids by simp
  then obtain e where e: "cl = [e]" "oe_id e = 1" by auto
  have "oe_claimToken e = ''b''" using cl one e(1) by (auto simp: claimEvent_def)
  moreover have "unacked ?s = 1" by (simp add: unacked_def exampleOutbox_def claimEvent_def)
  ultimately show ?thesis using claim left e by (intro exI [of _ cl] exI [of _ s1]) simp
qed

lemma digits_w_numeral:
  "digits_w (numeral k) n = digits_w (pred_numeral k) (n div 10) @ [char_of (48 + n mod 10)]"
  unfolding numeral_eq_Suc [of k] by (rule digits_w.simps(2))

lemma example_texts:
  "formatTime 6000000000 = ''0001-01-01T00:00:06Z''" "formatTime 6500000000 = ''0001-01-01T00:00:06.5Z''"
proof -
  have "second_text 6 = ''0001-01-01T00:00:06''" by code_simp
  moreover have "char_of (48 :: nat) = CHR ''0''" "char_of (53 :: nat) = CHR ''5''" by code_simp+
  ultimately show "formatTime 6000000000 = ''0001-01-01T00:00:06Z''" "formatTime 6500000000 = ''0001-01-01T00:00:06.5Z''"
    by (simp_all add: formatTime_def nsPerSec_def fraction_text_def digits_w_numeral)
qed

text \<open>Within one second the query orders claim times by their text, which is not the order of the
  instants: a claim made at 6.5 s is handed to another consumer after half of its time to live of one
  second, while a claim made at 6 s is still held back after one second and a half.\<close>

theorem claim_order_within_a_second:
  "(\<exists>cl s1. ClaimPending no_faults no_faults 7000000000 ''b'' 1 nsPerSec (exampleOutbox 6500000000) = (Inr cl, s1) \<and>
      map oe_claimToken cl = [''b'']) \<and>
   ClaimPending no_faults no_faults 7500000000 ''b'' 1 nsPerSec (exampleOutbox 6000000000) =
     (Inr [], exampleOutbox 6000000000)"
proof
  have "claim_ready 7000000000 (exampleOutbox 6500000000)" by code_simp
  from ClaimPending_succeeds [OF exampleOutbox_inv this, of "''b''" 1 nsPerSec]
  have "ClaimPending no_faults no_faults 7000000000 ''b'' 1 nsPerSec (exampleOutbox 6500000000) =
      (Inr (map (\<lambda>i. claimEvent ''b'' 7000000000 (the (findEvent (exampleOutbox 6500000000) i)))
         (candidates 1 (7000000000 - nsPerSec) (exampleOutbox 6500000000))),
       claimAll ''b'' 7000000000 (candidates 1 (7000000000 - nsPerSec) (exampleOutbox 6500000000)) (exampleOutbox 6500000000))"
    by simp
  moreover have "candidates 1 (7000000000 - nsPerSec) (exampleOutbox 6500000000) = [1]"
    by (simp add: candidates_def exampleOutbox_def claimable_def claimEvent_def newEvent_def nsPerSec_def example_texts)
  ultimately show "\<exists>cl s1. ClaimPending no_faults no_faults 7000000000 ''b'' 1 nsPerSec (exampleOutbox 6500000000) =
      (Inr cl, s1) \<and> map oe_claimToken cl = [''b'']"
    by (simp add: claimEvent_def)
  have "candidates 1 (7500000000 - nsPerSec) (exampleOutbox 6000000000) = []"
    by (simp add: candidates_def exampleOutbox_def claimable_def claimEvent_def nsPerSec_def example_texts)
  then show "ClaimPending no_faults no_faults 7500000000 ''b'' 1 nsPerSec (exampleOutbox 6000000000) =
      (Inr [], exampleOutbox 6000000000)"
    by (simp add: ClaimPending_def no_faults_def Let_def)
qed

end
