(* ===== verification/Outbox.thy ===== *)
theory Outbox
  imports Correlation Go_Http
begin

text \<open>
  The private outbox API of the server (\<open>src/internal/server/outbox.go\<close>): the consumer claims events,
  acknowledges them or hands them back. \<open>api = None\<close> is a server without the API mounted. The body of a
  request is described by what decoding it as a claim and as an acknowledgement gives; the type \<open>int\<close> of
  the limit and of the event id is that of 64-bit integers, which decoding enforces.
\<close>

section \<open>Data\<close>

record outbox_api =
  oa_hasStore :: bool
  oa_token :: string
  oa_claimTTL :: duration
  oa_maxBatch :: int

definition newOutboxAPI :: "bool \<Rightarrow> string \<Rightarrow> duration \<Rightarrow> int \<Rightarrow> outbox_api" where
  "newOutboxAPI hasStore token claimTTL maxBatch =
     (let maxBatch = (if maxBatch \<le> 0 then 1 else maxBatch) in
      \<lparr>oa_hasStore = hasStore, oa_token = token, oa_claimTTL = claimTTL, oa_maxBatch = maxBatch\<rparr>)"

record claim_request =
  cr_claimToken :: string
  cr_limit :: int

record ack_request =
  ar_eventID :: int
  ar_claimToken :: string

record outbox_body =
  ob_claim :: "claim_request option"
  ob_ack :: "ack_request option"

record event_dto =
  dt_id :: int
  dt_version :: string
  dt_status :: event_status
  dt_attempts :: int
  dt_payload :: event_payload
  dt_claimToken :: string
  dt_claimedAt :: string
  dt_createdAt :: string
  dt_updatedAt :: string

datatype outbox_response =
    OutboxPlainNotFound
  | OutboxUnmounted
  | OutboxError int string
  | OutboxClaimed "event_dto list"
  | OutboxNoContent

text \<open>What the store's call of one request meets: its faults and the reading of its clock.\<close>

record outbox_call =
  oc_faults :: faults
  oc_loopFaults :: faults
  oc_now :: gotime

section \<open>Handlers\<close>

definition toOutboxEventDTO :: "outbox_event \<Rightarrow> event_dto" where
  "toOutboxEventDTO e =
     (let dto = \<lparr>dt_id = oe_id e, dt_version = oe_version e, dt_status = oe_status e, dt_attempts = oe_attempts e,
                 dt_payload = oe_payload e, dt_claimToken = oe_claimToken e, dt_claimedAt = [],
                 dt_createdAt = formatTime (oe_createdAt e), dt_updatedAt = formatTime (oe_updatedAt e)\<rparr>
      in case oe_claimedAt e of None \<Rightarrow> dto | Some t \<Rightarrow> dto\<lparr>dt_claimedAt := formatTime t\<rparr>)"

definition decodeOutboxRequest :: "web_request \<Rightarrow> 'a option \<Rightarrow> outbox_response + 'a" where
  "decodeOutboxRequest r decoded =
     (if wr_bodyFails r \<or> wr_bodyLength r > 8 * 1024
      then Inl (OutboxError 400 ''request body invalid or too large'')
      else case decoded of None \<Rightarrow> Inl (OutboxError 400 ''invalid json'') | Some v \<Rightarrow> Inr v)"

definition writeOutboxStoreError :: "corr_error \<Rightarrow> outbox_response" where
  "writeOutboxStoreError e =
     (if e = ErrClaimMismatch then OutboxError 409 ''claim_mismatch''
      else if e = ErrNotFound then OutboxError 404 ''not_found''
      else if e = ErrPayloadBounds then OutboxError 422 ''payload_bounds''
      else OutboxError 400 ''outbox_request_denied'')"

definition claimLimit :: "outbox_api \<Rightarrow> int \<Rightarrow> int" where
  "claimLimit a requested =
     (let limit = (if requested \<le> 0 then 1 else requested)
      in if limit > oa_maxBatch a then oa_maxBatch a else limit)"

definition handleClaim ::
  "outbox_api \<Rightarrow> outbox_call \<Rightarrow> web_request \<Rightarrow> outbox_body \<Rightarrow> corr_store \<Rightarrow> outbox_response \<times> corr_store" where
  "handleClaim a k r b s =
     (case decodeOutboxRequest r (ob_claim b) of
        Inl resp \<Rightarrow> (resp, s)
      | Inr req \<Rightarrow>
          if trimSpace (cr_claimToken req) = [] then (OutboxError 400 ''claim_token_required'', s)
          else case ClaimPending (oc_faults k) (oc_loopFaults k) (oc_now k) (cr_claimToken req)
                      (claimLimit a (cr_limit req)) (oa_claimTTL a) s of
            (Inl e, s') \<Rightarrow> (writeOutboxStoreError e, s')
          | (Inr events, s') \<Rightarrow> (OutboxClaimed (map toOutboxEventDTO events), s'))"

definition handleAck ::
  "outbox_api \<Rightarrow> outbox_call \<Rightarrow> web_request \<Rightarrow> outbox_body \<Rightarrow> corr_store \<Rightarrow> outbox_response \<times> corr_store" where
  "handleAck a k r b s =
     (case decodeOutboxRequest r (ob_ack b) of
        Inl resp \<Rightarrow> (resp, s)
      | Inr req \<Rightarrow>
          if ar_eventID req \<le> 0 \<or> trimSpace (ar_claimToken req) = []
          then (OutboxError 400 ''event_id_and_claim_token_required'', s)
          else case Ack (oc_faults k) (oc_now k) (ar_eventID req) (ar_claimToken req) s of
            (Inl e, s') \<Rightarrow> (writeOutboxStoreError e, s')
          | (Inr _, s') \<Rightarrow> (OutboxNoContent, s'))"

definition handleReclaim ::
  "outbox_api \<Rightarrow> outbox_call \<Rightarrow> web_request \<Rightarrow> outbox_body \<Rightarrow> corr_store \<Rightarrow> outbox_response \<times> corr_store" where
  "handleReclaim a k r b s =
     (case decodeOutboxRequest r (ob_ack b) of
        Inl resp \<Rightarrow> (resp, s)
      | Inr req \<Rightarrow>
          if ar_eventID req \<le> 0 \<or> trimSpace (ar_claimToken req) = []
          then (OutboxError 400 ''event_id_and_claim_token_required'', s)
          else case Reclaim (oc_faults k) (oc_now k) (ar_eventID req) (ar_claimToken req) s of
            (Inl e, s') \<Rightarrow> (writeOutboxStoreError e, s')
          | (Inr _, s') \<Rightarrow> (OutboxNoContent, s'))"

definition outboxServeHTTP ::
  "outbox_api \<Rightarrow> outbox_call \<Rightarrow> web_request \<Rightarrow> outbox_body \<Rightarrow> corr_store \<Rightarrow> outbox_response \<times> corr_store" where
  "outboxServeHTTP a k r b s =
     (if \<not> oa_hasStore a \<or> oa_token a = [] then (OutboxPlainNotFound, s)
      else if \<not> bearerMatches (oa_token a) (wr_authorization r) then (OutboxError 401 ''unauthorized'', s)
      else if wr_method r \<noteq> ''POST'' then (OutboxError 405 ''method_not_allowed'', s)
      else
        (let path = trimSlashes (trimPrefix (wr_path r) ''/v1/correlation/outbox/'') in
         if path = ''claim'' then handleClaim a k r b s
         else if path = ''ack'' then handleAck a k r b s
         else if path = ''reclaim'' then handleReclaim a k r b s
         else (OutboxError 404 ''not_found'', s)))"

definition handleOutbox ::
  "outbox_api option \<Rightarrow> outbox_call \<Rightarrow> web_request \<Rightarrow> outbox_body \<Rightarrow> corr_store \<Rightarrow> outbox_response \<times> corr_store" where
  "handleOutbox api k r b s =
     (case api of None \<Rightarrow> (OutboxUnmounted, s) | Some a \<Rightarrow> outboxServeHTTP a k r b s)"

section \<open>Requests as operations of the store\<close>

text \<open>The operation of the store a request stands for, if it stands for one.\<close>

definition request_op :: "outbox_api \<Rightarrow> outbox_call \<Rightarrow> web_request \<Rightarrow> outbox_body \<Rightarrow> corr_op option" where
  "request_op a k r b =
     (let path = trimSlashes (trimPrefix (wr_path r) ''/v1/correlation/outbox/'') in
      if \<not> oa_hasStore a \<or> oa_token a = [] \<or> wr_authorization r \<noteq> ''Bearer '' @ oa_token a \<or>
         wr_method r \<noteq> ''POST'' \<or> wr_bodyFails r \<or> wr_bodyLength r > 8 * 1024
      then None
      else if path = ''claim'' then
        (case ob_claim b of
           Some req \<Rightarrow>
             if trimSpace (cr_claimToken req) = [] then None
             else Some (CorrClaim (oc_faults k) (oc_loopFaults k) (oc_now k) (cr_claimToken req)
                          (claimLimit a (cr_limit req)) (oa_claimTTL a))
         | None \<Rightarrow> None)
      else if path = ''ack'' \<or> path = ''reclaim'' then
        (case ob_ack b of
           Some req \<Rightarrow>
             if ar_eventID req \<le> 0 \<or> trimSpace (ar_claimToken req) = [] then None
             else if path = ''ack''
             then Some (CorrAck (oc_faults k) (oc_now k) (ar_eventID req) (ar_claimToken req))
             else Some (CorrReclaim (oc_faults k) (oc_now k) (ar_eventID req) (ar_claimToken req))
         | None \<Rightarrow> None)
      else None)"

text \<open>The response to an answer of the store.\<close>

fun respond :: "corr_error + corr_answer \<Rightarrow> outbox_response" where
  "respond (Inl e) = writeOutboxStoreError e"
| "respond (Inr (AnsClaimed events)) = OutboxClaimed (map toOutboxEventDTO events)"
| "respond (Inr _) = OutboxNoContent"

definition refusal :: "outbox_response \<Rightarrow> bool" where
  "refusal resp = (case resp of OutboxPlainNotFound \<Rightarrow> True | OutboxError _ _ \<Rightarrow> True | _ \<Rightarrow> False)"

lemma handleClaim_respond:
  "trimSpace (cr_claimToken req) \<noteq> [] \<Longrightarrow> decodeOutboxRequest r (ob_claim b) = Inr req \<Longrightarrow>
     handleClaim a k r b s =
       map_prod respond id (corr_exec jlen (CorrClaim (oc_faults k) (oc_loopFaults k) (oc_now k) (cr_claimToken req)
          (claimLimit a (cr_limit req)) (oa_claimTTL a)) s)"
  by (auto simp: handleClaim_def split: prod.splits sum.splits)

lemma handleAck_respond:
  "0 < ar_eventID req \<Longrightarrow> trimSpace (ar_claimToken req) \<noteq> [] \<Longrightarrow> decodeOutboxRequest r (ob_ack b) = Inr req \<Longrightarrow>
     handleAck a k r b s =
       map_prod respond id (corr_exec jlen (CorrAck (oc_faults k) (oc_now k) (ar_eventID req) (ar_claimToken req)) s)"
  by (auto simp: handleAck_def split: prod.splits sum.splits)

lemma handleReclaim_respond:
  "0 < ar_eventID req \<Longrightarrow> trimSpace (ar_claimToken req) \<noteq> [] \<Longrightarrow> decodeOutboxRequest r (ob_ack b) = Inr req \<Longrightarrow>
     handleReclaim a k r b s =
       map_prod respond id (corr_exec jlen (CorrReclaim (oc_faults k) (oc_now k) (ar_eventID req) (ar_claimToken req)) s)"
  by (auto simp: handleReclaim_def split: prod.splits sum.splits)

lemma decoded:
  "\<not> wr_bodyFails r \<Longrightarrow> \<not> wr_bodyLength r > 8 * 1024 \<Longrightarrow> decodeOutboxRequest r (Some v) = Inr v"
  by (simp add: decodeOutboxRequest_def)

lemma refused_handlers:
  "ob_claim b = None \<or> wr_bodyFails r \<or> wr_bodyLength r > 8 * 1024 \<or> (\<exists>q. ob_claim b = Some q \<and> trimSpace (cr_claimToken q) = []) \<Longrightarrow>
     \<exists>c m. handleClaim a k r b s = (OutboxError c m, s)"
  "ob_ack b = None \<or> wr_bodyFails r \<or> wr_bodyLength r > 8 * 1024 \<or>
     (\<exists>q. ob_ack b = Some q \<and> (ar_eventID q \<le> 0 \<or> trimSpace (ar_claimToken q) = [])) \<Longrightarrow>
     (\<exists>c m. handleAck a k r b s = (OutboxError c m, s)) \<and> (\<exists>c m. handleReclaim a k r b s = (OutboxError c m, s))"
  by (auto simp: handleClaim_def handleAck_def handleReclaim_def decodeOutboxRequest_def split: option.splits)

lemma outboxServeHTTP_op:
  "request_op a k r b = Some x \<Longrightarrow> outboxServeHTTP a k r b s = map_prod respond id (corr_exec jlen x s)"
  by (auto simp: request_op_def outboxServeHTTP_def bearerMatches_iff Let_def decoded handleClaim_respond [of _ _ _ _ _ _ jlen]
        handleAck_respond [of _ _ _ _ _ _ jlen] handleReclaim_respond [of _ _ _ _ _ _ jlen] simp del: corr_exec.simps
        split: if_splits option.splits)

lemma outboxServeHTTP_refuses:
  "request_op a k r b = None \<Longrightarrow> \<exists>resp. outboxServeHTTP a k r b s = (resp, s) \<and> refusal resp"
  using refused_handlers [of b r a k s]
  by (auto simp: request_op_def outboxServeHTTP_def bearerMatches_iff Let_def refusal_def
        split: if_splits option.splits)

section \<open>Runs of requests\<close>

fun serveOutbox ::
  "outbox_api \<Rightarrow> (outbox_call \<times> web_request \<times> outbox_body) list \<Rightarrow> corr_store \<Rightarrow> corr_store" where
  "serveOutbox a [] s = s"
| "serveOutbox a ((k, r, b) # ws) s = serveOutbox a ws (snd (outboxServeHTTP a k r b s))"

lemma serveOutbox_ops:
  "serveOutbox a ws s =
     run_ops (corr_exec jlen) (List.map_filter (\<lambda>(k, r, b). request_op a k r b) ws) s"
proof (induction ws arbitrary: s)
  case (Cons w ws)
  obtain k r b where w: "w = (k, r, b)" by (cases w)
  show ?case
  proof (cases "request_op a k r b")
    case None
    from outboxServeHTTP_refuses [OF None, of s] have "snd (outboxServeHTTP a k r b s) = s" by auto
    with Cons None w show ?thesis by (simp add: map_filter_simps)
  next
    case (Some x)
    with Cons w show ?thesis
      by (simp add: map_filter_simps outboxServeHTTP_op [OF Some, of s jlen] del: corr_exec.simps)
  qed
qed (simp add: map_filter_simps)

lemma claimLimit_bounds: "1 \<le> oa_maxBatch a \<Longrightarrow> 1 \<le> claimLimit a n \<and> claimLimit a n \<le> oa_maxBatch a"
  by (simp add: claimLimit_def Let_def)

lemma claimed_length:
  assumes "corr_inv jlen s" "ClaimPending f g now token limit ttl s = (Inr cl, s')" "1 \<le> limit"
  shows "int (length cl) \<le> limit"
proof -
  have "distinct (map oe_id (ct_events s))" using assms(1) by (simp add: corr_inv_def)
  from ClaimPending_ok [OF assms(2) this] assms(3)
  have "length cl = length (candidates limit (now - ttl) s)" by simp
  with assms(3) show ?thesis by (simp add: length_candidates)
qed

lemma claimed_events:
  assumes "corr_inv jlen s" "ClaimPending f g now token limit ttl s = (Inr cl, s')" "e \<in> set cl"
  shows "oe_status e = StatusClaimed \<and> oe_claimToken e = token \<and> oe_claimedAt e = Some now"
proof -
  have "distinct (map oe_id (ct_events s))" using assms(1) by (simp add: corr_inv_def)
  from ClaimPending_ok [OF assms(2) this] assms(3) show ?thesis by (auto simp: claimEvent_def)
qed

lemma handleClaim_claimed:
  assumes "handleClaim a k r b s = (OutboxClaimed ds, s')"
  shows "\<exists>req cl. ob_claim b = Some req \<and> ds = map toOutboxEventDTO cl \<and>
    ClaimPending (oc_faults k) (oc_loopFaults k) (oc_now k) (cr_claimToken req) (claimLimit a (cr_limit req))
      (oa_claimTTL a) s = (Inr cl, s')"
  using assms
  by (auto simp: handleClaim_def decodeOutboxRequest_def writeOutboxStoreError_def
      split: if_splits option.splits prod.splits sum.splits)

lemma only_claim_claims:
  "outboxServeHTTP a k r b s = (OutboxClaimed ds, s') \<Longrightarrow> handleClaim a k r b s = (OutboxClaimed ds, s')"
  by (auto simp: outboxServeHTTP_def handleAck_def handleReclaim_def decodeOutboxRequest_def writeOutboxStoreError_def Let_def
      split: if_splits option.splits prod.splits sum.splits)

section \<open>Properties\<close>

definition exampleAPI :: outbox_api where
  "exampleAPI = newOutboxAPI True ''t'' nsPerSec 10"

definition exampleCall :: outbox_call where
  "exampleCall = \<lparr>oc_faults = no_faults, oc_loopFaults = no_faults, oc_now = 9\<rparr>"

definition exampleWeb :: "string \<Rightarrow> web_request" where
  "exampleWeb path = \<lparr>wr_method = ''POST'', wr_path = path, wr_authorization = ''Bearer t'', wr_bodyFails = False,
     wr_bodyLength = 40\<rparr>"

text \<open>C18. The HTTP surface refines the store: a request that stands for an operation is answered with the
  answer of that operation and leaves its state, every other request is refused and changes nothing, and so a
  sequence of requests is the run of the operations they stand for.\<close>

theorem outbox_api_refines_store:
  "(case request_op a k r b of
      Some x \<Rightarrow> outboxServeHTTP a k r b s = map_prod respond id (corr_exec jlen x s)
    | None \<Rightarrow> snd (outboxServeHTTP a k r b s) = s \<and> refusal (fst (outboxServeHTTP a k r b s))) \<and>
   serveOutbox a ws s = run_ops (corr_exec jlen) (List.map_filter (\<lambda>(k, r, b). request_op a k r b) ws) s"
  using outboxServeHTTP_refuses [of a k r b s] serveOutbox_ops [of a ws s jlen]
  by (auto simp: outboxServeHTTP_op [of a k r b _ s jlen] simp del: corr_exec.simps split: option.splits)

text \<open>A claim over the API never hands out more than the configured batch, whatever limit the
  consumer asks for, and every event handed out is claimed in its name at the time of the call.\<close>

theorem claim_batch_bounded:
  assumes "corr_inv jlen s"
    and "outboxServeHTTP (newOutboxAPI hasStore token ttl maxBatch) k r b s = (OutboxClaimed ds, s')"
  shows "int (length ds) \<le> max 1 maxBatch \<and>
         (\<exists>req. ob_claim b = Some req \<and>
            (\<forall>d \<in> set ds. dt_status d = StatusClaimed \<and> dt_claimToken d = cr_claimToken req \<and>
                           dt_claimedAt d = formatTime (oc_now k)))"
proof -
  let ?a = "newOutboxAPI hasStore token ttl maxBatch"
  obtain req cl where cl: "ob_claim b = Some req" "ds = map toOutboxEventDTO cl"
    "ClaimPending (oc_faults k) (oc_loopFaults k) (oc_now k) (cr_claimToken req) (claimLimit ?a (cr_limit req))
      (oa_claimTTL ?a) s = (Inr cl, s')"
    using handleClaim_claimed [OF only_claim_claims [OF assms(2)]] by blast
  have batch: "oa_maxBatch ?a = max 1 maxBatch" by (simp add: newOutboxAPI_def Let_def)
  then have limit: "1 \<le> claimLimit ?a (cr_limit req)" "claimLimit ?a (cr_limit req) \<le> max 1 maxBatch"
    using claimLimit_bounds [of ?a "cr_limit req"] by simp_all
  have "int (length cl) \<le> max 1 maxBatch" using claimed_length [OF assms(1) cl(3) limit(1)] limit(2) by linarith
  moreover have "dt_status (toOutboxEventDTO e) = StatusClaimed \<and> dt_claimToken (toOutboxEventDTO e) = cr_claimToken req \<and>
      dt_claimedAt (toOutboxEventDTO e) = formatTime (oc_now k)" if "e \<in> set cl" for e
    using claimed_events [OF assms(1) cl(3) that] by (simp add: toOutboxEventDTO_def Let_def)
  ultimately show ?thesis using cl by auto
qed

definition exampleClaimBody :: outbox_body where
  "exampleClaimBody = \<lparr>ob_claim = Some \<lparr>cr_claimToken = ''b'', cr_limit = 500\<rparr>, ob_ack = None\<rparr>"

definition examplePending :: corr_store where
  "examplePending = (exampleOutbox 0)\<lparr>ct_events := [newEvent 1 1 examplePayload 0]\<rparr>"

lemma examplePending_inv: "corr_inv (\<lambda>_. 100) examplePending"
  by (simp add: corr_inv_def examplePending_def exampleOutbox_def pair_ok_def validateEvent_def newCorrelation_def newEvent_def
      claim_ok_def exampleIdentity_def examplePayload_def Let_def)

lemma example_claim:
  "fst (outboxServeHTTP exampleAPI exampleCall (exampleWeb ''/v1/correlation/outbox/claim'') exampleClaimBody examplePending) =
     OutboxClaimed [toOutboxEventDTO (claimEvent ''b'' 9 (newEvent 1 1 examplePayload 0))]"
proof -
  have "claim_ready 9 examplePending" by code_simp
  from ClaimPending_succeeds [OF examplePending_inv this, of "''b''" 10 nsPerSec]
  have "fst (ClaimPending no_faults no_faults 9 ''b'' 10 nsPerSec examplePending) =
      Inr [claimEvent ''b'' 9 (newEvent 1 1 examplePayload 0)]"
    by (simp add: candidates_def examplePending_def claimable_def newEvent_def findEvent_def)
  moreover have "trimSpace ''b'' \<noteq> []" by code_simp
  moreover have "trimSlashes (trimPrefix ''/v1/correlation/outbox/claim'' ''/v1/correlation/outbox/'') = ''claim''" by code_simp
  ultimately show ?thesis
    by (auto simp: outboxServeHTTP_def exampleAPI_def newOutboxAPI_def exampleWeb_def bearerMatches_iff handleClaim_def
        decodeOutboxRequest_def exampleClaimBody_def exampleCall_def claimLimit_def split: prod.splits)
qed

theorem claim_batch_bounded_witness:
  "dt_claimToken (toOutboxEventDTO (claimEvent ''b'' 9 (newEvent 1 1 examplePayload 0))) = ''b''"
proof -
  have "outboxServeHTTP (newOutboxAPI True ''t'' nsPerSec 10) exampleCall (exampleWeb ''/v1/correlation/outbox/claim'')
      exampleClaimBody examplePending =
    (OutboxClaimed [toOutboxEventDTO (claimEvent ''b'' 9 (newEvent 1 1 examplePayload 0))],
     snd (outboxServeHTTP (newOutboxAPI True ''t'' nsPerSec 10) exampleCall
       (exampleWeb ''/v1/correlation/outbox/claim'') exampleClaimBody examplePending))"
    using example_claim unfolding exampleAPI_def by (metis prod.collapse)
  from claim_batch_bounded [OF examplePending_inv this] show ?thesis by (simp add: exampleClaimBody_def)
qed

end
