(* ===== verification/Security_Scan.thy ===== *)
theory Security_Scan
  imports Go_Regexp
begin

text \<open>
  Package \<open>securityscan\<close> (\<open>src/internal/securityscan/securityscan.go\<close>): the scan of every text the broker
  is about to send to GitHub. A value is searched for credential-shaped material, and so are the values
  it decodes to, percent-, hex- or base64-decoded, up to two levels deep.

  The detectors are searched anywhere in the value, two of them between word boundaries. The runs of
  \<open>hexRun\<close>, \<open>base64Run\<close> and \<open>effectTokenRun\<close> are what \<open>FindAllString\<close> gives for these expressions: a run
  of a class is maximal, because the match is leftmost and greedy. The registered effect tokens are a map
  from fingerprints to keys; \<open>hmac\<close> is the hexadecimal HMAC-SHA256. The handlers that a leak calls
  get the fingerprint that is in the finding.
\<close>

section \<open>Searching\<close>

definition isWordChar :: "char \<Rightarrow> bool" where
  "isWordChar c = in_class c [(CHR ''0'', CHR ''9''), (CHR ''A'', CHR ''Z''), (CHR ''_'', CHR ''_''), (CHR ''a'', CHR ''z'')]"

definition wordBoundary :: "string \<Rightarrow> string \<Rightarrow> bool" where
  "wordBoundary u v \<longleftrightarrow> (u \<noteq> [] \<and> isWordChar (last u)) \<noteq> (v \<noteq> [] \<and> isWordChar (hd v))"

definition re_search :: "bool \<Rightarrow> re \<Rightarrow> string \<Rightarrow> bool" where
  "re_search bounded r s =
     list_ex (\<lambda>i. list_ex (\<lambda>n.
        (bounded \<longrightarrow> wordBoundary (take i s) (drop i s) \<and> wordBoundary (take (i + n) s) (drop (i + n) s)) \<and>
        re_match r (take n (drop i s))) [0..<Suc (length s - i)]) [0..<Suc (length s)]"

definition reAtLeast :: "nat \<Rightarrow> re \<Rightarrow> re" where
  "reAtLeast n r = ReSeq (ReRep n n r) (ReStar r)"

fun reLits :: "string list \<Rightarrow> re" where
  "reLits [] = ReZero"
| "reLits (s # ss) = reAlt (reLit s) (reLits ss)"

fun reLitFold :: "string \<Rightarrow> re" where
  "reLitFold [] = ReEps"
| "reLitFold (c # s) =
     (let n = (of_char c :: nat) in
      ReSeq (ReCls (if 65 \<le> n \<and> n \<le> 90 then [(c, c), (char_of (n + 32), char_of (n + 32))] else [(c, c)])) (reLitFold s))"

section \<open>Detectors\<close>

text \<open>Under the flag \<open>i\<close> the class of letters also has the two other letters of Unicode that fold to ASCII.\<close>

definition canaryRe :: re where
  "canaryRe =
     ReSeq (reLitFold ''PR10'') (ReSeq (ReCls [(CHR ''_'', CHR ''_''), (CHR ''-'', CHR ''-'')])
      (ReSeq (reLitFold ''CREDENTIAL'') (ReSeq (ReCls [(CHR ''_'', CHR ''_''), (CHR ''-'', CHR ''-'')])
       (ReSeq (reLitFold ''CANARY'')
         (ReSeq (ReCls [(CHR '':'', CHR '':''), (CHR ''='', CHR ''=''), (CHR ''_'', CHR ''_''), (CHR ''-'', CHR ''-'')])
           (reAtLeast 6
             (ReAlt (ReCls [(CHR ''A'', CHR ''Z''), (CHR ''a'', CHR ''z''), (CHR ''0'', CHR ''9''), (CHR ''.'', CHR ''.''),
                            (CHR ''_'', CHR ''_''), (CHR ''~'', CHR ''~''), (CHR ''+'', CHR ''+''), (CHR ''/'', CHR ''/''),
                            (CHR ''-'', CHR ''-'')])
                    (reLits [[CHR 0xC5, CHR 0xBF], [CHR 0xE2, CHR 0x84, CHR 0xAA]]))))))))"

definition tokenCls :: re where
  "tokenCls = ReCls [(CHR ''A'', CHR ''Z''), (CHR ''a'', CHR ''z''), (CHR ''0'', CHR ''9''), (CHR ''_'', CHR ''_''), (CHR ''-'', CHR ''-'')]"

definition githubTokenRe :: re where
  "githubTokenRe =
     ReAlt
       (ReSeq (reLit ''github_pat_'')
         (reAtLeast 20 (ReCls [(CHR ''A'', CHR ''Z''), (CHR ''a'', CHR ''z''), (CHR ''0'', CHR ''9''), (CHR ''_'', CHR ''_'')])))
       (ReSeq (reLit ''gh'')
         (ReSeq (ReCls [(CHR ''p'', CHR ''p''), (CHR ''o'', CHR ''o''), (CHR ''u'', CHR ''u''), (CHR ''s'', CHR ''s''), (CHR ''r'', CHR ''r'')])
           (ReSeq (reLit ''_'')
             (reAtLeast 20 (ReCls [(CHR ''A'', CHR ''Z''), (CHR ''a'', CHR ''z''), (CHR ''0'', CHR ''9'')])))))"

definition openaiKeyRe :: re where
  "openaiKeyRe = ReSeq (reLit ''sk-'') (reAtLeast 20 tokenCls)"

definition jwtRe :: re where
  "jwtRe =
     ReSeq (reLit ''eyJ'') (ReSeq (reAtLeast 8 tokenCls) (ReSeq (reLit ''.'') (ReSeq (reAtLeast 8 tokenCls)
       (ReSeq (reLit ''.'') (reAtLeast 8 tokenCls)))))"

definition privateKeyRe :: re where
  "privateKeyRe =
     ReSeq (reLit ''-----BEGIN '') (ReSeq (reOpt (reLits [''RSA '', ''EC '', ''OPENSSH ''])) (reLit ''PRIVATE KEY-----''))"

definition detectors :: "(string \<times> bool \<times> re) list" where
  "detectors =
     [(''credential_canary'', False, canaryRe), (''github_token'', False, githubTokenRe),
      (''openai_api_key'', True, openaiKeyRe), (''jwt'', True, jwtRe), (''private_key'', False, privateKeyRe)]"

definition detect :: "string \<Rightarrow> string option" where
  "detect v = map_option fst (find (\<lambda>(code, b, r). re_search b r v) detectors)"

section \<open>Decodings\<close>

text \<open>Maximal runs of the characters of a class.\<close>

function runs :: "(char \<Rightarrow> bool) \<Rightarrow> string \<Rightarrow> string list" where
  "runs P [] = []"
| "runs P (c # s) =
     (if P c then takeWhile P (c # s) # runs P (dropWhile P s) else runs P s)"
  by pat_completeness auto
termination
  by (relation "measure (\<lambda>(P, s). length s)") (auto simp: length_dropWhile_le le_imp_less_Suc)

definition hexMatches :: "string \<Rightarrow> string list" where
  "hexMatches s = map (\<lambda>w. take (2 * (length w div 2)) w) (filter (\<lambda>w. 24 \<le> length w) (runs isHexChar s))"

definition isBase64Char :: "char \<Rightarrow> bool" where
  "isBase64Char c =
     in_class c [(CHR ''A'', CHR ''Z''), (CHR ''a'', CHR ''z''), (CHR ''0'', CHR ''9''), (CHR ''+'', CHR ''+''),
                 (CHR ''/'', CHR ''/''), (CHR ''_'', CHR ''_''), (CHR ''-'', CHR ''-'')]"

function base64Matches :: "string \<Rightarrow> string list" where
  "base64Matches [] = []"
| "base64Matches (c # s) =
     (if isBase64Char c then
        (let w = takeWhile isBase64Char (c # s); rest = dropWhile isBase64Char s;
             pad = takeWhile (\<lambda>d. d = CHR ''='') (take 2 rest)
         in if 16 \<le> length w then (w @ pad) # base64Matches (drop (length pad) rest) else base64Matches rest)
      else base64Matches s)"
  by pat_completeness auto
termination
  by (relation "measure length")
     (auto simp: length_dropWhile_le le_imp_less_Suc le_diff_conv trans_le_add1)

definition hexValue :: "char \<Rightarrow> nat" where
  "hexValue c =
     (let n = of_char c in
      if 97 \<le> n then n - 87 else if 65 \<le> n then n - 55 else n - 48)"

fun pathUnescape :: "string \<Rightarrow> string option" where
  "pathUnescape [] = Some []"
| "pathUnescape (c # s) =
     (if c = CHR ''%'' then
        (case s of
           a # b # t \<Rightarrow>
             if isHexChar a \<and> isHexChar b
             then map_option (\<lambda>r. char_of (16 * hexValue a + hexValue b) # r) (pathUnescape t)
             else None
         | _ \<Rightarrow> None)
      else map_option (\<lambda>r. c # r) (pathUnescape s))"

fun hexBytes :: "string \<Rightarrow> string" where
  "hexBytes (a # b # s) = char_of (16 * hexValue a + hexValue b) # hexBytes s"
| "hexBytes _ = []"

definition hexDecodeString :: "string \<Rightarrow> string option" where
  "hexDecodeString s = (if hexDecodes s then Some (hexBytes s) else None)"

definition hexCandidate :: "string \<Rightarrow> nat \<Rightarrow> string" where
  "hexCandidate w offset =
     (let candidate = drop offset w in
      if odd (length candidate) then take (length candidate - 1) candidate else candidate)"

definition hexDecodings :: "string \<Rightarrow> string list" where
  "hexDecodings w =
     List.map_filter (\<lambda>offset. hexDecodeString (hexCandidate w offset))
       (filter (\<lambda>offset. offset + 24 \<le> length w) [0, 1])"

text \<open>The four encodings of \<open>encoding/base64\<close>: the standard and the URL alphabet, padded or not. A value of
  six bits per character; the bits left over at the end are ignored.\<close>

definition base64Value :: "bool \<Rightarrow> char \<Rightarrow> nat option" where
  "base64Value urlSafe c =
     (let n = (of_char c :: nat) in
      if 65 \<le> n \<and> n \<le> 90 then Some (n - 65)
      else if 97 \<le> n \<and> n \<le> 122 then Some (n - 71)
      else if 48 \<le> n \<and> n \<le> 57 then Some (n + 4)
      else if c = (if urlSafe then CHR ''-'' else CHR ''+'') then Some 62
      else if c = (if urlSafe then CHR ''_'' else CHR ''/'') then Some 63
      else None)"

definition byte1 :: "nat \<Rightarrow> nat \<Rightarrow> char" where
  "byte1 a b = char_of (4 * a + b div 16)"

definition byte2 :: "nat \<Rightarrow> nat \<Rightarrow> char" where
  "byte2 b c = char_of (16 * (b mod 16) + c div 4)"

definition byte3 :: "nat \<Rightarrow> nat \<Rightarrow> char" where
  "byte3 c d = char_of (64 * (c mod 4) + d)"

fun base64Decode :: "bool \<Rightarrow> bool \<Rightarrow> string \<Rightarrow> string option" where
  "base64Decode url padded [] = Some []"
| "base64Decode url padded [a] = None"
| "base64Decode url padded [a, b] =
     (case (base64Value url a, base64Value url b) of
        (Some x, Some y) \<Rightarrow> if padded then None else Some [byte1 x y]
      | _ \<Rightarrow> None)"
| "base64Decode url padded [a, b, c] =
     (case (base64Value url a, base64Value url b, base64Value url c) of
        (Some x, Some y, Some z) \<Rightarrow> if padded then None else Some [byte1 x y, byte2 y z]
      | _ \<Rightarrow> None)"
| "base64Decode url padded (a # b # c # d # s) =
     (case (base64Value url a, base64Value url b) of
        (Some x, Some y) \<Rightarrow>
          if padded \<and> c = CHR ''=''
          then (if d = CHR ''='' \<and> s = [] then Some [byte1 x y] else None)
          else
            (case base64Value url c of
               Some z \<Rightarrow>
                 if padded \<and> d = CHR ''=''
                 then (if s = [] then Some [byte1 x y, byte2 y z] else None)
                 else
                   (case base64Value url d of
                      Some w \<Rightarrow> map_option (\<lambda>r. byte1 x y # byte2 y z # byte3 z w # r) (base64Decode url padded s)
                    | None \<Rightarrow> None)
             | None \<Rightarrow> None)
      | _ \<Rightarrow> None)"

definition base64Decodings :: "string \<Rightarrow> string list" where
  "base64Decodings m =
     concat (map (\<lambda>startTrim. concat (map (\<lambda>endTrim.
        if length m < startTrim + endTrim + 16 then []
        else
          (let candidate = take (length m - endTrim - startTrim) (drop startTrim m)
           in List.map_filter (\<lambda>(url, padded). base64Decode url padded candidate)
                [(False, True), (False, False), (True, True), (True, False)]))
       [0, 1, 2, 3])) [0, 1, 2, 3])"

definition maxCanonicalBytes :: int where
  "maxCanonicalBytes = 67108864"

definition maxCanonicalValues :: nat where
  "maxCanonicalValues = 256"

text \<open>\<open>None\<close> is the answer \<open>limited\<close>.\<close>

definition canonicalDecodings :: "string \<Rightarrow> string list option" where
  "canonicalDecodings v =
     (if int (length v) > maxCanonicalBytes then None
      else
        (let unescaped = (case pathUnescape v of Some d \<Rightarrow> if d \<noteq> v then [d] else [] | None \<Rightarrow> []);
             hexes = take (maxCanonicalValues + 1) (hexMatches v)
         in if length hexes > maxCanonicalValues then None
            else if list_ex (\<lambda>m. int (length m) > maxCanonicalBytes) hexes then None
            else
              (let base64s = take (maxCanonicalValues + 1) (base64Matches v)
               in if length base64s > maxCanonicalValues then None
                  else if list_ex (\<lambda>m. int (length m) > maxCanonicalBytes) base64s then None
                  else Some (unescaped @ concat (map hexDecodings hexes) @ concat (map base64Decodings base64s)))))"

section \<open>The scan\<close>

record finding =
  fi_code :: string
  fi_field :: string
  fi_fingerprint :: string

type_synonym effect_tokens = "string gomap"

definition effectCandidates :: "string \<Rightarrow> string list" where
  "effectCandidates v = filter (\<lambda>w. length w = 64 \<and> list_all isHexChar w) (runs isWordChar v)"

fun matchingCandidate :: "(string \<Rightarrow> string \<Rightarrow> string) \<Rightarrow> effect_tokens \<Rightarrow> string list \<Rightarrow> string" where
  "matchingCandidate hmac tokens [] = []"
| "matchingCandidate hmac tokens (w # ws) =
     (case find (\<lambda>(fingerprint, key). fingerprint = hmac key w) tokens of
        Some (fingerprint, _) \<Rightarrow> fingerprint
      | None \<Rightarrow> matchingCandidate hmac tokens ws)"

definition matchingEffectToken :: "(string \<Rightarrow> string \<Rightarrow> string) \<Rightarrow> effect_tokens \<Rightarrow> string \<Rightarrow> string" where
  "matchingEffectToken hmac tokens v = matchingCandidate hmac tokens (effectCandidates v)"

definition noFingerprint :: "string \<Rightarrow> string \<Rightarrow> finding" where
  "noFingerprint code field = \<lparr>fi_code = code, fi_field = field, fi_fingerprint = []\<rparr>"

text \<open>The loop over the decodings of one value; \<open>None\<close> when a bound is exceeded.\<close>

fun enqueueAll ::
  "string \<Rightarrow> nat \<Rightarrow> string list \<Rightarrow> (string \<times> nat) list \<Rightarrow> string list \<Rightarrow> int \<Rightarrow>
     ((string \<times> nat) list \<times> string list \<times> int) option" where
  "enqueueAll current depth [] queue seen totalBytes = Some (queue, seen, totalBytes)"
| "enqueueAll current depth (v # vs) queue seen totalBytes =
     (if v = [] \<or> v = current then enqueueAll current depth vs queue seen totalBytes
      else if v \<in> set seen then enqueueAll current depth vs queue seen totalBytes
      else if length seen \<ge> maxCanonicalValues \<or> totalBytes > maxCanonicalBytes - int (length v) then None
      else enqueueAll current depth vs (queue @ [(v, depth + 1)]) (v # seen) (totalBytes + int (length v)))"

lemma enqueueAll_measure:
  "enqueueAll current depth vs queue seen totalBytes = Some (queue', seen', totalBytes') \<Longrightarrow>
     length queue' + (maxCanonicalValues - length seen') \<le> length queue + (maxCanonicalValues - length seen)"
  by (induction vs arbitrary: queue seen totalBytes) (fastforce split: if_splits)+

function scanLoop ::
  "(string \<Rightarrow> string \<Rightarrow> string) \<Rightarrow> effect_tokens \<Rightarrow> string \<Rightarrow> (string \<times> nat) list \<Rightarrow> string list \<Rightarrow> int \<Rightarrow>
     finding option" where
  "scanLoop hmac tokens field [] seen totalBytes = None"
| "scanLoop hmac tokens field ((current, depth) # queue) seen totalBytes =
     (case detect current of
        Some code \<Rightarrow> Some (noFingerprint code field)
      | None \<Rightarrow>
          (let fingerprint = matchingEffectToken hmac tokens current in
           if fingerprint \<noteq> []
           then Some \<lparr>fi_code = ''effect_token_fingerprint'', fi_field = field, fi_fingerprint = fingerprint\<rparr>
           else if depth \<ge> 2 then scanLoop hmac tokens field queue seen totalBytes
           else
             (case canonicalDecodings current of
                None \<Rightarrow> Some (noFingerprint ''canonical_scan_limit_exceeded'' field)
              | Some decoded \<Rightarrow>
                  (case enqueueAll current depth decoded queue seen totalBytes of
                     None \<Rightarrow> Some (noFingerprint ''canonical_scan_limit_exceeded'' field)
                   | Some (queue', seen', totalBytes') \<Rightarrow> scanLoop hmac tokens field queue' seen' totalBytes'))))"
  by pat_completeness auto
termination
  by (relation "measure (\<lambda>(hmac, tokens, field, queue, seen, totalBytes). length queue + (maxCanonicalValues - length seen))")
     (auto dest!: enqueueAll_measure)

definition scanValue ::
  "(string \<Rightarrow> string \<Rightarrow> string) \<Rightarrow> effect_tokens \<Rightarrow> string \<Rightarrow> string \<Rightarrow> int \<Rightarrow> finding option" where
  "scanValue hmac tokens field v rawLimit =
     (if int (length v) > rawLimit then Some (noFingerprint ''scan_limit_exceeded'' field)
      else scanLoop hmac tokens field [(v, 0)] [v] (int (length v)))"

definition maxFieldBytes :: int where
  "maxFieldBytes = 1048576"

text \<open>The loop over the segments: a finding, or the concatenation.\<close>

fun scanSegments ::
  "(string \<Rightarrow> string \<Rightarrow> string) \<Rightarrow> effect_tokens \<Rightarrow> (string \<times> string) list \<Rightarrow> string \<Rightarrow> finding + string" where
  "scanSegments hmac tokens [] combined = Inr combined"
| "scanSegments hmac tokens ((name, v) # segments) combined =
     (case scanValue hmac tokens name v maxFieldBytes of
        Some found \<Rightarrow> Inl found
      | None \<Rightarrow>
          if int (length combined) > maxFieldBytes - int (length v)
          then Inl (noFingerprint ''scan_limit_exceeded'' ''field_sequence'')
          else scanSegments hmac tokens segments (combined @ v))"

definition scanSequence ::
  "(string \<Rightarrow> string \<Rightarrow> string) \<Rightarrow> effect_tokens \<Rightarrow> (string \<times> string) list \<Rightarrow> finding option" where
  "scanSequence hmac tokens segments =
     (case scanSegments hmac tokens segments [] of
        Inl found \<Rightarrow> Some found
      | Inr combined \<Rightarrow>
          if length segments > 1 then scanValue hmac tokens ''field_sequence'' combined maxFieldBytes else None)"

definition scanFields ::
  "(string \<Rightarrow> string \<Rightarrow> string) \<Rightarrow> effect_tokens \<Rightarrow> string gomap \<Rightarrow> finding option" where
  "scanFields hmac tokens fs =
     scanSequence hmac tokens (map (\<lambda>name. (name, gstr fs name)) (sort (map fst fs)))"

text \<open>A reader either fails or gives a value, of which at most \<open>maxBytes + 1\<close> bytes are read.\<close>

definition scanReader ::
  "(string \<Rightarrow> string \<Rightarrow> string) \<Rightarrow> effect_tokens \<Rightarrow> string \<Rightarrow> string option \<Rightarrow> int \<Rightarrow> finding option" where
  "scanReader hmac tokens field source maxBytes0 =
     (let maxBytes = (if maxBytes0 \<le> 0 \<or> maxBytes0 > 16777216 then 16777216 else maxBytes0) in
      case source of
        None \<Rightarrow> Some (noFingerprint ''scan_limit_exceeded'' field)
      | Some whole \<Rightarrow>
          (let v = take (nat (maxBytes + 1)) whole in
           if int (length v) > maxBytes then Some (noFingerprint ''scan_limit_exceeded'' field)
           else scanValue hmac tokens field v maxBytes))"

section \<open>Searching is substring search\<close>

lemma re_search_iff:
  "re_search b r s \<longleftrightarrow>
     (\<exists>u m v. s = u @ m @ v \<and> re_acc r m \<and> (b \<longrightarrow> wordBoundary u (m @ v) \<and> wordBoundary (u @ m) v))"
proof
  assume "re_search b r s"
  then obtain i n where
    "b \<longrightarrow> wordBoundary (take i s) (drop i s) \<and> wordBoundary (take (i + n) s) (drop (i + n) s)"
    "re_match r (take n (drop i s))"
    unfolding re_search_def list_ex_iff by blast
  moreover have "s = take i s @ take n (drop i s) @ drop (i + n) s"
    by (metis append_take_drop_id drop_drop add.commute)
  moreover have "take (i + n) s = take i s @ take n (drop i s)" "drop i s = take n (drop i s) @ drop (i + n) s"
    by (simp_all add: take_add drop_drop add.commute [of n] append_take_drop_id [of n "drop i s", unfolded drop_drop add.commute [of n]])
  ultimately show "\<exists>u m v. s = u @ m @ v \<and> re_acc r m \<and> (b \<longrightarrow> wordBoundary u (m @ v) \<and> wordBoundary (u @ m) v)"
    by (intro exI [of _ "take i s"] exI [of _ "take n (drop i s)"] exI [of _ "drop (i + n) s"])
       (simp add: re_match_iff)
next
  assume "\<exists>u m v. s = u @ m @ v \<and> re_acc r m \<and> (b \<longrightarrow> wordBoundary u (m @ v) \<and> wordBoundary (u @ m) v)"
  then obtain u m v where uv: "s = u @ m @ v" "re_match r m"
    "b \<longrightarrow> wordBoundary u (m @ v) \<and> wordBoundary (u @ m) v" by (auto simp: re_match_iff)
  have "\<exists>n \<in> set [0..<Suc (length s - length u)].
      (b \<longrightarrow> wordBoundary (take (length u) s) (drop (length u) s) \<and>
             wordBoundary (take (length u + n) s) (drop (length u + n) s)) \<and> re_match r (take n (drop (length u) s))"
    using uv by (intro bexI [of _ "length m"]) (auto simp del: upt_Suc)
  moreover have "length u \<in> set [0..<Suc (length s)]" using uv(1) by (simp del: upt_Suc)
  ultimately show "re_search b r s" unfolding re_search_def list_ex_iff by blast
qed

text \<open>A value in which no detector finds anything, and no registered token.\<close>

definition clean :: "(string \<Rightarrow> string \<Rightarrow> string) \<Rightarrow> effect_tokens \<Rightarrow> string \<Rightarrow> bool" where
  "clean hmac tokens v \<longleftrightarrow> detect v = None \<and> matchingEffectToken hmac tokens v = []"

lemma detect_None_iff: "detect v = None \<longleftrightarrow> (\<forall>(code, b, r) \<in> set detectors. \<not> re_search b r v)"
  by (auto simp: detect_def find_None_iff)

lemma detect_Nil: "detect [] = None"
  by code_simp

lemma clean_Nil: "clean hmac tokens []"
  by (simp add: clean_def detect_Nil matchingEffectToken_def effectCandidates_def)

section \<open>What the loop has looked at when it finds nothing\<close>

lemma enqueueAll_keeps:
  "enqueueAll current depth vs queue seen totalBytes = Some (queue', seen', totalBytes') \<Longrightarrow>
     set queue \<subseteq> set queue' \<and> set seen \<subseteq> set seen' \<and>
     (\<forall>v \<in> set vs. v = [] \<or> v = current \<or> v \<in> set seen \<or> (v, depth + 1) \<in> set queue') \<and>
     (\<forall>v \<in> set seen' - set seen. (v, depth + 1) \<in> set queue')"
proof (induction vs arbitrary: queue seen totalBytes)
  case (Cons v vs)
  show ?case
  proof (cases "v = [] \<or> v = current \<or> v \<in> set seen")
    case True
    then have "enqueueAll current depth vs queue seen totalBytes = Some (queue', seen', totalBytes')"
      using Cons.prems by (auto split: if_splits)
    from Cons.IH [OF this] True show ?thesis by auto
  next
    case False
    then have "enqueueAll current depth vs (queue @ [(v, depth + 1)]) (v # seen) (totalBytes + int (length v)) =
        Some (queue', seen', totalBytes')"
      using Cons.prems by (auto split: if_splits)
    from Cons.IH [OF this] False show ?thesis by auto
  qed
qed simp

lemma scanLoop_NoneD:
  assumes "scanLoop hmac tokens field ((current, depth) # queue) seen totalBytes = None"
  shows "clean hmac tokens current \<and>
    (if depth \<ge> 2 then scanLoop hmac tokens field queue seen totalBytes = None
     else \<exists>decoded queue' seen' totalBytes'.
       canonicalDecodings current = Some decoded \<and>
       enqueueAll current depth decoded queue seen totalBytes = Some (queue', seen', totalBytes') \<and>
       scanLoop hmac tokens field queue' seen' totalBytes' = None)"
  using assms by (auto simp: clean_def Let_def split: option.splits if_splits)

lemma scanLoop_clean:
  "scanLoop hmac tokens field queue seen totalBytes = None \<Longrightarrow> (v, d) \<in> set queue \<Longrightarrow> clean hmac tokens v"
proof (induction hmac tokens field queue seen totalBytes arbitrary: v d rule: scanLoop.induct)
  case (2 hmac tokens field current depth queue seen totalBytes)
  note step = scanLoop_NoneD [OF "2.prems"(1)]
  have notfound: "detect current = None" "matchingEffectToken hmac tokens current = []"
    using step by (auto simp: clean_def)
  show ?case
  proof (cases "(v, d) \<in> set queue")
    case False
    then show ?thesis using "2.prems"(2) step by auto
  next
    case True
    show ?thesis
    proof (cases "depth \<ge> 2")
      case deep: True
      with step True show ?thesis using "2.IH"(1) [OF notfound(1) refl _ deep] notfound(2) by auto
    next
      case False
      then obtain decoded queue' seen' t' where next': "canonicalDecodings current = Some decoded"
        "enqueueAll current depth decoded queue seen totalBytes = Some (queue', seen', t')"
        "scanLoop hmac tokens field queue' seen' t' = None"
        using step by auto
      have "(v, d) \<in> set queue'" using enqueueAll_keeps [OF next'(2)] True by blast
      with "2.IH"(2) [OF notfound(1) refl _ False next'(1) next'(2) refl refl next'(3)] notfound(2) show ?thesis by simp
    qed
  qed
qed simp

text \<open>A queue entry above the last level has all its decodings clean, when what was seen before and is no
  longer queued is clean.\<close>

lemma scanLoop_decodings_clean:
  "scanLoop hmac tokens field queue seen totalBytes = None \<Longrightarrow> (v, d) \<in> set queue \<Longrightarrow> d < 2 \<Longrightarrow>
     \<forall>w \<in> set seen. w \<in> fst ` set queue \<or> clean hmac tokens w \<Longrightarrow>
     \<exists>decoded. canonicalDecodings v = Some decoded \<and> (\<forall>w \<in> set decoded. clean hmac tokens w)"
proof (induction hmac tokens field queue seen totalBytes arbitrary: v d rule: scanLoop.induct)
  case (2 hmac tokens field current depth queue seen totalBytes)
  note step = scanLoop_NoneD [OF "2.prems"(1)]
  have notfound: "detect current = None" "matchingEffectToken hmac tokens current = []"
    using step by (auto simp: clean_def)
  have seen: "\<forall>w \<in> set seen. w \<in> fst ` set queue \<or> clean hmac tokens w" using "2.prems"(4) step by auto
  show ?case
  proof (cases "depth \<ge> 2")
    case deep: True
    then have "(v, d) \<in> set queue" using "2.prems"(2,3) by auto
    with step deep seen show ?thesis using "2.IH"(1) [OF notfound(1) refl _ deep] notfound(2) "2.prems"(3) by auto
  next
    case False
    then obtain decoded queue' seen' t' where next': "canonicalDecodings current = Some decoded"
      "enqueueAll current depth decoded queue seen totalBytes = Some (queue', seen', t')"
      "scanLoop hmac tokens field queue' seen' t' = None"
      using step by auto
    note keeps = enqueueAll_keeps [OF next'(2)]
    have queue': "clean hmac tokens w" if "w \<in> fst ` set queue'" for w
      using that scanLoop_clean [OF next'(3)] by auto
    have seen_clean: "clean hmac tokens w" if "w \<in> set seen" for w
      using seen that keeps queue' by fastforce
    show ?thesis
    proof (cases "(v, d) \<in> set queue")
      case True
      then have "(v, d) \<in> set queue'" using keeps by blast
      moreover have "\<forall>w \<in> set seen'. w \<in> fst ` set queue' \<or> clean hmac tokens w"
      proof
        fix w
        assume "w \<in> set seen'"
        then have "w \<in> set seen \<or> (w, depth + 1) \<in> set queue'" using keeps by blast
        then show "w \<in> fst ` set queue' \<or> clean hmac tokens w" using seen_clean by (metis fst_conv image_eqI)
      qed
      ultimately show ?thesis
        using "2.IH"(2) [OF notfound(1) refl _ False next'(1) next'(2) refl refl next'(3)] notfound(2) "2.prems"(3) by simp
    next
      case False
      then have v: "v = current" "d = depth" using "2.prems"(2) by auto
      have "clean hmac tokens w" if w: "w \<in> set decoded" for w
      proof -
        consider "w = []" | "w = current" | "w \<in> set seen" | "(w, depth + 1) \<in> set queue'"
          using keeps w by blast
        then show ?thesis
        proof cases
          case 1
          then show ?thesis by (simp add: clean_Nil)
        next
          case 2
          then show ?thesis using notfound by (simp add: clean_def)
        next
          case 3
          then show ?thesis by (rule seen_clean)
        next
          case 4
          then show ?thesis by (rule scanLoop_clean [OF next'(3)])
        qed
      qed
      with next'(1) v show ?thesis by blast
    qed
  qed
qed simp

text \<open>A value and everything it decodes to in at most \<open>n\<close> steps is clean.\<close>

fun deep_clean :: "(string \<Rightarrow> string \<Rightarrow> string) \<Rightarrow> effect_tokens \<Rightarrow> nat \<Rightarrow> string \<Rightarrow> bool" where
  "deep_clean hmac tokens 0 v = clean hmac tokens v"
| "deep_clean hmac tokens (Suc n) v =
     (clean hmac tokens v \<and>
      (\<exists>decoded. canonicalDecodings v = Some decoded \<and> (\<forall>w \<in> set decoded. w = [] \<or> w = v \<or> deep_clean hmac tokens n w)))"

lemma scanValue_deep_clean:
  assumes "scanValue hmac tokens field v limit = None"
  shows "int (length v) \<le> limit \<and> deep_clean hmac tokens 2 v"
proof -
  have len: "int (length v) \<le> limit" and loop: "scanLoop hmac tokens field [(v, 0)] [v] (int (length v)) = None"
    using assms by (auto simp: scanValue_def split: if_splits)
  obtain decoded queue seen t where dec: "canonicalDecodings v = Some decoded"
    "enqueueAll v 0 decoded [] [v] (int (length v)) = Some (queue, seen, t)"
    "scanLoop hmac tokens field queue seen t = None" and cv: "clean hmac tokens v"
    using scanLoop_NoneD [OF loop] by auto
  note keeps = enqueueAll_keeps [OF dec(2)]
  have seen: "\<forall>w \<in> set seen. w \<in> fst ` set queue \<or> clean hmac tokens w"
  proof
    fix w
    assume "w \<in> set seen"
    then have "w = v \<or> (w, 0 + 1) \<in> set queue" using keeps by auto
    then show "w \<in> fst ` set queue \<or> clean hmac tokens w" using cv by (metis fst_conv image_eqI)
  qed
  have "deep_clean hmac tokens 1 w" if "w \<in> set decoded" "w \<noteq> []" "w \<noteq> v" for w
  proof -
    have w: "(w, 1) \<in> set queue" using that keeps by auto
    obtain decs where "canonicalDecodings w = Some decs" "\<forall>x \<in> set decs. clean hmac tokens x"
      using scanLoop_decodings_clean [OF dec(3) w _ seen] by auto
    then show ?thesis using scanLoop_clean [OF dec(3) w] by (simp add: One_nat_def)
  qed
  then show ?thesis using len cv dec(1) by (auto simp: numeral_2_eq_2)
qed

lemma scanSegments_Inr:
  "scanSegments hmac tokens segments combined = Inr c \<Longrightarrow>
     c = combined @ concat (map snd segments) \<and>
     (\<forall>(name, v) \<in> set segments. scanValue hmac tokens name v maxFieldBytes = None)"
proof (induction segments arbitrary: combined)
  case (Cons seg segments)
  obtain name v where seg: "seg = (name, v)" by (cases seg)
  then have "scanValue hmac tokens name v maxFieldBytes = None" "scanSegments hmac tokens segments (combined @ v) = Inr c"
    using Cons.prems by (auto split: option.splits if_splits)
  with Cons.IH [OF this(2)] seg show ?case by auto
qed simp

text \<open>The number of rounds of the loop, as a reference with fuel: \<open>None\<close> is running out of it.\<close>

fun scanRounds ::
  "nat \<Rightarrow> (string \<Rightarrow> string \<Rightarrow> string) \<Rightarrow> effect_tokens \<Rightarrow> string \<Rightarrow> (string \<times> nat) list \<Rightarrow> string list \<Rightarrow> int \<Rightarrow>
     finding option option" where
  "scanRounds n hmac tokens field [] seen totalBytes = Some None"
| "scanRounds 0 hmac tokens field (q # queue) seen totalBytes = None"
| "scanRounds (Suc n) hmac tokens field ((current, depth) # queue) seen totalBytes =
     (case detect current of
        Some code \<Rightarrow> Some (Some (noFingerprint code field))
      | None \<Rightarrow>
          (let fingerprint = matchingEffectToken hmac tokens current in
           if fingerprint \<noteq> []
           then Some (Some \<lparr>fi_code = ''effect_token_fingerprint'', fi_field = field, fi_fingerprint = fingerprint\<rparr>)
           else if depth \<ge> 2 then scanRounds n hmac tokens field queue seen totalBytes
           else
             (case canonicalDecodings current of
                None \<Rightarrow> Some (Some (noFingerprint ''canonical_scan_limit_exceeded'' field))
              | Some decoded \<Rightarrow>
                  (case enqueueAll current depth decoded queue seen totalBytes of
                     None \<Rightarrow> Some (Some (noFingerprint ''canonical_scan_limit_exceeded'' field))
                   | Some (queue', seen', totalBytes') \<Rightarrow> scanRounds n hmac tokens field queue' seen' totalBytes'))))"

lemma scanRounds_enough:
  "length queue + (maxCanonicalValues - length seen) \<le> n \<Longrightarrow>
     scanRounds n hmac tokens field queue seen totalBytes = Some (scanLoop hmac tokens field queue seen totalBytes)"
proof (induction n arbitrary: queue seen totalBytes)
  case 0
  then show ?case by simp
next
  case (Suc n)
  show ?case
  proof (cases queue)
    case (Cons q queue0)
    obtain current depth where q: "q = (current, depth)" by (cases q)
    have "scanRounds n hmac tokens field queue' seen' t' = Some (scanLoop hmac tokens field queue' seen' t')"
      if "enqueueAll current depth decoded queue0 seen totalBytes = Some (queue', seen', t')" for decoded queue' seen' t'
      using Suc.IH enqueueAll_measure [OF that] Suc.prems Cons by simp
    moreover have "scanRounds n hmac tokens field queue0 seen totalBytes = Some (scanLoop hmac tokens field queue0 seen totalBytes)"
      using Suc Cons by simp
    ultimately show ?thesis
      using Cons q by (auto simp: Let_def split: option.splits)
  qed simp
qed

section \<open>Properties\<close>

text \<open>C19. When the scan of a sequence of texts finds nothing, no detector matches anywhere in any of the
  texts, nor in their concatenation, so that a credential split over adjacent fields is seen; and the same
  holds for whatever they decode to in one or two steps.\<close>

theorem scan_lets_no_credential_through:
  assumes "scanSequence hmac tokens segments = None"
  shows "(\<forall>(name, v) \<in> set segments. deep_clean hmac tokens 2 v) \<and>
         (1 < length segments \<longrightarrow> deep_clean hmac tokens 2 (concat (map snd segments))) \<and>
         (\<forall>(code, bounded, r) \<in> set detectors. \<forall>(name, v) \<in> set segments.
            \<not> (\<exists>u m t. v = u @ m @ t \<and> re_acc r m \<and>
                 (bounded \<longrightarrow> wordBoundary u (m @ t) \<and> wordBoundary (u @ m) t)))"
proof -
  obtain c where c: "scanSegments hmac tokens segments [] = Inr c"
    "1 < length segments \<longrightarrow> scanValue hmac tokens ''field_sequence'' c maxFieldBytes = None"
    using assms by (auto simp: scanSequence_def split: sum.splits if_splits)
  note segs = scanSegments_Inr [OF c(1)]
  have each: "deep_clean hmac tokens 2 v" if "(name, v) \<in> set segments" for name v
    using segs that scanValue_deep_clean by fastforce
  have "\<not> re_search b r v" if "(code, b, r) \<in> set detectors" "(name, v) \<in> set segments" for code b r name v
  proof -
    have "clean hmac tokens v" using each [OF that(2)] by (simp add: numeral_2_eq_2)
    then show ?thesis using that(1) by (auto simp: clean_def detect_None_iff)
  qed
  then have "\<forall>(code, bounded, r) \<in> set detectors. \<forall>(name, v) \<in> set segments. \<not> re_search bounded r v" by blast
  moreover have "1 < length segments \<longrightarrow> deep_clean hmac tokens 2 (concat (map snd segments))"
    using segs c(2) scanValue_deep_clean by fastforce
  ultimately show ?thesis using each unfolding re_search_iff by blast
qed

theorem scan_lets_no_credential_through_witness:
  "deep_clean (\<lambda>k w. []) [] 2 ''ok''"
proof -
  have "scanSequence (\<lambda>k w. []) [] [(''title'', ''ok'')] = None" by code_simp
  from scan_lets_no_credential_through [OF this] show ?thesis by simp
qed

text \<open>C20. The scan of a value ends after at most 256 rounds of its loop, however the value decodes: with
  that many rounds of fuel the reference gives the result of the loop.\<close>

theorem scan_ends_within_256_rounds:
  "scanRounds 256 hmac tokens field [(v, 0)] [v] (int (length v)) =
     Some (scanLoop hmac tokens field [(v, 0)] [v] (int (length v)))"
  by (rule scanRounds_enough) (simp add: maxCanonicalValues_def)

end
