(* ===== verification/Server_Base.thy ===== *)
theory Server_Base
  imports Policy Agent_Auth Limits Idempotency Security_Scan
begin

text \<open>
  What the mutating handlers of the server share (\<open>src/internal/server/server.go\<close>): the state they
  work on, the steps before a mutation (egress scan, branch lifecycle guard, mutation budget), and the
  answers through the idempotency records.

  The GitHub client, with the service behind it, is a record of operations on a state \<open>'g\<close>. Every call may
  fail and may change that state, so that the state can also stand for what others do on GitHub in the
  meantime. The audit trail is the list of the events handed to the logger, which redacts and writes them;
  their free-form extra fields are left out. Of an error only its kind is kept, not its text. The configuration
  is one snapshot: a reload does not happen in the middle of a request.
\<close>

section \<open>GitHub\<close>

record github_result =
  gr_url :: string
  gr_htmlURL :: string
  gr_number :: int
  gr_id :: int
  gr_createdAt :: string

record pull_summary =
  ps_number :: int
  ps_state :: string
  ps_title :: string
  ps_body :: string
  ps_headRef :: string
  ps_baseRef :: string
  ps_merged :: bool
  ps_mergedAt :: string
  ps_url :: string
  ps_htmlURL :: string

record issue_comment =
  co_commentID :: int
  co_commentBody :: string
  co_commentAuthor :: string
  co_commentURL :: string
  co_commentHTMLURL :: string
  co_commentCreatedAt :: string
  co_commentTime :: "gotime option"

record pull_args =
  pa_title :: string
  pa_head :: string
  pa_base :: string
  pa_body :: string
  pa_draft :: bool

text \<open>The first arguments of each operation are the App, the repository and the installation.\<close>

record 'g github =
  hub_createPull :: "string \<Rightarrow> string \<Rightarrow> int \<Rightarrow> pull_args \<Rightarrow> 'g \<Rightarrow> (string + github_result) \<times> 'g"
  hub_getPull :: "string \<Rightarrow> string \<Rightarrow> int \<Rightarrow> int \<Rightarrow> 'g \<Rightarrow> (string + pull_summary) \<times> 'g"
  hub_listPulls :: "string \<Rightarrow> string \<Rightarrow> int \<Rightarrow> (string \<times> string) list \<Rightarrow> 'g \<Rightarrow> (string + pull_summary list) \<times> 'g"
  hub_createIssue :: "string \<Rightarrow> string \<Rightarrow> int \<Rightarrow> string \<Rightarrow> string \<Rightarrow> string list \<Rightarrow> 'g \<Rightarrow> (string + github_result) \<times> 'g"
  hub_createIssueComment :: "string \<Rightarrow> string \<Rightarrow> int \<Rightarrow> string \<Rightarrow> string \<Rightarrow> 'g \<Rightarrow> (string + github_result) \<times> 'g"
  hub_listIssueComments :: "string \<Rightarrow> string \<Rightarrow> int \<Rightarrow> int \<Rightarrow> int \<Rightarrow> 'g \<Rightarrow> (string + issue_comment list) \<times> 'g"

text \<open>The JSON of a result, whose fields are left out when empty.\<close>

definition resultJSON :: "github_result \<Rightarrow> json" where
  "resultJSON r =
     JObj ((if gr_url r = [] then [] else [(''url'', JStr (gr_url r))]) @
           (if gr_htmlURL r = [] then [] else [(''html_url'', JStr (gr_htmlURL r))]) @
           (if gr_number r = 0 then [] else [(''number'', JNum (gr_number r))]) @
           (if gr_id r = 0 then [] else [(''id'', JNum (gr_id r))]) @
           (if gr_createdAt r = [] then [] else [(''created_at'', JStr (gr_createdAt r))]))"

section \<open>State, audit trail and responses\<close>

datatype audit_error = AuNone | AuText string | AuFile file_error | AuGitHub string | AuOther

record audit_event =
  au_operationID :: string
  au_agentID :: string
  au_operation :: string
  au_repo :: string
  au_branch :: string
  au_runID :: string
  au_permissions :: "string list"
  au_decision :: decision
  au_url :: string
  au_result :: string
  au_error :: audit_error

record 'g server_state =
  sv_limits :: "limits_state jfile"
  sv_idem :: "idem_state jfile"
  sv_github :: 'g
  sv_audit :: "audit_event list"

datatype broker_response =
    AuthChallenge
  | ErrorResponse int string decision "policy_result option"
  | OKResult int github_result
  | ReplayResponse int "json option"
  | StoredResponse int json
  | EmptyResponse

text \<open>A handler that returns without writing makes the HTTP server answer 200 with an empty body:
  \<open>EmptyResponse\<close>.\<close>

text \<open>What one request meets: its operation id, the faults and clocks of its calls to the stores.\<close>

record request_env =
  en_opID :: string
  en_limitFaults :: faults
  en_reserveFaults :: faults
  en_reserveNow :: gotime
  en_storeFaults :: faults
  en_storeNow :: gotime

text \<open>The libraries the handlers call: regular expressions of the configuration, HMAC and the registered
  effect tokens of the scan, and the hexadecimal SHA-256 of a byte string.\<close>

record server_libs =
  li_regexps :: regexps
  li_hmac :: "string \<Rightarrow> string \<Rightarrow> string"
  li_tokens :: effect_tokens
  li_sha256 :: "string \<Rightarrow> string"

definition auditEvent :: "string \<Rightarrow> string \<Rightarrow> string \<Rightarrow> string \<Rightarrow> string \<Rightarrow> decision \<Rightarrow> audit_event" where
  "auditEvent opID agentID operation repo branch d =
     \<lparr>au_operationID = opID, au_agentID = agentID, au_operation = operation, au_repo = repo, au_branch = branch,
      au_runID = [], au_permissions = [], au_decision = d, au_url = [], au_result = [], au_error = AuNone\<rparr>"

definition logEvent :: "audit_event \<Rightarrow> 'g server_state \<Rightarrow> 'g server_state" where
  "logEvent ev s = s\<lparr>sv_audit := sv_audit s @ [ev]\<rparr>"

definition errorResponse :: "int \<Rightarrow> string \<Rightarrow> policy_result option \<Rightarrow> broker_response" where
  "errorResponse status code res =
     (case res of
        None \<Rightarrow> ErrorResponse status code DecisionDeny None
      | Some r \<Rightarrow> ErrorResponse status code (res_decision r) (Some r))"

section \<open>Before a mutation\<close>

text \<open>Each step gives a response that ends the request, or none and lets it go on.\<close>

definition blockUnsafeEgress ::
  "server_libs \<Rightarrow> string \<Rightarrow> string \<Rightarrow> string \<Rightarrow> string \<Rightarrow> (string \<times> string) list \<Rightarrow> 'g server_state \<Rightarrow>
     broker_response option \<times> 'g server_state" where
  "blockUnsafeEgress lib opID agentID repo operation segs s =
     (case scanSequence (li_hmac lib) (li_tokens lib) segs of
        None \<Rightarrow> (None, s)
      | Some found \<Rightarrow>
          (Some (ErrorResponse 422 ''security_egress_blocked'' DecisionDeny None),
           logEvent ((auditEvent opID agentID ''security.egress_blocked'' repo [] DecisionDeny)\<lparr>au_result := fi_code found\<rparr>) s))"

definition reasonText :: "limit_reason \<Rightarrow> string" where
  "reasonText r =
     (case r of
        NoReason \<Rightarrow> []
      | RunFieldRequired field \<Rightarrow> ''mutation budget requires metadata field '' @ [CHR 0x22] @ field @ [CHR 0x22]
      | RunBudgetExhausted \<Rightarrow> ''per-run new GitHub object budget exhausted''
      | ClassBudgetExhausted cls \<Rightarrow> ''per-run '' @ cls @ '' GitHub object budget exhausted'')"

definition budgetCheck :: "limit_decision \<Rightarrow> policy_result" where
  "budgetCheck d =
     \<lparr>res_allowed = False, res_decision = DecisionDeny,
      res_failedChecks =
        [\<lparr>fc_dimension = ''mutation_budget'', fc_field = [], fc_location = [],
          fc_expected = ''available per-run GitHub object budget'', fc_actual = ''exhausted'', fc_safeToDisplay = True,
          fc_message = PlainMessage (reasonText (ld_reason d))\<rparr>],
      res_warnings = [],
      res_requiredChanges = [\<lparr>rc_field = [], rc_location = [], rc_action = ''defer this valid action to the next Curator run''\<rparr>]\<rparr>"

definition reserveMutation ::
  "broker_config \<Rightarrow> request_env \<Rightarrow> string \<Rightarrow> string \<Rightarrow> string \<Rightarrow> string \<Rightarrow> string gomap \<Rightarrow> 'g server_state \<Rightarrow>
     broker_response option \<times> 'g server_state" where
  "reserveMutation cfg en agentID operation repo branch metadata s =
     (case CheckAndReserve (en_limitFaults en) (bc_mutationLimits cfg) operation metadata (sv_limits s) of
        (Inl e, fl) \<Rightarrow>
          (Some (ErrorResponse 500 ''mutation_limit_error'' DecisionDeny None),
           logEvent ((auditEvent (en_opID en) agentID operation repo branch DecisionDeny)\<lparr>au_error := AuFile e\<rparr>)
             (s\<lparr>sv_limits := fl\<rparr>))
      | (Inr d, fl) \<Rightarrow>
          if ld_allowed d then (None, s\<lparr>sv_limits := fl\<rparr>)
          else
            (Some (ErrorResponse 429 ''capacity_deferred'' DecisionDeny (Some (budgetCheck d))),
             logEvent ((auditEvent (en_opID en) agentID operation repo branch DecisionDeny)
                 \<lparr>au_runID := ld_runID d, au_result := ''capacity_deferred''\<rparr>) (s\<lparr>sv_limits := fl\<rparr>)))"

section \<open>The branch lifecycle guard\<close>

definition lifecycleCheck :: "string \<Rightarrow> string \<Rightarrow> string \<Rightarrow> string \<Rightarrow> failed_check" where
  "lifecycleCheck location expected actual message =
     \<lparr>fc_dimension = ''branch_lifecycle'', fc_field = [], fc_location = location, fc_expected = expected,
      fc_actual = actual, fc_safeToDisplay = True, fc_message = PlainMessage message\<rparr>"

definition guardVerdict :: "string \<Rightarrow> failed_check \<Rightarrow> string \<Rightarrow> policy_result" where
  "guardVerdict mode chk action =
     (if mode = ''warn''
      then \<lparr>res_allowed = True, res_decision = DecisionWarn, res_failedChecks = [], res_warnings = [chk],
            res_requiredChanges = []\<rparr>
      else \<lparr>res_allowed = False, res_decision = DecisionDeny, res_failedChecks = [chk], res_warnings = [],
            res_requiredChanges = [\<lparr>rc_field = [], rc_location = ''branch'', rc_action = action\<rparr>]\<rparr>)"

definition staleText :: "pull_summary \<Rightarrow> string" where
  "staleText p =
     (let merged = (if ps_merged p then ''merged''
                    else if ps_mergedAt p = [] then ''merged status unavailable'' else ''not merged'')
      in ''PR #'' @ formatInt (ps_number p) @ '' is '' @ ps_state p @ '' ('' @ merged @ ''): '' @ ps_htmlURL p)"

fun stalePull :: "string \<Rightarrow> string list \<Rightarrow> pull_summary list \<Rightarrow> pull_summary option" where
  "stalePull branchName staleStates [] = None"
| "stalePull branchName staleStates (p # ps) =
     (if ps_headRef p \<noteq> branchName \<or> \<not> containsFold staleStates (ps_state p)
      then stalePull branchName staleStates ps else Some p)"

definition checkBranchLifecycle ::
  "'g github \<Rightarrow> string \<Rightarrow> int \<Rightarrow> string \<Rightarrow> string \<Rightarrow> string \<Rightarrow> agent \<Rightarrow> 'g \<Rightarrow> policy_result option \<times> 'g" where
  "checkBranchLifecycle hub appName inst repo branch operation ag g =
     (let guard = ag_branchGuard ag;
          mode = toLower (trimSpace (bg_mode guard));
          operations = (if bg_operations guard = [] then [''git.receive-pack'', ''pull.create''] else bg_operations guard);
          staleStates = (if bg_stalePRStates guard = [] then [''closed''] else bg_stalePRStates guard)
      in if mode = [] \<or> mode = ''off'' \<or> \<not> containsItem operations operation then (None, g)
         else
           (let branchName = trimPrefix branch ''refs/heads/'' in
            if branchName = [] then (None, g)
            else case cutSlash repo of
              None \<Rightarrow> (None, g)
            | Some (own, _) \<Rightarrow>
                if own = [] then (None, g)
                else
                  case hub_listPulls hub appName repo inst
                         [(''state'', ''all''), (''head'', own @ '':'' @ branchName), (''sort'', ''updated''),
                          (''direction'', ''desc''), (''per_page'', ''100'')] g of
                    (Inl _, g') \<Rightarrow>
                      (Some (guardVerdict mode
                         (lifecycleCheck ''github'' ''verifiable pull request state for branch'' ''lookup failed''
                            ''broker could not verify whether this branch has already backed a closed pull request'')
                         ''retry after branch lifecycle state can be verified or use a fresh agent branch''), g')
                  | (Inr pulls, g') \<Rightarrow>
                      (case stalePull branchName staleStates pulls of
                         None \<Rightarrow> (None, g')
                       | Some p \<Rightarrow>
                           (Some (guardVerdict mode
                              (lifecycleCheck ''branch'' ''branch with no closed pull request history'' (staleText p)
                                 ''branch has already backed a closed pull request; create a fresh agent branch for follow-up work'')
                              ''create and push a fresh branch matching the agent branch policy''), g'))))"

section \<open>Answers through the idempotency records\<close>

definition idempotencyHeader :: "http_request \<Rightarrow> string" where
  "idempotencyHeader r = trimSpace (hr_header r ''Idempotency-Key'')"

definition exactRecord :: "string \<Rightarrow> string \<Rightarrow> int \<Rightarrow> json \<Rightarrow> idem_record" where
  "exactRecord operation digest status body =
     zeroRecord\<lparr>ir_operation := operation, ir_requestDigest := digest, ir_status := status, ir_body := Some body\<rparr>"

definition writeExactIdempotentJSON ::
  "request_env \<Rightarrow> idempotency_config \<Rightarrow> string \<Rightarrow> string \<Rightarrow> string \<Rightarrow> int \<Rightarrow> json \<Rightarrow> 'g server_state \<Rightarrow>
     (file_error + broker_response) \<times> 'g server_state" where
  "writeExactIdempotentJSON en cfg key operation digest status body s =
     (case StoreRecord (en_storeFaults en) (en_storeNow en) cfg key (exactRecord operation digest status body) (sv_idem s) of
        (Inl e, fl) \<Rightarrow> (Inl e, s\<lparr>sv_idem := fl\<rparr>)
      | (Inr _, fl) \<Rightarrow> (Inr (StoredResponse status body), s\<lparr>sv_idem := fl\<rparr>))"

section \<open>The record of one key\<close>

text \<open>\<open>None\<close> for a file that cannot be read.\<close>

definition idem_get :: "idem_state jfile \<Rightarrow> string \<Rightarrow> idem_record option option" where
  "idem_get fl key = (case idem_readState fl of Inl _ \<Rightarrow> None | Inr st \<Rightarrow> Some (gget st key))"

lemma idem_get_Some: "idem_get fl key = Some x \<Longrightarrow> \<exists>st. idem_readState fl = Inr st \<and> gget st key = x"
  by (auto simp: idem_get_def split: sum.splits)

lemma reserve_found:
  assumes "idem_get fl key = Some (Some rec)" "ic_statePath cfg \<noteq> []" "key \<noteq> []" "ir_operation rec = operation"
    "ir_requestDigest rec = digest" "digest \<noteq> []"
  shows "ReserveExact f now cfg key operation digest body fl =
    (Inr \<lparr>ra_record = rec, ra_found = True, ra_conflict = False\<rparr>, fl)"
  using idem_get_Some [OF assms(1)] assms(2-6) by (auto simp: ReserveExact_def)

lemma reserve_new:
  assumes "idem_get fl key = Some None" "ic_statePath cfg \<noteq> []" "key \<noteq> []"
    "ReserveExact f now cfg key operation digest body fl = (r, fl')"
  shows "(\<exists>e. r = Inl e \<and> fl' = fl) \<or>
    (\<exists>rec rec'. r = Inr \<lparr>ra_record = rec, ra_found = False, ra_conflict = False\<rparr> \<and> idem_get fl' key = Some (Some rec') \<and>
       ir_operation rec' = operation \<and> ir_requestDigest rec' = digest \<and> ir_pending rec' \<and> ir_semanticBody rec' = body \<and>
       ir_createdAt rec' = now)"
  using idem_get_Some [OF assms(1)] assms(2-4)
  by (auto simp: ReserveExact_def Let_def idem_get_def split: prod.splits sum.splits
      dest: idem_writeState_err dest!: idem_writeState_ok)

lemma write_exact:
  assumes "idem_get (sv_idem s) key = Some x" "ic_statePath cfg \<noteq> []" "key \<noteq> []"
    "writeExactIdempotentJSON en cfg key operation digest status body s = (r, s')"
  shows "(\<exists>e. r = Inl e \<and> s' = s) \<or>
    (r = Inr (StoredResponse status body) \<and> (\<exists>fl. s' = s\<lparr>sv_idem := fl\<rparr>) \<and>
     (\<exists>rec. idem_get (sv_idem s') key = Some (Some rec) \<and> ir_operation rec = operation \<and>
        ir_requestDigest rec = digest \<and> \<not> ir_pending rec \<and> ir_status rec = status \<and> ir_body rec = Some body))"
proof -
  obtain st where st: "idem_readState (sv_idem s) = Inr st" using idem_get_Some [OF assms(1)] by blast
  let ?rec = "if isZero (ir_createdAt (exactRecord operation digest status body))
    then (exactRecord operation digest status body)\<lparr>ir_createdAt := en_storeNow en\<rparr> else exactRecord operation digest status body"
  have store: "StoreRecord (en_storeFaults en) (en_storeNow en) cfg key (exactRecord operation digest status body) (sv_idem s) =
      idem_writeState (en_storeFaults en) (gput key ?rec st) (sv_idem s)"
    using assms(2,3) st by (simp add: StoreRecord_def Let_def)
  show ?thesis
  proof (cases "idem_writeState (en_storeFaults en) (gput key ?rec st) (sv_idem s)")
    case (Pair q fl)
    show ?thesis
    proof (cases q)
      case (Inl e)
      then show ?thesis using Pair store assms(4) idem_writeState_err [of _ _ _ e fl]
        by (auto simp: writeExactIdempotentJSON_def)
    next
      case (Inr u)
      then have "fl = JSONMap (Some (storedKeys (gput key ?rec st)))" using Pair idem_writeState_ok by auto
      then have "idem_get fl key = Some (Some (storedRecord ?rec))" by (simp add: idem_get_def)
      moreover have "r = Inr (StoredResponse status body)" "s' = s\<lparr>sv_idem := fl\<rparr>"
        using Pair Inr store assms(4) by (auto simp: writeExactIdempotentJSON_def)
      ultimately show ?thesis
        by (auto simp: exactRecord_def zeroRecord_def storedRecord_def)
    qed
  qed
qed

lemma logEvent_simps [simp]:
  "sv_idem (logEvent ev s) = sv_idem s" "sv_github (logEvent ev s) = sv_github s" "sv_limits (logEvent ev s) = sv_limits s"
  by (simp_all add: logEvent_def)

lemma blockUnsafeEgress_state:
  "blockUnsafeEgress lib opID agentID repo operation segs s = (resp, s') \<Longrightarrow>
     sv_idem s' = sv_idem s \<and> sv_github s' = sv_github s \<and> sv_limits s' = sv_limits s"
  by (auto simp: blockUnsafeEgress_def split: option.splits)

end
