(* ===== verification/Server_Issues.thy ===== *)
theory Server_Issues
  imports Server_Base
begin

text \<open>
  The handlers of \<open>issue.create\<close> and \<open>issue.comment\<close> (\<open>src/internal/server/server.go\<close>). A request body is
  what decoding it gives. A comment carries no marker of the broker: after an interrupted attempt the
  handler reconciles with the comments that are visible, and posts again only when none of them matches.
  A comment's creation time is kept as its text and as what parsing it gives; \<open>li_commentJSON\<close>, an argument of the
  digest, is the JSON text of repository, issue and request.
\<close>

section \<open>Data\<close>

record issue_request =
  is_title :: string
  is_body :: string
  is_labels :: "string list"
  is_metadata :: "string gomap"
  is_permissions :: "string list"

record comment_request =
  cm_body :: string
  cm_metadata :: "string gomap"
  cm_permissions :: "string list"

section \<open>Creating an issue\<close>

definition labelSegments :: "string list \<Rightarrow> (string \<times> string) list" where
  "labelSegments labels =
     map (\<lambda>(i, label). (''labels['' @ formatInt (int i) @ '']'', label)) (enumerate 0 labels)"

definition handleIssueCreate ::
  "'g github \<Rightarrow> server_libs \<Rightarrow> broker_config \<Rightarrow> request_env \<Rightarrow> http_request \<Rightarrow> issue_request option \<Rightarrow> string \<Rightarrow>
     'g server_state \<Rightarrow> broker_response \<times> 'g server_state" where
  "handleIssueCreate hub lib cfg en r decoded repo s =
     (case AuthenticateAgent r cfg of
        None \<Rightarrow> (AuthChallenge, s)
      | Some who \<Rightarrow>
          (case decoded of
             None \<Rightarrow> (ErrorResponse 400 ''invalid_json'' DecisionDeny None, s)
           | Some req \<Rightarrow>
               if trimSpace (is_title req) = [] then (ErrorResponse 400 ''invalid_request'' DecisionDeny None, s)
               else if trimSpace (is_body req) = [] then (ErrorResponse 400 ''invalid_request'' DecisionDeny None, s)
               else
                 (let appName = GitHubAppName (pp_agent who) in
                  case InstallationIDForApp (bc_github cfg) appName repo of
                    None \<Rightarrow> (errorResponse 403 ''installation_not_configured'' None, s)
                  | Some inst \<Rightarrow>
                      (let enriched = WithBrokerFields (is_metadata req) (pp_id who) (en_opID en) inst;
                           res = policyCheck (li_regexps lib)
                             \<lparr>pr_agent = pp_agent who, pr_agentID = pp_id who, pr_repo = repo, pr_operation = ''issue.create'',
                              pr_branch = [], pr_baseBranch = [], pr_permissions = is_permissions req,
                              pr_metadata = is_metadata req,
                              pr_locations = [(''request'', is_metadata req), (''issue_body'', enriched)]\<rparr>;
                           ev = (auditEvent (en_opID en) (pp_id who) ''issue.create'' repo [] (res_decision res))
                                  \<lparr>au_permissions := is_permissions req\<rparr>
                       in if \<not> res_allowed res
                          then (errorResponse 403 ''policy_denied'' (Some res), logEvent ev s)
                          else
                            (let body = is_body req @ RenderBlock enriched in
                             case blockUnsafeEgress lib (en_opID en) (pp_id who) repo ''issue.create''
                                    ([(''title'', is_title req), (''body'', body)] @ labelSegments (is_labels req)) s of
                               (Some resp, s1) \<Rightarrow> (resp, s1)
                             | (None, s1) \<Rightarrow>
                                 (case reserveMutation cfg en (pp_id who) ''issue.create'' repo [] (is_metadata req) s1 of
                                    (Some resp, s2) \<Rightarrow> (resp, s2)
                                  | (None, s2) \<Rightarrow>
                                      (case hub_createIssue hub appName repo inst (is_title req) body (is_labels req)
                                              (sv_github s2) of
                                         (Inl e, g) \<Rightarrow>
                                           (ErrorResponse 502 ''github_error'' (res_decision res) (Some res),
                                            logEvent (ev\<lparr>au_error := AuGitHub e\<rparr>) (s2\<lparr>sv_github := g\<rparr>))
                                       | (Inr out, g) \<Rightarrow>
                                           (OKResult 201 out,
                                            logEvent (ev\<lparr>au_url := gr_htmlURL out, au_result := ''ok''\<rparr>)
                                              (s2\<lparr>sv_github := g\<rparr>)))))))))"

section \<open>Reconciling a comment\<close>

text \<open>\<open>strconv.Atoi\<close>: an optional sign and decimal digits, within 64 bits.\<close>

definition isDigitChar :: "char \<Rightarrow> bool" where
  "isDigitChar c = in_class c [(CHR ''0'', CHR ''9'')]"

definition digitsValue :: "string \<Rightarrow> int" where
  "digitsValue s = foldl (\<lambda>n c. 10 * n + (int (of_char c) - 48)) 0 s"

definition atoi :: "string \<Rightarrow> int option" where
  "atoi s =
     (let neg = (case s of c # _ \<Rightarrow> c = CHR ''-'' | [] \<Rightarrow> False);
          ds = (case s of c # t \<Rightarrow> if c = CHR ''-'' \<or> c = CHR ''+'' then t else s | [] \<Rightarrow> s);
          n = (if neg then - digitsValue ds else digitsValue ds)
      in if ds = [] \<or> \<not> list_all isDigitChar ds then None
         else if int64_range n then Some n else None)"

text \<open>The loop over the pages of comments, ten of them at most.\<close>

fun listCommentPages ::
  "'g github \<Rightarrow> string \<Rightarrow> string \<Rightarrow> int \<Rightarrow> int \<Rightarrow> nat \<Rightarrow> int \<Rightarrow> issue_comment list \<Rightarrow> 'g \<Rightarrow>
     (string + issue_comment list) \<times> 'g" where
  "listCommentPages hub appName repo inst issue 0 page acc g = (Inl ''issue comment reconciliation exceeds 10 pages'', g)"
| "listCommentPages hub appName repo inst issue (Suc k) page acc g =
     (case hub_listIssueComments hub appName repo inst issue page g of
        (Inl e, g') \<Rightarrow> (Inl e, g')
      | (Inr batch, g') \<Rightarrow>
          if length batch < 100 then (Inr (acc @ batch), g')
          else listCommentPages hub appName repo inst issue k (page + 1) (acc @ batch) g')"

definition listIssueCommentsForReconciliation ::
  "'g github \<Rightarrow> string \<Rightarrow> string \<Rightarrow> int \<Rightarrow> int \<Rightarrow> 'g \<Rightarrow> (string + issue_comment list) \<times> 'g" where
  "listIssueCommentsForReconciliation hub appName repo inst issue g =
     listCommentPages hub appName repo inst issue 10 1 [] g"

definition clockSkew :: duration where
  "clockSkew = 120 * nsPerSec"

definition commentMatches :: "string \<Rightarrow> gotime \<Rightarrow> issue_comment \<Rightarrow> bool" where
  "commentMatches body reservedAt c =
     (case co_commentTime c of
        None \<Rightarrow> False
      | Some t \<Rightarrow> \<not> t < reservedAt - clockSkew \<and> co_commentBody c = body \<and> co_commentAuthor c \<noteq> [])"

text \<open>\<open>Inl ()\<close> is the error of several matching comments.\<close>

fun reconcileLoop ::
  "string \<Rightarrow> gotime \<Rightarrow> issue_comment list \<Rightarrow> issue_comment option \<Rightarrow> unit + issue_comment option" where
  "reconcileLoop body reservedAt [] found = Inr found"
| "reconcileLoop body reservedAt (c # cs) found =
     (case co_commentTime c of
        None \<Rightarrow> reconcileLoop body reservedAt cs found
      | Some t \<Rightarrow>
          if t < reservedAt - clockSkew then reconcileLoop body reservedAt cs found
          else if co_commentBody c = body \<and> co_commentAuthor c \<noteq> []
          then (if found \<noteq> None then Inl () else reconcileLoop body reservedAt cs (Some c))
          else reconcileLoop body reservedAt cs found)"

definition commentResult :: "issue_comment \<Rightarrow> github_result" where
  "commentResult c =
     \<lparr>gr_url = co_commentURL c, gr_htmlURL = co_commentHTMLURL c, gr_number = 0, gr_id = co_commentID c,
      gr_createdAt = co_commentCreatedAt c\<rparr>"

definition reconcilePendingComment ::
  "issue_comment list \<Rightarrow> string \<Rightarrow> gotime \<Rightarrow> unit + github_result option" where
  "reconcilePendingComment comments body reservedAt =
     (case reconcileLoop body reservedAt comments None of
        Inl _ \<Rightarrow> Inl ()
      | Inr found \<Rightarrow> Inr (map_option commentResult found))"

section \<open>Commenting\<close>

definition commentRequestDigest ::
  "server_libs \<Rightarrow> (string \<Rightarrow> string \<Rightarrow> comment_request \<Rightarrow> string) \<Rightarrow> string \<Rightarrow> string \<Rightarrow> comment_request \<Rightarrow> string" where
  "commentRequestDigest lib commentJSON repo issue req = li_sha256 lib (commentJSON repo issue req)"

definition idempotencyKeyDigest :: "server_libs \<Rightarrow> string \<Rightarrow> string" where
  "idempotencyKeyDigest lib key = li_sha256 lib key"

definition scopedCommentKey :: "server_libs \<Rightarrow> string \<Rightarrow> string \<Rightarrow> string \<Rightarrow> string \<Rightarrow> string" where
  "scopedCommentKey lib agentID repo issueNumber key =
     ''issue.comment:'' @ agentID @ '':'' @ repo @ '':'' @ issueNumber @ '':'' @ idempotencyKeyDigest lib key"

text \<open>The last part of the handler: post the comment and keep the answer.\<close>

definition postComment ::
  "'g github \<Rightarrow> broker_config \<Rightarrow> request_env \<Rightarrow> audit_event \<Rightarrow> policy_result \<Rightarrow> string \<Rightarrow> string \<Rightarrow> int \<Rightarrow> string \<Rightarrow>
     string \<Rightarrow> string \<Rightarrow> string \<Rightarrow> 'g server_state \<Rightarrow> broker_response \<times> 'g server_state" where
  "postComment hub cfg en ev res appName repo inst issueNumber scopedKey requestDigest body s =
     (case hub_createIssueComment hub appName repo inst issueNumber body (sv_github s) of
        (Inl e, g) \<Rightarrow>
          (ErrorResponse 502 ''github_error'' (res_decision res) (Some res),
           logEvent (ev\<lparr>au_error := AuGitHub e\<rparr>) (s\<lparr>sv_github := g\<rparr>))
      | (Inr out, g) \<Rightarrow>
          (case writeExactIdempotentJSON en (bc_idempotency cfg) scopedKey ''issue.comment'' requestDigest 201 (resultJSON out)
                  (s\<lparr>sv_github := g\<rparr>) of
             (Inl e, s') \<Rightarrow>
               (ErrorResponse 500 ''idempotency_error'' (res_decision res) None, logEvent (ev\<lparr>au_error := AuFile e\<rparr>) s')
           | (Inr resp, s') \<Rightarrow> (resp, logEvent (ev\<lparr>au_url := gr_htmlURL out, au_result := ''ok''\<rparr>) s')))"

text \<open>From the reservation on.\<close>

definition commentWithKey ::
  "'g github \<Rightarrow> broker_config \<Rightarrow> request_env \<Rightarrow> audit_event \<Rightarrow> policy_result \<Rightarrow> string \<Rightarrow> string \<Rightarrow> int \<Rightarrow> string \<Rightarrow>
     string \<Rightarrow> string \<Rightarrow> string \<Rightarrow> 'g server_state \<Rightarrow> broker_response \<times> 'g server_state" where
  "commentWithKey hub cfg en ev res appName repo inst issueNumber scopedKey requestDigest body s =
     (case ReserveExact (en_reserveFaults en) (en_reserveNow en) (bc_idempotency cfg) scopedKey ''issue.comment''
             requestDigest body (sv_idem s) of
        (Inl e, fl) \<Rightarrow>
          (ErrorResponse 500 ''idempotency_error'' DecisionDeny None,
           logEvent (ev\<lparr>au_decision := DecisionDeny, au_error := AuFile e\<rparr>) (s\<lparr>sv_idem := fl\<rparr>))
      | (Inr ans, fl) \<Rightarrow>
          (let s1 = s\<lparr>sv_idem := fl\<rparr>; rec = ra_record ans in
           if ra_conflict ans then (ErrorResponse 409 ''idempotency_key_conflict'' DecisionDeny None, s1)
           else if ra_found ans \<and> \<not> ir_pending rec
           then (ReplayResponse (ir_status rec) (ir_body rec), logEvent (ev\<lparr>au_result := ''idempotent_replay''\<rparr>) s1)
           else if ra_found ans \<and> ir_pending rec then
             (case atoi issueNumber of
                None \<Rightarrow> (ErrorResponse 400 ''invalid_request'' DecisionDeny None, s1)
              | Some n \<Rightarrow>
                  if n < 1 then (ErrorResponse 400 ''invalid_request'' DecisionDeny None, s1)
                  else
                    (case listIssueCommentsForReconciliation hub appName repo inst n (sv_github s1) of
                       (Inl e, g) \<Rightarrow> (ErrorResponse 502 ''github_error'' (res_decision res) (Some res), s1\<lparr>sv_github := g\<rparr>)
                     | (Inr comments, g) \<Rightarrow>
                         (let s2 = s1\<lparr>sv_github := g\<rparr> in
                          case reconcilePendingComment comments (ir_semanticBody rec) (ir_createdAt rec) of
                            Inl _ \<Rightarrow> (ErrorResponse 409 ''comment_reconciliation_ambiguous'' DecisionDeny None, s2)
                          | Inr (Some out) \<Rightarrow>
                              (case writeExactIdempotentJSON en (bc_idempotency cfg) scopedKey ''issue.comment'' requestDigest
                                      201 (resultJSON out) s2 of
                                 (Inl e, s3) \<Rightarrow> (ErrorResponse 500 ''idempotency_error'' DecisionDeny None, s3)
                               | (Inr resp, s3) \<Rightarrow> (resp, logEvent (ev\<lparr>au_result := ''idempotent_reconciled''\<rparr>) s3))
                          | Inr None \<Rightarrow>
                              postComment hub cfg en ev res appName repo inst issueNumber scopedKey requestDigest
                                (ir_semanticBody rec) s2)))
           else postComment hub cfg en ev res appName repo inst issueNumber scopedKey requestDigest body s1))"

definition handleCommentCreate ::
  "'g github \<Rightarrow> server_libs \<Rightarrow> (string \<Rightarrow> string \<Rightarrow> comment_request \<Rightarrow> string) \<Rightarrow> broker_config \<Rightarrow> request_env \<Rightarrow>
     http_request \<Rightarrow> comment_request option \<Rightarrow> string \<Rightarrow> string \<Rightarrow> 'g server_state \<Rightarrow> broker_response \<times> 'g server_state" where
  "handleCommentCreate hub lib commentJSON cfg en r decoded repo issueNumber s =
     (case AuthenticateAgent r cfg of
        None \<Rightarrow> (AuthChallenge, s)
      | Some who \<Rightarrow>
          (case decoded of
             None \<Rightarrow> (ErrorResponse 400 ''invalid_json'' DecisionDeny None, s)
           | Some req \<Rightarrow>
               (let appName = GitHubAppName (pp_agent who) in
                case InstallationIDForApp (bc_github cfg) appName repo of
                  None \<Rightarrow> (errorResponse 403 ''installation_not_configured'' None, s)
                | Some inst \<Rightarrow>
                    (let res = policyCheck (li_regexps lib)
                           \<lparr>pr_agent = pp_agent who, pr_agentID = pp_id who, pr_repo = repo, pr_operation = ''issue.comment'',
                            pr_branch = [], pr_baseBranch = [], pr_permissions = cm_permissions req,
                            pr_metadata = cm_metadata req,
                            pr_locations = [(''request'', cm_metadata req), (''comment_body'', cm_metadata req)]\<rparr>;
                         ev = (auditEvent (en_opID en) (pp_id who) ''issue.comment'' repo [] (res_decision res))
                                \<lparr>au_permissions := cm_permissions req\<rparr>
                     in if \<not> res_allowed res
                        then (errorResponse 403 ''policy_denied'' (Some res), logEvent ev s)
                        else
                          (case blockUnsafeEgress lib (en_opID en) (pp_id who) repo ''issue.comment''
                                  [(''body'', cm_body req)] s of
                             (Some resp, s1) \<Rightarrow> (resp, s1)
                           | (None, s1) \<Rightarrow>
                               (let key = idempotencyHeader r in
                                if key = [] then (ErrorResponse 400 ''idempotency_key_required'' DecisionDeny None, s1)
                                else
                                  (let requestDigest = commentRequestDigest lib commentJSON repo issueNumber req in
                                   if requestDigest = [] then (ErrorResponse 400 ''invalid_request'' DecisionDeny None, s1)
                                   else
                                     commentWithKey hub cfg en ev res appName repo inst issueNumber
                                       (scopedCommentKey lib (pp_id who) repo issueNumber key)
                                       requestDigest (cm_body req) s1)))))))"

section \<open>Reconciliation\<close>

lemma reconcileLoop_found:
  "reconcileLoop body reservedAt cs (Some c) =
     (if filter (commentMatches body reservedAt) cs = [] then Inr (Some c) else Inl ())"
  by (induction cs) (auto simp: commentMatches_def split: option.splits)

lemma reconcileLoop_filter:
  "reconcileLoop body reservedAt cs None =
     (case filter (commentMatches body reservedAt) cs of
        [] \<Rightarrow> Inr None | [c] \<Rightarrow> Inr (Some c) | _ # _ # _ \<Rightarrow> Inl ())"
proof (induction cs)
  case (Cons c cs)
  show ?case
  proof (cases "commentMatches body reservedAt c")
    case True
    then have "reconcileLoop body reservedAt (c # cs) None = reconcileLoop body reservedAt cs (Some c)"
      by (auto simp: commentMatches_def split: option.splits)
    with True show ?thesis by (auto simp: reconcileLoop_found split: list.splits)
  next
    case False
    then have "reconcileLoop body reservedAt (c # cs) None = reconcileLoop body reservedAt cs None"
      by (auto simp: commentMatches_def split: option.splits)
    with False Cons show ?thesis by simp
  qed
qed simp

lemma reconcilePendingComment_filter:
  "reconcilePendingComment cs body reservedAt =
     (case filter (commentMatches body reservedAt) cs of
        [] \<Rightarrow> Inr None | [c] \<Rightarrow> Inr (Some (commentResult c)) | _ # _ # _ \<Rightarrow> Inl ())"
  by (simp add: reconcilePendingComment_def reconcileLoop_filter split: list.splits)

section \<open>GitHub's side\<close>

text \<open>
  What the reconciliation relies on, for one issue whose comments are \<open>posted\<close>: listing shows them page by page
  in their order, posting adds a comment with the given body, an author and a creation time not before
  \<open>t0\<close>, and a call that fails may still have posted. Nobody else comments on the issue.
\<close>

definition new_comment :: "gotime \<Rightarrow> string \<Rightarrow> issue_comment \<Rightarrow> bool" where
  "new_comment t0 body c \<longleftrightarrow>
     co_commentBody c = body \<and> co_commentAuthor c \<noteq> [] \<and> (\<exists>t. co_commentTime c = Some t \<and> t0 \<le> t)"

definition comment_laws ::
  "'g github \<Rightarrow> string \<Rightarrow> string \<Rightarrow> ('g \<Rightarrow> issue_comment list) \<Rightarrow> gotime \<Rightarrow> bool" where
  "comment_laws hub repo issueNumber posted t0 \<longleftrightarrow>
     (\<forall>appName inst n page g r g'. atoi issueNumber = Some n \<longrightarrow> 1 \<le> page \<longrightarrow>
        hub_listIssueComments hub appName repo inst n page g = (r, g') \<longrightarrow>
        posted g' = posted g \<and> (\<forall>batch. r = Inr batch \<longrightarrow> batch = take 100 (drop (100 * (nat page - 1)) (posted g)))) \<and>
     (\<forall>appName inst body g r g'. hub_createIssueComment hub appName repo inst issueNumber body g = (r, g') \<longrightarrow>
        ((\<exists>e. r = Inl e) \<and> posted g' = posted g) \<or> (\<exists>c. posted g' = posted g @ [c] \<and> new_comment t0 body c))"

lemma comment_laws_list:
  assumes "comment_laws hub repo issueNumber posted t0" "atoi issueNumber = Some n" "1 \<le> page"
    "hub_listIssueComments hub appName repo inst n page g = (r, g')"
  shows "posted g' = posted g \<and> (\<forall>batch. r = Inr batch \<longrightarrow> batch = take 100 (drop (100 * (nat page - 1)) (posted g)))"
  using conjunct1 [OF assms(1) [unfolded comment_laws_def]] assms(2-4) by blast

lemma comment_laws_post:
  assumes "comment_laws hub repo issueNumber posted t0"
    "hub_createIssueComment hub appName repo inst issueNumber body g = (r, g')"
  shows "((\<exists>e. r = Inl e) \<and> posted g' = posted g) \<or> (\<exists>c. posted g' = posted g @ [c] \<and> new_comment t0 body c)"
  using conjunct2 [OF assms(1) [unfolded comment_laws_def]] assms(2) by blast

lemma listCommentPages_ok:
  assumes "comment_laws hub repo issueNumber posted t0" and "atoi issueNumber = Some n"
    and "listCommentPages hub appName repo inst n k (int p + 1) (take (100 * p) (posted g)) g = (r, g')"
  shows "posted g' = posted g \<and> (\<forall>cs. r = Inr cs \<longrightarrow> cs = posted g)"
  using assms(3)
proof (induction k arbitrary: p g)
  case (Suc k)
  obtain b g1 where b: "hub_listIssueComments hub appName repo inst n (int p + 1) g = (b, g1)"
    by (cases "hub_listIssueComments hub appName repo inst n (int p + 1) g")
  have law: "posted g1 = posted g \<and> (\<forall>batch. b = Inr batch \<longrightarrow> batch = take 100 (drop (100 * p) (posted g)))"
    using comment_laws_list [OF assms(1,2) _ b] by (simp add: nat_add_distrib)
  show ?case
  proof (cases b)
    case (Inl e)
    then show ?thesis using Suc.prems b law by auto
  next
    case (Inr batch)
    with law have batch: "batch = take 100 (drop (100 * p) (posted g))" by blast
    have step: "take (100 * p) (posted g) @ batch = take (100 * Suc p) (posted g)"
      unfolding batch by (simp add: take_add [symmetric] add.commute)
    show ?thesis
    proof (cases "length batch < 100")
      case True
      then have "length (posted g) \<le> 100 * Suc p" unfolding batch by (auto simp: min_def split: if_splits)
      then have "take (100 * Suc p) (posted g) = posted g" by simp
      with True Inr Suc.prems b law step show ?thesis by auto
    next
      case False
      then have "listCommentPages hub appName repo inst n k (int (Suc p) + 1) (take (100 * Suc p) (posted g1)) g1 = (r, g')"
        using Inr Suc.prems b law step by (simp add: add.commute)
      from Suc.IH [OF this] law show ?thesis by simp
    qed
  qed
qed auto

lemma listing_ok:
  assumes "comment_laws hub repo issueNumber posted t0" and "atoi issueNumber = Some n"
    and "listIssueCommentsForReconciliation hub appName repo inst n g = (r, g')"
  shows "posted g' = posted g \<and> (\<forall>cs. r = Inr cs \<longrightarrow> cs = posted g)"
  using listCommentPages_ok [OF assms(1,2), of appName inst 10 0 g r g'] assms(3)
  by (simp add: listIssueCommentsForReconciliation_def)

section \<open>Retries of one comment\<close>

definition posted_once :: "gotime \<Rightarrow> string \<Rightarrow> issue_comment list \<Rightarrow> issue_comment list \<Rightarrow> bool" where
  "posted_once t0 body p0 p \<longleftrightarrow> p = p0 \<or> (\<exists>c. p = p0 @ [c] \<and> new_comment t0 body c)"

text \<open>The invariant of the retries: without a record nothing is posted; with one, at most one comment is, and
  while it is pending its reservation separates the comments that were there from the new one.\<close>

definition comment_inv ::
  "('g \<Rightarrow> issue_comment list) \<Rightarrow> gotime \<Rightarrow> issue_comment list \<Rightarrow> string \<Rightarrow> string \<Rightarrow> string \<Rightarrow> 'g server_state \<Rightarrow> bool" where
  "comment_inv posted t0 p0 key digest body s \<longleftrightarrow>
     (case idem_get (sv_idem s) key of
        None \<Rightarrow> False
      | Some None \<Rightarrow> posted (sv_github s) = p0
      | Some (Some rec) \<Rightarrow>
          ir_operation rec = ''issue.comment'' \<and> ir_requestDigest rec = digest \<and>
          posted_once t0 body p0 (posted (sv_github s)) \<and>
          (ir_pending rec \<longrightarrow> ir_semanticBody rec = body \<and> ir_createdAt rec - clockSkew \<le> t0 \<and>
             filter (commentMatches body (ir_createdAt rec)) p0 = []))"

lemma comment_inv_cong:
  "sv_idem s' = sv_idem s \<Longrightarrow> posted (sv_github s') = posted (sv_github s) \<Longrightarrow>
     comment_inv posted t0 p0 key digest body s' = comment_inv posted t0 p0 key digest body s"
  by (simp add: comment_inv_def split: option.splits)

lemma comment_inv_log [simp]:
  "comment_inv posted t0 p0 key digest body (logEvent ev s) = comment_inv posted t0 p0 key digest body s"
  by (rule comment_inv_cong) simp_all

lemma server_state_same [simp]: "s\<lparr>sv_idem := sv_idem s\<rparr> = s"
  by simp

definition env_ok :: "gotime \<Rightarrow> issue_comment list \<Rightarrow> string \<Rightarrow> request_env \<Rightarrow> bool" where
  "env_ok t0 p0 body en \<longleftrightarrow>
     en_reserveNow en - clockSkew \<le> t0 \<and> filter (commentMatches body (en_reserveNow en)) p0 = []"

lemma new_comment_matches: "new_comment t0 body c \<Longrightarrow> reservedAt - clockSkew \<le> t0 \<Longrightarrow> commentMatches body reservedAt c"
  by (auto simp: new_comment_def commentMatches_def)

lemma postComment_inv:
  assumes laws: "comment_laws hub repo issueNumber posted t0" and path: "ic_statePath (bc_idempotency cfg) \<noteq> []" "key \<noteq> []"
    and s: "comment_inv posted t0 p0 key digest body s" "idem_get (sv_idem s) key = Some (Some rec)" "posted (sv_github s) = p0"
  shows "comment_inv posted t0 p0 key digest body
    (snd (postComment hub cfg en ev res appName repo inst issueNumber key digest body s))"
proof -
  obtain r g where call: "hub_createIssueComment hub appName repo inst issueNumber body (sv_github s) = (r, g)"
    by (cases "hub_createIssueComment hub appName repo inst issueNumber body (sv_github s)")
  have once: "posted_once t0 body p0 (posted g)"
    using comment_laws_post [OF laws call] s(3) by (auto simp: posted_once_def)
  let ?s = "s\<lparr>sv_github := g\<rparr>"
  have inv: "comment_inv posted t0 p0 key digest body ?s" using s once by (simp add: comment_inv_def)
  show ?thesis
  proof (cases r)
    case (Inl e)
    then show ?thesis using call inv by (simp add: postComment_def)
  next
    case (Inr out)
    obtain w s' where w: "writeExactIdempotentJSON en (bc_idempotency cfg) key ''issue.comment'' digest 201 (resultJSON out) ?s = (w, s')"
      by (cases "writeExactIdempotentJSON en (bc_idempotency cfg) key ''issue.comment'' digest 201 (resultJSON out) ?s")
    have "idem_get (sv_idem ?s) key = Some (Some rec)" using s(2) by simp
    from write_exact [OF this path w] inv once have "comment_inv posted t0 p0 key digest body s'"
      by (auto simp: comment_inv_def)
    then show ?thesis using call Inr w
      by (auto simp: postComment_def split: sum.splits)
  qed
qed

lemma reconcile_cases:
  assumes "posted_once t0 body p0 p" "filter (commentMatches body reservedAt) p0 = []" "reservedAt - clockSkew \<le> t0"
  shows "(p = p0 \<and> reconcilePendingComment p body reservedAt = Inr None) \<or>
         (\<exists>out. reconcilePendingComment p body reservedAt = Inr (Some out))"
  using assms new_comment_matches [of t0 body _ reservedAt]
  by (auto simp: posted_once_def reconcilePendingComment_filter)

lemma commentWithKey_pending:
  assumes laws: "comment_laws hub repo issueNumber posted t0" and path: "ic_statePath (bc_idempotency cfg) \<noteq> []" "key \<noteq> []"
    and x: "idem_get (sv_idem s) key = Some (Some rec)" and pending: "ir_pending rec"
    and rec: "ir_operation rec = ''issue.comment''" "ir_requestDigest rec = digest"
      "posted_once t0 body p0 (posted (sv_github s))"
      "ir_pending rec \<Longrightarrow> ir_semanticBody rec = body \<and> ir_createdAt rec - clockSkew \<le> t0 \<and>
         filter (commentMatches body (ir_createdAt rec)) p0 = []"
    and inv: "comment_inv posted t0 p0 key digest body s"
    and rv: "ReserveExact (en_reserveFaults en) (en_reserveNow en) (bc_idempotency cfg) key ''issue.comment'' digest body
        (sv_idem s) = (Inr \<lparr>ra_record = rec, ra_found = True, ra_conflict = False\<rparr>, sv_idem s)"
  shows "comment_inv posted t0 p0 key digest body
    (snd (commentWithKey hub cfg en ev res appName repo inst issueNumber key digest body s))"
proof (cases "\<exists>n. atoi issueNumber = Some n \<and> \<not> n < 1")
  case False
  then show ?thesis using rv inv pending by (auto simp: commentWithKey_def split: option.splits)
next
  case True
  then obtain n where n: "atoi issueNumber = Some n" "\<not> n < 1" by blast
  obtain l g where list: "listIssueCommentsForReconciliation hub appName repo inst n (sv_github s) = (l, g)"
    by (cases "listIssueCommentsForReconciliation hub appName repo inst n (sv_github s)")
  let ?s = "s\<lparr>sv_github := g\<rparr>"
  note ok = listing_ok [OF laws n(1) list]
  have inv': "comment_inv posted t0 p0 key digest body ?s" using inv ok by (subst comment_inv_cong [of _ s]) simp_all
  show ?thesis
  proof (cases l)
    case (Inl e)
    then show ?thesis using rv inv' pending n list by (simp add: commentWithKey_def)
  next
    case (Inr cs)
    then have cs: "cs = posted (sv_github s)" using ok by blast
    from reconcile_cases [OF rec(3)] rec(4) [OF pending]
    consider "posted (sv_github s) = p0" "reconcilePendingComment cs body (ir_createdAt rec) = Inr None"
      | out where "reconcilePendingComment cs body (ir_createdAt rec) = Inr (Some out)"
      using cs by blast
    then show ?thesis
    proof cases
      case 1
      have "posted (sv_github ?s) = p0" "idem_get (sv_idem ?s) key = Some (Some rec)" using 1 ok x by simp_all
      from postComment_inv [OF laws path inv' this(2,1), of en ev res appName inst] show ?thesis
        using rv pending n list Inr 1 rec(4) [OF pending] by (simp add: commentWithKey_def)
    next
      case (2 out)
      obtain w s' where w: "writeExactIdempotentJSON en (bc_idempotency cfg) key ''issue.comment'' digest 201 (resultJSON out) ?s = (w, s')"
        by (cases "writeExactIdempotentJSON en (bc_idempotency cfg) key ''issue.comment'' digest 201 (resultJSON out) ?s")
      have "idem_get (sv_idem ?s) key = Some (Some rec)" using x by simp
      from write_exact [OF this path w] inv' rec(3) ok have "comment_inv posted t0 p0 key digest body s'"
        by (auto simp: comment_inv_def)
      then show ?thesis
        using rv pending n list Inr 2 w rec(4) [OF pending] by (auto simp: commentWithKey_def split: sum.splits)
    qed
  qed
qed

lemma commentWithKey_inv:
  assumes laws: "comment_laws hub repo issueNumber posted t0" and path: "ic_statePath (bc_idempotency cfg) \<noteq> []" "key \<noteq> []"
    and d: "digest \<noteq> []" and en: "env_ok t0 p0 body en" and inv: "comment_inv posted t0 p0 key digest body s"
  shows "comment_inv posted t0 p0 key digest body
    (snd (commentWithKey hub cfg en ev res appName repo inst issueNumber key digest body s))"
proof -
  obtain x where x: "idem_get (sv_idem s) key = Some x" using inv by (auto simp: comment_inv_def split: option.splits)
  show ?thesis
  proof (cases x)
    case None
    then have p0: "posted (sv_github s) = p0" using inv x by (simp add: comment_inv_def)
    obtain r fl where rv: "ReserveExact (en_reserveFaults en) (en_reserveNow en) (bc_idempotency cfg) key ''issue.comment'' digest body
        (sv_idem s) = (r, fl)" by fastforce
    from reserve_new [OF x [unfolded None] path rv] show ?thesis
    proof (elim disjE exE conjE)
      fix e
      assume "r = Inl e" "fl = sv_idem s"
      then show ?thesis using rv inv by (simp add: commentWithKey_def)
    next
      fix rec rec'
      assume r: "r = Inr \<lparr>ra_record = rec, ra_found = False, ra_conflict = False\<rparr>" and rec': "idem_get fl key = Some (Some rec')"
        "ir_operation rec' = ''issue.comment''" "ir_requestDigest rec' = digest" "ir_pending rec'" "ir_semanticBody rec' = body"
        "ir_createdAt rec' = en_reserveNow en"
      let ?s = "s\<lparr>sv_idem := fl\<rparr>"
      have "comment_inv posted t0 p0 key digest body ?s"
        using rec' p0 en by (simp add: comment_inv_def posted_once_def env_ok_def)
      from postComment_inv [OF laws path this, of rec' en ev res appName inst] rec'(1) p0
      show ?thesis using rv r by (simp add: commentWithKey_def)
    qed
  next
    case (Some rec)
    have rec: "ir_operation rec = ''issue.comment''" "ir_requestDigest rec = digest"
      "posted_once t0 body p0 (posted (sv_github s))"
      "ir_pending rec \<Longrightarrow> ir_semanticBody rec = body \<and> ir_createdAt rec - clockSkew \<le> t0 \<and>
         filter (commentMatches body (ir_createdAt rec)) p0 = []"
      using inv x Some by (auto simp: comment_inv_def)
    have rv: "ReserveExact (en_reserveFaults en) (en_reserveNow en) (bc_idempotency cfg) key ''issue.comment'' digest body
        (sv_idem s) = (Inr \<lparr>ra_record = rec, ra_found = True, ra_conflict = False\<rparr>, sv_idem s)"
      using reserve_found [OF x [unfolded Some] path rec(1,2) d] .
    show ?thesis
    proof (cases "ir_pending rec")
      case False
      then show ?thesis using rv inv by (simp add: commentWithKey_def)
    next
      case True
      show ?thesis
        using commentWithKey_pending [OF laws path x [unfolded Some] True rec inv] rv True by simp
    qed
  qed
qed

section \<open>The gate in front of the mutations\<close>

text \<open>What has to hold before a comment is reserved or posted, and before an issue is created.\<close>

definition commentPolicyRequest :: "principal \<Rightarrow> string \<Rightarrow> comment_request \<Rightarrow> policy_request" where
  "commentPolicyRequest who repo req =
     \<lparr>pr_agent = pp_agent who, pr_agentID = pp_id who, pr_repo = repo, pr_operation = ''issue.comment'',
      pr_branch = [], pr_baseBranch = [], pr_permissions = cm_permissions req, pr_metadata = cm_metadata req,
      pr_locations = [(''request'', cm_metadata req), (''comment_body'', cm_metadata req)]\<rparr>"

definition issuePolicyRequest :: "principal \<Rightarrow> string \<Rightarrow> int \<Rightarrow> string \<Rightarrow> issue_request \<Rightarrow> policy_request" where
  "issuePolicyRequest who opID inst repo req =
     \<lparr>pr_agent = pp_agent who, pr_agentID = pp_id who, pr_repo = repo, pr_operation = ''issue.create'',
      pr_branch = [], pr_baseBranch = [], pr_permissions = is_permissions req, pr_metadata = is_metadata req,
      pr_locations = [(''request'', is_metadata req),
                      (''issue_body'', WithBrokerFields (is_metadata req) (pp_id who) opID inst)]\<rparr>"

lemma handleCommentCreate_cases:
  assumes "handleCommentCreate hub lib cj cfg en r decoded repo issueNumber s = (resp, s')"
  shows "(sv_idem s' = sv_idem s \<and> sv_github s' = sv_github s) \<or>
    (\<exists>who req inst ev.
       AuthenticateAgent r cfg = Some who \<and> decoded = Some req \<and>
       InstallationIDForApp (bc_github cfg) (GitHubAppName (pp_agent who)) repo = Some inst \<and>
       res_allowed (policyCheck (li_regexps lib) (commentPolicyRequest who repo req)) \<and>
       scanSequence (li_hmac lib) (li_tokens lib) [(''body'', cm_body req)] = None \<and>
       idempotencyHeader r \<noteq> [] \<and> commentRequestDigest lib cj repo issueNumber req \<noteq> [] \<and>
       s' = snd (commentWithKey hub cfg en ev (policyCheck (li_regexps lib) (commentPolicyRequest who repo req))
              (GitHubAppName (pp_agent who)) repo inst issueNumber
              (scopedCommentKey lib (pp_id who) repo issueNumber (idempotencyHeader r))
              (commentRequestDigest lib cj repo issueNumber req) (cm_body req) s))"
  using assms
  by (auto simp: handleCommentCreate_def blockUnsafeEgress_def commentPolicyRequest_def Let_def
      split: option.splits if_splits)
    (metis snd_conv)+

lemma handleIssueCreate_cases:
  assumes "handleIssueCreate hub lib cfg en r decoded repo s = (resp, s')"
  shows "(sv_limits s' = sv_limits s \<and> sv_github s' = sv_github s) \<or>
    (\<exists>who req inst.
       AuthenticateAgent r cfg = Some who \<and> decoded = Some req \<and>
       InstallationIDForApp (bc_github cfg) (GitHubAppName (pp_agent who)) repo = Some inst \<and>
       res_allowed (policyCheck (li_regexps lib) (issuePolicyRequest who (en_opID en) inst repo req)) \<and>
       scanSequence (li_hmac lib) (li_tokens lib)
         ([(''title'', is_title req),
           (''body'', is_body req @ RenderBlock (WithBrokerFields (is_metadata req) (pp_id who) (en_opID en) inst))] @
          labelSegments (is_labels req)) = None \<and>
       (sv_github s' = sv_github s \<or>
        (\<exists>d fl. CheckAndReserve (en_limitFaults en) (bc_mutationLimits cfg) ''issue.create'' (is_metadata req) (sv_limits s) =
                 (Inr d, fl) \<and> ld_allowed d \<and> sv_limits s' = fl)))"
proof (cases "sv_limits s' = sv_limits s \<and> sv_github s' = sv_github s")
  case False
  then show ?thesis
    using assms
    by (auto simp: handleIssueCreate_def blockUnsafeEgress_def reserveMutation_def issuePolicyRequest_def Let_def
        split: option.splits if_splits sum.splits prod.splits)
qed simp

section \<open>Properties\<close>

text \<open>The same request sent again and again, each attempt with its own operation id, faults and clock.\<close>

fun retryComment ::
  "'g github \<Rightarrow> server_libs \<Rightarrow> (string \<Rightarrow> string \<Rightarrow> comment_request \<Rightarrow> string) \<Rightarrow> broker_config \<Rightarrow> http_request \<Rightarrow>
     comment_request \<Rightarrow> string \<Rightarrow> string \<Rightarrow> request_env list \<Rightarrow> 'g server_state \<Rightarrow> 'g server_state" where
  "retryComment hub lib cj cfg r req repo issueNumber [] s = s"
| "retryComment hub lib cj cfg r req repo issueNumber (en # ens) s =
     retryComment hub lib cj cfg r req repo issueNumber ens
       (snd (handleCommentCreate hub lib cj cfg en r (Some req) repo issueNumber s))"

lemma handleCommentCreate_inv:
  assumes "comment_laws hub repo issueNumber posted t0" and "ic_statePath (bc_idempotency cfg) \<noteq> []"
    and "AuthenticateAgent r cfg = Some who" and "env_ok t0 p0 (cm_body req) en"
    and "comment_inv posted t0 p0 (scopedCommentKey lib (pp_id who) repo issueNumber (idempotencyHeader r))
           (commentRequestDigest lib cj repo issueNumber req) (cm_body req) s"
  shows "comment_inv posted t0 p0 (scopedCommentKey lib (pp_id who) repo issueNumber (idempotencyHeader r))
           (commentRequestDigest lib cj repo issueNumber req) (cm_body req)
           (snd (handleCommentCreate hub lib cj cfg en r (Some req) repo issueNumber s))"
proof -
  let ?key = "scopedCommentKey lib (pp_id who) repo issueNumber (idempotencyHeader r)"
  obtain resp s' where h: "handleCommentCreate hub lib cj cfg en r (Some req) repo issueNumber s = (resp, s')"
    by (cases "handleCommentCreate hub lib cj cfg en r (Some req) repo issueNumber s")
  have key: "?key \<noteq> []" by (simp add: scopedCommentKey_def)
  from handleCommentCreate_cases [OF h] show ?thesis
  proof
    assume "sv_idem s' = sv_idem s \<and> sv_github s' = sv_github s"
    then show ?thesis using assms(5) comment_inv_cong [of s' s posted] h by simp
  next
    assume "\<exists>who' req' inst ev. AuthenticateAgent r cfg = Some who' \<and> Some req = Some req' \<and>
       InstallationIDForApp (bc_github cfg) (GitHubAppName (pp_agent who')) repo = Some inst \<and>
       res_allowed (policyCheck (li_regexps lib) (commentPolicyRequest who' repo req')) \<and>
       scanSequence (li_hmac lib) (li_tokens lib) [(''body'', cm_body req')] = None \<and>
       idempotencyHeader r \<noteq> [] \<and> commentRequestDigest lib cj repo issueNumber req' \<noteq> [] \<and>
       s' = snd (commentWithKey hub cfg en ev (policyCheck (li_regexps lib) (commentPolicyRequest who' repo req'))
              (GitHubAppName (pp_agent who')) repo inst issueNumber
              (scopedCommentKey lib (pp_id who') repo issueNumber (idempotencyHeader r))
              (commentRequestDigest lib cj repo issueNumber req') (cm_body req') s)"
    then show ?thesis
      using commentWithKey_inv [OF assms(1,2) key _ assms(4,5)] assms(3) h by auto
  qed
qed

lemma retryComment_inv:
  assumes "comment_laws hub repo issueNumber posted t0" and "ic_statePath (bc_idempotency cfg) \<noteq> []"
    and "AuthenticateAgent r cfg = Some who" and "\<forall>en \<in> set ens. env_ok t0 p0 (cm_body req) en"
    and "comment_inv posted t0 p0 (scopedCommentKey lib (pp_id who) repo issueNumber (idempotencyHeader r))
           (commentRequestDigest lib cj repo issueNumber req) (cm_body req) s"
  shows "comment_inv posted t0 p0 (scopedCommentKey lib (pp_id who) repo issueNumber (idempotencyHeader r))
           (commentRequestDigest lib cj repo issueNumber req) (cm_body req)
           (retryComment hub lib cj cfg r req repo issueNumber ens s)"
  using assms(4,5)
  by (induction ens arbitrary: s) (simp_all add: handleCommentCreate_inv [OF assms(1-3)])

lemma retryComment_unauthenticated:
  "AuthenticateAgent r cfg = None \<Longrightarrow> retryComment hub lib cj cfg r req repo issueNumber ens s = s"
  by (induction ens arbitrary: s) (simp_all add: handleCommentCreate_def)

text \<open>C21. However often a comment request is retried under its idempotency key, with whatever failures of the
  state file and of GitHub in between, also calls that post the comment and lose the answer, at most one
  comment is posted. GitHub is assumed (\<open>comment_laws\<close>) to list at once all that was posted, in pages of a hundred; a call
  to comment either answers an error and posts nothing, or posts one comment with that body and an author, at \<open>t0\<close> or later, whatever it
  answers; nobody else comments on the issue meanwhile. Of each retry it is assumed (\<open>env_ok\<close>) that its time, less the clock
  skew the code allows, is not after \<open>t0\<close>, and that none of the comments from before is taken for the one to post.\<close>

theorem comment_posted_at_most_once:
  assumes "comment_laws hub repo issueNumber posted t0" and "ic_statePath (bc_idempotency cfg) \<noteq> []"
    and "\<forall>en \<in> set ens. env_ok t0 (posted (sv_github s)) (cm_body req) en"
    and "\<And>agentID. idem_get (sv_idem s) (scopedCommentKey lib agentID repo issueNumber (idempotencyHeader r)) = Some None"
  shows "posted (sv_github (retryComment hub lib cj cfg r req repo issueNumber ens s)) = posted (sv_github s) \<or>
         (\<exists>c. posted (sv_github (retryComment hub lib cj cfg r req repo issueNumber ens s)) = posted (sv_github s) @ [c] \<and>
              co_commentBody c = cm_body req)"
proof (cases "AuthenticateAgent r cfg")
  case None
  then show ?thesis by (simp add: retryComment_unauthenticated)
next
  case (Some who)
  have "comment_inv posted t0 (posted (sv_github s)) (scopedCommentKey lib (pp_id who) repo issueNumber (idempotencyHeader r))
      (commentRequestDigest lib cj repo issueNumber req) (cm_body req) s"
    using assms(4) [of "pp_id who"] by (simp add: comment_inv_def)
  from retryComment_inv [OF assms(1,2) Some assms(3) this] show ?thesis
    by (auto simp: comment_inv_def posted_once_def new_comment_def split: option.splits)
qed

text \<open>A GitHub that posts and always loses the answer.\<close>

definition lossyHub :: "issue_comment list github" where
  "lossyHub =
     \<lparr>hub_createPull = (\<lambda>app repo inst args g. (Inl [], g)), hub_getPull = (\<lambda>app repo inst n g. (Inl [], g)),
      hub_listPulls = (\<lambda>app repo inst q g. (Inl [], g)), hub_createIssue = (\<lambda>app repo inst t b ls g. (Inl [], g)),
      hub_createIssueComment = (\<lambda>app repo inst n body g.
        (Inl ''lost'', g @ [\<lparr>co_commentID = 1, co_commentBody = body, co_commentAuthor = ''bot'', co_commentURL = [],
           co_commentHTMLURL = [], co_commentCreatedAt = [], co_commentTime = Some 500\<rparr>])),
      hub_listIssueComments = (\<lambda>app repo inst n page g. (Inr (take 100 (drop (100 * (nat page - 1)) g)), g))\<rparr>"

lemma lossyHub_laws: "comment_laws lossyHub repo issueNumber (\<lambda>g. g) 500"
  by (auto simp: comment_laws_def lossyHub_def new_comment_def)

definition exampleLibs :: server_libs where
  "exampleLibs = \<lparr>li_regexps = (\<lambda>p. None), li_hmac = (\<lambda>k w. []), li_tokens = [], li_sha256 = (\<lambda>s. CHR ''d'' # s)\<rparr>"

definition exampleEnv :: request_env where
  "exampleEnv = \<lparr>en_opID = ''op-1'', en_limitFaults = no_faults, en_reserveFaults = no_faults, en_reserveNow = 400,
     en_storeFaults = no_faults, en_storeNow = 600\<rparr>"

definition exampleServer :: "'g \<Rightarrow> 'g server_state" where
  "exampleServer g = \<lparr>sv_limits = NoFile, sv_idem = NoFile, sv_github = g, sv_audit = []\<rparr>"

definition exampleComment :: comment_request where
  "exampleComment = \<lparr>cm_body = ''done'', cm_metadata = [], cm_permissions = []\<rparr>"

definition exampleHTTP :: http_request where
  "exampleHTTP = \<lparr>hr_header = (\<lambda>h. if h = ''X-Agent-ID'' then ''bot'' else if h = ''X-Agent-Secret'' then ''pw''
      else if h = ''Idempotency-Key'' then ''k1'' else []), hr_basicAuth = None\<rparr>"

definition exampleServerConfig :: broker_config where
  "exampleServerConfig = exampleConfig\<lparr>bc_idempotency := \<lparr>ic_statePath = ''/var/idem.json''\<rparr>,
     bc_agents := [exampleAgent\<lparr>ag_secret := ''pw'', ag_operations := [''pull.create'', ''issue.comment'', ''issue.create'']\<rparr>]\<rparr>"

theorem comment_posted_at_most_once_witness:
  "let s = retryComment lossyHub exampleLibs (\<lambda>repo n q. repo @ n @ cm_body q) exampleServerConfig exampleHTTP
             exampleComment ''acme/site'' ''3'' [exampleEnv, exampleEnv, exampleEnv] (exampleServer [])
   in length (sv_github s) \<le> 1"
proof -
  have "env_ok 500 [] ''done'' exampleEnv" by (simp add: env_ok_def exampleEnv_def clockSkew_def nsPerSec_def)
  then have "\<forall>en \<in> set [exampleEnv, exampleEnv, exampleEnv].
      env_ok 500 (sv_github (exampleServer [])) (cm_body exampleComment) en"
    by (simp add: exampleComment_def exampleServer_def)
  moreover have "ic_statePath (bc_idempotency exampleServerConfig) \<noteq> []" by (simp add: exampleServerConfig_def)
  moreover have "idem_get (sv_idem (exampleServer [])) k = Some None" for k by (simp add: idem_get_def exampleServer_def)
  ultimately have "sv_github (retryComment lossyHub exampleLibs (\<lambda>repo n q. repo @ n @ cm_body q) exampleServerConfig exampleHTTP
      exampleComment ''acme/site'' ''3'' [exampleEnv, exampleEnv, exampleEnv] (exampleServer [])) = [] \<or>
    (\<exists>c. sv_github (retryComment lossyHub exampleLibs (\<lambda>repo n q. repo @ n @ cm_body q) exampleServerConfig exampleHTTP
      exampleComment ''acme/site'' ''3'' [exampleEnv, exampleEnv, exampleEnv] (exampleServer [])) = [c])"
    using comment_posted_at_most_once [OF lossyHub_laws, where s = "exampleServer []" and req = exampleComment and
        ens = "[exampleEnv, exampleEnv, exampleEnv]" and cfg = exampleServerConfig and repo = "''acme/site''"
        and issueNumber = "''3''" and lib = exampleLibs and r = exampleHTTP and cj = "\<lambda>repo n q. repo @ n @ cm_body q"]
    by (auto simp: exampleServer_def)
  then show ?thesis by (auto simp: Let_def)
qed

end
