(* ===== verification/Server_Pulls.thy ===== *)
theory Server_Pulls
  imports Server_Issues Outbox Capability_Rest
begin

text \<open>
  The handler of \<open>pull.create\<close> (\<open>src/internal/server/server.go\<close>), alone and under authenticated
  correlation, with the verification of the run's capability (\<open>src/internal/server/capability.go\<close>). The
  state adds the correlation store. The private capability API is an argument that gives its answer to a
  handle; \<open>capTransport\<close> is that answer when the API is the one of package \<open>capability\<close>.
\<close>

section \<open>Verifying a capability\<close>

record verified_capability =
  vc_agentType :: string
  vc_mode :: string
  vc_runID :: string
  vc_workItemID :: string

definition capComplete :: "verified_capability \<Rightarrow> bool" where
  "capComplete v \<longleftrightarrow> vc_agentType v \<noteq> [] \<and> vc_mode v \<noteq> [] \<and> vc_runID v \<noteq> [] \<and> vc_workItemID v \<noteq> []"

datatype cap_verify_error = ErrCapMissing | ErrCapDenied | ErrCapUnavailable

text \<open>What comes back from the API: no answer, an answer that cannot be read, or a status and what decoding its
  body gives.\<close>

datatype cap_http = CapUnreachable | CapUnreadable | CapAnswer int "verified_capability option"

fun capVerify :: "cap_http \<Rightarrow> cap_verify_error + verified_capability" where
  "capVerify CapUnreachable = Inl ErrCapUnavailable"
| "capVerify CapUnreadable = Inl ErrCapUnavailable"
| "capVerify (CapAnswer status decoded) =
     (if status \<ge> 200 \<and> status < 300 then
        (case decoded of
           None \<Rightarrow> Inl ErrCapDenied
         | Some v \<Rightarrow> if \<not> capComplete v then Inl ErrCapDenied else Inr v)
      else if status \<ge> 500 then Inl ErrCapUnavailable
      else Inl ErrCapDenied)"

fun capStatus :: "cap_verify_error \<Rightarrow> int \<times> string" where
  "capStatus ErrCapMissing = (401, ''capability_required'')"
| "capStatus ErrCapUnavailable = (503, ''capability_unavailable'')"
| "capStatus ErrCapDenied = (403, ''capability_denied'')"

section \<open>Requests and identities\<close>

record pull_request =
  pc_title :: string
  pc_head :: string
  pc_base :: string
  pc_body :: string
  pc_draft :: bool
  pc_metadata :: "string gomap"
  pc_permissions :: "string list"

definition spoofCheck :: "string gomap \<Rightarrow> string \<Rightarrow> string \<Rightarrow> string" where
  "spoofCheck md key verified =
     (case gget md key of
        None \<Rightarrow> []
      | Some v \<Rightarrow> if trimSpace v \<noteq> [] \<and> trimSpace v \<noteq> verified then key else [])"

definition spoofedIdentityField :: "string gomap \<Rightarrow> verified_capability \<Rightarrow> string" where
  "spoofedIdentityField md c =
     (case find (\<lambda>m. m \<noteq> [])
        [spoofCheck md ''run_id'' (vc_runID c), spoofCheck md ''agent_type'' (vc_agentType c),
         spoofCheck md ''work_item_id'' (vc_workItemID c), spoofCheck md ''mode'' (vc_mode c)] of
        None \<Rightarrow> [] | Some m \<Rightarrow> m)"

definition nul :: string where
  "nul = [CHR 0x00]"

definition pullCreateOperationID ::
  "server_libs \<Rightarrow> string \<Rightarrow> string \<Rightarrow> string \<Rightarrow> string \<Rightarrow> string \<Rightarrow> string" where
  "pullCreateOperationID lib agentID repo head base keyDigest =
     ''op_'' @ li_sha256 lib (''pull.create'' @ nul @ agentID @ nul @ repo @ nul @ head @ nul @ base @ nul @ keyDigest)"

definition formatBool :: "bool \<Rightarrow> string" where
  "formatBool b = (if b then ''true'' else ''false'')"

definition pullCreateRequestDigest :: "server_libs \<Rightarrow> string \<Rightarrow> pull_request \<Rightarrow> string" where
  "pullCreateRequestDigest lib repo req =
     li_sha256 lib (repo @ nul @ pc_title req @ nul @ pc_head req @ nul @ pc_base req @ nul @ pc_body req @ nul @
                    formatBool (pc_draft req))"

definition scopedPullKey :: "server_libs \<Rightarrow> string \<Rightarrow> string \<Rightarrow> string \<Rightarrow> string" where
  "scopedPullKey lib agentID repo key = ''pull.create:'' @ agentID @ '':'' @ repo @ '':'' @ idempotencyKeyDigest lib key"

section \<open>Reconciling with GitHub\<close>

definition pullMatches :: "string \<Rightarrow> string \<Rightarrow> string \<Rightarrow> string \<Rightarrow> pull_summary \<Rightarrow> bool" where
  "pullMatches branch base title marker p \<longleftrightarrow>
     \<not> (trimPrefix (ps_headRef p) ''refs/heads/'' \<noteq> branch \<or> trimPrefix (ps_baseRef p) ''refs/heads/'' \<noteq> base \<or>
        ps_title p \<noteq> title \<or> \<not> containsStr (ps_body p) marker)"

fun bestPull :: "(pull_summary \<Rightarrow> bool) \<Rightarrow> pull_summary list \<Rightarrow> pull_summary option \<Rightarrow> pull_summary option" where
  "bestPull ok [] best = best"
| "bestPull ok (p # ps) best =
     (if \<not> ok p then bestPull ok ps best
      else if (case best of None \<Rightarrow> True | Some b \<Rightarrow> ps_number p < ps_number b) then bestPull ok ps (Some p)
      else bestPull ok ps best)"

definition pullResult :: "pull_summary \<Rightarrow> github_result" where
  "pullResult p = \<lparr>gr_url = ps_url p, gr_htmlURL = ps_htmlURL p, gr_number = ps_number p, gr_id = 0, gr_createdAt = []\<rparr>"

definition operationMarker :: "string \<Rightarrow> string" where
  "operationMarker operationID = ''operation_id: '' @ operationID"

definition openPullForOperation ::
  "'g github \<Rightarrow> string \<Rightarrow> string \<Rightarrow> int \<Rightarrow> string \<Rightarrow> string \<Rightarrow> string \<Rightarrow> string \<Rightarrow> 'g \<Rightarrow>
     (string + github_result option) \<times> 'g" where
  "openPullForOperation hub appName repo inst head base0 title operationID g =
     (let branch = trimPrefix head ''refs/heads/''; base = trimPrefix base0 ''refs/heads/'' in
      if branch = [] \<or> base = [] \<or> title = [] \<or> operationID = [] then (Inr None, g)
      else case cutSlash repo of
        None \<Rightarrow> (Inr None, g)
      | Some (own, _) \<Rightarrow>
          if own = [] then (Inr None, g)
          else
            case hub_listPulls hub appName repo inst
                   [(''state'', ''open''), (''head'', own @ '':'' @ branch), (''base'', base), (''per_page'', ''100'')] g of
              (Inl e, g') \<Rightarrow> (Inl e, g')
            | (Inr pulls, g') \<Rightarrow>
                (Inr (map_option pullResult
                   (bestPull (pullMatches branch base title (operationMarker operationID)) pulls None)), g'))"

text \<open>The result, with whether it was reconciled. A failure of the correlation store is \<open>Inl (Inr e)\<close>, one of
  GitHub \<open>Inl (Inl e)\<close>.\<close>

definition reconcileOrCreatePull ::
  "'g github \<Rightarrow> bool \<Rightarrow> string \<Rightarrow> string \<Rightarrow> int \<Rightarrow> pull_request \<Rightarrow> string \<Rightarrow> string \<Rightarrow> bool \<Rightarrow> corr_store \<Rightarrow> 'g \<Rightarrow>
     ((string + corr_error) + github_result \<times> bool) \<times> 'g" where
  "reconcileOrCreatePull hub lookupFails appName repo inst req body operationID pendingReplay corr g =
     (case correlationByOperation lookupFails operationID corr of
        Inr existing \<Rightarrow>
          (case hub_getPull hub appName repo inst (co_prNumber existing) g of
             (Inl e, g') \<Rightarrow> (Inl (Inl e), g')
           | (Inr pull, g') \<Rightarrow> (Inr (pullResult pull, True), g'))
      | Inl err \<Rightarrow>
          if err \<noteq> ErrNotFound then (Inl (Inr err), g)
          else
            (let search = openPullForOperation hub appName repo inst (pc_head req) (pc_base req) (pc_title req) operationID;
                 create = (\<lambda>g. case hub_createPull hub appName repo inst
                     \<lparr>pa_title = pc_title req, pa_head = pc_head req, pa_base = pc_base req, pa_body = body,
                      pa_draft = pc_draft req\<rparr> g of
                       (Inr out, g') \<Rightarrow> (Inr (out, False), g')
                     | (Inl e, g') \<Rightarrow>
                         (case search g' of
                            (Inr (Some open'), g'') \<Rightarrow> (Inr (open', True), g'')
                          | (_, g'') \<Rightarrow> (Inl (Inl e), g'')))
             in if pendingReplay then
                  (case search g of
                     (Inl e, g') \<Rightarrow> (Inl (Inl e), g')
                   | (Inr (Some open'), g') \<Rightarrow> (Inr (open', True), g')
                   | (Inr None, g') \<Rightarrow> create g')
                else create g))"

section \<open>The handler\<close>

record 'g pull_world =
  pw_server :: "'g server_state"
  pw_corr :: corr_store

record pull_env =
  pe_base :: request_env
  pe_lookupFails :: bool
  pe_corrFaults :: faults
  pe_corrNow :: gotime

definition identityOf :: "verified_capability \<Rightarrow> string \<Rightarrow> identity" where
  "identityOf c operationID =
     \<lparr>id_agentType = vc_agentType c, id_mode = vc_mode c, id_runID = vc_runID c, id_workItemID = vc_workItemID c,
      id_operationID = operationID\<rparr>"

text \<open>From the reservation on; \<open>ev\<close> is the audit event of the request.\<close>

definition correlatedCreate ::
  "'g github \<Rightarrow> (event_payload \<Rightarrow> int) \<Rightarrow> broker_config \<Rightarrow> pull_env \<Rightarrow> audit_event \<Rightarrow> policy_result \<Rightarrow> string \<Rightarrow> string \<Rightarrow>
     int \<Rightarrow> pull_request \<Rightarrow> string \<Rightarrow> string \<Rightarrow> string \<Rightarrow> identity \<Rightarrow> 'g pull_world \<Rightarrow> broker_response \<times> 'g pull_world" where
  "correlatedCreate hub jlen cfg pe ev res appName repo inst req body scopedKey requestDigest i w =
     (case ReserveExact (en_reserveFaults (pe_base pe)) (en_reserveNow (pe_base pe)) (bc_idempotency cfg) scopedKey
             ''pull.create'' requestDigest [] (sv_idem (pw_server w)) of
        (Inl e, fl) \<Rightarrow>
          (ErrorResponse 500 ''idempotency_error'' DecisionDeny None,
           w\<lparr>pw_server := logEvent (ev\<lparr>au_decision := DecisionDeny, au_error := AuFile e\<rparr>) ((pw_server w)\<lparr>sv_idem := fl\<rparr>)\<rparr>)
      | (Inr ans, fl) \<Rightarrow>
          (let s1 = (pw_server w)\<lparr>sv_idem := fl\<rparr>; rec = ra_record ans in
           if ra_conflict ans
           then (ErrorResponse 409 ''idempotency_key_conflict'' DecisionDeny None, w\<lparr>pw_server := s1\<rparr>)
           else if ra_found ans \<and> \<not> ir_pending rec
           then (ReplayResponse (ir_status rec) (ir_body rec), w\<lparr>pw_server := s1\<rparr>)
           else
             case reconcileOrCreatePull hub (pe_lookupFails pe) appName repo inst req body (id_operationID i)
                    (ra_found ans \<and> ir_pending rec) (pw_corr w) (sv_github s1) of
               (Inl e, g) \<Rightarrow>
                 (ErrorResponse 502 ''github_error'' (res_decision res) (Some res),
                  w\<lparr>pw_server := logEvent (ev\<lparr>au_runID := id_runID i, au_error := (case e of Inl t \<Rightarrow> AuGitHub t | Inr _ \<Rightarrow> AuOther)\<rparr>)
                     (s1\<lparr>sv_github := g\<rparr>)\<rparr>)
             | (Inr (out, reconciled), g) \<Rightarrow>
                 (let s2 = s1\<lparr>sv_github := g\<rparr> in
                  case Record jlen (pe_corrFaults pe) (pe_corrNow pe) i repo (gr_number out) (pw_corr w) of
                    (Inl e, corr) \<Rightarrow>
                      (ErrorResponse 500 ''correlation_error'' (res_decision res) None,
                       w\<lparr>pw_server := logEvent (ev\<lparr>au_runID := id_runID i, au_error := AuOther\<rparr>) s2, pw_corr := corr\<rparr>)
                  | (Inr _, corr) \<Rightarrow>
                      (let s3 = logEvent (ev\<lparr>au_runID := id_runID i, au_url := gr_htmlURL out,
                                   au_result := (if reconciled then ''reconciled'' else ''ok'')\<rparr>) s2
                       in case writeExactIdempotentJSON (pe_base pe) (bc_idempotency cfg) scopedKey ''pull.create'' requestDigest
                                 201 (resultJSON out) s3 of
                            (Inl _, s4) \<Rightarrow> (EmptyResponse, w\<lparr>pw_server := s4, pw_corr := corr\<rparr>)
                          | (Inr resp, s4) \<Rightarrow> (resp, w\<lparr>pw_server := s4, pw_corr := corr\<rparr>)))))"

definition pullCreateWithCorrelation ::
  "'g github \<Rightarrow> server_libs \<Rightarrow> (event_payload \<Rightarrow> int) \<Rightarrow> (string \<Rightarrow> cap_http) \<Rightarrow> broker_config \<Rightarrow> pull_env \<Rightarrow> http_request \<Rightarrow>
     principal \<Rightarrow> policy_result \<Rightarrow> string \<Rightarrow> string \<Rightarrow> int \<Rightarrow> pull_request \<Rightarrow> 'g pull_world \<Rightarrow> broker_response \<times> 'g pull_world" where
  "pullCreateWithCorrelation hub lib jlen transport cfg pe r who res appName repo inst req w =
     (let opID = en_opID (pe_base pe);
          deny = (\<lambda>code. (auditEvent opID (pp_id who) ''pull.create'' repo (pc_head req) DecisionDeny)\<lparr>au_error := AuText code\<rparr>);
          ev = auditEvent opID (pp_id who) ''pull.create'' repo (pc_head req) (res_decision res);
          logged = (\<lambda>code. w\<lparr>pw_server := logEvent (deny code) (pw_server w)\<rparr>);
          handle = trimSpace (hr_header r ''X-Agent-Capability'')
      in if handle = []
         then (ErrorResponse 401 ''capability_required'' DecisionDeny None, logged ''capability_required'')
         else case capVerify (transport handle) of
           Inl e \<Rightarrow> (ErrorResponse (fst (capStatus e)) (snd (capStatus e)) DecisionDeny None, logged (snd (capStatus e)))
         | Inr c \<Rightarrow>
             (let mismatch = spoofedIdentityField (pc_metadata req) c in
              if mismatch \<noteq> []
              then (ErrorResponse 403 ''identity_mismatch'' DecisionDeny None, logged (''identity_spoof:'' @ mismatch))
              else
                (let key = idempotencyHeader r in
                 if key = []
                 then (ErrorResponse 400 ''idempotency_key_required'' DecisionDeny None, logged ''idempotency_key_required'')
                 else
                   (let stableOpID = pullCreateOperationID lib (pp_id who) repo (pc_head req) (pc_base req)
                                       (idempotencyKeyDigest lib key);
                        body = pc_body req @
                          RenderBlock (WithBrokerFields (pc_metadata req) (pp_id who) stableOpID inst)
                    in correlatedCreate hub jlen cfg pe ev res appName repo inst req body
                         (scopedPullKey lib (pp_id who) repo key) (pullCreateRequestDigest lib repo req)
                         (identityOf c stableOpID) w))))"

definition pullPolicyRequest :: "principal \<Rightarrow> string \<Rightarrow> int \<Rightarrow> string \<Rightarrow> pull_request \<Rightarrow> policy_request" where
  "pullPolicyRequest who opID inst repo req =
     \<lparr>pr_agent = pp_agent who, pr_agentID = pp_id who, pr_repo = repo, pr_operation = ''pull.create'',
      pr_branch = pc_head req, pr_baseBranch = pc_base req, pr_permissions = pc_permissions req,
      pr_metadata = pc_metadata req,
      pr_locations = [(''request'', pc_metadata req),
                      (''pr_body'', WithBrokerFields (pc_metadata req) (pp_id who) opID inst)]\<rparr>"

text \<open>The steps after the guard: the budget, then the correlated or the plain creation.\<close>

definition pullReserveAndCreate ::
  "'g github \<Rightarrow> server_libs \<Rightarrow> (event_payload \<Rightarrow> int) \<Rightarrow> (string \<Rightarrow> cap_http) option \<Rightarrow> broker_config \<Rightarrow> pull_env \<Rightarrow> http_request \<Rightarrow>
     principal \<Rightarrow> policy_result \<Rightarrow> string \<Rightarrow> string \<Rightarrow> int \<Rightarrow> pull_request \<Rightarrow> string \<Rightarrow> audit_event \<Rightarrow> 'g pull_world \<Rightarrow>
     broker_response \<times> 'g pull_world" where
  "pullReserveAndCreate hub lib jlen correlation cfg pe r who res appName repo inst req body ev w =
     (case reserveMutation cfg (pe_base pe) (pp_id who) ''pull.create'' repo (pc_head req) (pc_metadata req) (pw_server w) of
        (Some resp, s1) \<Rightarrow> (resp, w\<lparr>pw_server := s1\<rparr>)
      | (None, s1) \<Rightarrow>
          (let w1 = w\<lparr>pw_server := s1\<rparr> in
           case correlation of
             Some transport \<Rightarrow> pullCreateWithCorrelation hub lib jlen transport cfg pe r who res appName repo inst req w1
           | None \<Rightarrow>
               (case hub_createPull hub appName repo inst
                       \<lparr>pa_title = pc_title req, pa_head = pc_head req, pa_base = pc_base req, pa_body = body,
                        pa_draft = pc_draft req\<rparr> (sv_github s1) of
                  (Inl e, g) \<Rightarrow>
                    (ErrorResponse 502 ''github_error'' (res_decision res) (Some res),
                     w1\<lparr>pw_server := logEvent (ev\<lparr>au_error := AuGitHub e\<rparr>) (s1\<lparr>sv_github := g\<rparr>)\<rparr>)
                | (Inr out, g) \<Rightarrow>
                    (OKResult 201 out,
                     w1\<lparr>pw_server := logEvent (ev\<lparr>au_url := gr_htmlURL out, au_result := ''ok''\<rparr>) (s1\<lparr>sv_github := g\<rparr>)\<rparr>))))"

definition handlePullCreate ::
  "'g github \<Rightarrow> server_libs \<Rightarrow> (event_payload \<Rightarrow> int) \<Rightarrow> (string \<Rightarrow> cap_http) option \<Rightarrow> broker_config \<Rightarrow> pull_env \<Rightarrow> http_request \<Rightarrow>
     pull_request option \<Rightarrow> string \<Rightarrow> 'g pull_world \<Rightarrow> broker_response \<times> 'g pull_world" where
  "handlePullCreate hub lib jlen correlation cfg pe r decoded repo w =
     (case AuthenticateAgent r cfg of
        None \<Rightarrow> (AuthChallenge, w)
      | Some who \<Rightarrow>
          (case decoded of
             None \<Rightarrow> (ErrorResponse 400 ''invalid_json'' DecisionDeny None, w)
           | Some req \<Rightarrow>
               (let appName = GitHubAppName (pp_agent who); opID = en_opID (pe_base pe) in
                case InstallationIDForApp (bc_github cfg) appName repo of
                  None \<Rightarrow> (errorResponse 403 ''installation_not_configured'' None, w)
                | Some inst \<Rightarrow>
                    (let enriched = WithBrokerFields (pc_metadata req) (pp_id who) opID inst;
                         res = policyCheck (li_regexps lib) (pullPolicyRequest who opID inst repo req);
                         ev = (\<lambda>d. (auditEvent opID (pp_id who) ''pull.create'' repo (pc_head req) d)
                                     \<lparr>au_permissions := pc_permissions req\<rparr>)
                     in if \<not> res_allowed res
                        then (errorResponse 403 ''policy_denied'' (Some res),
                              w\<lparr>pw_server := logEvent (ev (res_decision res)) (pw_server w)\<rparr>)
                        else
                          (let body = pc_body req @ RenderBlock enriched in
                           case blockUnsafeEgress lib opID (pp_id who) repo ''pull.create''
                                  [(''title'', pc_title req), (''body'', body), (''head'', pc_head req), (''base'', pc_base req)]
                                  (pw_server w) of
                             (Some resp, s1) \<Rightarrow> (resp, w\<lparr>pw_server := s1\<rparr>)
                           | (None, s1) \<Rightarrow>
                               (case checkBranchLifecycle hub appName inst repo (pc_head req) ''pull.create'' (pp_agent who)
                                       (sv_github s1) of
                                  (None, g) \<Rightarrow>
                                    pullReserveAndCreate hub lib jlen correlation cfg pe r who res appName repo inst req body
                                      (ev (res_decision res)) (w\<lparr>pw_server := s1\<lparr>sv_github := g\<rparr>\<rparr>)
                                | (Some guard, g) \<Rightarrow>
                                    (let s2 = s1\<lparr>sv_github := g\<rparr>;
                                         res1 = res\<lparr>res_warnings := res_warnings res @ res_warnings guard\<rparr>
                                     in if \<not> res_allowed guard
                                        then (errorResponse 403 ''policy_denied'' (Some guard),
                                              w\<lparr>pw_server := logEvent (ev (res_decision guard)) s2\<rparr>)
                                        else if res_decision guard = DecisionWarn
                                        then
                                          (let res2 = res1\<lparr>res_decision := DecisionWarn\<rparr> in
                                           pullReserveAndCreate hub lib jlen correlation cfg pe r who res2 appName repo inst req
                                             body (ev DecisionWarn)
                                             (w\<lparr>pw_server := logEvent ((ev DecisionWarn)\<lparr>au_result := ''branch_lifecycle_warning''\<rparr>) s2\<rparr>))
                                        else
                                          pullReserveAndCreate hub lib jlen correlation cfg pe r who res1 appName repo inst req
                                            body (ev (res_decision res1)) (w\<lparr>pw_server := s2\<rparr>))))))))"

section \<open>What each step can change\<close>

lemma openPullForOperation_found:
  assumes "openPullForOperation hub appName repo inst head base title operationID g = (Inr (Some out), g')"
  shows "\<exists>q pulls p. hub_listPulls hub appName repo inst q g = (Inr pulls, g') \<and>
    bestPull (pullMatches (trimPrefix head ''refs/heads/'') (trimPrefix base ''refs/heads/'') title (operationMarker operationID))
      pulls None = Some p \<and> out = pullResult p"
  using assms by (auto simp: openPullForOperation_def Let_def split: if_splits option.splits sum.splits prod.splits)

lemma bestPull_Some:
  "bestPull ok ps best = Some p \<Longrightarrow>
     (best = Some p \<or> p \<in> set ps \<and> ok p) \<and>
     (\<forall>q \<in> set ps. ok q \<longrightarrow> ps_number p \<le> ps_number q) \<and> (\<forall>b. best = Some b \<longrightarrow> ps_number p \<le> ps_number b)"
proof (induction ps arbitrary: best)
  case (Cons q ps)
  show ?case
  proof (cases "ok q \<and> (case best of None \<Rightarrow> True | Some b \<Rightarrow> ps_number q < ps_number b)")
    case True
    then have "bestPull ok ps (Some q) = Some p" using Cons.prems by (auto split: if_splits)
    from Cons.IH [OF this] True show ?thesis by (auto split: option.splits)
  next
    case False
    then have *: "bestPull ok ps best = Some p" using Cons.prems by (auto split: if_splits)
    from Cons.IH [OF this] False show ?thesis by (fastforce split: option.splits)
  qed
qed simp

lemma bestPull_None: "bestPull ok ps None = None \<longleftrightarrow> (\<forall>p \<in> set ps. \<not> ok p)"
proof -
  have keep: "bestPull ok xs (Some p) \<noteq> None" for p xs
    by (induction xs arbitrary: p) auto
  show ?thesis by (induction ps) (auto simp: keep)
qed

lemma correlatedCreate_corr:
  assumes "correlatedCreate hub jlen cfg pe ev res appName repo inst req body key digest i w = (resp, w')"
    and "pw_corr w' \<noteq> pw_corr w"
  shows "\<exists>n c. Record jlen (pe_corrFaults pe) (pe_corrNow pe) i repo (n) (pw_corr w) = (Inr c, pw_corr w')"
proof -
  have "\<exists>n q corr. Record jlen (pe_corrFaults pe) (pe_corrNow pe) i repo (n) (pw_corr w) = (q, corr) \<and> pw_corr w' = corr"
    using assms by (auto simp: correlatedCreate_def Let_def split: sum.splits prod.splits if_splits) blast+
  then obtain n q where rec: "Record jlen (pe_corrFaults pe) (pe_corrNow pe) i repo (n) (pw_corr w) = (q, pw_corr w')"
    by blast
  show ?thesis
  proof (cases q)
    case (Inl e)
    then have "pw_corr w' = pw_corr w" using Record_failed [of jlen "pe_corrFaults pe" "pe_corrNow pe" i repo n "pw_corr w" e] rec by simp
    with assms(2) show ?thesis by simp
  next
    case (Inr c)
    with rec show ?thesis by blast
  qed
qed

lemma pullCreateWithCorrelation_corr:
  assumes "pullCreateWithCorrelation hub lib jlen transport cfg pe r who res appName repo inst req w = (resp, w')"
    and "pw_corr w' \<noteq> pw_corr w"
  shows "\<exists>v op n c. capVerify (transport (trimSpace (hr_header r ''X-Agent-Capability''))) = Inr v \<and>
    op = pullCreateOperationID lib (pp_id who) repo (pc_head req) (pc_base req) (idempotencyKeyDigest lib (idempotencyHeader r)) \<and>
    spoofedIdentityField (pc_metadata req) v = [] \<and> idempotencyHeader r \<noteq> [] \<and>
    Record jlen (pe_corrFaults pe) (pe_corrNow pe) (identityOf v op) repo (n) (pw_corr w) = (Inr c, pw_corr w')"
proof -
  obtain v where v: "capVerify (transport (trimSpace (hr_header r ''X-Agent-Capability''))) = Inr v"
    using assms by (auto simp: pullCreateWithCorrelation_def Let_def split: if_splits sum.splits)
  then have sp: "spoofedIdentityField (pc_metadata req) v = []" and key: "idempotencyHeader r \<noteq> []"
    using assms by (auto simp: pullCreateWithCorrelation_def Let_def split: if_splits)
  let ?op = "pullCreateOperationID lib (pp_id who) repo (pc_head req) (pc_base req) (idempotencyKeyDigest lib (idempotencyHeader r))"
  obtain ev body where "correlatedCreate hub jlen cfg pe ev res appName repo inst req body (scopedPullKey lib (pp_id who) repo (idempotencyHeader r))
      (pullCreateRequestDigest lib repo req) (identityOf v ?op) w = (resp, w')"
    using assms v sp key by (auto simp: pullCreateWithCorrelation_def Let_def split: if_splits)
  from correlatedCreate_corr [OF this assms(2)] v sp key show ?thesis by blast
qed

lemma reserveMutation_state:
  "reserveMutation cfg en agentID operation repo branch md s = (resp, s') \<Longrightarrow> sv_github s' = sv_github s \<and> sv_idem s' = sv_idem s"
  by (auto simp: reserveMutation_def split: sum.splits prod.splits if_splits)

lemma pullReserveAndCreate_corr:
  assumes "pullReserveAndCreate hub lib jlen corr cfg pe r who res appName repo inst req body ev w = (resp, w')"
    and "pw_corr w' \<noteq> pw_corr w"
  shows "\<exists>transport s1. corr = Some transport \<and>
    pullCreateWithCorrelation hub lib jlen transport cfg pe r who res appName repo inst req (w\<lparr>pw_server := s1\<rparr>) = (resp, w')"
  using assms by (auto simp: pullReserveAndCreate_def Let_def split: option.splits sum.splits prod.splits)

text \<open>What has to hold before \<open>pull.create\<close> touches anything but the audit trail.\<close>

definition pull_gate ::
  "server_libs \<Rightarrow> broker_config \<Rightarrow> string \<Rightarrow> http_request \<Rightarrow> pull_request option \<Rightarrow> string \<Rightarrow> principal \<Rightarrow> pull_request \<Rightarrow> int \<Rightarrow> bool" where
  "pull_gate lib cfg opID r decoded repo who req inst \<longleftrightarrow>
     AuthenticateAgent r cfg = Some who \<and> decoded = Some req \<and>
     InstallationIDForApp (bc_github cfg) (GitHubAppName (pp_agent who)) repo = Some inst \<and>
     res_allowed (policyCheck (li_regexps lib) (pullPolicyRequest who opID inst repo req)) \<and>
     scanSequence (li_hmac lib) (li_tokens lib)
       [(''title'', pc_title req),
        (''body'', pc_body req @ RenderBlock (WithBrokerFields (pc_metadata req) (pp_id who) opID inst)),
        (''head'', pc_head req), (''base'', pc_base req)] = None"

lemma handlePullCreate_cases:
  assumes "handlePullCreate hub lib jlen corr cfg pe r decoded repo w = (resp, w')"
  shows "(pw_corr w' = pw_corr w \<and> sv_idem (pw_server w') = sv_idem (pw_server w) \<and>
          sv_limits (pw_server w') = sv_limits (pw_server w) \<and> sv_github (pw_server w') = sv_github (pw_server w)) \<or>
    (\<exists>who req inst. pull_gate lib cfg (en_opID (pe_base pe)) r decoded repo who req inst \<and>
       ((pw_corr w' = pw_corr w \<and> sv_idem (pw_server w') = sv_idem (pw_server w) \<and> sv_limits (pw_server w') = sv_limits (pw_server w)) \<or>
        (\<exists>res body ev s1. sv_idem s1 = sv_idem (pw_server w) \<and> sv_limits s1 = sv_limits (pw_server w) \<and>
           pullReserveAndCreate hub lib jlen corr cfg pe r who res (GitHubAppName (pp_agent who)) repo inst req body ev
             (w\<lparr>pw_server := s1\<rparr>) = (resp, w'))))"
proof -
  consider "AuthenticateAgent r cfg = None \<or> decoded = None"
    | who req where "AuthenticateAgent r cfg = Some who" "decoded = Some req"
        "InstallationIDForApp (bc_github cfg) (GitHubAppName (pp_agent who)) repo = None"
    | who req inst where "AuthenticateAgent r cfg = Some who" "decoded = Some req"
        "InstallationIDForApp (bc_github cfg) (GitHubAppName (pp_agent who)) repo = Some inst"
    by (metis not_None_eq)
  then show ?thesis
  proof cases
    case 1
    then show ?thesis using assms by (auto simp: handlePullCreate_def split: option.splits)
  next
    case 2
    then show ?thesis using assms by (auto simp: handlePullCreate_def)
  next
    case (3 who req inst)
    let ?opID = "en_opID (pe_base pe)" and ?app = "GitHubAppName (pp_agent who)"
    let ?body = "pc_body req @ RenderBlock (WithBrokerFields (pc_metadata req) (pp_id who) ?opID inst)"
    let ?segs = "[(''title'', pc_title req), (''body'', ?body), (''head'', pc_head req), (''base'', pc_base req)]"
    consider "\<not> res_allowed (policyCheck (li_regexps lib) (pullPolicyRequest who ?opID inst repo req))"
      | found where "res_allowed (policyCheck (li_regexps lib) (pullPolicyRequest who ?opID inst repo req))"
          "scanSequence (li_hmac lib) (li_tokens lib) ?segs = Some found"
      | "res_allowed (policyCheck (li_regexps lib) (pullPolicyRequest who ?opID inst repo req))"
          "scanSequence (li_hmac lib) (li_tokens lib) ?segs = None"
      by fastforce
    then show ?thesis
    proof cases
      case 1
      then show ?thesis using assms 3 by (auto simp: handlePullCreate_def Let_def)
    next
      case 2
      then show ?thesis using assms 3 by (auto simp: handlePullCreate_def Let_def blockUnsafeEgress_def)
    next
      case clean: 3
      have gate: "pull_gate lib cfg ?opID r decoded repo who req inst" using 3 clean by (simp add: pull_gate_def)
      have egress: "blockUnsafeEgress lib ?opID (pp_id who) repo ''pull.create'' ?segs (pw_server w) = (None, pw_server w)"
        using clean(2) by (simp add: blockUnsafeEgress_def)
      have "(pw_corr w' = pw_corr w \<and> sv_idem (pw_server w') = sv_idem (pw_server w) \<and> sv_limits (pw_server w') = sv_limits (pw_server w)) \<or>
        (\<exists>res body ev s1. sv_idem s1 = sv_idem (pw_server w) \<and> sv_limits s1 = sv_limits (pw_server w) \<and>
           pullReserveAndCreate hub lib jlen corr cfg pe r who res ?app repo inst req body ev (w\<lparr>pw_server := s1\<rparr>) = (resp, w'))"
      proof (cases "checkBranchLifecycle hub ?app inst repo (pc_head req) ''pull.create'' (pp_agent who) (sv_github (pw_server w))")
        case (Pair verdict g)
        show ?thesis
        proof (cases verdict)
          case None
          then show ?thesis using assms 3 clean(1) egress Pair by (auto simp: handlePullCreate_def Let_def)
        next
          case (Some guard)
          then show ?thesis using assms 3 clean(1) egress Pair
            by (auto simp: handlePullCreate_def Let_def split: if_splits)
        qed
      qed
      with gate show ?thesis by blast
    qed
  qed
qed

section \<open>The capability API behind the verifier\<close>

definition noClaims :: verified_capability where
  "noClaims = \<lparr>vc_agentType = [], vc_mode = [], vc_runID = [], vc_workItemID = []\<rparr>"

text \<open>The answer of the capability API of a store to the verifier's request, whose body of a handle is short.
  An error body decodes to a response without claims.\<close>

definition capTransport ::
  "(string \<Rightarrow> string) \<Rightarrow> string \<Rightarrow> string \<Rightarrow> cap_call \<Rightarrow> cap_store \<Rightarrow> string \<Rightarrow> cap_http" where
  "capTransport sha apiToken token k store handle =
     (case fst (capServeHTTP sha True apiToken k k
             \<lparr>wr_method = ''POST'', wr_path = ''/v1/capabilities/verify'', wr_authorization = ''Bearer '' @ token,
              wr_bodyFails = False, wr_bodyLength = int (length handle) + 13\<rparr>
             \<lparr>cb_handle = Some handle, cb_reserve = None\<rparr> store) of
        CapVerifyResponse c models expiry res \<Rightarrow>
          CapAnswer 200 (Some \<lparr>vc_agentType = cl_agentType c, vc_mode = cl_mode c, vc_runID = cl_runID c,
                               vc_workItemID = cl_workItemID c\<rparr>)
      | CapReserveResponse res \<Rightarrow> CapAnswer 200 (Some noClaims)
      | CapNoContent \<Rightarrow> CapAnswer 204 None
      | CapError status code \<Rightarrow> CapAnswer status (Some noClaims)
      | CapPlainNotFound \<Rightarrow> CapAnswer 404 None)"

lemma capVerify_transport:
  assumes "capVerify (capTransport sha apiToken token k store handle) = Inr v"
  shows "\<exists>c res. Verify sha (cc_faults k) (cc_clock k) handle store = Inr (c, res) \<and>
    vc_agentType v = cl_agentType c \<and> vc_mode v = cl_mode c \<and> vc_runID v = cl_runID c \<and> vc_workItemID v = cl_workItemID c"
proof -
  let ?r = "\<lparr>wr_method = ''POST'', wr_path = ''/v1/capabilities/verify'', wr_authorization = ''Bearer '' @ token,
              wr_bodyFails = False, wr_bodyLength = int (length handle) + 13\<rparr>"
  let ?b = "\<lparr>cb_handle = Some handle, cb_reserve = None\<rparr>"
  have path: "trimSlashes (trimPrefix ''/v1/capabilities/verify'' ''/v1/capabilities/'') = ''verify''" by code_simp
  obtain c models expiry res where resp: "fst (capServeHTTP sha True apiToken k k ?r ?b store) = CapVerifyResponse c models expiry res"
    and v: "v = \<lparr>vc_agentType = cl_agentType c, vc_mode = cl_mode c, vc_runID = cl_runID c, vc_workItemID = cl_workItemID c\<rparr>"
    using assms by (auto simp: capTransport_def noClaims_def capComplete_def split: cap_response.splits if_splits)
  then have "fst (handleVerify sha k ?r ?b store) = CapVerifyResponse c models expiry res"
    using path by (auto simp: capServeHTTP_def Let_def split: if_splits)
  then have "Verify sha (cc_faults k) (cc_clock k) handle store = Inr (c, res)"
    by (auto simp: handleVerify_def decodeCapRequest_def writeCapStoreError_def split: if_splits sum.splits)
  with v show ?thesis by simp
qed

section \<open>The marker\<close>

text \<open>A list that has a character once has it at one place.\<close>

lemma split_once:
  assumes "xs @ c # ys = us @ c # vs" "c \<notin> set xs" "c \<notin> set ys"
  shows "us = xs"
proof -
  have "count_list (xs @ c # ys) c = 1" using assms(2,3) by (simp add: count_notin)
  then have "count_list us c = 0" using assms(1) by simp
  then have "c \<notin> set us" by (simp add: count_list_0_iff)
  moreover have "takeWhile (\<lambda>x. x \<noteq> c) (xs @ c # ys) = xs" using assms(2) by (induction xs) auto
  moreover have "c \<notin> set us \<Longrightarrow> takeWhile (\<lambda>x. x \<noteq> c) (us @ c # vs) = us" by (induction us) auto
  ultimately show ?thesis using assms(1) by simp
qed

lemma containsStr_split: "containsStr s m \<Longrightarrow> \<exists>u v. s = u @ m @ v"
proof (induction s)
  case (Cons c s)
  then consider "hasPrefix (c # s) m" | u v where "s = u @ m @ v" by auto
  then show ?case
  proof cases
    case 1
    then have "c # s = [] @ m @ drop (length m) (c # s)" by (metis append_Nil append_take_drop_id hasPrefix_def)
    then show ?thesis by blast
  next
    case 2
    then show ?thesis by (metis append_Cons)
  qed
qed simp

lemma formatInt_no_underscore: "CHR ''_'' \<notin> set (formatInt n)"
proof -
  have digit: "char_of (48 + d :: nat) \<noteq> CHR ''_''" if small: "d < 10" for d
  proof
    assume "char_of (48 + d :: nat) = CHR ''_''"
    then have "(of_char (char_of (48 + d :: nat)) :: nat) = of_char (CHR ''_'')" by (rule arg_cong)
    then have "(48 + d) mod 256 = (95 :: nat)" by simp
    with small show False by simp
  qed
  have digits: "CHR ''_'' \<notin> set (nat_digits k)" for k
  proof (induction k rule: nat_digits.induct)
    case (1 k)
    show ?case
      using 1 digit [of k] digit [of "k mod 10"] by (subst nat_digits.simps) auto
  qed
  then show ?thesis by (simp add: formatInt_def)
qed

text \<open>The block of an operation names it once, after \<open>Broker-Operation-Id\<close>.\<close>

lemma rendered_block_split:
  assumes "CHR ''_'' \<notin> set agentID" "op = ''op_'' @ h" "CHR ''_'' \<notin> set h"
  shows "\<exists>pre post. RenderBlock (WithBrokerFields [] agentID op inst) = pre @ op @ post \<and>
    CHR ''_'' \<notin> set pre \<and> CHR ''_'' \<notin> set post"
proof -
  let ?nl = "[CHR 0x0A]"
  let ?head = "[CHR 0x0A, CHR 0x0A] @ ''<!-- gh-agent-broker:metadata'' @ ?nl"
  let ?agent = "if agentID \<noteq> [] then ''Agent-Id: '' @ agentID @ ?nl else []"
  let ?inst = "if inst \<noteq> 0 then ''GitHub-App-Installation-Id: '' @ formatInt inst @ ?nl else []"
  have "RenderBlock (WithBrokerFields [] agentID op inst) =
      (?head @ ?agent @ ''Broker-Operation-Id: '') @ op @ (?nl @ ?inst @ ''-->'' @ ?nl)"
    using assms(2) by (simp add: RenderBlock_def WithBrokerFields_def gstr_def)
  moreover have "CHR ''_'' \<notin> set (?head @ ?agent @ ''Broker-Operation-Id: '')" using assms(1) by simp
  moreover have "CHR ''_'' \<notin> set (?nl @ ?inst @ ''-->'' @ ?nl)" using formatInt_no_underscore by simp
  ultimately show ?thesis by blast
qed

lemma own_body_has_no_marker:
  assumes "CHR ''_'' \<notin> set body" "CHR ''_'' \<notin> set agentID" "op = ''op_'' @ h" "CHR ''_'' \<notin> set h"
  shows "\<not> containsStr (body @ RenderBlock (WithBrokerFields [] agentID op inst)) (operationMarker op)"
proof
  assume "containsStr (body @ RenderBlock (WithBrokerFields [] agentID op inst)) (operationMarker op)"
  then obtain u v where "body @ RenderBlock (WithBrokerFields [] agentID op inst) = u @ operationMarker op @ v"
    using containsStr_split by blast
  moreover obtain pre post where "RenderBlock (WithBrokerFields [] agentID op inst) = pre @ op @ post"
    and clean: "CHR ''_'' \<notin> set pre" "CHR ''_'' \<notin> set post"
    using rendered_block_split [OF assms(2-4)] by blast
  ultimately have eq: "(body @ pre @ ''op'') @ CHR ''_'' # (h @ post) =
      (u @ ''operation'') @ CHR ''_'' # (''id: op_'' @ h @ v)"
    using assms(3) by (simp add: operationMarker_def)
  have "u @ ''operation'' = body @ pre @ ''op''"
    using split_once [OF eq] assms(1,4) clean by simp
  then have "last (u @ ''operation'') = last (body @ pre @ ''op'')" by (rule arg_cong)
  then show False by simp
qed

section \<open>Properties\<close>

lemma spoofedIdentityField_none:
  assumes "spoofedIdentityField md c = []" and "gget md key = Some v"
    and "(key, x) \<in> set [(''run_id'', vc_runID c), (''agent_type'', vc_agentType c),
                          (''work_item_id'', vc_workItemID c), (''mode'', vc_mode c)]"
  shows "trimSpace v = [] \<or> trimSpace v = x"
proof -
  have "spoofCheck md key x = []"
    using assms(1,3) by (auto simp: spoofedIdentityField_def split: if_splits)
  moreover have "key \<noteq> []" using assms(3) by auto
  ultimately show ?thesis using assms(2) by (auto simp: spoofCheck_def split: if_splits)
qed

text \<open>What a verified handle says about the store.\<close>

definition live_handle :: "(string \<Rightarrow> string) \<Rightarrow> gotime \<Rightarrow> string \<Rightarrow> claims \<Rightarrow> cap_store \<Rightarrow> bool" where
  "live_handle sha now handle c store \<longleftrightarrow>
     (\<exists>row. findRow store (sha handle) = Some row \<and> cp_state row \<noteq> CapRevoked \<and> now < cp_expiry row \<and>
        NewClaims (rowInput row (cp_expiry row)) = Inr c)"

lemma Verify_live:
  assumes "Verify sha f clk handle store = Inr (c, res)"
  shows "live_handle sha (clk 0) handle c store"
proof -
  have "clk 0 < cl_expiry c" and look: "scanCapabilityTx (f 1) (sha handle) store = Inr (c, res)"
    using assms by (auto simp: Verify_def cap_lookup_def claimsValidate_def digestOf_def split: sum.splits if_splits)
  moreover obtain row where "findRow store (sha handle) = Some row" "cp_state row \<noteq> CapRevoked"
      "NewClaims (rowInput row (cp_expiry row)) = Inr c"
    using look by (auto simp: scanCapabilityTx_def parseStoreTime_def split: sum.splits if_splits option.splits)
  moreover have "cl_expiry c = cp_expiry row" if n: "NewClaims (rowInput row (cp_expiry row)) = Inr c" for row
    using n by (auto simp: NewClaims_def rowInput_def split: if_splits option.splits)
  ultimately show ?thesis by (auto simp: live_handle_def)
qed

definition claimed_identity :: "claims \<Rightarrow> string \<Rightarrow> identity" where
  "claimed_identity c op =
     \<lparr>id_agentType = cl_agentType c, id_mode = cl_mode c, id_runID = cl_runID c, id_workItemID = cl_workItemID c,
      id_operationID = op\<rparr>"

text \<open>The identity fields of the caller's metadata are absent, blank, or what the claims say.\<close>

definition identity_agrees :: "string gomap \<Rightarrow> claims \<Rightarrow> bool" where
  "identity_agrees md c \<longleftrightarrow>
     (\<forall>(key, x) \<in> set [(''run_id'', cl_runID c), (''agent_type'', cl_agentType c),
                       (''work_item_id'', cl_workItemID c), (''mode'', cl_mode c)].
        \<forall>v. gget md key = Some v \<longrightarrow> trimSpace v = [] \<or> trimSpace v = x)"

lemma correlation_gate:
  assumes "handlePullCreate hub lib jlen (Some (capTransport sha apiToken token k store)) cfg pe r decoded repo w = (resp, w')"
    and "pw_corr w' \<noteq> pw_corr w"
  shows "\<exists>who req inst c n op recorded. pull_gate lib cfg (en_opID (pe_base pe)) r decoded repo who req inst \<and>
       live_handle sha (cc_clock k 0) (trimSpace (hr_header r ''X-Agent-Capability'')) c store \<and>
       identity_agrees (pc_metadata req) c \<and>
       op = pullCreateOperationID lib (pp_id who) repo (pc_head req) (pc_base req)
              (idempotencyKeyDigest lib (idempotencyHeader r)) \<and>
       Record jlen (pe_corrFaults pe) (pe_corrNow pe) (claimed_identity c op) repo n (pw_corr w) = (Inr recorded, pw_corr w')"
proof -
  note run = assms(1) and changed = assms(2)
  let ?corr = "Some (capTransport sha apiToken token k store)" and ?h = "trimSpace (hr_header r ''X-Agent-Capability'')"
  let ?opOf = "\<lambda>who req. pullCreateOperationID lib (pp_id who) repo (pc_head req) (pc_base req)
              (idempotencyKeyDigest lib (idempotencyHeader r))"
  obtain who req inst res body ev s1 where gate: "pull_gate lib cfg (en_opID (pe_base pe)) r decoded repo who req inst"
    and rc: "pullReserveAndCreate hub lib jlen ?corr cfg pe r who res (GitHubAppName (pp_agent who)) repo inst req body ev
             (w\<lparr>pw_server := s1\<rparr>) = (resp, w')"
    using handlePullCreate_cases [OF run] changed by blast
  have ch1: "pw_corr w' \<noteq> pw_corr (w\<lparr>pw_server := s1\<rparr>)" using changed by simp
  obtain s2 where pc: "pullCreateWithCorrelation hub lib jlen (capTransport sha apiToken token k store) cfg pe r who res
      (GitHubAppName (pp_agent who)) repo inst req (w\<lparr>pw_server := s2\<rparr>) = (resp, w')"
    using pullReserveAndCreate_corr [OF rc ch1] by auto
  have ch2: "pw_corr w' \<noteq> pw_corr (w\<lparr>pw_server := s2\<rparr>)" using changed by simp
  obtain v n recorded where ver: "capVerify (capTransport sha apiToken token k store ?h) = Inr v"
    and sp: "spoofedIdentityField (pc_metadata req) v = []"
    and rec: "Record jlen (pe_corrFaults pe) (pe_corrNow pe) (identityOf v (?opOf who req)) repo n (pw_corr w) = (Inr recorded, pw_corr w')"
    using pullCreateWithCorrelation_corr [OF pc ch2] by auto
  obtain c rs where vc: "Verify sha (cc_faults k) (cc_clock k) ?h store = Inr (c, rs)"
    and eqs: "vc_agentType v = cl_agentType c" "vc_mode v = cl_mode c" "vc_runID v = cl_runID c" "vc_workItemID v = cl_workItemID c"
    using capVerify_transport [OF ver] by blast
  have ident: "identityOf v (?opOf who req) = claimed_identity c (?opOf who req)"
    using eqs by (simp add: identityOf_def claimed_identity_def)
  have fields: "identity_agrees (pc_metadata req) c"
    using spoofedIdentityField_none [OF sp] unfolding eqs identity_agrees_def by blast
  show ?thesis
    using gate Verify_live [OF vc] fields rec unfolding ident by blast
qed

text \<open>C22. A run is correlated with a pull request only under a live capability of its own. Whatever the
  request, the correlations stay as they were, or the request came from an authenticated agent whose
  \<open>pull.create\<close> the policy allows and whose text passed the credential scan; the handle in
  \<open>X-Agent-Capability\<close> is in the capability store, not revoked and not expired; no identity field of the
  caller's metadata contradicts its claims; and what is recorded is one correlation, of exactly the identity in the
  claims, under the operation id derived from agent, repository, branches and idempotency key.\<close>

theorem correlated_pull_needs_live_capability:
  "let w' = snd (handlePullCreate hub lib jlen (Some (capTransport sha apiToken token k store)) cfg pe r decoded repo w) in
   pw_corr w' = pw_corr w \<or>
   (\<exists>who req inst c n op recorded. pull_gate lib cfg (en_opID (pe_base pe)) r decoded repo who req inst \<and>
      live_handle sha (cc_clock k 0) (trimSpace (hr_header r ''X-Agent-Capability'')) c store \<and>
      identity_agrees (pc_metadata req) c \<and>
      op = pullCreateOperationID lib (pp_id who) repo (pc_head req) (pc_base req)
             (idempotencyKeyDigest lib (idempotencyHeader r)) \<and>
      Record jlen (pe_corrFaults pe) (pe_corrNow pe) (claimed_identity c op) repo n (pw_corr w) = (Inr recorded, pw_corr w'))"
proof -
  let ?h = "handlePullCreate hub lib jlen (Some (capTransport sha apiToken token k store)) cfg pe r decoded repo w"
  have "?h = (fst ?h, snd ?h)" by simp
  from correlation_gate [OF this] show ?thesis unfolding Let_def by blast
qed

text \<open>A pull request that is adopted instead of created is exactly the one of the operation: it is the
  pull request of the correlation already recorded for the operation, or an open pull request that GitHub lists
  with the same head, base and title and the operation's marker in its body, and no matching one has a lower number.\<close>

theorem adopted_pull_is_exact:
  assumes "reconcileOrCreatePull hub lookupFails appName repo inst req body op pending corr g = (Inr (out, True), g')"
  shows "(\<exists>c g0 p. correlationByOperation lookupFails op corr = Inr c \<and>
            hub_getPull hub appName repo inst (co_prNumber c) g0 = (Inr p, g') \<and> out = pullResult p) \<or>
    (\<exists>q g0 pulls p. hub_listPulls hub appName repo inst q g0 = (Inr pulls, g') \<and> p \<in> set pulls \<and> out = pullResult p \<and>
       pullMatches (trimPrefix (pc_head req) ''refs/heads/'') (trimPrefix (pc_base req) ''refs/heads/'') (pc_title req)
         (operationMarker op) p \<and>
       (\<forall>p' \<in> set pulls. pullMatches (trimPrefix (pc_head req) ''refs/heads/'') (trimPrefix (pc_base req) ''refs/heads/'')
           (pc_title req) (operationMarker op) p' \<longrightarrow> ps_number p \<le> ps_number p'))"
proof (cases "correlationByOperation lookupFails op corr")
  case (Inr c)
  then show ?thesis using assms by (auto simp: reconcileOrCreatePull_def split: sum.splits prod.splits)
next
  case (Inl err)
  have "\<exists>g0. openPullForOperation hub appName repo inst (pc_head req) (pc_base req) (pc_title req) op g0 = (Inr (Some out), g')"
    using assms Inl
    by (auto simp: reconcileOrCreatePull_def Let_def split: sum.splits prod.splits if_splits option.splits)
  then obtain g0 q pulls p where "hub_listPulls hub appName repo inst q g0 = (Inr pulls, g')" "out = pullResult p"
    and best: "bestPull (pullMatches (trimPrefix (pc_head req) ''refs/heads/'') (trimPrefix (pc_base req) ''refs/heads/'')
        (pc_title req) (operationMarker op)) pulls None = Some p"
    using openPullForOperation_found by metis
  with bestPull_Some [OF best] show ?thesis by blast
qed

text \<open>A GitHub that keeps the pull requests it opens.\<close>

definition pullHub :: "pull_summary list github" where
  "pullHub =
     \<lparr>hub_createPull = (\<lambda>app repo inst args g.
        (Inr \<lparr>gr_url = [], gr_htmlURL = [], gr_number = int (length g) + 1, gr_id = 0, gr_createdAt = []\<rparr>,
         g @ [\<lparr>ps_number = int (length g) + 1, ps_state = ''open'', ps_title = pa_title args, ps_body = pa_body args,
               ps_headRef = pa_head args, ps_baseRef = pa_base args, ps_merged = False, ps_mergedAt = [], ps_url = [],
               ps_htmlURL = []\<rparr>])),
      hub_getPull = (\<lambda>app repo inst n g. (case find (\<lambda>p. ps_number p = n) g of None \<Rightarrow> Inl ''404'' | Some p \<Rightarrow> Inr p, g)),
      hub_listPulls = (\<lambda>app repo inst q g. (Inr g, g)), hub_createIssue = (\<lambda>app repo inst t b ls g. (Inl [], g)),
      hub_createIssueComment = (\<lambda>app repo inst n body g. (Inl [], g)),
      hub_listIssueComments = (\<lambda>app repo inst n page g. (Inr [], g))\<rparr>"

definition examplePull :: pull_request where
  "examplePull = \<lparr>pc_title = ''t'', pc_head = ''agent/x'', pc_base = ''main'', pc_body = ''b'', pc_draft = False,
     pc_metadata = [], pc_permissions = []\<rparr>"

definition openedPull :: "int \<Rightarrow> string \<Rightarrow> pull_summary" where
  "openedPull n body = \<lparr>ps_number = n, ps_state = ''open'', ps_title = ''t'', ps_body = body, ps_headRef = ''agent/x'',
     ps_baseRef = ''main'', ps_merged = False, ps_mergedAt = [], ps_url = [], ps_htmlURL = []\<rparr>"

theorem adopted_pull_is_exact_witness:
  "reconcileOrCreatePull pullHub False [] ''o/r'' 1 examplePull ''b'' ''op9'' True (exampleOutbox 0)
     [openedPull 4 ''operation_id: op9'', openedPull 3 ''operation_id: op9''] =
   (Inr (pullResult (openedPull 3 ''operation_id: op9''), True),
    [openedPull 4 ''operation_id: op9'', openedPull 3 ''operation_id: op9'']) \<and>
   (\<exists>p \<in> set [openedPull 4 ''operation_id: op9'', openedPull 3 ''operation_id: op9''].
      pullResult (openedPull 3 ''operation_id: op9'') = pullResult p)"
proof -
  have run: "reconcileOrCreatePull pullHub False [] ''o/r'' 1 examplePull ''b'' ''op9'' True (exampleOutbox 0)
     [openedPull 4 ''operation_id: op9'', openedPull 3 ''operation_id: op9''] =
   (Inr (pullResult (openedPull 3 ''operation_id: op9''), True),
    [openedPull 4 ''operation_id: op9'', openedPull 3 ''operation_id: op9''])"
    by code_simp
  have none: "correlationByOperation False ''op9'' (exampleOutbox 0) = Inl ErrNotFound" by code_simp
  show ?thesis using adopted_pull_is_exact [OF run] run none by (auto simp: pullHub_def)
qed

text \<open>A retry after an interrupted attempt does not recognise the pull request that the attempt opened.
  The broker renders the operation as \<open>Broker-Operation-Id: op_...\<close>, and looks for \<open>operation_id: op_...\<close>; so,
  unless the agent's own text holds that marker, the retry opens the pull request a second time.\<close>

theorem pending_retry_opens_a_second_pull:
  assumes "\<And>x. CHR ''_'' \<notin> set (li_sha256 lib x)" and "CHR ''_'' \<notin> set (pc_body req)" and "CHR ''_'' \<notin> set agentID"
    and "pc_metadata req = []"
    and "op = pullCreateOperationID lib agentID repo (pc_head req) (pc_base req) keyDigest"
    and "body = pc_body req @ RenderBlock (WithBrokerFields (pc_metadata req) agentID op inst)"
    and "correlationByOperation lookupFails op corr = Inl ErrNotFound"
    and "\<And>q. hub_listPulls hub appName repo inst q g = (Inr pulls, g)" and "\<forall>p \<in> set pulls. ps_body p = body"
    and "hub_createPull hub appName repo inst
       \<lparr>pa_title = pc_title req, pa_head = pc_head req, pa_base = pc_base req, pa_body = body, pa_draft = pc_draft req\<rparr> g =
       (Inr out, g')"
  shows "reconcileOrCreatePull hub lookupFails appName repo inst req body op True corr g = (Inr (out, False), g')"
proof -
  have "\<not> containsStr body (operationMarker op)"
    using own_body_has_no_marker [of "pc_body req" agentID op _ inst] assms(1-6) by (simp add: pullCreateOperationID_def)
  then have "\<not> pullMatches branch base title (operationMarker op) p" if p: "p \<in> set pulls" for branch base title p
    using p assms(9) by (simp add: pullMatches_def)
  then have "openPullForOperation hub appName repo inst (pc_head req) (pc_base req) (pc_title req) op g = (Inr None, g)"
    using assms(8) by (auto simp: openPullForOperation_def Let_def bestPull_None split: option.splits)
  then show ?thesis using assms(7,10) by (simp add: reconcileOrCreatePull_def)
qed

definition plainLibs :: server_libs where
  "plainLibs = exampleLibs\<lparr>li_sha256 := (\<lambda>x. ''d1'')\<rparr>"

theorem pending_retry_opens_a_second_pull_witness:
  "let op = pullCreateOperationID plainLibs ''bot'' ''o/r'' ''agent/x'' ''main'' ''k'';
       body = ''b'' @ RenderBlock (WithBrokerFields [] ''bot'' op 1)
   in fst (reconcileOrCreatePull pullHub False [] ''o/r'' 1 examplePull body op True (exampleOutbox 0) [openedPull 1 body]) =
      Inr (\<lparr>gr_url = [], gr_htmlURL = [], gr_number = 2, gr_id = 0, gr_createdAt = []\<rparr>, False)"
proof -
  let ?op = "pullCreateOperationID plainLibs ''bot'' ''o/r'' ''agent/x'' ''main'' ''k''"
  let ?body = "''b'' @ RenderBlock (WithBrokerFields [] ''bot'' ?op 1)"
  have none: "correlationByOperation False ?op (exampleOutbox 0) = Inl ErrNotFound" by code_simp
  have "reconcileOrCreatePull pullHub False [] ''o/r'' 1 examplePull ?body ?op True (exampleOutbox 0) [openedPull 1 ?body] =
    (Inr (\<lparr>gr_url = [], gr_htmlURL = [], gr_number = 2, gr_id = 0, gr_createdAt = []\<rparr>, False),
     [openedPull 1 ?body, openedPull 2 ?body])"
    by (rule pending_retry_opens_a_second_pull [where lib = plainLibs and agentID = "''bot''" and keyDigest = "''k''" and
          pulls = "[openedPull 1 ?body]"])
      (use none in \<open>simp_all add: plainLibs_def pullHub_def examplePull_def openedPull_def\<close>)
  then show ?thesis by (simp add: Let_def)
qed

text \<open>When the pull request is open and correlated but its idempotency record cannot be stored, the request is
  answered with an empty success.\<close>

lemma failed_store_answers_empty:
  fixes w :: "'g pull_world"
  assumes "ReserveExact (en_reserveFaults (pe_base pe)) (en_reserveNow (pe_base pe)) (bc_idempotency cfg) key ''pull.create'' digest []
      (sv_idem (pw_server w)) = (Inr ans, fl)" "\<not> ra_conflict ans" "\<not> ra_found ans"
    and "reconcileOrCreatePull hub (pe_lookupFails pe) appName repo inst req body (id_operationID i) False (pw_corr w)
      (sv_github (pw_server w)) = (Inr (out, reconciled), g)"
    and "Record jlen (pe_corrFaults pe) (pe_corrNow pe) i repo (gr_number out) (pw_corr w) = (Inr c, corr)"
    and "\<And>s :: 'g server_state. \<exists>e. fst (writeExactIdempotentJSON (pe_base pe) (bc_idempotency cfg) key ''pull.create'' digest 201 (resultJSON out) s) = Inl e"
  shows "fst (correlatedCreate hub jlen cfg pe ev res appName repo inst req body key digest i w) = EmptyResponse"
  using assms(1-5) assms(6)
    [of "logEvent (ev\<lparr>au_runID := id_runID i, au_url := gr_htmlURL out,
        au_result := (if reconciled then ''reconciled'' else ''ok'')\<rparr>) ((pw_server w)\<lparr>sv_idem := fl, sv_github := g\<rparr>)"]
  by (simp add: correlatedCreate_def Let_def split_beta split: sum.splits) auto

text \<open>Requests that differ in their metadata and permissions only have the same digest, and so replay each other's
  answer instead of conflicting.\<close>

lemma request_digest_ignores_metadata:
  "pullCreateRequestDigest lib repo (req\<lparr>pc_metadata := md, pc_permissions := ps\<rparr>) = pullCreateRequestDigest lib repo req"
  by (simp add: pullCreateRequestDigest_def)

end
