(* ===== verification/Launch_Intents.thy ===== *)
theory Launch_Intents
  imports State_File Go_Time "HOL-Library.Char_ord" "HOL-Library.List_Lexorder"
begin

text \<open>
  The durable launch intents of the sandbox (\<open>src/internal/sandbox/launch_intents.go\<close>): one row per
  principal, profile and digest of the idempotency key, which binds the key to one run and one request.

  A row holds what decoding its columns gives. Plan and metadata go through JSON: the profile and the work
  item of a launch input have no JSON field and are lost; everything else comes back. Of the metadata of a run
  (\<open>RunMetadata\<close> in \<open>service.go\<close>) the fields that the launch of a run reads or writes have names, the others
  (external waits, phases of the Codex workflow) are the value \<open>rm_rest\<close>, which is only carried. A \<open>faults\<close> argument says which of the calls that can fail do,
  counted in the order of the source.
\<close>

section \<open>Data\<close>

datatype intent_state =
    IntentCreated | IntentCreatePending | IntentContainerMade | IntentStartPending | IntentRunning
  | IntentWaitingExternal | IntentTerminal

record codex_provenance =
  cx_modelPolicy :: string
  cx_modelPolicyVersion :: string
  cx_model :: string
  cx_effort :: string
  cx_codexVersion :: string
  cx_promptRevision :: string
  cx_issueNumber :: int
  cx_sourceDeliveryID :: string

record run_metadata =
  rm_runID :: string
  rm_workItemID :: string
  rm_profile :: string
  rm_principal :: string
  rm_keyDigest :: string
  rm_fingerprint :: string
  rm_configVersion :: string
  rm_template :: string
  rm_repo :: string
  rm_baseBranch :: string
  rm_branch :: string
  rm_task :: string
  rm_verificationTask :: string
  rm_focus :: string
  rm_workerAgentID :: string
  rm_brokerAgentID :: string
  rm_credentialBundle :: string
  rm_containerID :: string
  rm_image :: string
  rm_imageDigest :: string
  rm_releaseGeneration :: int
  rm_status :: string
  rm_exitCode :: "int option"
  rm_finalizeReason :: string
  rm_terminalSource :: string
  rm_error :: string
  rm_deliverables :: "string list"
  rm_parameters :: "json gomap"
  rm_startedAt :: gotime
  rm_deadline :: gotime
  rm_endedAt :: gotime
  rm_phase :: string
  rm_recoverySeal :: string
  rm_provenance :: "codex_provenance option"
  rm_rest :: json

record launch_input =
  la_template :: string
  la_task :: string
  la_verificationTask :: string
  la_repo :: string
  la_baseBranch :: string
  la_branch :: string
  la_maxRuntimeMinutes :: int
  la_maxRuntimeSeconds :: int
  la_deliverables :: "string list"
  la_focus :: string
  la_parameters :: "json gomap"
  la_profile :: string
  la_workItemID :: string

record intent_plan =
  lp_version :: int
  lp_configVersion :: string
  lp_request :: launch_input
  lp_runtimeSeconds :: int
  lp_metadata :: run_metadata

record launch_intent =
  it_principal :: string
  it_profile :: string
  it_keyDigest :: string
  it_fingerprint :: string
  it_runID :: string
  it_state :: intent_state
  it_plan :: intent_plan
  it_metadata :: run_metadata

record intent_row =
  iw_intent :: launch_intent
  iw_createdAt :: gotime
  iw_updatedAt :: gotime

record intent_store =
  ln_version :: int
  ln_salt :: "string option"
  ln_rows :: "intent_row list"

datatype intent_error =
    IntentEncoding | IntentDB | IntentMalformed | IntentBusy | IntentRows | IntentMetadataConflict | IntentSchema
  | IntentSalt

section \<open>Reading\<close>

definition storedPlan :: "intent_plan \<Rightarrow> intent_plan" where
  "storedPlan p = p\<lparr>lp_request := (lp_request p)\<lparr>la_profile := [], la_workItemID := []\<rparr>\<rparr>"

definition decodeLaunchIntent :: "launch_intent \<Rightarrow> intent_error + launch_intent" where
  "decodeLaunchIntent i =
     (if lp_version (it_plan i) \<noteq> 1 \<or> it_runID i = [] \<or> rm_runID (it_metadata i) \<noteq> it_runID i \<or>
         rm_runID (lp_metadata (it_plan i)) \<noteq> it_runID i
      then Inl IntentMalformed else Inr i)"

definition intentKey :: "launch_intent \<Rightarrow> string \<times> string \<times> string" where
  "intentKey i = (it_principal i, it_profile i, it_keyDigest i)"

definition scanLaunchIntent :: "bool \<Rightarrow> string \<Rightarrow> string \<Rightarrow> string \<Rightarrow> intent_store \<Rightarrow> intent_error + launch_intent option" where
  "scanLaunchIntent fails who profile digest s =
     (case find (\<lambda>r. intentKey (iw_intent r) = (who, profile, digest)) (ln_rows s) of
        None \<Rightarrow> if fails then Inl IntentDB else Inr None
      | Some r \<Rightarrow> if fails then Inl IntentDB else map_sum id Some (decodeLaunchIntent (iw_intent r)))"

definition Lookup :: "bool \<Rightarrow> string \<Rightarrow> string \<Rightarrow> string \<Rightarrow> intent_store \<Rightarrow> intent_error + launch_intent option" where
  "Lookup fails who profile digest s = scanLaunchIntent fails who profile digest s"

definition LookupRun :: "bool \<Rightarrow> string \<Rightarrow> intent_store \<Rightarrow> intent_error + launch_intent option" where
  "LookupRun fails runID s =
     (case find (\<lambda>r. it_runID (iw_intent r) = runID) (ln_rows s) of
        None \<Rightarrow> if fails then Inl IntentDB else Inr None
      | Some r \<Rightarrow> if fails then Inl IntentDB else map_sum id Some (decodeLaunchIntent (iw_intent r)))"

fun decodeAll :: "launch_intent list \<Rightarrow> intent_error + launch_intent list" where
  "decodeAll [] = Inr []"
| "decodeAll (i # is) =
     (case decodeLaunchIntent i of
        Inl e \<Rightarrow> Inl e
      | Inr j \<Rightarrow> (case decodeAll is of Inl e \<Rightarrow> Inl e | Inr js \<Rightarrow> Inr (j # js)))"

definition activeIntent :: "launch_intent \<Rightarrow> bool" where
  "activeIntent i \<longleftrightarrow> it_state i \<noteq> IntentTerminal"

text \<open>The rows are ordered by the text of their creation time.\<close>

definition Nonterminal :: "faults \<Rightarrow> intent_store \<Rightarrow> intent_error + launch_intent list" where
  "Nonterminal f s =
     (if f 0 then Inl IntentDB
      else if f 1 then Inl IntentDB
      else decodeAll (map iw_intent
             (sort_key (\<lambda>r. formatTime (iw_createdAt r)) (filter (\<lambda>r. activeIntent (iw_intent r)) (ln_rows s)))))"

definition IsNonterminalRun :: "bool \<Rightarrow> string \<Rightarrow> intent_store \<Rightarrow> intent_error + bool" where
  "IsNonterminalRun fails runID s =
     (if fails then Inl IntentDB
      else Inr (list_ex (\<lambda>r. it_runID (iw_intent r) = runID \<and> activeIntent (iw_intent r)) (ln_rows s)))"

section \<open>Writing\<close>

definition activeCount :: "string \<Rightarrow> intent_store \<Rightarrow> nat" where
  "activeCount profile s =
     length (filter (\<lambda>r. it_profile (iw_intent r) = profile \<and> activeIntent (iw_intent r)) (ln_rows s))"

definition newIntentRow :: "gotime \<Rightarrow> launch_intent \<Rightarrow> intent_row" where
  "newIntentRow now i =
     \<lparr>iw_intent = i\<lparr>it_plan := storedPlan (it_plan i)\<rparr>, iw_createdAt = now, iw_updatedAt = now\<rparr>"

definition keysFree :: "launch_intent \<Rightarrow> intent_store \<Rightarrow> bool" where
  "keysFree i s \<longleftrightarrow>
     list_all (\<lambda>r. intentKey (iw_intent r) \<noteq> intentKey i \<and> it_runID (iw_intent r) \<noteq> it_runID i) (ln_rows s)"

text \<open>The answer is the intent of the key, with whether it was created. The insertion fails where the
  primary key or the run id is taken.\<close>

definition CreateIntent ::
  "faults \<Rightarrow> gotime \<Rightarrow> launch_intent \<Rightarrow> int \<Rightarrow> intent_store \<Rightarrow>
     (intent_error, launch_intent \<times> bool, intent_store) outcome" where
  "CreateIntent f now i maxConcurrent s =
     (if f 0 then (Inl IntentEncoding, s)
      else if f 1 then (Inl IntentEncoding, s)
      else if f 2 then (Inl IntentDB, s)
      else if f 3 then (Inl IntentDB, s)
      else case scanLaunchIntent (f 4) (it_principal i) (it_profile i) (it_keyDigest i) s of
        Inl e \<Rightarrow> (Inl e, s)
      | Inr (Some existing) \<Rightarrow> (Inr (existing, False), s)
      | Inr None \<Rightarrow>
          if maxConcurrent > 0 \<and> f 5 then (Inl IntentDB, s)
          else if maxConcurrent > 0 \<and> int (activeCount (it_profile i) s) \<ge> maxConcurrent then (Inl IntentBusy, s)
          else if f 6 \<or> \<not> keysFree i s then (Inl IntentDB, s)
          else if f 7 then (Inl IntentDB, s)
          else (Inr (i, True), s\<lparr>ln_rows := ln_rows s @ [newIntentRow now i]\<rparr>))"

definition isTerminalStatus :: "string \<Rightarrow> bool" where
  "isTerminalStatus status \<longleftrightarrow>
     containsItem [''completed'', ''stopped'', ''failed'', ''timed_out'', ''cancelled'', ''cleaned''] status"

definition restoredState :: "run_metadata \<Rightarrow> intent_state" where
  "restoredState meta =
     (if isTerminalStatus (rm_status meta) then IntentTerminal
      else if rm_status meta = ''running'' then IntentRunning
      else if rm_status meta = ''waiting_external'' then IntentWaitingExternal
      else if rm_containerID meta \<noteq> [] then IntentStartPending
      else IntentCreated)"

text \<open>The difference of two times saturates at the largest and smallest duration; the division
  of a duration truncates.\<close>

definition timeSub :: "gotime \<Rightarrow> gotime \<Rightarrow> int" where
  "timeSub t u = max (- (2 ^ 63)) (min (2 ^ 63 - 1) (t - u))"

definition truncSeconds :: "int \<Rightarrow> int" where
  "truncSeconds d = (if d < 0 then - ((- d) div nsPerSec) else d div nsPerSec)"

definition restoredIntent :: "run_metadata \<Rightarrow> launch_intent" where
  "restoredIntent meta =
     (let runtimeSeconds = truncSeconds (timeSub (rm_deadline meta) (rm_startedAt meta));
          request = \<lparr>la_template = rm_template meta, la_task = rm_task meta, la_verificationTask = [],
                     la_repo = rm_repo meta, la_baseBranch = rm_baseBranch meta, la_branch = rm_branch meta,
                     la_maxRuntimeMinutes = 0, la_maxRuntimeSeconds = runtimeSeconds,
                     la_deliverables = rm_deliverables meta, la_focus = rm_focus meta,
                     la_parameters = rm_parameters meta, la_profile = rm_profile meta, la_workItemID = []\<rparr>
      in \<lparr>it_principal = rm_principal meta, it_profile = rm_profile meta, it_keyDigest = rm_keyDigest meta,
          it_fingerprint = rm_fingerprint meta, it_runID = rm_runID meta, it_state = restoredState meta,
          it_plan = \<lparr>lp_version = 1, lp_configVersion = rm_configVersion meta, lp_request = request,
                     lp_runtimeSeconds = runtimeSeconds, lp_metadata = meta\<rparr>,
          it_metadata = meta\<rparr>)"

definition RestoreMetadata ::
  "faults \<Rightarrow> gotime \<Rightarrow> run_metadata \<Rightarrow> intent_store \<Rightarrow> (intent_error, unit, intent_store) outcome" where
  "RestoreMetadata f now meta s =
     (if rm_principal meta = [] \<or> rm_profile meta = [] \<or> rm_keyDigest meta = [] \<or> rm_fingerprint meta = [] \<or>
         rm_configVersion meta = []
      then (Inr (), s)
      else case CreateIntent f now (restoredIntent meta) 0 s of
        (Inl e, s1) \<Rightarrow> (Inl e, s1)
      | (Inr (existing, created), s1) \<Rightarrow>
          if \<not> created \<and> (it_runID existing \<noteq> rm_runID meta \<or> it_fingerprint existing \<noteq> rm_fingerprint meta)
          then (Inl IntentMetadataConflict, s1)
          else (Inr (), s1))"

definition updateRun :: "string \<Rightarrow> gotime \<Rightarrow> (launch_intent \<Rightarrow> launch_intent) \<Rightarrow> intent_store \<Rightarrow> intent_store" where
  "updateRun runID now h s =
     s\<lparr>ln_rows := map (\<lambda>r. if it_runID (iw_intent r) = runID
                            then r\<lparr>iw_intent := h (iw_intent r), iw_updatedAt := now\<rparr> else r) (ln_rows s)\<rparr>"

definition savedIntent :: "launch_intent \<Rightarrow> launch_intent \<Rightarrow> launch_intent" where
  "savedIntent i old = old\<lparr>it_state := it_state i, it_plan := storedPlan (it_plan i), it_metadata := it_metadata i\<rparr>"

text \<open>The update has taken effect when the number of rows cannot be read or is not one.\<close>

definition SaveIntent ::
  "faults \<Rightarrow> gotime \<Rightarrow> launch_intent \<Rightarrow> intent_store \<Rightarrow> (intent_error, unit, intent_store) outcome" where
  "SaveIntent f now i s =
     (if f 0 then (Inl IntentEncoding, s)
      else if f 1 then (Inl IntentEncoding, s)
      else if f 2 then (Inl IntentDB, s)
      else
        (let s1 = updateRun (it_runID i) now (savedIntent i) s;
             rows = length (filter (\<lambda>r. it_runID (iw_intent r) = it_runID i) (ln_rows s))
         in if f 3 \<or> rows \<noteq> 1 then (Inl IntentRows, s1) else (Inr (), s1)))"

definition metadataState :: "run_metadata \<Rightarrow> intent_state" where
  "metadataState meta =
     (if isTerminalStatus (rm_status meta) then IntentTerminal
      else if rm_status meta = ''waiting_external'' then IntentWaitingExternal
      else IntentRunning)"

definition SaveMetadata ::
  "faults \<Rightarrow> gotime \<Rightarrow> run_metadata \<Rightarrow> intent_store \<Rightarrow> (intent_error, unit, intent_store) outcome" where
  "SaveMetadata f now meta s =
     (if f 0 then (Inl IntentEncoding, s)
      else if f 1 then (Inl IntentDB, s)
      else (Inr (), updateRun (rm_runID meta) now
              (\<lambda>i. i\<lparr>it_state := metadataState meta, it_metadata := meta\<rparr>) s))"

section \<open>Opening\<close>

definition intent_migrateV1 :: "faults \<Rightarrow> intent_store \<Rightarrow> (intent_error, unit, intent_store) outcome" where
  "intent_migrateV1 f s =
     (if f 0 then (Inl IntentDB, s)
      else if list_ex f [1..<5] then (Inl IntentDB, s)
      else if f 5 then (Inl IntentDB, s)
      else (Inr (), \<lparr>ln_version = 1, ln_salt = None, ln_rows = []\<rparr>))"

text \<open>\<open>random\<close> is what reading 32 random bytes gives. The answer is the salt the store then uses.\<close>

definition intent_initialize ::
  "faults \<Rightarrow> string \<Rightarrow> int \<Rightarrow> string \<Rightarrow> faults \<Rightarrow> string option \<Rightarrow> intent_store \<Rightarrow>
     (intent_error, string, intent_store) outcome" where
  "intent_initialize f journal synchronous integrity g random s =
     (if f 0 \<or> journal \<noteq> ''wal'' then (Inl IntentDB, s)
      else if f 1 then (Inl IntentDB, s)
      else if f 2 \<or> synchronous \<noteq> 2 then (Inl IntentDB, s)
      else if f 3 then (Inl IntentDB, s)
      else if f 4 \<or> integrity \<noteq> ''ok'' then (Inl IntentDB, s)
      else if f 5 then (Inl IntentDB, s)
      else if ln_version s \<noteq> 0 \<and> ln_version s \<noteq> 1 then (Inl IntentSchema, s)
      else case (if ln_version s = 0 then intent_migrateV1 g s else (Inr (), s)) of
        (Inl e, s1) \<Rightarrow> (Inl e, s1)
      | (Inr _, s1) \<Rightarrow>
          if f 6 then (Inl IntentDB, s1)
          else case ln_salt s1 of
            None \<Rightarrow>
              (case random of
                 None \<Rightarrow> (Inl IntentSalt, s1)
               | Some salt \<Rightarrow>
                   if f 7 then (Inl IntentDB, s1) else (Inr salt, s1\<lparr>ln_salt := Some salt\<rparr>))
          | Some salt \<Rightarrow> if length salt \<noteq> 32 then (Inl IntentSalt, s1) else (Inr salt, s1))"

section \<open>Runs of operations\<close>

datatype intent_op =
    IntCreate faults gotime launch_intent int
  | IntRestore faults gotime run_metadata
  | IntSave faults gotime launch_intent
  | IntSaveMetadata faults gotime run_metadata

fun intent_exec :: "intent_op \<Rightarrow> intent_store \<Rightarrow> (intent_error, (launch_intent \<times> bool) option, intent_store) outcome" where
  "intent_exec (IntCreate f now i m) s = (case CreateIntent f now i m s of (r, s') \<Rightarrow> (map_sum id Some r, s'))"
| "intent_exec (IntRestore f now meta) s = (case RestoreMetadata f now meta s of (r, s') \<Rightarrow> (map_sum id (\<lambda>_. None) r, s'))"
| "intent_exec (IntSave f now i) s = (case SaveIntent f now i s of (r, s') \<Rightarrow> (map_sum id (\<lambda>_. None) r, s'))"
| "intent_exec (IntSaveMetadata f now meta) s = (case SaveMetadata f now meta s of (r, s') \<Rightarrow> (map_sum id (\<lambda>_. None) r, s'))"

text \<open>What a row binds: its key, its run and its request.\<close>

definition binding :: "intent_row \<Rightarrow> (string \<times> string \<times> string) \<times> string \<times> string" where
  "binding r = (intentKey (iw_intent r), it_runID (iw_intent r), it_fingerprint (iw_intent r))"

definition bindings :: "intent_store \<Rightarrow> ((string \<times> string \<times> string) \<times> string \<times> string) list" where
  "bindings s = map binding (ln_rows s)"

definition intents_inv :: "intent_store \<Rightarrow> bool" where
  "intents_inv s \<longleftrightarrow> distinct (map fst (bindings s)) \<and> distinct (map (fst \<circ> snd) (bindings s))"

lemma binding_newIntentRow: "binding (newIntentRow now i) = (intentKey i, it_runID i, it_fingerprint i)"
  by (simp add: binding_def newIntentRow_def intentKey_def)

lemma bindings_updateRun:
  assumes "\<And>i. intentKey (h i) = intentKey i \<and> it_runID (h i) = it_runID i \<and> it_fingerprint (h i) = it_fingerprint i"
  shows "bindings (updateRun runID now h s) = bindings s"
  using assms by (auto simp: bindings_def updateRun_def binding_def)

lemma bindings_SaveIntent [simp]: "bindings (snd (SaveIntent f now i s)) = bindings s"
  by (simp add: SaveIntent_def Let_def bindings_updateRun savedIntent_def intentKey_def)

lemma bindings_SaveMetadata [simp]: "bindings (snd (SaveMetadata f now meta s)) = bindings s"
  by (simp add: SaveMetadata_def bindings_updateRun intentKey_def)

lemma CreateIntent_cases:
  obtains "snd (CreateIntent f now i m s) = s" "\<And>j. fst (CreateIntent f now i m s) \<noteq> Inr (j, True)"
  | "CreateIntent f now i m s = (Inr (i, True), s\<lparr>ln_rows := ln_rows s @ [newIntentRow now i]\<rparr>)"
    "keysFree i s" "0 < m \<Longrightarrow> int (activeCount (it_profile i) s) < m"
proof (cases "scanLaunchIntent (f 4) (it_principal i) (it_profile i) (it_keyDigest i) s")
  case (Inl e)
  then show ?thesis by (intro that(1)) (auto simp: CreateIntent_def)
next
  case (Inr found)
  show ?thesis
  proof (cases found)
    case None
    show ?thesis
    proof (cases "f 0 \<or> f 1 \<or> f 2 \<or> f 3 \<or> (m > 0 \<and> f 5) \<or> (m > 0 \<and> int (activeCount (it_profile i) s) \<ge> m) \<or> f 6 \<or>
        \<not> keysFree i s \<or> f 7")
      case True
      then show ?thesis using Inr None by (intro that(1)) (auto simp: CreateIntent_def)
    next
      case False
      then show ?thesis using Inr None by (intro that(2)) (auto simp: CreateIntent_def)
    qed
  next
    case (Some j)
    then show ?thesis using Inr by (intro that(1)) (auto simp: CreateIntent_def)
  qed
qed

lemma snd_RestoreMetadata:
  "snd (RestoreMetadata f now meta s) = s \<or> snd (RestoreMetadata f now meta s) = snd (CreateIntent f now (restoredIntent meta) 0 s)"
  by (auto simp: RestoreMetadata_def split: sum.splits prod.splits)

lemma bindings_CreateIntent:
  "bindings (snd (CreateIntent f now i m s)) = bindings s \<or>
   (keysFree i s \<and> bindings (snd (CreateIntent f now i m s)) = bindings s @ [(intentKey i, it_runID i, it_fingerprint i)])"
proof (rule CreateIntent_cases [of f now i m s])
  assume "snd (CreateIntent f now i m s) = s"
  then show ?thesis by simp
next
  assume "CreateIntent f now i m s = (Inr (i, True), s\<lparr>ln_rows := ln_rows s @ [newIntentRow now i]\<rparr>)" "keysFree i s"
  then show ?thesis by (simp add: bindings_def binding_newIntentRow)
qed

lemma bindings_exec:
  "bindings (snd (intent_exec x s)) = bindings s \<or>
   (\<exists>i. keysFree i s \<and> bindings (snd (intent_exec x s)) = bindings s @ [(intentKey i, it_runID i, it_fingerprint i)])"
proof (cases x)
  case (IntCreate f now i m)
  then show ?thesis using bindings_CreateIntent [of f now i m s] by (auto simp: split_beta)
next
  case (IntRestore f now meta)
  then show ?thesis
    using bindings_CreateIntent [of f now "restoredIntent meta" 0 s] snd_RestoreMetadata [of f now meta s]
    by (auto simp: split_beta)
qed (simp_all add: split_beta)

lemma keysFree_bindings:
  "keysFree i s \<longleftrightarrow> intentKey i \<notin> fst ` set (bindings s) \<and> it_runID i \<notin> (fst \<circ> snd) ` set (bindings s)"
  by (auto simp: keysFree_def bindings_def binding_def list_all_iff image_image) (metis imageI)+

interpretation intent_registry: forward_store intent_exec intents_inv "\<lambda>s t. set (bindings s) \<subseteq> set (bindings t)"
proof unfold_locales
  fix s x
  assume inv: "intents_inv s"
  show "intents_inv (snd (intent_exec x s))"
    using bindings_exec [of x s] inv by (auto simp: intents_inv_def keysFree_bindings)
  show "set (bindings s) \<subseteq> set (bindings (snd (intent_exec x s)))"
    using bindings_exec [of x s] by auto
qed auto

section \<open>Well-formed rows\<close>

definition wf_intent :: "launch_intent \<Rightarrow> bool" where
  "wf_intent i \<longleftrightarrow> decodeLaunchIntent i = Inr i"

text \<open>Operations that write rows which can be read back, as the service's do.\<close>

fun proper :: "intent_op \<Rightarrow> bool" where
  "proper (IntCreate f now i m) = wf_intent i"
| "proper (IntRestore f now meta) = (rm_runID meta \<noteq> [])"
| "proper (IntSave f now i) = wf_intent i"
| "proper (IntSaveMetadata f now meta) = True"

definition wf_rows :: "intent_store \<Rightarrow> bool" where
  "wf_rows s \<longleftrightarrow> (\<forall>r \<in> set (ln_rows s). wf_intent (iw_intent r))"

lemma wf_intent_iff:
  "wf_intent i \<longleftrightarrow> lp_version (it_plan i) = 1 \<and> it_runID i \<noteq> [] \<and> rm_runID (it_metadata i) = it_runID i \<and>
     rm_runID (lp_metadata (it_plan i)) = it_runID i"
  by (simp add: wf_intent_def decodeLaunchIntent_def)

lemma wf_rows_updateRun:
  assumes "wf_rows s" and "\<And>i. wf_intent i \<Longrightarrow> it_runID i = runID \<Longrightarrow> wf_intent (h i)"
  shows "wf_rows (updateRun runID now h s)"
  using assms by (auto simp: wf_rows_def updateRun_def)

lemma wf_rows_CreateIntent:
  assumes "wf_rows s" and "wf_intent i"
  shows "wf_rows (snd (CreateIntent f now i m s))"
proof (rule CreateIntent_cases [of f now i m s])
  assume "CreateIntent f now i m s = (Inr (i, True), s\<lparr>ln_rows := ln_rows s @ [newIntentRow now i]\<rparr>)"
  then show ?thesis using assms by (auto simp: wf_rows_def newIntentRow_def wf_intent_iff storedPlan_def)
qed (use assms in simp)

lemma wf_rows_exec:
  assumes "wf_rows s" and "proper x"
  shows "wf_rows (snd (intent_exec x s))"
proof (cases x)
  case (IntCreate f now i m)
  then show ?thesis using assms wf_rows_CreateIntent by (simp add: split_beta)
next
  case (IntRestore f now meta)
  then have "wf_intent (restoredIntent meta)"
    using assms(2) by (simp add: wf_intent_iff restoredIntent_def Let_def)
  then show ?thesis
    using IntRestore assms(1) wf_rows_CreateIntent [of s "restoredIntent meta" f now 0] snd_RestoreMetadata [of f now meta s]
    by (auto simp: split_beta)
next
  case (IntSave f now i)
  have "wf_rows (updateRun (it_runID i) now (savedIntent i) s)"
    using assms IntSave by (intro wf_rows_updateRun) (auto simp: wf_intent_iff savedIntent_def storedPlan_def)
  then show ?thesis using IntSave assms(1) by (simp add: split_beta SaveIntent_def Let_def)
next
  case (IntSaveMetadata f now meta)
  have "wf_rows (updateRun (rm_runID meta) now (\<lambda>i. i\<lparr>it_state := metadataState meta, it_metadata := meta\<rparr>) s)"
    using assms by (intro wf_rows_updateRun) (auto simp: wf_intent_iff)
  then show ?thesis using IntSaveMetadata assms(1) by (simp add: split_beta SaveMetadata_def)
qed

section \<open>Properties\<close>

lemma find_binding:
  assumes "intents_inv s" and "(k, run, fp) \<in> set (bindings s)"
  obtains r where "find (\<lambda>r. intentKey (iw_intent r) = k) (ln_rows s) = Some r" "r \<in> set (ln_rows s)"
    "it_runID (iw_intent r) = run" "it_fingerprint (iw_intent r) = fp"
proof -
  obtain r where r: "r \<in> set (ln_rows s)" "binding r = (k, run, fp)"
    using assms(2) by (auto simp: bindings_def)
  have "distinct (map (\<lambda>r. intentKey (iw_intent r)) (ln_rows s))"
    using assms(1) by (simp add: intents_inv_def bindings_def binding_def comp_def)
  then have "find (\<lambda>y. intentKey (iw_intent y) = intentKey (iw_intent r)) (ln_rows s) = Some r"
    using r(1) by (rule find_by_key)
  then show ?thesis using r by (intro that [of r]) (auto simp: binding_def)
qed

text \<open>C23. An idempotency key launches one run. Once an intent is created, then after any sequence of
  operations, whatever fails in them, no request with the same principal, profile and key creates another: an answer
  is the run that was created, with the fingerprint of the request that created it, and nothing is written. And the
  answer is given: when all writers write rows that can be read back, a lookup that does not fail finds the run.\<close>

theorem launch_key_binds_one_run:
  assumes "intents_inv s" and "wf_rows s" and "wf_intent i" and "CreateIntent f now i m s = (Inr (i', True), s1)"
    and "\<forall>x \<in> set xs. proper x" and "intentKey j = intentKey i"
  shows "(\<forall>f' now' m'. snd (CreateIntent f' now' j m' (run_ops intent_exec xs s1)) = run_ops intent_exec xs s1 \<and>
            (\<forall>k created. fst (CreateIntent f' now' j m' (run_ops intent_exec xs s1)) = Inr (k, created) \<longrightarrow>
               \<not> created \<and> it_runID k = it_runID i \<and> it_fingerprint k = it_fingerprint i)) \<and>
         (\<exists>k. Lookup False (it_principal j) (it_profile j) (it_keyDigest j) (run_ops intent_exec xs s1) = Inr (Some k) \<and>
            it_runID k = it_runID i)"
proof -
  let ?t = "run_ops intent_exec xs s1"
  have s1: "s1 = s\<lparr>ln_rows := ln_rows s @ [newIntentRow now i]\<rparr>"
    using assms(4) by (cases rule: CreateIntent_cases [of f now i m s]) auto
  have exec: "snd (intent_exec (IntCreate f now i m) s) = s1" using assms(4) by simp
  have inv1: "intents_inv s1" using intent_registry.inv_exec [OF assms(1), of "IntCreate f now i m"] unfolding exec .
  have "wf_rows s1" using wf_rows_CreateIntent [OF assms(2,3), of f now m] assms(4) by simp
  then have wf: "wf_rows ?t"
    using intent_registry.guarded_run [OF inv1, of wf_rows xs] wf_rows_exec assms(5) by blast
  have "(intentKey i, it_runID i, it_fingerprint i) \<in> set (bindings s1)"
    by (simp add: s1 bindings_def binding_newIntentRow)
  then have "(intentKey i, it_runID i, it_fingerprint i) \<in> set (bindings ?t)"
    using intent_registry.le_run [OF inv1, of xs] by blast
  from find_binding [OF intent_registry.inv_run [OF inv1] this]
  obtain r where r: "find (\<lambda>r. intentKey (iw_intent r) = intentKey i) (ln_rows ?t) = Some r" "r \<in> set (ln_rows ?t)"
    "it_runID (iw_intent r) = it_runID i" "it_fingerprint (iw_intent r) = it_fingerprint i" by blast
  have dec: "decodeLaunchIntent (iw_intent r) = Inr (iw_intent r)" using wf r(2) by (auto simp: wf_rows_def wf_intent_def)
  have scan: "scanLaunchIntent fails (it_principal j) (it_profile j) (it_keyDigest j) ?t =
      (if fails then Inl IntentDB else Inr (Some (iw_intent r)))" for fails
    using r(1) dec assms(6) unfolding scanLaunchIntent_def intentKey_def [of j, symmetric] by simp
  have "CreateIntent f' now' j m' ?t = (Inl IntentEncoding, ?t) \<or> CreateIntent f' now' j m' ?t = (Inl IntentDB, ?t) \<or>
      CreateIntent f' now' j m' ?t = (Inr (iw_intent r, False), ?t)" for f' now' m'
    using scan by (simp add: CreateIntent_def)
  then have answers: "\<forall>f' now' m'. snd (CreateIntent f' now' j m' ?t) = ?t \<and>
      (\<forall>k created. fst (CreateIntent f' now' j m' ?t) = Inr (k, created) \<longrightarrow>
         \<not> created \<and> it_runID k = it_runID i \<and> it_fingerprint k = it_fingerprint i)"
    using r(3,4) by (smt (verit) Inl_Inr_False Inr_inject Pair_inject fst_conv snd_conv)
  have "Lookup False (it_principal j) (it_profile j) (it_keyDigest j) ?t = Inr (Some (iw_intent r))"
    using scan [of False] by (simp add: Lookup_def)
  with answers r(3) show ?thesis by blast
qed

definition exampleMetadata :: run_metadata where
  "exampleMetadata = \<lparr>rm_runID = ''r1'', rm_workItemID = [], rm_profile = ''fixer'', rm_principal = ''ops'', rm_keyDigest = ''k'',
     rm_fingerprint = ''fp'', rm_configVersion = ''v1'', rm_template = ''t'', rm_repo = ''o/r'', rm_baseBranch = ''main'',
     rm_branch = ''b'', rm_task = ''x'', rm_verificationTask = [], rm_focus = [], rm_workerAgentID = [], rm_brokerAgentID = [],
     rm_credentialBundle = [], rm_containerID = [], rm_image = [], rm_imageDigest = [], rm_releaseGeneration = 0,
     rm_status = ''pending'', rm_exitCode = None, rm_finalizeReason = [], rm_terminalSource = [], rm_error = [],
     rm_deliverables = [], rm_parameters = [], rm_startedAt = 0, rm_deadline = 60000000000, rm_endedAt = 0,
     rm_phase = [], rm_recoverySeal = [], rm_provenance = None, rm_rest = JNull\<rparr>"

definition exampleIntent :: "string \<Rightarrow> string \<Rightarrow> launch_intent" where
  "exampleIntent key run =
     (restoredIntent (exampleMetadata\<lparr>rm_runID := run, rm_keyDigest := key\<rparr>))\<lparr>it_fingerprint := ''fp'' @ run\<rparr>"

definition emptyIntents :: intent_store where
  "emptyIntents = \<lparr>ln_version = 1, ln_salt = None, ln_rows = []\<rparr>"

lemma exampleIntent_simps:
  "it_runID (exampleIntent key run) = run" "intentKey (exampleIntent key run) = (''ops'', ''fixer'', key)"
  "it_profile (exampleIntent key run) = ''fixer''" "it_state (exampleIntent key run) = IntentCreated"
  "it_principal (exampleIntent key run) = ''ops''" "it_keyDigest (exampleIntent key run) = key"
  by (simp_all add: exampleIntent_def restoredIntent_def exampleMetadata_def Let_def intentKey_def restoredState_def
      isTerminalStatus_def)

lemma emptyIntents_ok: "intents_inv emptyIntents" "wf_rows emptyIntents"
  by (simp_all add: intents_inv_def wf_rows_def emptyIntents_def bindings_def)

lemma exampleIntent_wf: "run \<noteq> [] \<Longrightarrow> wf_intent (exampleIntent key run)"
  by (simp add: wf_intent_iff exampleIntent_def restoredIntent_def exampleMetadata_def Let_def)

lemma exampleIntent_created:
  "CreateIntent no_faults 7 (exampleIntent key run) m emptyIntents =
     (Inr (exampleIntent key run, True), emptyIntents\<lparr>ln_rows := [newIntentRow 7 (exampleIntent key run)]\<rparr>)"
  by (simp add: CreateIntent_def no_faults_def scanLaunchIntent_def emptyIntents_def keysFree_def activeCount_def)

theorem launch_key_binds_one_run_witness:
  "\<exists>k. Lookup False ''ops'' ''fixer'' ''k''
     (run_ops intent_exec [IntSaveMetadata no_faults 9 (exampleMetadata\<lparr>rm_status := ''failed''\<rparr>)]
       (snd (CreateIntent no_faults 7 (exampleIntent ''k'' ''r1'') 1 emptyIntents))) = Inr (Some k) \<and> it_runID k = ''r1''"
proof -
  have "\<exists>k. Lookup False (it_principal (exampleIntent ''k'' ''r2'')) (it_profile (exampleIntent ''k'' ''r2''))
      (it_keyDigest (exampleIntent ''k'' ''r2''))
      (run_ops intent_exec [IntSaveMetadata no_faults 9 (exampleMetadata\<lparr>rm_status := ''failed''\<rparr>)]
        (emptyIntents\<lparr>ln_rows := [newIntentRow 7 (exampleIntent ''k'' ''r1'')]\<rparr>)) = Inr (Some k) \<and>
      it_runID k = it_runID (exampleIntent ''k'' ''r1'')"
    by (rule launch_key_binds_one_run [OF emptyIntents_ok exampleIntent_wf exampleIntent_created, THEN conjunct2])
      (simp_all add: exampleIntent_simps)
  then show ?thesis by (simp add: exampleIntent_created exampleIntent_simps)
qed

text \<open>Operations under which the bound of a profile holds: each creation for the profile is made with it; a run of the profile
  that is restored from its metadata file, which is done without a bound, has ended or has an intent already; and no
  run of the profile that has ended is saved as active again.\<close>

definition ended :: "string \<Rightarrow> string \<Rightarrow> intent_store \<Rightarrow> bool" where
  "ended profile runID s \<longleftrightarrow>
     (\<exists>r \<in> set (ln_rows s). it_runID (iw_intent r) = runID \<and> it_profile (iw_intent r) = profile \<and> \<not> activeIntent (iw_intent r))"

fun orderly :: "string \<Rightarrow> int \<Rightarrow> intent_op \<Rightarrow> intent_store \<Rightarrow> bool" where
  "orderly profile bound (IntCreate f now i m) s \<longleftrightarrow> it_profile i = profile \<longrightarrow> m = bound"
| "orderly profile bound (IntRestore f now meta) s \<longleftrightarrow>
     rm_profile meta \<noteq> profile \<or> isTerminalStatus (rm_status meta) \<or> \<not> keysFree (restoredIntent meta) s"
| "orderly profile bound (IntSave f now i) s \<longleftrightarrow> it_state i = IntentTerminal \<or> \<not> ended profile (it_runID i) s"
| "orderly profile bound (IntSaveMetadata f now meta) s \<longleftrightarrow>
     metadataState meta = IntentTerminal \<or> \<not> ended profile (rm_runID meta) s"

fun orderly_run :: "string \<Rightarrow> int \<Rightarrow> intent_op list \<Rightarrow> intent_store \<Rightarrow> bool" where
  "orderly_run profile bound [] s \<longleftrightarrow> True"
| "orderly_run profile bound (x # xs) s \<longleftrightarrow>
     orderly profile bound x s \<and> orderly_run profile bound xs (snd (intent_exec x s))"

lemma activeCount_updateRun:
  assumes "\<And>i. it_profile (h i) = it_profile i" and "(\<forall>i. it_state (h i) = IntentTerminal) \<or> \<not> ended profile runID s"
  shows "activeCount profile (updateRun runID now h s) \<le> activeCount profile s"
proof -
  let ?g = "\<lambda>r. if it_runID (iw_intent r) = runID then r\<lparr>iw_intent := h (iw_intent r), iw_updatedAt := now\<rparr> else r"
  let ?P = "\<lambda>r. it_profile (iw_intent r) = profile \<and> activeIntent (iw_intent r)"
  have step: "?P r" if r: "r \<in> set (ln_rows s)" and p: "?P (?g r)" for r
    using p r assms by (auto simp: ended_def activeIntent_def split: if_splits)
  have "length (filter ?P (map ?g rs)) \<le> length (filter ?P rs)" if "set rs \<subseteq> set (ln_rows s)" for rs
    using that
  proof (induction rs)
    case (Cons r rs)
    then show ?case using step [of r] by (cases "?P (?g r)") (auto simp del: if_split)
  qed simp
  then show ?thesis by (simp add: activeCount_def updateRun_def)
qed

lemma activeCount_exec:
  assumes "0 < bound" and "orderly profile bound x s" and "int (activeCount profile s) \<le> bound"
  shows "int (activeCount profile (snd (intent_exec x s))) \<le> bound"
proof (cases x)
  case (IntCreate f now i m)
  show ?thesis
  proof (rule CreateIntent_cases [of f now i m s])
    assume "snd (CreateIntent f now i m s) = s"
    then show ?thesis using IntCreate assms by (simp add: split_beta)
  next
    assume "CreateIntent f now i m s = (Inr (i, True), s\<lparr>ln_rows := ln_rows s @ [newIntentRow now i]\<rparr>)"
      and "0 < m \<Longrightarrow> int (activeCount (it_profile i) s) < m"
    then show ?thesis using IntCreate assms by (auto simp: activeCount_def newIntentRow_def)
  qed
next
  case (IntRestore f now meta)
  have other: "it_profile (restoredIntent meta) \<noteq> profile \<or> \<not> activeIntent (restoredIntent meta) \<or>
      \<not> keysFree (restoredIntent meta) s"
    using IntRestore assms(2) by (auto simp: restoredIntent_def restoredState_def activeIntent_def Let_def)
  have "activeCount profile (snd (CreateIntent f now (restoredIntent meta) 0 s)) = activeCount profile s"
  proof (rule CreateIntent_cases [of f now "restoredIntent meta" 0 s])
    assume "CreateIntent f now (restoredIntent meta) 0 s =
        (Inr (restoredIntent meta, True), s\<lparr>ln_rows := ln_rows s @ [newIntentRow now (restoredIntent meta)]\<rparr>)"
      and "keysFree (restoredIntent meta) s"
    then show ?thesis using other by (auto simp: activeCount_def newIntentRow_def activeIntent_def)
  qed simp
  then show ?thesis using IntRestore assms(3) snd_RestoreMetadata [of f now meta s] by (auto simp: split_beta)
next
  case (IntSave f now i)
  have "activeCount profile (updateRun (it_runID i) now (savedIntent i) s) \<le> activeCount profile s"
    using IntSave assms(2) by (intro activeCount_updateRun) (auto simp: savedIntent_def)
  then show ?thesis using IntSave assms(3) by (simp add: split_beta SaveIntent_def Let_def)
next
  case (IntSaveMetadata f now meta)
  have "activeCount profile (updateRun (rm_runID meta) now (\<lambda>i. i\<lparr>it_state := metadataState meta, it_metadata := meta\<rparr>) s)
      \<le> activeCount profile s"
    using IntSaveMetadata assms(2) by (intro activeCount_updateRun) auto
  then show ?thesis using IntSaveMetadata assms(3) by (simp add: split_beta SaveMetadata_def)
qed

text \<open>C24. The store of launch intents keeps the bound of a profile: creations made with the bound, in whatever order
  with the other operations and whatever fails, keep the number of the intents of the profile that have not ended within
  it. Runs that are restored from their metadata files when the service starts, which is done without the bound, have ended
  or have an intent already; and no ended run is saved as active again. This is about the intents of launches with a key. A launch
  without one has no intent and is not counted here, so that both together can exceed the bound
  (\<open>keyless_launch_is_not_counted\<close> in \<open>Direct_Launch\<close>).\<close>

theorem active_intents_bounded:
  assumes "0 < bound" and "int (activeCount profile s) \<le> bound" and "orderly_run profile bound xs s"
  shows "int (activeCount profile (run_ops intent_exec xs s)) \<le> bound"
  using assms(2,3)
proof (induction xs arbitrary: s)
  case (Cons x xs)
  then show ?case using activeCount_exec [OF assms(1)] by simp
qed simp

theorem active_intents_bounded_witness:
  "activeCount ''fixer'' (run_ops intent_exec
     [IntCreate no_faults 7 (exampleIntent ''k'' ''r1'') 1, IntCreate no_faults 8 (exampleIntent ''l'' ''r2'') 1]
     emptyIntents) = 1"
proof -
  let ?xs = "[IntCreate no_faults 7 (exampleIntent ''k'' ''r1'') 1, IntCreate no_faults 8 (exampleIntent ''l'' ''r2'') 1]"
  have "int (activeCount ''fixer'' (run_ops intent_exec ?xs emptyIntents)) \<le> 1"
    by (rule active_intents_bounded) (simp_all add: activeCount_def emptyIntents_def)
  moreover have "activeCount ''fixer'' (run_ops intent_exec ?xs emptyIntents) \<noteq> 0"
  proof -
    have "CreateIntent no_faults 8 (exampleIntent ''l'' ''r2'') 1 (emptyIntents\<lparr>ln_rows := [newIntentRow 7 (exampleIntent ''k'' ''r1'')]\<rparr>) =
      (Inl IntentBusy, emptyIntents\<lparr>ln_rows := [newIntentRow 7 (exampleIntent ''k'' ''r1'')]\<rparr>)"
      by (simp add: CreateIntent_def no_faults_def scanLaunchIntent_def activeCount_def newIntentRow_def activeIntent_def
          exampleIntent_simps intentKey_def)
    then show ?thesis
      by (simp add: exampleIntent_created activeCount_def newIntentRow_def activeIntent_def exampleIntent_simps)
  qed
  ultimately show ?thesis by simp
qed

end
