(* ===== verification/Go_Path.thy ===== *)
theory Go_Path
  imports Go_Prelude
begin

text \<open>
  Splitting strings and the functions of \<open>path/filepath\<close> the sources use, for slash-separated paths:
  \<open>Clean\<close> works on the list of the components, \<open>pathWithin\<close> is the use the sandbox makes of \<open>Rel\<close>.
\<close>

fun splitOn :: "char \<Rightarrow> string \<Rightarrow> string list" where
  "splitOn sep [] = [[]]"
| "splitOn sep (c # s) =
     (if c = sep then [] # splitOn sep s else (case splitOn sep s of w # ws \<Rightarrow> (c # w) # ws | [] \<Rightarrow> [[c]]))"

definition isAbs :: "string \<Rightarrow> bool" where
  "isAbs p = hasPrefix p ''/''"

text \<open>The components of the cleaned path, in reverse order of \<open>stack\<close> while they are collected: an empty
  component and \<open>.\<close> are dropped, \<open>..\<close> takes one back, at the root it is dropped.\<close>

fun cleanStack :: "bool \<Rightarrow> string list \<Rightarrow> string list \<Rightarrow> string list" where
  "cleanStack rooted stack [] = rev stack"
| "cleanStack rooted stack (w # ws) =
     (if w = [] \<or> w = ''.'' then cleanStack rooted stack ws
      else if w = ''..'' then
        (case stack of
           [] \<Rightarrow> cleanStack rooted (if rooted then [] else [''..'']) ws
         | u # rest \<Rightarrow> cleanStack rooted (if u = ''..'' then ''..'' # stack else rest) ws)
      else cleanStack rooted (w # stack) ws)"

definition pathParts :: "string \<Rightarrow> string list" where
  "pathParts p = cleanStack (isAbs p) [] (splitOn (CHR ''/'') p)"

definition cleanPath :: "string \<Rightarrow> string" where
  "cleanPath p =
     (if isAbs p then ''/'' @ joinStr (pathParts p) ''/''
      else if pathParts p = [] then ''.'' else joinStr (pathParts p) ''/'')"

definition joinPath :: "string \<Rightarrow> string \<Rightarrow> string" where
  "joinPath a b = (if a = [] then (if b = [] then [] else cleanPath b) else if b = [] then cleanPath a
     else cleanPath (a @ ''/'' @ b))"

text \<open>\<open>filepath.Rel(base, path)\<close> succeeds and does not lead out of \<open>base\<close>: the components of \<open>base\<close> begin those
  of \<open>path\<close>, and what is left does not go up.\<close>

definition pathWithin :: "string \<Rightarrow> string \<Rightarrow> bool" where
  "pathWithin path base \<longleftrightarrow>
     isAbs base = isAbs path \<and> prefix (pathParts base) (pathParts path) \<and>
     (case drop (length (pathParts base)) (pathParts path) of [] \<Rightarrow> True | w # ws \<Rightarrow> w \<noteq> ''..'')"

lemma splitOn_neq_Nil [simp]: "splitOn sep s \<noteq> []"
  by (induction s) (auto split: list.splits)

lemma splitOn_word: "sep \<notin> set w \<Longrightarrow> splitOn sep w = [w]"
  by (induction w) auto

lemma splitOn_append:
  "sep \<notin> set w \<Longrightarrow> splitOn sep (w @ sep # s) = w # splitOn sep s"
  by (induction w) auto

text \<open>A component of a clean path is a plain name, or, in a relative path, one of the \<open>..\<close> it starts with.\<close>

definition plainName :: "string \<Rightarrow> bool" where
  "plainName w \<longleftrightarrow> w \<noteq> [] \<and> w \<noteq> ''.'' \<and> w \<noteq> ''..'' \<and> CHR ''/'' \<notin> set w"

lemma cleanStack_plain: "list_all plainName ws \<Longrightarrow> cleanStack rooted stack ws = rev stack @ ws"
  by (induction ws arbitrary: stack) (auto simp: plainName_def)

lemma splitOn_no_sep: "w \<in> set (splitOn sep s) \<Longrightarrow> sep \<notin> set w"
proof (induction s arbitrary: w)
  case (Cons c s)
  obtain v vs where "splitOn sep s = v # vs" by (metis splitOn_neq_Nil neq_Nil_conv)
  with Cons show ?case by (auto split: if_splits)
qed simp

lemma cleanStack_rooted_plain:
  "list_all plainName stack \<Longrightarrow> \<forall>w \<in> set ws. CHR ''/'' \<notin> set w \<Longrightarrow> list_all plainName (cleanStack True stack ws)"
proof (induction ws arbitrary: stack)
  case (Cons w ws)
  have tops: "list_all plainName rest \<and> u \<noteq> ''..''" if "stack = u # rest" for u rest
    using Cons.prems(1) that by (auto simp: list_all_iff plainName_def)
  consider "w = [] \<or> w = ''.''" | "w = ''..''" "stack = []" | u rest where "w = ''..''" "stack = u # rest"
    | "plainName w" using Cons.prems(2) by (cases stack) (auto simp: plainName_def)
  then show ?case
  proof cases
    case 1
    then show ?thesis using Cons by auto
  next
    case 2
    then show ?thesis using Cons by simp
  next
    case 3
    then show ?thesis using Cons tops [OF 3(2)] by simp
  next
    case 4
    then have "list_all plainName (w # stack)" using Cons.prems(1) by simp
    from Cons.IH [OF this] Cons.prems(2) 4 show ?thesis by (auto simp: plainName_def)
  qed
qed (simp add: list_all_rev)

lemma pathParts_plain: "isAbs p \<Longrightarrow> list_all plainName (pathParts p)"
  unfolding pathParts_def by (auto intro!: cleanStack_rooted_plain dest: splitOn_no_sep)

lemma splitOn_joinStr:
  "list_all (\<lambda>w. CHR ''/'' \<notin> set w) ws \<Longrightarrow> ws \<noteq> [] \<Longrightarrow> splitOn (CHR ''/'') (joinStr ws ''/'') = ws"
proof (induction ws)
  case (Cons w ws)
  then show ?case by (cases ws) (simp_all add: splitOn_word splitOn_append)
qed simp

text \<open>Cleaning an absolute path again does not change it.\<close>

lemma cleanPath_idem:
  assumes "isAbs p"
  shows "pathParts (cleanPath p) = pathParts p" "cleanPath (cleanPath p) = cleanPath p"
proof -
  have abs: "isAbs (cleanPath p)" using assms by (simp add: cleanPath_def isAbs_def hasPrefix_def)
  have plain: "list_all plainName (pathParts p)" using assms by (rule pathParts_plain)
  then have "splitOn (CHR ''/'') (joinStr (pathParts p) ''/'') =
      (if pathParts p = [] then [[]] else pathParts p)"
    using splitOn_joinStr [of "pathParts p"] by (auto simp: plainName_def list_all_iff)
  then show 1: "pathParts (cleanPath p) = pathParts p"
    using assms abs plain cleanStack_plain [OF plain, of True "[]"]
    by (simp add: pathParts_def [of "cleanPath p"]) (simp add: cleanPath_def)
  show "cleanPath (cleanPath p) = cleanPath p" using assms abs 1 by (simp add: cleanPath_def)
qed

text \<open>A path within a directory of the root, in terms of the text of the cleaned path.\<close>

lemma joinStr_Cons: "joinStr (w # ws) sep = (if ws = [] then w else w @ sep @ joinStr ws sep)"
  by (cases ws) simp_all

lemma pathParts_top: "plainName w \<Longrightarrow> pathParts (''/'' @ w) = [w]"
  by (simp add: pathParts_def isAbs_def hasPrefix_def plainName_def splitOn_word)

lemma pathWithin_top:
  assumes "isAbs p" and "plainName w" and "pathWithin p (''/'' @ w)"
  shows "cleanPath p = ''/'' @ w \<or> hasPrefix (cleanPath p) (''/'' @ w @ ''/'')"
proof -
  obtain ws where "pathParts p = w # ws"
    using assms(3) unfolding pathWithin_def pathParts_top [OF assms(2)] by (auto simp: prefix_def)
  then have "cleanPath p = ''/'' @ (if ws = [] then w else w @ ''/'' @ joinStr ws ''/'')"
    using assms(1) by (simp add: cleanPath_def joinStr_Cons)
  then show ?thesis by (auto simp: hasPrefix_def)
qed

end
