(* ===== verification/Git_Transport.thy ===== *)
theory Git_Transport
  imports Server_Base Go_Path
begin

text \<open>
  The Git transport of the server (\<open>handleGit\<close> and its helpers in \<open>src/internal/server/server.go\<close>): the paths and
  services of the smart HTTP protocol, the parser of the commands of a push, and the handler that checks a push and
  forwards it.

  A request body is the bytes that can be read from it; reading past them fails. The headers are a list, from which
  \<open>agentRequest\<close> takes what authentication reads; decoding basic authentication gives \<open>gq_basicAuth\<close>. The
  refs and the installation token of GitHub and the upstream request are operations of \<open>git_upstream\<close>, on the same state as
  the other calls to GitHub. \<open>url.Parse\<close> is the argument \<open>parseURL\<close>. The hook \<open>denyTransport\<close> always
  succeeds in this build, so its failure branches are left out. Of an answer in the
  format the client asked for, only status, code and verdict are kept.
\<close>

section \<open>Paths and services\<close>

text \<open>The parts before and after the first occurrence of a string.\<close>

fun splitAt :: "string \<Rightarrow> string \<Rightarrow> (string \<times> string) option" where
  "splitAt m [] = (if m = [] then Some ([], []) else None)"
| "splitAt m (c # s) =
     (if hasPrefix (c # s) m then Some ([], drop (length m) (c # s))
      else map_option (\<lambda>(a, b). (c # a, b)) (splitAt m s))"

definition parseGitPath :: "string \<Rightarrow> (string \<times> string) option" where
  "parseGitPath path =
     (case splitAt ''.git'' (trimPrefix path ''/git/'') of
        None \<Rightarrow> None
      | Some (repo, sfx) \<Rightarrow> if count_list repo (CHR ''/'') \<noteq> 1 then None else Some (repo, sfx))"

definition safeSegmentChar :: "char \<Rightarrow> bool" where
  "safeSegmentChar c \<longleftrightarrow>
     (let n = (of_char c :: nat) in
      97 \<le> n \<and> n \<le> 122 \<or> 65 \<le> n \<and> n \<le> 90 \<or> 48 \<le> n \<and> n \<le> 57 \<or> c = CHR ''-'' \<or> c = CHR ''_'' \<or> c = CHR ''.'')"

definition safeGitPathSegment :: "string \<Rightarrow> bool" where
  "safeGitPathSegment segment \<longleftrightarrow> \<not> (segment = [] \<or> length segment > 100) \<and> list_all safeSegmentChar segment"

definition safeGitRepository :: "string \<Rightarrow> bool" where
  "safeGitRepository repo \<longleftrightarrow>
     (case cutSlash repo of None \<Rightarrow> False | Some (own, name) \<Rightarrow> safeGitPathSegment own \<and> safeGitPathSegment name)"

definition safeGitSuffix :: "string \<Rightarrow> bool" where
  "safeGitSuffix sfx \<longleftrightarrow>
     sfx = ''/info/refs'' \<or> sfx = ''/git-upload-pack'' \<or> sfx = ''/git-receive-pack'' \<or> sfx = []"

definition queryUnescape :: "string \<Rightarrow> string option" where
  "queryUnescape s = pathUnescape (map (\<lambda>c. if c = CHR ''+'' then CHR '' '' else c) s)"

fun cutEquals :: "string \<Rightarrow> string \<times> string" where
  "cutEquals [] = ([], [])"
| "cutEquals (c # s) = (if c = CHR ''='' then ([], s) else (case cutEquals s of (a, b) \<Rightarrow> (c # a, b)))"

text \<open>The pairs of a query, none when one of them is malformed.\<close>

fun queryPairs :: "string list \<Rightarrow> (string \<times> string) list option" where
  "queryPairs [] = Some []"
| "queryPairs (w # ws) =
     (if CHR '';'' \<in> set w then None
      else if w = [] then queryPairs ws
      else
        (case (queryUnescape (fst (cutEquals w)), queryUnescape (snd (cutEquals w)), queryPairs ws) of
           (Some k, Some v, Some kvs) \<Rightarrow> Some ((k, v) # kvs)
         | _ \<Rightarrow> None))"

definition gitDiscoveryService :: "string \<Rightarrow> string option" where
  "gitDiscoveryService rawQuery =
     (case queryPairs (splitOn (CHR ''&'') rawQuery) of
        None \<Rightarrow> None
      | Some kvs \<Rightarrow>
          if length (remdups (map fst kvs)) \<noteq> 1 then None
          else (case filter (\<lambda>(k, v). k = ''service'') kvs of [(k, v)] \<Rightarrow> Some v | _ \<Rightarrow> None))"

section \<open>Requests\<close>

record git_request =
  gq_method :: string
  gq_path :: string
  gq_rawQuery :: string
  gq_headers :: "(string \<times> string) list"
  gq_basicAuth :: "(string \<times> string) option"
  gq_body :: string

text \<open>A header is looked up by its name in any case; the first value counts.\<close>

definition headerGet :: "(string \<times> string) list \<Rightarrow> string \<Rightarrow> string" where
  "headerGet hs name = (case find (\<lambda>(k, v). equalFold k name) hs of None \<Rightarrow> [] | Some (_, v) \<Rightarrow> v)"

definition agentRequest :: "git_request \<Rightarrow> http_request" where
  "agentRequest q = \<lparr>hr_header = headerGet (gq_headers q), hr_basicAuth = gq_basicAuth q\<rparr>"

definition copyGitHeaders :: "(string \<times> string) list \<Rightarrow> (string \<times> string) list" where
  "copyGitHeaders hs =
     filter (\<lambda>(k, v). let lk = toLower k in
        \<not> (lk = ''authorization'' \<or> lk = ''host'' \<or> hasPrefix lk ''x-agent-'' \<or> hasPrefix lk ''x-admin-'')) hs"

record git_identity =
  gi_method :: string
  gi_service :: string
  gi_repo :: string
  gi_requestPath :: string
  gi_credentialHeaderPresent :: bool
  gi_basicAuthPresent :: bool

definition gitTransportRequest :: "git_request \<Rightarrow> git_identity" where
  "gitTransportRequest q =
     (let header = headerGet (gq_headers q);
          ident = \<lparr>gi_method = (if gq_method q = ''GET'' then ''GET'' else if gq_method q = ''POST'' then ''POST'' else ''other''),
                gi_service = [], gi_repo = [], gi_requestPath = ''/git/[invalid]'',
                gi_credentialHeaderPresent =
                  (header ''Authorization'' \<noteq> [] \<or> header ''X-Agent-ID'' \<noteq> [] \<or> header ''X-Agent-Secret'' \<noteq> []),
                gi_basicAuthPresent = hasPrefix (toLower (header ''Authorization'')) ''basic ''\<rparr>
      in case parseGitPath (gq_path q) of
           None \<Rightarrow> ident
         | Some (repo, sfx) \<Rightarrow>
             if \<not> safeGitRepository repo \<or> \<not> safeGitSuffix sfx then ident
             else
               (let ident1 = ident\<lparr>gi_repo := repo, gi_requestPath := ''/git/'' @ repo @ ''.git'' @ sfx\<rparr> in
                if gq_method q = ''GET'' \<and> sfx = ''/info/refs''
                then ident1\<lparr>gi_service := (case gitDiscoveryService (gq_rawQuery q) of
                                            Some service \<Rightarrow> service | None \<Rightarrow> ''unsupported'')\<rparr>
                else if gq_method q = ''POST''
                then ident1\<lparr>gi_service := (if sfx = ''/git-upload-pack'' then ''git-upload-pack''
                                            else if sfx = ''/git-receive-pack'' then ''git-receive-pack''
                                            else ''unsupported'')\<rparr>
                else ident1))"

definition gitOperation :: "git_request \<Rightarrow> string \<Rightarrow> string" where
  "gitOperation q sfx =
     (if gq_method q = ''GET'' \<and> sfx = ''/info/refs'' then
        (case gitDiscoveryService (gq_rawQuery q) of
           None \<Rightarrow> []
         | Some service \<Rightarrow>
             if service = ''git-upload-pack'' then ''git.upload-pack''
             else if service = ''git-receive-pack'' then ''git.receive-pack''
             else [])
      else if gq_method q = ''POST'' \<and> gq_rawQuery q = [] \<and> sfx = ''/git-upload-pack'' then ''git.upload-pack''
      else if gq_method q = ''POST'' \<and> gq_rawQuery q = [] \<and> sfx = ''/git-receive-pack'' then ''git.receive-pack''
      else [])"

section \<open>The commands of a push\<close>

record pack_update =
  up_before :: string
  up_after :: string
  up_ref :: string

datatype prefix_failure =
    ShortRead | BadPktLineLength | NonHexLength | ZeroUpdates | MalformedSHA | MalformedRefName | ExceededBound
  | MalformedUpdate | MalformedShallow | TooManyUpdates

text \<open>\<open>strconv.ParseInt\<close> of the four bytes of a length, in base 16: an optional sign and at least one digit.\<close>

definition hexNumber :: "string \<Rightarrow> int option" where
  "hexNumber ds =
     (if ds = [] \<or> \<not> list_all isHexChar ds then None
      else Some (foldl (\<lambda>n c. 16 * n + int (hexValue c)) 0 ds))"

definition parseLength :: "string \<Rightarrow> int option" where
  "parseLength h =
     (case h of
        [] \<Rightarrow> None
      | c # ds \<Rightarrow>
          if c = CHR ''+'' then hexNumber ds
          else if c = CHR ''-'' then map_option uminus (hexNumber ds)
          else hexNumber h)"

text \<open>\<open>strings.Fields\<close>: the words between runs of white space. \<open>w\<close> is the word being read.\<close>

function fieldsFrom :: "string \<Rightarrow> string \<Rightarrow> string list" where
  "fieldsFrom w [] = (if w = [] then [] else [w])"
| "fieldsFrom w (c # s) =
     (case find (\<lambda>p. hasPrefix (c # s) p) space_seqs of
        None \<Rightarrow> fieldsFrom (w @ [c]) s
      | Some p \<Rightarrow> (if w = [] then [] else [w]) @ fieldsFrom [] (drop (length p - 1) s))"
  by pat_completeness auto
termination
  by (relation "measure (\<lambda>(w, s). length s)") auto

definition strFields :: "string \<Rightarrow> string list" where
  "strFields s = fieldsFrom [] s"

definition isLowerHex :: "char \<Rightarrow> bool" where
  "isLowerHex c \<longleftrightarrow> (let n = (of_char c :: nat) in 48 \<le> n \<and> n \<le> 57 \<or> 97 \<le> n \<and> n \<le> 102)"

definition githubSHA :: "string \<Rightarrow> bool" where
  "githubSHA s \<longleftrightarrow> length s = 40 \<and> list_all isLowerHex s"

definition validReceivePackShallow :: "string \<Rightarrow> bool" where
  "validReceivePackShallow payload0 \<longleftrightarrow>
     (let payload = (if payload0 \<noteq> [] \<and> last payload0 = CHR 0x0A then butlast payload0 else payload0) in
      length payload = 48 \<and> hasPrefix payload ''shallow '' \<and> githubSHA (drop 8 payload))"

definition parseUpdate :: "string \<Rightarrow> prefix_failure + pack_update" where
  "parseUpdate payload =
     (let line = takeWhile (\<lambda>c. c \<noteq> CHR 0x00) payload in
      case strFields line of
        [b, a, ref] \<Rightarrow>
          if \<not> githubSHA b \<or> \<not> githubSHA a then Inl MalformedSHA
          else if \<not> hasPrefix ref ''refs/heads/'' then Inl MalformedRefName
          else Inr \<lparr>up_before = b, up_after = a, up_ref = ref\<rparr>
      | _ \<Rightarrow> Inl MalformedUpdate)"

definition maxPrefixBytes :: int where
  "maxPrefixBytes = 262144"

text \<open>The loop: \<open>pos\<close> bytes have been read, \<open>body\<close> is left. The answer is the number of bytes of the prefix and the
  updates.\<close>

function prefixLoop :: "int \<Rightarrow> string \<Rightarrow> pack_update list \<Rightarrow> prefix_failure + int \<times> pack_update list" where
  "prefixLoop pos body updates =
     (if length body < 4 then Inl ShortRead
      else if pos + 4 > maxPrefixBytes then Inl ExceededBound
      else
        (case parseLength (take 4 body) of
           None \<Rightarrow> Inl NonHexLength
         | Some n \<Rightarrow>
             if n < 0 \<or> n < 4 \<and> n \<noteq> 0 then Inl BadPktLineLength
             else if n = 0 then (if updates = [] then Inl ZeroUpdates else Inr (pos + 4, updates))
             else
               (let size = n - 4; body1 = drop 4 body in
                if pos + 4 + size > maxPrefixBytes then Inl ExceededBound
                else if int (length body1) < size then Inl ShortRead
                else
                  (let payload = take (nat size) body1; body2 = drop (nat size) body1 in
                   if updates = [] \<and> hasPrefix payload ''shallow''
                   then (if \<not> validReceivePackShallow payload then Inl MalformedShallow
                         else prefixLoop (pos + 4 + size) body2 updates)
                   else
                     (case parseUpdate payload of
                        Inl e \<Rightarrow> Inl e
                      | Inr u \<Rightarrow>
                          (let updates1 = updates @ [u] in
                           if length updates1 > 64 then Inl TooManyUpdates
                           else prefixLoop (pos + 4 + size) body2 updates1))))))"
  by pat_completeness auto
termination
  by (relation "measure (\<lambda>(pos, body, updates). length body)") auto

declare prefixLoop.simps [simp del]

definition readReceivePackCommandPrefix :: "string \<Rightarrow> prefix_failure + string \<times> pack_update list" where
  "readReceivePackCommandPrefix body =
     map_sum id (\<lambda>(pos, updates). (take (nat pos) body, updates)) (prefixLoop 0 body [])"

function receivePackRejected :: "string \<Rightarrow> bool" where
  "receivePackRejected body =
     (if length body < 4 then False
      else
        (case parseLength (take 4 body) of
           None \<Rightarrow> False
         | Some n \<Rightarrow>
             if n < 4 \<or> n > int (length body) then False
             else
               (let line0 = take (nat n - 4) (drop 4 body);
                    line = (case line0 of
                              c # l \<Rightarrow> if c = CHR 0x01 \<or> c = CHR 0x02 \<or> c = CHR 0x03 then l else line0
                            | [] \<Rightarrow> line0)
                in if hasPrefix line ''ng '' then True else receivePackRejected (drop (nat n) body))))"
  by pat_completeness auto
termination
  by (relation "measure length") auto

declare receivePackRejected.simps [simp del]

section \<open>Upstream\<close>

record git_call =
  gc_method :: string
  gc_url :: string
  gc_headers :: "(string \<times> string) list"
  gc_token :: string
  gc_body :: string

text \<open>The body of an answer is what can be read of it, and whether reading it fails then.\<close>

record git_answer =
  gw_status :: int
  gw_headers :: "(string \<times> string) list"
  gw_body :: string
  gw_bodyFails :: bool

record 'g git_upstream =
  gu_getRef :: "string \<Rightarrow> string \<Rightarrow> string \<Rightarrow> int \<Rightarrow> 'g \<Rightarrow> (string + string option) \<times> 'g"
  gu_token :: "string \<Rightarrow> int \<Rightarrow> 'g \<Rightarrow> (string + string) \<times> 'g"
  gu_do :: "git_call \<Rightarrow> 'g \<Rightarrow> (string + git_answer) \<times> 'g"

datatype git_response =
    GitText int
  | GitAuthChallenge
  | GitPolicyError string policy_result
  | GitUpstream int "(string \<times> string) list" string

definition trimRightSlashes :: "string \<Rightarrow> string" where
  "trimRightSlashes s = rev (dropWhile (\<lambda>c. c = CHR ''/'') (rev s))"

text \<open>\<open>parseURL\<close> parses a URL and prints it with the query set.\<close>

definition gitUpstreamURL :: "(string \<Rightarrow> string \<Rightarrow> string option) \<Rightarrow> string \<Rightarrow> string \<Rightarrow> string \<Rightarrow> string \<Rightarrow> string option" where
  "gitUpstreamURL parseURL base repo sfx rawQuery =
     parseURL (trimRightSlashes base @ ''/'' @ repo @ ''.git'' @ sfx) rawQuery"

section \<open>The handler\<close>

definition stageEvent :: "string \<Rightarrow> git_identity \<Rightarrow> string \<Rightarrow> decision \<Rightarrow> string \<Rightarrow> audit_event" where
  "stageEvent opID ident stage d agentID =
     (auditEvent opID agentID ''repository_transport_stage'' (gi_repo ident) [] d)\<lparr>au_result := stage\<rparr>"

definition gitPolicyRequest :: "principal \<Rightarrow> string \<Rightarrow> string \<Rightarrow> string \<Rightarrow> policy_request" where
  "gitPolicyRequest who repo operation branch =
     \<lparr>pr_agent = pp_agent who, pr_agentID = pp_id who, pr_repo = repo, pr_operation = operation, pr_branch = branch,
      pr_baseBranch = [], pr_permissions = [], pr_metadata = [], pr_locations = []\<rparr>"

definition gitDenial :: "string \<Rightarrow> string \<Rightarrow> string \<Rightarrow> string \<Rightarrow> string \<Rightarrow> string \<Rightarrow> policy_result" where
  "gitDenial dimension location expected message changeLocation action =
     \<lparr>res_allowed = False, res_decision = DecisionDeny,
      res_failedChecks = [\<lparr>fc_dimension = dimension, fc_field = [], fc_location = location, fc_expected = expected,
                           fc_actual = [], fc_safeToDisplay = True, fc_message = PlainMessage message\<rparr>],
      res_warnings = [], res_requiredChanges = [\<lparr>rc_field = [], rc_location = changeLocation, rc_action = action\<rparr>]\<rparr>"

definition unparseableBranch :: policy_result where
  "unparseableBranch =
     gitDenial ''branch'' ''git.receive-pack'' ''parseable refs/heads/* update''
       ''broker could not determine the pushed branch, so branch policy cannot be enforced''
       ''branch'' ''push a named branch ref that the broker can parse and policy allows''"

definition opaqueDenied :: policy_result where
  "opaqueDenied =
     gitDenial ''security_egress'' ''git.receive-pack'' ''semantic packfile inspection before forwarding''
       ''opaque Git pushes are disabled for this broker identity until semantic packfile inspection is available''
       ''git.receive-pack''
       ''use broker-controlled textual mutation paths or an identity explicitly allowed to forward opaque packfiles''"

definition preflightDenial :: "string \<Rightarrow> string \<Rightarrow> policy_result" where
  "preflightDenial ref message =
     gitDenial ''git_ref_preflight'' ref ''advertised before SHA equals current GitHub ref and update is not a deletion''
       message ref ''fetch the current ref and retry a non-deleting update''"

definition zeroSHA :: string where
  "zeroSHA = replicate 40 (CHR ''0'')"

datatype preflight = PreflightOK | RefDeletion string | RefUnavailable string string | RefMismatch string

fun preflightRefs ::
  "'g git_upstream \<Rightarrow> string \<Rightarrow> string \<Rightarrow> int \<Rightarrow> pack_update list \<Rightarrow> 'g \<Rightarrow> preflight \<times> 'g" where
  "preflightRefs up appName repo inst [] g = (PreflightOK, g)"
| "preflightRefs up appName repo inst (u # us) g =
     (if up_after u = zeroSHA then (RefDeletion (up_ref u), g)
      else
        (case gu_getRef up appName repo (up_ref u) inst g of
           (Inl e, g') \<Rightarrow> (RefUnavailable (up_ref u) e, g')
         | (Inr current, g') \<Rightarrow>
             (let zeroBefore = (up_before u = zeroSHA) in
              if (zeroBefore \<and> current \<noteq> None) \<or> (\<not> zeroBefore \<and> current \<noteq> Some (up_before u))
              then (RefMismatch (up_ref u), g')
              else preflightRefs up appName repo inst us g')))"

text \<open>The first of the further updates that the policy denies.\<close>

fun deniedUpdate :: "regexps \<Rightarrow> principal \<Rightarrow> string \<Rightarrow> string \<Rightarrow> pack_update list \<Rightarrow> (string \<times> policy_result) option" where
  "deniedUpdate re who repo operation [] = None"
| "deniedUpdate re who repo operation (u # us) =
     (let res = policyCheck re (gitPolicyRequest who repo operation (up_ref u)) in
      if \<not> res_allowed res then Some (up_ref u, res) else deniedUpdate re who repo operation us)"

definition maxStatusBytes :: int where
  "maxStatusBytes = 4194304"

text \<open>From the installation token on. \<open>d\<close> is the decision for the audit trail.\<close>

definition gitForward ::
  "'g git_upstream \<Rightarrow> (string \<Rightarrow> string \<Rightarrow> string option) \<Rightarrow> broker_config \<Rightarrow> string \<Rightarrow> git_request \<Rightarrow> git_identity \<Rightarrow>
     principal \<Rightarrow> string \<Rightarrow> string \<Rightarrow> string \<Rightarrow> string \<Rightarrow> int \<Rightarrow> string \<Rightarrow> decision \<Rightarrow> 'g server_state \<Rightarrow> git_response \<times> 'g server_state" where
  "gitForward up parseURL cfg opID q ident who operation repo sfx appName inst branch d s =
     (let ev = auditEvent opID (pp_id who) operation repo branch in
      case gu_token up appName inst (sv_github s) of
        (Inl e, g) \<Rightarrow> (GitText 502, logEvent ((ev d)\<lparr>au_error := AuGitHub e\<rparr>) (s\<lparr>sv_github := g\<rparr>))
      | (Inr token, g) \<Rightarrow>
          (let s1 = s\<lparr>sv_github := g\<rparr> in
           case gitUpstreamURL parseURL (gh_gitBaseURL (bc_github cfg)) repo sfx (gq_rawQuery q) of
             None \<Rightarrow> (GitText 400, s1)
           | Some url \<Rightarrow>
               (case gu_do up \<lparr>gc_method = gq_method q, gc_url = url, gc_headers = copyGitHeaders (gq_headers q),
                               gc_token = token, gc_body = gq_body q\<rparr> (sv_github s1) of
                  (Inl e, g1) \<Rightarrow> (GitText 502, logEvent ((ev d)\<lparr>au_error := AuGitHub e\<rparr>) (s1\<lparr>sv_github := g1\<rparr>))
                | (Inr ans, g1) \<Rightarrow>
                    (let s2 = s1\<lparr>sv_github := g1\<rparr>;
                         reply = GitUpstream (gw_status ans) (copyGitHeaders (gw_headers ans)) (gw_body ans);
                         done = (\<lambda>code. logEvent ((ev d)\<lparr>au_result := code\<rparr>)
                                   (logEvent (stageEvent opID ident ''upstream_completed'' d (pp_id who)) s2));
                         status = ''status '' @ formatInt (gw_status ans)
                     in if operation \<noteq> ''git.receive-pack''
                        then (if gw_bodyFails ans then (reply, logEvent ((ev d)\<lparr>au_error := AuOther\<rparr>) s2)
                              else (reply, done status))
                        else if gw_bodyFails ans \<or> int (length (gw_body ans)) > maxStatusBytes
                        then (GitText 502,
                              logEvent ((ev DecisionDeny)\<lparr>au_result := ''receive_pack_status_limit_exceeded''\<rparr>) s2)
                        else (reply, done (if receivePackRejected (gw_body ans) then ''github_ref_update_rejected'' else status))))))"

text \<open>From the check of the refs on; \<open>pushing\<close> says that commands are sent.\<close>

definition gitPreflighted ::
  "'g git_upstream \<Rightarrow> (string \<Rightarrow> string \<Rightarrow> string option) \<Rightarrow> broker_config \<Rightarrow> string \<Rightarrow> git_request \<Rightarrow> git_identity \<Rightarrow>
     principal \<Rightarrow> string \<Rightarrow> string \<Rightarrow> string \<Rightarrow> string \<Rightarrow> int \<Rightarrow> bool \<Rightarrow> pack_update list \<Rightarrow> string \<Rightarrow> decision \<Rightarrow> 'g server_state \<Rightarrow>
     git_response \<times> 'g server_state" where
  "gitPreflighted up parseURL cfg opID q ident who operation repo sfx appName inst pushing updates branch d s =
     (if \<not> pushing then gitForward up parseURL cfg opID q ident who operation repo sfx appName inst branch d s
      else
        (case preflightRefs up appName repo inst updates (sv_github s) of
           (RefDeletion ref, g) \<Rightarrow>
             (GitPolicyError ''ref_deletion_rejected''
                (preflightDenial ref ''ref deletion is not allowed through opaque receive-pack''),
              logEvent ((auditEvent opID (pp_id who) ''git.receive_pack_preflight'' repo ref DecisionDeny)
                  \<lparr>au_result := ''ref_deletion_rejected''\<rparr>) (s\<lparr>sv_github := g\<rparr>))
         | (RefUnavailable ref e, g) \<Rightarrow>
             (GitText 502,
              logEvent ((auditEvent opID (pp_id who) operation repo ref DecisionDeny)
                  \<lparr>au_result := ''ref_preflight_unavailable'', au_error := AuGitHub e\<rparr>) (s\<lparr>sv_github := g\<rparr>))
         | (RefMismatch ref, g) \<Rightarrow>
             (GitPolicyError ''ref_before_mismatch''
                (preflightDenial ref ''advertised ref state no longer matches GitHub''),
              logEvent ((auditEvent opID (pp_id who) ''git.receive_pack_preflight'' repo ref DecisionDeny)
                  \<lparr>au_result := ''ref_before_mismatch''\<rparr>) (s\<lparr>sv_github := g\<rparr>))
         | (PreflightOK, g) \<Rightarrow>
             gitForward up parseURL cfg opID q ident who operation repo sfx appName inst branch d (s\<lparr>sv_github := g\<rparr>)))"

text \<open>From the branch lifecycle guard on.\<close>

definition gitGuarded ::
  "'g github \<Rightarrow> 'g git_upstream \<Rightarrow> (string \<Rightarrow> string \<Rightarrow> string option) \<Rightarrow> broker_config \<Rightarrow> string \<Rightarrow> git_request \<Rightarrow> git_identity \<Rightarrow>
     principal \<Rightarrow> string \<Rightarrow> string \<Rightarrow> string \<Rightarrow> string \<Rightarrow> int \<Rightarrow> bool \<Rightarrow> pack_update list \<Rightarrow> string \<Rightarrow> decision \<Rightarrow> 'g server_state \<Rightarrow>
     git_response \<times> 'g server_state" where
  "gitGuarded hub up parseURL cfg opID q ident who operation repo sfx appName inst pushing updates branch d s =
     (let ev = auditEvent opID (pp_id who) operation repo branch;
          continue = gitPreflighted up parseURL cfg opID q ident who operation repo sfx appName inst pushing updates branch
      in case checkBranchLifecycle hub appName inst repo branch operation (pp_agent who) (sv_github s) of
           (None, g) \<Rightarrow> continue d (s\<lparr>sv_github := g\<rparr>)
         | (Some guard, g) \<Rightarrow>
             (let s1 = s\<lparr>sv_github := g\<rparr> in
              if \<not> res_allowed guard
              then (GitPolicyError ''policy_denied'' guard, logEvent (ev (res_decision guard)) s1)
              else if res_decision guard = DecisionWarn
              then continue DecisionWarn
                     (logEvent ((ev DecisionWarn)\<lparr>au_result := ''branch_lifecycle_warning''\<rparr>) s1)
              else continue d s1))"

text \<open>From the policy on, with the updates that were parsed and the first of their refs.\<close>

definition gitAuthorised ::
  "'g github \<Rightarrow> 'g git_upstream \<Rightarrow> server_libs \<Rightarrow> (string \<Rightarrow> string \<Rightarrow> string option) \<Rightarrow> broker_config \<Rightarrow> string \<Rightarrow> git_request \<Rightarrow>
     git_identity \<Rightarrow> principal \<Rightarrow> string \<Rightarrow> string \<Rightarrow> string \<Rightarrow> bool \<Rightarrow> pack_update list \<Rightarrow> string \<Rightarrow> 'g server_state \<Rightarrow>
     git_response \<times> 'g server_state" where
  "gitAuthorised hub up lib parseURL cfg opID q ident who operation repo sfx pushing updates branch s =
     (let ev = auditEvent opID (pp_id who) operation repo;
          res = policyCheck (li_regexps lib) (gitPolicyRequest who repo operation branch)
      in if \<not> res_allowed res
         then (GitPolicyError ''policy_denied'' res, logEvent (ev branch (res_decision res)) s)
         else case deniedUpdate (li_regexps lib) who repo operation (drop 1 updates) of
           Some (ref, additional) \<Rightarrow>
             (GitPolicyError ''policy_denied'' additional, logEvent (ev ref (res_decision additional)) s)
         | None \<Rightarrow>
             if pushing \<and> ag_gitReceivePack (pp_agent who) = ''deny_opaque''
             then (GitPolicyError ''security_egress_blocked'' opaqueDenied,
                   logEvent ((auditEvent opID (pp_id who) ''security.egress_blocked'' repo branch DecisionDeny)
                       \<lparr>au_result := ''semantic_pack_inspection_unavailable''\<rparr>) s)
             else
               (let appName = GitHubAppName (pp_agent who) in
                case InstallationIDForApp (bc_github cfg) appName repo of
                  None \<Rightarrow> (GitText 403, s)
                | Some inst \<Rightarrow>
                    gitGuarded hub up parseURL cfg opID q ident who operation repo sfx appName inst pushing updates branch
                      (res_decision res) s))"

definition handleGit ::
  "'g github \<Rightarrow> 'g git_upstream \<Rightarrow> server_libs \<Rightarrow> (string \<Rightarrow> string \<Rightarrow> string option) \<Rightarrow> broker_config \<Rightarrow> string \<Rightarrow> git_request \<Rightarrow>
     'g server_state \<Rightarrow> git_response \<times> 'g server_state" where
  "handleGit hub up lib parseURL cfg opID q s =
     (let ident = gitTransportRequest q;
          stage = (\<lambda>name d agentID. logEvent (stageEvent opID ident name d agentID));
          s0 = stage ''request_received'' DecisionDeny [] s;
          s1 = (if gi_basicAuthPresent ident then stage ''helper_basic_seen'' DecisionDeny [] s0 else s0)
      in case parseGitPath (gq_path q) of
           None \<Rightarrow> (GitText 404, stage ''pre_admission_rejected'' DecisionDeny [] s1)
         | Some (repo, sfx) \<Rightarrow>
             (case AuthenticateAgent (agentRequest q) cfg of
                None \<Rightarrow>
                  (GitAuthChallenge,
                   stage (if gi_credentialHeaderPresent ident then ''credential_rejected'' else ''basic_challenge'') DecisionDeny [] s1)
              | Some who \<Rightarrow>
                  (let s2 = (if gi_basicAuthPresent ident then stage ''authenticated_retry'' DecisionAllow (pp_id who) s1 else s1);
                       s3 = stage ''credential_accepted'' DecisionAllow (pp_id who) s2;
                       operation = gitOperation q sfx
                   in if operation = []
                      then (GitText 400, stage ''pre_admission_rejected'' DecisionDeny (pp_id who) s3)
                      else
                        (let pushing = (operation = ''git.receive-pack'' \<and> gq_method q = ''POST'') in
                         if \<not> pushing
                         then gitAuthorised hub up lib parseURL cfg opID q ident who operation repo sfx False [] [] s3
                         else
                           (case readReceivePackCommandPrefix (gq_body q) of
                              Inl reason \<Rightarrow>
                                (GitText (if reason = ExceededBound then 413 else 400),
                                 logEvent ((auditEvent opID (pp_id who) operation repo [] DecisionDeny)
                                     \<lparr>au_result := ''receive_pack_command_prefix_rejected''\<rparr>)
                                   (stage ''receive_pack_command_prefix_rejected'' DecisionDeny (pp_id who) s3))
                            | Inr (pre, updates) \<Rightarrow>
                                (let q1 = q\<lparr>gq_body := pre @ drop (length pre) (gq_body q)\<rparr>;
                                     branch = (case updates of [] \<Rightarrow> [] | u # _ \<Rightarrow> up_ref u) in
                                 if branch = []
                                 then (GitPolicyError ''policy_denied'' unparseableBranch,
                                       logEvent (auditEvent opID (pp_id who) operation repo [] DecisionDeny) s3)
                                 else
                                   gitAuthorised hub up lib parseURL cfg opID q1 ident who operation repo sfx True updates branch s3))))))"

section \<open>Parsing the commands\<close>

definition valid_update :: "pack_update \<Rightarrow> bool" where
  "valid_update u \<longleftrightarrow> githubSHA (up_before u) \<and> githubSHA (up_after u) \<and> hasPrefix (up_ref u) ''refs/heads/''"

lemma parseUpdate_valid: "parseUpdate payload = Inr u \<Longrightarrow> valid_update u"
  by (auto simp: parseUpdate_def Let_def valid_update_def split: list.splits if_splits)

lemma prefixLoop_sound:
  assumes "prefixLoop pos body ups = Inr (n, us)" and "0 \<le> pos" and "length ups \<le> 64" and "\<forall>u \<in> set ups. valid_update u"
  shows "pos \<le> n \<and> n \<le> maxPrefixBytes \<and> n \<le> pos + int (length body) \<and> us \<noteq> [] \<and> length us \<le> 64 \<and>
    (\<forall>u \<in> set us. valid_update u)"
  using assms
proof (induction pos body ups rule: prefixLoop.induct)
  case (1 pos body ups)
  from "1.prems"(1) obtain m where len: "\<not> length body < 4" and pos: "\<not> maxPrefixBytes < pos + 4"
    and m: "parseLength (take 4 body) = Some m" and ok: "\<not> (m < 0 \<or> m < 4 \<and> m \<noteq> 0)"
    by (subst (asm) prefixLoop.simps) (auto split: if_splits option.splits)
  show ?case
  proof (cases "m = 0")
    case True
    then show ?thesis using "1.prems" len pos m
      by (subst (asm) prefixLoop.simps) (auto split: if_splits)
  next
    case False
    with ok have m4: "4 \<le> m" by simp
    let ?payload = "take (nat (m - 4)) (drop 4 body)" and ?rest = "drop (nat (m - 4)) (drop 4 body)"
    have size: "pos + 4 + (m - 4) \<le> maxPrefixBytes" "\<not> int (length (drop 4 body)) < m - 4"
      using "1.prems"(1) len pos m ok False
      by (subst (asm) prefixLoop.simps, auto simp: Let_def split: if_splits)+
    have room: "int (length ?rest) = int (length body) - m" using len size m4 by simp
    show ?thesis
    proof (cases "ups = [] \<and> hasPrefix ?payload ''shallow''")
      case True
      then have "prefixLoop (pos + 4 + (m - 4)) ?rest ups = Inr (n, us)" "validReceivePackShallow ?payload"
        using "1.prems"(1) len pos m ok False size
        by (subst (asm) prefixLoop.simps, auto simp: Let_def split: if_splits)+
      from "1.IH"(1) [OF len pos m ok False refl refl _ _ refl refl True] this(1,2) size "1.prems"(2-4) True
      show ?thesis using room m4 by auto
    next
      case no: False
      obtain u where u: "parseUpdate ?payload = Inr u" and short: "\<not> length (ups @ [u]) > 64"
        and rec: "prefixLoop (pos + 4 + (m - 4)) ?rest (ups @ [u]) = Inr (n, us)"
        using "1.prems"(1) len pos m ok False size no
        by (subst (asm) prefixLoop.simps) (auto simp: Let_def split: if_splits sum.splits)
      have "\<forall>v \<in> set (ups @ [u]). valid_update v" using "1.prems"(4) parseUpdate_valid [OF u] by auto
      from "1.IH"(2) [OF len pos m ok False refl refl _ _ refl refl no u refl short rec] this short size "1.prems"(2)
      show ?thesis using room m4 by auto
    qed
  qed
qed

text \<open>Length headers and words.\<close>

definition hex4 :: "nat \<Rightarrow> string" where
  "hex4 n = map hexDigit [n div 4096, n div 256 mod 16, n div 16 mod 16, n mod 16]"

lemma hexValue_hexDigit: "d < 16 \<Longrightarrow> hexValue (hexDigit d) = d"
  by (simp add: hexValue_def hexDigit_def)

lemma hexDigit_not_sign:
  assumes "d < 16"
  shows "hexDigit d \<noteq> CHR ''+'' \<and> hexDigit d \<noteq> CHR ''-''"
proof -
  have "48 \<le> (of_char (hexDigit d) :: nat)" using assms by (simp add: hexDigit_def)
  moreover have "(of_char (CHR ''+'') :: nat) = 43" "(of_char (CHR ''-'') :: nat) = 45" by simp_all
  ultimately show ?thesis by fastforce
qed

lemma parseLength_hex4:
  assumes "n < 65536"
  shows "parseLength (hex4 n) = Some (int n)"
proof -
  have d: "n div 4096 < 16" "n div 256 mod 16 < 16" "n div 16 mod 16 < 16" "n mod 16 < 16"
    using assms by (auto simp: div_less_iff_less_mult)
  have "16 * (16 * (16 * int (n div 4096) + int (n div 256 mod 16)) + int (n div 16 mod 16)) + int (n mod 16) = int n"
  proof -
    have "n div 256 = n div 16 div 16" "n div 4096 = n div 16 div 16 div 16"
      by (simp_all add: div_mult2_eq [symmetric])
    then have "16 * (16 * (16 * (n div 4096) + n div 256 mod 16) + n div 16 mod 16) + n mod 16 = n" by simp
    then show ?thesis by (metis of_nat_add of_nat_mult of_nat_numeral)
  qed
  then have "hexNumber (hex4 n) = Some (int n)"
    using d by (simp add: hexNumber_def hex4_def isHexChar_hexDigit hexValue_hexDigit)
  then show ?thesis using hexDigit_not_sign [OF d(1)] by (simp add: parseLength_def hex4_def)
qed

definition graphic :: "char \<Rightarrow> bool" where
  "graphic c \<longleftrightarrow> 32 < (of_char c :: nat) \<and> (of_char c :: nat) < 128"

lemma space_seqs_head: "p \<in> set space_seqs \<Longrightarrow> p \<noteq> [] \<and> \<not> graphic (hd p)"
  by (auto simp: space_seqs_def graphic_def)

lemma graphic_no_space: "graphic c \<Longrightarrow> find (\<lambda>p. hasPrefix (c # s) p) space_seqs = None"
proof -
  assume "graphic c"
  then have "\<not> hasPrefix (c # s) p" if "p \<in> set space_seqs" for p
    using space_seqs_head [OF that] by (cases p) (auto simp: hasPrefix_def)
  then show ?thesis by (auto simp: find_None_iff)
qed

lemma fieldsFrom_word: "list_all graphic v \<Longrightarrow> fieldsFrom w (v @ s) = fieldsFrom (w @ v) s"
proof (induction v arbitrary: w)
  case (Cons c v)
  then show ?case using graphic_no_space [of c "v @ s"] by simp
qed simp

lemma fieldsFrom_space: "w \<noteq> [] \<Longrightarrow> fieldsFrom w (CHR '' '' # s) = w # fieldsFrom [] s"
  by (simp add: space_seqs_def hasPrefix_def)

lemma githubSHA_graphic:
  assumes "githubSHA b"
  shows "list_all graphic b" "b \<noteq> []"
  using assms by (auto simp: githubSHA_def list_all_iff isLowerHex_def graphic_def Let_def)

text \<open>What a client sends for its updates: one line each, possibly with capabilities behind a NUL, then a flush.\<close>

definition pktLine :: "string \<Rightarrow> string" where
  "pktLine payload = hex4 (length payload + 4) @ payload"

definition commandLine :: "pack_update \<Rightarrow> string" where
  "commandLine u = up_before u @ '' '' @ up_after u @ '' '' @ up_ref u"

definition encodeUpdates :: "(pack_update \<times> string) list \<Rightarrow> string" where
  "encodeUpdates us = concat (map (\<lambda>(u, caps). pktLine (commandLine u @ caps)) us)"

definition sendable :: "pack_update \<times> string \<Rightarrow> bool" where
  "sendable uc \<longleftrightarrow>
     (case uc of (u, caps) \<Rightarrow> valid_update u \<and> list_all graphic (up_ref u) \<and> (caps = [] \<or> hd caps = CHR 0x00) \<and>
        length (commandLine u @ caps) + 4 < 65536)"

lemma parseUpdate_commandLine:
  assumes "sendable (u, caps)"
  shows "parseUpdate (commandLine u @ caps) = Inr u"
proof -
  have v: "githubSHA (up_before u)" "githubSHA (up_after u)" "hasPrefix (up_ref u) ''refs/heads/''" "list_all graphic (up_ref u)"
    and caps: "caps = [] \<or> hd caps = CHR 0x00" using assms by (auto simp: sendable_def valid_update_def)
  have ref: "up_ref u \<noteq> []" using v(3) by (auto simp: hasPrefix_def)
  have nonul: "\<forall>c \<in> set w. c \<noteq> CHR 0x00" if "list_all graphic w" for w
    using that by (auto simp: list_all_iff graphic_def)
  have "takeWhile (\<lambda>c. c \<noteq> CHR 0x00) (commandLine u @ caps) = commandLine u"
  proof (cases caps)
    case Nil
    then show ?thesis using nonul [OF githubSHA_graphic(1) [OF v(1)]] nonul [OF githubSHA_graphic(1) [OF v(2)]] nonul [OF v(4)]
      by (auto simp: commandLine_def takeWhile_eq_all_conv)
  next
    case (Cons c cs)
    then have "c = CHR 0x00" using caps by simp
    with Cons show ?thesis
      using nonul [OF githubSHA_graphic(1) [OF v(1)]] nonul [OF githubSHA_graphic(1) [OF v(2)]] nonul [OF v(4)]
      by (simp add: commandLine_def takeWhile_append takeWhile_eq_all_conv)
  qed
  moreover have "strFields (commandLine u) = [up_before u, up_after u, up_ref u]"
    using fieldsFrom_word [OF githubSHA_graphic(1) [OF v(1)], of "[]" "CHR '' '' # up_after u @ CHR '' '' # up_ref u"]
      fieldsFrom_word [OF githubSHA_graphic(1) [OF v(2)], of "[]" "CHR '' '' # up_ref u"]
      fieldsFrom_word [OF v(4), of "[]" "[]"] ref
      fieldsFrom_space [OF githubSHA_graphic(2) [OF v(1)]] fieldsFrom_space [OF githubSHA_graphic(2) [OF v(2)]]
    by (simp add: strFields_def commandLine_def del: fieldsFrom.simps(2))
  ultimately show ?thesis using v(1-3) by (simp add: parseUpdate_def)
qed

lemma commandLine_not_shallow:
  assumes "githubSHA (up_before u)"
  shows "\<not> hasPrefix (commandLine u @ caps) ''shallow''"
proof -
  obtain c cs where b: "up_before u = c # cs" using githubSHA_graphic(2) [OF assms] by (cases "up_before u") auto
  then have "isLowerHex c" using assms by (simp add: githubSHA_def)
  then have "c \<noteq> CHR ''s''" by (auto simp: isLowerHex_def)
  with b show ?thesis by (simp add: commandLine_def hasPrefix_def)
qed

lemma length_hex4 [simp]: "length (hex4 n) = 4"
  by (simp add: hex4_def)

lemma prefixLoop_line:
  assumes "sendable (u, caps)" and "0 \<le> pos" and "length ups < 64"
    and "pos + int (length (pktLine (commandLine u @ caps))) \<le> maxPrefixBytes"
  shows "prefixLoop pos (pktLine (commandLine u @ caps) @ rest) ups =
    prefixLoop (pos + int (length (pktLine (commandLine u @ caps)))) rest (ups @ [u])"
proof -
  let ?p = "commandLine u @ caps"
  have small: "length ?p + 4 < 65536" and sha: "githubSHA (up_before u)"
    using assms(1) by (auto simp: sendable_def valid_update_def)
  have "parseLength (take 4 (pktLine ?p @ rest)) = Some (int (length ?p + 4))"
    using parseLength_hex4 [OF small] by (simp add: pktLine_def)
  moreover have "drop 4 (pktLine ?p @ rest) = ?p @ rest" by (simp add: pktLine_def)
  ultimately show ?thesis
    using assms commandLine_not_shallow [OF sha, of caps] parseUpdate_commandLine [OF assms(1)]
    by (subst prefixLoop.simps) (simp add: pktLine_def Let_def add.assoc)
qed

lemma prefixLoop_encode:
  assumes "\<forall>uc \<in> set us. sendable uc" and "0 \<le> pos" and "length ups + length us \<le> 64" and "ups \<noteq> [] \<or> us \<noteq> []"
    and "pos + int (length (encodeUpdates us)) + 4 \<le> maxPrefixBytes"
  shows "prefixLoop pos (encodeUpdates us @ ''0000'' @ rest) ups =
    Inr (pos + int (length (encodeUpdates us)) + 4, ups @ map fst us)"
  using assms
proof (induction us arbitrary: pos ups)
  case Nil
  have "parseLength ''0000'' = Some 0" by code_simp
  then show ?case using Nil by (subst prefixLoop.simps) (simp add: encodeUpdates_def)
next
  case (Cons uc us)
  obtain u caps where uc: "uc = (u, caps)" by (cases uc)
  let ?line = "pktLine (commandLine u @ caps)"
  have enc: "encodeUpdates (uc # us) = ?line @ encodeUpdates us" by (simp add: encodeUpdates_def uc)
  have "prefixLoop pos (?line @ encodeUpdates us @ ''0000'' @ rest) ups =
      prefixLoop (pos + int (length ?line)) (encodeUpdates us @ ''0000'' @ rest) (ups @ [u])"
    using Cons.prems unfolding enc unfolding uc by (intro prefixLoop_line) auto
  also have "\<dots> = Inr (pos + int (length ?line) + int (length (encodeUpdates us)) + 4, (ups @ [u]) @ map fst us)"
    using Cons.prems unfolding enc unfolding uc by (intro Cons.IH) auto
  finally show ?case unfolding enc by (simp add: uc add.assoc)
qed

text \<open>C25. The commands of a push are read within bounds and as they were sent. What the parser accepts are the first
  bytes of the body, at most 256 KiB of them, with 1 to 64 updates, each of two lower-case SHA-1 names and a
  ref under \<open>refs/heads/\<close>. And of a client that sends updates as Git does, with refs of printable ASCII
  characters and any capabilities, within the bounds, the parser reads exactly its updates, and exactly the bytes up to the
  flush.\<close>

theorem push_commands_round_trip:
  "(\<forall>body pre us. readReceivePackCommandPrefix body = Inr (pre, us) \<longrightarrow>
      pre @ drop (length pre) body = body \<and> int (length pre) \<le> 262144 \<and> us \<noteq> [] \<and> length us \<le> 64 \<and>
      (\<forall>u \<in> set us. valid_update u)) \<and>
   (\<forall>us rest. us \<noteq> [] \<longrightarrow> length us \<le> 64 \<longrightarrow> (\<forall>uc \<in> set us. sendable uc) \<longrightarrow>
      int (length (encodeUpdates us)) + 4 \<le> 262144 \<longrightarrow>
      readReceivePackCommandPrefix (encodeUpdates us @ ''0000'' @ rest) =
        Inr (encodeUpdates us @ ''0000'', map fst us))"
proof (intro conjI allI impI)
  fix body pre us
  assume "readReceivePackCommandPrefix body = Inr (pre, us)"
  then obtain n where run: "prefixLoop 0 body [] = Inr (n, us)" and pre: "pre = take (nat n) body"
    by (cases "prefixLoop 0 body []") (auto simp: readReceivePackCommandPrefix_def)
  have s: "0 \<le> n" "n \<le> maxPrefixBytes" "n \<le> int (length body)" "us \<noteq> []" "length us \<le> 64" "\<forall>u \<in> set us. valid_update u"
    using prefixLoop_sound [OF run] by simp_all
  show "pre @ drop (length pre) body = body" using s(1,3) by (simp add: pre min_absorb2)
  show "int (length pre) \<le> 262144" using s(1,2) by (simp add: pre maxPrefixBytes_def)
  show "us \<noteq> []" "length us \<le> 64" by fact+
  show "\<forall>u \<in> set us. valid_update u" by fact
next
  fix us :: "(pack_update \<times> string) list" and rest
  assume "us \<noteq> []" "length us \<le> 64" "\<forall>uc \<in> set us. sendable uc" "int (length (encodeUpdates us)) + 4 \<le> 262144"
  then have "prefixLoop 0 (encodeUpdates us @ ''0000'' @ rest) [] =
      Inr (int (length (encodeUpdates us)) + 4, map fst us)"
    using prefixLoop_encode [of us 0 "[]" rest] by (simp add: maxPrefixBytes_def)
  then show "readReceivePackCommandPrefix (encodeUpdates us @ ''0000'' @ rest) = Inr (encodeUpdates us @ ''0000'', map fst us)"
    by (simp add: readReceivePackCommandPrefix_def nat_add_distrib)
qed

definition exampleUpdate :: pack_update where
  "exampleUpdate = \<lparr>up_before = zeroSHA, up_after = replicate 40 (CHR ''a''), up_ref = ''refs/heads/agent/x''\<rparr>"

lemma exampleUpdate_sendable: "sendable (exampleUpdate, [CHR 0x00, CHR ''c''])"
proof -
  have "list_all graphic ''refs/heads/agent/x''" "hasPrefix ''refs/heads/agent/x'' ''refs/heads/''" by code_simp+
  then show ?thesis
    by (simp add: sendable_def exampleUpdate_def valid_update_def githubSHA_def zeroSHA_def isLowerHex_def list_all_iff
        commandLine_def)
qed

theorem push_commands_round_trip_witness:
  "readReceivePackCommandPrefix (encodeUpdates [(exampleUpdate, [CHR 0x00, CHR ''c''])] @ ''0000'' @ ''PACK'') =
     Inr (encodeUpdates [(exampleUpdate, [CHR 0x00, CHR ''c''])] @ ''0000'', [exampleUpdate])"
proof -
  have "int (length (encodeUpdates [(exampleUpdate, [CHR 0x00, CHR ''c''])])) + 4 \<le> 262144"
    by (simp add: encodeUpdates_def pktLine_def commandLine_def exampleUpdate_def zeroSHA_def)
  then show ?thesis
    using push_commands_round_trip [THEN conjunct2, rule_format, of "[(exampleUpdate, [CHR 0x00, CHR ''c''])]" "''PACK''"]
      exampleUpdate_sendable by simp
qed

section \<open>What is forwarded\<close>

text \<open>\<open>calls\<close> reads the upstream requests made so far off the state; only \<open>gu_do\<close> makes one.\<close>

definition upstream_laws :: "'g github \<Rightarrow> 'g git_upstream \<Rightarrow> ('g \<Rightarrow> git_call list) \<Rightarrow> bool" where
  "upstream_laws hub up calls \<longleftrightarrow>
     (\<forall>a r i qs g. calls (snd (hub_listPulls hub a r i qs g)) = calls g) \<and>
     (\<forall>a r ref i g. calls (snd (gu_getRef up a r ref i g)) = calls g) \<and>
     (\<forall>a i g. calls (snd (gu_token up a i g)) = calls g) \<and>
     (\<forall>c g. calls (snd (gu_do up c g)) = calls g @ [c])"

definition carries :: "git_request \<Rightarrow> git_call \<Rightarrow> bool" where
  "carries q c \<longleftrightarrow>
     gc_method c = gq_method q \<and> gc_body c = gq_body q \<and> gc_headers c = copyGitHeaders (gq_headers q)"

text \<open>The update is no deletion, and GitHub answered that the ref is where the client says it is.\<close>

definition current_update :: "'g git_upstream \<Rightarrow> string \<Rightarrow> string \<Rightarrow> int \<Rightarrow> pack_update \<Rightarrow> bool" where
  "current_update up appName repo inst u \<longleftrightarrow>
     up_after u \<noteq> zeroSHA \<and>
     (\<exists>g g'. gu_getRef up appName repo (up_ref u) inst g =
        (Inr (if up_before u = zeroSHA then None else Some (up_before u)), g'))"

definition permitted_call :: "'g git_upstream \<Rightarrow> server_libs \<Rightarrow> broker_config \<Rightarrow> git_request \<Rightarrow> git_call \<Rightarrow> bool" where
  "permitted_call up lib cfg q c \<longleftrightarrow>
     (\<exists>who repo sfx inst. parseGitPath (gq_path q) = Some (repo, sfx) \<and>
        AuthenticateAgent (agentRequest q) cfg = Some who \<and> gitOperation q sfx \<noteq> [] \<and>
        InstallationIDForApp (bc_github cfg) (GitHubAppName (pp_agent who)) repo = Some inst \<and> carries q c \<and>
        (if gitOperation q sfx = ''git.receive-pack'' \<and> gq_method q = ''POST'' then
           ag_gitReceivePack (pp_agent who) \<noteq> ''deny_opaque'' \<and>
           (\<exists>pre us. readReceivePackCommandPrefix (gq_body q) = Inr (pre, us) \<and>
              (\<forall>u \<in> set us. authorised (li_regexps lib) (gitPolicyRequest who repo ''git.receive-pack'' (up_ref u)) \<and>
                 current_update up (GitHubAppName (pp_agent who)) repo inst u))
         else authorised (li_regexps lib) (gitPolicyRequest who repo (gitOperation q sfx) [])))"

lemma sv_github_logEvent [simp]: "sv_github (logEvent ev s) = sv_github s"
  by (simp add: logEvent_def)

lemma checkBranchLifecycle_calls:
  assumes "upstream_laws hub up calls" and "checkBranchLifecycle hub appName inst repo branch operation ag g = (v, g')"
  shows "calls g' = calls g"
proof -
  have "g' = g \<or> (\<exists>qs r. hub_listPulls hub appName repo inst qs g = (r, g'))"
    using assms(2) by (auto simp: checkBranchLifecycle_def Let_def split: if_splits option.splits sum.splits prod.splits)
  then show ?thesis using assms(1) by (metis snd_conv upstream_laws_def)
qed

lemma preflightRefs_calls:
  assumes "upstream_laws hub up calls" and "preflightRefs up appName repo inst us g = (v, g')"
  shows "calls g' = calls g \<and> (v = PreflightOK \<longrightarrow> (\<forall>u \<in> set us. current_update up appName repo inst u))"
  using assms(2)
proof (induction us arbitrary: g)
  case (Cons u us)
  show ?case
  proof (cases "up_after u = zeroSHA")
    case True
    then show ?thesis using Cons.prems by auto
  next
    case live: False
    obtain r g1 where get: "gu_getRef up appName repo (up_ref u) inst g = (r, g1)" by fastforce
    then have same: "calls g1 = calls g" using assms(1) by (metis snd_conv upstream_laws_def)
    show ?thesis
    proof (cases "r = Inr (if up_before u = zeroSHA then None else Some (up_before u))")
      case True
      then have "preflightRefs up appName repo inst us g1 = (v, g')" using Cons.prems live get by (auto simp: Let_def split: if_splits)
      moreover have "current_update up appName repo inst u" unfolding current_update_def using live get True by blast
      ultimately show ?thesis using Cons.IH same by auto
    next
      case False
      then have "v \<noteq> PreflightOK \<and> g' = g1"
        using Cons.prems live get by (auto simp: Let_def split: if_splits sum.splits)
      then show ?thesis using same by simp
    qed
  qed
qed simp

lemma gitForward_calls:
  assumes "upstream_laws hub up calls"
    and "gitForward up parseURL cfg opID q ident who operation repo sfx appName inst branch d s = (resp, s')"
  shows "calls (sv_github s') = calls (sv_github s) \<or> (\<exists>c. calls (sv_github s') = calls (sv_github s) @ [c] \<and> carries q c)"
proof (cases "gu_token up appName inst (sv_github s)")
  case (Pair tok g)
  then have same: "calls g = calls (sv_github s)" using assms(1) by (metis snd_conv upstream_laws_def)
  show ?thesis
  proof (cases tok)
    case (Inl e)
    then show ?thesis using assms(2) Pair same by (auto simp: gitForward_def Let_def)
  next
    case (Inr token)
    show ?thesis
    proof (cases "gitUpstreamURL parseURL (gh_gitBaseURL (bc_github cfg)) repo sfx (gq_rawQuery q)")
      case None
      then show ?thesis using assms(2) Pair same Inr by (auto simp: gitForward_def Let_def)
    next
      case (Some url)
      let ?c = "\<lparr>gc_method = gq_method q, gc_url = url, gc_headers = copyGitHeaders (gq_headers q), gc_token = token,
                 gc_body = gq_body q\<rparr>"
      obtain ans g1 where do: "gu_do up ?c g = (ans, g1)" by fastforce
      then have "calls g1 = calls (sv_github s) @ [?c]" using assms(1) same by (metis snd_conv upstream_laws_def)
      moreover have "sv_github s' = g1"
        using assms(2) Pair Inr Some do by (auto simp: gitForward_def Let_def split: sum.splits if_splits)
      moreover have "carries q ?c" by (simp add: carries_def)
      ultimately show ?thesis by auto
    qed
  qed
qed

lemma gitPreflighted_calls:
  assumes laws: "upstream_laws hub up calls"
    and run: "gitPreflighted up parseURL cfg opID q ident who operation repo sfx appName inst pushing us branch d s = (resp, s')"
  shows "calls (sv_github s') = calls (sv_github s) \<or>
    (\<exists>c. calls (sv_github s') = calls (sv_github s) @ [c] \<and> carries q c \<and>
       (pushing \<longrightarrow> (\<forall>u \<in> set us. current_update up appName repo inst u)))"
proof (cases pushing)
  case False
  then show ?thesis using gitForward_calls [OF laws] run by (simp add: gitPreflighted_def)
next
  case True
  obtain v g where pre: "preflightRefs up appName repo inst us (sv_github s) = (v, g)" by fastforce
  note same = preflightRefs_calls [OF laws pre]
  show ?thesis
  proof (cases "v = PreflightOK")
    case True
    then have "gitForward up parseURL cfg opID q ident who operation repo sfx appName inst branch d (s\<lparr>sv_github := g\<rparr>) = (resp, s')"
      using run \<open>pushing\<close> pre by (simp add: gitPreflighted_def)
    from gitForward_calls [OF laws this] same True show ?thesis by auto
  next
    case False
    then have "sv_github s' = g" using run \<open>pushing\<close> pre by (cases v) (auto simp: gitPreflighted_def)
    then show ?thesis using same by simp
  qed
qed

lemma gitGuarded_calls:
  assumes laws: "upstream_laws hub up calls"
    and run: "gitGuarded hub up parseURL cfg opID q ident who operation repo sfx appName inst pushing us branch d s = (resp, s')"
  shows "calls (sv_github s') = calls (sv_github s) \<or>
    (\<exists>c. calls (sv_github s') = calls (sv_github s) @ [c] \<and> carries q c \<and>
       (pushing \<longrightarrow> (\<forall>u \<in> set us. current_update up appName repo inst u)))"
proof (cases "checkBranchLifecycle hub appName inst repo branch operation (pp_agent who) (sv_github s)")
  case (Pair verdict g)
  have g: "calls g = calls (sv_github s)" by (rule checkBranchLifecycle_calls [OF laws Pair])
  consider "sv_github s' = g"
    | d1 s1 where "sv_github s1 = g"
        "gitPreflighted up parseURL cfg opID q ident who operation repo sfx appName inst pushing us branch d1 s1 = (resp, s')"
  proof (cases verdict)
    case None
    then show ?thesis using run Pair that(2) [of "s\<lparr>sv_github := g\<rparr>" d] by (simp add: gitGuarded_def Let_def)
  next
    case (Some guard)
    then show ?thesis
      using run Pair that(1) that(2) [of "s\<lparr>sv_github := g\<rparr>" d]
        that(2) [of "logEvent ((auditEvent opID (pp_id who) operation repo branch DecisionWarn)
          \<lparr>au_result := ''branch_lifecycle_warning''\<rparr>) (s\<lparr>sv_github := g\<rparr>)" DecisionWarn]
      by (auto simp: gitGuarded_def Let_def split: if_splits)
  qed
  then show ?thesis
  proof cases
    case 1
    then show ?thesis using g by simp
  next
    case 2
    then show ?thesis using gitPreflighted_calls [OF laws 2(2)] g by simp
  qed
qed

lemma deniedUpdate_None:
  "deniedUpdate re who repo operation us = None \<Longrightarrow>
     \<forall>u \<in> set us. authorised re (gitPolicyRequest who repo operation (up_ref u))"
  by (induction us) (auto simp: Let_def policyCheck_allowed split: if_splits)

lemma gitAuthorised_calls:
  assumes laws: "upstream_laws hub up calls"
    and run: "gitAuthorised hub up lib parseURL cfg opID q ident who operation repo sfx pushing us branch s = (resp, s')"
  shows "calls (sv_github s') = calls (sv_github s) \<or>
    (\<exists>c inst. calls (sv_github s') = calls (sv_github s) @ [c] \<and> carries q c \<and>
       InstallationIDForApp (bc_github cfg) (GitHubAppName (pp_agent who)) repo = Some inst \<and>
       authorised (li_regexps lib) (gitPolicyRequest who repo operation branch) \<and>
       (\<forall>u \<in> set (drop 1 us). authorised (li_regexps lib) (gitPolicyRequest who repo operation (up_ref u))) \<and>
       (pushing \<longrightarrow> ag_gitReceivePack (pp_agent who) \<noteq> ''deny_opaque'' \<and>
          (\<forall>u \<in> set us. current_update up (GitHubAppName (pp_agent who)) repo inst u)))"
proof -
  let ?re = "li_regexps lib" and ?app = "GitHubAppName (pp_agent who)"
  consider "sv_github s' = sv_github s"
    | inst d where "res_allowed (policyCheck ?re (gitPolicyRequest who repo operation branch))"
        "deniedUpdate ?re who repo operation (drop 1 us) = None" "\<not> (pushing \<and> ag_gitReceivePack (pp_agent who) = ''deny_opaque'')"
        "InstallationIDForApp (bc_github cfg) ?app repo = Some inst"
        "gitGuarded hub up parseURL cfg opID q ident who operation repo sfx ?app inst pushing us branch d s = (resp, s')"
    using run by (auto simp: gitAuthorised_def Let_def split: if_splits option.splits)
  then show ?thesis
  proof cases
    case 1
    then show ?thesis by simp
  next
    case 2
    from gitGuarded_calls [OF laws 2(5)] 2(1,3,4) deniedUpdate_None [OF 2(2)] show ?thesis
      unfolding policyCheck_allowed by blast
  qed
qed

text \<open>C26. Nothing is forwarded to GitHub that was not checked. Whatever a Git request holds, and
  whatever GitHub answers, the broker makes at most one upstream request for it, and that one only when the
  agent authenticated, the operation is one of the protocol's, and the policy allows it; for a push,
  every command was parsed, the agent may push opaque packs, the policy allows every ref that is updated, no ref is deleted,
  and each ref was where the client says. What goes upstream is the body as it came and none of the agent's
  credential headers.\<close>

theorem only_permitted_git_calls:
  assumes "upstream_laws hub up calls"
    and "handleGit hub up lib parseURL cfg opID q (s :: 'g server_state) = (resp, s')"
  shows "calls (sv_github s') = calls (sv_github s) \<or>
    (\<exists>c. calls (sv_github s') = calls (sv_github s) @ [c] \<and> permitted_call up lib cfg q c \<and>
       (\<forall>(name, v) \<in> set (gc_headers c). toLower name \<noteq> ''authorization'' \<and> \<not> hasPrefix (toLower name) ''x-agent-''))"
proof -
  have headers: "\<forall>(name, v) \<in> set (gc_headers c). toLower name \<noteq> ''authorization'' \<and> \<not> hasPrefix (toLower name) ''x-agent-''"
    if "carries q c" for c using that by (auto simp: carries_def copyGitHeaders_def Let_def)
  consider "sv_github s' = sv_github s"
    | repo sfx who s1 where "parseGitPath (gq_path q) = Some (repo, sfx)" "AuthenticateAgent (agentRequest q) cfg = Some who"
        "gitOperation q sfx \<noteq> []" "\<not> (gitOperation q sfx = ''git.receive-pack'' \<and> gq_method q = ''POST'')"
        "sv_github s1 = sv_github s"
        "gitAuthorised hub up lib parseURL cfg opID q (gitTransportRequest q) who (gitOperation q sfx) repo sfx False [] [] s1 = (resp, s')"
    | repo sfx who s1 pre u us where "parseGitPath (gq_path q) = Some (repo, sfx)"
        "AuthenticateAgent (agentRequest q) cfg = Some who" "gitOperation q sfx = ''git.receive-pack''" "gq_method q = ''POST''"
        "readReceivePackCommandPrefix (gq_body q) = Inr (pre, u # us)" "sv_github s1 = sv_github s"
        "gitAuthorised hub up lib parseURL cfg opID (q\<lparr>gq_body := pre @ drop (length pre) (gq_body q)\<rparr>)
           (gitTransportRequest q) who ''git.receive-pack'' repo sfx True (u # us) (up_ref u) s1 = (resp, s')"
  proof (cases "parseGitPath (gq_path q)")
    case None
    then show ?thesis using assms(2) that(1) by (auto simp: handleGit_def Let_def)
  next
    case (Some path)
    show ?thesis
    proof (cases "AuthenticateAgent (agentRequest q) cfg")
      case None
      then show ?thesis using assms(2) that(1) Some by (auto simp: handleGit_def Let_def split: prod.splits)
    next
      case (Some who)
      obtain repo sfx where path: "parseGitPath (gq_path q) = Some (repo, sfx)"
        using \<open>parseGitPath (gq_path q) = Some path\<close> by (cases path) auto
      define stage where "stage = (\<lambda>name d agentID. logEvent (stageEvent opID (gitTransportRequest q) name d agentID) :: 'g server_state \<Rightarrow> 'g server_state)"
      define s3 where "s3 = stage ''credential_accepted'' DecisionAllow (pp_id who)
        ((if gi_basicAuthPresent (gitTransportRequest q) then stage ''authenticated_retry'' DecisionAllow (pp_id who) else id)
          ((if gi_basicAuthPresent (gitTransportRequest q) then stage ''helper_basic_seen'' DecisionDeny [] else id)
            (stage ''request_received'' DecisionDeny [] s)))"
      have s3: "sv_github s3 = sv_github s" by (simp add: s3_def stage_def)
      show ?thesis
      proof (cases "gitOperation q sfx = ''git.receive-pack'' \<and> gq_method q = ''POST''")
        case False
        then show ?thesis using assms(2) path Some that(1) that(2) [OF path Some _ False s3]
          by (auto simp: handleGit_def Let_def s3_def stage_def split: if_splits)
      next
        case True
        show ?thesis
        proof (cases "readReceivePackCommandPrefix (gq_body q)")
          case (Inl e)
          then show ?thesis using assms(2) path Some True that(1)
            by (auto simp: handleGit_def Let_def split: if_splits)
        next
          case (Inr r)
          obtain pre us where r: "r = (pre, us)" by (cases r)
          show ?thesis
          proof (cases us)
            case Nil
            then show ?thesis using assms(2) path Some True Inr r that(1)
              by (auto simp: handleGit_def Let_def split: if_splits)
          next
            case (Cons u us')
            then show ?thesis
              using assms(2) path Some True Inr r that(1) that(3) [OF path Some _ _ _ s3, of pre u us']
              by (auto simp: handleGit_def Let_def s3_def stage_def split: if_splits)
          qed
        qed
      qed
    qed
  qed
  then show ?thesis
  proof cases
    case 1
    then show ?thesis by simp
  next
    case 2
    have "permitted_call up lib cfg q c" if "carries q c"
        "InstallationIDForApp (bc_github cfg) (GitHubAppName (pp_agent who)) repo = Some inst"
        "authorised (li_regexps lib) (gitPolicyRequest who repo (gitOperation q sfx) [])" for c inst
      using that 2(1-4) unfolding permitted_call_def by auto
    with gitAuthorised_calls [OF assms(1) 2(6)] headers show ?thesis unfolding 2(5) by blast
  next
    case 3
    have body: "pre @ drop (length pre) (gq_body q) = gq_body q"
      using 3(5) by (cases "prefixLoop 0 (gq_body q) []") (auto simp: readReceivePackCommandPrefix_def min_def)
    have "permitted_call up lib cfg q c" if "carries q c"
        "InstallationIDForApp (bc_github cfg) (GitHubAppName (pp_agent who)) repo = Some inst"
        "ag_gitReceivePack (pp_agent who) \<noteq> ''deny_opaque''"
        "\<forall>v \<in> set (u # us). authorised (li_regexps lib) (gitPolicyRequest who repo ''git.receive-pack'' (up_ref v)) \<and>
           current_update up (GitHubAppName (pp_agent who)) repo inst v" for c inst
      using that 3(1-5) unfolding permitted_call_def by auto
    with gitAuthorised_calls [OF assms(1) 3(7) [unfolded body]] headers show ?thesis unfolding 3(6) by auto
  qed
qed

text \<open>A GitHub without pull requests or refs, whose state is the list of the requests it got.\<close>

definition quietHub :: "pull_summary list \<Rightarrow> git_call list github" where
  "quietHub pulls =
     \<lparr>hub_createPull = (\<lambda>app repo inst args g. (Inl [], g)), hub_getPull = (\<lambda>app repo inst n g. (Inl [], g)),
      hub_listPulls = (\<lambda>app repo inst qs g. (Inr pulls, g)), hub_createIssue = (\<lambda>app repo inst t b ls g. (Inl [], g)),
      hub_createIssueComment = (\<lambda>app repo inst n body g. (Inl [], g)),
      hub_listIssueComments = (\<lambda>app repo inst n page g. (Inl [], g))\<rparr>"

definition loggingUpstream :: "git_call list git_upstream" where
  "loggingUpstream =
     \<lparr>gu_getRef = (\<lambda>app repo ref inst g. (Inr None, g)), gu_token = (\<lambda>app inst g. (Inr ''tok'', g)),
      gu_do = (\<lambda>c g. (Inr \<lparr>gw_status = 200, gw_headers = [], gw_body = [], gw_bodyFails = False\<rparr>, g @ [c]))\<rparr>"

definition pushLibs :: server_libs where
  "pushLibs = \<lparr>li_regexps = (\<lambda>p. None), li_hmac = (\<lambda>k w. []), li_tokens = [], li_sha256 = (\<lambda>s. s)\<rparr>"

definition pushConfig :: broker_config where
  "pushConfig = exampleConfig\<lparr>bc_agents := [exampleAgent\<lparr>ag_secret := ''pw'', ag_operations := [''git.receive-pack''],
     ag_branchGuard := \<lparr>bg_mode = ''enforce'', bg_stalePRStates = [], bg_operations = []\<rparr>\<rparr>]\<rparr>"

definition pushOf :: "pack_update list \<Rightarrow> git_request" where
  "pushOf us =
     \<lparr>gq_method = ''POST'', gq_path = ''/git/acme/site.git/git-receive-pack'', gq_rawQuery = [],
      gq_headers = [(''X-Agent-Id'', ''bot''), (''X-Agent-Secret'', ''pw''), (''Accept'', ''x'')], gq_basicAuth = None,
      gq_body = encodeUpdates (map (\<lambda>u. (u, [])) us) @ ''0000'' @ ''PACK''\<rparr>"

definition pushServer :: "git_call list server_state" where
  "pushServer = \<lparr>sv_limits = NoFile, sv_idem = NoFile, sv_github = [], sv_audit = []\<rparr>"

lemma loggingUpstream_laws: "upstream_laws (quietHub pulls) loggingUpstream (\<lambda>g. g)"
  by (simp add: upstream_laws_def quietHub_def loggingUpstream_def)

theorem only_permitted_git_calls_witness:
  "\<exists>c. sv_github (snd (handleGit (quietHub []) loggingUpstream pushLibs (\<lambda>u q. Some u) pushConfig ''op''
          (pushOf [exampleUpdate]) pushServer)) = [c] \<and>
       permitted_call loggingUpstream pushLibs pushConfig (pushOf [exampleUpdate]) c"
proof -
  let ?r = "handleGit (quietHub []) loggingUpstream pushLibs (\<lambda>u q. Some u) pushConfig ''op'' (pushOf [exampleUpdate]) pushServer"
  have "length (sv_github (snd ?r)) = 1" by code_simp
  moreover have "?r = (fst ?r, snd ?r)" by simp
  note only_permitted_git_calls [OF loggingUpstream_laws this]
  ultimately show ?thesis by (auto simp: pushServer_def)
qed

lemma gitGuarded_same_verdict:
  assumes "\<And>appName inst repo ag g. checkBranchLifecycle hub appName inst repo branch operation ag g =
      checkBranchLifecycle hub' appName inst repo branch operation ag g"
  shows "gitAuthorised hub up lib parseURL cfg opID q ident who operation repo sfx pushing us branch s =
    gitAuthorised hub' up lib parseURL cfg opID q ident who operation repo sfx pushing us branch s"
proof -
  have "gitGuarded hub up parseURL cfg opID q ident who operation repo sfx appName inst pushing us branch d s =
      gitGuarded hub' up parseURL cfg opID q ident who operation repo sfx appName inst pushing us branch d s" for appName inst d s
    unfolding gitGuarded_def assms ..
  then show ?thesis unfolding gitAuthorised_def by presburger
qed

text \<open>The branch lifecycle guard looks at the first ref of a push only. Two states of GitHub's pull requests that give
  the same verdict for the first ref of a push give the same answer and the same effect for the whole push,
  whatever they say of the other refs; so a branch that already backed a closed pull request, and whose push the guard
  denies, is pushed when it comes second.\<close>

theorem lifecycle_guard_sees_first_ref_only:
  assumes "readReceivePackCommandPrefix (gq_body q) = Inr (pre, u # us)"
    and "parseGitPath (gq_path q) = Some (repo, sfx)" and "gitOperation q sfx = ''git.receive-pack''" and "gq_method q = ''POST''"
    and "\<And>appName inst repo ag g. checkBranchLifecycle hub appName inst repo (up_ref u) ''git.receive-pack'' ag g =
      checkBranchLifecycle hub' appName inst repo (up_ref u) ''git.receive-pack'' ag g"
  shows "handleGit hub up lib parseURL cfg opID q s = handleGit hub' up lib parseURL cfg opID q s"
  by (simp add: handleGit_def Let_def assms(1-4) gitGuarded_same_verdict [of hub "up_ref u" "''git.receive-pack''" hub', OF assms(5)]
      split: option.split)

definition stalePullRequest :: pull_summary where
  "stalePullRequest = \<lparr>ps_number = 9, ps_state = ''closed'', ps_title = [], ps_body = [], ps_headRef = ''agent/old'', ps_baseRef = ''main'',
     ps_merged = True, ps_mergedAt = [], ps_url = [], ps_htmlURL = []\<rparr>"

lemma staleHub_first_ref:
  "checkBranchLifecycle (quietHub [stalePullRequest]) appName inst repo ''refs/heads/agent/x'' operation ag g =
   checkBranchLifecycle (quietHub []) appName inst repo ''refs/heads/agent/x'' operation ag g"
  by (simp add: checkBranchLifecycle_def quietHub_def Let_def stalePullRequest_def trimPrefix_def hasPrefix_def split: option.split)

theorem lifecycle_guard_sees_first_ref_only_witness:
  "let old = exampleUpdate\<lparr>up_ref := ''refs/heads/agent/old''\<rparr>;
       push = (\<lambda>us. sv_github (snd (handleGit (quietHub [stalePullRequest]) loggingUpstream pushLibs (\<lambda>u q. Some u) pushConfig ''op''
                 (pushOf us) pushServer)))
   in length (push [exampleUpdate, old]) = 1 \<and> push [old] = []"
proof -
  let ?old = "exampleUpdate\<lparr>up_ref := ''refs/heads/agent/old''\<rparr>"
  let ?q = "pushOf [exampleUpdate, ?old]"
  have "readReceivePackCommandPrefix (gq_body ?q) = Inr (encodeUpdates [(exampleUpdate, []), (?old, [])] @ ''0000'', [exampleUpdate, ?old])"
    by code_simp
  moreover have "parseGitPath (gq_path ?q) = Some (''acme/site'', ''/git-receive-pack'')" by code_simp
  moreover have "gitOperation ?q ''/git-receive-pack'' = ''git.receive-pack''" "gq_method ?q = ''POST''"
    by (simp_all add: gitOperation_def pushOf_def)
  moreover have "checkBranchLifecycle (quietHub [stalePullRequest]) appName inst repo (up_ref exampleUpdate) op ag g =
      checkBranchLifecycle (quietHub []) appName inst repo (up_ref exampleUpdate) op ag g" for appName inst repo op ag g
    using staleHub_first_ref by (simp add: exampleUpdate_def)
  ultimately have "handleGit (quietHub [stalePullRequest]) loggingUpstream pushLibs (\<lambda>u q. Some u) pushConfig ''op'' ?q pushServer =
      handleGit (quietHub []) loggingUpstream pushLibs (\<lambda>u q. Some u) pushConfig ''op'' ?q pushServer"
    by (rule lifecycle_guard_sees_first_ref_only)
  moreover have "length (sv_github (snd (handleGit (quietHub []) loggingUpstream pushLibs (\<lambda>u q. Some u) pushConfig ''op'' ?q pushServer))) = 1"
    by code_simp
  moreover have "sv_github (snd (handleGit (quietHub [stalePullRequest]) loggingUpstream pushLibs (\<lambda>u q. Some u) pushConfig ''op''
      (pushOf [?old]) pushServer)) = []" by code_simp
  ultimately show ?thesis by (simp add: Let_def)
qed

text \<open>A flush ends the reading of GitHub's report, so a rejection behind it goes unnoticed.\<close>

lemma receivePackRejected_stops_at_flush: "\<not> receivePackRejected (''0000'' @ rest)"
proof -
  have "parseLength ''0000'' = Some 0" by code_simp
  then show ?thesis by (subst receivePackRejected.simps) simp
qed

text \<open>White space of Unicode around a ref, which Git takes as part of its name, is trimmed.\<close>

lemma update_ref_trimmed:
  "parseUpdate (commandLine exampleUpdate @ [CHR 0xC2, CHR 0xA0]) = Inr exampleUpdate"
  by code_simp

end
