(* ===== verification/Push_Tripwire.thy ===== *)
theory Push_Tripwire
  imports Go_Regexp Go_Time "HOL-Library.Char_ord" "HOL-Library.List_Lexorder"
begin

text \<open>
  Package \<open>pushtripwire\<close> (\<open>src/internal/pushtripwire/pushtripwire.go\<close>): the validation of the scanner's
  requests, and the durable response controls, by which a finding in a push halts the issuance of authority to a profile
  generation and asks for the worker's session to be fenced.

  The four tables are lists in the order of insertion; the encoded columns are what decoding them gives, for requests whose
  strings are text. \<open>hash\<close> is the SHA-256 of the JSON encoding of a request. The fence is an external service, an
  operation on a state of its own that says whether it succeeded; \<open>None\<close> is a nil adapter.
\<close>

section \<open>Data\<close>

record material_request =
  tm_version :: string
  tm_deliveryID :: string
  tm_repository :: string
  tm_ref :: string
  tm_before :: string
  tm_after :: string

record fence_binding =
  fb_workerID :: string
  fb_logicalSessionID :: string
  fb_sessionLineageID :: string
  fb_workerStorageLineageID :: string
  fb_workerFenceEpoch :: int

record response_request =
  tq_version :: string
  tq_findingID :: string
  tq_deliveryID :: string
  tq_repository :: string
  tq_ref :: string
  tq_before :: string
  tq_after :: string
  tq_severity :: string
  tq_reasonCode :: string
  tq_fingerprintID :: string
  tq_profile :: string
  tq_profileGeneration :: int
  tq_binding :: "fence_binding option"
  tq_actions :: "string list"

record action_state =
  as_action :: string
  as_state :: string
  as_completedAt :: gotime

record response_result =
  rr_version :: string
  rr_findingID :: string
  rr_replay :: bool
  rr_actions :: "action_state list"

record response_row =
  rw_key :: string
  rw_fingerprint :: string
  rw_request :: response_request
  rw_response :: response_result

record tripwire_store =
  ph_halts :: "(string \<times> int \<times> string) list"
  ph_catalog :: "(string \<times> int \<times> gotime) list"
  ph_responses :: "response_row list"
  ph_fences :: "(string \<times> fence_binding option \<times> string) list"

datatype tripwire_error =
    TwMaterialIdentity | TwResponseIdentity | TwResponseAction | TwBindingIncomplete
  | TwCatalogEmpty | TwCatalogProfile | TwKeyInvalid | TwKeyReused | TwNotRegistered
  | TwRegistrationUnavailable | TwHalted string | TwDB

type_synonym 'g fence_adapter = "fence_binding \<Rightarrow> string \<Rightarrow> 'g \<Rightarrow> bool \<times> 'g"

section \<open>Validation\<close>

definition tripwireVersion :: string where
  "tripwireVersion = ''broker/push-tripwire/v1''"

definition idClass :: re where
  "idClass = ReCls [(CHR ''A'', CHR ''Z''), (CHR ''a'', CHR ''z''), (CHR ''0'', CHR ''9''), (CHR ''.'', CHR ''.''),
     (CHR ''_'', CHR ''_''), (CHR '':'', CHR '':''), (CHR ''-'', CHR ''-'')]"

definition idPattern :: re where
  "idPattern = ReRep 1 128 idClass"

definition repoClass :: re where
  "repoClass = ReCls [(CHR ''a'', CHR ''z''), (CHR ''0'', CHR ''9''), (CHR ''_'', CHR ''_''), (CHR ''.'', CHR ''.''),
     (CHR ''-'', CHR ''-'')]"

definition repoPattern :: re where
  "repoPattern = ReSeq (rePlus repoClass) (ReSeq (reLit ''/'') (rePlus repoClass))"

definition pathClass :: re where
  "pathClass = ReCls [(CHR ''A'', CHR ''Z''), (CHR ''a'', CHR ''z''), (CHR ''0'', CHR ''9''), (CHR ''.'', CHR ''.''),
     (CHR ''_'', CHR ''_''), (CHR ''/'', CHR ''/''), (CHR ''-'', CHR ''-'')]"

definition refPattern :: re where
  "refPattern = ReSeq (reLit ''refs/heads/'') (ReRep 1 220 pathClass)"

definition shaPattern :: re where
  "shaPattern = ReRep 40 40 (ReCls [(CHR ''0'', CHR ''9''), (CHR ''a'', CHR ''f'')])"

definition profilePattern :: re where
  "profilePattern = ReRep 1 128 pathClass"

definition materialValidate :: "material_request \<Rightarrow> tripwire_error + unit" where
  "materialValidate r =
     (if tm_version r \<noteq> tripwireVersion \<or> \<not> re_match idPattern (tm_deliveryID r) \<or>
         \<not> re_match repoPattern (tm_repository r) \<or> \<not> re_match refPattern (tm_ref r) \<or>
         \<not> re_match shaPattern (tm_before r) \<or> \<not> re_match shaPattern (tm_after r) \<or>
         tm_after r = replicate 40 (CHR ''0'')
      then Inl TwMaterialIdentity else Inr ())"

fun actionsValidate :: "string list \<Rightarrow> string list \<Rightarrow> tripwire_error + unit" where
  "actionsValidate seen [] = Inr ()"
| "actionsValidate seen (a # as) =
     (if a \<in> set seen \<or> (a \<noteq> ''halt_issuance'' \<and> a \<noteq> ''fence_worker_session'') then Inl TwResponseAction
      else actionsValidate (a # seen) as)"

definition completeBinding :: "fence_binding option \<Rightarrow> bool" where
  "completeBinding bo =
     (case bo of
        None \<Rightarrow> False
      | Some b \<Rightarrow>
          re_match idPattern (fb_workerID b) \<and> re_match idPattern (fb_logicalSessionID b) \<and>
          re_match idPattern (fb_sessionLineageID b) \<and> re_match idPattern (fb_workerStorageLineageID b) \<and>
          fb_workerFenceEpoch b \<ge> 1)"

definition responseValidate :: "response_request \<Rightarrow> tripwire_error + unit" where
  "responseValidate r =
     (if tq_version r \<noteq> tripwireVersion \<or> \<not> re_match idPattern (tq_findingID r) \<or>
         \<not> re_match idPattern (tq_deliveryID r) \<or> \<not> re_match repoPattern (tq_repository r) \<or>
         \<not> re_match refPattern (tq_ref r) \<or> \<not> re_match shaPattern (tq_before r) \<or>
         \<not> re_match shaPattern (tq_after r) \<or> (tq_severity r \<noteq> ''high'' \<and> tq_severity r \<noteq> ''low'') \<or>
         \<not> re_match idPattern (tq_reasonCode r) \<or>
         (tq_fingerprintID r \<noteq> [] \<and> \<not> re_match idPattern (tq_fingerprintID r)) \<or>
         \<not> re_match profilePattern (tq_profile r) \<or> tq_profileGeneration r < 1 \<or>
         length (tq_actions r) < 1 \<or> length (tq_actions r) > 2
      then Inl TwResponseIdentity
      else case actionsValidate [] (tq_actions r) of
        Inl e \<Rightarrow> Inl e
      | Inr _ \<Rightarrow>
          if ''fence_worker_session'' \<in> set (tq_actions r) \<and> \<not> completeBinding (tq_binding r)
          then Inl TwBindingIncomplete else Inr ())"

definition Authenticate :: "string \<Rightarrow> string \<Rightarrow> bool" where
  "Authenticate header secret =
     (if \<not> hasPrefix header ''Bearer '' \<or> secret = [] then False
      else trimPrefix header ''Bearer '' = secret)"

section \<open>The enforcement catalog and the check before an issuance\<close>

text \<open>The profiles are a Go map, in the order in which it is ranged over.\<close>

fun catalogRows :: "faults \<Rightarrow> nat \<Rightarrow> gotime \<Rightarrow> int gomap \<Rightarrow> tripwire_error + (string \<times> int \<times> gotime) list" where
  "catalogRows f i now [] = Inr []"
| "catalogRows f i now ((profile, generation) # ps) =
     (if \<not> re_match profilePattern profile \<or> generation < 1 then Inl TwCatalogProfile
      else if f i then Inl TwDB
      else case catalogRows f (Suc i) now ps of
        Inl e \<Rightarrow> Inl e
      | Inr rows \<Rightarrow> Inr ((profile, generation, now) # rows))"

definition ReplaceEnforcementCatalog ::
  "faults \<Rightarrow> gotime \<Rightarrow> int gomap \<Rightarrow> tripwire_store \<Rightarrow> (tripwire_error, unit, tripwire_store) outcome" where
  "ReplaceEnforcementCatalog f now profiles s =
     (if profiles = [] then (Inl TwCatalogEmpty, s)
      else if f 0 then (Inl TwDB, s)
      else if f 1 then (Inl TwDB, s)
      else case catalogRows f 2 now profiles of
        Inl e \<Rightarrow> (Inl e, s)
      | Inr rows \<Rightarrow>
          if f (2 + length profiles) then (Inl TwDB, s)
          else (Inr (), s\<lparr>ph_catalog := rows\<rparr>))"

definition registered :: "string \<Rightarrow> int \<Rightarrow> tripwire_store \<Rightarrow> bool" where
  "registered profile generation s = list_ex (\<lambda>(p, g, _). p = profile \<and> g = generation) (ph_catalog s)"

definition haltedBy :: "string \<Rightarrow> int \<Rightarrow> tripwire_store \<Rightarrow> string option" where
  "haltedBy profile generation s =
     map_option (\<lambda>(_, _, finding). finding)
       (find (\<lambda>(p, g, _). p = profile \<and> g = generation) (ph_halts s))"

definition CheckIssuanceState :: "faults \<Rightarrow> string \<Rightarrow> int \<Rightarrow> tripwire_store \<Rightarrow> tripwire_error + unit" where
  "CheckIssuanceState f profile generation s =
     (if f 0 then Inl TwDB
      else if \<not> registered profile generation s then Inl TwRegistrationUnavailable
      else if f 1 then Inl TwDB
      else case haltedBy profile generation s of
        Some finding \<Rightarrow> Inl (TwHalted finding)
      | None \<Rightarrow> Inr ())"

section \<open>Applying a response\<close>

definition responseFingerprint :: "(response_request \<Rightarrow> string) \<Rightarrow> response_request \<Rightarrow> string" where
  "responseFingerprint hash req = hash (req\<lparr>tq_actions := sort (tq_actions req)\<rparr>)"

definition markFence :: "string \<Rightarrow> tripwire_store \<Rightarrow> tripwire_store" where
  "markFence finding s =
     s\<lparr>ph_fences := map (\<lambda>(i, b, st). if i = finding then (i, b, ''fenced'') else (i, b, st)) (ph_fences s)\<rparr>"

definition storeResponse :: "string \<Rightarrow> response_result \<Rightarrow> tripwire_store \<Rightarrow> tripwire_store" where
  "storeResponse key out s =
     s\<lparr>ph_responses := map (\<lambda>r. if rw_key r = key then r\<lparr>rw_response := out\<rparr> else r) (ph_responses s)\<rparr>"

definition setFenced :: "gotime \<Rightarrow> action_state \<Rightarrow> action_state" where
  "setFenced now a = a\<lparr>as_state := ''fenced'', as_completedAt := now\<rparr>"

text \<open>The loop over the actions of a stored response; the list is that of their indices.\<close>

fun replayFences ::
  "'g fence_adapter \<Rightarrow> fence_binding \<Rightarrow> string \<Rightarrow> string \<Rightarrow> faults \<Rightarrow> (nat \<Rightarrow> gotime) \<Rightarrow> nat list \<Rightarrow> response_result \<Rightarrow>
     tripwire_store \<times> 'g \<Rightarrow> (tripwire_error, response_result, tripwire_store \<times> 'g) outcome" where
  "replayFences fence b finding key f clk [] out (s, g) = (Inr out, (s, g))"
| "replayFences fence b finding key f clk (i # is) out (s, g) =
     (let a = rr_actions out ! i in
      if as_action a = ''fence_worker_session'' \<and> as_state a = ''fence_requested'' then
        (case fence b finding g of
           (False, g') \<Rightarrow> replayFences fence b finding key f clk is out (s, g')
         | (True, g') \<Rightarrow>
             (let out' = out\<lparr>rr_actions := (rr_actions out)[i := setFenced (clk i) a]\<rparr> in
              if f (1 + 2 * i) then (Inl TwDB, (s, g'))
              else if f (2 + 2 * i) then (Inl TwDB, (markFence finding s, g'))
              else replayFences fence b finding key f clk is out' (storeResponse key out' (markFence finding s), g')))
      else replayFences fence b finding key f clk is out (s, g))"

definition insertHalt :: "response_request \<Rightarrow> tripwire_store \<Rightarrow> tripwire_store" where
  "insertHalt req s =
     (if haltedBy (tq_profile req) (tq_profileGeneration req) s \<noteq> None then s
      else s\<lparr>ph_halts := ph_halts s @ [(tq_profile req, tq_profileGeneration req, tq_findingID req)]\<rparr>)"

definition insertFence :: "response_request \<Rightarrow> tripwire_store \<Rightarrow> tripwire_store" where
  "insertFence req s =
     (if list_ex (\<lambda>(i, _). i = tq_findingID req) (ph_fences s) then s
      else s\<lparr>ph_fences := ph_fences s @ [(tq_findingID req, tq_binding req, ''requested'')]\<rparr>)"

text \<open>The loop over the requested actions, inside the transaction.\<close>

fun applyActions ::
  "faults \<Rightarrow> nat \<Rightarrow> gotime \<Rightarrow> response_request \<Rightarrow> string list \<Rightarrow> tripwire_store \<Rightarrow>
     tripwire_error + action_state list \<times> tripwire_store" where
  "applyActions f i now req [] s = Inr ([], s)"
| "applyActions f i now req (action # as) s =
     (if action = ''halt_issuance'' then
        (if f (3 + 2 * i) then Inl TwDB
         else if \<not> registered (tq_profile req) (tq_profileGeneration req) s then Inl TwNotRegistered
         else if f (4 + 2 * i) then Inl TwDB
         else case applyActions f (Suc i) now req as (insertHalt req s) of
           Inl e \<Rightarrow> Inl e
         | Inr (acts, s') \<Rightarrow> Inr (\<lparr>as_action = action, as_state = ''halted'', as_completedAt = now\<rparr> # acts, s'))
      else if action = ''fence_worker_session'' then
        (if f (4 + 2 * i) then Inl TwDB
         else case applyActions f (Suc i) now req as (insertFence req s) of
           Inl e \<Rightarrow> Inl e
         | Inr (acts, s') \<Rightarrow> Inr (\<lparr>as_action = action, as_state = ''fence_requested'', as_completedAt = now\<rparr> # acts, s'))
      else applyActions f (Suc i) now req as s)"

fun markFenced :: "(nat \<Rightarrow> gotime) \<Rightarrow> nat \<Rightarrow> action_state list \<Rightarrow> action_state list" where
  "markFenced clk i [] = []"
| "markFenced clk i (a # as) =
     (if as_action a = ''fence_worker_session'' then setFenced (clk (Suc i)) a else a) # markFenced clk (Suc i) as"

text \<open>The fence after the commit of a new response; \<open>n\<close> is the number of actions.\<close>

definition firstFence ::
  "faults \<Rightarrow> (nat \<Rightarrow> gotime) \<Rightarrow> string \<Rightarrow> response_request \<Rightarrow> 'g fence_adapter option \<Rightarrow> response_result \<Rightarrow>
     tripwire_store \<times> 'g \<Rightarrow> (tripwire_error, response_result, tripwire_store \<times> 'g) outcome" where
  "firstFence f clk key req adapter out sg =
     (let (s, g) = sg; n = length (tq_actions req) in
      case tq_binding req of
        None \<Rightarrow> (Inr out, (s, g))
      | Some b \<Rightarrow>
          (case adapter of
             None \<Rightarrow> (Inr out, (s, g))
           | Some fence \<Rightarrow>
               (case fence b (tq_findingID req) g of
                  (False, g') \<Rightarrow> (Inr out, (s, g'))
                | (True, g') \<Rightarrow>
                    if f (6 + 2 * n) then (Inl TwDB, (s, g'))
                    else
                      (let s' = markFence (tq_findingID req) s;
                           out' = out\<lparr>rr_actions := markFenced clk 0 (rr_actions out)\<rparr>
                       in if f (7 + 2 * n) then (Inl TwDB, (s', g'))
                          else (Inr out', (storeResponse key out' s', g'))))))"

definition applyFresh ::
  "(response_request \<Rightarrow> string) \<Rightarrow> faults \<Rightarrow> (nat \<Rightarrow> gotime) \<Rightarrow> string \<Rightarrow> response_request \<Rightarrow> 'g fence_adapter option \<Rightarrow>
     tripwire_store \<times> 'g \<Rightarrow> (tripwire_error, response_result, tripwire_store \<times> 'g) outcome" where
  "applyFresh hash f clk key req adapter sg =
     (let (s, g) = sg; n = length (tq_actions req) in
      if f 1 then (Inl TwDB, (s, g))
      else if f 2 then (Inl TwDB, (s, g))
      else case applyActions f 0 (clk 0) req (tq_actions req) s of
        Inl e \<Rightarrow> (Inl e, (s, g))
      | Inr (acts, s1) \<Rightarrow>
          (let out = \<lparr>rr_version = tripwireVersion, rr_findingID = tq_findingID req, rr_replay = False, rr_actions = acts\<rparr>;
               row = \<lparr>rw_key = key, rw_fingerprint = responseFingerprint hash req, rw_request = req, rw_response = out\<rparr>;
               s2 = s1\<lparr>ph_responses := ph_responses s1 @ [row]\<rparr>
           in if f (3 + 2 * n) then (Inl TwDB, (s, g))
              else if f (4 + 2 * n) then (Inl TwDB, (s, g))
              else if f (5 + 2 * n) then (Inl TwDB, (s2, g))
              else firstFence f clk key req adapter out (s2, g)))"

definition findResponse :: "string \<Rightarrow> tripwire_store \<Rightarrow> response_row option" where
  "findResponse key s = find (\<lambda>r. rw_key r = key) (ph_responses s)"

definition Apply ::
  "(response_request \<Rightarrow> string) \<Rightarrow> faults \<Rightarrow> (nat \<Rightarrow> gotime) \<Rightarrow> string \<Rightarrow> response_request \<Rightarrow> 'g fence_adapter option \<Rightarrow>
     tripwire_store \<times> 'g \<Rightarrow> (tripwire_error, response_result, tripwire_store \<times> 'g) outcome" where
  "Apply hash f clk key req adapter sg =
     (if \<not> re_match idPattern key then (Inl TwKeyInvalid, sg)
      else if f 0 then (Inl TwDB, sg)
      else case findResponse key (fst sg) of
        None \<Rightarrow> applyFresh hash f clk key req adapter sg
      | Some row \<Rightarrow>
          if rw_fingerprint row \<noteq> responseFingerprint hash req then (Inl TwKeyReused, sg)
          else case tq_binding req of
            None \<Rightarrow> (Inr ((rw_response row)\<lparr>rr_replay := True\<rparr>), sg)
          | Some b \<Rightarrow>
              (case adapter of
                 None \<Rightarrow> (Inr ((rw_response row)\<lparr>rr_replay := True\<rparr>), sg)
               | Some fence \<Rightarrow>
                   (case replayFences fence b (tq_findingID req) key f clk [0..<length (rr_actions (rw_response row))]
                       (rw_response row) sg of
                      (Inl e, sg') \<Rightarrow> (Inl e, sg')
                    | (Inr out, sg') \<Rightarrow> (Inr (out\<lparr>rr_replay := True\<rparr>), sg'))))"

section \<open>The store and its runs\<close>

datatype 'g tripwire_op =
    TwReplace faults gotime "int gomap"
  | TwApply faults "nat \<Rightarrow> gotime" string response_request "'g fence_adapter option"

fun tw_exec ::
  "(response_request \<Rightarrow> string) \<Rightarrow> 'g tripwire_op \<Rightarrow> tripwire_store \<times> 'g \<Rightarrow>
     (tripwire_error, response_result option, tripwire_store \<times> 'g) outcome" where
  "tw_exec hash (TwReplace f now ps) (s, g) =
     (case ReplaceEnforcementCatalog f now ps s of (r, s') \<Rightarrow> (map_sum id (\<lambda>_. None) r, (s', g)))"
| "tw_exec hash (TwApply f clk key req adapter) sg =
     (case Apply hash f clk key req adapter sg of (r, sg') \<Rightarrow> (map_sum id Some r, sg'))"

definition response_ok :: "(response_request \<Rightarrow> string) \<Rightarrow> tripwire_store \<Rightarrow> response_row \<Rightarrow> bool" where
  "response_ok hash s r \<longleftrightarrow>
     rw_fingerprint r = responseFingerprint hash (rw_request r) \<and>
     (\<forall>a \<in> set (rr_actions (rw_response r)). as_state a = ''halted'' \<longrightarrow>
        haltedBy (tq_profile (rw_request r)) (tq_profileGeneration (rw_request r)) s \<noteq> None)"

definition tripwire_inv :: "(response_request \<Rightarrow> string) \<Rightarrow> tripwire_store \<Rightarrow> bool" where
  "tripwire_inv hash s \<longleftrightarrow>
     distinct (map rw_key (ph_responses s)) \<and> (\<forall>r \<in> set (ph_responses s). response_ok hash s r)"

text \<open>What can change: a requested fence becomes a fenced one, halts and responses are added.\<close>

definition advances :: "action_state \<Rightarrow> action_state \<Rightarrow> bool" where
  "advances a b \<longleftrightarrow> a = b \<or> (\<exists>now. as_action a = ''fence_worker_session'' \<and> as_state a = ''fence_requested'' \<and> b = setFenced now a)"

definition response_row_le :: "response_row \<Rightarrow> response_row \<Rightarrow> bool" where
  "response_row_le r r' \<longleftrightarrow>
     rw_key r' = rw_key r \<and> rw_fingerprint r' = rw_fingerprint r \<and> rw_request r' = rw_request r \<and>
     list_all2 advances (rr_actions (rw_response r)) (rr_actions (rw_response r'))"

definition tripwire_le :: "tripwire_store \<Rightarrow> tripwire_store \<Rightarrow> bool" where
  "tripwire_le s t \<longleftrightarrow>
     (\<forall>p g. haltedBy p g s \<noteq> None \<longrightarrow> haltedBy p g t = haltedBy p g s) \<and>
     (\<forall>r \<in> set (ph_responses s). \<exists>r' \<in> set (ph_responses t). response_row_le r r')"

definition steps_to :: "(response_request \<Rightarrow> string) \<Rightarrow> tripwire_store \<Rightarrow> tripwire_store \<Rightarrow> bool" where
  "steps_to hash s t \<longleftrightarrow> tripwire_inv hash t \<and> tripwire_le s t"

lemma advances_refl [simp]: "advances a a"
  by (simp add: advances_def)

lemma advances_trans: "advances a b \<Longrightarrow> advances b c \<Longrightarrow> advances a c"
  by (auto simp: advances_def setFenced_def)

lemma advances_halted: "advances a b \<Longrightarrow> as_state b = ''halted'' \<longleftrightarrow> as_state a = ''halted''"
  by (auto simp: advances_def setFenced_def)

lemma list_advances_refl [simp]: "list_all2 advances as as"
  by (simp add: list_all2_refl)

lemma list_advances_trans: "list_all2 advances as bs \<Longrightarrow> list_all2 advances bs cs \<Longrightarrow> list_all2 advances as cs"
  by (rule list_all2_trans [where ?P1.0 = advances and ?P2.0 = advances]) (auto intro: advances_trans)

lemma response_row_le_refl [simp]: "response_row_le r r"
  by (simp add: response_row_le_def)

lemma response_row_le_trans: "response_row_le r r' \<Longrightarrow> response_row_le r' r'' \<Longrightarrow> response_row_le r r''"
  using list_advances_trans by (auto simp: response_row_le_def)

lemma tripwire_le_refl [simp]: "tripwire_le s s"
  by (auto simp: tripwire_le_def intro: response_row_le_refl)

lemma tripwire_le_trans:
  assumes "tripwire_le s t" and "tripwire_le t u"
  shows "tripwire_le s u"
  unfolding tripwire_le_def
proof (intro conjI allI ballI impI)
  fix p g
  assume "haltedBy p g s \<noteq> None"
  then show "haltedBy p g u = haltedBy p g s" using assms unfolding tripwire_le_def by metis
next
  fix r
  assume "r \<in> set (ph_responses s)"
  then obtain r' where "r' \<in> set (ph_responses t)" "response_row_le r r'" using assms(1) unfolding tripwire_le_def by blast
  then show "\<exists>r'' \<in> set (ph_responses u). response_row_le r r''" using assms(2) response_row_le_trans unfolding tripwire_le_def by metis
qed

lemma steps_to_trans: "steps_to hash s t \<Longrightarrow> steps_to hash t u \<Longrightarrow> steps_to hash s u"
  using tripwire_le_trans by (auto simp: steps_to_def)

lemma haltedBy_insertHalt:
  "haltedBy p g (insertHalt req s) =
     (if haltedBy p g s = None \<and> p = tq_profile req \<and> g = tq_profileGeneration req then Some (tq_findingID req)
      else haltedBy p g s)"
proof -
  have "find P (xs @ [x]) = (case find P xs of None \<Rightarrow> if P x then Some x else None | Some y \<Rightarrow> Some y)" for P xs and x :: "string \<times> int \<times> string"
    by (induction xs) auto
  then show ?thesis by (auto simp: haltedBy_def insertHalt_def split: option.splits)
qed

lemma store_updates [simp]:
  "haltedBy p g (storeResponse key out s) = haltedBy p g s" "haltedBy p g (markFence finding s) = haltedBy p g s"
  "haltedBy p g (insertFence req s) = haltedBy p g s" "haltedBy p g (s\<lparr>ph_catalog := c\<rparr>) = haltedBy p g s"
  "haltedBy p g (s\<lparr>ph_responses := rows\<rparr>) = haltedBy p g s"
  "ph_responses (markFence finding s) = ph_responses s" "ph_responses (insertFence req s) = ph_responses s"
  "ph_responses (insertHalt req s) = ph_responses s"
  "registered p g (insertHalt req s) = registered p g s" "registered p g (insertFence req s) = registered p g s"
  by (simp_all add: haltedBy_def storeResponse_def markFence_def insertFence_def insertHalt_def registered_def)

lemma steps_to_marked: "tripwire_inv hash s \<Longrightarrow> steps_to hash s (markFence finding s)"
  by (auto simp: steps_to_def tripwire_inv_def response_ok_def tripwire_le_def intro: response_row_le_refl)

lemma steps_to_stored:
  assumes "tripwire_inv hash s"
    and "\<And>r. r \<in> set (ph_responses s) \<Longrightarrow> rw_key r = key \<Longrightarrow> list_all2 advances (rr_actions (rw_response r)) (rr_actions out)"
  shows "steps_to hash s (storeResponse key out s)"
proof -
  let ?u = "\<lambda>r. if rw_key r = key then r\<lparr>rw_response := out\<rparr> else r"
  have le: "response_row_le r (?u r)" if "r \<in> set (ph_responses s)" for r
    using assms(2) that by (auto simp: response_row_le_def)
  have ph: "ph_responses (storeResponse key out s) = map ?u (ph_responses s)" by (simp add: storeResponse_def)
  have mem: "?u r \<in> set (ph_responses (storeResponse key out s))" if "r \<in> set (ph_responses s)" for r
    using imageI [OF that, of ?u] by (simp only: ph set_map)
  have "response_ok hash s (?u r)" if r: "r \<in> set (ph_responses s)" for r
  proof -
    have ok: "response_ok hash s r" using assms(1) r by (simp add: tripwire_inv_def)
    have "\<exists>a \<in> set (rr_actions (rw_response r)). as_state a = ''halted''"
      if "rw_key r = key" "b \<in> set (rr_actions out)" "as_state b = ''halted''" for b
      using assms(2) [OF r that(1)] that(2,3) advances_halted
      by (metis in_set_conv_nth list_all2_conv_all_nth)
    then show ?thesis using ok by (auto simp: response_ok_def)
  qed
  moreover have "response_ok hash (storeResponse key out s) r = response_ok hash s r" for r
    by (simp add: response_ok_def)
  moreover have "map rw_key (ph_responses (storeResponse key out s)) = map rw_key (ph_responses s)"
    by (simp add: storeResponse_def)
  moreover have "\<exists>r0 \<in> set (ph_responses s). r = ?u r0" if "r \<in> set (ph_responses (storeResponse key out s))" for r
    using that by (fastforce simp: storeResponse_def)
  ultimately have "tripwire_inv hash (storeResponse key out s)"
    using assms(1) unfolding tripwire_inv_def by metis
  moreover have "tripwire_le s (storeResponse key out s)"
    unfolding tripwire_le_def using le mem by (metis store_updates(1))
  ultimately show ?thesis by (simp add: steps_to_def)
qed

lemma stored_response:
  assumes "r \<in> set (ph_responses (storeResponse key out s))" and "rw_key r = key"
  shows "rw_response r = out"
proof -
  have "ph_responses (storeResponse key out s) = map (\<lambda>r. if rw_key r = key then r\<lparr>rw_response := out\<rparr> else r) (ph_responses s)"
    by (simp add: storeResponse_def)
  with assms(1) have "r \<in> (\<lambda>r. if rw_key r = key then r\<lparr>rw_response := out\<rparr> else r) ` set (ph_responses s)"
    by (simp only: set_map)
  then obtain x where "r = (if rw_key x = key then x\<lparr>rw_response := out\<rparr> else x)" by (rule imageE)
  with assms(2) show ?thesis by (cases "rw_key x = key") simp_all
qed

lemma list_advances_update:
  assumes "i < length as" and "as_action (as ! i) = ''fence_worker_session''" and "as_state (as ! i) = ''fence_requested''"
  shows "list_all2 advances as (as[i := setFenced now (as ! i)])"
  using assms by (auto simp: list_all2_conv_all_nth nth_list_update advances_def)

text \<open>After the loop of a replay the answer is what is stored, and it is the stored response advanced.\<close>

lemma replayFences_steps:
  assumes "tripwire_inv hash s" and "\<forall>r \<in> set (ph_responses s). rw_key r = key \<longrightarrow> rw_response r = out"
    and "\<forall>i \<in> set is. i < length (rr_actions out)"
  shows "steps_to hash s (fst (snd (replayFences fence b finding key f clk is out (s, g)))) \<and>
    (\<forall>out'. fst (replayFences fence b finding key f clk is out (s, g)) = Inr out' \<longrightarrow>
       list_all2 advances (rr_actions out) (rr_actions out') \<and>
       (\<forall>r \<in> set (ph_responses (fst (snd (replayFences fence b finding key f clk is out (s, g))))). rw_key r = key \<longrightarrow> rw_response r = out'))"
  using assms
proof (induction "is" arbitrary: out s g)
  case Nil
  then show ?case by (simp add: steps_to_def)
next
  case (Cons i "is")
  let ?a = "rr_actions out ! i"
  let ?out' = "out\<lparr>rr_actions := (rr_actions out)[i := setFenced (clk i) ?a]\<rparr>"
  let ?s' = "storeResponse key ?out' (markFence finding s)"
  show ?case
  proof (cases "as_action ?a = ''fence_worker_session'' \<and> as_state ?a = ''fence_requested''")
    case False
    then have "replayFences fence b finding key f clk (i # is) out (s, g) = replayFences fence b finding key f clk is out (s, g)"
      by (simp only: replayFences.simps Let_def False if_False)
    then show ?thesis using Cons.IH [of s out g] Cons.prems by simp
  next
    case True
    obtain ok g' where call: "fence b finding g = (ok, g')" by (cases "fence b finding g")
    have adv: "list_all2 advances (rr_actions out) (rr_actions ?out')"
      using list_advances_update [of i "rr_actions out" "clk i"] True Cons.prems(3) by simp
    have marked: "steps_to hash s (markFence finding s)" by (rule steps_to_marked [OF Cons.prems(1)])
    then have "steps_to hash (markFence finding s) ?s'"
      using Cons.prems(2) adv by (intro steps_to_stored) (auto simp: steps_to_def)
    then have stored: "steps_to hash s ?s'" using marked steps_to_trans by blast
    have IH: "steps_to hash ?s' (fst (snd (replayFences fence b finding key f clk is ?out' (?s', g')))) \<and>
        (\<forall>out'. fst (replayFences fence b finding key f clk is ?out' (?s', g')) = Inr out' \<longrightarrow>
          list_all2 advances (rr_actions ?out') (rr_actions out') \<and>
          (\<forall>r \<in> set (ph_responses (fst (snd (replayFences fence b finding key f clk is ?out' (?s', g'))))).
             rw_key r = key \<longrightarrow> rw_response r = out'))"
    proof (rule Cons.IH)
      show "tripwire_inv hash ?s'" using stored by (simp add: steps_to_def)
      show "\<forall>r \<in> set (ph_responses ?s'). rw_key r = key \<longrightarrow> rw_response r = ?out'"
        using stored_response by blast
    qed (use Cons.prems(3) in simp)
    have refl: "steps_to hash s s" using Cons.prems(1) by (simp add: steps_to_def)
    consider "\<not> ok" | "ok" "f (1 + 2 * i)" | "ok" "\<not> f (1 + 2 * i)" "f (2 + 2 * i)" | "ok" "\<not> f (1 + 2 * i)" "\<not> f (2 + 2 * i)"
      by blast
    then show ?thesis
    proof cases
      case 1
      then show ?thesis using Cons.IH [of s out g'] Cons.prems True call by simp
    next
      case 2
      then show ?thesis using True call refl by (simp add: Let_def)
    next
      case 3
      then show ?thesis using True call marked by (simp add: Let_def)
    next
      case 4
      then have "replayFences fence b finding key f clk (i # is) out (s, g) = replayFences fence b finding key f clk is ?out' (?s', g')"
        using True call by (simp add: Let_def)
      then show ?thesis using IH steps_to_trans [OF stored] list_advances_trans [OF adv] by simp
    qed
  qed
qed

lemma applyActions_ok:
  assumes "applyActions f i now req as s = Inr (acts, s')"
  shows "ph_responses s' = ph_responses s \<and> ph_catalog s' = ph_catalog s \<and>
    (\<forall>p g. haltedBy p g s \<noteq> None \<longrightarrow> haltedBy p g s' = haltedBy p g s) \<and>
    (\<forall>a \<in> set acts. as_action a \<in> set as \<and>
       (as_action a = ''halt_issuance'' \<and> as_state a = ''halted'' \<and>
          registered (tq_profile req) (tq_profileGeneration req) s \<and>
          haltedBy (tq_profile req) (tq_profileGeneration req) s' \<noteq> None \<or>
        as_action a = ''fence_worker_session'' \<and> as_state a = ''fence_requested''))"
  using assms
proof (induction "as" arbitrary: i s acts)
  case Nil
  then show ?case by simp
next
  case (Cons action "as")
  let ?p = "tq_profile req"
  let ?g = "tq_profileGeneration req"
  consider (halt) rest where "action = ''halt_issuance''" "registered ?p ?g s"
      "applyActions f (Suc i) now req as (insertHalt req s) = Inr (rest, s')"
      "acts = \<lparr>as_action = action, as_state = ''halted'', as_completedAt = now\<rparr> # rest"
    | (fence) rest where "action = ''fence_worker_session''"
      "applyActions f (Suc i) now req as (insertFence req s) = Inr (rest, s')"
      "acts = \<lparr>as_action = action, as_state = ''fence_requested'', as_completedAt = now\<rparr> # rest"
    | (other) "applyActions f (Suc i) now req as s = Inr (acts, s')"
    using Cons.prems by (auto split: if_splits sum.splits)
  then show ?case
  proof cases
    case halt
    have "haltedBy ?p ?g (insertHalt req s) \<noteq> None" by (simp add: haltedBy_insertHalt)
    moreover have "\<forall>p g. haltedBy p g s \<noteq> None \<longrightarrow> haltedBy p g (insertHalt req s) = haltedBy p g s"
      by (simp add: haltedBy_insertHalt)
    moreover have "ph_catalog (insertHalt req s) = ph_catalog s" by (simp add: insertHalt_def)
    ultimately show ?thesis using Cons.IH [OF halt(3)] halt(1,2,4) by auto
  next
    case fence
    moreover have "ph_catalog (insertFence req s) = ph_catalog s" by (simp add: insertFence_def)
    ultimately show ?thesis using Cons.IH [OF fence(2)] by auto
  next
    case other
    then show ?thesis using Cons.IH [OF other] by auto
  qed
qed

lemma advances_markFenced:
  assumes "\<forall>a \<in> set as. as_action a = ''fence_worker_session'' \<longrightarrow> as_state a = ''fence_requested''"
  shows "list_all2 advances as (markFenced clk i as)"
  using assms by (induction "as" arbitrary: i) (auto simp: advances_def)

lemma firstFence_steps:
  assumes "tripwire_inv hash s" and "\<forall>r \<in> set (ph_responses s). rw_key r = key \<longrightarrow> rw_response r = out"
    and "\<forall>a \<in> set (rr_actions out). as_action a = ''fence_worker_session'' \<longrightarrow> as_state a = ''fence_requested''"
  shows "steps_to hash s (fst (snd (firstFence f clk key req adapter out (s, g)))) \<and>
    (\<forall>out'. fst (firstFence f clk key req adapter out (s, g)) = Inr out' \<longrightarrow>
       list_all2 advances (rr_actions out) (rr_actions out') \<and>
       (\<forall>r \<in> set (ph_responses (fst (snd (firstFence f clk key req adapter out (s, g))))). rw_key r = key \<longrightarrow> rw_response r = out'))"
proof -
  let ?out' = "out\<lparr>rr_actions := markFenced clk 0 (rr_actions out)\<rparr>"
  have adv: "list_all2 advances (rr_actions out) (rr_actions ?out')"
    using advances_markFenced [OF assms(3)] by simp
  have refl: "steps_to hash s s" using assms(1) by (simp add: steps_to_def)
  have marked: "steps_to hash s (markFence finding s)" for finding by (rule steps_to_marked [OF assms(1)])
  have "steps_to hash (markFence finding s) (storeResponse key ?out' (markFence finding s))" for finding
    using marked assms(2) adv by (intro steps_to_stored) (auto simp: steps_to_def)
  then have stored: "steps_to hash s (storeResponse key ?out' (markFence finding s))" for finding
    using marked steps_to_trans by blast
  show ?thesis
  proof (cases "tq_binding req")
    case None
    then show ?thesis using refl assms(2) by (simp add: firstFence_def)
  next
    case (Some b)
    show ?thesis
    proof (cases adapter)
      case None
      then show ?thesis using Some refl assms(2) by (simp add: firstFence_def)
    next
      case A: (Some fence)
      obtain ok g' where "fence b (tq_findingID req) g = (ok, g')" by (cases "fence b (tq_findingID req) g")
      then show ?thesis
        using Some A refl marked stored adv assms(2) stored_response
        by (cases ok) (simp_all add: firstFence_def Let_def)
    qed
  qed
qed

lemma findResponse_None: "findResponse key s = None \<longleftrightarrow> key \<notin> set (map rw_key (ph_responses s))"
  by (auto simp: findResponse_def find_None_iff)

lemma findResponse_SomeD: "findResponse key s = Some r \<Longrightarrow> r \<in> set (ph_responses s) \<and> rw_key r = key"
  by (auto simp: findResponse_def find_Some_iff)

lemma findResponse_unique:
  "tripwire_inv hash s \<Longrightarrow> findResponse key s = Some row \<Longrightarrow> r \<in> set (ph_responses s) \<Longrightarrow> rw_key r = key \<Longrightarrow> r = row"
  using find_by_key [of rw_key "ph_responses s" r] by (auto simp: tripwire_inv_def findResponse_def)

lemma applyFresh_steps:
  fixes g :: 'g
  assumes "tripwire_inv hash s" and "findResponse key s = None"
  shows "steps_to hash s (fst (snd (applyFresh hash f clk key req adapter (s, g)))) \<and>
    (\<forall>out. fst (applyFresh hash f clk key req adapter (s, g)) = Inr out \<longrightarrow>
       (\<exists>r \<in> set (ph_responses (fst (snd (applyFresh hash f clk key req adapter (s, g))))).
          rw_key r = key \<and> rw_request r = req \<and> rw_response r = out))"
proof (cases "applyActions f 0 (clk 0) req (tq_actions req) s")
  case (Inl e)
  then show ?thesis using assms(1) by (simp add: applyFresh_def Let_def steps_to_def)
next
  case (Inr res1)
  obtain acts s1 where d: "res1 = (acts, s1)" by (cases res1)
  note ok = applyActions_ok [OF Inr [unfolded d]]
  let ?out = "\<lparr>rr_version = tripwireVersion, rr_findingID = tq_findingID req, rr_replay = False, rr_actions = acts\<rparr>"
  let ?row = "\<lparr>rw_key = key, rw_fingerprint = responseFingerprint hash req, rw_request = req, rw_response = ?out\<rparr>"
  let ?s2 = "s1\<lparr>ph_responses := ph_responses s1 @ [?row]\<rparr>"
  have fresh: "key \<notin> set (map rw_key (ph_responses s))" using assms(2) by (simp add: findResponse_None)
  have "response_ok hash ?s2 r" if "r \<in> set (ph_responses s)" for r
    using assms(1) ok that by (auto simp: tripwire_inv_def response_ok_def)
  moreover have "response_ok hash ?s2 ?row" using ok by (auto simp: response_ok_def)
  ultimately have "tripwire_inv hash ?s2" using assms(1) ok fresh by (auto simp: tripwire_inv_def)
  moreover have "tripwire_le s ?s2" using ok by (auto simp: tripwire_le_def intro: response_row_le_refl)
  ultimately have s2: "steps_to hash s ?s2" by (simp add: steps_to_def)
  let ?ff = "firstFence f clk key req adapter ?out (?s2, g)"
  have ff: "steps_to hash ?s2 (fst (snd ?ff)) \<and> (\<forall>out'. fst ?ff = Inr out' \<longrightarrow>
      list_all2 advances (rr_actions ?out) (rr_actions out') \<and>
      (\<forall>r \<in> set (ph_responses (fst (snd ?ff))). rw_key r = key \<longrightarrow> rw_response r = out'))"
    using s2 ok fresh by (intro firstFence_steps) (auto simp: steps_to_def image_iff)
  then have trans: "steps_to hash s (fst (snd ?ff))" using s2 steps_to_trans by blast
  have row: "\<exists>r \<in> set (ph_responses (fst (snd ?ff))). rw_key r = key \<and> rw_request r = req \<and> rw_response r = out"
    if out: "fst ?ff = Inr out" for out
  proof -
    have "?row \<in> set (ph_responses ?s2)" by simp
    then obtain r where r: "r \<in> set (ph_responses (fst (snd ?ff)))" "response_row_le ?row r"
      using ff unfolding steps_to_def tripwire_le_def by blast
    then show ?thesis using ff out by (auto simp: response_row_le_def)
  qed
  have refl: "steps_to hash s s" using assms(1) by (simp add: steps_to_def)
  let ?n = "length (tq_actions req)"
  have unfold: "applyFresh hash f clk key req adapter (s, g) =
      (if f 1 \<or> f 2 \<or> f (3 + 2 * ?n) \<or> f (4 + 2 * ?n) then (Inl TwDB, (s, g))
       else if f (5 + 2 * ?n) then (Inl TwDB, (?s2, g)) else ?ff)"
    using Inr d by (simp add: applyFresh_def Let_def)
  show ?thesis unfolding unfold using refl s2 trans row by simp
qed

lemma Apply_steps:
  fixes g :: 'g
  assumes "tripwire_inv hash s"
  shows "steps_to hash s (fst (snd (Apply hash f clk key req adapter (s, g)))) \<and>
    (\<forall>out. fst (Apply hash f clk key req adapter (s, g)) = Inr out \<longrightarrow>
       (\<exists>r \<in> set (ph_responses (fst (snd (Apply hash f clk key req adapter (s, g))))).
          rw_key r = key \<and> rw_fingerprint r = responseFingerprint hash req \<and>
          rr_actions (rw_response r) = rr_actions out))"
proof -
  have refl: "steps_to hash s s" using assms by (simp add: steps_to_def)
  show ?thesis
  proof (cases "\<not> re_match idPattern key \<or> f 0")
    case True
    then show ?thesis using refl by (auto simp: Apply_def)
  next
    case ok: False
    show ?thesis
    proof (cases "findResponse key s")
      case None
      then have eq: "Apply hash f clk key req adapter (s, g) = applyFresh hash f clk key req adapter (s, g)"
        using ok by (simp add: Apply_def)
      have steps: "steps_to hash s (fst (snd (applyFresh hash f clk key req adapter (s, g))))"
        and row: "\<And>out. fst (applyFresh hash f clk key req adapter (s, g)) = Inr out \<Longrightarrow>
          \<exists>r \<in> set (ph_responses (fst (snd (applyFresh hash f clk key req adapter (s, g))))).
            rw_key r = key \<and> rw_request r = req \<and> rw_response r = out"
        using applyFresh_steps [OF assms None, of f clk req adapter g] by blast+
      have "rw_fingerprint r = responseFingerprint hash (rw_request r)"
        if "r \<in> set (ph_responses (fst (snd (applyFresh hash f clk key req adapter (s, g)))))" for r
        using steps that by (simp add: steps_to_def tripwire_inv_def response_ok_def)
      then show ?thesis unfolding eq using steps row by metis
    next
      case (Some row)
      note r = findResponse_SomeD [OF Some]
      have only: "\<forall>r \<in> set (ph_responses s). rw_key r = key \<longrightarrow> rw_response r = rw_response row"
        using findResponse_unique [OF assms Some] by blast
      show ?thesis
      proof (cases "rw_fingerprint row = responseFingerprint hash req")
        case False
        then show ?thesis using ok Some refl by (simp add: Apply_def)
      next
        case fp: True
        let ?n = "[0..<length (rr_actions (rw_response row))]"
        show ?thesis
        proof (cases "tq_binding req = None \<or> adapter = None")
          case True
          then have "Apply hash f clk key req adapter (s, g) = (Inr ((rw_response row)\<lparr>rr_replay := True\<rparr>), (s, g))"
            using ok Some fp by (auto simp: Apply_def split: option.splits)
          then show ?thesis using refl r fp by auto
        next
          case False
          then obtain b fence where bf: "tq_binding req = Some b" "adapter = Some fence" by auto
          let ?rf = "replayFences fence b (tq_findingID req) key f clk ?n (rw_response row) (s, g)"
          have rf: "steps_to hash s (fst (snd ?rf)) \<and> (\<forall>out'. fst ?rf = Inr out' \<longrightarrow>
              list_all2 advances (rr_actions (rw_response row)) (rr_actions out') \<and>
              (\<forall>r \<in> set (ph_responses (fst (snd ?rf))). rw_key r = key \<longrightarrow> rw_response r = out'))"
            by (rule replayFences_steps [OF assms only]) simp
          have eq: "Apply hash f clk key req adapter (s, g) =
              (case ?rf of (Inl e, sg') \<Rightarrow> (Inl e, sg') | (Inr out, sg') \<Rightarrow> (Inr (out\<lparr>rr_replay := True\<rparr>), sg'))"
            using ok Some fp bf by (simp add: Apply_def)
          obtain res t where res: "?rf = (res, t)" by (cases ?rf)
          have "tripwire_le s (fst t)" using rf res by (simp add: steps_to_def)
          then obtain r' where r': "r' \<in> set (ph_responses (fst t))" "response_row_le row r'"
            using r unfolding tripwire_le_def by blast
          then have k: "rw_key r' = key" "rw_fingerprint r' = responseFingerprint hash req"
            using r fp by (simp_all add: response_row_le_def)
          have stored: "rw_response r' = out'" if "res = Inr out'" for out' using rf res r'(1) k(1) that by simp
          have st: "steps_to hash s (fst t)" using rf res by simp
          show ?thesis unfolding eq res using stored st r'(1) k by (cases res) auto
        qed
      qed
    qed
  qed
qed

lemma tw_exec_steps:
  assumes "tripwire_inv hash (fst sg)"
  shows "steps_to hash (fst sg) (fst (snd (tw_exec hash x sg)))"
proof -
  obtain s g where sg: "sg = (s, g)" by (cases sg)
  show ?thesis
  proof (cases x)
    case (TwReplace f now ps)
    have "snd (ReplaceEnforcementCatalog f now ps s) = s \<or> (\<exists>rows. snd (ReplaceEnforcementCatalog f now ps s) = s\<lparr>ph_catalog := rows\<rparr>)"
      by (auto simp: ReplaceEnforcementCatalog_def split: sum.splits)
    moreover have "steps_to hash s (s\<lparr>ph_catalog := rows\<rparr>)" for rows
      using assms sg by (auto simp: steps_to_def tripwire_inv_def response_ok_def tripwire_le_def intro: response_row_le_refl)
    ultimately show ?thesis using TwReplace sg assms by (auto simp: split_beta steps_to_def)
  next
    case (TwApply f clk key req adapter)
    then show ?thesis using Apply_steps [of hash s f clk key req adapter g] assms sg by (auto simp: split_beta)
  qed
qed

interpretation tripwire: forward_store "tw_exec hash" "\<lambda>sg. tripwire_inv hash (fst sg)" "\<lambda>sg tg. tripwire_le (fst sg) (fst tg)"
  for hash :: "response_request \<Rightarrow> string"
proof unfold_locales
  fix s :: "tripwire_store \<times> 'a" and t u x
  show "tripwire_inv hash (fst s) \<Longrightarrow> tripwire_inv hash (fst (snd (tw_exec hash x s)))"
    and "tripwire_inv hash (fst s) \<Longrightarrow> tripwire_le (fst s) (fst (snd (tw_exec hash x s)))"
    using tw_exec_steps [of hash s x] by (simp_all add: steps_to_def)
  show "tripwire_le (fst s) (fst s)" by simp
  show "tripwire_le (fst s) (fst t) \<Longrightarrow> tripwire_le (fst t) (fst u) \<Longrightarrow> tripwire_le (fst s) (fst u)"
    for t u :: "tripwire_store \<times> 'a"
    by (rule tripwire_le_trans)
qed

section \<open>Properties\<close>

text \<open>No request for another profile generation has the digest of this one.\<close>

definition no_collision :: "(response_request \<Rightarrow> string) \<Rightarrow> response_request \<Rightarrow> bool" where
  "no_collision hash req \<longleftrightarrow>
     (\<forall>q. responseFingerprint hash q = responseFingerprint hash req \<longrightarrow>
        tq_profile q = tq_profile req \<and> tq_profileGeneration q = tq_profileGeneration req)"

text \<open>C27. A halt is final. Once a response is answered with a halted action, for the first time or as a replay, no
  later issuance check of that profile generation succeeds, whatever responses are applied, whatever catalogs are
  registered and whatever fails in between, provided that no request for another profile
  generation has the same digest.\<close>

theorem halted_generation_never_issues:
  assumes "tripwire_inv hash s" and "no_collision hash req" and "Apply hash f clk key req adapter (s, g) = (Inr out, t)"
    and "a \<in> set (rr_actions out)" and "as_state a = ''halted''"
  shows "\<exists>finding. \<forall>xs f'. haltedBy (tq_profile req) (tq_profileGeneration req) (fst (run_ops (tw_exec hash) xs t)) = Some finding \<and>
    CheckIssuanceState f' (tq_profile req) (tq_profileGeneration req) (fst (run_ops (tw_exec hash) xs t)) \<noteq> Inr ()"
proof -
  let ?p = "tq_profile req"
  let ?n = "tq_profileGeneration req"
  have st: "steps_to hash s (fst t)"
    and rows: "\<exists>r \<in> set (ph_responses (fst t)). rw_key r = key \<and> rw_fingerprint r = responseFingerprint hash req \<and>
       rr_actions (rw_response r) = rr_actions out"
    using Apply_steps [OF assms(1), of f clk key req adapter g] assms(3) by simp_all
  then obtain r where r: "r \<in> set (ph_responses (fst t))" "rw_fingerprint r = responseFingerprint hash req"
    "rr_actions (rw_response r) = rr_actions out" by blast
  have inv: "tripwire_inv hash (fst t)" using st by (simp add: steps_to_def)
  then have ok: "response_ok hash (fst t) r" using r(1) by (simp add: tripwire_inv_def)
  then have "responseFingerprint hash (rw_request r) = responseFingerprint hash req" using r(2) by (simp add: response_ok_def)
  then have "tq_profile (rw_request r) = ?p" "tq_profileGeneration (rw_request r) = ?n"
    using assms(2) unfolding no_collision_def by blast+
  then have "haltedBy ?p ?n (fst t) \<noteq> None"
    using ok r(3) assms(4,5) unfolding response_ok_def by metis
  then obtain finding where finding: "haltedBy ?p ?n (fst t) = Some finding" by blast
  have "haltedBy ?p ?n (fst (run_ops (tw_exec hash) xs t)) = Some finding" for xs
    using tripwire.le_run [OF inv, of xs] finding unfolding tripwire_le_def by (metis option.simps(3))
  then show ?thesis by (intro exI [of _ finding]) (simp add: CheckIssuanceState_def)
qed

definition emptyTripwire :: tripwire_store where
  "emptyTripwire = \<lparr>ph_halts = [], ph_catalog = [(''curator'', 7, 0)], ph_responses = [], ph_fences = []\<rparr>"

definition exampleBinding :: fence_binding where
  "exampleBinding = \<lparr>fb_workerID = ''w1'', fb_logicalSessionID = ''l1'', fb_sessionLineageID = ''s1'',
     fb_workerStorageLineageID = ''t1'', fb_workerFenceEpoch = 3\<rparr>"

definition exampleResponse :: "string list \<Rightarrow> response_request" where
  "exampleResponse as = \<lparr>tq_version = ''broker/push-tripwire/v1'', tq_findingID = ''f1'', tq_deliveryID = ''d1'',
     tq_repository = ''o/r'', tq_ref = ''refs/heads/x'', tq_before = replicate 40 (CHR ''a''), tq_after = replicate 40 (CHR ''b''),
     tq_severity = ''high'', tq_reasonCode = ''leak'', tq_fingerprintID = [], tq_profile = ''curator'', tq_profileGeneration = 7,
     tq_binding = Some exampleBinding, tq_actions = as\<rparr>"

definition loggingFence :: "(fence_binding \<times> string) list fence_adapter" where
  "loggingFence b finding log = (True, log @ [(b, finding)])"

definition haltedResult :: response_result where
  "haltedResult = \<lparr>rr_version = tripwireVersion, rr_findingID = ''f1'', rr_replay = False,
     rr_actions = [\<lparr>as_action = ''halt_issuance'', as_state = ''halted'', as_completedAt = 5\<rparr>]\<rparr>"

lemma key_ok: "re_match idPattern ''k1'' = True"
  by (simp add: re_match_iff idPattern_def idClass_def acc_rep_class in_class_def del: re_match.simps)

lemma halt_applied:
  "Apply hash no_faults (\<lambda>i. 5) ''k1'' (exampleResponse [''halt_issuance'']) None (emptyTripwire, g) =
     (Inr haltedResult,
      (emptyTripwire\<lparr>ph_halts := [(''curator'', 7, ''f1'')],
         ph_responses := [\<lparr>rw_key = ''k1'', rw_fingerprint = responseFingerprint hash (exampleResponse [''halt_issuance'']),
           rw_request = exampleResponse [''halt_issuance''], rw_response = haltedResult\<rparr>]\<rparr>, g))"
  by (simp add: Apply_def applyFresh_def firstFence_def findResponse_def emptyTripwire_def key_ok no_faults_def
      exampleResponse_def registered_def insertHalt_def haltedBy_def haltedResult_def Let_def del: re_match.simps)

lemma emptyTripwire_inv: "tripwire_inv hash emptyTripwire"
  by (simp add: tripwire_inv_def emptyTripwire_def)

definition curatorHash :: "response_request \<Rightarrow> string" where
  "curatorHash q = (if tq_profile q = ''curator'' \<and> tq_profileGeneration q = 7 then ''x'' else ''y'')"

theorem halted_generation_never_issues_witness:
  "CheckIssuanceState no_faults ''curator'' 7
     (fst (run_ops (tw_exec curatorHash) [TwReplace no_faults 9 [(''curator'', 7)]]
       (snd (Apply curatorHash no_faults (\<lambda>i. 5) ''k1'' (exampleResponse [''halt_issuance'']) None (emptyTripwire, ()))))) \<noteq> Inr ()"
proof -
  let ?q = "exampleResponse [''halt_issuance'']"
  let ?t = "snd (Apply curatorHash no_faults (\<lambda>i. 5) ''k1'' ?q None (emptyTripwire, ()))"
  have call: "Apply curatorHash no_faults (\<lambda>i. 5) ''k1'' ?q None (emptyTripwire, ()) = (Inr haltedResult, ?t)"
    by (simp add: halt_applied)
  have "no_collision curatorHash ?q"
    by (auto simp: no_collision_def responseFingerprint_def curatorHash_def exampleResponse_def split: if_splits)
  then have "CheckIssuanceState no_faults (tq_profile ?q) (tq_profileGeneration ?q)
      (fst (run_ops (tw_exec curatorHash) [TwReplace no_faults 9 [(''curator'', 7)]] ?t)) \<noteq> Inr ()"
    using halted_generation_never_issues [OF emptyTripwire_inv _ call,
        of "\<lparr>as_action = ''halt_issuance'', as_state = ''halted'', as_completedAt = 5\<rparr>"]
    by (simp add: haltedResult_def del: run_ops.simps) blast
  then show ?thesis by (simp add: exampleResponse_def)
qed

text \<open>C28. A response is applied once per idempotency key. After an answer, whatever happens in between, the key with
  another request is refused and changes nothing; with the same request it is answered as a replay of the same actions, none of
  them taken back: only a requested fence can have become a fenced one. Without an adapter the replay changes nothing.\<close>

theorem response_applied_once:
  assumes "tripwire_inv hash s" and "Apply hash f clk key req adapter (s, g) = (Inr out, t)"
    and "u = run_ops (tw_exec hash) xs t" and "re_match idPattern key"
  shows "(responseFingerprint hash req' \<noteq> responseFingerprint hash req \<longrightarrow>
            Apply hash f' clk' key req' adapter' u = (Inl (if f' 0 then TwDB else TwKeyReused), u)) \<and>
         (responseFingerprint hash req' = responseFingerprint hash req \<longrightarrow>
            (\<forall>out' v. Apply hash f' clk' key req' adapter' u = (Inr out', v) \<longrightarrow>
               rr_replay out' \<and> list_all2 advances (rr_actions out) (rr_actions out')) \<and>
            (\<not> f' 0 \<longrightarrow> (\<exists>out'. Apply hash f' clk' key req' None u = (Inr out', u))))"
proof -
  have st: "steps_to hash s (fst t)"
    and rows: "\<exists>r \<in> set (ph_responses (fst t)). rw_key r = key \<and> rw_fingerprint r = responseFingerprint hash req \<and>
       rr_actions (rw_response r) = rr_actions out"
    using Apply_steps [OF assms(1), of f clk key req adapter g] assms(2) by simp_all
  then obtain r where r: "r \<in> set (ph_responses (fst t))" "rw_key r = key" "rw_fingerprint r = responseFingerprint hash req"
    "rr_actions (rw_response r) = rr_actions out" by blast
  have inv: "tripwire_inv hash (fst t)" using st by (simp add: steps_to_def)
  have invu: "tripwire_inv hash (fst u)" using tripwire.inv_run [OF inv] assms(3) by simp
  obtain r' where r': "r' \<in> set (ph_responses (fst u))" "response_row_le r r'"
    using tripwire.le_run [OF inv, of xs] r(1) assms(3) unfolding tripwire_le_def by blast
  then have k: "rw_key r' = key" "rw_fingerprint r' = responseFingerprint hash req"
    "list_all2 advances (rr_actions out) (rr_actions (rw_response r'))"
    using r by (simp_all add: response_row_le_def)
  then have found: "findResponse key (fst u) = Some r'"
    using invu r'(1) find_by_key [of rw_key "ph_responses (fst u)" r'] by (simp add: findResponse_def tripwire_inv_def)
  have only: "\<forall>q \<in> set (ph_responses (fst u)). rw_key q = key \<longrightarrow> rw_response q = rw_response r'"
    using findResponse_unique [OF invu found] by blast
  have replayed: "list_all2 advances (rr_actions (rw_response r')) (rr_actions out')"
    if "replayFences fence b i key f' clk' [0..<length (rr_actions (rw_response r'))] (rw_response r') u = (Inr out', v)"
    for fence b i out' and v :: "tripwire_store \<times> 'a"
    using replayFences_steps [OF invu only, of "[0..<length (rr_actions (rw_response r'))]" fence b i f' clk' "snd u"] that
    by simp
  have "rr_replay out' \<and> list_all2 advances (rr_actions out) (rr_actions out')"
    if call: "Apply hash f' clk' key req' adapter' u = (Inr out', v)" and fp: "responseFingerprint hash req' = responseFingerprint hash req"
    for out' v
  proof (cases "tq_binding req' = None \<or> adapter' = None")
    case True
    then have "Apply hash f' clk' key req' adapter' u =
        (if f' 0 then (Inl TwDB, u) else (Inr ((rw_response r')\<lparr>rr_replay := True\<rparr>), u))"
      using fp found k assms(4) by (auto simp: Apply_def split: option.splits)
    then show ?thesis using call k(3) by (auto split: if_splits)
  next
    case False
    then obtain b fence where bf: "tq_binding req' = Some b" "adapter' = Some fence" by auto
    obtain res w where rf: "replayFences fence b (tq_findingID req') key f' clk'
        [0..<length (rr_actions (rw_response r'))] (rw_response r') u = (res, w)"
      by (meson surj_pair)
    have "Apply hash f' clk' key req' adapter' u =
        (if f' 0 then (Inl TwDB, u) else case res of Inl e \<Rightarrow> (Inl e, w) | Inr o' \<Rightarrow> (Inr (o'\<lparr>rr_replay := True\<rparr>), w))"
      using fp found k bf rf assms(4) by (simp add: Apply_def split: sum.splits)
    then obtain o' where "res = Inr o'" "out' = o'\<lparr>rr_replay := True\<rparr>"
      using call by (auto split: if_splits sum.splits)
    then show ?thesis using replayed [OF rf [unfolded \<open>res = Inr o'\<close>]] list_advances_trans [OF k(3)] by simp
  qed
  then show ?thesis using found k assms(4) by (auto simp: Apply_def split: option.splits)
qed

theorem response_applied_once_witness:
  "Apply (\<lambda>q. concat (tq_actions q)) no_faults (\<lambda>i. 8) ''k1'' (exampleResponse [''fence_worker_session'']) None
      (snd (Apply (\<lambda>q. concat (tq_actions q)) no_faults (\<lambda>i. 5) ''k1'' (exampleResponse [''halt_issuance'']) None
        (emptyTripwire, ()))) =
    (Inl TwKeyReused, (snd (Apply (\<lambda>q. concat (tq_actions q)) no_faults (\<lambda>i. 5) ''k1'' (exampleResponse [''halt_issuance''])
      None (emptyTripwire, ()))))"
proof -
  let ?h = "\<lambda>q. concat (tq_actions q)"
  let ?t = "snd (Apply ?h no_faults (\<lambda>i. 5) ''k1'' (exampleResponse [''halt_issuance'']) None (emptyTripwire, ()))"
  have call: "Apply ?h no_faults (\<lambda>i. 5) ''k1'' (exampleResponse [''halt_issuance'']) None (emptyTripwire, ()) = (Inr haltedResult, ?t)"
    by (simp add: halt_applied)
  have "responseFingerprint ?h (exampleResponse [''fence_worker_session'']) \<noteq>
      responseFingerprint ?h (exampleResponse [''halt_issuance''])"
    by (simp add: responseFingerprint_def exampleResponse_def)
  then show ?thesis
    using response_applied_once [OF emptyTripwire_inv call, of ?t "[]" "exampleResponse [''fence_worker_session'']" no_faults]
      key_ok by (simp add: no_faults_def del: re_match.simps)
qed

end
