(* ===== verification/Scan_Material.thy ===== *)
theory Scan_Material
  imports Push_Tripwire Security_Scan Broker_Config
begin

text \<open>
  The material of a push for the scanner (\<open>GetRef\<close> and \<open>PushTripwireMaterial\<close> in
  \<open>src/internal/githubapp/client.go\<close>): the commits of a push and, for each, both sides of every file it changes
  against its first parent, within bounds.

  The requests to GitHub's REST API (\<open>doJSON\<close> with its path) are the operations of \<open>material_api\<close> on a state of their
  own; \<open>None\<close> is any error. The two caches of the source are maps of the loop's state. The function never returns an error,
  so its result is the response only.
\<close>

section \<open>Data\<close>

record material_commit =
  mc_sha :: string
  mc_message :: string

record material_file =
  mf_commitSHA :: string
  mf_path :: string
  mf_side :: string
  mf_status :: string
  mf_blobSHA :: string
  mf_size :: int
  mf_content :: string

record material_bounds =
  mb_commitCount :: int
  mb_pathCount :: int
  mb_totalBytes :: int

record material_response =
  mr_deliveryID :: string
  mr_repository :: string
  mr_ref :: string
  mr_before :: string
  mr_after :: string
  mr_complete :: bool
  mr_reasonCode :: string
  mr_bounds :: material_bounds
  mr_commits :: "material_commit list"
  mr_files :: "material_file list"

text \<open>What GitHub answers. The first argument of each operation is the App, the repository and the installation.\<close>

record comparison =
  cm_totalCommits :: int
  cm_status :: string
  cm_commits :: "string list"

record commit_answer =
  ct_sha :: string
  ct_message :: string
  ct_tree :: string
  ct_parents :: "string list"

record tree_node =
  tn_path :: string
  tn_type :: string
  tn_sha :: string

record tree_answer =
  ta_truncated :: bool
  ta_nodes :: "tree_node list"

record blob_answer =
  bl_content :: string
  bl_encoding :: string
  bl_size :: int

type_synonym api_target = "string \<times> string \<times> int"

datatype api_error = ApiNotFound | ApiError

record 'g material_api =
  ma_ref :: "api_target \<Rightarrow> string \<Rightarrow> 'g \<Rightarrow> (api_error + string) \<times> 'g"
  ma_compare :: "api_target \<Rightarrow> string \<Rightarrow> string \<Rightarrow> int \<Rightarrow> 'g \<Rightarrow> comparison option \<times> 'g"
  ma_commit :: "api_target \<Rightarrow> string \<Rightarrow> 'g \<Rightarrow> commit_answer option \<times> 'g"
  ma_tree :: "api_target \<Rightarrow> string \<Rightarrow> 'g \<Rightarrow> tree_answer option \<times> 'g"
  ma_blob :: "api_target \<Rightarrow> string \<Rightarrow> 'g \<Rightarrow> blob_answer option \<times> 'g"

section \<open>Refs\<close>

datatype ref_error = RefNamespace | RefAPI | RefInvalidSHA

definition GetRef :: "'g material_api \<Rightarrow> api_target \<Rightarrow> string \<Rightarrow> 'g \<Rightarrow> (ref_error + string option) \<times> 'g" where
  "GetRef api t ref g =
     (if \<not> hasPrefix ref ''refs/heads/'' then (Inl RefNamespace, g)
      else case ma_ref api t (trimPrefix ref ''refs/'') g of
        (Inl ApiNotFound, g') \<Rightarrow> (Inr None, g')
      | (Inl ApiError, g') \<Rightarrow> (Inl RefAPI, g')
      | (Inr sha, g') \<Rightarrow> if \<not> re_match shaPattern sha then (Inl RefInvalidSHA, g') else (Inr (Some sha), g'))"

section \<open>Base64\<close>

definition base64Char :: "nat \<Rightarrow> char" where
  "base64Char n =
     (if n < 26 then char_of (n + 65) else if n < 52 then char_of (n + 71) else if n < 62 then char_of (n - 4)
      else if n = 62 then CHR ''+'' else CHR ''/'')"

fun base64Encode :: "string \<Rightarrow> string" where
  "base64Encode [] = []"
| "base64Encode [a] =
     [base64Char (of_char a div 4), base64Char (16 * (of_char a mod 4)), CHR ''='', CHR ''='']"
| "base64Encode [a, b] =
     [base64Char (of_char a div 4), base64Char (16 * (of_char a mod 4) + of_char b div 16),
      base64Char (4 * (of_char b mod 16)), CHR ''='']"
| "base64Encode (a # b # c # s) =
     base64Char (of_char a div 4) # base64Char (16 * (of_char a mod 4) + of_char b div 16) #
     base64Char (4 * (of_char b mod 16) + of_char c div 64) # base64Char (of_char c mod 64) # base64Encode s"

text \<open>\<open>StdEncoding.DecodeString\<close> of a text without line feeds; it skips carriage returns.\<close>

definition decodeContent :: "string \<Rightarrow> string option" where
  "decodeContent content = base64Decode False True (filter (\<lambda>c. c \<noteq> CHR 0x0A \<and> c \<noteq> CHR 0x0D) content)"

section \<open>Trees and blobs\<close>

record material_state =
  me_trees :: "tree_node gomap gomap"
  me_blobs :: "(string \<times> int) gomap"
  me_total :: int
  me_paths :: int
  me_commits :: "material_commit list"
  me_files :: "material_file list"

definition validNode :: "tree_node \<Rightarrow> bool" where
  "validNode n \<longleftrightarrow>
     \<not> (tn_path n = [] \<or> length (tn_path n) > 4096 \<or> CHR 0x00 \<in> set (tn_path n) \<or>
        (tn_type n \<noteq> ''blob'' \<and> tn_type n \<noteq> ''tree'' \<and> tn_type n \<noteq> ''commit''))"

fun treeMap :: "tree_node list \<Rightarrow> tree_node gomap \<Rightarrow> tree_node gomap option" where
  "treeMap [] m = Some m"
| "treeMap (n # ns) m = (if \<not> validNode n then None else treeMap ns (gput (tn_path n) n m))"

definition loadTree ::
  "'g material_api \<Rightarrow> api_target \<Rightarrow> string \<Rightarrow> material_state \<times> 'g \<Rightarrow> (string + tree_node gomap) \<times> material_state \<times> 'g" where
  "loadTree api t sha sg =
     (let (st, g) = sg in
      case gget (me_trees st) sha of
        Some cached \<Rightarrow> (Inr cached, st, g)
      | None \<Rightarrow>
          if \<not> re_match shaPattern sha then (Inl ''invalid_tree_material'', st, g)
          else case ma_tree api t sha g of
            (None, g') \<Rightarrow> (Inl ''github_material_unavailable'', st, g')
          | (Some tree, g') \<Rightarrow>
              if ta_truncated tree then (Inl ''tree_material_incomplete'', st, g')
              else case treeMap (ta_nodes tree) [] of
                None \<Rightarrow> (Inl ''invalid_tree_material'', st, g')
              | Some mapped \<Rightarrow> (Inr mapped, st\<lparr>me_trees := gput sha mapped (me_trees st)\<rparr>, g'))"

definition blobMaterial :: "tripwire_bounds \<Rightarrow> blob_answer \<Rightarrow> string + string \<times> int" where
  "blobMaterial b blob =
     (if bl_encoding blob \<noteq> ''base64'' \<or> bl_size blob < 0 \<or> bl_size blob > tw_maxBlobBytes b
      then Inl ''blob_limit_exceeded''
      else case decodeContent (bl_content blob) of
        None \<Rightarrow> Inl ''invalid_blob_material''
      | Some decoded \<Rightarrow>
          if int (length decoded) \<noteq> bl_size blob then Inl ''invalid_blob_material''
          else Inr (base64Encode decoded, int (length decoded)))"

definition loadBlob ::
  "'g material_api \<Rightarrow> api_target \<Rightarrow> tripwire_bounds \<Rightarrow> string \<Rightarrow> material_state \<times> 'g \<Rightarrow>
     (string + string \<times> int) \<times> material_state \<times> 'g" where
  "loadBlob api t b sha sg =
     (let (st, g) = sg in
      case gget (me_blobs st) sha of
        Some material \<Rightarrow> (Inr material, st, g)
      | None \<Rightarrow>
          if \<not> re_match shaPattern sha then (Inl ''invalid_blob_material'', st, g)
          else case ma_blob api t sha g of
            (None, g') \<Rightarrow> (Inl ''github_material_unavailable'', st, g')
          | (Some blob, g') \<Rightarrow>
              (case blobMaterial b blob of
                 Inl code \<Rightarrow> (Inl code, st, g')
               | Inr material \<Rightarrow> (Inr material, st\<lparr>me_blobs := gput sha material (me_blobs st)\<rparr>, g')))"

section \<open>The loops over paths and commits\<close>

text \<open>One side of a changed file.\<close>

definition emitSide ::
  "'g material_api \<Rightarrow> api_target \<Rightarrow> tripwire_bounds \<Rightarrow> string \<Rightarrow> string \<Rightarrow> string \<Rightarrow> string \<Rightarrow> string \<Rightarrow>
     material_state \<times> 'g \<Rightarrow> (string + unit) \<times> material_state \<times> 'g" where
  "emitSide api t b commit path side status sha sg =
     (let (st, g) = sg; st1 = st\<lparr>me_paths := wrap64 (me_paths st + 1)\<rparr> in
      if me_paths st1 > tw_maxPaths b then (Inl ''path_limit_exceeded'', st1, g)
      else case loadBlob api t b sha (st1, g) of
        (Inl code, sg') \<Rightarrow> (Inl code, sg')
      | (Inr (content, n), (st2, g')) \<Rightarrow>
          (let st3 = st2\<lparr>me_total := wrap64 (me_total st2 + n)\<rparr> in
           if me_total st3 > tw_maxTotalBytes b then (Inl ''total_byte_limit_exceeded'', st3, g')
           else (Inr (), st3\<lparr>me_files := me_files st3 @
                   [\<lparr>mf_commitSHA = commit, mf_path = path, mf_side = side, mf_status = status, mf_blobSHA = sha,
                     mf_size = n, mf_content = content\<rparr>]\<rparr>, g')))"

definition emitPath ::
  "'g material_api \<Rightarrow> api_target \<Rightarrow> tripwire_bounds \<Rightarrow> string \<Rightarrow> tree_node gomap \<Rightarrow> tree_node gomap \<Rightarrow> string \<Rightarrow>
     material_state \<times> 'g \<Rightarrow> (string + unit) \<times> material_state \<times> 'g" where
  "emitPath api t b commit beforeTree afterTree path sg =
     (let before = gget beforeTree path; after = gget afterTree path in
      if (case (before, after) of (Some x, Some y) \<Rightarrow> tn_sha x = tn_sha y \<and> tn_type x = tn_type y | _ \<Rightarrow> False)
      then (Inr (), sg)
      else if (case before of Some x \<Rightarrow> tn_type x \<noteq> ''blob'' | None \<Rightarrow> False) \<or>
              (case after of Some y \<Rightarrow> tn_type y \<noteq> ''blob'' | None \<Rightarrow> False)
      then (Inl ''unsupported_tree_material'', sg)
      else
        (let status = (if after = None then ''deleted'' else if before = None then ''added'' else ''modified'') in
         case (case before of
                 Some x \<Rightarrow> emitSide api t b commit path ''before'' status (tn_sha x) sg
               | None \<Rightarrow> (Inr (), sg)) of
           (Inl code, sg') \<Rightarrow> (Inl code, sg')
         | (Inr _, sg') \<Rightarrow>
             (case after of
                Some y \<Rightarrow> emitSide api t b commit path ''after'' status (tn_sha y) sg'
              | None \<Rightarrow> (Inr (), sg'))))"

fun emitPaths ::
  "'g material_api \<Rightarrow> api_target \<Rightarrow> tripwire_bounds \<Rightarrow> string \<Rightarrow> tree_node gomap \<Rightarrow> tree_node gomap \<Rightarrow> string list \<Rightarrow>
     material_state \<times> 'g \<Rightarrow> (string + unit) \<times> material_state \<times> 'g" where
  "emitPaths api t b commit beforeTree afterTree [] sg = (Inr (), sg)"
| "emitPaths api t b commit beforeTree afterTree (p # ps) sg =
     (case emitPath api t b commit beforeTree afterTree p sg of
        (Inl code, sg') \<Rightarrow> (Inl code, sg')
      | (Inr _, sg') \<Rightarrow> emitPaths api t b commit beforeTree afterTree ps sg')"

definition orderedPaths :: "tree_node gomap \<Rightarrow> tree_node gomap \<Rightarrow> string list" where
  "orderedPaths beforeTree afterTree = sort (remdups (map fst beforeTree @ map fst afterTree))"

text \<open>The body of the loop over the commits.\<close>

definition emitCommit ::
  "'g material_api \<Rightarrow> api_target \<Rightarrow> tripwire_bounds \<Rightarrow> string \<Rightarrow>
     material_state \<times> 'g \<Rightarrow> (string + unit) \<times> material_state \<times> 'g" where
  "emitCommit api t b listed sg =
     (let (st, g) = sg in
      if \<not> re_match shaPattern listed then (Inl ''commit_history_incomplete'', st, g)
      else case ma_commit api t listed g of
        (None, g1) \<Rightarrow> (Inl ''github_material_unavailable'', st, g1)
      | (Some commit, g1) \<Rightarrow>
          if ct_sha commit \<noteq> listed \<or> ct_parents commit = [] \<or>
             int (length (ct_message commit)) > tw_maxCommitMessageBytes b
          then (Inl ''commit_history_incomplete'', st, g1)
          else
            (let st1 = st\<lparr>me_total := wrap64 (me_total st + int (length (ct_message commit)))\<rparr> in
             if me_total st1 > tw_maxTotalBytes b then (Inl ''total_byte_limit_exceeded'', st1, g1)
             else
               (let st2 = st1\<lparr>me_commits := me_commits st1 @ [\<lparr>mc_sha = ct_sha commit, mc_message = ct_message commit\<rparr>]\<rparr> in
                case ma_commit api t (hd (ct_parents commit)) g1 of
                  (None, g2) \<Rightarrow> (Inl ''github_material_unavailable'', st2, g2)
                | (Some parent, g2) \<Rightarrow>
                    (case loadTree api t (ct_tree parent) (st2, g2) of
                       (Inl code, sg') \<Rightarrow> (Inl code, sg')
                     | (Inr beforeTree, sg') \<Rightarrow>
                         (case loadTree api t (ct_tree commit) sg' of
                            (Inl code, sg'') \<Rightarrow> (Inl code, sg'')
                          | (Inr afterTree, sg'') \<Rightarrow>
                              emitPaths api t b (ct_sha commit) beforeTree afterTree
                                (orderedPaths beforeTree afterTree) sg'')))))"

fun emitCommits ::
  "'g material_api \<Rightarrow> api_target \<Rightarrow> tripwire_bounds \<Rightarrow> string list \<Rightarrow>
     material_state \<times> 'g \<Rightarrow> (string + unit) \<times> material_state \<times> 'g" where
  "emitCommits api t b [] sg = (Inr (), sg)"
| "emitCommits api t b (c # cs) sg =
     (case emitCommit api t b c sg of
        (Inl code, sg') \<Rightarrow> (Inl code, sg')
      | (Inr _, sg') \<Rightarrow> emitCommits api t b cs sg')"

section \<open>The material of a push\<close>

definition emptyMaterial :: "material_request \<Rightarrow> string \<Rightarrow> material_response" where
  "emptyMaterial req code =
     \<lparr>mr_deliveryID = tm_deliveryID req, mr_repository = tm_repository req, mr_ref = tm_ref req, mr_before = tm_before req,
      mr_after = tm_after req, mr_complete = False, mr_reasonCode = code,
      mr_bounds = \<lparr>mb_commitCount = 0, mb_pathCount = 0, mb_totalBytes = 0\<rparr>, mr_commits = [], mr_files = []\<rparr>"

definition zeroObject :: string where
  "zeroObject = replicate 40 (CHR ''0'')"

definition startState :: material_state where
  "startState = \<lparr>me_trees = [], me_blobs = [], me_total = 0, me_paths = 0, me_commits = [], me_files = []\<rparr>"

definition materialOf ::
  "'g material_api \<Rightarrow> api_target \<Rightarrow> tripwire_bounds \<Rightarrow> material_request \<Rightarrow> string \<Rightarrow> 'g \<Rightarrow> material_response \<times> 'g" where
  "materialOf api t b req compareBefore g =
     (case ma_compare api t compareBefore (tm_after req) (tw_maxCommits b) g of
        (None, g1) \<Rightarrow> (emptyMaterial req ''github_material_unavailable'', g1)
      | (Some c, g1) \<Rightarrow>
          if cm_totalCommits c > tw_maxCommits b \<or> int (length (cm_commits c)) > tw_maxCommits b
          then (emptyMaterial req ''commit_limit_exceeded'', g1)
          else if cm_totalCommits c \<noteq> int (length (cm_commits c))
          then (emptyMaterial req ''commit_history_incomplete'', g1)
          else if \<not> (cm_status c = ''ahead'' \<or> (tm_before req = zeroObject \<and> cm_status c = ''diverged'')) \<or>
             cm_totalCommits c = 0 \<or> last (cm_commits c) \<noteq> tm_after req
          then (emptyMaterial req ''commit_history_incomplete'', g1)
          else case emitCommits api t b (cm_commits c) (startState, g1) of
            (Inl code, (st, g2)) \<Rightarrow> (emptyMaterial req code, g2)
          | (Inr _, (st, g2)) \<Rightarrow>
              ((emptyMaterial req [])
                 \<lparr>mr_complete := True,
                  mr_bounds := \<lparr>mb_commitCount = int (length (me_commits st)), mb_pathCount = me_paths st, mb_totalBytes = me_total st\<rparr>,
                  mr_commits := me_commits st, mr_files := me_files st\<rparr>, g2))"

definition PushTripwireMaterial ::
  "'g material_api \<Rightarrow> api_target \<Rightarrow> material_request \<Rightarrow> string \<Rightarrow> tripwire_bounds \<Rightarrow> 'g \<Rightarrow> material_response \<times> 'g" where
  "PushTripwireMaterial api t req baseRef b g =
     (if tm_before req = zeroObject then
        (case GetRef api t baseRef g of
           (Inr (Some sha), g') \<Rightarrow> materialOf api t b req sha g'
         | (_, g') \<Rightarrow> (emptyMaterial req ''base_ref_unavailable'', g'))
      else materialOf api t b req (tm_before req) g)"

section \<open>What complete material is\<close>

text \<open>Git objects never change: what GitHub answers for a digest, when it answers, is the object of that digest.\<close>

record git_objects =
  go_commit :: "string \<Rightarrow> commit_answer"
  go_tree :: "string \<Rightarrow> tree_answer"
  go_blob :: "string \<Rightarrow> blob_answer"

definition content_addressed :: "'g material_api \<Rightarrow> api_target \<Rightarrow> git_objects \<Rightarrow> bool" where
  "content_addressed api t G \<longleftrightarrow>
     (\<forall>sha g. fst (ma_commit api t sha g) \<in> {None, Some (go_commit G sha)} \<and>
        fst (ma_tree api t sha g) \<in> {None, Some (go_tree G sha)} \<and>
        fst (ma_blob api t sha g) \<in> {None, Some (go_blob G sha)})"

definition treeOf :: "git_objects \<Rightarrow> string \<Rightarrow> tree_node gomap option" where
  "treeOf G sha = (if ta_truncated (go_tree G sha) then None else treeMap (ta_nodes (go_tree G sha)) [])"

definition changed :: "tree_node option \<Rightarrow> tree_node option \<Rightarrow> bool" where
  "changed before after \<longleftrightarrow>
     map_option (\<lambda>n. (tn_sha n, tn_type n)) before \<noteq> map_option (\<lambda>n. (tn_sha n, tn_type n)) after"

definition sideFiles ::
  "git_objects \<Rightarrow> tripwire_bounds \<Rightarrow> string \<Rightarrow> string \<Rightarrow> string \<Rightarrow> string \<Rightarrow> tree_node option \<Rightarrow> material_file list" where
  "sideFiles G b commit path side status no =
     (case no of
        None \<Rightarrow> []
      | Some n \<Rightarrow>
          (case blobMaterial b (go_blob G (tn_sha n)) of
             Inl _ \<Rightarrow> []
           | Inr (content, k) \<Rightarrow>
               [\<lparr>mf_commitSHA = commit, mf_path = path, mf_side = side, mf_status = status, mf_blobSHA = tn_sha n,
                 mf_size = k, mf_content = content\<rparr>]))"

definition changeStatus :: "tree_node option \<Rightarrow> tree_node option \<Rightarrow> string" where
  "changeStatus before after =
     (if after = None then ''deleted'' else if before = None then ''added'' else ''modified'')"

definition pathFiles ::
  "git_objects \<Rightarrow> tripwire_bounds \<Rightarrow> string \<Rightarrow> tree_node gomap \<Rightarrow> tree_node gomap \<Rightarrow> string \<Rightarrow> material_file list" where
  "pathFiles G b commit beforeTree afterTree path =
     (let before = gget beforeTree path; after = gget afterTree path; status = changeStatus before after in
      if \<not> changed before after then []
      else sideFiles G b commit path ''before'' status before @ sideFiles G b commit path ''after'' status after)"

definition sideShown :: "git_objects \<Rightarrow> tripwire_bounds \<Rightarrow> tree_node option \<Rightarrow> bool" where
  "sideShown G b no \<longleftrightarrow> (\<forall>n. no = Some n \<longrightarrow> (\<exists>m. blobMaterial b (go_blob G (tn_sha n)) = Inr m))"

definition filesOf :: "git_objects \<Rightarrow> tripwire_bounds \<Rightarrow> string \<Rightarrow> material_file list" where
  "filesOf G b sha =
     (case (treeOf G (ct_tree (go_commit G (hd (ct_parents (go_commit G sha))))), treeOf G (ct_tree (go_commit G sha))) of
        (Some beforeTree, Some afterTree) \<Rightarrow>
          concat (map (pathFiles G b sha beforeTree afterTree) (orderedPaths beforeTree afterTree))
      | _ \<Rightarrow> [])"

text \<open>What has to hold of a commit, besides the files it contributes, when the loop goes past it.\<close>

definition commitShown :: "git_objects \<Rightarrow> tripwire_bounds \<Rightarrow> string \<Rightarrow> bool" where
  "commitShown G b sha \<longleftrightarrow>
     ct_sha (go_commit G sha) = sha \<and> ct_parents (go_commit G sha) \<noteq> [] \<and>
     (\<exists>beforeTree afterTree.
        treeOf G (ct_tree (go_commit G (hd (ct_parents (go_commit G sha))))) = Some beforeTree \<and>
        treeOf G (ct_tree (go_commit G sha)) = Some afterTree \<and>
        (\<forall>path. changed (gget beforeTree path) (gget afterTree path) \<longrightarrow>
           sideShown G b (gget beforeTree path) \<and> sideShown G b (gget afterTree path)))"

definition messageSum :: "material_commit list \<Rightarrow> int" where
  "messageSum cs = (\<Sum>c\<leftarrow>cs. int (length (mc_message c)))"

definition sizeSum :: "material_file list \<Rightarrow> int" where
  "sizeSum fs = (\<Sum>f\<leftarrow>fs. mf_size f)"

definition cached :: "git_objects \<Rightarrow> tripwire_bounds \<Rightarrow> material_state \<Rightarrow> bool" where
  "cached G b st \<longleftrightarrow>
     (\<forall>sha m. gget (me_trees st) sha = Some m \<longrightarrow> treeOf G sha = Some m) \<and>
     (\<forall>sha m. gget (me_blobs st) sha = Some m \<longrightarrow> blobMaterial b (go_blob G sha) = Inr m)"

definition within :: "tripwire_bounds \<Rightarrow> material_state \<Rightarrow> bool" where
  "within b st \<longleftrightarrow> 0 \<le> me_total st \<and> me_total st \<le> tw_maxTotalBytes b \<and> 0 \<le> me_paths st \<and> me_paths st \<le> tw_maxPaths b"

text \<open>A step of the loops that adds commits \<open>cs\<close> and files \<open>fs\<close>.\<close>

definition adds ::
  "git_objects \<Rightarrow> tripwire_bounds \<Rightarrow> material_commit list \<Rightarrow> material_file list \<Rightarrow> material_state \<Rightarrow> material_state \<Rightarrow> bool" where
  "adds G b cs fs st st' \<longleftrightarrow>
     cached G b st' \<and> within b st' \<and> me_commits st' = me_commits st @ cs \<and> me_files st' = me_files st @ fs \<and>
     me_total st' = me_total st + messageSum cs + sizeSum fs \<and> me_paths st' = me_paths st + int (length fs)"

lemma adds_trans: "adds G b cs fs st st' \<Longrightarrow> adds G b cs' fs' st' st'' \<Longrightarrow> adds G b (cs @ cs') (fs @ fs') st st''"
  by (simp add: adds_def messageSum_def sizeSum_def)

lemma adds_refl: "cached G b st \<Longrightarrow> within b st \<Longrightarrow> adds G b [] [] st st"
  by (simp add: adds_def messageSum_def sizeSum_def)

lemma adds_good: "adds G b cs fs st st' \<Longrightarrow> cached G b st' \<and> within b st'"
  by (simp add: adds_def)

lemma blobMaterial_size: "blobMaterial b blob = Inr (content, n) \<Longrightarrow> 0 \<le> n \<and> n \<le> tw_maxBlobBytes b \<and> n = bl_size blob"
  by (auto simp: blobMaterial_def split: if_splits option.splits)

lemma bounds_small:
  assumes "boundsErrors b = []"
  shows "tw_maxPaths b \<le> 3000" "tw_maxBlobBytes b \<le> 10 * 2 ^ 20" "tw_maxTotalBytes b \<le> 64 * 2 ^ 20"
    "tw_maxCommitMessageBytes b \<le> 2 ^ 20"
  using assms by (simp_all add: boundsErrors_def split: if_splits)

lemma wrap64_small: "0 \<le> x \<Longrightarrow> x \<le> 2 ^ 40 \<Longrightarrow> wrap64 x = x"
  by (rule wrap64_id) (simp add: int64_range_def)

lemma content_answers:
  assumes "content_addressed api t G"
  shows "ma_commit api t sha g = (Some c, g') \<Longrightarrow> c = go_commit G sha"
    and "ma_tree api t sha g = (Some a, g') \<Longrightarrow> a = go_tree G sha"
    and "ma_blob api t sha g = (Some l, g') \<Longrightarrow> l = go_blob G sha"
  using assms unfolding content_addressed_def by (metis fst_conv insertE option.distinct(1) option.inject singletonD)+

lemma loadTree_ok:
  assumes "content_addressed api t G" and "cached G b st" and "within b st" and "loadTree api t sha (st, g) = (Inr m, (st', g'))"
  shows "treeOf G sha = Some m \<and> adds G b [] [] st st'"
proof (cases "gget (me_trees st) sha")
  case None
  obtain a g1 where tree: "ma_tree api t sha g = (Some a, g1)" "\<not> ta_truncated a" "treeMap (ta_nodes a) [] = Some m"
    "st' = st\<lparr>me_trees := gput sha m (me_trees st)\<rparr>"
    using assms(4) None by (auto simp: loadTree_def split: if_splits prod.splits option.splits)
  then have "treeOf G sha = Some m" using content_answers(2) [OF assms(1)] by (simp add: treeOf_def)
  then show ?thesis using tree(4) assms(2,3) by (auto simp: adds_def cached_def within_def messageSum_def sizeSum_def)
next
  case (Some m')
  then show ?thesis using assms by (auto simp: loadTree_def cached_def intro: adds_refl)
qed

lemma loadBlob_ok:
  assumes "content_addressed api t G" and "cached G b st" and "within b st" and "loadBlob api t b sha (st, g) = (Inr m, (st', g'))"
  shows "blobMaterial b (go_blob G sha) = Inr m \<and> adds G b [] [] st st'"
proof (cases "gget (me_blobs st) sha")
  case None
  obtain l g1 where blob: "ma_blob api t sha g = (Some l, g1)" "blobMaterial b l = Inr m"
    "st' = st\<lparr>me_blobs := gput sha m (me_blobs st)\<rparr>"
    using assms(4) None by (auto simp: loadBlob_def split: if_splits prod.splits option.splits sum.splits)
  then have "blobMaterial b (go_blob G sha) = Inr m" using content_answers(3) [OF assms(1)] by simp
  then show ?thesis using blob(3) assms(2,3) by (auto simp: adds_def cached_def within_def messageSum_def sizeSum_def)
next
  case (Some m')
  then show ?thesis using assms by (cases m) (auto simp: loadBlob_def cached_def intro: adds_refl)
qed

lemma emitSide_ok:
  assumes "boundsErrors b = []" and "content_addressed api t G" and "cached G b st" and "within b st"
    and "emitSide api t b commit path side status (tn_sha n) (st, g) = (Inr u, (st', g'))"
  shows "sideShown G b (Some n) \<and> adds G b [] (sideFiles G b commit path side status (Some n)) st st'"
proof -
  note small = bounds_small [OF assms(1)]
  let ?st1 = "st\<lparr>me_paths := wrap64 (me_paths st + 1)\<rparr>"
  have paths: "wrap64 (me_paths st + 1) = me_paths st + 1"
    using assms(4) small by (intro wrap64_small) (simp_all add: within_def)
  obtain content k st2 g2 where l: "loadBlob api t b (tn_sha n) (?st1, g) = (Inr (content, k), (st2, g2))"
    and p: "\<not> me_paths st + 1 > tw_maxPaths b"
    and tot: "\<not> wrap64 (me_total st2 + k) > tw_maxTotalBytes b"
    and st': "st' = st2\<lparr>me_total := wrap64 (me_total st2 + k), me_files := me_files st2 @
       [\<lparr>mf_commitSHA = commit, mf_path = path, mf_side = side, mf_status = status, mf_blobSHA = tn_sha n, mf_size = k, mf_content = content\<rparr>]\<rparr>"
    using assms(5) paths by (auto simp: emitSide_def Let_def split: if_splits prod.splits sum.splits)
  have "cached G b ?st1" "within b ?st1" using assms(3,4) p paths by (simp_all add: cached_def within_def)
  from loadBlob_ok [OF assms(2) this l]
  have bm: "blobMaterial b (go_blob G (tn_sha n)) = Inr (content, k)" and a: "adds G b [] [] ?st1 st2" by simp_all
  note k = blobMaterial_size [OF bm]
  have "wrap64 (me_total st2 + k) = me_total st2 + k"
    using a k small by (intro wrap64_small) (simp_all add: adds_def within_def)
  then have "adds G b [] (sideFiles G b commit path side status (Some n)) st st'"
    using a k tot st' paths bm by (simp add: adds_def cached_def within_def sideFiles_def messageSum_def sizeSum_def)
  then show ?thesis using bm by (simp add: sideShown_def)
qed

lemma changed_iff:
  "changed before after \<longleftrightarrow>
     \<not> (case (before, after) of (Some x, Some y) \<Rightarrow> tn_sha x = tn_sha y \<and> tn_type x = tn_type y | _ \<Rightarrow> before = None \<and> after = None)"
  by (auto simp: changed_def split: option.splits)

lemma emitPath_ok:
  assumes "boundsErrors b = []" and "content_addressed api t G" and "cached G b st" and "within b st"
    and "emitPath api t b commit beforeTree afterTree path (st, g) = (Inr u, (st', g'))"
  shows "(changed (gget beforeTree path) (gget afterTree path) \<longrightarrow>
            sideShown G b (gget beforeTree path) \<and> sideShown G b (gget afterTree path)) \<and>
         adds G b [] (pathFiles G b commit beforeTree afterTree path) st st'"
proof (cases "changed (gget beforeTree path) (gget afterTree path)")
  case False
  then have "st' = st"
    using assms(5) by (auto simp: emitPath_def Let_def changed_iff split: option.splits if_splits)
  then show ?thesis using False assms(3,4) by (simp add: pathFiles_def Let_def adds_refl)
next
  case True
  let ?x = "gget beforeTree path"
  let ?y = "gget afterTree path"
  let ?status = "changeStatus ?x ?y"
  have same: "\<not> (case (?x, ?y) of (Some x, Some y) \<Rightarrow> tn_sha x = tn_sha y \<and> tn_type x = tn_type y | _ \<Rightarrow> False)"
    using True by (auto simp: changed_iff split: option.splits)
  obtain st1 g1 where 1: "(case ?x of Some x \<Rightarrow> emitSide api t b commit path ''before'' ?status (tn_sha x) (st, g) | None \<Rightarrow> (Inr (), (st, g)))
      = (Inr (), (st1, g1))"
    and 2: "(case ?y of Some y \<Rightarrow> emitSide api t b commit path ''after'' ?status (tn_sha y) (st1, g1) | None \<Rightarrow> (Inr (), (st1, g1)))
      = (Inr (), (st', g'))"
    using assms(5) same unfolding emitPath_def Let_def changeStatus_def by (auto split: if_splits sum.splits prod.splits)
  have a1: "sideShown G b ?x \<and> adds G b [] (sideFiles G b commit path ''before'' ?status ?x) st st1"
  proof (cases ?x)
    case None
    then show ?thesis using 1 assms(3,4) by (simp add: sideShown_def sideFiles_def adds_refl)
  next
    case (Some x)
    with 1 have "emitSide api t b commit path ''before'' ?status (tn_sha x) (st, g) = (Inr (), (st1, g1))" by simp
    from emitSide_ok [OF assms(1-4) this] show ?thesis using Some by simp
  qed
  then have good: "cached G b st1" "within b st1" using adds_good by blast+
  have a2: "sideShown G b ?y \<and> adds G b [] (sideFiles G b commit path ''after'' ?status ?y) st1 st'"
  proof (cases ?y)
    case None
    then show ?thesis using 2 good by (simp add: sideShown_def sideFiles_def adds_refl)
  next
    case (Some y)
    with 2 have "emitSide api t b commit path ''after'' ?status (tn_sha y) (st1, g1) = (Inr (), (st', g'))" by simp
    from emitSide_ok [OF assms(1,2) good this] show ?thesis using Some by simp
  qed
  have "adds G b ([] @ []) (sideFiles G b commit path ''before'' ?status ?x @ sideFiles G b commit path ''after'' ?status ?y) st st'"
    using a1 a2 by (intro adds_trans) auto
  then show ?thesis using True a1 a2 by (simp add: pathFiles_def Let_def)
qed

lemma emitPaths_ok:
  assumes "boundsErrors b = []" and "content_addressed api t G" and "cached G b st" and "within b st"
    and "emitPaths api t b commit beforeTree afterTree ps (st, g) = (Inr u, (st', g'))"
  shows "(\<forall>path \<in> set ps. changed (gget beforeTree path) (gget afterTree path) \<longrightarrow>
            sideShown G b (gget beforeTree path) \<and> sideShown G b (gget afterTree path)) \<and>
         adds G b [] (concat (map (pathFiles G b commit beforeTree afterTree) ps)) st st'"
  using assms(3-)
proof (induction ps arbitrary: st g)
  case Nil
  then show ?case by (simp add: adds_refl)
next
  case (Cons p ps)
  obtain st1 g1 where 1: "emitPath api t b commit beforeTree afterTree p (st, g) = (Inr (), (st1, g1))"
    and 2: "emitPaths api t b commit beforeTree afterTree ps (st1, g1) = (Inr u, (st', g'))"
    using Cons.prems(3) by (auto split: sum.splits prod.splits)
  note a1 = emitPath_ok [OF assms(1,2) Cons.prems(1,2) 1]
  then have good: "cached G b st1" "within b st1" using adds_good by blast+
  note a2 = Cons.IH [OF good 2]
  have "adds G b ([] @ []) (pathFiles G b commit beforeTree afterTree p @ concat (map (pathFiles G b commit beforeTree afterTree) ps)) st st'"
    using a1 a2 by (intro adds_trans) auto
  then show ?case using a1 a2 by simp
qed

lemma orderedPaths_set: "path \<notin> set (orderedPaths beforeTree afterTree) \<Longrightarrow> gget beforeTree path = None \<and> gget afterTree path = None"
  by (auto simp: orderedPaths_def gget_None_iff)

definition commitOf :: "git_objects \<Rightarrow> string \<Rightarrow> material_commit" where
  "commitOf G sha = \<lparr>mc_sha = sha, mc_message = ct_message (go_commit G sha)\<rparr>"

lemma emitCommit_ok:
  assumes "boundsErrors b = []" and "content_addressed api t G" and "cached G b st" and "within b st"
    and "emitCommit api t b sha (st, g) = (Inr u, (st', g'))"
  shows "commitShown G b sha \<and> adds G b [commitOf G sha] (filesOf G b sha) st st'"
proof -
  note small = bounds_small [OF assms(1)]
  let ?c = "go_commit G sha"
  let ?parent = "go_commit G (hd (ct_parents ?c))"
  let ?n = "int (length (ct_message ?c))"
  have listed: "re_match shaPattern sha" using assms(5) by (simp add: emitCommit_def split: if_split_asm)
  obtain oc g1 where ma: "ma_commit api t sha g = (oc, g1)" by (meson surj_pair)
  have "oc \<noteq> None" using assms(5) ma listed by (cases oc) (simp_all add: emitCommit_def)
  then have c1: "ma_commit api t sha g = (Some ?c, g1)" using ma content_answers(1) [OF assms(2)] by auto
  have cond: "\<not> (ct_sha ?c \<noteq> sha \<or> ct_parents ?c = [] \<or> ?n > tw_maxCommitMessageBytes b)"
  proof
    assume "ct_sha ?c \<noteq> sha \<or> ct_parents ?c = [] \<or> ?n > tw_maxCommitMessageBytes b"
    then have "emitCommit api t b sha (st, g) = (Inl ''commit_history_incomplete'', st, g1)"
      using c1 listed by (simp add: emitCommit_def)
    then show False using assms(5) by simp
  qed
  then have c: "ma_commit api t sha g = (Some ?c, g1)" "ct_sha ?c = sha" "ct_parents ?c \<noteq> []"
      "?n \<le> tw_maxCommitMessageBytes b" using c1 by auto
  have total: "wrap64 (me_total st + ?n) = me_total st + ?n"
    using assms(4) c(4) small by (intro wrap64_small) (simp_all add: within_def)
  let ?st2 = "st\<lparr>me_total := me_total st + ?n,
    me_commits := me_commits st @ [\<lparr>mc_sha = ct_sha ?c, mc_message = ct_message ?c\<rparr>]\<rparr>"
  have sel: "me_total (st\<lparr>me_total := x\<rparr>) = x" "me_commits (st\<lparr>me_total := x\<rparr>) = me_commits st" for x by simp_all
  have eq: "emitCommit api t b sha (st, g) =
      (if me_total st + ?n > tw_maxTotalBytes b
       then (Inl ''total_byte_limit_exceeded'', st\<lparr>me_total := me_total st + ?n\<rparr>, g1)
       else case ma_commit api t (hd (ct_parents ?c)) g1 of
         (None, g2) \<Rightarrow> (Inl ''github_material_unavailable'', ?st2, g2)
       | (Some parent, g2) \<Rightarrow>
           (case loadTree api t (ct_tree parent) (?st2, g2) of
              (Inl code, sg') \<Rightarrow> (Inl code, sg')
            | (Inr beforeTree, sg') \<Rightarrow>
                (case loadTree api t (ct_tree ?c) sg' of
                   (Inl code, sg'') \<Rightarrow> (Inl code, sg'')
                 | (Inr afterTree, sg'') \<Rightarrow>
                     emitPaths api t b (ct_sha ?c) beforeTree afterTree (orderedPaths beforeTree afterTree) sg'')))"
    unfolding emitCommit_def Let_def prod.case c1 option.case total sel using listed
    by (simp only: cond if_False simp_thms)
  have small_total: "me_total st + ?n \<le> tw_maxTotalBytes b" using assms(5) eq by (simp split: if_splits)
  obtain g2 where p: "ma_commit api t (hd (ct_parents ?c)) g1 = (Some ?parent, g2)"
    using assms(5) eq content_answers(1) [OF assms(2), of "hd (ct_parents ?c)" g1]
    by (cases "ma_commit api t (hd (ct_parents ?c)) g1") (auto split: if_splits option.splits)
  obtain before st3 g3 where t1: "loadTree api t (ct_tree ?parent) (?st2, g2) = (Inr before, (st3, g3))"
    using assms(5) eq p small_total by (auto split: sum.splits prod.splits)
  obtain after st4 g4 where t2: "loadTree api t (ct_tree ?c) (st3, g3) = (Inr after, (st4, g4))"
    using assms(5) eq p small_total t1 by (auto split: sum.splits prod.splits)
  have ps: "emitPaths api t b sha before after (orderedPaths before after) (st4, g4) = (Inr u, (st', g'))"
    using assms(5) eq p small_total t1 t2 c(2) by simp
  have a0: "adds G b [commitOf G sha] [] st ?st2"
    using assms(3,4) small_total c(2) by (simp add: adds_def cached_def within_def messageSum_def sizeSum_def commitOf_def)
  note a1 = loadTree_ok [OF assms(2) _ _ t1]
  have g0: "cached G b ?st2" "within b ?st2" using a0 adds_good by blast+
  have t1': "treeOf G (ct_tree ?parent) = Some before" "adds G b [] [] ?st2 st3" using a1 [OF g0] by simp_all
  have g3: "cached G b st3" "within b st3" using t1' adds_good by blast+
  have t2': "treeOf G (ct_tree ?c) = Some after" "adds G b [] [] st3 st4" using loadTree_ok [OF assms(2) g3 t2] by simp_all
  have g4: "cached G b st4" "within b st4" using t2' adds_good by blast+
  note a4 = emitPaths_ok [OF assms(1,2) g4 ps]
  have "filesOf G b sha = concat (map (pathFiles G b sha before after) (orderedPaths before after))"
    using t1'(1) t2'(1) by (simp add: filesOf_def)
  then have add: "adds G b [commitOf G sha] (filesOf G b sha) st st'"
    using adds_trans [OF adds_trans [OF adds_trans [OF a0 t1'(2)] t2'(2)] a4 [THEN conjunct2]] by simp
  have "changed (gget before path) (gget after path) \<longrightarrow> sideShown G b (gget before path) \<and> sideShown G b (gget after path)" for path
  proof (cases "path \<in> set (orderedPaths before after)")
    case True
    then show ?thesis using a4 by blast
  next
    case False
    then show ?thesis using orderedPaths_set [OF False] by (simp add: changed_def)
  qed
  then show ?thesis using c t1'(1) t2'(1) add by (auto simp: commitShown_def)
qed

lemma emitCommits_ok:
  assumes "boundsErrors b = []" and "content_addressed api t G" and "cached G b st" and "within b st"
    and "emitCommits api t b cs (st, g) = (Inr u, (st', g'))"
  shows "(\<forall>sha \<in> set cs. commitShown G b sha) \<and> adds G b (map (commitOf G) cs) (concat (map (filesOf G b) cs)) st st'"
  using assms(3-)
proof (induction cs arbitrary: st g)
  case Nil
  then show ?case by (simp add: adds_refl)
next
  case (Cons c cs)
  obtain st1 g1 where 1: "emitCommit api t b c (st, g) = (Inr (), (st1, g1))"
    and 2: "emitCommits api t b cs (st1, g1) = (Inr u, (st', g'))"
    using Cons.prems(3) by (auto split: sum.splits prod.splits)
  note a1 = emitCommit_ok [OF assms(1,2) Cons.prems(1,2) 1]
  then have good: "cached G b st1" "within b st1" using adds_good by blast+
  note a2 = Cons.IH [OF good 2]
  show ?case using a1 a2 adds_trans [of G b "[commitOf G c]" "filesOf G b c" st st1] by auto
qed

section \<open>Base64 round trip\<close>

lemma base64Value_Char: "n < 64 \<Longrightarrow> base64Value False (base64Char n) = Some n"
  by (auto simp: base64Value_def base64Char_def Let_def)

lemma base64Char_plain: "n < 64 \<Longrightarrow> base64Char n \<noteq> CHR ''='' \<and> base64Char n \<noteq> CHR 0x0A \<and> base64Char n \<noteq> CHR 0x0D"
proof -
  assume "n < 64"
  then have v: "base64Value False (base64Char n) = Some n" by (rule base64Value_Char)
  moreover have "base64Value False (CHR ''='') = None" "base64Value False (CHR 0x0A) = None" "base64Value False (CHR 0x0D) = None"
    by (simp_all add: base64Value_def)
  ultimately show ?thesis by auto
qed

lemma char_split:
  fixes a b c :: char
  defines "x \<equiv> of_char a :: nat" and "y \<equiv> of_char b :: nat" and "z \<equiv> of_char c :: nat"
  shows "x div 4 < 64" "16 * (x mod 4) + y div 16 < 64" "4 * (y mod 16) + z div 64 < 64" "z mod 64 < 64"
    "16 * (x mod 4) < 64" "4 * (y mod 16) < 64"
    "byte1 (x div 4) (16 * (x mod 4) + y div 16) = a" "byte1 (x div 4) (16 * (x mod 4)) = a"
    "byte2 (16 * (x mod 4) + y div 16) (4 * (y mod 16) + z div 64) = b"
    "byte2 (16 * (x mod 4) + y div 16) (4 * (y mod 16)) = b"
    "byte3 (4 * (y mod 16) + z div 64) (z mod 64) = c"
proof -
  have lt: "x < 256" "y < 256" "z < 256" unfolding x_def y_def z_def by (simp_all add: of_char_less_256)
  then have q: "x div 4 < 64" "y div 16 < 16" "z div 64 < 4" by (simp_all add: less_mult_imp_div_less)
  then show "x div 4 < 64" "16 * (x mod 4) + y div 16 < 64" "4 * (y mod 16) + z div 64 < 64" "z mod 64 < 64"
    "16 * (x mod 4) < 64" "4 * (y mod 16) < 64"
    using mod_less_divisor [of 4 x] mod_less_divisor [of 16 y] by simp_all
  have d: "(16 * (x mod 4) + y div 16) div 16 = x mod 4" "(16 * (x mod 4) + y div 16) mod 16 = y div 16"
    "(4 * (y mod 16) + z div 64) div 4 = y mod 16" "(4 * (y mod 16) + z div 64) mod 4 = z div 64"
    using q by simp_all
  show "byte1 (x div 4) (16 * (x mod 4) + y div 16) = a" "byte1 (x div 4) (16 * (x mod 4)) = a"
    using d by (simp_all add: byte1_def x_def)
  show "byte2 (16 * (x mod 4) + y div 16) (4 * (y mod 16) + z div 64) = b"
    "byte2 (16 * (x mod 4) + y div 16) (4 * (y mod 16)) = b"
    using d by (simp_all add: byte2_def y_def)
  show "byte3 (4 * (y mod 16) + z div 64) (z mod 64) = c"
    using d by (simp add: byte3_def z_def)
qed

lemma base64_round_trip: "base64Decode False True (base64Encode bs) = Some bs"
proof (induction bs rule: base64Encode.induct)
  case 1
  then show ?case by simp
next
  case (2 a)
  show ?case by (simp add: char_split base64Char_plain base64Value_Char)
next
  case (3 a b)
  show ?case by (simp add: char_split base64Char_plain base64Value_Char)
next
  case (4 a b c s)
  show ?case using 4 by (simp add: char_split base64Char_plain base64Value_Char)
qed

lemma base64Encode_plain: "filter (\<lambda>c. c \<noteq> CHR 0x0A \<and> c \<noteq> CHR 0x0D) (base64Encode bs) = base64Encode bs"
proof (induction bs rule: base64Encode.induct)
  case (2 a)
  show ?case by (simp add: char_split base64Char_plain)
next
  case (3 a b)
  show ?case by (simp add: char_split base64Char_plain)
next
  case (4 a b c s)
  show ?case using 4 by (simp add: char_split base64Char_plain)
qed simp

lemma blobMaterial_content:
  "blobMaterial b blob = Inr (content, n) \<Longrightarrow>
     decodeContent content = decodeContent (bl_content blob) \<and>
     (\<exists>bytes. decodeContent (bl_content blob) = Some bytes \<and> n = int (length bytes))"
  using base64_round_trip base64Encode_plain
  by (auto simp: blobMaterial_def decodeContent_def split: if_splits option.splits)

section \<open>Properties\<close>

text \<open>The response shows a side of a file at a path of a commit: with the bytes of its blob, and their number.\<close>

definition shown :: "git_objects \<Rightarrow> material_response \<Rightarrow> string \<Rightarrow> string \<Rightarrow> string \<Rightarrow> tree_node option \<Rightarrow> bool" where
  "shown G r sha path side no \<longleftrightarrow>
     (\<forall>n. no = Some n \<longrightarrow>
        (\<exists>f \<in> set (mr_files r). \<exists>bytes.
           mf_commitSHA f = sha \<and> mf_path f = path \<and> mf_side f = side \<and> mf_blobSHA f = tn_sha n \<and>
           decodeContent (mf_content f) = Some bytes \<and> mf_size f = int (length bytes) \<and>
           decodeContent (bl_content (go_blob G (tn_sha n))) = Some bytes))"

lemma sideFiles_shown:
  assumes "sideShown G b no" and "set (sideFiles G b sha path side status no) \<subseteq> set (mr_files r)"
  shows "shown G r sha path side no"
  unfolding shown_def
proof (intro allI impI)
  fix n
  assume n: "no = Some n"
  then obtain content k where m: "blobMaterial b (go_blob G (tn_sha n)) = Inr (content, k)"
    using assms(1) by (auto simp: sideShown_def)
  then obtain bytes where "decodeContent content = Some bytes" "k = int (length bytes)"
      "decodeContent (bl_content (go_blob G (tn_sha n))) = Some bytes"
    using blobMaterial_content [OF m] by auto
  moreover have "\<lparr>mf_commitSHA = sha, mf_path = path, mf_side = side, mf_status = status, mf_blobSHA = tn_sha n, mf_size = k,
      mf_content = content\<rparr> \<in> set (mr_files r)"
    using assms(2) n m by (simp add: sideFiles_def)
  ultimately show "\<exists>f \<in> set (mr_files r). \<exists>bytes.
           mf_commitSHA f = sha \<and> mf_path f = path \<and> mf_side f = side \<and> mf_blobSHA f = tn_sha n \<and>
           decodeContent (mf_content f) = Some bytes \<and> mf_size f = int (length bytes) \<and>
           decodeContent (bl_content (go_blob G (tn_sha n))) = Some bytes"
    by (intro bexI exI [of _ bytes]) simp_all
qed

lemma commitShown_shown:
  assumes "commitShown G b sha" and "set (filesOf G b sha) \<subseteq> set (mr_files r)"
  shows "\<exists>parent rest beforeTree afterTree. ct_parents (go_commit G sha) = parent # rest \<and>
     treeOf G (ct_tree (go_commit G parent)) = Some beforeTree \<and> treeOf G (ct_tree (go_commit G sha)) = Some afterTree \<and>
     (\<forall>path. changed (gget beforeTree path) (gget afterTree path) \<longrightarrow>
        shown G r sha path ''before'' (gget beforeTree path) \<and> shown G r sha path ''after'' (gget afterTree path))"
proof -
  obtain parent rest where p: "ct_parents (go_commit G sha) = parent # rest"
    using assms(1) by (cases "ct_parents (go_commit G sha)") (auto simp: commitShown_def)
  obtain before after where t: "treeOf G (ct_tree (go_commit G parent)) = Some before" "treeOf G (ct_tree (go_commit G sha)) = Some after"
    and ok: "\<And>path. changed (gget before path) (gget after path) \<Longrightarrow> sideShown G b (gget before path) \<and> sideShown G b (gget after path)"
    using assms(1) p by (auto simp: commitShown_def)
  have files: "filesOf G b sha = concat (map (pathFiles G b sha before after) (orderedPaths before after))"
    using t p by (simp add: filesOf_def)
  have "shown G r sha path ''before'' (gget before path) \<and> shown G r sha path ''after'' (gget after path)"
    if ch: "changed (gget before path) (gget after path)" for path
  proof -
    have "path \<in> set (orderedPaths before after)" using ch orderedPaths_set [of path before after] unfolding changed_def by metis
    then have "set (pathFiles G b sha before after path) \<subseteq> set (mr_files r)" using assms(2) files by auto
    then show ?thesis using ok [OF ch] ch sideFiles_shown by (auto simp: pathFiles_def Let_def)
  qed
  then show ?thesis using p t by blast
qed

text \<open>What GitHub says a push consists of: the commits between the commit before it and the one after it. A new branch has
  no commit before it, and is compared with the base branch.\<close>

definition pushed ::
  "'g material_api \<Rightarrow> api_target \<Rightarrow> tripwire_bounds \<Rightarrow> material_request \<Rightarrow> string \<Rightarrow> 'g \<Rightarrow> string list \<Rightarrow> bool" where
  "pushed api t b req base g shas \<longleftrightarrow>
     (case fst (ma_compare api t base (tm_after req) (tw_maxCommits b) g) of
        None \<Rightarrow> False
      | Some c \<Rightarrow> cm_commits c = shas \<and> cm_totalCommits c = int (length shas) \<and>
          (cm_status c = ''ahead'' \<or> tm_before req = zeroObject \<and> cm_status c = ''diverged''))"

lemma materialOf_complete:
  assumes "boundsErrors b = []" and "content_addressed api t G" and "materialOf api t b req base g = (r, g')" and "mr_complete r"
  shows "\<exists>shas. pushed api t b req base g shas \<and> shas \<noteq> [] \<and> last shas = tm_after req \<and> int (length shas) \<le> tw_maxCommits b \<and>
    mr_commits r = map (commitOf G) shas \<and> mr_files r = concat (map (filesOf G b) shas) \<and> (\<forall>sha \<in> set shas. commitShown G b sha) \<and>
    mr_bounds r = \<lparr>mb_commitCount = int (length shas), mb_pathCount = int (length (mr_files r)),
      mb_totalBytes = messageSum (mr_commits r) + sizeSum (mr_files r)\<rparr> \<and>
    int (length (mr_files r)) \<le> tw_maxPaths b \<and> messageSum (mr_commits r) + sizeSum (mr_files r) \<le> tw_maxTotalBytes b"
proof -
  obtain oc g1 where ma: "ma_compare api t base (tm_after req) (tw_maxCommits b) g = (oc, g1)" by (meson surj_pair)
  have no: "\<not> mr_complete (emptyMaterial req code)" for code by (simp add: emptyMaterial_def)
  obtain c where oc: "oc = Some c"
    using assms(3,4) ma no by (cases oc) (auto simp: materialOf_def)
  have 1: "\<not> (cm_totalCommits c > tw_maxCommits b \<or> int (length (cm_commits c)) > tw_maxCommits b)"
    using assms(3,4) ma oc no by (auto simp: materialOf_def)
  have 2: "cm_totalCommits c = int (length (cm_commits c))"
    using assms(3,4) ma oc no 1 by (auto simp: materialOf_def split: if_split_asm)
  have 3: "cm_totalCommits c \<noteq> 0" "last (cm_commits c) = tm_after req"
    "cm_status c = ''ahead'' \<or> tm_before req = zeroObject \<and> cm_status c = ''diverged''"
    using assms(3,4) ma oc no 1 2 by (auto simp: materialOf_def split: if_split_asm)
  obtain u st g2 where run: "emitCommits api t b (cm_commits c) (startState, g1) = (Inr u, (st, g2))"
    and r: "r = (emptyMaterial req []) \<lparr>mr_complete := True,
        mr_bounds := \<lparr>mb_commitCount = int (length (me_commits st)), mb_pathCount = me_paths st, mb_totalBytes = me_total st\<rparr>,
        mr_commits := me_commits st, mr_files := me_files st\<rparr>"
    using assms(3,4) ma oc no 1 2 3 by (auto simp: materialOf_def split: if_split_asm sum.splits prod.splits)
  have "cached G b startState" by (simp add: cached_def startState_def)
  moreover have "within b startState" using assms(1) by (auto simp: within_def startState_def boundsErrors_def split: if_splits)
  ultimately have "(\<forall>sha \<in> set (cm_commits c). commitShown G b sha) \<and>
      adds G b (map (commitOf G) (cm_commits c)) (concat (map (filesOf G b) (cm_commits c))) startState st"
    by (rule emitCommits_ok [OF assms(1,2) _ _ run])
  then show ?thesis
    using 1 2 3 r by (intro exI [of _ "cm_commits c"]) (auto simp: adds_def startState_def within_def pushed_def ma oc)
qed

text \<open>C29. Material that is declared complete shows the whole push. For immutable Git objects and bounds the configuration
  admits, a complete response lists all the commits that GitHub's comparison gives for the push, from the commit before it (for
  a new branch, from the head of the base branch) to the pushed one, in order, with their messages. The comparison was not cut short: it
  is ahead, or diverged for a new branch, and its total is the number of commits in it. For each commit every path at
  which its tree differs from that of its first parent is shown, with the exact bytes of each side that exists. What the response
  reports as bounds is what it contains, and that is within the configured bounds.\<close>

theorem complete_material_shows_push:
  assumes "boundsErrors b = []" and "content_addressed api t G"
    and "PushTripwireMaterial api t req baseRef b g = (r, g')" and "mr_complete r"
  shows "\<exists>shas base g0. (if tm_before req = zeroObject then GetRef api t baseRef g = (Inr (Some base), g0)
       else base = tm_before req \<and> g0 = g) \<and>
    pushed api t b req base g0 shas \<and> shas \<noteq> [] \<and> last shas = tm_after req \<and> mr_commits r = map (commitOf G) shas \<and>
    (\<forall>sha \<in> set shas. \<exists>parent rest beforeTree afterTree. ct_parents (go_commit G sha) = parent # rest \<and>
       treeOf G (ct_tree (go_commit G parent)) = Some beforeTree \<and> treeOf G (ct_tree (go_commit G sha)) = Some afterTree \<and>
       (\<forall>path. changed (gget beforeTree path) (gget afterTree path) \<longrightarrow>
          shown G r sha path ''before'' (gget beforeTree path) \<and> shown G r sha path ''after'' (gget afterTree path))) \<and>
    mr_bounds r = \<lparr>mb_commitCount = int (length shas), mb_pathCount = int (length (mr_files r)),
      mb_totalBytes = messageSum (mr_commits r) + sizeSum (mr_files r)\<rparr> \<and>
    int (length shas) \<le> tw_maxCommits b \<and> int (length (mr_files r)) \<le> tw_maxPaths b \<and>
    messageSum (mr_commits r) + sizeSum (mr_files r) \<le> tw_maxTotalBytes b"
proof -
  have no: "\<not> mr_complete (emptyMaterial req code)" for code by (simp add: emptyMaterial_def)
  obtain base g1 where m: "materialOf api t b req base g1 = (r, g')" and
    base: "if tm_before req = zeroObject then GetRef api t baseRef g = (Inr (Some base), g1) else base = tm_before req \<and> g1 = g"
    using assms(3,4) no by (auto simp: PushTripwireMaterial_def split: if_splits prod.splits sum.splits option.splits)
  from materialOf_complete [OF assms(1,2) m assms(4)] obtain shas where
    s: "pushed api t b req base g1 shas" "shas \<noteq> []" "last shas = tm_after req" "int (length shas) \<le> tw_maxCommits b"
      "mr_commits r = map (commitOf G) shas" "mr_files r = concat (map (filesOf G b) shas)" "\<forall>sha \<in> set shas. commitShown G b sha"
      "mr_bounds r = \<lparr>mb_commitCount = int (length shas), mb_pathCount = int (length (mr_files r)),
        mb_totalBytes = messageSum (mr_commits r) + sizeSum (mr_files r)\<rparr>"
      "int (length (mr_files r)) \<le> tw_maxPaths b" "messageSum (mr_commits r) + sizeSum (mr_files r) \<le> tw_maxTotalBytes b"
    by blast
  have "set (filesOf G b sha) \<subseteq> set (mr_files r)" if "sha \<in> set shas" for sha using s(6) that by auto
  then show ?thesis using s base commitShown_shown by (intro exI [of _ shas] exI [of _ base] exI [of _ g1]) blast
qed

lemma incomplete_material_is_empty:
  assumes "PushTripwireMaterial api t req baseRef b g = (r, g')" and "\<not> mr_complete r"
  shows "\<exists>code. r = emptyMaterial req code"
proof -
  have "fst (materialOf api t b req base g1) = r \<Longrightarrow> \<exists>code. r = emptyMaterial req code" for base g1
    using assms(2) by (auto simp: materialOf_def split: if_splits prod.splits sum.splits option.splits)
  then show ?thesis
    using assms(1) unfolding PushTripwireMaterial_def
    by (auto split: if_splits prod.splits sum.splits option.splits) (metis fst_conv)+
qed

definition shaOf :: "char \<Rightarrow> string" where
  "shaOf c = replicate 40 c"

definition exampleObjects :: git_objects where
  "exampleObjects = \<lparr>
     go_commit = (\<lambda>sha. if sha = shaOf (CHR ''b'') then \<lparr>ct_sha = sha, ct_message = ''add'', ct_tree = shaOf (CHR ''d''), ct_parents = [shaOf (CHR ''a'')]\<rparr>
        else \<lparr>ct_sha = sha, ct_message = [], ct_tree = shaOf (CHR ''c''), ct_parents = []\<rparr>),
     go_tree = (\<lambda>sha. \<lparr>ta_truncated = False, ta_nodes = (if sha = shaOf (CHR ''d'')
        then [\<lparr>tn_path = ''f'', tn_type = ''blob'', tn_sha = shaOf (CHR ''e'')\<rparr>] else [])\<rparr>),
     go_blob = (\<lambda>sha. \<lparr>bl_content = ''aGk='', bl_encoding = ''base64'', bl_size = 2\<rparr>)\<rparr>"

definition exampleAPI :: "unit material_api" where
  "exampleAPI = \<lparr>ma_ref = (\<lambda>t r g. (Inl ApiNotFound, g)),
     ma_compare = (\<lambda>t base head n g. (Some \<lparr>cm_totalCommits = 1, cm_status = ''ahead'', cm_commits = [head]\<rparr>, g)),
     ma_commit = (\<lambda>t sha g. (Some (go_commit exampleObjects sha), g)),
     ma_tree = (\<lambda>t sha g. (Some (go_tree exampleObjects sha), g)),
     ma_blob = (\<lambda>t sha g. (Some (go_blob exampleObjects sha), g))\<rparr>"

definition exampleMaterial :: material_request where
  "exampleMaterial = \<lparr>tm_version = ''broker/push-tripwire/v1'', tm_deliveryID = ''d1'', tm_repository = ''o/r'',
     tm_ref = ''refs/heads/x'', tm_before = shaOf (CHR ''a''), tm_after = shaOf (CHR ''b'')\<rparr>"

definition exampleBounds :: tripwire_bounds where
  "exampleBounds = \<lparr>tw_maxCommits = 10, tw_maxPaths = 20, tw_maxCommitMessageBytes = 100, tw_maxBlobBytes = 100, tw_maxTotalBytes = 1000\<rparr>"

definition exampleResult :: material_response where
  "exampleResult = fst (PushTripwireMaterial exampleAPI (''default'', ''o/r'', 1) exampleMaterial ''refs/heads/main'' exampleBounds ())"

lemma shaOf_ok: "c \<in> set ''abcdef'' \<Longrightarrow> re_match shaPattern (shaOf c)"
  by (auto simp: re_match_iff shaPattern_def acc_rep_class shaOf_def in_class_def list_all_iff del: re_match.simps)

lemma shaOf_eq [simp]: "shaOf c = shaOf d \<longleftrightarrow> c = d"
  by (simp add: shaOf_def)

lemma zeroObject_shaOf: "zeroObject = shaOf (CHR ''0'')"
  by (simp add: zeroObject_def shaOf_def)

lemma example_blob: "blobMaterial exampleBounds \<lparr>bl_content = ''aGk='', bl_encoding = ''base64'', bl_size = 2\<rparr> = Inr (''aGk='', 2)"
  by code_simp

lemma exampleResult_complete: "mr_complete exampleResult"
  by (simp add: exampleResult_def PushTripwireMaterial_def exampleMaterial_def materialOf_def exampleAPI_def zeroObject_shaOf
      emitCommit_def loadTree_def loadBlob_def shaOf_ok exampleObjects_def startState_def exampleBounds_def Let_def
      orderedPaths_def emitPath_def emitSide_def validNode_def example_blob [unfolded exampleBounds_def] wrap64_small)

theorem complete_material_shows_push_witness:
  "mr_commits exampleResult = [commitOf exampleObjects (shaOf (CHR ''b''))] \<and>
   (\<exists>f \<in> set (mr_files exampleResult). mf_path f = ''f'' \<and> decodeContent (mf_content f) = Some ''hi'')"
proof -
  let ?t = "(''default'', ''o/r'', 1)"
  have ca: "content_addressed exampleAPI ?t exampleObjects" by (simp add: content_addressed_def exampleAPI_def)
  have bounds: "boundsErrors exampleBounds = []" by (simp add: boundsErrors_def exampleBounds_def)
  have run: "PushTripwireMaterial exampleAPI ?t exampleMaterial ''refs/heads/main'' exampleBounds () =
      (exampleResult, snd (PushTripwireMaterial exampleAPI ?t exampleMaterial ''refs/heads/main'' exampleBounds ()))"
    unfolding exampleResult_def by (rule prod.collapse [symmetric])
  obtain shas base g0 where pushed: "pushed exampleAPI ?t exampleBounds exampleMaterial base g0 shas"
    and commits: "mr_commits exampleResult = map (commitOf exampleObjects) shas"
    and s: "\<forall>sha \<in> set shas. \<exists>parent rest beforeTree afterTree. ct_parents (go_commit exampleObjects sha) = parent # rest \<and>
       treeOf exampleObjects (ct_tree (go_commit exampleObjects parent)) = Some beforeTree \<and>
       treeOf exampleObjects (ct_tree (go_commit exampleObjects sha)) = Some afterTree \<and>
       (\<forall>path. changed (gget beforeTree path) (gget afterTree path) \<longrightarrow>
          shown exampleObjects exampleResult sha path ''before'' (gget beforeTree path) \<and>
          shown exampleObjects exampleResult sha path ''after'' (gget afterTree path))"
    using complete_material_shows_push [OF bounds ca run exampleResult_complete] by blast
  have one: "shas = [shaOf (CHR ''b'')]" using pushed by (simp add: pushed_def exampleAPI_def exampleMaterial_def)
  have "shaOf (CHR ''b'') \<in> set shas" using one by simp
  then obtain parent rest before after where
    p: "ct_parents (go_commit exampleObjects (shaOf (CHR ''b''))) = parent # rest"
    and t: "treeOf exampleObjects (ct_tree (go_commit exampleObjects parent)) = Some before"
      "treeOf exampleObjects (ct_tree (go_commit exampleObjects (shaOf (CHR ''b'')))) = Some after"
    and sh: "\<And>path. changed (gget before path) (gget after path) \<Longrightarrow> shown exampleObjects exampleResult (shaOf (CHR ''b'')) path ''after'' (gget after path)"
    using s by blast
  have "gget before ''f'' = None" "gget after ''f'' = Some \<lparr>tn_path = ''f'', tn_type = ''blob'', tn_sha = shaOf (CHR ''e'')\<rparr>"
    using p t by (auto simp: exampleObjects_def treeOf_def validNode_def)
  with sh [of "''f''"] obtain f bytes where "f \<in> set (mr_files exampleResult)" "mf_path f = ''f''" "decodeContent (mf_content f) = Some bytes"
      "decodeContent (bl_content (go_blob exampleObjects (shaOf (CHR ''e'')))) = Some bytes"
    by (auto simp: changed_def shown_def)
  moreover have "decodeContent (bl_content (go_blob exampleObjects (shaOf (CHR ''e'')))) = Some ''hi''" by code_simp
  ultimately show ?thesis using commits one by auto
qed

end
