(* ===== verification/Tripwire_Api.thy ===== *)
theory Tripwire_Api
  imports Scan_Material Server_Base Go_Http
begin

text \<open>
  The two endpoints of the push tripwire (\<open>handlePushTripwireMaterial\<close> and \<open>handlePushTripwireResponse\<close> in
  \<open>src/internal/server/server.go\<close>), through which the scanner fetches the material of a push and applies response
  controls. The last argument of a handler is what decoding its body strictly gives. \<open>hasStore\<close> says that the tripwire's
  store was opened; the audit event, without its free-form part, is part of the result.
\<close>

section \<open>Handlers\<close>

datatype tripwire_answer =
    TwStatus int
  | TwNotFound
  | TwMaterial material_response
  | TwResponse response_result

text \<open>\<open>decodeStrictJSON\<close>: the body is bounded by 64 KiB and holds one value without unknown fields.\<close>

definition decodeStrictJSON :: "web_request \<Rightarrow> 'a option \<Rightarrow> 'a option" where
  "decodeStrictJSON r decoded =
     (if wr_bodyFails r then None
      else if wr_bodyLength r > 65536 then None
      else decoded)"

definition tripwireRefAllowed :: "regexps \<Rightarrow> tripwire_repository \<Rightarrow> string \<Rightarrow> bool" where
  "tripwireRefAllowed re repo ref =
     list_ex (\<lambda>pattern. case re pattern of None \<Rightarrow> False | Some matches \<Rightarrow> matches ref) (tr_refPatterns repo)"

definition sameBinding :: "tripwire_binding \<Rightarrow> fence_binding \<Rightarrow> bool" where
  "sameBinding c b \<longleftrightarrow>
     tb_workerID c = fb_workerID b \<and> tb_logicalSessionID c = fb_logicalSessionID b \<and>
     tb_sessionLineageID c = fb_sessionLineageID b \<and> tb_workerStorageLineageID c = fb_workerStorageLineageID b \<and>
     tb_workerFenceEpoch c = fb_workerFenceEpoch b"

definition responseWithinReviewedScope :: "tripwire_config \<Rightarrow> response_request \<Rightarrow> bool" where
  "responseWithinReviewedScope cfg req =
     (case gget (tc_responseProfiles cfg) (tq_profile req) of
        None \<Rightarrow> False
      | Some sc \<Rightarrow>
          if tp_generation sc \<noteq> tq_profileGeneration req then False
          else if list_ex (\<lambda>action. (action = ''halt_issuance'' \<and> \<not> tp_allowHalt sc) \<or>
                (action = ''fence_worker_session'' \<and> \<not> tp_allowFence sc)) (tq_actions req) then False
          else case tq_binding req of
            None \<Rightarrow> True
          | Some b \<Rightarrow> list_ex (\<lambda>c. sameBinding c b) (tp_bindings sc))"

text \<open>The status of a failed \<open>Apply\<close>, which the handler reads off the text of the error.\<close>

definition applyStatus :: "tripwire_error \<Rightarrow> int" where
  "applyStatus e = (case e of TwKeyInvalid \<Rightarrow> 400 | TwKeyReused \<Rightarrow> 409 | _ \<Rightarrow> 500)"

definition tripwireEvent :: "string \<Rightarrow> tripwire_config \<Rightarrow> string \<Rightarrow> string \<Rightarrow> string \<Rightarrow> string \<Rightarrow> audit_event" where
  "tripwireEvent opID cfg operation repo ref result =
     (auditEvent opID (tc_scannerID cfg) operation repo ref DecisionAllow)\<lparr>au_result := result\<rparr>"

definition handlePushTripwireMaterial ::
  "'g material_api \<Rightarrow> regexps \<Rightarrow> broker_config \<Rightarrow> bool \<Rightarrow> string \<Rightarrow> web_request \<Rightarrow> material_request option \<Rightarrow> 'g \<Rightarrow>
     tripwire_answer \<times> audit_event option \<times> 'g" where
  "handlePushTripwireMaterial api re bc hasStore opID r decoded g =
     (let cfg = bc_pushTripwire bc in
      if wr_method r \<noteq> ''POST'' then (TwStatus 405, None, g)
      else if \<not> tc_enabled cfg \<or> \<not> hasStore then (TwNotFound, None, g)
      else if \<not> Authenticate (wr_authorization r) (tc_scannerSecret cfg) then (TwStatus 401, None, g)
      else case decodeStrictJSON r decoded of
        None \<Rightarrow> (TwStatus 400, None, g)
      | Some req \<Rightarrow>
          if materialValidate req \<noteq> Inr () then (TwStatus 400, None, g)
          else case gget (tc_repositories cfg) (tm_repository req) of
            None \<Rightarrow> (TwStatus 403, None, g)
          | Some repoCfg \<Rightarrow>
              if \<not> tripwireRefAllowed re repoCfg (tm_ref req) then (TwStatus 403, None, g)
              else
                (let appName = (if tr_githubApp repoCfg = [] then ''default'' else tr_githubApp repoCfg) in
                 case InstallationIDForApp (bc_github bc) appName (tm_repository req) of
                   None \<Rightarrow> (TwStatus 403, None, g)
                 | Some inst \<Rightarrow>
                     (case PushTripwireMaterial api (appName, tm_repository req, inst) req (tr_baseRef repoCfg) (tc_bounds cfg) g of
                        (out, g') \<Rightarrow>
                          (TwMaterial out,
                           Some (tripwireEvent opID cfg ''push_tripwire.material'' (tm_repository req) (tm_ref req)
                             (if mr_complete out then ''complete'' else ''incomplete'')), g'))))"

definition handlePushTripwireResponse ::
  "(response_request \<Rightarrow> string) \<Rightarrow> regexps \<Rightarrow> tripwire_config \<Rightarrow> bool \<Rightarrow> 'g fence_adapter option \<Rightarrow> string \<Rightarrow> faults \<Rightarrow>
     (nat \<Rightarrow> gotime) \<Rightarrow> web_request \<Rightarrow> string \<Rightarrow> response_request option \<Rightarrow> tripwire_store \<times> 'g \<Rightarrow>
     tripwire_answer \<times> audit_event option \<times> tripwire_store \<times> 'g" where
  "handlePushTripwireResponse hash re cfg hasStore fence opID f clk r idemKey decoded sg =
     (if wr_method r \<noteq> ''POST'' then (TwStatus 405, None, sg)
      else if \<not> tc_enabled cfg \<or> \<not> hasStore then (TwNotFound, None, sg)
      else if \<not> Authenticate (wr_authorization r) (tc_scannerSecret cfg) then (TwStatus 401, None, sg)
      else case decodeStrictJSON r decoded of
        None \<Rightarrow> (TwStatus 400, None, sg)
      | Some req \<Rightarrow>
          if responseValidate req \<noteq> Inr () then (TwStatus 400, None, sg)
          else if tq_severity req \<noteq> ''high'' then (TwStatus 403, None, sg)
          else if (case gget (tc_repositories cfg) (tq_repository req) of
                     None \<Rightarrow> True
                   | Some repoCfg \<Rightarrow> \<not> tripwireRefAllowed re repoCfg (tq_ref req)) then (TwStatus 403, None, sg)
          else if \<not> responseWithinReviewedScope cfg req then (TwStatus 403, None, sg)
          else case Apply hash f clk (trimSpace idemKey) req fence sg of
            (Inl e, sg') \<Rightarrow> (TwStatus (applyStatus e), None, sg')
          | (Inr out, sg') \<Rightarrow>
              (TwResponse out,
               Some (tripwireEvent opID cfg ''push_tripwire.respond'' (tq_repository req) (tq_ref req) ''recorded''), sg'))"

section \<open>Properties\<close>

lemma Authenticate_iff: "Authenticate header secret \<longleftrightarrow> secret \<noteq> [] \<and> header = ''Bearer '' @ secret"
proof -
  have "hasPrefix header p \<Longrightarrow> header = p @ drop (length p) header" for p
    by (metis append_take_drop_id hasPrefix_def)
  moreover have "hasPrefix (p @ x) p" for p x by (simp add: hasPrefix_def)
  ultimately show ?thesis unfolding Authenticate_def trimPrefix_def by (metis append_eq_conv_conj)
qed

text \<open>A request the scanner may make: for an action the configuration reviewed.\<close>

definition reviewed :: "regexps \<Rightarrow> tripwire_config \<Rightarrow> response_request \<Rightarrow> bool" where
  "reviewed re cfg req \<longleftrightarrow>
     tq_severity req = ''high'' \<and>
     (\<exists>repoCfg. gget (tc_repositories cfg) (tq_repository req) = Some repoCfg \<and>
        (\<exists>pattern \<in> set (tr_refPatterns repoCfg). \<exists>m. re pattern = Some m \<and> m (tq_ref req))) \<and>
     (\<exists>sc. gget (tc_responseProfiles cfg) (tq_profile req) = Some sc \<and> tp_generation sc = tq_profileGeneration req \<and>
        (''halt_issuance'' \<in> set (tq_actions req) \<longrightarrow> tp_allowHalt sc) \<and>
        (''fence_worker_session'' \<in> set (tq_actions req) \<longrightarrow> tp_allowFence sc) \<and>
        (\<forall>b. tq_binding req = Some b \<longrightarrow> (\<exists>c \<in> set (tp_bindings sc). sameBinding c b)))"

lemma tripwireRefAllowed_iff:
  "tripwireRefAllowed re repoCfg ref \<longleftrightarrow> (\<exists>pattern \<in> set (tr_refPatterns repoCfg). \<exists>m. re pattern = Some m \<and> m ref)"
  by (auto simp: tripwireRefAllowed_def list_ex_iff split: option.splits)

lemma responseWithinReviewedScope_iff:
  "responseWithinReviewedScope cfg req \<longleftrightarrow>
     (\<exists>sc. gget (tc_responseProfiles cfg) (tq_profile req) = Some sc \<and> tp_generation sc = tq_profileGeneration req \<and>
        (''halt_issuance'' \<in> set (tq_actions req) \<longrightarrow> tp_allowHalt sc) \<and>
        (''fence_worker_session'' \<in> set (tq_actions req) \<longrightarrow> tp_allowFence sc) \<and>
        (\<forall>b. tq_binding req = Some b \<longrightarrow> (\<exists>c \<in> set (tp_bindings sc). sameBinding c b)))"
proof -
  have ex: "list_ex (\<lambda>x. (x = a \<and> P) \<or> (x = b \<and> Q)) xs \<longleftrightarrow> (a \<in> set xs \<and> P) \<or> (b \<in> set xs \<and> Q)"
    for a b :: string and P Q xs
    by (induction xs) auto
  show ?thesis
    unfolding responseWithinReviewedScope_def ex
    by (cases "gget (tc_responseProfiles cfg) (tq_profile req)"; cases "tq_binding req") (simp_all add: list_ex_iff, blast?)
qed

text \<open>C30. The response endpoint does nothing that was not reviewed. When a request changes the tripwire's state, calls the
  fence or is answered as applied, it carried the scanner's secret, its body is one valid request of high severity for a
  configured repository and ref, the configuration names the exact profile generation and allows each action, a
  worker binding is one of those reviewed, and what happened is one application of this request under its idempotency key.\<close>

theorem tripwire_response_reviewed:
  assumes "handlePushTripwireResponse hash re cfg hasStore fence opID f clk r idemKey decoded sg = (ans, ev, sg')"
    and "sg' \<noteq> sg \<or> ev \<noteq> None \<or> (\<exists>out. ans = TwResponse out)"
  shows "wr_authorization r = ''Bearer '' @ tc_scannerSecret cfg \<and> tc_scannerSecret cfg \<noteq> [] \<and> tc_enabled cfg \<and>
    (\<exists>req. decoded = Some req \<and> responseValidate req = Inr () \<and> reviewed re cfg req \<and>
       sg' = snd (Apply hash f clk (trimSpace idemKey) req fence sg))"
proof -
  have "wr_method r = ''POST'' \<and> tc_enabled cfg \<and> hasStore \<and> Authenticate (wr_authorization r) (tc_scannerSecret cfg)"
    using assms by (auto simp: handlePushTripwireResponse_def split: if_split_asm)
  moreover from this obtain req where req: "decodeStrictJSON r decoded = Some req"
    using assms by (auto simp: handlePushTripwireResponse_def split: option.splits)
  ultimately have eq: "handlePushTripwireResponse hash re cfg hasStore fence opID f clk r idemKey decoded sg =
      (if responseValidate req \<noteq> Inr () then (TwStatus 400, None, sg)
          else if tq_severity req \<noteq> ''high'' then (TwStatus 403, None, sg)
          else if (case gget (tc_repositories cfg) (tq_repository req) of
                     None \<Rightarrow> True
                   | Some repoCfg \<Rightarrow> \<not> tripwireRefAllowed re repoCfg (tq_ref req)) then (TwStatus 403, None, sg)
          else if \<not> responseWithinReviewedScope cfg req then (TwStatus 403, None, sg)
          else case Apply hash f clk (trimSpace idemKey) req fence sg of
            (Inl e, sg') \<Rightarrow> (TwStatus (applyStatus e), None, sg')
          | (Inr out, sg') \<Rightarrow>
              (TwResponse out,
               Some (tripwireEvent opID cfg ''push_tripwire.respond'' (tq_repository req) (tq_ref req) ''recorded''), sg'))"
    by (simp add: handlePushTripwireResponse_def)
  have ok: "responseValidate req = Inr ()" "tq_severity req = ''high''" "responseWithinReviewedScope cfg req"
    "\<exists>repoCfg. gget (tc_repositories cfg) (tq_repository req) = Some repoCfg \<and> tripwireRefAllowed re repoCfg (tq_ref req)"
    using assms unfolding eq by (auto split: if_split_asm option.splits)
  have "sg' = snd (Apply hash f clk (trimSpace idemKey) req fence sg)"
    using assms(1) ok unfolding eq by (auto split: sum.splits prod.splits)
  moreover have "reviewed re cfg req"
    using ok by (simp add: reviewed_def tripwireRefAllowed_iff responseWithinReviewedScope_iff)
  moreover have "decoded = Some req" using req by (auto simp: decodeStrictJSON_def split: if_splits)
  ultimately show ?thesis
    using ok(1) \<open>wr_method r = ''POST'' \<and> tc_enabled cfg \<and> hasStore \<and> Authenticate (wr_authorization r) (tc_scannerSecret cfg)\<close>
    by (auto simp: Authenticate_iff)
qed

definition exampleTripwire :: tripwire_config where
  "exampleTripwire = \<lparr>tc_enabled = True, tc_scannerID = ''scanner'', tc_scannerSecret = ''s3'', tc_scannerSecretEnv = [],
     tc_statePath = ''/p'', tc_repositories = [(''o/r'', \<lparr>tr_githubApp = [], tr_baseRef = ''refs/heads/main'', tr_refPatterns = [''^refs/heads/x$'']\<rparr>)],
     tc_responseProfiles = [(''curator'', \<lparr>tp_generation = 7, tp_allowHalt = True, tp_allowFence = False,
       tp_bindings = [\<lparr>tb_workerID = ''w1'', tb_logicalSessionID = ''l1'', tb_sessionLineageID = ''s1'',
         tb_workerStorageLineageID = ''t1'', tb_workerFenceEpoch = 3\<rparr>]\<rparr>)],
     tc_bounds = exampleBounds\<rparr>"

definition exampleRegexps :: regexps where
  "exampleRegexps p = Some (\<lambda>s. s = ''refs/heads/x'')"

definition scannerPost :: web_request where
  "scannerPost = \<lparr>wr_method = ''POST'', wr_path = ''/v1/security/push-tripwire/respond'', wr_authorization = ''Bearer s3'',
     wr_bodyFails = False, wr_bodyLength = 500\<rparr>"

lemma exampleResponse_valid: "responseValidate (exampleResponse [''halt_issuance'']) = Inr ()"
proof -
  have sha: "re_match shaPattern (replicate 40 (CHR ''a''))" "re_match shaPattern (replicate 40 (CHR ''b''))"
    using shaOf_ok [of "CHR ''a''"] shaOf_ok [of "CHR ''b''"] by (simp_all add: shaOf_def)
  have ids: "re_match idPattern ''f1''" "re_match idPattern ''d1''" "re_match idPattern ''leak''"
    "re_match repoPattern ''o/r''" "re_match refPattern ''refs/heads/x''" "re_match profilePattern ''curator''"
    by code_simp+
  show ?thesis
    by (simp add: responseValidate_def exampleResponse_def tripwireVersion_def sha ids del: re_match.simps)
qed

text \<open>A request that asks for a halt only, for a profile that may not be fenced, has the worker fenced all the same, because
  it names a binding.\<close>

lemma halt_calls_the_fence:
  "\<exists>ev st. handlePushTripwireResponse hash exampleRegexps exampleTripwire True (Some loggingFence) ''op'' no_faults (\<lambda>i. 5)
      scannerPost ''k1'' (Some (exampleResponse [''halt_issuance''])) (emptyTripwire, []) =
    (TwResponse haltedResult, Some ev, (st, [(exampleBinding, ''f1'')])) \<and> ph_halts st = [(''curator'', 7, ''f1'')]"
proof -
  have apply_eq: "Apply hash no_faults (\<lambda>i. 5) ''k1'' (exampleResponse [''halt_issuance'']) (Some loggingFence) (emptyTripwire, []) =
     (Inr haltedResult,
      (emptyTripwire\<lparr>ph_halts := [(''curator'', 7, ''f1'')],
         ph_responses := [\<lparr>rw_key = ''k1'', rw_fingerprint = responseFingerprint hash (exampleResponse [''halt_issuance'']),
           rw_request = exampleResponse [''halt_issuance''], rw_response = haltedResult\<rparr>]\<rparr>, [(exampleBinding, ''f1'')]))"
    by (simp add: Apply_def applyFresh_def firstFence_def findResponse_def emptyTripwire_def key_ok no_faults_def
        exampleResponse_def registered_def insertHalt_def haltedBy_def haltedResult_def Let_def loggingFence_def markFence_def
        storeResponse_def del: re_match.simps)
  have "Authenticate ''Bearer s3'' ''s3''" "trimSpace ''k1'' = ''k1''" by code_simp+
  moreover have "responseWithinReviewedScope exampleTripwire (exampleResponse [''halt_issuance''])"
    by (simp add: responseWithinReviewedScope_def exampleTripwire_def exampleResponse_def exampleBinding_def sameBinding_def)
  moreover have "tripwireRefAllowed exampleRegexps \<lparr>tr_githubApp = [], tr_baseRef = ''refs/heads/main'', tr_refPatterns = [''^refs/heads/x$'']\<rparr> ''refs/heads/x''"
    by (simp add: tripwireRefAllowed_def exampleRegexps_def)
  moreover have "tq_severity (exampleResponse as) = ''high''" "tq_repository (exampleResponse as) = ''o/r''" "tq_ref (exampleResponse as) = ''refs/heads/x''" for as
    by (simp_all add: exampleResponse_def)
  moreover have "tc_enabled exampleTripwire" "tc_scannerSecret exampleTripwire = ''s3''"
    "tc_repositories exampleTripwire = [(''o/r'', \<lparr>tr_githubApp = [], tr_baseRef = ''refs/heads/main'', tr_refPatterns = [''^refs/heads/x$'']\<rparr>)]"
    by (simp_all add: exampleTripwire_def)
  ultimately show ?thesis
    by (simp add: handlePushTripwireResponse_def apply_eq exampleResponse_valid scannerPost_def decodeStrictJSON_def)
qed

theorem tripwire_response_reviewed_witness:
  "reviewed exampleRegexps exampleTripwire (exampleResponse [''halt_issuance'']) \<and>
   (\<exists>ev st. handlePushTripwireResponse tq_profile exampleRegexps exampleTripwire True (Some loggingFence) ''op'' no_faults (\<lambda>i. 5)
      scannerPost ''k1'' (Some (exampleResponse [''halt_issuance''])) (emptyTripwire, []) =
    (TwResponse haltedResult, Some ev, (st, [(exampleBinding, ''f1'')])))"
proof -
  obtain ev st where call: "handlePushTripwireResponse tq_profile exampleRegexps exampleTripwire True (Some loggingFence) ''op'' no_faults (\<lambda>i. 5)
      scannerPost ''k1'' (Some (exampleResponse [''halt_issuance''])) (emptyTripwire, []) =
    (TwResponse haltedResult, Some ev, (st, [(exampleBinding, ''f1'')]))" using halt_calls_the_fence by blast
  from tripwire_response_reviewed [OF this] have "reviewed exampleRegexps exampleTripwire (exampleResponse [''halt_issuance''])" by simp
  with call show ?thesis by blast
qed

end
