(* ===== verification/Server_CI.thy ===== *)
theory Server_CI
  imports Server_Base
begin

text \<open>
  The CI observation of a pull request head (\<open>handleCIObservation\<close>, \<open>requiredCI\<close>, \<open>aggregateCI\<close> and their helpers in
  \<open>src/internal/server/server.go\<close>), with what all read handlers share, \<open>withReadAccess\<close> and the classification of
  GitHub's errors, and \<open>BranchRules\<close> of \<open>src/internal/githubapp/client.go\<close>.

  The calls to GitHub are the operations of \<open>ci_api\<close> on the state behind the server's GitHub client. Of the answers the
  fields that are read have names.
\<close>

section \<open>Data\<close>

record status_context =
  sx_context :: string
  sx_state :: string

record check_run =
  ck_name :: string
  ck_status :: string
  ck_conclusion :: string
  ck_app :: "int option"

record referenced_workflow =
  rf_path :: string
  rf_ref :: string
  rf_sha :: string
  rf_repositoryID :: int

record workflow_run =
  wk_id :: int
  wk_status :: string
  wk_conclusion :: string
  wk_path :: string
  wk_referenced :: "referenced_workflow list"

record required_workflow =
  rq_path :: string
  rq_ref :: string
  rq_repositoryID :: int
  rq_sha :: string

record required_ci =
  rc_identity :: string
  rc_kind :: string
  rc_integrationID :: "int option"
  rc_workflow :: "required_workflow option"

record required_check =
  rk_context :: string
  rk_integrationID :: "int option"

record branch_rule =
  br_type :: string
  br_checks :: "required_check list"
  br_workflows :: "required_workflow list"

record legacy_checks =
  lk_contexts :: "string list"
  lk_checks :: "required_check list"

record ci_pull =
  cu_headSHA :: string
  cu_baseRef :: string
  cu_rest :: json

record ci_observation =
  ob_requestedHeadSHA :: string
  ob_pull :: ci_pull
  ob_statuses :: "status_context list"
  ob_checks :: "check_run list"
  ob_runs :: "workflow_run list"
  ob_jobs :: "json list"
  ob_rules :: "branch_rule list"
  ob_required :: "required_ci list"
  ob_aggregate :: string

datatype read_error =
    StaleHead string string
  | GitHubStatus int string
  | TimeoutError
  | OtherReadError

section \<open>What is required\<close>

text \<open>The state of the two closures of \<open>requiredCI\<close>: the keys seen and the identities collected.\<close>

definition addCheck ::
  "string \<Rightarrow> string \<Rightarrow> int option \<Rightarrow> string list \<times> required_ci list \<Rightarrow> string list \<times> required_ci list" where
  "addCheck kind name0 integrationID acc =
     (let (seen, out) = acc; name = trimSpace name0;
          ident = (case integrationID of None \<Rightarrow> [] | Some i \<Rightarrow> formatInt i);
          key = kind @ '':'' @ name @ '':'' @ ident
      in if name \<noteq> [] \<and> key \<notin> set seen
         then (key # seen, out @ [\<lparr>rc_identity = name, rc_kind = kind, rc_integrationID = integrationID, rc_workflow = None\<rparr>])
         else (seen, out))"

definition addWorkflow ::
  "required_workflow \<Rightarrow> string list \<times> required_ci list \<Rightarrow> string list \<times> required_ci list" where
  "addWorkflow w acc =
     (let (seen, out) = acc;
          key = ''workflow:'' @ rq_path w @ '':'' @ rq_ref w @ '':'' @ formatInt (rq_repositoryID w) @ '':'' @ rq_sha w
      in if rq_path w = [] then (seen, out)
         else if key \<notin> set seen
         then (key # seen, out @ [\<lparr>rc_identity = rq_path w, rc_kind = ''workflow'', rc_integrationID = None, rc_workflow = Some w\<rparr>])
         else (seen, out))"

definition addRule :: "branch_rule \<Rightarrow> string list \<times> required_ci list \<Rightarrow> string list \<times> required_ci list" where
  "addRule rule acc =
     (if br_type rule = ''required_status_checks''
      then fold (\<lambda>c. addCheck ''check'' (rk_context c) (rk_integrationID c)) (br_checks rule) acc
      else if br_type rule = ''required_workflows'' then fold addWorkflow (br_workflows rule) acc
      else acc)"

definition requiredCI :: "branch_rule list option \<Rightarrow> legacy_checks option option \<Rightarrow> required_ci list" where
  "requiredCI rules protection =
     (case rules of
        Some rs \<Rightarrow> snd (fold addRule rs ([], []))
      | None \<Rightarrow>
          (case protection of
             Some (Some p) \<Rightarrow>
               snd (fold (\<lambda>c. addCheck ''check'' (rk_context c) (rk_integrationID c)) (lk_checks p)
                 (fold (\<lambda>context. addCheck ''status'' context None) (lk_contexts p) ([], [])))
           | _ \<Rightarrow> []))"

section \<open>Which workflow ran\<close>

text \<open>\<open>strings.LastIndex s "@"\<close> and \<open>strings.Index s sub\<close>; no result is -1.\<close>

definition lastAt :: "string \<Rightarrow> int" where
  "lastAt s = (case find (\<lambda>i. s ! i = CHR 0x40) (rev [0..<length s]) of None \<Rightarrow> -1 | Some i \<Rightarrow> int i)"

definition strIndex :: "string \<Rightarrow> string \<Rightarrow> int" where
  "strIndex s sub = (case find (\<lambda>i. hasPrefix (drop i s) sub) [0..<Suc (length s)] of None \<Rightarrow> -1 | Some i \<Rightarrow> int i)"

definition fromWorkflows :: "string \<Rightarrow> string" where
  "fromWorkflows s =
     (let source = strIndex s ''.github/workflows/'' in if source > 0 then drop (nat source) s else s)"

definition splitWorkflowPathRef :: "string \<Rightarrow> string \<times> string" where
  "splitWorkflowPathRef v =
     (let at = lastAt v in
      if at > 0 then (fromWorkflows (take (nat at) v), drop (nat at + 1) v)
      else (fromWorkflows v, []))"

definition workflowRunMatches :: "required_workflow option \<Rightarrow> string \<Rightarrow> string \<Rightarrow> int \<Rightarrow> string \<Rightarrow> bool" where
  "workflowRunMatches required path0 ref0 repositoryID sha =
     (case required of
        None \<Rightarrow> False
      | Some w \<Rightarrow>
          (let (path, pathRef) = splitWorkflowPathRef path0;
               (requiredPath, requiredPathRef) = splitWorkflowPathRef (rq_path w)
           in if path \<noteq> requiredPath then False
              else
                (let ref = (if ref0 = [] then pathRef else ref0);
                     requiredRef = (if rq_ref w = [] then requiredPathRef else rq_ref w)
                 in if rq_sha w \<noteq> [] \<and> sha = [] then False
                    else (requiredRef = [] \<or> requiredRef = ref) \<and> (rq_sha w = [] \<or> rq_sha w = sha) \<and>
                         (repositoryID = 0 \<or> rq_repositoryID w = 0 \<or> rq_repositoryID w = repositoryID))))"

section \<open>The aggregate\<close>

text \<open>The state and conclusion found for a workflow: the loop over the runs, with the loop over what a run references.\<close>

fun referencedState :: "required_workflow option \<Rightarrow> workflow_run \<Rightarrow> referenced_workflow list \<Rightarrow> (string \<times> string) option" where
  "referencedState w run [] = None"
| "referencedState w run (r # rs) =
     (if workflowRunMatches w (rf_path r) (rf_ref r) (rf_repositoryID r) (rf_sha r)
      then Some (toLower (wk_status run), toLower (wk_conclusion run))
      else referencedState w run rs)"

fun workflowState :: "required_workflow option \<Rightarrow> string \<times> string \<Rightarrow> workflow_run list \<Rightarrow> string \<times> string" where
  "workflowState w acc [] = acc"
| "workflowState w acc (run # rest) =
     (if workflowRunMatches w (wk_path run) [] 0 [] then (toLower (wk_status run), toLower (wk_conclusion run))
      else
        (let acc' = (case referencedState w run (wk_referenced run) of None \<Rightarrow> acc | Some sc \<Rightarrow> sc) in
         if fst acc' \<noteq> [] then acc' else workflowState w acc' rest))"

definition statusState :: "status_context list \<Rightarrow> string \<Rightarrow> string" where
  "statusState statuses name = gstr (fold (\<lambda>s m. gput (sx_context s) (toLower (sx_state s)) m) statuses []) name"

definition ciState ::
  "status_context list \<Rightarrow> check_run list \<Rightarrow> workflow_run list \<Rightarrow> required_ci \<Rightarrow> string \<times> string" where
  "ciState statuses checks wruns r =
     (if rc_kind r = ''status'' then (statusState statuses (rc_identity r), [])
      else if rc_kind r = ''check'' then
        (case filter (\<lambda>c. ck_name c = rc_identity r) checks of
           [] \<Rightarrow> (if rc_integrationID r = None then (statusState statuses (rc_identity r), []) else ([], []))
         | candidates \<Rightarrow>
             (case find (\<lambda>c. case rc_integrationID r of None \<Rightarrow> True | Some i \<Rightarrow> ck_app c = Some i) candidates of
                None \<Rightarrow> ([], [])
              | Some c \<Rightarrow> (toLower (ck_status c), toLower (ck_conclusion c))))
      else if rc_kind r = ''workflow'' then workflowState (rc_workflow r) ([], []) wruns
      else ([], []))"

definition waitingState :: "string \<Rightarrow> bool" where
  "waitingState s \<longleftrightarrow>
     s = [] \<or> s = ''queued'' \<or> s = ''in_progress'' \<or> s = ''pending'' \<or> s = ''requested'' \<or> s = ''waiting''"

fun aggregateLoop :: "(required_ci \<Rightarrow> string \<times> string) \<Rightarrow> string \<Rightarrow> required_ci list \<Rightarrow> string" where
  "aggregateLoop stateOf result [] = result"
| "aggregateLoop stateOf result (r # rs) =
     (case stateOf r of (state, conclusion) \<Rightarrow>
        if waitingState state then aggregateLoop stateOf ''pending'' rs
        else if state = ''error'' \<or> conclusion = ''startup_failure'' \<or> conclusion = ''timed_out'' then ''infrastructure_failure''
        else if state = ''failure'' \<or> conclusion = ''failure'' \<or> conclusion = ''cancelled'' \<or> conclusion = ''action_required''
        then ''code_failure''
        else if state \<noteq> ''success'' \<and> conclusion \<noteq> ''success'' \<and> conclusion \<noteq> ''neutral'' \<and> conclusion \<noteq> ''skipped''
        then aggregateLoop stateOf ''pending'' rs
        else aggregateLoop stateOf result rs)"

definition aggregateCI ::
  "required_ci list \<Rightarrow> status_context list \<Rightarrow> check_run list \<Rightarrow> workflow_run list \<Rightarrow> string" where
  "aggregateCI required statuses checks wruns =
     (if required = [] then ''success''
      else aggregateLoop (ciState statuses checks wruns) ''success'' required)"

section \<open>Reading from GitHub\<close>

datatype 'a read_answer =
    ReadChallenge
  | ReadRefused int string decision
  | ReadOK 'a

definition rateLimited :: "int \<Rightarrow> string \<Rightarrow> bool" where
  "rateLimited status body \<longleftrightarrow>
     (if status = 429 then True
      else strIndex (toLower body) ''rate limit'' \<ge> 0 \<or> strIndex (toLower body) ''secondary rate'' \<ge> 0)"

definition classifyGitHubReadError :: "read_error \<Rightarrow> int \<times> string" where
  "classifyGitHubReadError e =
     (case e of
        StaleHead expected actual \<Rightarrow> (409, ''stale_pull_head'')
      | GitHubStatus status body \<Rightarrow>
          if status = 404 then (404, ''github_not_found'')
          else if rateLimited status body then (429, ''github_rate_limited'')
          else if status = 408 then (504, ''github_timeout'')
          else if status = 401 then (502, ''github_unauthorized'')
          else if status = 403 then (403, ''github_forbidden'')
          else if status \<ge> 500 then (502, ''github_error'')
          else (502, ''github_rejected'')
      | TimeoutError \<Rightarrow> (504, ''github_timeout'')
      | OtherReadError \<Rightarrow> (502, ''github_error''))"

definition readRequest :: "principal \<Rightarrow> string \<Rightarrow> string \<Rightarrow> string \<Rightarrow> policy_request" where
  "readRequest who repo operation branch =
     \<lparr>pr_agent = pp_agent who, pr_agentID = pp_id who, pr_repo = repo, pr_operation = operation, pr_branch = branch,
      pr_baseBranch = [], pr_permissions = [], pr_metadata = [], pr_locations = []\<rparr>"

text \<open>\<open>fn\<close> is the handler's own part, given the App and the installation.\<close>

definition withReadAccess ::
  "regexps \<Rightarrow> broker_config \<Rightarrow> http_request \<Rightarrow> string \<Rightarrow> string \<Rightarrow> string \<Rightarrow> string \<Rightarrow>
     (string \<Rightarrow> int \<Rightarrow> 'g \<Rightarrow> (read_error + 'a) \<times> 'g) \<Rightarrow> 'g server_state \<Rightarrow> 'a read_answer \<times> 'g server_state" where
  "withReadAccess re cfg r opID repo operation branch fn s =
     (case AuthenticateAgent r cfg of
        None \<Rightarrow> (ReadChallenge, s)
      | Some who \<Rightarrow>
          (let appName = GitHubAppName (pp_agent who) in
           case InstallationIDForApp (bc_github cfg) appName repo of
             None \<Rightarrow> (ReadRefused 403 ''installation_not_configured'' DecisionDeny, s)
           | Some inst \<Rightarrow>
               (let res = policyCheck re (readRequest who repo operation branch);
                    ev = auditEvent opID (pp_id who) operation repo branch (res_decision res)
                in if \<not> res_allowed res then (ReadRefused 403 ''policy_denied'' (res_decision res), logEvent ev s)
                   else case fn appName inst (sv_github s) of
                     (Inl e, g) \<Rightarrow>
                       (case classifyGitHubReadError e of (status, code) \<Rightarrow>
                          (ReadRefused status code (res_decision res), logEvent (ev\<lparr>au_error := AuGitHub code\<rparr>) (s\<lparr>sv_github := g\<rparr>)))
                   | (Inr out, g) \<Rightarrow> (ReadOK out, logEvent (ev\<lparr>au_result := ''ok''\<rparr>) (s\<lparr>sv_github := g\<rparr>)))))"

record 'g ci_api =
  ca_getPull :: "string \<Rightarrow> string \<Rightarrow> int \<Rightarrow> int \<Rightarrow> 'g \<Rightarrow> (read_error + ci_pull) \<times> 'g"
  ca_status :: "string \<Rightarrow> string \<Rightarrow> int \<Rightarrow> string \<Rightarrow> 'g \<Rightarrow> (read_error + status_context list) \<times> 'g"
  ca_checks :: "string \<Rightarrow> string \<Rightarrow> int \<Rightarrow> string \<Rightarrow> 'g \<Rightarrow> (read_error + check_run list) \<times> 'g"
  ca_runs :: "string \<Rightarrow> string \<Rightarrow> int \<Rightarrow> string \<Rightarrow> 'g \<Rightarrow> (read_error + workflow_run list) \<times> 'g"
  ca_jobs :: "string \<Rightarrow> string \<Rightarrow> int \<Rightarrow> int \<Rightarrow> 'g \<Rightarrow> (read_error + json list) \<times> 'g"
  ca_rules :: "string \<Rightarrow> string \<Rightarrow> string \<Rightarrow> int \<Rightarrow> 'g \<Rightarrow> (read_error + branch_rule list) \<times> 'g"

text \<open>\<open>BranchRules\<close> of the client: a branch whose rules are not found has none.\<close>

definition BranchRules ::
  "'g ci_api \<Rightarrow> string \<Rightarrow> string \<Rightarrow> string \<Rightarrow> int \<Rightarrow> 'g \<Rightarrow> (read_error + branch_rule list) \<times> 'g" where
  "BranchRules api appName repo branch inst g =
     (case ca_rules api appName repo branch inst g of
        (Inl (GitHubStatus status body), g') \<Rightarrow>
          if status = 404 then (Inr [], g') else (Inl (GitHubStatus status body), g')
      | (r, g') \<Rightarrow> (r, g'))"

fun collectJobs ::
  "'g ci_api \<Rightarrow> string \<Rightarrow> string \<Rightarrow> int \<Rightarrow> workflow_run list \<Rightarrow> json list \<Rightarrow> 'g \<Rightarrow> (read_error + json list) \<times> 'g" where
  "collectJobs api appName repo inst [] jobs g = (Inr jobs, g)"
| "collectJobs api appName repo inst (run # rest) jobs g =
     (case ca_jobs api appName repo inst (wk_id run) g of
        (Inl e, g') \<Rightarrow> (Inl e, g')
      | (Inr runJobs, g') \<Rightarrow>
          (let all = jobs @ runJobs in
           if length all > 1000 then (Inl OtherReadError, g')
           else collectJobs api appName repo inst rest all g'))"

definition observeRules ::
  "'g ci_api \<Rightarrow> int \<Rightarrow> string \<Rightarrow> string \<Rightarrow> string \<Rightarrow> int \<Rightarrow> ci_pull \<Rightarrow> status_context list \<Rightarrow> check_run list \<Rightarrow> workflow_run list \<Rightarrow>
     json list \<Rightarrow> 'g \<Rightarrow> (read_error + ci_observation) \<times> 'g" where
  "observeRules api number expected repo appName inst pull statuses checks wruns jobs g =
     (case BranchRules api appName repo (cu_baseRef pull) inst g of
        (Inl e, g1) \<Rightarrow> (Inl e, g1)
      | (Inr rules, g1) \<Rightarrow>
          (let required = requiredCI (Some rules) None in
           case ca_getPull api appName repo inst number g1 of
             (Inl e, g2) \<Rightarrow> (Inl e, g2)
           | (Inr current, g2) \<Rightarrow>
               if cu_headSHA current \<noteq> expected then (Inl (StaleHead expected (cu_headSHA current)), g2)
               else (Inr \<lparr>ob_requestedHeadSHA = expected, ob_pull = current, ob_statuses = statuses, ob_checks = checks,
                       ob_runs = wruns, ob_jobs = jobs, ob_rules = rules, ob_required = required,
                       ob_aggregate = aggregateCI required statuses checks wruns\<rparr>, g2)))"

definition observeCI ::
  "'g ci_api \<Rightarrow> int \<Rightarrow> string \<Rightarrow> string \<Rightarrow> string \<Rightarrow> int \<Rightarrow> 'g \<Rightarrow> (read_error + ci_observation) \<times> 'g" where
  "observeCI api number expected repo appName inst g =
     (case ca_getPull api appName repo inst number g of
        (Inl e, g1) \<Rightarrow> (Inl e, g1)
      | (Inr pull, g1) \<Rightarrow>
          if cu_headSHA pull = [] then (Inl OtherReadError, g1)
          else if cu_headSHA pull \<noteq> expected then (Inl (StaleHead expected (cu_headSHA pull)), g1)
          else case ca_status api appName repo inst (cu_headSHA pull) g1 of
            (Inl e, g2) \<Rightarrow> (Inl e, g2)
          | (Inr statuses, g2) \<Rightarrow>
              (case ca_checks api appName repo inst (cu_headSHA pull) g2 of
                 (Inl e, g3) \<Rightarrow> (Inl e, g3)
               | (Inr checks, g3) \<Rightarrow>
                   (case ca_runs api appName repo inst (cu_headSHA pull) g3 of
                      (Inl e, g4) \<Rightarrow> (Inl e, g4)
                    | (Inr wruns, g4) \<Rightarrow>
                        (case collectJobs api appName repo inst wruns [] g4 of
                           (Inl e, g5) \<Rightarrow> (Inl e, g5)
                         | (Inr jobs, g5) \<Rightarrow>
                             observeRules api number expected repo appName inst pull statuses checks wruns jobs g5))))"

definition headPattern :: re where
  "headPattern = ReRep 40 40 (ReCls [(CHR ''a'', CHR ''f''), (CHR ''0'', CHR ''9'')])"

text \<open>\<open>number\<close> is what \<open>strconv.Atoi\<close> gives for the number in the path.\<close>

definition handleCIObservation ::
  "'g ci_api \<Rightarrow> regexps \<Rightarrow> broker_config \<Rightarrow> http_request \<Rightarrow> string \<Rightarrow> string \<Rightarrow> int option \<Rightarrow> string \<Rightarrow> 'g server_state \<Rightarrow>
     ci_observation read_answer \<times> 'g server_state" where
  "handleCIObservation api re cfg r opID repo number expected s =
     (case number of
        None \<Rightarrow> (ReadRefused 400 ''invalid_request'' DecisionDeny, s)
      | Some n \<Rightarrow>
          if n < 1 then (ReadRefused 400 ''invalid_request'' DecisionDeny, s)
          else if \<not> re_match headPattern expected then (ReadRefused 400 ''invalid_requested_head_sha'' DecisionDeny, s)
          else withReadAccess re cfg r opID repo ''ci.read'' [] (observeCI api n expected repo) s)"

section \<open>Lemmas\<close>

lemma formatInt_no_colon: "CHR '':'' \<notin> set (formatInt n)"
proof -
  have digit: "char_of (48 + k) \<noteq> (CHR '':'' :: char)" if "k < 10" for k :: nat
  proof
    assume "char_of (48 + k) = (CHR '':'' :: char)"
    then have "of_char (char_of (48 + k) :: char) = (58 :: nat)" by simp
    then show False using that by simp
  qed
  have "CHR '':'' \<notin> set (nat_digits k)" for k
  proof (induction k rule: nat_digits.induct)
    case (1 k)
    show ?case using 1 digit [of k] digit [of "k mod 10"] by (subst nat_digits.simps) auto
  qed
  then show ?thesis by (simp add: formatInt_def)
qed

lemma formatInt_inj: "formatInt m = formatInt n \<Longrightarrow> m = n"
proof -
  have val: "foldl (\<lambda>a c. 10 * a + (of_char c - 48)) 0 (nat_digits k) = (k :: nat)" for k
  proof (induction k rule: nat_digits.induct)
    case (1 k)
    then show ?case by (cases "k < 10") (simp_all add: nat_digits.simps [of k])
  qed
  then have nat: "nat_digits j = nat_digits k \<Longrightarrow> j = k" for j k by metis
  have hd: "hd (nat_digits k) \<noteq> CHR ''-''" "nat_digits k \<noteq> []" for k
  proof (induction k rule: nat_digits.induct)
    case (1 k)
    have "char_of (48 + k) \<noteq> (CHR ''-'' :: char)" if "k < 10"
    proof
      assume "char_of (48 + k) = (CHR ''-'' :: char)"
      then have "of_char (char_of (48 + k) :: char) = (45 :: nat)" by simp
      then show False using that by simp
    qed
    then show "hd (nat_digits k) \<noteq> CHR ''-''" "nat_digits k \<noteq> []"
      using 1 by (simp_all add: nat_digits.simps [of k])
  qed
  have sign: "CHR ''-'' # x \<noteq> nat_digits k" for x k using hd [of k] by (metis list.sel(1))
  assume eq: "formatInt m = formatInt n"
  show "m = n"
  proof (cases "m < 0"; cases "n < 0")
    assume a: "m < 0" "n < 0"
    then have "nat (- m) = nat (- n)" using eq nat by (simp add: formatInt_def)
    then show ?thesis using a by simp
  next
    assume a: "\<not> m < 0" "\<not> n < 0"
    then have "nat m = nat n" using eq nat by (simp add: formatInt_def)
    then show ?thesis using a by simp
  qed (use eq sign sign [symmetric] in \<open>simp_all add: formatInt_def\<close>)
qed

lemma split_at_last:
  assumes "a @ c # x = b @ c # y" and "c \<notin> set x" and "c \<notin> set y"
  shows "a = b \<and> x = y"
proof -
  have tw: "c \<notin> set z \<Longrightarrow> takeWhile (\<lambda>d. d \<noteq> c) (z @ c # t) = z" for z t
    by (induction z) auto
  have "takeWhile (\<lambda>d. d \<noteq> c) (rev (a @ c # x)) = rev x" "takeWhile (\<lambda>d. d \<noteq> c) (rev (b @ c # y)) = rev y"
    using assms(2,3) tw [of "rev x"] tw [of "rev y"] by simp_all
  then have "x = y" using assms(1) by (metis rev_rev_ident)
  then show ?thesis using assms(1) by simp
qed

definition identText :: "int option \<Rightarrow> string" where
  "identText i = (case i of None \<Rightarrow> [] | Some n \<Rightarrow> formatInt n)"

lemma formatInt_nonempty: "formatInt n \<noteq> []"
  by (simp add: formatInt_def) (subst nat_digits.simps, simp)+

lemma identText_inj: "identText i = identText j \<Longrightarrow> i = j"
  using formatInt_nonempty formatInt_nonempty [symmetric] formatInt_inj by (auto simp: identText_def split: option.splits)

lemma identText_no_colon: "CHR '':'' \<notin> set (identText i)"
  using formatInt_no_colon by (simp add: identText_def split: option.splits)

definition checkKey :: "string \<Rightarrow> int option \<Rightarrow> string" where
  "checkKey name i = ''check:'' @ name @ '':'' @ identText i"

definition rowKey :: "required_ci \<Rightarrow> string" where
  "rowKey r =
     (case rc_workflow r of
        None \<Rightarrow> checkKey (rc_identity r) (rc_integrationID r)
      | Some w \<Rightarrow> ''workflow:'' @ rq_path w @ '':'' @ rq_ref w @ '':'' @ formatInt (rq_repositoryID w) @ '':'' @ rq_sha w)"

text \<open>Every key seen belongs to a collected row, and the rows come from rules.\<close>

definition collected :: "string list \<times> required_ci list \<Rightarrow> bool" where
  "collected acc \<longleftrightarrow>
     (\<forall>k \<in> set (fst acc). \<exists>r \<in> set (snd acc). rowKey r = k) \<and>
     (\<forall>r \<in> set (snd acc). rc_workflow r = None \<longrightarrow> rc_kind r = ''check'')"

definition covers :: "required_ci list \<Rightarrow> required_check \<Rightarrow> bool" where
  "covers out c \<longleftrightarrow>
     (\<exists>r \<in> set out. rc_kind r = ''check'' \<and> rc_workflow r = None \<and> rc_identity r = trimSpace (rk_context c) \<and>
        rc_integrationID r = rk_integrationID c)"

lemma checkKey_inj: "checkKey n i = checkKey m j \<Longrightarrow> n = m \<and> i = j"
  using split_at_last [of n "CHR '':''" "identText i" m "identText j"] identText_no_colon identText_inj
  by (auto simp: checkKey_def)

lemma checkKey_not_workflow: "checkKey n i \<noteq> ''workflow:'' @ x"
  by (simp add: checkKey_def)

lemma addCheck_collected:
  fixes c :: required_check
  assumes "collected acc"
  defines "acc' \<equiv> addCheck ''check'' (rk_context c) (rk_integrationID c) acc"
  shows "collected acc' \<and> set (snd acc) \<subseteq> set (snd acc') \<and> (trimSpace (rk_context c) \<noteq> [] \<longrightarrow> covers (snd acc') c)"
proof -
  obtain seen out where acc: "acc = (seen, out)" by (cases acc)
  let ?name = "trimSpace (rk_context c)"
  let ?key = "checkKey ?name (rk_integrationID c)"
  let ?row = "\<lparr>rc_identity = ?name, rc_kind = ''check'', rc_integrationID = rk_integrationID c, rc_workflow = None\<rparr>"
  have eq: "acc' = (if ?name \<noteq> [] \<and> ?key \<notin> set seen then (?key # seen, out @ [?row]) else (seen, out))"
    by (simp add: acc'_def acc addCheck_def Let_def checkKey_def identText_def)
  show ?thesis
  proof (cases "?name \<noteq> [] \<and> ?key \<notin> set seen")
    case True
    then show ?thesis using assms(1) unfolding eq acc by (auto simp: collected_def rowKey_def covers_def)
  next
    case False
    have "covers out c" if "?name \<noteq> []"
    proof -
      have "?key \<in> set seen" using False that by simp
      then obtain r where r: "r \<in> set out" "rowKey r = ?key" using assms(1) by (auto simp: collected_def acc)
      then have w: "rc_workflow r = None" using checkKey_not_workflow by (auto simp: rowKey_def split: option.splits) metis
      then have "rc_identity r = ?name \<and> rc_integrationID r = rk_integrationID c" using r(2) checkKey_inj by (simp add: rowKey_def)
      moreover have "rc_kind r = ''check''" using assms(1) r(1) w by (simp add: collected_def acc)
      ultimately show ?thesis using r(1) w by (auto simp: covers_def)
    qed
    then show ?thesis using False assms(1) by (auto simp: eq acc)
  qed
qed

lemma covers_mono: "covers out c \<Longrightarrow> set out \<subseteq> set out' \<Longrightarrow> covers out' c"
  by (auto simp: covers_def)

lemma fold_addCheck:
  fixes cs :: "required_check list"
  assumes "collected acc"
  defines "acc' \<equiv> fold (\<lambda>c. addCheck ''check'' (rk_context c) (rk_integrationID c)) cs acc"
  shows "collected acc' \<and> set (snd acc) \<subseteq> set (snd acc') \<and>
    (\<forall>c \<in> set cs. trimSpace (rk_context c) \<noteq> [] \<longrightarrow> covers (snd acc') c)"
  unfolding acc'_def using assms(1)
proof (induction cs arbitrary: acc)
  case (Cons c cs)
  note step = addCheck_collected [OF Cons.prems, of c]
  then have "collected (addCheck ''check'' (rk_context c) (rk_integrationID c) acc)" by blast
  note rest = Cons.IH [OF this]
  show ?case using step rest covers_mono by (simp (no_asm_use)) blast
qed simp

lemma addWorkflow_collected:
  assumes "collected acc"
  shows "collected (addWorkflow w acc) \<and> set (snd acc) \<subseteq> set (snd (addWorkflow w acc))"
proof -
  obtain seen out where acc: "acc = (seen, out)" by (cases acc)
  show ?thesis using assms unfolding acc addWorkflow_def Let_def by (auto simp: collected_def rowKey_def)
qed

lemma fold_addWorkflow:
  "collected acc \<Longrightarrow> collected (fold addWorkflow ws acc) \<and> set (snd acc) \<subseteq> set (snd (fold addWorkflow ws acc))"
proof (induction ws arbitrary: acc)
  case (Cons w ws)
  have "collected (addWorkflow w acc)" "set (snd acc) \<subseteq> set (snd (addWorkflow w acc))"
    using addWorkflow_collected [OF Cons.prems, of w] by simp_all
  then show ?case using Cons.IH [of "addWorkflow w acc"] by auto
qed simp

lemma addRule_collected:
  assumes "collected acc"
  shows "collected (addRule rule acc) \<and> set (snd acc) \<subseteq> set (snd (addRule rule acc)) \<and>
    (br_type rule = ''required_status_checks'' \<longrightarrow>
       (\<forall>c \<in> set (br_checks rule). trimSpace (rk_context c) \<noteq> [] \<longrightarrow> covers (snd (addRule rule acc)) c))"
  using fold_addCheck [OF assms, of "br_checks rule"] fold_addWorkflow [OF assms, of "br_workflows rule"] assms
  by (simp add: addRule_def)

lemma fold_addRule:
  assumes "collected acc"
  shows "collected (fold addRule rules acc) \<and> set (snd acc) \<subseteq> set (snd (fold addRule rules acc)) \<and>
    (\<forall>rule \<in> set rules. br_type rule = ''required_status_checks'' \<longrightarrow>
       (\<forall>c \<in> set (br_checks rule). trimSpace (rk_context c) \<noteq> [] \<longrightarrow> covers (snd (fold addRule rules acc)) c))"
  using assms
proof (induction rules arbitrary: acc)
  case (Cons rule rules)
  note step = addRule_collected [OF Cons.prems, of rule]
  then have "collected (addRule rule acc)" by blast
  note rest = Cons.IH [OF this]
  show ?case using step rest covers_mono by (simp (no_asm_use)) blast
qed simp

text \<open>A state and conclusion that let the aggregate be a success.\<close>

definition passed :: "string \<times> string \<Rightarrow> bool" where
  "passed sc \<longleftrightarrow>
     \<not> waitingState (fst sc) \<and> fst sc \<noteq> ''error'' \<and> fst sc \<noteq> ''failure'' \<and>
     snd sc \<notin> {''startup_failure'', ''timed_out'', ''failure'', ''cancelled'', ''action_required''} \<and>
     (fst sc = ''success'' \<or> snd sc \<in> {''success'', ''neutral'', ''skipped''})"

lemma aggregateLoop_success:
  "aggregateLoop f result rs = ''success'' \<longleftrightarrow> result = ''success'' \<and> (\<forall>r \<in> set rs. passed (f r))"
proof (induction rs arbitrary: result)
  case (Cons r rs)
  obtain state conclusion where "f r = (state, conclusion)" by (cases "f r")
  then show ?case using Cons.IH by (auto simp: passed_def)
qed simp

lemma aggregateCI_success:
  "aggregateCI required statuses checks wruns = ''success'' \<longleftrightarrow> (\<forall>r \<in> set required. passed (ciState statuses checks wruns r))"
  by (auto simp: aggregateCI_def aggregateLoop_success)

section \<open>Properties\<close>

text \<open>What a required check needs: a check run of that name, from the required App if one is named, that has passed; or,
  where no App is named and no check run has the name, a commit status that is a success.\<close>

definition check_passed :: "status_context list \<Rightarrow> check_run list \<Rightarrow> required_check \<Rightarrow> bool" where
  "check_passed statuses checks c \<longleftrightarrow>
     (\<exists>run \<in> set checks. ck_name run = trimSpace (rk_context c) \<and>
        (\<forall>i. rk_integrationID c = Some i \<longrightarrow> ck_app run = Some i) \<and>
        passed (toLower (ck_status run), toLower (ck_conclusion run))) \<or>
     (rk_integrationID c = None \<and> (\<forall>run \<in> set checks. ck_name run \<noteq> trimSpace (rk_context c)) \<and>
        statusState statuses (trimSpace (rk_context c)) = ''success'')"

lemma passed_status: "passed (st, []) \<Longrightarrow> st = ''success''"
  by (simp add: passed_def)

lemma passed_none: "\<not> passed ([], c)"
  by (simp add: passed_def waitingState_def)

lemma ciState_check:
  assumes "passed (ciState statuses checks wruns r)" and "rc_kind r = ''check''"
    and "rc_identity r = trimSpace (rk_context c)" and "rc_integrationID r = rk_integrationID c"
  shows "check_passed statuses checks c"
proof (cases "filter (\<lambda>k. ck_name k = rc_identity r) checks")
  case Nil
  then have no: "\<forall>run \<in> set checks. ck_name run \<noteq> rc_identity r" by (simp add: filter_empty_conv)
  have "passed (if rc_integrationID r = None then (statusState statuses (rc_identity r), []) else ([], []))"
    using assms(1,2) Nil by (simp add: ciState_def)
  then have "rc_integrationID r = None \<and> statusState statuses (rc_identity r) = ''success''"
    using passed_status passed_none by (auto split: if_splits)
  then show ?thesis using no assms(3,4) by (auto simp: check_passed_def)
next
  case (Cons k ks)
  let ?P = "\<lambda>c. case rc_integrationID r of None \<Rightarrow> True | Some i \<Rightarrow> ck_app c = Some i"
  have eq: "ciState statuses checks wruns r =
      (case find ?P (k # ks) of None \<Rightarrow> ([], []) | Some c \<Rightarrow> (toLower (ck_status c), toLower (ck_conclusion c)))"
    using assms(2) Cons by (simp add: ciState_def)
  then obtain run where run: "find ?P (k # ks) = Some run" "passed (toLower (ck_status run), toLower (ck_conclusion run))"
    using assms(1) passed_none by (cases "find ?P (k # ks)") auto
  have found: "find Q xs = Some x \<Longrightarrow> x \<in> set xs \<and> Q x" for Q xs and x :: check_run
    by (induction xs) (auto split: if_splits)
  have "run \<in> set (k # ks)" "?P run" using found [OF run(1)] by simp_all
  moreover have "set (k # ks) = {c \<in> set checks. ck_name c = rc_identity r}" using Cons by (metis set_filter)
  ultimately show ?thesis using run(2) assms(3,4) unfolding check_passed_def by (auto split: option.splits)
qed

text \<open>C31. The aggregate of a CI observation is a success only when everything that the active branch rules require has
  passed: every required check named by a rule has its own check run, from the required App, or failing that its commit
  status, that has passed, and every required identity is in a passing state; an identity without evidence, or
  waiting, or failed, is never a success.\<close>

theorem ci_success_means_required_passed:
  assumes "aggregateCI (requiredCI (Some rules) protection) statuses checks wruns = ''success''"
  shows "(\<forall>rule \<in> set rules. br_type rule = ''required_status_checks'' \<longrightarrow>
            (\<forall>c \<in> set (br_checks rule). trimSpace (rk_context c) \<noteq> [] \<longrightarrow> check_passed statuses checks c)) \<and>
         (\<forall>r \<in> set (requiredCI (Some rules) protection). passed (ciState statuses checks wruns r))"
proof -
  have req: "requiredCI (Some rules) protection = snd (fold addRule rules ([], []))" by (simp add: requiredCI_def)
  have all: "\<forall>r \<in> set (requiredCI (Some rules) protection). passed (ciState statuses checks wruns r)"
    using assms by (simp add: aggregateCI_success)
  have "collected ([], [])" by (simp add: collected_def)
  note cov = fold_addRule [OF this, of rules]
  have "check_passed statuses checks c"
    if rc: "rule \<in> set rules" "br_type rule = ''required_status_checks''" "c \<in> set (br_checks rule)" "trimSpace (rk_context c) \<noteq> []" for rule c
  proof -
    have "covers (requiredCI (Some rules) protection) c" using cov rc unfolding req by blast
    then obtain r where r: "r \<in> set (requiredCI (Some rules) protection)" "rc_kind r = ''check''"
      "rc_identity r = trimSpace (rk_context c)" "rc_integrationID r = rk_integrationID c"
      by (auto simp: covers_def)
    then show ?thesis using ciState_check all by blast
  qed
  then show ?thesis using all by blast
qed

definition buildRule :: branch_rule where
  "buildRule = \<lparr>br_type = ''required_status_checks'', br_checks = [\<lparr>rk_context = ''build'', rk_integrationID = Some 7\<rparr>], br_workflows = []\<rparr>"

definition buildRun :: "int \<Rightarrow> check_run" where
  "buildRun app = \<lparr>ck_name = ''build'', ck_status = ''completed'', ck_conclusion = ''success'', ck_app = Some app\<rparr>"

theorem ci_success_means_required_passed_witness:
  "check_passed [] [buildRun 8, buildRun 7] \<lparr>rk_context = ''build'', rk_integrationID = Some 7\<rparr>"
proof -
  have "aggregateCI (requiredCI (Some [buildRule]) None) [] [buildRun 8, buildRun 7] [] = ''success''" by code_simp
  from ci_success_means_required_passed [OF this] have
    "trimSpace ''build'' \<noteq> [] \<longrightarrow> check_passed [] [buildRun 8, buildRun 7] \<lparr>rk_context = ''build'', rk_integrationID = Some 7\<rparr>"
    by (simp add: buildRule_def)
  moreover have "trimSpace ''build'' \<noteq> []" by code_simp
  ultimately show ?thesis by blast
qed

text \<open>Where GitHub does not find the rules of the branch, everything is a success, whatever ran.\<close>

lemma rules_not_found_is_success:
  assumes "ca_rules api appName repo branch inst g = (Inl (GitHubStatus 404 body), g')"
  shows "BranchRules api appName repo branch inst g = (Inr [], g') \<and>
    aggregateCI (requiredCI (Some []) None) statuses checks wruns = ''success''"
  using assms by (simp add: BranchRules_def requiredCI_def aggregateCI_def)

text \<open>C32. A CI observation is current. When one is answered, the caller is an authenticated agent authorised to read CI;
  the requested head is a full SHA and is the pull request's head in the last answer of GitHub, after all evidence was collected; the
  statuses, check runs and workflow runs are answers for that head; and the aggregate follows from this evidence and the
  active branch rules.\<close>

theorem ci_observation_is_current:
  assumes "handleCIObservation api re cfg r opID repo number expected s = (ReadOK ob, s')"
  shows "\<exists>who inst n. AuthenticateAgent r cfg = Some who \<and> authorised re (readRequest who repo ''ci.read'' []) \<and>
    InstallationIDForApp (bc_github cfg) (GitHubAppName (pp_agent who)) repo = Some inst \<and> number = Some n \<and> 1 \<le> n \<and>
    re_match headPattern expected \<and> ob_requestedHeadSHA ob = expected \<and> cu_headSHA (ob_pull ob) = expected \<and>
    (\<exists>g. ca_getPull api (GitHubAppName (pp_agent who)) repo inst n g = (Inr (ob_pull ob), sv_github s')) \<and>
    (\<exists>g. fst (ca_status api (GitHubAppName (pp_agent who)) repo inst expected g) = Inr (ob_statuses ob)) \<and>
    (\<exists>g. fst (ca_checks api (GitHubAppName (pp_agent who)) repo inst expected g) = Inr (ob_checks ob)) \<and>
    (\<exists>g. fst (ca_runs api (GitHubAppName (pp_agent who)) repo inst expected g) = Inr (ob_runs ob)) \<and>
    (\<exists>branch g. fst (BranchRules api (GitHubAppName (pp_agent who)) repo branch inst g) = Inr (ob_rules ob)) \<and>
    ob_aggregate ob = aggregateCI (requiredCI (Some (ob_rules ob)) None) (ob_statuses ob) (ob_checks ob) (ob_runs ob)"
proof -
  obtain n where n: "number = Some n" "1 \<le> n" "re_match headPattern expected"
    and wr: "withReadAccess re cfg r opID repo ''ci.read'' [] (observeCI api n expected repo) s = (ReadOK ob, s')"
    using assms by (auto simp: handleCIObservation_def split: option.splits if_splits)
  obtain who inst where who: "AuthenticateAgent r cfg = Some who"
      "InstallationIDForApp (bc_github cfg) (GitHubAppName (pp_agent who)) repo = Some inst"
      "res_allowed (policyCheck re (readRequest who repo ''ci.read'' []))"
    and obs: "observeCI api n expected repo (GitHubAppName (pp_agent who)) inst (sv_github s) = (Inr ob, sv_github s')"
    using wr by (auto simp: withReadAccess_def Let_def logEvent_def split: option.splits if_splits prod.splits sum.splits)
  have auth: "authorised re (readRequest who repo ''ci.read'' [])" using who(3) by (simp add: policyCheck_allowed)
  let ?app = "GitHubAppName (pp_agent who)"
  obtain pull g1 statuses g2 checks g3 wruns g4 jobs g5 where
    p: "cu_headSHA pull = expected"
    and st: "ca_status api ?app repo inst expected g1 = (Inr statuses, g2)"
    and ch: "ca_checks api ?app repo inst expected g2 = (Inr checks, g3)"
    and ru: "ca_runs api ?app repo inst expected g3 = (Inr wruns, g4)"
    and rl: "observeRules api n expected repo ?app inst pull statuses checks wruns jobs g5 = (Inr ob, sv_github s')"
    using obs by (auto simp: observeCI_def split: prod.splits sum.splits if_splits)
  obtain rules g6 current where
    b: "BranchRules api ?app repo (cu_baseRef pull) inst g5 = (Inr rules, g6)"
    and cur: "ca_getPull api ?app repo inst n g6 = (Inr current, sv_github s')" "cu_headSHA current = expected"
    and ob: "ob = \<lparr>ob_requestedHeadSHA = expected, ob_pull = current, ob_statuses = statuses, ob_checks = checks,
                       ob_runs = wruns, ob_jobs = jobs, ob_rules = rules, ob_required = requiredCI (Some rules) None,
                       ob_aggregate = aggregateCI (requiredCI (Some rules) None) statuses checks wruns\<rparr>"
    using rl by (auto simp: observeRules_def Let_def split: prod.splits sum.splits if_splits)
  have "fst (ca_status api ?app repo inst expected g1) = Inr (ob_statuses ob)"
    "fst (ca_checks api ?app repo inst expected g2) = Inr (ob_checks ob)"
    "fst (ca_runs api ?app repo inst expected g3) = Inr (ob_runs ob)"
    "fst (BranchRules api ?app repo (cu_baseRef pull) inst g5) = Inr (ob_rules ob)"
    "ca_getPull api ?app repo inst n g6 = (Inr (ob_pull ob), sv_github s')"
    using st ch ru b cur ob by simp_all
  then show ?thesis using n who(1,2) auth cur(2) ob by (intro exI [of _ who] exI [of _ inst] exI [of _ n]) auto
qed

definition ciConfig :: broker_config where
  "ciConfig = exampleConfig\<lparr>bc_agents := [exampleAgent\<lparr>ag_secret := ''pw'', ag_operations := [''ci.read'']\<rparr>]\<rparr>"

definition ciHeaders :: http_request where
  "ciHeaders = \<lparr>hr_header = (\<lambda>h. if h = ''X-Agent-ID'' then ''bot'' else if h = ''X-Agent-Secret'' then ''pw'' else []), hr_basicAuth = None\<rparr>"

definition ciHead :: string where
  "ciHead = replicate 40 (CHR ''a'')"

definition ciHub :: "unit ci_api" where
  "ciHub = \<lparr>ca_getPull = (\<lambda>a r i n g. (Inr \<lparr>cu_headSHA = ciHead, cu_baseRef = ''main'', cu_rest = JNull\<rparr>, g)),
     ca_status = (\<lambda>a r i h g. (Inr [], g)), ca_checks = (\<lambda>a r i h g. (Inr [buildRun 7], g)),
     ca_runs = (\<lambda>a r i h g. (Inr [], g)), ca_jobs = (\<lambda>a r i n g. (Inr [], g)),
     ca_rules = (\<lambda>a r b i g. (Inr [buildRule], g))\<rparr>"

definition ciServer :: "unit server_state" where
  "ciServer = \<lparr>sv_limits = NoFile, sv_idem = NoFile, sv_github = (), sv_audit = []\<rparr>"

lemma ciHead_ok: "re_match headPattern ciHead"
  by (simp add: re_match_iff headPattern_def acc_rep_class ciHead_def in_class_def list_all_iff del: re_match.simps)

lemma ci_example:
  "\<exists>ob s'. handleCIObservation ciHub (\<lambda>p. None) ciConfig ciHeaders ''op'' ''acme/site'' (Some 4) ciHead ciServer = (ReadOK ob, s') \<and>
     ob_aggregate ob = ''success''"
proof -
  obtain who where who: "AuthenticateAgent ciHeaders ciConfig = Some who"
      "InstallationIDForApp (bc_github ciConfig) (GitHubAppName (pp_agent who)) ''acme/site'' = Some 11"
      "res_allowed (policyCheck (\<lambda>p. None) (readRequest who ''acme/site'' ''ci.read'' []))"
  proof -
    have "(case AuthenticateAgent ciHeaders ciConfig of None \<Rightarrow> False
      | Some who \<Rightarrow> InstallationIDForApp (bc_github ciConfig) (GitHubAppName (pp_agent who)) ''acme/site'' = Some 11 \<and>
          res_allowed (policyCheck (\<lambda>p. None) (readRequest who ''acme/site'' ''ci.read'' [])))" by code_simp
    then show thesis using that by (auto split: option.splits)
  qed
  have agg: "aggregateCI (requiredCI (Some [buildRule]) None) [] [buildRun 7] [] = ''success''" by code_simp
  have "ciHead \<noteq> []" by (simp add: ciHead_def)
  then obtain ob g where ob: "observeCI ciHub 4 ciHead ''acme/site'' (GitHubAppName (pp_agent who)) 11 () = (Inr ob, g)"
      "ob_aggregate ob = ''success''"
    using agg by (simp add: observeCI_def ciHub_def observeRules_def BranchRules_def)
  have st: "sv_github ciServer = ()" by simp
  obtain s' where "withReadAccess (\<lambda>p. None) ciConfig ciHeaders ''op'' ''acme/site'' ''ci.read'' [] (observeCI ciHub 4 ciHead ''acme/site'') ciServer =
      (ReadOK ob, s')"
    using who ob(1) unfolding withReadAccess_def Let_def st by simp
  then show ?thesis using ob(2) ciHead_ok by (simp add: handleCIObservation_def)
qed

theorem ci_observation_is_current_witness:
  "\<exists>ob s'. handleCIObservation ciHub (\<lambda>p. None) ciConfig ciHeaders ''op'' ''acme/site'' (Some 4) ciHead ciServer = (ReadOK ob, s') \<and>
     cu_headSHA (ob_pull ob) = ciHead"
  using ci_example ci_observation_is_current by metis

end
