(* ===== verification/Sandbox_Config.thy ===== *)
theory Sandbox_Config
  imports Launch_Intents Policy Release Go_Path Capability
begin

text \<open>
  The configuration of the sandbox service (\<open>src/internal/sandbox/config.go\<close>): templates, launch profiles,
  networks, credential bundles, model policies and operator principals as records, the defaults, the resolution of
  secrets, and the validation that a configuration passes before the service starts.

  Decoding the YAML text is outside the model. A validation error is the text of its message without the names that
  the message quotes; \<open>re\<close> stands for \<open>regexp.Compile\<close> and \<open>MatchString\<close> on patterns of the configuration. A value
  of type \<open>any\<close> is a \<open>json\<close>, \<open>JNull\<close> for \<open>nil\<close>; a list of strings and a list of values that are strings are the
  same to the code, and so are an integer and a float that is whole.
\<close>

section \<open>Data\<close>

record network_policy =
  nw_network :: string
  nw_none :: bool
  nw_privateBroker :: bool
  nw_egressProxy :: string
  nw_allowedTLSHosts :: "string list"
  nw_codexRelay :: bool
  nw_allowGeneralDNS :: bool
  nw_allowInternet :: bool

definition zeroNetwork :: network_policy where
  "zeroNetwork = \<lparr>nw_network = [], nw_none = False, nw_privateBroker = False, nw_egressProxy = [],
     nw_allowedTLSHosts = [], nw_codexRelay = False, nw_allowGeneralDNS = False, nw_allowInternet = False\<rparr>"

record model_mapping =
  mp_model :: string
  mp_effort :: string

record model_policy =
  mp_version :: string
  mp_mappings :: "model_mapping gomap"

record credential_bundle =
  bd_sourcePath :: string
  bd_mountPath :: string
  bd_readOnly :: bool
  bd_allowedTemplates :: "string list"
  bd_secretFiles :: "string list"
  bd_redactFiles :: "string list"

record capability_policy =
  kp_mode :: string
  kp_modelAccess :: bool
  kp_allowedModels :: "string list"
  kp_callBudget :: int
  kp_tokenBudget :: int

record extra_mount =
  xm_sourcePath :: string
  xm_mountPath :: string
  xm_readOnly :: bool

record sandbox_resources =
  rz_cpuShares :: int
  rz_memoryMB :: int
  rz_pidsLimit :: int

record branch_policy =
  bp_allowedPatterns :: "string list"
  bp_baseBranches :: "string list"
  bp_generatePrefix :: string

record sandbox_template =
  sb_image :: string
  sb_agentType :: string
  sb_entrypoint :: "string list"
  sb_command :: "string list"
  sb_user :: string
  sb_resources :: sandbox_resources
  sb_networkPolicy :: string
  sb_maxRuntimeMinutes :: int
  sb_brokerAgentID :: string
  sb_brokerAgentSecret :: string
  sb_brokerSecretEnv :: string
  sb_branchPolicy :: branch_policy
  sb_credentialBundle :: string
  sb_deliverables :: "string list"
  sb_knowledgeSnapshots :: "string list"
  sb_environment :: "string gomap"
  sb_extraMounts :: "extra_mount list"
  sb_completionStatusPath :: string
  sb_workItemInputPath :: string
  sb_storageLimitMB :: int
  sb_tmpfs :: "int gomap"
  sb_capability :: "capability_policy option"

record codex_workflow =
  cw_preparationTemplate :: string
  cw_executionTemplate :: string
  cw_recoveryTemplate :: string
  cw_deliveryTemplate :: string
  cw_modelPolicy :: string
  cw_modelProfile :: string
  cw_promptRevision :: string

record param_decl =
  pd_type :: string
  pd_required :: bool
  pd_default :: json
  pd_min :: "int option"
  pd_max :: "int option"
  pd_maxLength :: int
  pd_maxItems :: int
  pd_pattern :: string

record launch_profile =
  sp_input :: launch_input
  sp_allowOverrides :: "string list"
  sp_parameters :: "param_decl gomap"
  sp_maxConcurrentRuns :: int
  sp_requireIdempotencyKey :: bool
  sp_codexWorkflow :: "codex_workflow option"

record operator_principal =
  opp_token :: string
  opp_tokenEnv :: string
  opp_allowedProfiles :: "string list"
  opp_allowedActions :: "string list"
  opp_runScope :: string

record release_policy =
  rpol_provenanceFields :: "string list"
  rpol_platforms :: "string list"

record sandbox_config =
  sg_listen :: string
  sg_mcpPath :: string
  sg_authToken :: string
  sg_authTokenEnv :: string
  sg_runsDir :: string
  sg_launchIntentStore :: string
  sg_releaseStore :: string
  sg_capabilityStore :: string
  sg_capabilityAPIToken :: string
  sg_capabilityAPITokenEnv :: string
  sg_brokerURL :: string
  sg_production :: bool
  sg_repositories :: "string list"
  sg_networks :: "network_policy gomap"
  sg_bundles :: "credential_bundle gomap"
  sg_templates :: "sandbox_template gomap"
  sg_launchProfiles :: "launch_profile gomap"
  sg_modelPolicies :: "model_policy gomap"
  sg_masterAuthPath :: string
  sg_issuanceRoot :: string
  sg_operatorPrincipals :: "operator_principal gomap"
  sg_agentReleasePolicies :: "release_policy gomap"
  sg_maxTaskBytes :: int
  sg_maxParameterBytes :: int
  sg_logByteLimit :: int
  sg_terminalResultByteLimit :: int
  sg_releaseArtifactByteLimit :: int
  sg_stopGrace :: int
  sg_configVersion :: string

section \<open>Defaults and secrets\<close>

definition intOr :: "int \<Rightarrow> int \<Rightarrow> int" where
  "intOr x d = (if x = 0 then d else x)"

definition sb_applyDefaults :: "sandbox_config \<Rightarrow> sandbox_config" where
  "sb_applyDefaults c =
     (let runsDir = orElse (sg_runsDir c) ''/srv/hermes-sandbox-broker/runs'' in
      c\<lparr>sg_listen := orElse (sg_listen c) ''127.0.0.1:8091'',
        sg_mcpPath := orElse (sg_mcpPath c) ''/mcp'',
        sg_runsDir := runsDir,
        sg_launchIntentStore := orElse (sg_launchIntentStore c) (joinPath runsDir ''launch-intents.sqlite''),
        sg_maxTaskBytes := intOr (sg_maxTaskBytes c) 65536,
        sg_maxParameterBytes := intOr (sg_maxParameterBytes c) 16384,
        sg_logByteLimit := intOr (sg_logByteLimit c) 131072,
        sg_terminalResultByteLimit := intOr (sg_terminalResultByteLimit c) 32768,
        sg_releaseArtifactByteLimit := intOr (sg_releaseArtifactByteLimit c) 268435456,
        sg_stopGrace := intOr (sg_stopGrace c) (10 * nsPerSec)\<rparr>)"

definition sb_resolveSecrets :: "(string \<Rightarrow> string) \<Rightarrow> sandbox_config \<Rightarrow> sandbox_config" where
  "sb_resolveSecrets env c =
     c\<lparr>sg_authToken := secretFrom env (sg_authToken c) (sg_authTokenEnv c),
       sg_capabilityAPIToken := secretFrom env (sg_capabilityAPIToken c) (sg_capabilityAPITokenEnv c),
       sg_templates := map (\<lambda>(n, t). (n, t\<lparr>sb_brokerAgentSecret :=
         secretFrom env (sb_brokerAgentSecret t) (sb_brokerSecretEnv t)\<rparr>)) (sg_templates c),
       sg_operatorPrincipals := map (\<lambda>(n, p). (n, p\<lparr>opp_token := secretFrom env (opp_token p) (opp_tokenEnv p)\<rparr>))
         (sg_operatorPrincipals c)\<rparr>"

section \<open>Names and values\<close>

definition errIf :: "bool \<Rightarrow> string \<Rightarrow> string list" where
  "errIf b msg = (if b then [msg] else [])"

definition validRepo :: "string \<Rightarrow> bool" where
  "validRepo repo =
     (let parts = splitOn (CHR ''/'') repo in
      length parts = 2 \<and>
      list_all (\<lambda>p. p \<noteq> [] \<and> \<not> containsStr p ''.git'' \<and> CHR 0x5C \<notin> set p \<and> CHR '':'' \<notin> set p \<and>
                     \<not> containsStr p ''..'') parts)"

definition safeBranch :: "string \<Rightarrow> bool" where
  "safeBranch branch \<longleftrightarrow>
     \<not> (branch = [] \<or> hasPrefix branch ''/'' \<or> hasSuffix branch ''/'' \<or> containsStr branch ''..'' \<or>
        CHR 0x5C \<in> set branch \<or> list_ex (\<lambda>c. c \<in> set '' ~^:?*['') branch \<or> hasSuffix branch ''.lock'' \<or>
        containsStr branch ''//'' \<or> containsStr branch [CHR ''@'', CHR 0x7B])"

definition safeRelativePath :: "string \<Rightarrow> bool" where
  "safeRelativePath p \<longleftrightarrow>
     \<not> (p = [] \<or> isAbs p) \<and>
     (let clean = cleanPath p in
      clean \<noteq> ''.'' \<and> clean = p \<and> \<not> hasPrefix clean ''../'' \<and> clean \<noteq> ''..'')"

definition nameStart :: re where
  "nameStart = ReCls [(CHR ''A'', CHR ''Z''), (CHR ''a'', CHR ''z''), (CHR ''_'', CHR ''_'')]"

definition nameRest :: re where
  "nameRest = ReCls [(CHR ''A'', CHR ''Z''), (CHR ''a'', CHR ''z''), (CHR ''0'', CHR ''9''), (CHR ''_'', CHR ''_'')]"

definition safeParameterName :: "string \<Rightarrow> bool" where
  "safeParameterName name \<longleftrightarrow> \<not> (length name = 0 \<or> length name > 64) \<and> re_match (ReSeq nameStart (ReStar nameRest)) name"

definition toUpperChar :: "char \<Rightarrow> char" where
  "toUpperChar c = (let n = (of_char c :: nat) in if 97 \<le> n \<and> n \<le> 122 then char_of (n - 32) else c)"

definition toUpper :: "string \<Rightarrow> string" where
  "toUpper s = map toUpperChar s"

text \<open>\<open>integerValue\<close>: a number of a Go integer type, or a float that is whole and in the range.\<close>

fun integerValue :: "json \<Rightarrow> int option" where
  "integerValue (JNum i) = (if int64_range i then Some i else None)"
| "integerValue v = None"

fun allStrings :: "json list \<Rightarrow> string list option" where
  "allStrings [] = Some []"
| "allStrings (v # vs) =
     (case v of JStr s \<Rightarrow> map_option ((#) s) (allStrings vs) | _ \<Rightarrow> None)"

fun stringListValue :: "json \<Rightarrow> string list option" where
  "stringListValue (JArr vs) = allStrings vs"
| "stringListValue v = None"

datatype param_error =
    ParamsNotAllowed | ParamUnsupported | ParamMissing | ParamNotString | ParamNotList | ParamTooMany | ParamNotBool
  | ParamNotInt | ParamBelowMin | ParamAboveMax | ParamBadType | ParamTooLong | ParamBadPattern | ParamNoMatch
  | ParamsTogether

definition validateParameterString :: "regexps \<Rightarrow> param_decl \<Rightarrow> string \<Rightarrow> param_error option" where
  "validateParameterString re d v =
     (if int (length v) > pd_maxLength d then Some ParamTooLong
      else if pd_pattern d \<noteq> [] then
        (case re (pd_pattern d) of
           None \<Rightarrow> Some ParamBadPattern
         | Some matchString \<Rightarrow> if \<not> matchString v then Some ParamNoMatch else None)
      else None)"

fun firstStringError :: "regexps \<Rightarrow> param_decl \<Rightarrow> string list \<Rightarrow> param_error option" where
  "firstStringError re d [] = None"
| "firstStringError re d (v # vs) =
     (case validateParameterString re d v of Some e \<Rightarrow> Some e | None \<Rightarrow> firstStringError re d vs)"

definition normalizeParameterValue :: "regexps \<Rightarrow> param_decl \<Rightarrow> json \<Rightarrow> param_error + json" where
  "normalizeParameterValue re d v =
     (if pd_type d = ''string'' then
        (case v of
           JStr s \<Rightarrow> (case validateParameterString re d s of Some e \<Rightarrow> Inl e | None \<Rightarrow> Inr v)
         | _ \<Rightarrow> Inl ParamNotString)
      else if pd_type d = ''string_list'' then
        (case stringListValue v of
           None \<Rightarrow> Inl ParamNotList
         | Some values \<Rightarrow>
             if int (length values) > pd_maxItems d then Inl ParamTooMany
             else (case firstStringError re d values of
                Some e \<Rightarrow> Inl e
              | None \<Rightarrow> Inr (JArr (map JStr values))))
      else if pd_type d = ''boolean'' then
        (case v of JBool b \<Rightarrow> Inr v | _ \<Rightarrow> Inl ParamNotBool)
      else if pd_type d = ''integer'' then
        (case integerValue v of
           None \<Rightarrow> Inl ParamNotInt
         | Some i \<Rightarrow>
             if (case pd_min d of None \<Rightarrow> False | Some m \<Rightarrow> i < m) then Inl ParamBelowMin
             else if (case pd_max d of None \<Rightarrow> False | Some m \<Rightarrow> i > m) then Inl ParamAboveMax
             else Inr (JNum i))
      else Inl ParamBadType)"

section \<open>Validation of the parts\<close>

definition validateBundle :: "string \<Rightarrow> credential_bundle \<Rightarrow> string list" where
  "validateBundle name b =
     errIf (name = []) ''credential bundle name is required'' @
     errIf (\<not> isAbs (bd_sourcePath b)) ''credential bundle source_path must be absolute'' @
     errIf (\<not> isAbs (bd_mountPath b)) ''credential bundle mount_path must be absolute'' @
     errIf (\<not> bd_readOnly b) ''credential bundle readonly must be true'' @
     errIf (cleanPath (bd_sourcePath b) = ''/var/run/docker.sock'' \<or>
            hasPrefix (cleanPath (bd_sourcePath b)) ''/var/run/docker.sock/'')
       ''credential bundle cannot mount Docker socket'' @
     errIf (bd_mountPath b = ''/'' \<or> hasPrefix (bd_mountPath b) ''/input'' \<or> hasPrefix (bd_mountPath b) ''/work'' \<or>
            hasPrefix (bd_mountPath b) ''/output'' \<or> hasPrefix (bd_mountPath b) ''/lessons'')
       ''credential bundle mount_path conflicts with sandbox paths'' @
     concat (map (\<lambda>p. errIf (\<not> safeRelativePath p) ''credential bundle redaction path is unsafe'')
       (bd_secretFiles b @ bd_redactFiles b))"

definition validateExtraMount :: "extra_mount \<Rightarrow> string list" where
  "validateExtraMount m =
     (let source = cleanPath (xm_sourcePath m); target = cleanPath (xm_mountPath m) in
      errIf (\<not> isAbs (xm_sourcePath m)) ''source_path must be absolute'' @
      errIf (\<not> isAbs (xm_mountPath m)) ''mount_path must be absolute'' @
      errIf (source = ''/'' \<or> source = ''/var/run/docker.sock'' \<or> hasPrefix source ''/var/run/docker.sock/'')
        ''source_path is not allowed'' @
      errIf (target = ''/'' \<or> target = ''/input'' \<or> target = ''/work'' \<or> target = ''/output'' \<or> target = ''/lessons'' \<or>
             hasPrefix target ''/input/'' \<or> hasPrefix target ''/work/'' \<or> hasPrefix target ''/output/'' \<or>
             hasPrefix target ''/lessons/'')
        ''mount_path conflicts with sandbox-managed paths'')"

definition validateCompletionStatusPath :: "sandbox_template \<Rightarrow> string list" where
  "validateCompletionStatusPath t =
     (let statusPath = cleanPath (sb_completionStatusPath t) in
      if \<not> isAbs (sb_completionStatusPath t) then [''completion_status_path must be absolute'']
      else if list_ex (\<lambda>m. let target = cleanPath (xm_mountPath m) in
             \<not> xm_readOnly m \<and> (statusPath = target \<or> hasPrefix statusPath (target @ ''/''))) (sb_extraMounts t)
      then [] else [''completion_status_path must be under a writable extra_mounts target''])"

definition validateCapabilityPolicy :: "capability_policy \<Rightarrow> string list" where
  "validateCapabilityPolicy pol =
     errIf (trimSpace (kp_mode pol) = []) ''capability policy mode is required'' @
     errIf (kp_callBudget pol < 0 \<or> kp_tokenBudget pol < 0) ''capability budgets must not be negative'' @
     errIf (list_ex (\<lambda>m. trimSpace m = []) (kp_allowedModels pol)) ''capability allowed_models contains a blank entry'' @
     (if kp_modelAccess pol then
        errIf (length (kp_allowedModels pol) = 0) ''capability policy enables model access but declares no allowed_models'' @
        errIf (kp_callBudget pol \<le> 0 \<or> kp_tokenBudget pol \<le> 0)
          ''capability policy enables model access but a budget is not positive''
      else
        errIf (length (kp_allowedModels pol) \<noteq> 0) ''capability policy is model-disabled but declares allowed_models'' @
        errIf (kp_callBudget pol \<noteq> 0 \<or> kp_tokenBudget pol \<noteq> 0)
          ''capability policy is model-disabled but a budget is non-zero'')"

definition isCodexCredentialFreeTemplate :: "sandbox_config \<Rightarrow> string \<Rightarrow> bool" where
  "isCodexCredentialFreeTemplate c name =
     list_ex (\<lambda>(_, p). case sp_codexWorkflow p of
        None \<Rightarrow> False
      | Some w \<Rightarrow> cw_executionTemplate w = name \<or> cw_recoveryTemplate w = name) (sg_launchProfiles c)"

definition validateTemplate :: "regexps \<Rightarrow> sandbox_config \<Rightarrow> string \<Rightarrow> sandbox_template \<Rightarrow> string list" where
  "validateTemplate re c name t =
     (let image = trimSpace (sb_image t) in
      errIf (name = []) ''template name is required'' @
      errIf (image = [] \<and> sb_agentType t = []) ''image is required when agent_type is not set'' @
      errIf (sg_production c \<and> image \<noteq> [] \<and> \<not> containsStr image ''@sha256:'')
        ''image must be pinned by digest in production mode'' @
      (if sb_agentType t \<noteq> [] then
         errIf (\<not> re_match agentTypePattern (sb_agentType t)) ''agent_type must be kebab-case'' @
         errIf (trimSpace (sg_releaseStore c) = []) ''agent_type but release_store_path is not configured''
       else []) @
      (case sb_capability t of
         None \<Rightarrow> []
       | Some pol \<Rightarrow>
           errIf (sb_agentType t = []) ''capability policy without agent_type'' @
           errIf (trimSpace (sg_capabilityStore c) = []) ''capability policy but capability_store_path is not configured'' @
           validateCapabilityPolicy pol) @
      errIf (length (sb_command t) = 0) ''command is required'' @
      errIf (trimSpace (sb_user t) = [] \<or> sb_user t = ''0'' \<or> sb_user t = ''root'') ''must set a non-root user'' @
      (if sb_networkPolicy t = [] then [''network_policy is required'']
       else errIf (gget (sg_networks c) (sb_networkPolicy t) = None) ''unknown network_policy'') @
      errIf (sb_maxRuntimeMinutes t < 1) ''max_runtime_minutes must be positive'' @
      errIf (trimSpace (sb_brokerAgentID t) = [] \<and> \<not> isCodexCredentialFreeTemplate c name) ''broker_agent_id is required'' @
      errIf (sb_brokerAgentSecret t = [] \<and> \<not> isCodexCredentialFreeTemplate c name) ''broker_agent_secret is required'' @
      (if sb_credentialBundle t \<noteq> [] then
         (case gget (sg_bundles c) (sb_credentialBundle t) of
            None \<Rightarrow> [''unknown credential_bundle'']
          | Some b \<Rightarrow> errIf (\<not> containsItem (bd_allowedTemplates b) name) ''credential_bundle does not allow template'')
       else []) @
      concat (map (\<lambda>p. errIf (re p = None) ''invalid branch pattern'') (bp_allowedPatterns (sb_branchPolicy t))) @
      concat (map (\<lambda>p. errIf (\<not> isAbs p) ''knowledge snapshot must be absolute'') (sb_knowledgeSnapshots t)) @
      concat (map validateExtraMount (sb_extraMounts t)) @
      (if sb_completionStatusPath t \<noteq> [] then validateCompletionStatusPath t else []) @
      errIf (sb_workItemInputPath t \<noteq> [] \<and> sb_workItemInputPath t \<noteq> ''/input/work-item.json'')
        ''work_item_input_path must be /input/work-item.json'' @
      errIf (sb_storageLimitMB t < 0) ''storage_limit_mb must not be negative'' @
      concat (map (\<lambda>(target, sizeMB). errIf (\<not> isAbs target \<or> target = ''/'' \<or> sizeMB < 1)
        ''tmpfs entry must be an absolute non-root path with a positive MiB bound'') (sb_tmpfs t)))"

definition validateParameterDeclaration :: "regexps \<Rightarrow> string \<Rightarrow> param_decl \<Rightarrow> string list" where
  "validateParameterDeclaration re name d =
     errIf (\<not> safeParameterName name) ''parameter has invalid name'' @
     (if pd_type d = ''string'' then errIf (pd_maxLength d < 1) ''parameter max_length must be positive''
      else if pd_type d = ''string_list'' then
        errIf (pd_maxItems d < 1) ''parameter max_items must be positive'' @
        errIf (pd_maxLength d < 1) ''parameter max_length must be positive''
      else if pd_type d = ''boolean'' then []
      else if pd_type d = ''integer'' then
        errIf (case (pd_min d, pd_max d) of (Some lo, Some hi) \<Rightarrow> lo > hi | _ \<Rightarrow> False) ''parameter min must not exceed max''
      else [''parameter has unsupported type'']) @
     errIf (pd_pattern d \<noteq> [] \<and> re (pd_pattern d) = None) ''parameter has invalid pattern'' @
     (if pd_default d \<noteq> JNull then
        (case normalizeParameterValue re d (pd_default d) of Inl e \<Rightarrow> [''parameter default is invalid''] | Inr _ \<Rightarrow> [])
      else [])"

definition launchOverrideFieldAllowed :: "string \<Rightarrow> bool" where
  "launchOverrideFieldAllowed field =
     containsItem [''task'', ''focus'', ''deliverables'', ''max_runtime_minutes'', ''max_runtime_seconds'', ''branch'',
       ''base_branch'', ''repo'', ''template''] field"

text \<open>The products of a duration wrap around.\<close>

definition minutes :: "int \<Rightarrow> int" where
  "minutes m = wrap64 (m * (60 * nsPerSec))"

definition seconds :: "int \<Rightarrow> int" where
  "seconds n = wrap64 (n * nsPerSec)"

definition validateCodexTemplateSurface :: "string \<Rightarrow> sandbox_template \<Rightarrow> string list" where
  "validateCodexTemplateSurface phase t =
     concat (map (\<lambda>(key, _). let upper = toUpper key in
       errIf (hasPrefix upper ''OPENAI_'' \<or> hasPrefix upper ''CODEX_'' \<or>
              (phase = ''recovery'' \<and> hasPrefix upper ''BROKER_'') \<or> upper = ''HTTP_PROXY'' \<or> upper = ''HTTPS_PROXY'' \<or>
              upper = ''ALL_PROXY'' \<or> upper = ''NO_PROXY'')
         ''template cannot configure credential or proxy environment'') (sb_environment t)) @
     concat (map (\<lambda>m. let target = cleanPath (xm_mountPath m) in
       concat (map (\<lambda>forbidden. errIf (pathWithin target forbidden) ''template cannot configure mount target'')
         [''/credentials'', ''/run/codex-issuance'', ''/dev/shm''])) (sb_extraMounts t))"

definition networkOf :: "sandbox_config \<Rightarrow> sandbox_template \<Rightarrow> network_policy" where
  "networkOf c t = (case gget (sg_networks c) (sb_networkPolicy t) of None \<Rightarrow> zeroNetwork | Some n \<Rightarrow> n)"

definition privateBrokerOnly :: "sandbox_config \<Rightarrow> sandbox_template \<Rightarrow> bool" where
  "privateBrokerOnly c t \<longleftrightarrow>
     \<not> (sb_credentialBundle t \<noteq> [] \<or> sb_brokerAgentID t = [] \<or> sb_brokerAgentSecret t = [] \<or>
        nw_egressProxy (networkOf c t) \<noteq> [] \<or> nw_codexRelay (networkOf c t) \<or> \<not> nw_privateBroker (networkOf c t) \<or>
        length (nw_allowedTLSHosts (networkOf c t)) \<noteq> 0)"

definition preparationErrors :: "sandbox_config \<Rightarrow> sandbox_template option \<Rightarrow> string list" where
  "preparationErrors c p =
     (case p of
        None \<Rightarrow> []
      | Some t \<Rightarrow>
          errIf (\<not> privateBrokerOnly c t) ''preparation template must use private broker credentials only'' @
          validateCodexTemplateSurface ''preparation'' t)"

definition executionErrors :: "sandbox_config \<Rightarrow> sandbox_template option \<Rightarrow> string list" where
  "executionErrors c p =
     (case p of
        None \<Rightarrow> []
      | Some t \<Rightarrow>
          errIf (sb_credentialBundle t \<noteq> [] \<or> sb_brokerAgentID t \<noteq> [] \<or> sb_brokerAgentSecret t \<noteq> [] \<or>
                 nw_privateBroker (networkOf c t) \<or> \<not> nw_codexRelay (networkOf c t) \<or>
                 nw_egressProxy (networkOf c t) \<noteq> [] \<or> length (nw_allowedTLSHosts (networkOf c t)) \<noteq> 0)
            ''execution template must have no broker agent credential and use the relay only'' @
          errIf (gint (sb_tmpfs t) ''/dev/shm'' < 1 \<or> sb_storageLimitMB t < 1)
            ''execution template requires bounded /dev/shm tmpfs and storage'' @
          validateCodexTemplateSurface ''execution'' t)"

definition deliveryErrors :: "sandbox_config \<Rightarrow> sandbox_template option \<Rightarrow> string list" where
  "deliveryErrors c p =
     (case p of
        None \<Rightarrow> []
      | Some t \<Rightarrow>
          errIf (\<not> privateBrokerOnly c t) ''delivery template must use private broker credentials only'' @
          validateCodexTemplateSurface ''delivery'' t)"

definition recoveryErrors :: "sandbox_config \<Rightarrow> sandbox_template option \<Rightarrow> string list" where
  "recoveryErrors c p =
     (case p of
        None \<Rightarrow> []
      | Some t \<Rightarrow>
          errIf (sb_credentialBundle t \<noteq> [] \<or> sb_brokerAgentID t \<noteq> [] \<or> sb_brokerAgentSecret t \<noteq> [] \<or>
                 nw_privateBroker (networkOf c t) \<or> nw_codexRelay (networkOf c t) \<or>
                 nw_egressProxy (networkOf c t) \<noteq> [] \<or> length (nw_allowedTLSHosts (networkOf c t)) \<noteq> 0)
            ''recovery template must be credential-free'' @
          validateCodexTemplateSurface ''recovery'' t @
          errIf (length (sb_extraMounts t) \<noteq> 0) ''recovery template must not configure extra_mounts'')"

definition workflowParameterErrors :: "launch_profile \<Rightarrow> string list" where
  "workflowParameterErrors p =
     errIf (case gget (sp_parameters p) ''issue_number'' of None \<Rightarrow> True | Some d \<Rightarrow> pd_type d \<noteq> ''integer'')
       ''requires typed parameter issue_number'' @
     errIf (case gget (sp_parameters p) ''source_delivery_id'' of None \<Rightarrow> True | Some d \<Rightarrow> pd_type d \<noteq> ''string'')
       ''requires typed parameter source_delivery_id'' @
     errIf (case gget (sp_parameters p) ''repair_pr_number'' of
              None \<Rightarrow> True
            | Some d \<Rightarrow> pd_type d \<noteq> ''integer'' \<or> pd_required d \<or> pd_default d \<noteq> JNull \<or> pd_min d \<noteq> Some 1)
       ''requires optional positive-integer parameter'' @
     errIf (case gget (sp_parameters p) ''expected_head_sha'' of
              None \<Rightarrow> True
            | Some d \<Rightarrow> pd_type d \<noteq> ''string'' \<or> pd_required d \<or> pd_default d \<noteq> JNull \<or> pd_maxLength d \<noteq> 40 \<or>
                pd_pattern d \<noteq> ''^[a-f0-9]{40}$'')
       ''requires optional lowercase-SHA parameter'' @
     errIf (sp_allowOverrides p \<noteq> [''max_runtime_seconds'']) ''must allow only the max_runtime_seconds deadline override''"

definition validateCodexIssueWorkflow :: "sandbox_config \<Rightarrow> string \<Rightarrow> launch_profile \<Rightarrow> codex_workflow \<Rightarrow> string list" where
  "validateCodexIssueWorkflow c name p w =
     (let prep = gget (sg_templates c) (cw_preparationTemplate w);
          exec = gget (sg_templates c) (cw_executionTemplate w);
          delivery = gget (sg_templates c) (cw_deliveryTemplate w);
          recovery = gget (sg_templates c) (cw_recoveryTemplate w)
      in errIf (\<not> sp_requireIdempotencyKey p) ''codex_issue_workflow requires idempotency'' @
         errIf (sp_maxConcurrentRuns p \<noteq> 1) ''codex_issue_workflow requires max_concurrent_runs: 1'' @
         errIf (prep = None) ''unknown preparation_template'' @
         errIf (exec = None) ''unknown execution_template'' @
         errIf (delivery = None) ''unknown delivery_template'' @
         errIf (recovery = None) ''unknown recovery_template'' @
         errIf (cw_preparationTemplate w = cw_executionTemplate w \<or> cw_preparationTemplate w = cw_deliveryTemplate w \<or>
                cw_executionTemplate w = cw_deliveryTemplate w \<or> cw_recoveryTemplate w = cw_preparationTemplate w \<or>
                cw_recoveryTemplate w = cw_executionTemplate w \<or> cw_recoveryTemplate w = cw_deliveryTemplate w)
           ''requires distinct preparation, execution, recovery, and delivery templates'' @
         errIf (la_template (sp_input p) \<noteq> cw_executionTemplate w) ''template must equal its execution_template'' @
         (case gget (sg_modelPolicies c) (cw_modelPolicy w) of
            None \<Rightarrow> [''unknown model_policy'']
          | Some pol \<Rightarrow> errIf (gget (mp_mappings pol) (cw_modelProfile w) = None) ''model_profile is not in its reviewed policy'') @
         errIf (name \<noteq> ''terra-medium-v1'' \<or> cw_modelProfile w \<noteq> ''terra-medium-v1'') ''unsupported launch profile'' @
         errIf (cw_promptRevision w = []) ''prompt_revision is required'' @
         errIf (trimSpace (la_verificationTask (sp_input p)) = []) ''codex_issue_workflow requires a verification_task'' @
         preparationErrors c prep @ executionErrors c exec @ deliveryErrors c delivery @ recoveryErrors c recovery @
         workflowParameterErrors p)"

definition templateLimitErrors :: "regexps \<Rightarrow> launch_input \<Rightarrow> sandbox_template \<Rightarrow> string list" where
  "templateLimitErrors re i t =
     (let bp = sb_branchPolicy t in
      errIf (length (bp_baseBranches bp) > 0 \<and> \<not> containsItem (bp_baseBranches bp) (la_baseBranch i))
        ''base_branch is not allowed by template'' @
      (if la_branch i \<noteq> [] then
         (if \<not> safeBranch (la_branch i) then [''branch is unsafe'']
          else errIf (length (bp_allowedPatterns bp) > 0 \<and> \<not> matchesAny re (bp_allowedPatterns bp) (la_branch i))
            ''branch does not match template branch policy'')
       else []) @
      errIf (la_maxRuntimeMinutes i \<noteq> 0 \<and> la_maxRuntimeSeconds i \<noteq> 0)
        ''must set only one of max_runtime_minutes or max_runtime_seconds'' @
      errIf (la_maxRuntimeMinutes i < 0 \<or> la_maxRuntimeMinutes i > sb_maxRuntimeMinutes t)
        ''max_runtime_minutes must be in the range of the template when set'' @
      errIf (la_maxRuntimeSeconds i < 0 \<or> seconds (la_maxRuntimeSeconds i) > minutes (sb_maxRuntimeMinutes t))
        ''max_runtime_seconds must not exceed template max_runtime_minutes when set'')"

definition validateLaunchProfile :: "regexps \<Rightarrow> sandbox_config \<Rightarrow> string \<Rightarrow> launch_profile \<Rightarrow> string list" where
  "validateLaunchProfile re c name p =
     (let i = sp_input p in
      errIf (name = []) ''launch profile name is required'' @
      (if trimSpace (la_template i) = [] then [''launch profile template is required'']
       else errIf (gget (sg_templates c) (la_template i) = None) ''unknown template'') @
      (if \<not> validRepo (la_repo i) then [''repo must be owner/repo'']
       else errIf (\<not> containsFold (sg_repositories c) (la_repo i)) ''repo is not allowed'') @
      (if trimSpace (la_task i) = [] then [''task is required'']
       else errIf (int (length (la_task i)) > sg_maxTaskBytes c) ''task exceeds max_task_bytes'') @
      errIf (int (length (la_verificationTask i)) > sg_maxTaskBytes c) ''verification_task exceeds max_task_bytes'' @
      errIf (trimSpace (la_baseBranch i) = []) ''base_branch is required'' @
      errIf (sp_maxConcurrentRuns p < 0) ''max_concurrent_runs must not be negative'' @
      (case gget (sg_templates c) (la_template i) of None \<Rightarrow> [] | Some t \<Rightarrow> templateLimitErrors re i t) @
      concat (map (\<lambda>f. errIf (\<not> launchOverrideFieldAllowed f) ''allow_overrides contains unsupported field'')
        (sp_allowOverrides p)) @
      concat (map (\<lambda>(n, d). validateParameterDeclaration re n d) (sp_parameters p)) @
      (case sp_codexWorkflow p of None \<Rightarrow> [] | Some w \<Rightarrow> validateCodexIssueWorkflow c name p w))"

definition expectedMappings :: "model_mapping gomap" where
  "expectedMappings =
     [(''luna-medium-v1'', \<lparr>mp_model = ''gpt-5.6-luna'', mp_effort = ''medium''\<rparr>),
      (''luna-high-v1'', \<lparr>mp_model = ''gpt-5.6-luna'', mp_effort = ''high''\<rparr>),
      (''terra-medium-v1'', \<lparr>mp_model = ''gpt-5.6-terra'', mp_effort = ''medium''\<rparr>),
      (''terra-high-v1'', \<lparr>mp_model = ''gpt-5.6-terra'', mp_effort = ''high''\<rparr>),
      (''sol-high-v1'', \<lparr>mp_model = ''gpt-5.6-sol'', mp_effort = ''high''\<rparr>)]"

definition validateModelPolicy :: "string \<Rightarrow> model_policy \<Rightarrow> string list" where
  "validateModelPolicy name pol =
     errIf (name = [] \<or> mp_version pol \<noteq> ''codex-model-policy/v1'') ''model policy must use version codex-model-policy/v1'' @
     errIf (length (mp_mappings pol) \<noteq> length expectedMappings) ''model policy must contain exactly the reviewed mappings'' @
     concat (map (\<lambda>(profile, want). errIf (gget (mp_mappings pol) profile \<noteq> Some want) ''mapping must resolve exactly'')
       expectedMappings) @
     concat (map (\<lambda>(profile, _). errIf (gget expectedMappings profile = None) ''model policy contains unsupported mapping'')
       (mp_mappings pol))"

definition hasCodexWorkflow :: "launch_profile gomap \<Rightarrow> bool" where
  "hasCodexWorkflow profiles = list_ex (\<lambda>(_, p). sp_codexWorkflow p \<noteq> None) profiles"

definition validOperatorAction :: "string \<Rightarrow> bool" where
  "validOperatorAction action =
     containsItem [''launch'', ''dry_run'', ''status'', ''logs'', ''artifacts'', ''terminal_result'', ''stop'', ''cleanup'',
       ''release.publish'', ''release.promote'', ''release.rollback''] action"

definition principalRequiresLaunchProfiles :: "string list \<Rightarrow> bool" where
  "principalRequiresLaunchProfiles actions = list_ex (\<lambda>a. \<not> hasPrefix a ''release.'') actions"

definition validateOperatorPrincipal :: "sandbox_config \<Rightarrow> string \<Rightarrow> operator_principal \<Rightarrow> string list" where
  "validateOperatorPrincipal c name p =
     errIf (name = []) ''operator principal name is required'' @
     errIf (trimSpace (opp_token p) = []) ''operator principal token or token_env is required'' @
     errIf (principalRequiresLaunchProfiles (opp_allowedActions p) \<and> length (opp_allowedProfiles p) = 0)
       ''allowed_profiles must not be empty'' @
     concat (map (\<lambda>profile. errIf (gget (sg_launchProfiles c) profile = None) ''unknown launch profile'')
       (opp_allowedProfiles p)) @
     errIf (length (opp_allowedActions p) = 0) ''allowed_actions must not be empty'' @
     concat (map (\<lambda>a. errIf (\<not> validOperatorAction a) ''unsupported action'') (opp_allowedActions p)) @
     errIf (containsItem (opp_allowedActions p) ''release.promote'' \<and> length (opp_allowedActions p) \<noteq> 1)
       ''must grant release.promote and no other action'' @
     errIf (containsItem (opp_allowedActions p) ''release.publish'' \<and> length (opp_allowedActions p) \<noteq> 1)
       ''must grant release.publish and no other action'' @
     errIf (opp_runScope p \<noteq> [] \<and> opp_runScope p \<noteq> ''owned'' \<and> opp_runScope p \<noteq> ''profile'')
       ''run_scope must be owned or profile''"

section \<open>Validation of a configuration\<close>

definition validateNetwork :: "string \<Rightarrow> network_policy \<Rightarrow> string list" where
  "validateNetwork name n =
     errIf (name = []) ''network policy name is required'' @
     errIf (nw_none n \<and> nw_network n \<noteq> []) ''network policy cannot set both none and network'' @
     errIf (\<not> nw_none n \<and> nw_network n = []) ''network policy must set network or none'' @
     errIf (equalFold (nw_network n) ''host'' \<or> hasPrefix (nw_network n) ''container:'')
       ''network policy cannot use host or container network namespace'' @
     errIf (nw_allowGeneralDNS n \<or> nw_allowInternet n) ''network policy cannot allow general DNS or internet'' @
     errIf (nw_egressProxy n \<noteq> [] \<and> \<not> hasPrefix (nw_egressProxy n) ''http://'')
       ''network policy egress_proxy must be an internal http URL''"

definition serviceErrors :: "sandbox_config \<Rightarrow> string list" where
  "serviceErrors c =
     errIf (trimSpace (sg_authToken c) = []) ''auth_token or auth_token_env is required'' @
     errIf (trimSpace (sg_brokerURL c) = []) ''broker_url is required'' @
     errIf (\<not> isAbs (sg_runsDir c)) ''runs_dir must be an absolute path'' @
     errIf (sg_launchIntentStore c \<noteq> [] \<and> \<not> isAbs (sg_launchIntentStore c)) ''launch_intent_store_path must be absolute'' @
     errIf (sg_releaseStore c \<noteq> [] \<and> \<not> isAbs (sg_releaseStore c)) ''release_store_path must be absolute'' @
     (if sg_capabilityStore c \<noteq> [] then
        errIf (\<not> isAbs (sg_capabilityStore c)) ''capability_store_path must be absolute'' @
        errIf (trimSpace (sg_capabilityAPIToken c) = []) ''capability_store_path requires capability_api_token''
      else []) @
     errIf (sg_maxTaskBytes c < 1) ''max_task_bytes must be positive'' @
     errIf (sg_maxParameterBytes c < 1) ''max_parameter_bytes must be positive'' @
     errIf (sg_logByteLimit c < 1) ''log_byte_limit must be positive'' @
     errIf (sg_releaseArtifactByteLimit c < 0) ''release_artifact_byte_limit must not be negative'' @
     concat (map (\<lambda>(t, pol).
       errIf (\<not> re_match agentTypePattern t) ''agent_release_policy must use a kebab-case agent type'' @
       errIf (length (rpol_platforms pol) = 0) ''agent_release_policy must declare at least one platform'')
       (sg_agentReleasePolicies c)) @
     errIf (length (sg_repositories c) = 0) ''repositories must not be empty'' @
     concat (map (\<lambda>r. errIf (\<not> validRepo r) ''repository must be owner/repo'') (sg_repositories c))"

definition holderErrors :: "sandbox_config \<Rightarrow> string list" where
  "holderErrors c =
     (let master = cleanPath (sg_masterAuthPath c); issuance = cleanPath (sg_issuanceRoot c); runs = cleanPath (sg_runsDir c)
      in errIf (\<not> isAbs (sg_masterAuthPath c) \<or> \<not> isAbs (sg_issuanceRoot c))
           ''codex_holder master_auth_path and issuance_root must be absolute'' @
         errIf (pathWithin master runs \<or> pathWithin issuance runs \<or> pathWithin master issuance \<or> pathWithin issuance master)
           ''codex_holder master, issuance, and runs paths must be strictly separated'' @
         concat (map (\<lambda>(_, b). let source = cleanPath (bd_sourcePath b) in
           errIf (pathWithin master source \<or> pathWithin source master)
             ''credential bundle cannot expose the Codex master lineage'') (sg_bundles c)) @
         concat (map (\<lambda>(_, t). concat (map (\<lambda>m. let source = cleanPath (xm_sourcePath m) in
           errIf (pathWithin master source \<or> pathWithin source master \<or> pathWithin issuance source \<or>
                  pathWithin source issuance)
             ''template extra_mounts cannot expose Codex holder paths'') (sb_extraMounts t))) (sg_templates c)))"

definition sandboxErrors :: "regexps \<Rightarrow> sandbox_config \<Rightarrow> string list" where
  "sandboxErrors re c =
     serviceErrors c @
     errIf (length (sg_networks c) = 0) ''network_policies must not be empty'' @
     concat (map (\<lambda>(n, x). validateNetwork n x) (sg_networks c)) @
     concat (map (\<lambda>(n, b). validateBundle n b) (sg_bundles c)) @
     errIf (length (sg_templates c) = 0) ''templates must not be empty'' @
     concat (map (\<lambda>(n, t). validateTemplate re c n t) (sg_templates c)) @
     concat (map (\<lambda>(n, p). validateLaunchProfile re c n p) (sg_launchProfiles c)) @
     concat (map (\<lambda>(n, pol). validateModelPolicy n pol) (sg_modelPolicies c)) @
     (if hasCodexWorkflow (sg_launchProfiles c) then holderErrors c else []) @
     concat (map (\<lambda>(n, p). validateOperatorPrincipal c n p) (sg_operatorPrincipals c))"

text \<open>\<open>decoded\<close> is what reading and decoding the file gives, \<open>digest\<close> the digest of a configuration that
  \<open>versionDigest\<close> computes.\<close>

definition sb_load ::
  "regexps \<Rightarrow> (string \<Rightarrow> string) \<Rightarrow> (sandbox_config \<Rightarrow> string) \<Rightarrow> sandbox_config option \<Rightarrow> string list + sandbox_config" where
  "sb_load re env digest decoded =
     (case decoded of
        None \<Rightarrow> Inl [''the file cannot be read or decoded'']
      | Some c0 \<Rightarrow>
          (let c = sb_resolveSecrets env (sb_applyDefaults c0); errs = sandboxErrors re c in
           if errs \<noteq> [] then Inl errs else Inr (c\<lparr>sg_configVersion := digest c\<rparr>)))"

lemma errIf_Nil [simp]: "errIf b msg = [] \<longleftrightarrow> \<not> b"
  by (simp add: errIf_def)

lemma concat_map_Nil: "concat (map f xs) = [] \<longleftrightarrow> (\<forall>x \<in> set xs. f x = [])"
  by (induction xs) auto

end
