(* ===== verification/Sandbox_Policy.thy ===== *)
theory Sandbox_Policy
  imports Sandbox_Config Capability_Store
begin

text \<open>
  What a launch is allowed to be (\<open>service.go\<close>, \<open>config.go\<close>, \<open>rest.go\<close> and \<open>capability_launch.go\<close> of
  \<open>src/internal/sandbox/\<close>): the parameters and overrides a caller may send with a profile, the checks of a launch
  against its template, the release the template's agent type resolves to, the claims of the capability of the run, and
  the container that the runtime is asked for.

  The lemmas show that resolved parameters have their declared types, that a launch never runs longer than its template
  allows, that a validated capability policy always gives claims, and that a container made from a validated configuration is
  contained: no root user, no host network, no mount over the directories of the run.
\<close>

section \<open>Parameters\<close>

fun undeclaredParam :: "param_decl gomap \<Rightarrow> json gomap \<Rightarrow> bool" where
  "undeclaredParam decls [] = False"
| "undeclaredParam decls ((name, v) # m) = (if gget decls name = None then True else undeclaredParam decls m)"

fun collectParams :: "regexps \<Rightarrow> json gomap \<Rightarrow> param_decl gomap \<Rightarrow> json gomap \<Rightarrow> param_error + json gomap" where
  "collectParams re submitted [] out = Inr out"
| "collectParams re submitted ((name, d) # decls) out =
     (let v = (case gget submitted name of Some v \<Rightarrow> v | None \<Rightarrow> pd_default d) in
      if v = JNull then
        (if pd_required d then Inl ParamMissing else collectParams re submitted decls out)
      else case normalizeParameterValue re d v of
        Inl e \<Rightarrow> Inl e
      | Inr w \<Rightarrow> collectParams re submitted decls (gput name w out))"

definition resolveProfileParameters :: "regexps \<Rightarrow> launch_profile \<Rightarrow> json gomap \<Rightarrow> param_error + json gomap" where
  "resolveProfileParameters re p submitted =
     (if length submitted > 0 \<and> length (sp_parameters p) = 0 then Inl ParamsNotAllowed
      else if undeclaredParam (sp_parameters p) submitted then Inl ParamUnsupported
      else if length (sp_parameters p) = 0 then Inr []
      else case collectParams re submitted (sp_parameters p) [] of
        Inl e \<Rightarrow> Inl e
      | Inr out \<Rightarrow>
          if sp_codexWorkflow p \<noteq> None \<and>
             (gget out ''repair_pr_number'' \<noteq> None) \<noteq> (gget out ''expected_head_sha'' \<noteq> None)
          then Inl ParamsTogether else Inr out)"

text \<open>The type of a parameter value.\<close>

definition fitsString :: "regexps \<Rightarrow> param_decl \<Rightarrow> string \<Rightarrow> bool" where
  "fitsString re d s \<longleftrightarrow>
     int (length s) \<le> pd_maxLength d \<and>
     (pd_pattern d \<noteq> [] \<longrightarrow> (\<exists>matchString. re (pd_pattern d) = Some matchString \<and> matchString s))"

inductive has_type :: "regexps \<Rightarrow> param_decl \<Rightarrow> json \<Rightarrow> bool" for re d where
  string: "pd_type d = ''string'' \<Longrightarrow> fitsString re d s \<Longrightarrow> has_type re d (JStr s)"
| string_list: "pd_type d = ''string_list'' \<Longrightarrow> int (length ss) \<le> pd_maxItems d \<Longrightarrow> \<forall>s \<in> set ss. fitsString re d s \<Longrightarrow>
    has_type re d (JArr (map JStr ss))"
| boolean: "pd_type d = ''boolean'' \<Longrightarrow> has_type re d (JBool b)"
| integer: "pd_type d = ''integer'' \<Longrightarrow> int64_range i \<Longrightarrow> (\<forall>m. pd_min d = Some m \<longrightarrow> m \<le> i) \<Longrightarrow>
    (\<forall>m. pd_max d = Some m \<longrightarrow> i \<le> m) \<Longrightarrow> has_type re d (JNum i)"

inductive_simps has_type_simps [simp]:
  "has_type re d (JStr s)" "has_type re d (JBool b)" "has_type re d (JNum i)" "has_type re d (JArr vs)"
  "has_type re d JNull" "has_type re d (JFloat s)" "has_type re d (JObj m)"

lemma validateParameterString_None: "validateParameterString re d s = None \<longleftrightarrow> fitsString re d s"
  by (auto simp: validateParameterString_def fitsString_def split: option.splits)

lemma firstStringError_None: "firstStringError re d ss = None \<longleftrightarrow> (\<forall>s \<in> set ss. fitsString re d s)"
  by (induction ss) (auto simp flip: validateParameterString_None split: option.splits)

lemma allStrings_Some: "allStrings vs = Some ss \<longleftrightarrow> vs = map JStr ss"
proof (induction vs arbitrary: ss)
  case (Cons v vs)
  then show ?case by (cases v; cases ss) auto
qed auto

lemma stringListValue_Some: "stringListValue v = Some ss \<longleftrightarrow> v = JArr (map JStr ss)"
  by (cases v) (auto simp: allStrings_Some)

lemma integerValue_Some: "integerValue v = Some i \<longleftrightarrow> v = JNum i \<and> int64_range i"
  by (cases v) auto

text \<open>A value is accepted exactly when it has the declared type, and it is then kept as it is.\<close>

lemma normalize_typed: "normalizeParameterValue re d v = Inr w \<longleftrightarrow> w = v \<and> has_type re d v"
proof -
  consider (string) "pd_type d = ''string''" | (lst) "pd_type d = ''string_list''" | (bl) "pd_type d = ''boolean''"
    | (int) "pd_type d = ''integer''"
    | (none) "pd_type d \<notin> {''string'', ''string_list'', ''boolean'', ''integer''}" by auto
  then show ?thesis
  proof cases
    case string
    then show ?thesis
      by (cases v) (auto simp: normalizeParameterValue_def validateParameterString_None [symmetric] split: option.splits)
  next
    case lst
    show ?thesis
    proof (cases "stringListValue v")
      case None
      then have "v \<noteq> JArr (map JStr ss)" for ss using stringListValue_Some [of v ss] by simp
      then show ?thesis using None lst by (cases v) (auto simp: normalizeParameterValue_def)
    next
      case (Some ss)
      then have v: "v = JArr (map JStr ss)" by (simp add: stringListValue_Some)
      have inj: "map JStr ss = map JStr ts \<longleftrightarrow> ss = ts" for ts by (simp add: inj_map_eq_map inj_on_def)
      show ?thesis using lst Some
        by (auto simp: normalizeParameterValue_def v inj firstStringError_None [symmetric] split: option.splits)
    qed
  next
    case bl
    then show ?thesis by (cases v) (auto simp: normalizeParameterValue_def)
  next
    case int
    then show ?thesis
      by (cases v) (auto simp: normalizeParameterValue_def split: option.splits)
  next
    case none
    then show ?thesis by (cases v) (auto simp: normalizeParameterValue_def)
  qed
qed

text \<open>What the value of a parameter is: the value sent, or the default when none is sent; \<open>nil\<close> is no value.\<close>

definition sentOrDefault :: "json gomap \<Rightarrow> string \<Rightarrow> param_decl \<Rightarrow> json option" where
  "sentOrDefault submitted name d =
     (let v = (case gget submitted name of Some v \<Rightarrow> v | None \<Rightarrow> pd_default d) in if v = JNull then None else Some v)"

lemma collectParams_ok:
  assumes "collectParams re submitted decls out = Inr res" and "distinct (map fst decls)"
  shows "(\<forall>(name, d) \<in> set decls.
            gget res name = (case sentOrDefault submitted name d of None \<Rightarrow> gget out name | Some v \<Rightarrow> Some v) \<and>
            (\<forall>v. sentOrDefault submitted name d = Some v \<longrightarrow> has_type re d v) \<and>
            (pd_required d \<longrightarrow> sentOrDefault submitted name d \<noteq> None)) \<and>
         (\<forall>name. name \<notin> fst ` set decls \<longrightarrow> gget res name = gget out name)"
  using assms
proof (induction decls arbitrary: out)
  case (Cons x decls)
  obtain name d where x: "x = (name, d)" by (cases x)
  let ?s = "sentOrDefault submitted name d"
  have fresh: "name \<notin> fst ` set decls" and dist: "distinct (map fst decls)" using Cons.prems(2) x by auto
  have other: "n \<noteq> name" if "(n, e) \<in> set decls" for n e using that fresh by force
  show ?case
  proof (cases ?s)
    case None
    then have "collectParams re submitted decls out = Inr res" "\<not> pd_required d"
      using Cons.prems(1) by (auto simp: x sentOrDefault_def Let_def split: if_splits)
    with Cons.IH [OF this(1) dist] None fresh show ?thesis by (auto simp: x)
  next
    case (Some v)
    then obtain w where w: "normalizeParameterValue re d v = Inr w" "collectParams re submitted decls (gput name w out) = Inr res"
      using Cons.prems(1) by (auto simp: x sentOrDefault_def Let_def split: if_splits sum.splits)
    then have wv: "w = v" "has_type re d v" by (simp_all add: normalize_typed)
    from Cons.IH [OF w(2) dist] Some fresh other wv show ?thesis
      by (auto simp: x split: option.splits)
  qed
qed simp

lemma undeclaredParam_iff: "undeclaredParam decls m \<longleftrightarrow> (\<exists>name \<in> fst ` set m. gget decls name = None)"
  by (induction decls m rule: undeclaredParam.induct) auto

text \<open>C33. Resolved parameters are well typed. When a launch is accepted with parameters, each parameter that
  the run gets is one the profile declares, its value has the declared type, length, range and pattern, and it is the
  value that was sent, or the default when none was sent; a required parameter is there, and nothing undeclared was
  sent.\<close>

theorem parameters_are_typed:
  assumes "distinct (map fst (sp_parameters p))" and "resolveProfileParameters re p submitted = Inr out"
  shows "(\<forall>name v. gget out name = Some v \<longrightarrow>
            (\<exists>d. gget (sp_parameters p) name = Some d \<and> has_type re d v \<and> sentOrDefault submitted name d = Some v)) \<and>
         (\<forall>name d. gget (sp_parameters p) name = Some d \<longrightarrow>
            gget out name = sentOrDefault submitted name d \<and> (pd_required d \<longrightarrow> gget out name \<noteq> None)) \<and>
         (\<forall>name v. gget submitted name = Some v \<longrightarrow> gget (sp_parameters p) name \<noteq> None)"
proof -
  have sent: "\<not> undeclaredParam (sp_parameters p) submitted"
    using assms(2) by (auto simp: resolveProfileParameters_def split: if_splits)
  have "collectParams re submitted (sp_parameters p) [] = Inr out"
    using assms(2) by (auto simp: resolveProfileParameters_def split: if_splits sum.splits)
  note C = collectParams_ok [OF this assms(1)]
  have decl: "(name, d) \<in> set (sp_parameters p) \<longleftrightarrow> gget (sp_parameters p) name = Some d" for name d
    using assms(1) by (simp add: gget_def)
  have declared: "gget out name = sentOrDefault submitted name d \<and> (pd_required d \<longrightarrow> gget out name \<noteq> None) \<and>
      (\<forall>v. gget out name = Some v \<longrightarrow> has_type re d v)" if "gget (sp_parameters p) name = Some d" for name d
  proof -
    have "(name, d) \<in> set (sp_parameters p)" using that decl by simp
    with C show ?thesis by (auto split: option.splits)
  qed
  have "gget (sp_parameters p) name \<noteq> None" if "gget out name = Some v" for name v
    using C that by (metis gget_Nil gget_None_iff option.distinct(1))
  with declared have "\<exists>d. gget (sp_parameters p) name = Some d \<and> has_type re d v \<and> sentOrDefault submitted name d = Some v"
    if "gget out name = Some v" for name v using that by fastforce
  moreover have "gget (sp_parameters p) name \<noteq> None" if "gget submitted name = Some v" for name v
    using sent that unfolding undeclaredParam_iff by (metis gget_SomeD image_eqI fst_conv)
  ultimately show ?thesis using declared by blast
qed

definition exampleDecl :: "string \<Rightarrow> bool \<Rightarrow> json \<Rightarrow> param_decl" where
  "exampleDecl ty required def =
     \<lparr>pd_type = ty, pd_required = required, pd_default = def, pd_min = Some 1, pd_max = None, pd_maxLength = 40,
      pd_maxItems = 2, pd_pattern = []\<rparr>"

definition exampleProfile :: launch_profile where
  "exampleProfile =
     \<lparr>sp_input = \<lparr>la_template = ''t'', la_task = ''fix it'', la_verificationTask = [], la_repo = ''o/r'',
        la_baseBranch = ''main'', la_branch = [], la_maxRuntimeMinutes = 0, la_maxRuntimeSeconds = 0,
        la_deliverables = [], la_focus = [], la_parameters = [], la_profile = [], la_workItemID = []\<rparr>,
      sp_allowOverrides = [''max_runtime_seconds'', ''max_runtime_minutes'', ''task''],
      sp_parameters = [(''work_item_id'', exampleDecl ''string'' True JNull), (''attempts'', exampleDecl ''integer'' False (JNum 3)),
        (''labels'', exampleDecl ''string_list'' False JNull)],
      sp_maxConcurrentRuns = 1, sp_requireIdempotencyKey = True, sp_codexWorkflow = None\<rparr>"

theorem parameters_are_typed_witness:
  "resolveProfileParameters (\<lambda>_. None) exampleProfile [(''work_item_id'', JStr ''w1''), (''labels'', JArr [JStr ''a'', JStr ''b''])] =
     Inr [(''work_item_id'', JStr ''w1''), (''attempts'', JNum 3), (''labels'', JArr [JStr ''a'', JStr ''b''])] \<and>
   has_type (\<lambda>_. None) (exampleDecl ''integer'' False (JNum 3)) (JNum 3)"
proof -
  have ok: "resolveProfileParameters (\<lambda>_. None) exampleProfile
      [(''work_item_id'', JStr ''w1''), (''labels'', JArr [JStr ''a'', JStr ''b''])] =
      Inr [(''work_item_id'', JStr ''w1''), (''attempts'', JNum 3), (''labels'', JArr [JStr ''a'', JStr ''b''])]"
    by code_simp
  have dist: "distinct (map fst (sp_parameters exampleProfile))" by (simp add: exampleProfile_def)
  have "gget (sp_parameters exampleProfile) ''attempts'' = Some (exampleDecl ''integer'' False (JNum 3))"
    by (simp add: exampleProfile_def)
  with parameters_are_typed [OF dist ok]
  have "has_type (\<lambda>_. None) (exampleDecl ''integer'' False (JNum 3)) (JNum 3)" by fastforce
  with ok show ?thesis by simp
qed

section \<open>Overrides\<close>

text \<open>The members of the decoded input that an override sets. JSON's \<open>null\<close> leaves the zero value. A whole number
  written with a fraction or an exponent, which decoding into an integer refuses, is not distinguished.\<close>

fun setInput :: "string \<times> json \<Rightarrow> launch_input \<Rightarrow> launch_input option" where
  "setInput (field, v) i =
     (let str = (case v of JStr s \<Rightarrow> Some s | JNull \<Rightarrow> Some [] | _ \<Rightarrow> None);
          num = (case v of JNull \<Rightarrow> Some 0 | _ \<Rightarrow> integerValue v);
          strs = (case v of JNull \<Rightarrow> Some [] | _ \<Rightarrow> stringListValue v)
      in if field = ''task'' then map_option (\<lambda>s. i\<lparr>la_task := s\<rparr>) str
         else if field = ''focus'' then map_option (\<lambda>s. i\<lparr>la_focus := s\<rparr>) str
         else if field = ''deliverables'' then map_option (\<lambda>ss. i\<lparr>la_deliverables := ss\<rparr>) strs
         else if field = ''max_runtime_minutes'' then map_option (\<lambda>n. i\<lparr>la_maxRuntimeMinutes := n\<rparr>) num
         else if field = ''max_runtime_seconds'' then map_option (\<lambda>n. i\<lparr>la_maxRuntimeSeconds := n\<rparr>) num
         else if field = ''branch'' then map_option (\<lambda>s. i\<lparr>la_branch := s\<rparr>) str
         else if field = ''base_branch'' then map_option (\<lambda>s. i\<lparr>la_baseBranch := s\<rparr>) str
         else if field = ''repo'' then map_option (\<lambda>s. i\<lparr>la_repo := s\<rparr>) str
         else if field = ''template'' then map_option (\<lambda>s. i\<lparr>la_template := s\<rparr>) str
         else None)"

fun setInputs :: "json gomap \<Rightarrow> launch_input \<Rightarrow> launch_input option" where
  "setInputs [] i = Some i"
| "setInputs (e # raw) i = (case setInput e i of None \<Rightarrow> None | Some j \<Rightarrow> setInputs raw j)"

datatype profile_error =
    OverrideUnsupported | OverrideNotAllowed | OverrideType | BodyRead | BodyTooLarge | BodyJSON | ParametersNotObject
  | OnlyParameters | OnlyOverrides | OverridesNotObject | ParamError param_error

fun overrideError :: "string list \<Rightarrow> json gomap \<Rightarrow> profile_error option" where
  "overrideError allowed [] = None"
| "overrideError allowed ((field, v) # raw) =
     (if \<not> launchOverrideFieldAllowed field then Some OverrideUnsupported
      else if field \<notin> set allowed then Some OverrideNotAllowed
      else overrideError allowed raw)"

text \<open>The input of the profile goes through JSON, which drops the profile's name, the work item and, when they
  are empty, the parameters; the profile of a configuration has none.\<close>

definition applyLaunchProfileOverrides :: "launch_profile \<Rightarrow> json gomap \<Rightarrow> profile_error + launch_input" where
  "applyLaunchProfileOverrides p raw =
     (case overrideError (sp_allowOverrides p) raw of
        Some e \<Rightarrow> Inl e
      | None \<Rightarrow>
          (case setInputs raw ((sp_input p)\<lparr>la_profile := [], la_workItemID := []\<rparr>) of
             None \<Rightarrow> Inl OverrideType
           | Some out \<Rightarrow>
               (let out1 = (if gget raw ''max_runtime_seconds'' \<noteq> None then out\<lparr>la_maxRuntimeMinutes := 0\<rparr> else out);
                    out2 = (if gget raw ''max_runtime_minutes'' \<noteq> None then out1\<lparr>la_maxRuntimeSeconds := 0\<rparr> else out1)
                in Inr out2)))"

text \<open>The body of a request: absent, unreadable, read to the end within the limit or beyond it (\<open>length\<close> is the number
  of bytes), with what decoding it as an object gives.\<close>

datatype launch_body = NoBody | BodyUnreadable | Body int "json gomap option"

definition objectOf :: "json \<Rightarrow> json gomap option" where
  "objectOf v = (case v of JObj m \<Rightarrow> Some m | JNull \<Rightarrow> Some [] | _ \<Rightarrow> None)"

definition withParameters :: "launch_input \<Rightarrow> param_error + json gomap \<Rightarrow> profile_error + launch_input" where
  "withParameters i r = (case r of Inl e \<Rightarrow> Inl (ParamError e) | Inr m \<Rightarrow> Inr (i\<lparr>la_parameters := m\<rparr>))"

definition resolveLaunchProfileRequest ::
  "regexps \<Rightarrow> launch_profile \<Rightarrow> launch_body \<Rightarrow> int \<Rightarrow> profile_error + launch_input" where
  "resolveLaunchProfileRequest re p body maxBytes0 =
     (case body of
        NoBody \<Rightarrow> withParameters (sp_input p) (resolveProfileParameters re p [])
      | BodyUnreadable \<Rightarrow> Inl BodyRead
      | Body n decoded \<Rightarrow>
          (let maxBytes = (if maxBytes0 < 1 then 16384 else maxBytes0) in
           if n > maxBytes then Inl BodyTooLarge
           else case decoded of
             None \<Rightarrow> Inl BodyJSON
           | Some raw \<Rightarrow>
               if length raw = 0 then withParameters (sp_input p) (resolveProfileParameters re p [])
               else case gget raw ''parameters'' of
                 Some rawParams \<Rightarrow>
                   (case objectOf rawParams of
                      None \<Rightarrow> Inl ParametersNotObject
                    | Some submitted \<Rightarrow>
                        (case resolveProfileParameters re p submitted of
                           Inl e \<Rightarrow> Inl (ParamError e)
                         | Inr params \<Rightarrow>
                             (case applyLaunchProfileOverrides p (gdel ''parameters'' raw) of
                                Inl e \<Rightarrow> Inl e
                              | Inr i \<Rightarrow> Inr (i\<lparr>la_parameters := params\<rparr>))))
               | None \<Rightarrow>
                   if length (sp_parameters p) > 0 then Inl OnlyParameters
                   else case (case gget raw ''overrides'' of
                            None \<Rightarrow> Inr raw
                          | Some overrides \<Rightarrow>
                              if length raw \<noteq> 1 then Inl OnlyOverrides
                              else case objectOf overrides of None \<Rightarrow> Inl OverridesNotObject | Some m \<Rightarrow> Inr m) of
                     Inl e \<Rightarrow> Inl e
                   | Inr raw1 \<Rightarrow>
                       (case applyLaunchProfileOverrides p raw1 of
                          Inl e \<Rightarrow> Inl e
                        | Inr i \<Rightarrow> withParameters i (resolveProfileParameters re p []))))"

text \<open>A request that overrides both limits of the running time has neither in the end.\<close>

lemma both_limits_cancel:
  assumes "applyLaunchProfileOverrides p raw = Inr i"
    and "gget raw ''max_runtime_seconds'' \<noteq> None" and "gget raw ''max_runtime_minutes'' \<noteq> None"
  shows "la_maxRuntimeMinutes i = 0 \<and> la_maxRuntimeSeconds i = 0"
  using assms by (auto simp: applyLaunchProfileOverrides_def Let_def split: option.splits)

section \<open>The limits of a launch\<close>

datatype launch_error =
    LaunchUnknownTemplate | LaunchBadRepo | LaunchRepoDenied | LaunchNoTask | LaunchTaskTooLong | LaunchVerificationTooLong | LaunchNoBase
  | LaunchBaseDenied | LaunchRandom | LaunchUnsafeBranch | LaunchBranchDenied | LaunchBothLimits | LaunchBadSeconds
  | LaunchSecondsExceed | LaunchBadMinutes | LaunchNoRegistry | LaunchNoRelease rel_error | LaunchContract
  | LaunchNoAgentType | LaunchNoPolicy | LaunchNoRunID | LaunchNoWorkItem | LaunchWorkItemIsRun | LaunchNoDeadline
  | LaunchClaims cap_error | LaunchNoCapabilityStore | LaunchMint cap_error | LaunchBundleDenied | LaunchStore intent_error
  | LaunchNoIntentStore | LaunchKeyConflict | LaunchConfigVersion | LaunchFiles | LaunchInspect | LaunchRunNotFound
  | LaunchCleanup | LaunchStopFailed | LaunchRemove | LaunchEscapes | LaunchNotTerminal
  | LaunchCreate | LaunchStart

definition runtimeLimit :: "launch_input \<Rightarrow> sandbox_template \<Rightarrow> launch_error + int" where
  "runtimeLimit i t =
     (let maxRuntime = minutes (sb_maxRuntimeMinutes t) in
      if la_maxRuntimeMinutes i \<noteq> 0 \<and> la_maxRuntimeSeconds i \<noteq> 0 then Inl LaunchBothLimits
      else if la_maxRuntimeSeconds i \<noteq> 0 then
        (if la_maxRuntimeSeconds i < 1 then Inl LaunchBadSeconds
         else let limit = seconds (la_maxRuntimeSeconds i) in
           if limit > maxRuntime then Inl LaunchSecondsExceed else Inr limit)
      else
        (let runtimeMinutes = (if la_maxRuntimeMinutes i = 0 then sb_maxRuntimeMinutes t else la_maxRuntimeMinutes i) in
         if runtimeMinutes < 1 \<or> runtimeMinutes > sb_maxRuntimeMinutes t then Inl LaunchBadMinutes
         else Inr (minutes runtimeMinutes)))"

text \<open>The minutes that a duration can hold: \<open>2 ^ 63 - 1\<close> nanoseconds are 153722867 minutes and some seconds.\<close>

definition maxMinutes :: int where
  "maxMinutes = 153722867"

definition maxSeconds :: int where
  "maxSeconds = 9223372036"

lemma minutes_exact: "0 \<le> m \<Longrightarrow> m \<le> maxMinutes \<Longrightarrow> minutes m = m * 60000000000"
  unfolding minutes_def nsPerSec_def maxMinutes_def by (subst wrap64_id) (simp_all add: int64_range_def)

lemma seconds_exact: "0 \<le> n \<Longrightarrow> n \<le> maxSeconds \<Longrightarrow> seconds n = n * 1000000000"
  unfolding seconds_def nsPerSec_def maxSeconds_def by (subst wrap64_id) (simp_all add: int64_range_def)

lemma runtimeLimit_Inr:
  assumes "runtimeLimit i t = Inr limit" and "1 \<le> sb_maxRuntimeMinutes t" and "sb_maxRuntimeMinutes t \<le> maxMinutes"
  shows "limit \<le> sb_maxRuntimeMinutes t * 60000000000"
    and "la_maxRuntimeSeconds i \<le> maxSeconds \<Longrightarrow>
      0 < limit \<and> limit = (if la_maxRuntimeSeconds i \<noteq> 0 then la_maxRuntimeSeconds i * 1000000000
        else if la_maxRuntimeMinutes i \<noteq> 0 then la_maxRuntimeMinutes i * 60000000000
        else sb_maxRuntimeMinutes t * 60000000000)"
proof -
  have m: "minutes (sb_maxRuntimeMinutes t) = sb_maxRuntimeMinutes t * 60000000000"
    using assms(2,3) by (simp add: minutes_exact)
  consider (secs) "la_maxRuntimeSeconds i \<noteq> 0" "1 \<le> la_maxRuntimeSeconds i" "limit = seconds (la_maxRuntimeSeconds i)"
      "limit \<le> minutes (sb_maxRuntimeMinutes t)"
    | (mins) n where "la_maxRuntimeSeconds i = 0"
      "n = (if la_maxRuntimeMinutes i = 0 then sb_maxRuntimeMinutes t else la_maxRuntimeMinutes i)" "1 \<le> n"
      "n \<le> sb_maxRuntimeMinutes t" "limit = minutes n"
    using assms(1) unfolding runtimeLimit_def Let_def by (auto split: if_splits)
  then have "limit \<le> sb_maxRuntimeMinutes t * 60000000000 \<and>
      (la_maxRuntimeSeconds i \<le> maxSeconds \<longrightarrow>
        0 < limit \<and> limit = (if la_maxRuntimeSeconds i \<noteq> 0 then la_maxRuntimeSeconds i * 1000000000
          else if la_maxRuntimeMinutes i \<noteq> 0 then la_maxRuntimeMinutes i * 60000000000
          else sb_maxRuntimeMinutes t * 60000000000))"
  proof cases
    case secs
    then show ?thesis using m by (auto simp: seconds_exact)
  next
    case mins
    then have "limit = n * 60000000000" using assms(3) by (simp add: minutes_exact)
    with mins show ?thesis by auto
  qed
  then show "limit \<le> sb_maxRuntimeMinutes t * 60000000000"
    "la_maxRuntimeSeconds i \<le> maxSeconds \<Longrightarrow>
      0 < limit \<and> limit = (if la_maxRuntimeSeconds i \<noteq> 0 then la_maxRuntimeSeconds i * 1000000000
        else if la_maxRuntimeMinutes i \<noteq> 0 then la_maxRuntimeMinutes i * 60000000000
        else sb_maxRuntimeMinutes t * 60000000000)" by auto
qed

text \<open>Above \<open>maxSeconds\<close> the product wraps around: a request for more seconds than the template allows is accepted,
  with a limit in the past.\<close>

lemma seconds_overflow_accepted:
  assumes "sb_maxRuntimeMinutes t = 60"
  shows "runtimeLimit ((sp_input exampleProfile)\<lparr>la_maxRuntimeSeconds := 9223372037\<rparr>) t = Inr (- 9223372036709551616)"
  using assms by (simp add: runtimeLimit_def exampleProfile_def minutes_def seconds_def nsPerSec_def wrap64_def)

section \<open>Selecting the template\<close>

definition sb_trimRightSlashes :: "string \<Rightarrow> string" where
  "sb_trimRightSlashes s = rev (dropWhile (\<lambda>c. c = CHR ''/'') (rev s))"

text \<open>The identity under which the branch of a run is generated: the template's, or the delivery template's for a
  profile with a Codex workflow; a missing template has the empty one.\<close>

definition brokerIDOf :: "sandbox_config \<Rightarrow> string \<Rightarrow> string" where
  "brokerIDOf cfg name = (case gget (sg_templates cfg) name of None \<Rightarrow> [] | Some t \<Rightarrow> sb_brokerAgentID t)"

definition launchBranch :: "sandbox_config \<Rightarrow> launch_input \<Rightarrow> sandbox_template \<Rightarrow> string \<Rightarrow> string" where
  "launchBranch cfg i t runID =
     (let branch = trimSpace (la_branch i) in
      if branch \<noteq> [] then branch
      else
        (let pre = (if bp_generatePrefix (sb_branchPolicy t) = [] then ''agent'' else bp_generatePrefix (sb_branchPolicy t));
             agentID = (case gget (sg_launchProfiles cfg) (la_profile i) of
                 None \<Rightarrow> sb_brokerAgentID t
               | Some p \<Rightarrow> (case sp_codexWorkflow p of
                     None \<Rightarrow> sb_brokerAgentID t
                   | Some w \<Rightarrow> brokerIDOf cfg (cw_deliveryTemplate w)))
         in sb_trimRightSlashes pre @ ''/'' @ agentID @ ''/'' @ runID))"

text \<open>\<open>runID\<close> is what \<open>newRunID\<close> gives, \<open>None\<close> when no random bytes can be read.\<close>

definition validateLaunch ::
  "regexps \<Rightarrow> sandbox_config \<Rightarrow> string option \<Rightarrow> launch_input \<Rightarrow>
     launch_error + sandbox_template \<times> string \<times> string \<times> int" where
  "validateLaunch re cfg runID i =
     (case gget (sg_templates cfg) (la_template i) of
        None \<Rightarrow> Inl LaunchUnknownTemplate
      | Some t \<Rightarrow>
          if \<not> validRepo (la_repo i) then Inl LaunchBadRepo
          else if \<not> containsFold (sg_repositories cfg) (la_repo i) then Inl LaunchRepoDenied
          else if trimSpace (la_task i) = [] then Inl LaunchNoTask
          else if int (length (la_task i)) > sg_maxTaskBytes cfg then Inl LaunchTaskTooLong
          else if int (length (la_verificationTask i)) > sg_maxTaskBytes cfg then Inl LaunchVerificationTooLong
          else if trimSpace (la_baseBranch i) = [] then Inl LaunchNoBase
          else if length (bp_baseBranches (sb_branchPolicy t)) > 0 \<and>
                  \<not> containsItem (bp_baseBranches (sb_branchPolicy t)) (la_baseBranch i)
          then Inl LaunchBaseDenied
          else case runID of
            None \<Rightarrow> Inl LaunchRandom
          | Some run \<Rightarrow>
              (let branch = launchBranch cfg i t run in
               if \<not> safeBranch branch then Inl LaunchUnsafeBranch
               else if length (bp_allowedPatterns (sb_branchPolicy t)) > 0 \<and>
                       \<not> matchesAny re (bp_allowedPatterns (sb_branchPolicy t)) branch
               then Inl LaunchBranchDenied
               else case runtimeLimit i t of
                 Inl e \<Rightarrow> Inl e
               | Inr limit \<Rightarrow> Inr (t, run, branch, limit)))"

record resolved_release =
  rd_generation :: int
  rd_imageReference :: string
  rd_imageDigest :: string

definition resolveRelease :: "bool \<Rightarrow> registry \<Rightarrow> string \<Rightarrow> rel_error + resolved_release" where
  "resolveRelease fails reg agentType =
     (case Resolve fails agentType reg of
        Inl e \<Rightarrow> Inl e
      | Inr r \<Rightarrow> Inr \<lparr>rd_generation = rl_generation r, rd_imageReference = rl_imageReference r,
                       rd_imageDigest = rl_imageDigest r\<rparr>)"

record selected =
  sl_template :: sandbox_template
  sl_runID :: string
  sl_branch :: string
  sl_limit :: int
  sl_release :: "resolved_release option"

definition selectLaunchTemplate ::
  "regexps \<Rightarrow> sandbox_config \<Rightarrow> string option \<Rightarrow> bool \<Rightarrow> registry option \<Rightarrow> launch_input \<Rightarrow> launch_error + selected" where
  "selectLaunchTemplate re cfg runID fails releases i =
     (case validateLaunch re cfg runID i of
        Inl e \<Rightarrow> Inl e
      | Inr (t, run, branch, limit) \<Rightarrow>
          if sb_agentType t = [] then
            Inr \<lparr>sl_template = t, sl_runID = run, sl_branch = branch, sl_limit = limit, sl_release = None\<rparr>
          else case releases of
            None \<Rightarrow> Inl LaunchNoRegistry
          | Some reg \<Rightarrow>
              (case resolveRelease fails reg (sb_agentType t) of
                 Inl e \<Rightarrow> Inl (LaunchNoRelease e)
               | Inr r \<Rightarrow>
                   (let image = (if hasPrefix (rd_imageReference r) ''local.agent/'' then rd_imageDigest r
                                 else rd_imageReference r)
                    in Inr \<lparr>sl_template = t\<lparr>sb_image := image\<rparr>, sl_runID = run, sl_branch = branch, sl_limit = limit,
                             sl_release = Some r\<rparr>)))"

section \<open>The metadata of a run\<close>

fun keepDeliverables :: "string list \<Rightarrow> string list \<Rightarrow> string list" where
  "keepDeliverables seen [] = []"
| "keepDeliverables seen (item # items) =
     (let it = trimSpace item in
      if it = [] \<or> it \<in> set seen then keepDeliverables seen items
      else it # keepDeliverables (it # seen) items)"

definition deliverables :: "string list \<Rightarrow> string list \<Rightarrow> string list" where
  "deliverables requested defaults = keepDeliverables [] (defaults @ requested)"

definition workerAgentID :: "string \<Rightarrow> string \<Rightarrow> string" where
  "workerAgentID brokerAgentID runID = brokerAgentID @ '':'' @ runID"

definition applyResolvedRelease :: "resolved_release option \<Rightarrow> run_metadata \<Rightarrow> run_metadata" where
  "applyResolvedRelease release meta =
     (case release of
        None \<Rightarrow> meta
      | Some r \<Rightarrow> meta\<lparr>rm_releaseGeneration := rd_generation r, rm_imageDigest := rd_imageDigest r\<rparr>)"

definition codexProvenance :: "sandbox_config \<Rightarrow> codex_workflow \<Rightarrow> json gomap \<Rightarrow> codex_provenance" where
  "codexProvenance cfg w params =
     (let pol = (case gget (sg_modelPolicies cfg) (cw_modelPolicy w) of
                   None \<Rightarrow> \<lparr>mp_version = [], mp_mappings = []\<rparr> | Some pol \<Rightarrow> pol);
          m = (case gget (mp_mappings pol) (cw_modelProfile w) of
                 None \<Rightarrow> \<lparr>mp_model = [], mp_effort = []\<rparr> | Some m \<Rightarrow> m)
      in \<lparr>cx_modelPolicy = cw_modelPolicy w, cx_modelPolicyVersion = mp_version pol, cx_model = mp_model m,
          cx_effort = mp_effort m, cx_codexVersion = ''0.146.0'', cx_promptRevision = cw_promptRevision w,
          cx_issueNumber = (case gget params ''issue_number'' of
             None \<Rightarrow> 0 | Some v \<Rightarrow> (case integerValue v of None \<Rightarrow> 0 | Some n \<Rightarrow> n)),
          cx_sourceDeliveryID = (case gget params ''source_delivery_id'' of Some (JStr s) \<Rightarrow> s | _ \<Rightarrow> [])\<rparr>)"

text \<open>The metadata that a keyed launch freezes (\<open>LaunchProfile\<close>); \<open>rest\<close> is the value of the fields no one has set.\<close>

definition profileMetadata ::
  "sandbox_config \<Rightarrow> gotime \<Rightarrow> string \<Rightarrow> string \<Rightarrow> string \<Rightarrow> string \<Rightarrow> launch_input \<Rightarrow> selected \<Rightarrow> run_metadata" where
  "profileMetadata cfg now who profile digest fingerprint i sel =
     (let t = sl_template sel;
          meta = applyResolvedRelease (sl_release sel)
            \<lparr>rm_runID = sl_runID sel, rm_workItemID = la_workItemID i, rm_profile = profile, rm_principal = who,
             rm_keyDigest = digest, rm_fingerprint = fingerprint, rm_configVersion = sg_configVersion cfg,
             rm_template = la_template i, rm_repo = la_repo i, rm_baseBranch = la_baseBranch i, rm_branch = sl_branch sel,
             rm_task = la_task i, rm_verificationTask = la_verificationTask i, rm_focus = la_focus i,
             rm_workerAgentID = workerAgentID (sb_brokerAgentID t) (sl_runID sel), rm_brokerAgentID = sb_brokerAgentID t,
             rm_credentialBundle = sb_credentialBundle t, rm_containerID = [], rm_image = sb_image t, rm_imageDigest = [],
             rm_releaseGeneration = 0, rm_status = ''pending'', rm_exitCode = None, rm_finalizeReason = [],
             rm_terminalSource = [], rm_error = [], rm_deliverables = deliverables (la_deliverables i) (sb_deliverables t),
             rm_parameters = la_parameters i, rm_startedAt = now, rm_deadline = now + sl_limit sel, rm_endedAt = 0,
             rm_phase = [], rm_recoverySeal = [], rm_provenance = None, rm_rest = JObj []\<rparr>
      in case gget (sg_launchProfiles cfg) profile of
           None \<Rightarrow> meta
         | Some p \<Rightarrow> (case sp_codexWorkflow p of
               None \<Rightarrow> meta
             | Some w \<Rightarrow>
                 meta\<lparr>rm_workerAgentID := workerAgentID (brokerIDOf cfg (cw_deliveryTemplate w)) (sl_runID sel),
                      rm_brokerAgentID := brokerIDOf cfg (cw_deliveryTemplate w), rm_phase := ''preparation_create_pending'',
                      rm_provenance := Some (codexProvenance cfg w (rm_parameters meta))\<rparr>))"

section \<open>The capability of a run\<close>

definition mintsCapability :: "sandbox_template \<Rightarrow> bool" where
  "mintsCapability t \<longleftrightarrow> sb_agentType t \<noteq> [] \<and> sb_capability t \<noteq> None"

definition deriveCapabilityClaims :: "sandbox_template \<Rightarrow> run_metadata \<Rightarrow> launch_error + claims" where
  "deriveCapabilityClaims t meta =
     (if sb_agentType t = [] then Inl LaunchNoAgentType
      else case sb_capability t of
        None \<Rightarrow> Inl LaunchNoPolicy
      | Some pol \<Rightarrow>
          if rm_runID meta = [] then Inl LaunchNoRunID
          else if trimSpace (rm_workItemID meta) = [] then Inl LaunchNoWorkItem
          else if rm_workItemID meta = rm_runID meta then Inl LaunchWorkItemIsRun
          else if isZero (rm_deadline meta) then Inl LaunchNoDeadline
          else case NewClaims
                 \<lparr>ci_agentType = sb_agentType t, ci_mode = kp_mode pol, ci_runID = rm_runID meta,
                  ci_workItemID = rm_workItemID meta,
                  ci_allowedModels = (if kp_modelAccess pol then kp_allowedModels pol else []),
                  ci_callBudget = kp_callBudget pol, ci_tokenBudget = kp_tokenBudget pol, ci_expiry = rm_deadline meta\<rparr> of
            Inl e \<Rightarrow> Inl (LaunchClaims e)
          | Inr c \<Rightarrow> Inr c)"

text \<open>The claims that the policy of the template and the identity of the run amount to.\<close>

definition claimsOfRun :: "sandbox_template \<Rightarrow> capability_policy \<Rightarrow> run_metadata \<Rightarrow> claims \<Rightarrow> bool" where
  "claimsOfRun t pol meta c \<longleftrightarrow>
     cl_agentType c = sb_agentType t \<and> cl_mode c = kp_mode pol \<and> cl_runID c = rm_runID meta \<and>
     cl_workItemID c = rm_workItemID meta \<and> cl_expiry c = rm_deadline meta \<and>
     set (cl_allowedModels c) = (if kp_modelAccess pol then set (kp_allowedModels pol) else {}) \<and>
     cl_callBudget c = kp_callBudget pol \<and> cl_tokenBudget c = kp_tokenBudget pol"

lemma derive_Inr:
  assumes "deriveCapabilityClaims t meta = Inr c"
  shows "\<exists>pol. sb_capability t = Some pol \<and> claimsOfRun t pol meta c \<and> claims_wf c \<and>
    trimSpace (rm_workItemID meta) \<noteq> [] \<and> rm_workItemID meta \<noteq> rm_runID meta"
proof -
  obtain pol where pol: "sb_capability t = Some pol" "trimSpace (rm_workItemID meta) \<noteq> []" "rm_workItemID meta \<noteq> rm_runID meta"
    and new: "NewClaims \<lparr>ci_agentType = sb_agentType t, ci_mode = kp_mode pol, ci_runID = rm_runID meta,
      ci_workItemID = rm_workItemID meta, ci_allowedModels = (if kp_modelAccess pol then kp_allowedModels pol else []),
      ci_callBudget = kp_callBudget pol, ci_tokenBudget = kp_tokenBudget pol, ci_expiry = rm_deadline meta\<rparr> = Inr c"
    using assms unfolding deriveCapabilityClaims_def by (auto split: if_splits option.splits sum.splits)
  from NewClaims_Inr [OF new] pol show ?thesis by (auto simp: claimsOfRun_def)
qed

lemma validateCapabilityPolicy_Nil:
  "validateCapabilityPolicy pol = [] \<longleftrightarrow>
     trimSpace (kp_mode pol) \<noteq> [] \<and> (\<forall>m \<in> set (kp_allowedModels pol). trimSpace m \<noteq> []) \<and>
     (if kp_modelAccess pol then kp_allowedModels pol \<noteq> [] \<and> 0 < kp_callBudget pol \<and> 0 < kp_tokenBudget pol
      else kp_allowedModels pol = [] \<and> kp_callBudget pol = 0 \<and> kp_tokenBudget pol = 0)"
  by (auto simp: validateCapabilityPolicy_def list_ex_iff)

text \<open>C34. A policy that the validation of the configuration accepts always gives claims: for a run with a work item
  of its own and a deadline, deriving the claims succeeds, and they are those of the policy and of the run. So a launch
  is never refused for a policy that was accepted when the service started.\<close>

theorem accepted_policy_gives_claims:
  assumes "validateCapabilityPolicy pol = []" and "sb_capability t = Some pol" and "sb_agentType t \<noteq> []"
    and "rm_runID meta \<noteq> []" and "rm_deadline meta \<noteq> 0"
  shows "(trimSpace (rm_workItemID meta) \<noteq> [] \<and> rm_workItemID meta \<noteq> rm_runID meta \<longrightarrow>
            (\<exists>c. deriveCapabilityClaims t meta = Inr c \<and> claims_wf c \<and> claimsOfRun t pol meta c)) \<and>
         (trimSpace (rm_workItemID meta) = [] \<longrightarrow> deriveCapabilityClaims t meta = Inl LaunchNoWorkItem) \<and>
         (trimSpace (rm_workItemID meta) \<noteq> [] \<and> rm_workItemID meta = rm_runID meta \<longrightarrow>
            deriveCapabilityClaims t meta = Inl LaunchWorkItemIsRun)"
proof -
  have "\<exists>c. deriveCapabilityClaims t meta = Inr c" if wi: "trimSpace (rm_workItemID meta) \<noteq> []" "rm_workItemID meta \<noteq> rm_runID meta"
  proof -
    have blank: "trimSpace m \<noteq> [] \<Longrightarrow> m \<noteq> []" for m by auto
    let ?models = "if kp_modelAccess pol then kp_allowedModels pol else []"
    have "[] \<notin> set ?models" using assms(1) unfolding validateCapabilityPolicy_Nil by auto
    then have "collectModels ?models [] \<noteq> None" by (simp add: collectModels_None)
    then obtain models where models: "collectModels ?models [] = Some models" by blast
    have "models = [] \<longleftrightarrow> ?models = []"
      using collectModels_Some [OF models] by (simp add: set_empty [symmetric] del: set_empty)
    then show ?thesis
      using assms wi blank [of "kp_mode pol"] blank [of "rm_workItemID meta"] models
      unfolding validateCapabilityPolicy_Nil
      by (cases "kp_modelAccess pol")
        (auto simp: deriveCapabilityClaims_def NewClaims_def isZero_def coherentModelAccess_def)
  qed
  then show ?thesis using derive_Inr [of t meta] assms by (fastforce simp: deriveCapabilityClaims_def)
qed

definition examplePolicy :: capability_policy where
  "examplePolicy = \<lparr>kp_mode = ''fix'', kp_modelAccess = True, kp_allowedModels = [''m1''], kp_callBudget = 5, kp_tokenBudget = 100\<rparr>"

definition exampleTemplate :: sandbox_template where
  "exampleTemplate = \<lparr>sb_image = [], sb_agentType = ''coder'', sb_entrypoint = [], sb_command = [''run''], sb_user = ''1000'',
     sb_resources = \<lparr>rz_cpuShares = 0, rz_memoryMB = 0, rz_pidsLimit = 0\<rparr>, sb_networkPolicy = ''private'',
     sb_maxRuntimeMinutes = 60, sb_brokerAgentID = ''a'', sb_brokerAgentSecret = ''s'', sb_brokerSecretEnv = [],
     sb_branchPolicy = \<lparr>bp_allowedPatterns = [], bp_baseBranches = [''main''], bp_generatePrefix = []\<rparr>,
     sb_credentialBundle = [], sb_deliverables = [], sb_knowledgeSnapshots = [],
     sb_environment = [(''MODE'', ''x''), (''AGENT_CAPABILITY_TOKEN'', ''forged'')],
     sb_extraMounts = [\<lparr>xm_sourcePath = ''/srv/cache'', xm_mountPath = ''/cache'', xm_readOnly = True\<rparr>],
     sb_completionStatusPath = [], sb_workItemInputPath = [], sb_storageLimitMB = 0, sb_tmpfs = [],
     sb_capability = Some examplePolicy\<rparr>"

theorem accepted_policy_gives_claims_witness:
  "\<exists>c. deriveCapabilityClaims exampleTemplate (exampleMetadata\<lparr>rm_workItemID := ''w1''\<rparr>) = Inr c \<and> cl_callBudget c = 5 \<and>
     set (cl_allowedModels c) = {''m1''} \<and> cl_expiry c = 60000000000"
proof -
  let ?meta = "exampleMetadata\<lparr>rm_workItemID := ''w1''\<rparr>"
  have pol: "validateCapabilityPolicy examplePolicy = []" by code_simp
  have t: "sb_capability exampleTemplate = Some examplePolicy" "sb_agentType exampleTemplate \<noteq> []"
    by (simp_all add: exampleTemplate_def)
  have meta: "rm_runID ?meta \<noteq> []" "rm_deadline ?meta \<noteq> 0" "rm_workItemID ?meta \<noteq> rm_runID ?meta"
    by (simp_all add: exampleMetadata_def)
  have "trimSpace (rm_workItemID ?meta) \<noteq> []" by code_simp
  with accepted_policy_gives_claims [OF pol t meta(1,2)] meta(3) show ?thesis
    by (auto simp: claimsOfRun_def examplePolicy_def exampleMetadata_def)
qed

section \<open>The container of a run\<close>

record mount =
  mt_source :: string
  mt_target :: string
  mt_readOnly :: bool

record runtime_spec =
  ru_runID :: string
  ru_image :: string
  ru_entrypoint :: "string list"
  ru_command :: "string list"
  ru_user :: string
  ru_env :: "string gomap"
  ru_labels :: "string gomap"
  ru_mounts :: "mount list"
  ru_network :: network_policy
  ru_resources :: sandbox_resources
  ru_workingDir :: string
  ru_timeout :: int
  ru_tmpfs :: "int gomap"
  ru_storageLimitMB :: int

definition envStart :: re where
  "envStart = ReCls [(CHR ''A'', CHR ''Z''), (CHR ''_'', CHR ''_'')]"

definition envRest :: re where
  "envRest = ReCls [(CHR ''A'', CHR ''Z''), (CHR ''0'', CHR ''9''), (CHR ''_'', CHR ''_'')]"

definition safeEnvKey :: "string \<Rightarrow> bool" where
  "safeEnvKey key \<longleftrightarrow>
     re_match (ReSeq envStart (ReStar envRest)) key \<and> \<not> containsStr key ''SECRET'' \<and> \<not> containsStr key ''TOKEN'' \<and>
     key \<noteq> ''PATH''"

definition capabilityEnvKey :: string where
  "capabilityEnvKey = ''AGENT_CAPABILITY_TOKEN''"

fun putSafe :: "string gomap \<Rightarrow> string gomap \<Rightarrow> string gomap" where
  "putSafe [] env = env"
| "putSafe ((k, v) # m) env = putSafe m (if safeEnvKey k then gput k v env else env)"

fun putAll :: "string gomap \<Rightarrow> string gomap \<Rightarrow> string gomap" where
  "putAll [] env = env"
| "putAll ((k, v) # m) env = putAll m (gput k v env)"

definition launchEnv :: "sandbox_config \<Rightarrow> run_metadata \<Rightarrow> sandbox_template \<Rightarrow> string \<Rightarrow> string gomap" where
  "launchEnv cfg meta t handle =
     (let env0 = [(''SANDBOX_RUN_ID'', rm_runID meta), (''SANDBOX_REPO'', rm_repo meta), (''SANDBOX_BRANCH'', rm_branch meta),
            (''SANDBOX_BASE_BRANCH'', rm_baseBranch meta), (''HOME'', ''/work/home''), (''HERMES_HOME'', ''/work/hermes'')];
          env1 = (if sb_brokerAgentID t \<noteq> [] \<and> sb_brokerAgentSecret t \<noteq> [] then
                    putAll [(''BROKER_URL'', sg_brokerURL cfg), (''BROKER_AGENT_ID'', sb_brokerAgentID t),
                      (''BROKER_AGENT_SECRET'', sb_brokerAgentSecret t)] env0
                  else env0);
          env2 = putSafe (sb_environment t) env1;
          env3 = putAll [(''AGENT_RUN_ID'', rm_runID meta), (''AGENT_REPO'', rm_repo meta),
            (''AGENT_BASE_BRANCH'', rm_baseBranch meta), (''AGENT_BRANCH'', rm_branch meta), (''AGENT_TASK'', rm_task meta),
            (''AGENT_VERIFY_TASK'', rm_verificationTask meta)] env2;
          env4 = (if handle \<noteq> [] then gput capabilityEnvKey handle env3 else env3)
      in if rm_recoverySeal meta \<noteq> [] then gput ''AGENT_RECOVERY_SEAL_SHA256'' (rm_recoverySeal meta) env4 else env4)"

definition runDir :: "sandbox_config \<Rightarrow> string \<Rightarrow> string" where
  "runDir cfg runID = joinPath (sg_runsDir cfg) runID"

definition runMounts :: "sandbox_config \<Rightarrow> string \<Rightarrow> mount list" where
  "runMounts cfg runID =
     [\<lparr>mt_source = joinPath (runDir cfg runID) ''input'', mt_target = ''/input'', mt_readOnly = True\<rparr>,
      \<lparr>mt_source = joinPath (runDir cfg runID) ''work'', mt_target = ''/work'', mt_readOnly = False\<rparr>,
      \<lparr>mt_source = joinPath (runDir cfg runID) ''output'', mt_target = ''/output'', mt_readOnly = False\<rparr>,
      \<lparr>mt_source = joinPath (runDir cfg runID) ''lessons'', mt_target = ''/lessons'', mt_readOnly = False\<rparr>]"

text \<open>The bundle of a name the configuration does not have is the empty one, which allows no template.\<close>

definition bundleMounts :: "sandbox_config \<Rightarrow> run_metadata \<Rightarrow> sandbox_template \<Rightarrow> launch_error + mount list" where
  "bundleMounts cfg meta t =
     (if sb_credentialBundle t \<noteq> [] then
        (case gget (sg_bundles cfg) (sb_credentialBundle t) of
           None \<Rightarrow> Inl LaunchBundleDenied
         | Some b \<Rightarrow>
             if \<not> containsItem (bd_allowedTemplates b) (rm_template meta) then Inl LaunchBundleDenied
             else Inr [\<lparr>mt_source = bd_sourcePath b, mt_target = bd_mountPath b, mt_readOnly = True\<rparr>])
      else Inr [])"

definition extraMountOf :: "extra_mount \<Rightarrow> mount" where
  "extraMountOf m = \<lparr>mt_source = xm_sourcePath m, mt_target = xm_mountPath m, mt_readOnly = xm_readOnly m\<rparr>"

definition runtimeSpec :: "sandbox_config \<Rightarrow> run_metadata \<Rightarrow> sandbox_template \<Rightarrow> string \<Rightarrow> launch_error + runtime_spec" where
  "runtimeSpec cfg meta t handle =
     (case bundleMounts cfg meta t of
        Inl e \<Rightarrow> Inl e
      | Inr bundle \<Rightarrow>
          Inr \<lparr>ru_runID = rm_runID meta, ru_image = (if rm_image meta = [] then sb_image t else rm_image meta),
               ru_entrypoint = sb_entrypoint t, ru_command = sb_command t, ru_user = sb_user t,
               ru_env = launchEnv cfg meta t handle,
               ru_labels = [(''gh-agent-broker.sandbox'', ''true''), (''gh-agent-broker.run_id'', rm_runID meta),
                 (''gh-agent-broker.template'', rm_template meta)],
               ru_mounts = runMounts cfg (rm_runID meta) @ bundle @ map extraMountOf (sb_extraMounts t),
               ru_network = networkOf cfg t, ru_resources = sb_resources t, ru_workingDir = ''/work'',
               ru_timeout = timeSub (rm_deadline meta) (rm_startedAt meta), ru_tmpfs = sb_tmpfs t,
               ru_storageLimitMB = sb_storageLimitMB t\<rparr>)"

lemma safeEnvKey_no_token: "safeEnvKey k \<Longrightarrow> k \<noteq> capabilityEnvKey"
proof -
  have "containsStr capabilityEnvKey ''TOKEN''" by (simp add: capabilityEnvKey_def hasPrefix_def)
  then show "safeEnvKey k \<Longrightarrow> k \<noteq> capabilityEnvKey" by (auto simp: safeEnvKey_def)
qed

lemma gget_putSafe_token: "gget (putSafe m env) capabilityEnvKey = gget env capabilityEnvKey"
  by (induction m env rule: putSafe.induct) (auto dest: safeEnvKey_no_token)

text \<open>The capability of the run reaches the container under its key, and nothing else does.\<close>

lemma launchEnv_capability:
  "gget (launchEnv cfg meta t handle) capabilityEnvKey = (if handle = [] then None else Some handle)"
proof -
  have keys: "capabilityEnvKey \<notin> {''SANDBOX_RUN_ID'', ''SANDBOX_REPO'', ''SANDBOX_BRANCH'', ''SANDBOX_BASE_BRANCH'', ''HOME'',
      ''HERMES_HOME'', ''BROKER_URL'', ''BROKER_AGENT_ID'', ''BROKER_AGENT_SECRET'', ''AGENT_RUN_ID'', ''AGENT_REPO'',
      ''AGENT_BASE_BRANCH'', ''AGENT_BRANCH'', ''AGENT_TASK'', ''AGENT_VERIFY_TASK'', ''AGENT_RECOVERY_SEAL_SHA256''}"
    by (simp add: capabilityEnvKey_def)
  then show ?thesis by (auto simp: launchEnv_def Let_def gget_putSafe_token)
qed

definition sandboxDirs :: "string list" where
  "sandboxDirs = [''input'', ''work'', ''output'', ''lessons'']"

lemma sandboxDirs_plain: "d \<in> set sandboxDirs \<Longrightarrow> plainName d"
  by (auto simp: sandboxDirs_def plainName_def)

lemma validateExtraMount_Nil:
  assumes "validateExtraMount m = []" and "d \<in> set sandboxDirs"
  shows "\<not> pathWithin (xm_mountPath m) (''/'' @ d) \<and> cleanPath (xm_sourcePath m) \<notin> {''/'', ''/var/run/docker.sock''}"
  using assms pathWithin_top [of "xm_mountPath m" d] sandboxDirs_plain [OF assms(2)]
  by (auto simp: validateExtraMount_def Let_def sandboxDirs_def)

lemma sandboxErrors_parts:
  assumes "sandboxErrors re c = []"
  shows "gget (sg_templates c) n = Some t \<Longrightarrow> validateTemplate re c n t = []"
    and "gget (sg_bundles c) k = Some b \<Longrightarrow> validateBundle k b = []"
    and "gget (sg_networks c) w = Some nw \<Longrightarrow> validateNetwork w nw = []"
    and "gget (sg_launchProfiles c) l = Some p \<Longrightarrow> validateLaunchProfile re c l p = []"
  using assms by (auto simp: sandboxErrors_def concat_map_Nil dest!: gget_SomeD)

lemma validateTemplate_Nil:
  assumes "validateTemplate re c n t = []"
  shows "trimSpace (sb_user t) \<noteq> [] \<and> sb_user t \<noteq> ''0'' \<and> sb_user t \<noteq> ''root''"
    and "\<exists>nw. gget (sg_networks c) (sb_networkPolicy t) = Some nw"
    and "\<forall>m \<in> set (sb_extraMounts t). validateExtraMount m = []"
    and "sb_credentialBundle t \<noteq> [] \<Longrightarrow> \<exists>b. gget (sg_bundles c) (sb_credentialBundle t) = Some b \<and> n \<in> set (bd_allowedTemplates b)"
    and "sg_production c \<Longrightarrow> sb_agentType t = [] \<Longrightarrow> containsStr (trimSpace (sb_image t)) ''@sha256:''"
    and "1 \<le> sb_maxRuntimeMinutes t"
    and "sb_capability t = Some pol \<Longrightarrow> sb_agentType t \<noteq> [] \<and> validateCapabilityPolicy pol = []"
  using assms
  by (auto simp: validateTemplate_def Let_def concat_map_Nil split: if_splits option.splits)

text \<open>C35. What the validation at the start restricts in every container that is asked for. The user is not blank and is not
  written \<open>0\<close> or \<open>root\<close>. The network is one of the configuration, with neither internet nor general DNS allowed, and is neither the
  host's nor another container's. What is mounted is the directories of the run; the credential bundle of the template, read-only, only into
  templates that it allows and not Docker's socket; and the extra mounts of the template, none of them over a directory
  of the run and none of them the root of the host or Docker's socket itself. The capability handle is the only value
  under its key in the environment, whatever environment the template configures. This is what is refused by its spelling, and less than
  containment: the user \<open>0:0\<close>, the directory that holds Docker's socket, and a bundle that is mounted over a directory of the run
  by a path that is not clean are let through (the three lemmas below).\<close>

theorem validated_launch_is_restricted:
  assumes "sandboxErrors re cfg = []" and "gget (sg_templates cfg) (rm_template meta) = Some t"
    and "runtimeSpec cfg meta t handle = Inr spec"
  shows "trimSpace (ru_user spec) \<noteq> [] \<and> ru_user spec \<notin> {''0'', ''root''} \<and>
         gget (sg_networks cfg) (sb_networkPolicy t) = Some (ru_network spec) \<and>
         \<not> nw_allowInternet (ru_network spec) \<and> \<not> nw_allowGeneralDNS (ru_network spec) \<and>
         \<not> equalFold (nw_network (ru_network spec)) ''host'' \<and> \<not> hasPrefix (nw_network (ru_network spec)) ''container:'' \<and>
         (\<forall>m \<in> set (ru_mounts spec).
            m \<in> set (runMounts cfg (rm_runID meta)) \<or>
            (\<exists>b. gget (sg_bundles cfg) (sb_credentialBundle t) = Some b \<and> rm_template meta \<in> set (bd_allowedTemplates b) \<and>
               m = \<lparr>mt_source = bd_sourcePath b, mt_target = bd_mountPath b, mt_readOnly = True\<rparr> \<and>
               cleanPath (mt_source m) \<noteq> ''/var/run/docker.sock'') \<or>
            (m \<in> extraMountOf ` set (sb_extraMounts t) \<and> cleanPath (mt_source m) \<notin> {''/'', ''/var/run/docker.sock''} \<and>
             (\<forall>d \<in> set sandboxDirs. \<not> pathWithin (mt_target m) (''/'' @ d)))) \<and>
         gget (ru_env spec) capabilityEnvKey = (if handle = [] then None else Some handle)"
proof -
  note V = sandboxErrors_parts [OF assms(1)]
  note T = validateTemplate_Nil [OF V(1) [OF assms(2)]]
  obtain nw where nw: "gget (sg_networks cfg) (sb_networkPolicy t) = Some nw" using T(2) by blast
  then have net: "networkOf cfg t = nw" by (simp add: networkOf_def)
  obtain bm where bm: "bundleMounts cfg meta t = Inr bm"
    and spec: "ru_user spec = sb_user t" "ru_network spec = nw" "ru_env spec = launchEnv cfg meta t handle"
      "ru_mounts spec = runMounts cfg (rm_runID meta) @ bm @ map extraMountOf (sb_extraMounts t)"
    using assms(3) unfolding runtimeSpec_def net by (auto split: sum.splits)
  have nwok: "\<not> nw_allowInternet nw" "\<not> nw_allowGeneralDNS nw" "\<not> equalFold (nw_network nw) ''host''"
    "\<not> hasPrefix (nw_network nw) ''container:''"
    using V(3) [OF nw] by (auto simp: validateNetwork_def)
  have bnd: "\<exists>b. gget (sg_bundles cfg) (sb_credentialBundle t) = Some b \<and> rm_template meta \<in> set (bd_allowedTemplates b) \<and>
      m = \<lparr>mt_source = bd_sourcePath b, mt_target = bd_mountPath b, mt_readOnly = True\<rparr> \<and>
      cleanPath (mt_source m) \<noteq> ''/var/run/docker.sock''" if mem: "m \<in> set bm" for m
  proof -
    obtain b where b: "gget (sg_bundles cfg) (sb_credentialBundle t) = Some b" "rm_template meta \<in> set (bd_allowedTemplates b)"
      "m = \<lparr>mt_source = bd_sourcePath b, mt_target = bd_mountPath b, mt_readOnly = True\<rparr>"
      using bm mem by (auto simp: bundleMounts_def split: if_splits option.splits)
    moreover have "cleanPath (bd_sourcePath b) \<noteq> ''/var/run/docker.sock''"
      using V(2) [OF b(1)] by (auto simp: validateBundle_def)
    ultimately show ?thesis by auto
  qed
  have ext: "cleanPath (mt_source m) \<notin> {''/'', ''/var/run/docker.sock''} \<and>
      (\<forall>d \<in> set sandboxDirs. \<not> pathWithin (mt_target m) (''/'' @ d))" if mem: "m \<in> set (map extraMountOf (sb_extraMounts t))" for m
  proof -
    obtain x where "x \<in> set (sb_extraMounts t)" "m = extraMountOf x" using mem by auto
    with T(3) validateExtraMount_Nil [of x] show ?thesis by (auto simp: extraMountOf_def sandboxDirs_def)
  qed
  have "trimSpace (sb_user t) \<noteq> []" "sb_user t \<notin> {''0'', ''root''}" using T(1) by auto
  with nw nwok bnd ext show ?thesis unfolding spec launchEnv_capability by auto
qed

definition exampleSandbox :: sandbox_config where
  "exampleSandbox = \<lparr>sg_listen = [], sg_mcpPath = [], sg_authToken = ''tok'', sg_authTokenEnv = [], sg_runsDir = ''/runs'',
     sg_launchIntentStore = [], sg_releaseStore = ''/r'', sg_capabilityStore = ''/c'', sg_capabilityAPIToken = ''t'',
     sg_capabilityAPITokenEnv = [], sg_brokerURL = ''http://b'', sg_production = True, sg_repositories = [''o/r''],
     sg_networks = [(''private'', zeroNetwork\<lparr>nw_network := ''broker'', nw_privateBroker := True\<rparr>)], sg_bundles = [],
     sg_templates = [(''t'', exampleTemplate)], sg_launchProfiles = [(''fixer'', exampleProfile)], sg_modelPolicies = [],
     sg_masterAuthPath = [], sg_issuanceRoot = [], sg_operatorPrincipals = [], sg_agentReleasePolicies = [],
     sg_maxTaskBytes = 1000, sg_maxParameterBytes = 1000, sg_logByteLimit = 1000, sg_terminalResultByteLimit = 1000,
     sg_releaseArtifactByteLimit = 0, sg_stopGrace = 0, sg_configVersion = ''v1''\<rparr>"

lemma exampleSandbox_ok: "sandboxErrors (\<lambda>_. None) exampleSandbox = []"
  by code_simp

definition exampleRun :: run_metadata where
  "exampleRun = exampleMetadata\<lparr>rm_workItemID := ''w1'', rm_image := ''img'', rm_brokerAgentID := ''a''\<rparr>"

theorem validated_launch_is_restricted_witness:
  "\<exists>spec. runtimeSpec exampleSandbox exampleRun exampleTemplate ''h1'' = Inr spec \<and>
     gget (ru_env spec) capabilityEnvKey = Some ''h1'' \<and> nw_network (ru_network spec) = ''broker''"
proof -
  have t: "gget (sg_templates exampleSandbox) (rm_template exampleRun) = Some exampleTemplate"
    by (simp add: exampleSandbox_def exampleRun_def exampleMetadata_def)
  obtain spec where spec: "runtimeSpec exampleSandbox exampleRun exampleTemplate ''h1'' = Inr spec"
    by (simp add: runtimeSpec_def bundleMounts_def exampleTemplate_def)
  have nw: "gget (sg_networks exampleSandbox) (sb_networkPolicy exampleTemplate) =
      Some (zeroNetwork\<lparr>nw_network := ''broker'', nw_privateBroker := True\<rparr>)"
    by (simp add: exampleSandbox_def exampleTemplate_def)
  note V = validated_launch_is_restricted [OF exampleSandbox_ok t spec]
  have "ru_network spec = zeroNetwork\<lparr>nw_network := ''broker'', nw_privateBroker := True\<rparr>"
    using V nw by (metis option.inject)
  with V spec show ?thesis by simp
qed

text \<open>What the validation of the user lets through: the user and group ids of root, written together.\<close>

lemma root_ids_accepted:
  "let t = exampleTemplate\<lparr>sb_user := ''0:0''\<rparr>; cfg = exampleSandbox\<lparr>sg_templates := [(''t'', t)]\<rparr>
   in sandboxErrors (\<lambda>_. None) cfg = [] \<and>
      (case runtimeSpec cfg exampleRun t ''h1'' of Inl e \<Rightarrow> False | Inr spec \<Rightarrow> ru_user spec = ''0:0'')"
  by code_simp

text \<open>What the validation of mounts lets through: a directory that holds Docker's socket, and a bundle over a directory
  of the run whose path is not clean.\<close>

lemma docker_socket_directory_accepted:
  "validateExtraMount \<lparr>xm_sourcePath = ''/var/run'', xm_mountPath = ''/host'', xm_readOnly = False\<rparr> = [] \<and>
   pathWithin ''/var/run/docker.sock'' ''/var/run''"
  by code_simp

lemma bundle_over_run_directory_accepted:
  "validateBundle ''b'' \<lparr>bd_sourcePath = ''/srv/creds'', bd_mountPath = ''/x/../work'', bd_readOnly = True,
     bd_allowedTemplates = [''t''], bd_secretFiles = [], bd_redactFiles = []\<rparr> = [] \<and> cleanPath ''/x/../work'' = ''/work''"
  by code_simp

section \<open>Accepted launches\<close>

lemma Resolve_row:
  assumes "rel_inv s" and "Resolve fails t s = Inr r"
  shows "\<exists>row \<in> set (rg_rows s). rl_agentType row = t \<and> rl_state row = StateActive \<and> rl_available row \<and> r = scanRelease row \<and>
    re_match digestPinnedReference (rl_imageReference row) \<and> rel_digestOf (rl_imageReference row) = Inr (rl_imageDigest row)"
proof -
  obtain row where row: "findActive s t = Some row" "r = scanRelease row" "rl_available row"
    using assms(2) by (auto simp: Resolve_def activeTx_Inr split: sum.splits if_splits)
  then have "row \<in> set (rg_rows s)" "rl_agentType row = t" "rl_state row = StateActive" by (auto dest: findActive_SomeD)
  moreover from this have "re_match digestPinnedReference (rl_imageReference row) \<and>
      rel_digestOf (rl_imageReference row) = Inr (rl_imageDigest row)"
    using assms(1) by (force simp: rel_inv_def static_inv_def artifacts_def artifact_def)
  ultimately show ?thesis using row by blast
qed

lemma validateLaunch_Inr:
  assumes "validateLaunch re cfg run i = Inr (t, runID, branch, limit)"
  shows "gget (sg_templates cfg) (la_template i) = Some t \<and> run = Some runID \<and> branch = launchBranch cfg i t runID \<and>
    runtimeLimit i t = Inr limit \<and> validRepo (la_repo i) \<and> containsFold (sg_repositories cfg) (la_repo i) \<and>
    int (length (la_task i)) \<le> sg_maxTaskBytes cfg \<and> safeBranch branch \<and>
    (bp_allowedPatterns (sb_branchPolicy t) = [] \<or> matchesAny re (bp_allowedPatterns (sb_branchPolicy t)) branch) \<and>
    (bp_baseBranches (sb_branchPolicy t) = [] \<or> la_baseBranch i \<in> set (bp_baseBranches (sb_branchPolicy t)))"
  using assms unfolding validateLaunch_def Let_def
  by (auto split: if_splits option.splits sum.splits simp del: containsFold_iff)

text \<open>C36. An accepted launch is within what the deployment allows. The repository and the base branch are allowed,
  the branch is safe and matches the patterns of the template, and the running time is positive and at most the template's, as long as
  the seconds asked for fit a duration; and when the template names an agent type, the image of the run is the image of
  the release that is active and available for it, pinned by its digest, and the run records the generation: an agent type
  never falls back to the image of the configuration.\<close>

theorem accepted_launch_is_within_policy:
  assumes "sandboxErrors re cfg = []" and "\<And>reg. releases = Some reg \<Longrightarrow> rel_inv reg"
    and "selectLaunchTemplate re cfg run fails releases i = Inr sel"
    and "gget (sg_templates cfg) (la_template i) = Some t" and "sb_maxRuntimeMinutes t \<le> maxMinutes"
  shows "containsFold (sg_repositories cfg) (la_repo i) \<and> safeBranch (sl_branch sel) \<and>
         (bp_allowedPatterns (sb_branchPolicy t) = [] \<or> matchesAny re (bp_allowedPatterns (sb_branchPolicy t)) (sl_branch sel)) \<and>
         (bp_baseBranches (sb_branchPolicy t) = [] \<or> la_baseBranch i \<in> set (bp_baseBranches (sb_branchPolicy t))) \<and>
         sl_limit sel \<le> sb_maxRuntimeMinutes t * 60000000000 \<and>
         (la_maxRuntimeSeconds i \<le> maxSeconds \<longrightarrow> 0 < sl_limit sel) \<and>
         (if sb_agentType t = [] then sl_release sel = None \<and> sl_template sel = t
          else \<exists>reg row. releases = Some reg \<and> row \<in> set (rg_rows reg) \<and> rl_agentType row = sb_agentType t \<and>
            rl_state row = StateActive \<and> rl_available row \<and>
            rel_digestOf (rl_imageReference row) = Inr (rl_imageDigest row) \<and>
            rm_image (profileMetadata cfg now who prof key fp i sel) \<in> {rl_imageReference row, rl_imageDigest row} \<and>
            rm_imageDigest (profileMetadata cfg now who prof key fp i sel) = rl_imageDigest row \<and>
            rm_releaseGeneration (profileMetadata cfg now who prof key fp i sel) = rl_generation row)"
proof -
  obtain t' runID branch limit where v: "validateLaunch re cfg run i = Inr (t', runID, branch, limit)"
    using assms(3) unfolding selectLaunchTemplate_def by (auto split: sum.splits)
  note V = validateLaunch_Inr [OF v]
  have t': "t' = t" using V assms(4) by simp
  have "1 \<le> sb_maxRuntimeMinutes t"
    using validateTemplate_Nil(6) [OF sandboxErrors_parts(1) [OF assms(1,4)]] .
  from runtimeLimit_Inr [OF _ this assms(5)] V
  have lim: "limit \<le> sb_maxRuntimeMinutes t * 60000000000" "la_maxRuntimeSeconds i \<le> maxSeconds \<longrightarrow> 0 < limit"
    unfolding t' by blast+
  have img: "rm_image (profileMetadata cfg now who prof key fp i sel) = sb_image (sl_template sel)"
    by (auto simp: profileMetadata_def Let_def applyResolvedRelease_def split: option.splits)
  have rel: "rm_imageDigest (profileMetadata cfg now who prof key fp i sel) = rd_imageDigest r"
    "rm_releaseGeneration (profileMetadata cfg now who prof key fp i sel) = rd_generation r" if "sl_release sel = Some r" for r
    using that by (auto simp: profileMetadata_def Let_def applyResolvedRelease_def split: option.splits)
  show ?thesis
  proof (cases "sb_agentType t = []")
    case True
    then have "sel = \<lparr>sl_template = t, sl_runID = runID, sl_branch = branch, sl_limit = limit, sl_release = None\<rparr>"
      using assms(3) by (simp add: selectLaunchTemplate_def v t')
    then show ?thesis using True V lim t' by auto
  next
    case False
    then obtain reg r where r: "releases = Some reg" "resolveRelease fails reg (sb_agentType t) = Inr r"
      and sel: "sl_release sel = Some r" "sl_branch sel = branch" "sl_limit sel = limit"
        "sb_image (sl_template sel) \<in> {rd_imageReference r, rd_imageDigest r}"
      using assms(3) by (auto simp: selectLaunchTemplate_def v t' Let_def split: option.splits sum.splits if_splits)
    obtain row where "row \<in> set (rg_rows reg)" "rl_agentType row = sb_agentType t" "rl_state row = StateActive"
      "rl_available row" "rel_digestOf (rl_imageReference row) = Inr (rl_imageDigest row)"
      "rd_generation r = rl_generation row" "rd_imageReference r = rl_imageReference row" "rd_imageDigest r = rl_imageDigest row"
      using r(2) Resolve_row [OF assms(2) [OF r(1)]] by (fastforce simp: resolveRelease_def split: sum.splits)
    with r(1) sel rel [OF sel(1)] V lim t' False img show ?thesis by auto
  qed
qed

theorem accepted_launch_is_within_policy_witness:
  "\<exists>sel. selectLaunchTemplate (\<lambda>_. None) exampleSandbox (Some ''r1'') False (Some exampleRegistry) (sp_input exampleProfile) =
       Inr sel \<and> sl_limit sel = 3600000000000 \<and>
     rl_imageDigest (hd (rg_rows exampleRegistry)) =
       rm_imageDigest (profileMetadata exampleSandbox 7 ''ops'' ''fixer'' ''k'' ''fp'' (sp_input exampleProfile) sel)"
proof -
  let ?i = "sp_input exampleProfile"
  have t: "gget (sg_templates exampleSandbox) (la_template ?i) = Some exampleTemplate"
    by (simp add: exampleSandbox_def exampleProfile_def)
  have v: "validateLaunch (\<lambda>_. None) exampleSandbox (Some ''r1'') ?i =
      Inr (exampleTemplate, ''r1'', ''agent/a/r1'', 3600000000000)" by code_simp
  have "sb_agentType exampleTemplate = ''coder''" by (simp add: exampleTemplate_def)
  moreover have "Resolve False ''coder'' exampleRegistry =
      Inr (scanRelease (exampleRelease 1 StateActive True (exampleDigest (CHR ''a''))))"
    by (simp add: Resolve_def activeTx_def findActive_def exampleRegistry_def exampleRelease_def)
  ultimately obtain sel where sel: "selectLaunchTemplate (\<lambda>_. None) exampleSandbox (Some ''r1'') False (Some exampleRegistry) ?i =
      Inr sel" "sl_limit sel = 3600000000000"
    by (simp add: selectLaunchTemplate_def v resolveRelease_def Let_def)
  have "sb_maxRuntimeMinutes exampleTemplate \<le> maxMinutes" by (simp add: exampleTemplate_def maxMinutes_def)
  from accepted_launch_is_within_policy [OF exampleSandbox_ok _ sel(1) t this, of 7 "''ops''" "''fixer''" "''k''" "''fp''"]
    rel_inv_example
  obtain row where "row \<in> set (rg_rows exampleRegistry)" "rl_state row = StateActive"
    "rm_imageDigest (profileMetadata exampleSandbox 7 ''ops'' ''fixer'' ''k'' ''fp'' ?i sel) = rl_imageDigest row"
    by (auto simp: exampleTemplate_def)
  with sel show ?thesis by (auto simp: exampleRegistry_def exampleRelease_def)
qed

end
