(* ===== verification/Docker_Runtime.thy ===== *)
theory Docker_Runtime
  imports Sandbox_Policy
begin

text \<open>
  The Docker backend of the sandbox (\<open>src/internal/sandbox/runtime.go\<close>): the request that creates a container, the
  adoption of a container that is already there under the name of the run, and what an inspection says.

  Docker itself is the parameter \<open>docker_api\<close>, operations on a state of its own, each of which can fail with or without
  an effect. \<open>docker_laws\<close> states what Docker documents and the launch relies on: which calls can start a container, and
  that an inspection tells whether it was ever started. Times of an inspection are given parsed; the fingerprint of a
  runtime specification (SHA-256 of its JSON) is an argument.
\<close>

section \<open>Data\<close>

record host_config =
  hc_readonlyRootfs :: bool
  hc_securityOpt :: "string list"
  hc_capDrop :: "string list"
  hc_networkMode :: string
  hc_binds :: "string list"
  hc_pidsLimit :: int
  hc_memory :: int
  hc_cpuWeight :: int
  hc_autoRemove :: bool
  hc_privileged :: bool
  hc_publishAllPorts :: bool
  hc_tmpfs :: "string gomap"
  hc_storageOpt :: "string gomap"

record create_request =
  dc_image :: string
  dc_entrypoint :: "string list"
  dc_cmd :: "string list"
  dc_user :: string
  dc_env :: "string list"
  dc_labels :: "string gomap"
  dc_workingDir :: string
  dc_hostConfig :: host_config

record inspect_response =
  di_id :: string
  di_name :: string
  di_image :: string
  di_platform :: string
  di_labels :: "string gomap"
  di_running :: bool
  di_exitCode :: int
  di_error :: string
  di_startedAt :: gotime
  di_finishedAt :: gotime

record container_status =
  cst_id :: string
  cst_running :: bool
  cst_exitCode :: "int option"
  cst_startedAt :: gotime
  cst_endedAt :: gotime
  cst_error :: string

datatype lifecycle = NeverStarted | ContainerRunning | ContainerExited

record container_info =
  cinf_id :: string
  cinf_imageDigest :: string
  cinf_platform :: string
  cinf_existing :: bool
  cinf_lifecycle :: lifecycle
  cinf_status :: "container_status option"

datatype create_answer = Created string | CreateConflict | CreateFailed

datatype stop_answer = StopDone | StopNotModified string | StopFailed string

record 'g docker_api =
  dk_create :: "string \<Rightarrow> create_request \<Rightarrow> 'g \<Rightarrow> create_answer \<times> 'g"
  dk_inspect :: "string \<Rightarrow> 'g \<Rightarrow> inspect_response option \<times> 'g"
  dk_start :: "string \<Rightarrow> 'g \<Rightarrow> bool \<times> 'g"
  dk_image :: "string \<Rightarrow> 'g \<Rightarrow> (string \<times> string) option \<times> 'g"
  dk_wait :: "string \<Rightarrow> 'g \<Rightarrow> (int \<times> string) option \<times> 'g"
  dk_stop :: "string \<Rightarrow> int \<Rightarrow> 'g \<Rightarrow> stop_answer \<times> 'g"
  dk_remove :: "string \<Rightarrow> 'g \<Rightarrow> bool \<times> 'g"

section \<open>Requests\<close>

text \<open>\<open>strings.Cut\<close> at the first colon.\<close>

fun cutColon :: "string \<Rightarrow> (string \<times> string) option" where
  "cutColon [] = None"
| "cutColon (c # s) = (if c = CHR '':'' then Some ([], s) else map_option (\<lambda>(a, b). (c # a, b)) (cutColon s))"

definition isDigit :: "char \<Rightarrow> bool" where
  "isDigit c \<longleftrightarrow> (let n = (of_char c :: nat) in 48 \<le> n \<and> n \<le> 57)"

definition tmpfsOptions :: "int gomap \<Rightarrow> string \<Rightarrow> string gomap option" where
  "tmpfsOptions entries user =
     (if length entries = 0 then Some []
      else case cutColon user of
        None \<Rightarrow> None
      | Some (uid, gid) \<Rightarrow>
          if uid = [] \<or> gid = [] then None
          else if \<not> list_all isDigit (uid @ gid) then None
          else Some (map (\<lambda>(target, sizeMB). (target, ''rw,noexec,nosuid,nodev,size='' @ formatInt sizeMB @
                 ''m,mode=0700,uid='' @ uid @ '',gid='' @ gid)) entries))"

definition binds :: "mount list \<Rightarrow> string list" where
  "binds mounts =
     map (\<lambda>m. cleanPath (mt_source m) @ '':'' @ mt_target m @ '':'' @ (if mt_readOnly m then ''ro'' else ''rw'')) mounts"

definition envList :: "string gomap \<Rightarrow> string list" where
  "envList env = map (\<lambda>(k, v). k @ ''='' @ v) env"

definition storageOptions :: "int \<Rightarrow> string gomap" where
  "storageOptions sizeMB = (if sizeMB < 1 then [] else [(''size'', formatInt sizeMB @ ''M'')])"

definition networkMode :: "network_policy \<Rightarrow> string" where
  "networkMode n = (if nw_none n then ''none'' else nw_network n)"

definition createRequest :: "runtime_spec \<Rightarrow> string gomap \<Rightarrow> create_request" where
  "createRequest spec tmpfs =
     \<lparr>dc_image = ru_image spec, dc_entrypoint = ru_entrypoint spec, dc_cmd = ru_command spec, dc_user = ru_user spec,
      dc_env = envList (ru_env spec), dc_labels = ru_labels spec, dc_workingDir = ru_workingDir spec,
      dc_hostConfig =
        \<lparr>hc_readonlyRootfs = False, hc_securityOpt = [''no-new-privileges''], hc_capDrop = [''ALL''],
         hc_networkMode = networkMode (ru_network spec), hc_binds = binds (ru_mounts spec),
         hc_pidsLimit = rz_pidsLimit (ru_resources spec), hc_memory = wrap64 (rz_memoryMB (ru_resources spec) * 1024 * 1024),
         hc_cpuWeight = rz_cpuShares (ru_resources spec), hc_autoRemove = False, hc_privileged = False,
         hc_publishAllPorts = False, hc_tmpfs = tmpfs, hc_storageOpt = storageOptions (ru_storageLimitMB spec)\<rparr>\<rparr>"

section \<open>Operations\<close>

definition specLabel :: string where
  "specLabel = ''gh-agent-broker.launch_spec''"

definition runtimeSpecDigest :: "(runtime_spec \<Rightarrow> string) \<Rightarrow> runtime_spec \<Rightarrow> string" where
  "runtimeSpecDigest fingerprint spec = fingerprint (spec\<lparr>ru_labels := gdel specLabel (ru_labels spec)\<rparr>)"

definition containerName :: "string \<Rightarrow> string" where
  "containerName runID = ''sandbox-'' @ runID"

definition dockerContainerStatus :: "inspect_response \<Rightarrow> container_status" where
  "dockerContainerStatus out =
     \<lparr>cst_id = di_id out, cst_running = di_running out,
      cst_exitCode = (if \<not> di_running out then Some (di_exitCode out) else None), cst_startedAt = di_startedAt out,
      cst_endedAt = di_finishedAt out, cst_error = di_error out\<rparr>"

definition lifecycleOf :: "container_status \<Rightarrow> lifecycle" where
  "lifecycleOf st =
     (if isZero (cst_startedAt st) then NeverStarted else if cst_running st then ContainerRunning else ContainerExited)"

definition Inspect :: "'g docker_api \<Rightarrow> string \<Rightarrow> 'g \<Rightarrow> container_status option \<times> 'g" where
  "Inspect dk cid g = (case dk_inspect dk cid g of (out, g1) \<Rightarrow> (map_option dockerContainerStatus out, g1))"

definition adopt :: "'g docker_api \<Rightarrow> (runtime_spec \<Rightarrow> string) \<Rightarrow> runtime_spec \<Rightarrow> 'g \<Rightarrow> container_info option \<times> 'g" where
  "adopt dk fingerprint spec g =
     (case dk_inspect dk (containerName (ru_runID spec)) g of
        (None, g1) \<Rightarrow> (None, g1)
      | (Some out, g1) \<Rightarrow>
          if di_name out \<noteq> ''/'' @ containerName (ru_runID spec) \<or>
             gstr (di_labels out) ''gh-agent-broker.run_id'' \<noteq> ru_runID spec \<or>
             gstr (di_labels out) specLabel \<noteq> runtimeSpecDigest fingerprint spec
          then (None, g1)
          else
            (Some \<lparr>cinf_id = di_id out, cinf_imageDigest = di_image out, cinf_platform = di_platform out,
                   cinf_existing = True, cinf_lifecycle = lifecycleOf (dockerContainerStatus out),
                   cinf_status = Some (dockerContainerStatus out)\<rparr>, g1))"

definition createContainer :: "'g docker_api \<Rightarrow> (runtime_spec \<Rightarrow> string) \<Rightarrow> runtime_spec \<Rightarrow> 'g \<Rightarrow> container_info option \<times> 'g" where
  "createContainer dk fingerprint spec0 g =
     (let spec = spec0\<lparr>ru_labels := gput specLabel (runtimeSpecDigest fingerprint spec0) (ru_labels spec0)\<rparr> in
      case dk_image dk (ru_image spec) g of
        (img, g1) \<Rightarrow>
          (let imageDigest = (case img of None \<Rightarrow> ru_image spec | Some (d, p) \<Rightarrow> d);
               platform = (case img of None \<Rightarrow> [] | Some (d, p) \<Rightarrow> p)
           in case tmpfsOptions (ru_tmpfs spec) (ru_user spec) of
                None \<Rightarrow> (None, g1)
              | Some tmpfs \<Rightarrow>
                  (case dk_create dk (containerName (ru_runID spec)) (createRequest spec tmpfs) g1 of
                     (Created cid, g2) \<Rightarrow>
                       (Some \<lparr>cinf_id = cid, cinf_imageDigest = imageDigest, cinf_platform = platform,
                              cinf_existing = False, cinf_lifecycle = NeverStarted, cinf_status = None\<rparr>, g2)
                   | (CreateConflict, g2) \<Rightarrow> adopt dk fingerprint spec g2
                   | (CreateFailed, g2) \<Rightarrow> (None, g2))))"

definition startContainer :: "'g docker_api \<Rightarrow> string \<Rightarrow> 'g \<Rightarrow> bool \<times> 'g" where
  "startContainer dk cid g = dk_start dk cid g"

text \<open>\<open>WaitExit\<close> is \<open>Wait\<close>: it returns when the container has ended, with what an inspection then says, completed by the
  answer of the wait.\<close>

definition WaitExit :: "'g docker_api \<Rightarrow> string \<Rightarrow> 'g \<Rightarrow> container_status option \<times> 'g" where
  "WaitExit dk cid g =
     (case dk_wait dk cid g of
        (None, g1) \<Rightarrow> (None, g1)
      | (Some (code, message), g1) \<Rightarrow>
          (case Inspect dk cid g1 of
             (None, g2) \<Rightarrow> (None, g2)
           | (Some st, g2) \<Rightarrow>
               (let st1 = (if cst_exitCode st = None \<and> code \<noteq> 0 then st\<lparr>cst_exitCode := Some code\<rparr> else st)
                in (Some (if cst_error st1 = [] \<and> message \<noteq> [] then st1\<lparr>cst_error := message\<rparr> else st1), g2))))"

definition truncSecondsOf :: "int \<Rightarrow> int" where
  "truncSecondsOf grace = max 1 (truncSeconds grace)"

definition stopContainer :: "'g docker_api \<Rightarrow> string \<Rightarrow> int \<Rightarrow> 'g \<Rightarrow> stop_answer \<times> 'g" where
  "stopContainer dk cid grace g = dk_stop dk cid (truncSecondsOf grace) g"

definition removeContainer :: "'g docker_api \<Rightarrow> string \<Rightarrow> 'g \<Rightarrow> bool \<times> 'g" where
  "removeContainer dk cid g = dk_remove dk cid g"

section \<open>What Docker promises\<close>

text \<open>What can be told of a state of Docker: how often the process of a container was started, the name a container was
  created under, also when it has been removed since, and the create requests received, in order.\<close>

record 'g docker_view =
  dv_starts :: "'g \<Rightarrow> string \<Rightarrow> nat"
  dv_owner :: "'g \<Rightarrow> string \<Rightarrow> string option"
  dv_requests :: "'g \<Rightarrow> (string \<times> create_request) list"

text \<open>Only a start call starts a container, that container only and at most once, whatever it answers. A create call makes
  at most containers of its name, with ids that were never used, and they were never started; it starts and renames none.
  An inspection by id answers for that container, one by a name \<open>sandbox-\<close>\<open>n\<close> may answer for any, but the name in the
  answer is that of the container; it tells whether the container was ever started. The other calls start, create and
  rename nothing. Ids are hexadecimal, so they do not look like such names.\<close>

definition containerID :: "string \<Rightarrow> bool" where
  "containerID cid \<longleftrightarrow> \<not> hasPrefix cid ''sandbox-''"

definition idle :: "'g docker_view \<Rightarrow> 'g \<Rightarrow> 'g \<Rightarrow> bool" where
  "idle V g h \<longleftrightarrow> dv_starts V h = dv_starts V g \<and> dv_owner V h = dv_owner V g \<and> dv_requests V h = dv_requests V g"

definition create_law :: "'g docker_api \<Rightarrow> 'g docker_view \<Rightarrow> bool" where
  "create_law dk V \<longleftrightarrow>
     (\<forall>name req g. dv_requests V (snd (dk_create dk name req g)) = dv_requests V g @ [(name, req)] \<and>
        dv_starts V (snd (dk_create dk name req g)) = dv_starts V g \<and>
        (\<forall>c n. dv_owner V g c = Some n \<longrightarrow> dv_owner V (snd (dk_create dk name req g)) c = Some n) \<and>
        (\<forall>c n. dv_owner V (snd (dk_create dk name req g)) c = Some n \<longrightarrow> dv_owner V g c = Some n \<or> dv_starts V g c = 0) \<and>
        (\<forall>cid. fst (dk_create dk name req g) = Created cid \<longrightarrow>
           containerID cid \<and> dv_owner V g cid = None \<and> dv_owner V (snd (dk_create dk name req g)) cid = Some name))"

definition inspect_law :: "'g docker_api \<Rightarrow> 'g docker_view \<Rightarrow> bool" where
  "inspect_law dk V \<longleftrightarrow>
     (\<forall>key g. idle V g (snd (dk_inspect dk key g)) \<and>
        (\<forall>out. fst (dk_inspect dk key g) = Some out \<longrightarrow>
           containerID (di_id out) \<and> (containerID key \<longrightarrow> di_id out = key) \<and>
           (\<forall>n. di_name out = ''/'' @ n \<longrightarrow> dv_owner V g (di_id out) = Some n) \<and>
           (di_startedAt out = 0 \<longrightarrow> dv_starts V g (di_id out) = 0)))"

definition start_law :: "'g docker_api \<Rightarrow> 'g docker_view \<Rightarrow> bool" where
  "start_law dk V \<longleftrightarrow>
     (\<forall>cid g. (\<forall>other. other \<noteq> cid \<longrightarrow> dv_starts V (snd (dk_start dk cid g)) other = dv_starts V g other) \<and>
        dv_starts V (snd (dk_start dk cid g)) cid \<le> Suc (dv_starts V g cid) \<and>
        dv_owner V (snd (dk_start dk cid g)) = dv_owner V g \<and> dv_requests V (snd (dk_start dk cid g)) = dv_requests V g)"

definition docker_laws :: "'g docker_api \<Rightarrow> 'g docker_view \<Rightarrow> bool" where
  "docker_laws dk V \<longleftrightarrow>
     create_law dk V \<and> inspect_law dk V \<and> start_law dk V \<and>
     (\<forall>key g. idle V g (snd (dk_image dk key g))) \<and> (\<forall>cid g. idle V g (snd (dk_wait dk cid g))) \<and>
     (\<forall>cid n g. idle V g (snd (dk_stop dk cid n g))) \<and> (\<forall>cid g. idle V g (snd (dk_remove dk cid g)))"

text \<open>Under these laws: what asking for a container, inspecting, starting and ending one do.\<close>

lemma idle_refl [simp]: "idle V g g"
  by (simp add: idle_def)

lemma idle_trans [trans]: "idle V g h \<Longrightarrow> idle V h k \<Longrightarrow> idle V g k"
  by (simp add: idle_def)

lemma idle_Inspect: 
  assumes "docker_laws dk V" and "Inspect dk cid g = (st, g1)"
  shows "idle V g g1"
proof -
  have "idle V g (snd (dk_inspect dk cid g))" using assms(1) by (simp add: docker_laws_def inspect_law_def)
  then show ?thesis using assms(2) by (auto simp: Inspect_def split: prod.splits)
qed

lemma Inspect_never_started:
  assumes "docker_laws dk V" and "Inspect dk cid g = (Some x, g1)" and "containerID cid" and "cst_startedAt x = 0"
  shows "dv_starts V g cid = 0"
proof -
  have law: "inspect_law dk V" using assms(1) by (simp add: docker_laws_def)
  obtain out where out: "fst (dk_inspect dk cid g) = Some out" "x = dockerContainerStatus out"
    using assms(2) by (auto simp: Inspect_def split: prod.splits)
  then have "di_startedAt out = 0" using assms(4) by (simp add: dockerContainerStatus_def)
  then show ?thesis using law out(1) assms(3) unfolding inspect_law_def by metis
qed

lemma adopt_ok:
  assumes "docker_laws dk V" and "adopt dk fp spec g = (info, g1)"
  shows "idle V g g1"
    and "info = Some x \<Longrightarrow> containerID (cinf_id x) \<and> dv_owner V g (cinf_id x) = Some (containerName (ru_runID spec)) \<and>
      (cinf_lifecycle x = NeverStarted \<longrightarrow> dv_starts V g (cinf_id x) = 0)"
proof -
  have law: "inspect_law dk V" using assms(1) by (simp add: docker_laws_def)
  obtain out where out: "dk_inspect dk (containerName (ru_runID spec)) g = (out, g1)"
    using assms(2) unfolding adopt_def by (auto split: prod.splits option.splits if_splits)
  show "idle V g g1" using law out unfolding inspect_law_def by (metis snd_conv)
  show "containerID (cinf_id x) \<and> dv_owner V g (cinf_id x) = Some (containerName (ru_runID spec)) \<and>
      (cinf_lifecycle x = NeverStarted \<longrightarrow> dv_starts V g (cinf_id x) = 0)" if h: "info = Some x"
  proof -
    obtain o1 where o1: "out = Some o1" "cinf_id x = di_id o1" "cinf_lifecycle x = lifecycleOf (dockerContainerStatus o1)"
      "di_name o1 = ''/'' @ containerName (ru_runID spec)"
      using assms(2) h unfolding adopt_def by (auto simp: out split: option.splits if_splits)
    have "lifecycleOf (dockerContainerStatus o1) = NeverStarted \<Longrightarrow> di_startedAt o1 = 0"
      by (auto simp: lifecycleOf_def dockerContainerStatus_def isZero_def split: if_splits)
    then show ?thesis using law out o1 unfolding inspect_law_def by (metis fst_conv)
  qed
qed

text \<open>What a step that does not start anything keeps.\<close>

definition unstarting :: "'g docker_view \<Rightarrow> 'g \<Rightarrow> 'g \<Rightarrow> bool" where
  "unstarting V g h \<longleftrightarrow> dv_starts V h = dv_starts V g \<and>
     (\<forall>c n. dv_owner V g c = Some n \<longrightarrow> dv_owner V h c = Some n) \<and>
     (\<forall>c n. dv_owner V h c = Some n \<longrightarrow> dv_owner V g c = Some n \<or> dv_starts V g c = 0)"

lemma idle_unstarting: "idle V g h \<Longrightarrow> unstarting V g h"
  by (simp add: idle_def unstarting_def)

lemma unstarting_trans: "unstarting V g h \<Longrightarrow> unstarting V h k \<Longrightarrow> unstarting V g k"
  unfolding unstarting_def by metis

lemma createContainer_ok:
  assumes "docker_laws dk V" and "createContainer dk fp spec g = (info, g1)"
  shows "unstarting V g g1"
    and "info = Some x \<Longrightarrow> containerID (cinf_id x) \<and> dv_owner V g1 (cinf_id x) = Some (containerName (ru_runID spec)) \<and>
      (cinf_lifecycle x = NeverStarted \<longrightarrow> dv_starts V g1 (cinf_id x) = 0)"
    and "dv_requests V g1 = dv_requests V g \<or>
      (\<exists>req. dv_requests V g1 = dv_requests V g @ [(containerName (ru_runID spec), req)] \<and> dc_env req = envList (ru_env spec))"
proof -
  have cl: "create_law dk V" and il: "\<And>key g. idle V g (snd (dk_image dk key g))"
    using assms(1) by (auto simp: docker_laws_def)
  let ?spec = "spec\<lparr>ru_labels := gput specLabel (runtimeSpecDigest fp spec) (ru_labels spec)\<rparr>"
  let ?new = "\<lambda>x. containerID (cinf_id x) \<and> dv_owner V g1 (cinf_id x) = Some (containerName (ru_runID spec)) \<and>
      (cinf_lifecycle x = NeverStarted \<longrightarrow> dv_starts V g1 (cinf_id x) = 0)"
  let ?asked = "dv_requests V g1 = dv_requests V g \<or>
      (\<exists>req. dv_requests V g1 = dv_requests V g @ [(containerName (ru_runID spec), req)] \<and> dc_env req = envList (ru_env spec))"
  obtain img g0 where g0: "dk_image dk (ru_image spec) g = (img, g0)" by fastforce
  then have pre: "idle V g g0" using il [of g "ru_image spec"] by simp
  have "unstarting V g g1 \<and> (\<forall>x. info = Some x \<longrightarrow> ?new x) \<and> ?asked"
  proof (cases "tmpfsOptions (ru_tmpfs spec) (ru_user spec)")
    case None
    then have "info = None" "g1 = g0" using assms(2) by (auto simp: createContainer_def Let_def g0)
    then show ?thesis using idle_unstarting [OF pre] pre by (auto simp: idle_def)
  next
    case (Some tmpfs)
    let ?req = "createRequest ?spec tmpfs"
    obtain ans g2 where c: "dk_create dk (containerName (ru_runID spec)) ?req g0 = (ans, g2)" by fastforce
    have c2: "unstarting V g0 g2" "dv_requests V g2 = dv_requests V g0 @ [(containerName (ru_runID spec), ?req)]"
      "\<And>new. ans = Created new \<Longrightarrow> containerID new \<and> dv_owner V g2 new = Some (containerName (ru_runID spec)) \<and> dv_starts V g2 new = 0"
      using cl c unfolding create_law_def unstarting_def by (metis fst_conv snd_conv option.distinct(1))+
    have u: "unstarting V g g2" using unstarting_trans [OF idle_unstarting [OF pre] c2(1)] .
    have env: "dc_env ?req = envList (ru_env spec)" by (simp add: createRequest_def)
    have run: "(case (ans, g2) of
          (Created new, g2) \<Rightarrow> (Some \<lparr>cinf_id = new, cinf_imageDigest = (case img of None \<Rightarrow> ru_image spec | Some (d, p) \<Rightarrow> d),
             cinf_platform = (case img of None \<Rightarrow> [] | Some (d, p) \<Rightarrow> p), cinf_existing = False,
             cinf_lifecycle = NeverStarted, cinf_status = None\<rparr>, g2)
        | (CreateConflict, g2) \<Rightarrow> adopt dk fp ?spec g2 | (CreateFailed, g2) \<Rightarrow> (None, g2)) = (info, g1)"
      using assms(2) c Some by (cases ans; cases img) (simp_all add: createContainer_def Let_def g0 split_beta)
    have reqs: ?asked if "idle V g2 g1" using that c2(2) pre env by (auto simp: idle_def)
    show ?thesis
    proof (cases ans)
      case (Created new)
      then have "g1 = g2" "\<And>x. info = Some x \<Longrightarrow> cinf_id x = new" using run by auto
      then show ?thesis using u reqs c2(3) [OF Created] by auto
    next
      case CreateConflict
      then have "adopt dk fp ?spec g2 = (info, g1)" using run by simp
      note A = adopt_ok [OF assms(1) this]
      have same: "dv_owner V g1 = dv_owner V g2" "dv_starts V g1 = dv_starts V g2" using A(1) by (simp_all add: idle_def)
      show ?thesis using unstarting_trans [OF u idle_unstarting [OF A(1)]] reqs [OF A(1)] A(2) same by auto
    next
      case CreateFailed
      then have "g1 = g2" "info = None" using run by auto
      then show ?thesis using u reqs by auto
    qed
  qed
  then show "unstarting V g g1" "info = Some x \<Longrightarrow> ?new x" ?asked by blast+
qed

lemma startContainer_ok:
  assumes "docker_laws dk V" and "startContainer dk cid g = (ok, g1)"
  shows "other \<noteq> cid \<Longrightarrow> dv_starts V g1 other = dv_starts V g other" and "dv_starts V g1 cid \<le> Suc (dv_starts V g cid)"
    and "dv_owner V g1 = dv_owner V g" and "dv_requests V g1 = dv_requests V g"
proof -
  have g1: "g1 = snd (dk_start dk cid g)" using assms(2) by (simp add: startContainer_def)
  show "other \<noteq> cid \<Longrightarrow> dv_starts V g1 other = dv_starts V g other" "dv_starts V g1 cid \<le> Suc (dv_starts V g cid)"
    "dv_owner V g1 = dv_owner V g" "dv_requests V g1 = dv_requests V g"
    using assms(1) unfolding docker_laws_def start_law_def g1 by blast+
qed

lemma idle_stop: "docker_laws dk V \<Longrightarrow> stopContainer dk cid n g = (a, h) \<Longrightarrow> idle V g h"
  unfolding docker_laws_def stopContainer_def by (metis snd_conv)

lemma idle_remove: "docker_laws dk V \<Longrightarrow> removeContainer dk cid g = (a, h) \<Longrightarrow> idle V g h"
  unfolding docker_laws_def removeContainer_def by (metis snd_conv)

lemma idle_wait:
  assumes laws: "docker_laws dk V" and run: "WaitExit dk cid g = (st, h)"
  shows "idle V g h"
proof -
  obtain w g1 where w: "dk_wait dk cid g = (w, g1)" by fastforce
  obtain i g2 where i: "Inspect dk cid g1 = (i, g2)" by fastforce
  have g1: "idle V g g1" using laws w unfolding docker_laws_def by (metis snd_conv)
  have "h = g1 \<or> h = g2" using run i by (auto simp: WaitExit_def w Let_def split: option.splits)
  with g1 idle_trans [OF g1 idle_Inspect [OF laws i]] show ?thesis by auto
qed

end
