(* ===== verification/Sandbox_Launch.thy ===== *)
theory Sandbox_Launch
  imports Docker_Runtime
begin

text \<open>
  The launch of a run (\<open>service.go\<close> and \<open>capability_launch.go\<close> of \<open>src/internal/sandbox/\<close>): the durable state machine that
  takes a launch intent from its creation to a running container and that is resumed after a crash, and the launch without an
  idempotency key.

  The state is what outlives a call: the runs in memory, the metadata file and the terminal result of each run, the store of
  intents, the store of capabilities, and Docker. The calls of one operation that can fail do so as \<open>launch_calls\<close> says; an
  operation that stops at a failing call leaves the state as a crash at that point would. A file that cannot be written may
  have been replaced all the same (\<open>Some True\<close>). Operations run one after the other: a launch holds the lock of its key.
  The resumption of the Codex workflow is an argument of the definitions; audit events, completion status files, the files
  the worker reads and the watchers that are started are left out.
\<close>

section \<open>State\<close>

record 'g sandbox_state =
  ss_runs :: "run_metadata gomap"
  ss_files :: "run_metadata gomap"
  ss_results :: "run_metadata gomap"
  ss_intents :: intent_store
  ss_caps :: cap_store
  ss_docker :: 'g

record launch_calls =
  lcl_now :: gotime
  lcl_runID :: "string option"
  lcl_release :: bool
  lcl_lookup :: bool
  lcl_create :: faults
  lcl_prepare :: "bool option"
  lcl_issue :: faults
  lcl_issueClk :: "nat \<Rightarrow> gotime"
  lcl_random :: "string option"
  lcl_revoke :: faults
  lcl_revokeClk :: "nat \<Rightarrow> gotime"
  lcl_save :: "nat \<Rightarrow> faults"
  lcl_saveMetadata :: faults
  lcl_file :: "bool option"
  lcl_result :: "bool option"
  lcl_cleanup :: bool
  lcl_message :: "run_metadata \<Rightarrow> string"
  lcl_diagnostics :: "string option"
  lcl_remove :: "(bool \<times> bool) option"
  lcl_unreadable :: bool
  lcl_stat :: bool

record launch_output =
  lo_runID :: string
  lo_workerAgentID :: string
  lo_repo :: string
  lo_branch :: string
  lo_status :: string
  lo_deadline :: gotime
  lo_replay :: bool

definition launchOutput :: "run_metadata \<Rightarrow> launch_output" where
  "launchOutput m = \<lparr>lo_runID = rm_runID m, lo_workerAgentID = rm_workerAgentID m, lo_repo = rm_repo m,
     lo_branch = rm_branch m, lo_status = rm_status m, lo_deadline = rm_deadline m, lo_replay = False\<rparr>"

type_synonym ('a, 'g) launch_outcome = "(launch_error, 'a, 'g sandbox_state) outcome"

text \<open>The service: its configuration, the registry of releases, whether it has a capability store and a Codex issuer,
  Docker, and the functions that are arguments (SHA-256 of a handle, the digest of a key, the fingerprint of a specification,
  the JSON length of a task contract, the containers and the resumption of a Codex workflow).\<close>

record 'g service =
  sr_cfg :: sandbox_config
  sr_regexps :: regexps
  sr_releases :: "registry option"
  sr_minter :: bool
  sr_issuer :: bool
  sr_docker :: "'g docker_api"
  sr_sha :: "string \<Rightarrow> string"
  sr_digestKey :: "string \<Rightarrow> string"
  sr_fingerprint :: "runtime_spec \<Rightarrow> string"
  sr_contract :: "run_metadata \<Rightarrow> int"
  sr_containers :: "run_metadata \<Rightarrow> string list"
  sr_codex :: "launch_calls \<Rightarrow> launch_intent \<Rightarrow> bool \<Rightarrow> 'g sandbox_state \<Rightarrow> (launch_output, 'g) launch_outcome"

section \<open>Files, runs and intents\<close>

definition safeRunChar :: re where
  "safeRunChar = ReCls [(CHR ''A'', CHR ''Z''), (CHR ''a'', CHR ''z''), (CHR ''0'', CHR ''9''), (CHR ''_'', CHR ''_''),
     (CHR ''.'', CHR ''.''), (CHR '':'', CHR '':''), (CHR ''-'', CHR ''-'')]"

definition safeRunID :: "string \<Rightarrow> bool" where
  "safeRunID rid \<longleftrightarrow>
     \<not> (rid = [] \<or> containsStr rid ''/'' \<or> containsStr rid ''..'') \<and> re_match (rePlus safeRunChar) rid"

definition putRun :: "run_metadata \<Rightarrow> 'g sandbox_state \<Rightarrow> 'g sandbox_state" where
  "putRun m s = s\<lparr>ss_runs := gput (rm_runID m) m (ss_runs s)\<rparr>"

definition lookupRun :: "string \<Rightarrow> 'g sandbox_state \<Rightarrow> (run_metadata, 'g) launch_outcome" where
  "lookupRun rid s =
     (if \<not> safeRunID rid then (Inl LaunchRunNotFound, s)
      else case gget (ss_runs s) rid of
        Some m \<Rightarrow> (Inr m, s)
      | None \<Rightarrow>
          (case gget (ss_files s) rid of
             None \<Rightarrow> (Inl LaunchRunNotFound, s)
           | Some m \<Rightarrow> (Inr m, s\<lparr>ss_runs := gput rid m (ss_runs s)\<rparr>)))"

definition writeMetadataFile :: "launch_calls \<Rightarrow> run_metadata \<Rightarrow> 'g sandbox_state \<Rightarrow> (unit, 'g) launch_outcome" where
  "writeMetadataFile q m s =
     (let s1 = s\<lparr>ss_files := gput (rm_runID m) m (ss_files s)\<rparr> in
      case lcl_file q of None \<Rightarrow> (Inr (), s1) | Some written \<Rightarrow> (Inl LaunchFiles, if written then s1 else s))"

definition saveMetadata :: "launch_calls \<Rightarrow> run_metadata \<Rightarrow> 'g sandbox_state \<Rightarrow> (unit, 'g) launch_outcome" where
  "saveMetadata q m s =
     (case SaveMetadata (lcl_saveMetadata q) (lcl_now q) m (ss_intents s) of
        (Inl e, t) \<Rightarrow> (Inl (LaunchStore e), s\<lparr>ss_intents := t\<rparr>)
      | (Inr _, t) \<Rightarrow> (Inr (), s\<lparr>ss_intents := t\<rparr>))"

definition writeMetadata :: "launch_calls \<Rightarrow> run_metadata \<Rightarrow> 'g sandbox_state \<Rightarrow> (unit, 'g) launch_outcome" where
  "writeMetadata q m s =
     (case writeMetadataFile q m s of
        (Inl e, s1) \<Rightarrow> (Inl e, s1)
      | (Inr _, s1) \<Rightarrow>
          (case saveMetadata q m s1 of
             (Inl e, s2) \<Rightarrow> (Inl e, s2)
           | (Inr _, s2) \<Rightarrow> (Inr (), putRun m s2)))"

definition persistTerminalResult :: "launch_calls \<Rightarrow> run_metadata \<Rightarrow> 'g sandbox_state \<Rightarrow> (unit, 'g) launch_outcome" where
  "persistTerminalResult q m s =
     (let s1 = s\<lparr>ss_results := gput (rm_runID m) m (ss_results s)\<rparr> in
      case lcl_result q of None \<Rightarrow> (Inr (), s1) | Some written \<Rightarrow> (Inl LaunchFiles, if written then s1 else s))"

text \<open>The \<open>n\<close>-th save of an operation.\<close>

definition saveIntent :: "launch_calls \<Rightarrow> nat \<Rightarrow> launch_intent \<Rightarrow> 'g sandbox_state \<Rightarrow> (unit, 'g) launch_outcome" where
  "saveIntent q n i s =
     (case SaveIntent (lcl_save q n) (lcl_now q) i (ss_intents s) of
        (Inl e, t) \<Rightarrow> (Inl (LaunchStore e), s\<lparr>ss_intents := t\<rparr>)
      | (Inr _, t) \<Rightarrow> (Inr (), s\<lparr>ss_intents := t\<rparr>))"

section \<open>The capability of a launch\<close>

definition mintLaunchCapability ::
  "'g service \<Rightarrow> launch_calls \<Rightarrow> sandbox_template \<Rightarrow> run_metadata \<Rightarrow> 'g sandbox_state \<Rightarrow> (string, 'g) launch_outcome" where
  "mintLaunchCapability sv q t m s =
     (if \<not> mintsCapability t then (Inr [], s)
      else if \<not> sr_minter sv then (Inl LaunchNoCapabilityStore, s)
      else case deriveCapabilityClaims t m of
        Inl e \<Rightarrow> (Inl e, s)
      | Inr c \<Rightarrow>
          (case Issue (sr_sha sv) (lcl_issue q) (lcl_issueClk q) (lcl_random q) c (ss_caps s) of
             (Inl e, t1) \<Rightarrow> (Inl (LaunchMint e), s\<lparr>ss_caps := t1\<rparr>)
           | (Inr handle, t1) \<Rightarrow> (Inr handle, s\<lparr>ss_caps := t1\<rparr>)))"

definition revokeLaunchCapability :: "'g service \<Rightarrow> launch_calls \<Rightarrow> string \<Rightarrow> 'g sandbox_state \<Rightarrow> 'g sandbox_state" where
  "revokeLaunchCapability sv q handle s =
     (if handle = [] \<or> \<not> sr_minter sv then s
      else s\<lparr>ss_caps := snd (Revoke (sr_sha sv) (lcl_revoke q) (lcl_revokeClk q) handle (ss_caps s))\<rparr>)"

section \<open>Ends of a run\<close>

definition terminalSourceForStatus :: "string \<Rightarrow> string \<Rightarrow> string" where
  "terminalSourceForStatus status fallback =
     (if status = ''timed_out'' then ''timed_out''
      else if status = ''completed'' \<or> status = ''stopped'' \<or> status = ''failed'' then
        (if fallback \<noteq> [] then fallback else ''exited'')
      else fallback)"

definition finalizeExitedRun :: "launch_calls \<Rightarrow> container_status \<Rightarrow> run_metadata \<Rightarrow> run_metadata" where
  "finalizeExitedRun q st m0 =
     (let m = m0\<lparr>rm_terminalSource := ''exited'', rm_exitCode := cst_exitCode st,
                 rm_endedAt := (if isZero (cst_endedAt st) then lcl_now q else cst_endedAt st)\<rparr>
      in if cst_exitCode st = Some 0 then m\<lparr>rm_status := ''completed'', rm_error := []\<rparr>
         else
           (let n = m\<lparr>rm_status := ''failed'', rm_error := lcl_message q (m\<lparr>rm_status := ''failed''\<rparr>)\<rparr>
            in case lcl_diagnostics q of
                 None \<Rightarrow> n
               | Some e \<Rightarrow> if rm_error n = [] then n\<lparr>rm_error := e\<rparr> else n))"

definition exitedUpdate :: "launch_calls \<Rightarrow> container_status \<Rightarrow> run_metadata \<Rightarrow> 'g \<Rightarrow> run_metadata \<times> 'g" where
  "exitedUpdate q st m g = (finalizeExitedRun q st m, g)"

definition zeroMetadata :: run_metadata where
  "zeroMetadata = \<lparr>rm_runID = [], rm_workItemID = [], rm_profile = [], rm_principal = [], rm_keyDigest = [], rm_fingerprint = [],
     rm_configVersion = [], rm_template = [], rm_repo = [], rm_baseBranch = [], rm_branch = [], rm_task = [],
     rm_verificationTask = [], rm_focus = [], rm_workerAgentID = [], rm_brokerAgentID = [], rm_credentialBundle = [],
     rm_containerID = [], rm_image = [], rm_imageDigest = [], rm_releaseGeneration = 0, rm_status = [], rm_exitCode = None,
     rm_finalizeReason = [], rm_terminalSource = [], rm_error = [], rm_deliverables = [], rm_parameters = [],
     rm_startedAt = 0, rm_deadline = 0, rm_endedAt = 0, rm_phase = [], rm_recoverySeal = [], rm_provenance = None,
     rm_rest = JObj []\<rparr>"

text \<open>\<open>finalizeTerminalRun\<close> answers the metadata also when it fails; no other finalization is under way. The update of the
  metadata may call Docker.\<close>

definition terminalMetadata :: "string \<Rightarrow> string \<Rightarrow> run_metadata \<Rightarrow> run_metadata" where
  "terminalMetadata reason source m =
     (let n = (if rm_finalizeReason m \<noteq> [] then m else m\<lparr>rm_finalizeReason := reason\<rparr>);
          src = (if rm_terminalSource n \<noteq> [] then rm_terminalSource n else source)
      in n\<lparr>rm_terminalSource := terminalSourceForStatus (rm_status n) src\<rparr>)"

definition finalizeTerminalRun ::
  "'g service \<Rightarrow> launch_calls \<Rightarrow> string \<Rightarrow> string \<Rightarrow> string \<Rightarrow> (run_metadata \<Rightarrow> 'g \<Rightarrow> run_metadata \<times> 'g) \<Rightarrow>
     'g sandbox_state \<Rightarrow> (launch_error option \<times> run_metadata) \<times> 'g sandbox_state" where
  "finalizeTerminalRun sv q rid reason source upd s =
     (case lookupRun rid s of
        (Inl e, s1) \<Rightarrow> ((Some e, zeroMetadata), s1)
      | (Inr m, s1) \<Rightarrow>
          if rm_status m \<noteq> ''running'' then ((None, m), s1)
          else case upd m (ss_docker s1) of
            (m1, g) \<Rightarrow>
              if rm_status m1 = ''running'' then ((None, m1), s1\<lparr>ss_docker := g\<rparr>)
              else
            (let next = terminalMetadata reason source m1 in
             if rm_provenance next \<noteq> None \<and> sr_issuer sv \<and> lcl_cleanup q
             then ((Some LaunchCleanup, next), s1\<lparr>ss_docker := g\<rparr>)
             else case persistTerminalResult q next (s1\<lparr>ss_docker := g\<rparr>) of
               (Inl e, s2) \<Rightarrow> ((Some e, next), s2)
             | (Inr _, s2) \<Rightarrow>
                 (case writeMetadataFile q next (s2\<lparr>ss_runs := gput rid next (ss_runs s2)\<rparr>) of
                    (Inl e, s3) \<Rightarrow> ((Some e, next), s3)
                  | (Inr _, s3) \<Rightarrow>
                      (case saveMetadata q next s3 of
                         (Inl e, s4) \<Rightarrow> ((Some e, next), s4)
                       | (Inr _, s4) \<Rightarrow> ((None, next), s4)))))"

definition commitRunningIntent ::
  "launch_calls \<Rightarrow> launch_intent \<Rightarrow> run_metadata \<Rightarrow> 'g sandbox_state \<Rightarrow> (launch_output, 'g) launch_outcome" where
  "commitRunningIntent q i m0 s =
     (let m = m0\<lparr>rm_status := ''running''\<rparr> in
      case saveIntent q 3 (i\<lparr>it_state := IntentRunning, it_metadata := m\<rparr>) s of
        (Inl e, s1) \<Rightarrow> (Inl e, s1)
      | (Inr _, s1) \<Rightarrow>
          (case writeMetadata q m s1 of
             (Inl e, s2) \<Rightarrow> (Inl e, s2)
           | (Inr _, s2) \<Rightarrow> (Inr (launchOutput m), s2)))"

definition commitExitedIntent ::
  "'g service \<Rightarrow> launch_calls \<Rightarrow> launch_intent \<Rightarrow> run_metadata \<Rightarrow> container_status \<Rightarrow> 'g sandbox_state \<Rightarrow>
     (launch_output, 'g) launch_outcome" where
  "commitExitedIntent sv q i m0 st s =
     (let m = m0\<lparr>rm_status := ''running''\<rparr> in
      case finalizeTerminalRun sv q (rm_runID m) ''reconcile_exited'' ''exited'' (exitedUpdate q st) (putRun m s) of
        ((err, finalized), s1) \<Rightarrow>
          (case saveIntent q 3 (i\<lparr>it_metadata := finalized, it_state := IntentTerminal\<rparr>) s1 of
             (saved, s2) \<Rightarrow>
               (case err of
                  Some e \<Rightarrow> (Inl e, s2)
                | None \<Rightarrow> (case saved of Inl e \<Rightarrow> (Inl e, s2) | Inr _ \<Rightarrow> (Inr (launchOutput finalized), s2)))))"

definition startupFailure :: "launch_calls \<Rightarrow> string \<Rightarrow> run_metadata \<Rightarrow> run_metadata" where
  "startupFailure q reason m =
     m\<lparr>rm_status := ''failed'', rm_finalizeReason := reason, rm_terminalSource := ''startup_failure'',
       rm_error := lcl_message q m, rm_endedAt := lcl_now q\<rparr>"

definition commitStartupFailureIntent ::
  "launch_calls \<Rightarrow> launch_intent \<Rightarrow> run_metadata \<Rightarrow> string \<Rightarrow> 'g sandbox_state \<Rightarrow> (launch_output, 'g) launch_outcome" where
  "commitStartupFailureIntent q i m0 reason s =
     (let m = startupFailure q reason m0
      in case persistTerminalResult q m s of
           (Inl e, s1) \<Rightarrow> (Inl e, s1)
         | (Inr _, s1) \<Rightarrow>
             (case writeMetadata q m s1 of
                (Inl e, s2) \<Rightarrow> (Inl e, s2)
              | (Inr _, s2) \<Rightarrow>
                  (case saveIntent q 3 (i\<lparr>it_metadata := m, it_state := IntentTerminal\<rparr>) s2 of
                     (Inl e, s3) \<Rightarrow> (Inl e, s3)
                   | (Inr _, s3) \<Rightarrow> (Inr (launchOutput m), putRun m s3))))"

section \<open>Resuming an intent\<close>

text \<open>From the container to the running worker.\<close>

definition startIntent ::
  "'g service \<Rightarrow> launch_calls \<Rightarrow> launch_intent \<Rightarrow> run_metadata \<Rightarrow> string \<Rightarrow> container_info \<Rightarrow> 'g sandbox_state \<Rightarrow>
     (launch_output, 'g) launch_outcome" where
  "startIntent sv q i m handle info s =
     (if cinf_lifecycle info = ContainerRunning then commitRunningIntent q i m s
      else if cinf_lifecycle info = ContainerExited then
        commitExitedIntent sv q i m (case cinf_status info of Some st \<Rightarrow> st
          | None \<Rightarrow> \<lparr>cst_id = [], cst_running = False, cst_exitCode = None, cst_startedAt = 0, cst_endedAt = 0, cst_error = []\<rparr>) s
      else
        (let i1 = i\<lparr>it_state := IntentStartPending, it_metadata := m\<rparr> in
         case saveIntent q 2 i1 s of
           (Inl e, s1) \<Rightarrow> (Inl e, s1)
         | (Inr _, s1) \<Rightarrow>
             (case startContainer (sr_docker sv) (rm_containerID m) (ss_docker s1) of
                (True, g1) \<Rightarrow> commitRunningIntent q i1 m (s1\<lparr>ss_docker := g1\<rparr>)
              | (False, g1) \<Rightarrow>
                  (case Inspect (sr_docker sv) (rm_containerID m) g1 of
                     (found, g2) \<Rightarrow>
                       (let s2 = s1\<lparr>ss_docker := g2\<rparr> in
                        case found of
                          None \<Rightarrow> commitStartupFailureIntent q i1 m ''launch_start_failed'' (revokeLaunchCapability sv q handle s2)
                        | Some st \<Rightarrow>
                            if cst_running st then commitRunningIntent q i1 m s2
                            else if \<not> isZero (cst_startedAt st) then commitExitedIntent sv q i1 m st s2
                            else commitStartupFailureIntent q i1 m ''launch_start_failed''
                                   (revokeLaunchCapability sv q handle s2))))))"

text \<open>A container that a persisted id names.\<close>

definition adoptIntent ::
  "'g service \<Rightarrow> launch_calls \<Rightarrow> launch_intent \<Rightarrow> run_metadata \<Rightarrow> 'g sandbox_state \<Rightarrow> (launch_output, 'g) launch_outcome" where
  "adoptIntent sv q i m s =
     (case Inspect (sr_docker sv) (rm_containerID m) (ss_docker s) of
        (None, g1) \<Rightarrow> (Inl LaunchInspect, s\<lparr>ss_docker := g1\<rparr>)
      | (Some st, g1) \<Rightarrow>
          startIntent sv q i m []
            \<lparr>cinf_id = rm_containerID m, cinf_imageDigest = rm_imageDigest m, cinf_platform = [], cinf_existing = True,
             cinf_lifecycle = lifecycleOf st, cinf_status = Some st\<rparr> (s\<lparr>ss_docker := g1\<rparr>))"

text \<open>A container that is asked for.\<close>

definition createIntent ::
  "'g service \<Rightarrow> launch_calls \<Rightarrow> launch_intent \<Rightarrow> run_metadata \<Rightarrow> string \<Rightarrow> runtime_spec \<Rightarrow> 'g sandbox_state \<Rightarrow>
     (launch_output, 'g) launch_outcome" where
  "createIntent sv q i m handle spec s =
     (let i1 = i\<lparr>it_state := IntentCreatePending\<rparr> in
      case saveIntent q 0 i1 s of
        (Inl e, s1) \<Rightarrow> (Inl e, revokeLaunchCapability sv q handle s1)
      | (Inr _, s1) \<Rightarrow>
          (case createContainer (sr_docker sv) (sr_fingerprint sv) spec (ss_docker s1) of
             (None, g1) \<Rightarrow>
               commitStartupFailureIntent q i1 m ''launch_create_failed''
                 (revokeLaunchCapability sv q handle (s1\<lparr>ss_docker := g1\<rparr>))
           | (Some info, g1) \<Rightarrow>
               (let m1 = m\<lparr>rm_containerID := cinf_id info, rm_imageDigest := cinf_imageDigest info\<rparr>;
                    i2 = i1\<lparr>it_metadata := m1, it_state := IntentContainerMade\<rparr>
                in case saveIntent q 1 i2 (s1\<lparr>ss_docker := g1\<rparr>) of
                     (Inl e, s2) \<Rightarrow> (Inl e, s2)
                   | (Inr _, s2) \<Rightarrow> startIntent sv q i2 m1 handle info s2)))"

text \<open>An intent whose worker runs as far as is known: it is looked at, and finalized when it has ended.\<close>

definition resumeRunning ::
  "'g service \<Rightarrow> launch_calls \<Rightarrow> run_metadata \<Rightarrow> 'g sandbox_state \<Rightarrow> (launch_output, 'g) launch_outcome" where
  "resumeRunning sv q m s =
     (let s1 = putRun m s in
      if rm_containerID m \<noteq> [] then
        (case Inspect (sr_docker sv) (rm_containerID m) (ss_docker s1) of
           (None, g1) \<Rightarrow> (Inl LaunchInspect, s1\<lparr>ss_docker := g1\<rparr>)
         | (Some st, g1) \<Rightarrow>
             if \<not> cst_running st then
               (case finalizeTerminalRun sv q (rm_runID m) ''reconcile_exited'' ''exited'' (exitedUpdate q st)
                       (s1\<lparr>ss_docker := g1\<rparr>) of
                  ((Some e, _), s2) \<Rightarrow> (Inl e, s2)
                | ((None, finalized), s2) \<Rightarrow> (Inr (launchOutput finalized), s2))
             else (Inr (launchOutput m), s1\<lparr>ss_docker := g1\<rparr>))
      else (Inr (launchOutput m), s1))"

definition resumeLaunchIntent ::
  "'g service \<Rightarrow> launch_calls \<Rightarrow> launch_intent \<Rightarrow> bool \<Rightarrow> 'g sandbox_state \<Rightarrow> (launch_output, 'g) launch_outcome" where
  "resumeLaunchIntent sv q i recovering s =
     (let m = it_metadata i in
      if lp_configVersion (it_plan i) \<noteq> sg_configVersion (sr_cfg sv) then (Inl LaunchConfigVersion, s)
      else if (case gget (sg_launchProfiles (sr_cfg sv)) (it_profile i) of
                 None \<Rightarrow> False | Some p \<Rightarrow> sp_codexWorkflow p \<noteq> None)
      then sr_codex sv q i recovering s
      else if isTerminalStatus (rm_status m) \<or> it_state i = IntentTerminal then (Inr (launchOutput m), s)
      else case gget (sg_templates (sr_cfg sv)) (rm_template m) of
        None \<Rightarrow> (Inl LaunchUnknownTemplate, s)
      | Some t \<Rightarrow>
          if it_state i = IntentRunning then resumeRunning sv q m s
          else
            (let s1 = s\<lparr>ss_files := gput (rm_runID m) m (ss_files s)\<rparr> in
             if lcl_prepare q \<noteq> None then (Inl LaunchFiles, if lcl_prepare q = Some True then s1 else s)
             else if it_state i = IntentContainerMade \<or> it_state i = IntentStartPending then
               (case runtimeSpec (sr_cfg sv) m t [] of
                  Inl e \<Rightarrow> (Inl e, s1)
                | Inr spec \<Rightarrow> adoptIntent sv q i m s1)
             else
               (case mintLaunchCapability sv q t m s1 of
                  (Inl e, s2) \<Rightarrow> (Inl e, s2)
                | (Inr handle, s2) \<Rightarrow>
                    (case runtimeSpec (sr_cfg sv) m t handle of
                       Inl e \<Rightarrow> (Inl e, revokeLaunchCapability sv q handle s2)
                     | Inr spec \<Rightarrow> createIntent sv q i m handle spec s2))))"

section \<open>Launching\<close>

definition validateTaskContract :: "'g service \<Rightarrow> run_metadata \<Rightarrow> bool" where
  "validateTaskContract sv m \<longleftrightarrow> sr_contract sv m \<le> sg_maxTaskBytes (sr_cfg sv)"

definition replayed :: "bool \<Rightarrow> (launch_output, 'g) launch_outcome \<Rightarrow> (launch_output, 'g) launch_outcome" where
  "replayed b r = (map_sum id (\<lambda>out. out\<lparr>lo_replay := b\<rparr>) (fst r), snd r)"

definition launchKeyed ::
  "'g service \<Rightarrow> launch_calls \<Rightarrow> string \<Rightarrow> string \<Rightarrow> string \<Rightarrow> string \<Rightarrow> launch_input \<Rightarrow> 'g sandbox_state \<Rightarrow>
     (launch_output, 'g) launch_outcome" where
  "launchKeyed sv q who profile rawKey fp inp s =
     (let digest = sr_digestKey sv rawKey in
      case Lookup (lcl_lookup q) who profile digest (ss_intents s) of
        Inl e \<Rightarrow> (Inl (LaunchStore e), s)
      | Inr (Some i) \<Rightarrow>
          if it_fingerprint i \<noteq> fp then (Inl LaunchKeyConflict, s)
          else replayed True (resumeLaunchIntent sv q i False s)
      | Inr None \<Rightarrow>
          (case selectLaunchTemplate (sr_regexps sv) (sr_cfg sv) (lcl_runID q) (lcl_release q) (sr_releases sv) inp of
             Inl e \<Rightarrow> (Inl e, s)
           | Inr sel \<Rightarrow>
               (let m = profileMetadata (sr_cfg sv) (lcl_now q) who profile digest fp inp sel in
                if \<not> validateTaskContract sv m then (Inl LaunchContract, s)
                else
                  (let i = \<lparr>it_principal = who, it_profile = profile, it_keyDigest = digest, it_fingerprint = fp,
                            it_runID = sl_runID sel, it_state = IntentCreated,
                            it_plan = \<lparr>lp_version = 1, lp_configVersion = sg_configVersion (sr_cfg sv), lp_request = inp,
                                       lp_runtimeSeconds = truncSeconds (sl_limit sel), lp_metadata = m\<rparr>,
                            it_metadata = m\<rparr>;
                       maxConcurrent = (case gget (sg_launchProfiles (sr_cfg sv)) profile of
                           None \<Rightarrow> 0 | Some p \<Rightarrow> sp_maxConcurrentRuns p)
                   in case CreateIntent (lcl_create q) (lcl_now q) i maxConcurrent (ss_intents s) of
                        (Inl e, t) \<Rightarrow> (Inl (LaunchStore e), s\<lparr>ss_intents := t\<rparr>)
                      | (Inr (persisted, created), t) \<Rightarrow>
                          if \<not> created \<and> it_fingerprint persisted \<noteq> fp
                          then (Inl LaunchKeyConflict, s\<lparr>ss_intents := t\<rparr>)
                          else replayed (\<not> created)
                            (resumeLaunchIntent sv q (if created then i else persisted) False (s\<lparr>ss_intents := t\<rparr>))))))"

fun reconcileAll ::
  "'g service \<Rightarrow> (nat \<Rightarrow> launch_calls) \<Rightarrow> nat \<Rightarrow> launch_intent list \<Rightarrow> 'g sandbox_state \<Rightarrow> (unit, 'g) launch_outcome" where
  "reconcileAll sv qs n [] s = (Inr (), s)"
| "reconcileAll sv qs n (i # is) s =
     (if lp_configVersion (it_plan i) \<noteq> sg_configVersion (sr_cfg sv) then (Inl LaunchConfigVersion, s)
      else case resumeLaunchIntent sv (qs n) i True s of
        (Inl e, s1) \<Rightarrow> (Inl e, s1)
      | (Inr _, s1) \<Rightarrow> reconcileAll sv qs (Suc n) is s1)"

definition reconcileLaunchIntents ::
  "'g service \<Rightarrow> (nat \<Rightarrow> launch_calls) \<Rightarrow> faults \<Rightarrow> 'g sandbox_state \<Rightarrow> (unit, 'g) launch_outcome" where
  "reconcileLaunchIntents sv qs f s =
     (case Nonterminal f (ss_intents s) of
        Inl e \<Rightarrow> (Inl (LaunchStore e), s)
      | Inr is \<Rightarrow> reconcileAll sv qs 0 is s)"

section \<open>Launching without a key\<close>

text \<open>The slots of a profile, for operations that run one after the other: no other launch holds a reservation.\<close>

definition profileBusy :: "'g service \<Rightarrow> string \<Rightarrow> 'g sandbox_state \<Rightarrow> bool" where
  "profileBusy sv profile s =
     (if profile = [] then False
      else case gget (sg_launchProfiles (sr_cfg sv)) profile of
        None \<Rightarrow> False
      | Some p \<Rightarrow>
          if sp_maxConcurrentRuns p = 0 then False
          else int (length (filter (\<lambda>(_, m). rm_profile m = profile \<and> (rm_status m = ''pending'' \<or> rm_status m = ''running''))
                 (ss_runs s))) \<ge> sp_maxConcurrentRuns p)"

definition directMetadata :: "gotime \<Rightarrow> string \<Rightarrow> launch_input \<Rightarrow> selected \<Rightarrow> run_metadata" where
  "directMetadata now who i sel =
     (let t = sl_template sel in
      applyResolvedRelease (sl_release sel)
        (zeroMetadata\<lparr>rm_runID := sl_runID sel, rm_workItemID := la_workItemID i, rm_profile := la_profile i, rm_principal := who,
           rm_template := la_template i, rm_repo := la_repo i, rm_baseBranch := la_baseBranch i, rm_branch := sl_branch sel,
           rm_task := la_task i, rm_verificationTask := la_verificationTask i, rm_focus := la_focus i,
           rm_workerAgentID := workerAgentID (sb_brokerAgentID t) (sl_runID sel), rm_brokerAgentID := sb_brokerAgentID t,
           rm_credentialBundle := sb_credentialBundle t, rm_image := sb_image t, rm_status := ''pending'',
           rm_deliverables := deliverables (la_deliverables i) (sb_deliverables t), rm_parameters := la_parameters i,
           rm_startedAt := now, rm_deadline := now + sl_limit sel\<rparr>))"

text \<open>A launch that failed at the container: the capability is revoked, and the run is recorded as failed.\<close>

definition failLaunch ::
  "'g service \<Rightarrow> launch_calls \<Rightarrow> string \<Rightarrow> string \<Rightarrow> run_metadata \<Rightarrow> launch_error \<Rightarrow> 'g sandbox_state \<Rightarrow>
     (launch_output, 'g) launch_outcome" where
  "failLaunch sv q handle reason m cause s =
     (let s0 = revokeLaunchCapability sv q handle s; m1 = startupFailure q reason m in
      case persistTerminalResult q m1 s0 of
        (Inl e, s1) \<Rightarrow> (Inl e, s1)
      | (Inr _, s1) \<Rightarrow> (case writeMetadata q m1 s1 of (Inl e, s2) \<Rightarrow> (Inl e, s2) | (Inr _, s2) \<Rightarrow> (Inl cause, s2)))"

definition launchAgent ::
  "'g service \<Rightarrow> launch_calls \<Rightarrow> string \<Rightarrow> launch_input \<Rightarrow> 'g sandbox_state \<Rightarrow> (launch_output, 'g) launch_outcome" where
  "launchAgent sv q who inp s =
     (case selectLaunchTemplate (sr_regexps sv) (sr_cfg sv) (lcl_runID q) (lcl_release q) (sr_releases sv) inp of
        Inl e \<Rightarrow> (Inl e, s)
      | Inr sel \<Rightarrow>
          if profileBusy sv (la_profile inp) s then (Inl (LaunchStore IntentBusy), s)
          else
            (let m = directMetadata (lcl_now q) who inp sel; t = sl_template sel in
             if \<not> validateTaskContract sv m then (Inl LaunchContract, s)
             else if lcl_prepare q \<noteq> None then (Inl LaunchFiles, s)
             else case mintLaunchCapability sv q t m s of
               (Inl e, s1) \<Rightarrow> (Inl e, s1)
             | (Inr handle, s1) \<Rightarrow>
                 (case runtimeSpec (sr_cfg sv) m t handle of
                    Inl e \<Rightarrow> (Inl e, revokeLaunchCapability sv q handle s1)
                  | Inr spec \<Rightarrow>
                      (case createContainer (sr_docker sv) (sr_fingerprint sv) spec (ss_docker s1) of
                         (None, g1) \<Rightarrow> failLaunch sv q handle ''launch_create_failed'' m LaunchCreate (s1\<lparr>ss_docker := g1\<rparr>)
                       | (Some info, g1) \<Rightarrow>
                           (let m1 = m\<lparr>rm_containerID := cinf_id info, rm_imageDigest := cinf_imageDigest info\<rparr> in
                            case startContainer (sr_docker sv) (cinf_id info) g1 of
                              (False, g2) \<Rightarrow>
                                failLaunch sv q handle ''launch_start_failed'' m1 LaunchStart (s1\<lparr>ss_docker := g2\<rparr>)
                            | (True, g2) \<Rightarrow>
                                (let m2 = m1\<lparr>rm_status := ''running''\<rparr> in
                                 case writeMetadata q m2 (s1\<lparr>ss_docker := g2\<rparr>) of
                                   (Inl e, s2) \<Rightarrow> (Inl e, s2)
                                 | (Inr _, s2) \<Rightarrow> (Inr (launchOutput m2), putRun m2 s2)))))))"

text \<open>Which launch a request gets (\<open>LaunchProfile\<close>): the service has a store of intents.\<close>

definition LaunchProfile ::
  "'g service \<Rightarrow> launch_calls \<Rightarrow> string \<Rightarrow> string \<Rightarrow> string \<Rightarrow> string \<Rightarrow> launch_input \<Rightarrow> 'g sandbox_state \<Rightarrow>
     (launch_output, 'g) launch_outcome" where
  "LaunchProfile sv q who profile rawKey fp inp s =
     (if rawKey = [] then launchAgent sv q who inp s else launchKeyed sv q who profile rawKey fp inp s)"

end
