(* ===== verification/Run_Lifecycle.thy ===== *)
theory Run_Lifecycle
  imports Sandbox_Launch
begin

text \<open>
  The runs after their launch (\<open>service.go\<close> of \<open>src/internal/sandbox/\<close>): the status poll, the manual stop, the watchers of the
  deadline and of the exit of a container, the cleanup, and the reconciliation of files, containers and intents when the
  service starts. A run ends through \<open>finalizeTerminalRun\<close>, with an update that may stop the container.

  \<open>watchTimeout\<close> and \<open>watchExit\<close> are what a watcher does when its timer fires or its wait returns. \<open>sandbox_op\<close> are the
  operations of a service that runs and is restarted, in any order.
\<close>

section \<open>Status\<close>

record status_output =
  so_runID :: string
  so_status :: string
  so_branch :: string
  so_repo :: string
  so_exitCode :: "int option"
  so_error :: string
  so_deadline :: gotime
  so_endedAt :: "gotime option"

definition statusOutput :: "run_metadata \<Rightarrow> status_output" where
  "statusOutput m =
     \<lparr>so_runID = rm_runID m, so_status = rm_status m, so_branch = rm_branch m, so_repo = rm_repo m,
      so_exitCode = rm_exitCode m, so_error = rm_error m, so_deadline = rm_deadline m,
      so_endedAt = (if isZero (rm_endedAt m) then None else Some (rm_endedAt m))\<rparr>"

section \<open>The deadline\<close>

definition timedOutMetadata :: "launch_calls \<Rightarrow> run_metadata \<Rightarrow> run_metadata" where
  "timedOutMetadata q m0 =
     (let m1 = (if rm_finalizeReason m0 = [] then m0\<lparr>rm_finalizeReason := ''deadline''\<rparr> else m0);
          m2 = (if rm_error m1 = [] then m1\<lparr>rm_error := ''run exceeded deadline''\<rparr> else m1);
          m3 = m2\<lparr>rm_status := ''timed_out'', rm_terminalSource := ''timed_out'', rm_endedAt := lcl_now q\<rparr>
      in case lcl_diagnostics q of
           None \<Rightarrow> m3
         | Some e \<Rightarrow>
             if containsStr (rm_error m3) e then m3
             else m3\<lparr>rm_error := rm_error m3 @ ''; diagnostics write failed: '' @ e\<rparr>)"

definition stopFailed :: "launch_calls \<Rightarrow> string \<Rightarrow> run_metadata \<Rightarrow> run_metadata" where
  "stopFailed q e m =
     timedOutMetadata q (m\<lparr>rm_finalizeReason := ''deadline_stop_failed'', rm_error := ''run exceeded deadline; stop failed: '' @ e\<rparr>)"

definition markTimedOut :: "'g service \<Rightarrow> launch_calls \<Rightarrow> run_metadata \<Rightarrow> 'g \<Rightarrow> run_metadata \<times> 'g" where
  "markTimedOut sv q m g =
     (if rm_containerID m = [] then (timedOutMetadata q m, g)
      else case Inspect (sr_docker sv) (rm_containerID m) g of
        (found, g1) \<Rightarrow>
          (case (case found of Some st \<Rightarrow> if \<not> cst_running st then Some st else None | None \<Rightarrow> None) of
             Some st \<Rightarrow> (finalizeExitedRun q st (m\<lparr>rm_finalizeReason := ''deadline_already_exited''\<rparr>), g1)
           | None \<Rightarrow>
               (case stopContainer (sr_docker sv) (rm_containerID m) (sg_stopGrace (sr_cfg sv)) g1 of
                  (StopDone, g2) \<Rightarrow>
                    (case Inspect (sr_docker sv) (rm_containerID m) g2 of
                       (again, g3) \<Rightarrow>
                         (timedOutMetadata q
                            (case again of None \<Rightarrow> m
                             | Some st \<Rightarrow> if cst_exitCode st \<noteq> None then m\<lparr>rm_exitCode := cst_exitCode st\<rparr> else m), g3))
                | (StopNotModified e, g2) \<Rightarrow>
                    (case Inspect (sr_docker sv) (rm_containerID m) g2 of
                       (again, g3) \<Rightarrow>
                         (case again of None \<Rightarrow> (stopFailed q e m, g3)
                          | Some st \<Rightarrow>
                              if \<not> cst_running st
                              then (finalizeExitedRun q st (m\<lparr>rm_finalizeReason := ''deadline_stop_already_exited''\<rparr>), g3)
                              else (stopFailed q e m, g3)))
                | (StopFailed e, g2) \<Rightarrow> (stopFailed q e m, g2))))"

definition watchTimeout :: "'g service \<Rightarrow> launch_calls \<Rightarrow> string \<Rightarrow> gotime \<Rightarrow> 'g sandbox_state \<Rightarrow> 'g sandbox_state" where
  "watchTimeout sv q rid deadline s =
     (case lookupRun rid s of
        (Inl e, s1) \<Rightarrow> s1
      | (Inr m, s1) \<Rightarrow>
          if rm_status m \<noteq> ''running'' \<or> rm_deadline m \<noteq> deadline then s1
          else snd (finalizeTerminalRun sv q rid ''deadline'' ''timed_out'' (markTimedOut sv q) s1))"

section \<open>The exit of a container\<close>

definition watchExit :: "'g service \<Rightarrow> launch_calls \<Rightarrow> string \<Rightarrow> string \<Rightarrow> 'g sandbox_state \<Rightarrow> 'g sandbox_state" where
  "watchExit sv q rid cid s =
     (case WaitExit (sr_docker sv) cid (ss_docker s) of
        (Some st, g1) \<Rightarrow>
          snd (finalizeTerminalRun sv q rid ''worker_exit'' ''exited'' (exitedUpdate q st) (s\<lparr>ss_docker := g1\<rparr>))
      | (None, g1) \<Rightarrow>
          (case Inspect (sr_docker sv) cid g1 of
             (found, g2) \<Rightarrow>
               (let s1 = s\<lparr>ss_docker := g2\<rparr> in
                case found of
                  None \<Rightarrow> snd (lookupRun rid s1)
                | Some st \<Rightarrow>
                    if \<not> cst_running st
                    then snd (finalizeTerminalRun sv q rid ''worker_exit'' ''exited'' (exitedUpdate q st) s1)
                    else snd (lookupRun rid s1))))"

section \<open>Poll, stop and cleanup\<close>

definition finalStatus ::
  "(launch_error option \<times> run_metadata) \<times> 'g sandbox_state \<Rightarrow> (status_output, 'g) launch_outcome" where
  "finalStatus r = (case r of ((Some e, _), s) \<Rightarrow> (Inl e, s) | ((None, m), s) \<Rightarrow> (Inr (statusOutput m), s))"

type_synonym ('a, 'g) run_outcome = "(launch_error, 'a, 'g sandbox_state) outcome"

definition GetAgentStatus :: "'g service \<Rightarrow> launch_calls \<Rightarrow> string \<Rightarrow> 'g sandbox_state \<Rightarrow> (status_output, 'g) run_outcome" where
  "GetAgentStatus sv q rid s =
     (case lookupRun rid s of
        (Inl e, s1) \<Rightarrow> (Inl e, s1)
      | (Inr m, s1) \<Rightarrow>
          if rm_provenance m = None \<and> rm_containerID m \<noteq> [] \<and> rm_status m = ''running'' then
            (case Inspect (sr_docker sv) (rm_containerID m) (ss_docker s1) of
               (None, g) \<Rightarrow> (Inr (statusOutput m), s1\<lparr>ss_docker := g\<rparr>)
             | (Some st, g) \<Rightarrow>
                 if cst_running st \<and> lcl_now q > rm_deadline m
                 then finalStatus (finalizeTerminalRun sv q (rm_runID m) ''status_poll_deadline'' ''timed_out''
                        (markTimedOut sv q) (s1\<lparr>ss_docker := g\<rparr>))
                 else if \<not> cst_running st
                 then finalStatus (finalizeTerminalRun sv q (rm_runID m) ''status_poll_exited'' ''exited''
                        (exitedUpdate q st) (s1\<lparr>ss_docker := g\<rparr>))
                 else (Inr (statusOutput m), s1\<lparr>ss_docker := g\<rparr>))
          else (Inr (statusOutput m), s1))"

definition stoppedMetadata :: "launch_calls \<Rightarrow> run_metadata \<Rightarrow> run_metadata" where
  "stoppedMetadata q m0 =
     (let m1 = m0\<lparr>rm_status := ''stopped'', rm_finalizeReason := ''manual_stop'', rm_terminalSource := ''manual_stop''\<rparr>;
          m2 = (if isZero (rm_endedAt m1) then m1\<lparr>rm_endedAt := lcl_now q\<rparr> else m1)
      in m2\<lparr>rm_error := []\<rparr>)"

definition stopUpdate :: "'g service \<Rightarrow> launch_calls \<Rightarrow> run_metadata \<Rightarrow> 'g \<Rightarrow> run_metadata \<times> 'g" where
  "stopUpdate sv q m g =
     (if rm_containerID m = [] then (stoppedMetadata q m, g)
      else case stopContainer (sr_docker sv) (rm_containerID m) (sg_stopGrace (sr_cfg sv)) g of
        (answer, g1) \<Rightarrow>
          if answer \<noteq> StopDone then (m, g1)
          else case Inspect (sr_docker sv) (rm_containerID m) g1 of
            (None, g2) \<Rightarrow> (stoppedMetadata q m, g2)
          | (Some st, g2) \<Rightarrow>
              (stoppedMetadata q
                 (if cst_exitCode st \<noteq> None then m\<lparr>rm_exitCode := cst_exitCode st, rm_endedAt := cst_endedAt st\<rparr> else m), g2))"

text \<open>A stop that Docker refuses leaves the run running and is answered as an error.\<close>

definition StopAgent :: "'g service \<Rightarrow> launch_calls \<Rightarrow> string \<Rightarrow> 'g sandbox_state \<Rightarrow> (status_output, 'g) run_outcome" where
  "StopAgent sv q rid s =
     (case lookupRun rid s of
        (Inl e, s1) \<Rightarrow> (Inl e, s1)
      | (Inr m, s1) \<Rightarrow>
          if rm_status m = ''running'' then
            (let refused = (rm_containerID m \<noteq> [] \<and>
                   fst (stopContainer (sr_docker sv) (rm_containerID m) (sg_stopGrace (sr_cfg sv)) (ss_docker s1)) \<noteq> StopDone)
             in case finalizeTerminalRun sv q (rm_runID m) ''manual_stop'' ''manual_stop'' (stopUpdate sv q) s1 of
                  ((Some e, _), s2) \<Rightarrow> (Inl e, s2)
                | ((None, finalized), s2) \<Rightarrow>
                    if refused then (Inl LaunchStopFailed, s2) else (Inr (statusOutput finalized), s2))
          else (Inr (statusOutput m), s1))"

fun removeContainers :: "'g docker_api \<Rightarrow> string list \<Rightarrow> string list \<Rightarrow> 'g \<Rightarrow> bool \<times> 'g" where
  "removeContainers dk removed [] g = (True, g)"
| "removeContainers dk removed (c # cs) g =
     (if c = [] \<or> containsItem removed c then removeContainers dk removed cs g
      else case removeContainer dk c g of
        (False, g1) \<Rightarrow> (False, g1)
      | (True, g1) \<Rightarrow> removeContainers dk (c # removed) cs g1)"

definition escapesBase :: "string \<Rightarrow> string \<Rightarrow> bool" where
  "escapesBase base path \<longleftrightarrow> \<not> pathWithin (cleanPath path) (cleanPath base)"

text \<open>The directory of a run holds its metadata and its terminal result; a removal that fails may have removed some of it.\<close>

definition removeRunDir :: "bool \<times> bool \<Rightarrow> string \<Rightarrow> 'g sandbox_state \<Rightarrow> 'g sandbox_state" where
  "removeRunDir gone rid s =
     s\<lparr>ss_files := (if fst gone then gdel rid (ss_files s) else ss_files s),
       ss_results := (if snd gone then gdel rid (ss_results s) else ss_results s)\<rparr>"

definition CleanupRun :: "'g service \<Rightarrow> launch_calls \<Rightarrow> string \<Rightarrow> 'g sandbox_state \<Rightarrow> (status_output, 'g) run_outcome" where
  "CleanupRun sv q rid s =
     (case lookupRun rid s of
        (Inl e, s1) \<Rightarrow> (Inl e, s1)
      | (Inr m, s1) \<Rightarrow>
          if escapesBase (sg_runsDir (sr_cfg sv)) (runDir (sr_cfg sv) (rm_runID m)) then (Inl LaunchEscapes, s1)
          else if rm_provenance m \<noteq> None \<and> sr_issuer sv \<and> lcl_cleanup q then (Inl LaunchCleanup, s1)
          else case removeContainers (sr_docker sv) []
                      (if rm_provenance m \<noteq> None then sr_containers sv m else [rm_containerID m]) (ss_docker s1) of
            (False, g) \<Rightarrow> (Inl LaunchRemove, s1\<lparr>ss_docker := g\<rparr>)
          | (True, g) \<Rightarrow>
              (let s2 = s1\<lparr>ss_docker := g\<rparr> in
               case lcl_remove q of
                 Some gone \<Rightarrow> (Inl LaunchFiles, removeRunDir gone (rm_runID m) s2)
               | None \<Rightarrow>
                   (let s3 = removeRunDir (True, True) (rm_runID m) s2 in
                    (Inr (statusOutput (m\<lparr>rm_status := ''cleaned'', rm_endedAt := lcl_now q\<rparr>)),
                     s3\<lparr>ss_runs := gdel (rm_runID m) (ss_runs s3)\<rparr>))))"

definition GetTerminalResult :: "bool \<Rightarrow> string \<Rightarrow> 'g sandbox_state \<Rightarrow> (run_metadata, 'g) run_outcome" where
  "GetTerminalResult fails rid s =
     (case lookupRun rid s of
        (Inl e, s1) \<Rightarrow> (Inl e, s1)
      | (Inr m, s1) \<Rightarrow>
          if \<not> isTerminalStatus (rm_status m) then (Inl LaunchNotTerminal, s1)
          else if fails then (Inl LaunchFiles, s1)
          else case gget (ss_results s1) (rm_runID m) of
            None \<Rightarrow> (Inl LaunchFiles, s1)
          | Some r \<Rightarrow> if rm_runID r \<noteq> rm_runID m then (Inl LaunchFiles, s1) else (Inr r, s1))"

section \<open>Reconciliation\<close>

definition missingUpdate :: "launch_calls \<Rightarrow> run_metadata \<Rightarrow> 'g \<Rightarrow> run_metadata \<times> 'g" where
  "missingUpdate q m g =
     (m\<lparr>rm_status := ''failed'', rm_terminalSource := ''startup_failure'',
        rm_error := ''container missing during startup reconciliation'', rm_endedAt := lcl_now q\<rparr>, g)"

text \<open>A run whose metadata file says that it runs is looked at.\<close>

definition reconcileContainer ::
  "'g service \<Rightarrow> launch_calls \<Rightarrow> run_metadata \<Rightarrow> 'g sandbox_state \<Rightarrow> (launch_error option \<times> run_metadata) \<times> 'g sandbox_state" where
  "reconcileContainer sv q m s =
     (if rm_provenance m = None \<and> rm_containerID m \<noteq> [] \<and> rm_status m = ''running'' then
        (case Inspect (sr_docker sv) (rm_containerID m) (ss_docker s) of
           (None, g) \<Rightarrow>
             finalizeTerminalRun sv q (rm_runID m) ''reconcile_container_missing'' ''startup_failure'' (missingUpdate q)
               (s\<lparr>ss_docker := g\<rparr>)
         | (Some st, g) \<Rightarrow>
             if \<not> cst_running st
             then finalizeTerminalRun sv q (rm_runID m) ''reconcile_exited'' ''exited'' (exitedUpdate q st) (s\<lparr>ss_docker := g\<rparr>)
             else if lcl_now q > rm_deadline m
             then finalizeTerminalRun sv q (rm_runID m) ''reconcile_deadline'' ''timed_out'' (markTimedOut sv q)
                    (s\<lparr>ss_docker := g\<rparr>)
             else ((None, m), s\<lparr>ss_docker := g\<rparr>))
      else ((None, m), s))"

text \<open>A terminal run without a terminal result gets one.\<close>

definition backfillResult :: "launch_calls \<Rightarrow> run_metadata \<Rightarrow> 'g sandbox_state \<Rightarrow> (unit, 'g) run_outcome" where
  "backfillResult q m s =
     (if isTerminalStatus (rm_status m) then
        (if lcl_stat q then (Inl LaunchFiles, s)
         else if gget (ss_results s) (rm_runID m) = None then persistTerminalResult q m s
         else (Inr (), s))
      else (Inr (), s))"

definition reconcileRun :: "'g service \<Rightarrow> launch_calls \<Rightarrow> run_metadata \<Rightarrow> 'g sandbox_state \<Rightarrow> (unit, 'g) run_outcome" where
  "reconcileRun sv q m s =
     (if rm_provenance m \<noteq> None \<and> sr_issuer sv \<and> lcl_cleanup q then (Inl LaunchCleanup, s)
      else case RestoreMetadata (lcl_create q) (lcl_now q) m (ss_intents s) of
        (Inl e, t) \<Rightarrow> (Inl (LaunchStore e), s\<lparr>ss_intents := t\<rparr>)
      | (Inr _, t) \<Rightarrow>
          (case reconcileContainer sv q m (s\<lparr>ss_intents := t\<rparr>) of
             ((Some e, _), s1) \<Rightarrow> (Inl e, s1)
           | ((None, m1), s1) \<Rightarrow>
               (case backfillResult q m1 (putRun m1 s1) of
                  (Inl e, s2) \<Rightarrow> (Inl e, s2)
                | (Inr _, s2) \<Rightarrow>
                    if rm_status m1 = ''running'' \<and> rm_provenance m1 = None then
                      (case IsNonterminalRun (lcl_lookup q) (rm_runID m1) (ss_intents s2) of
                         Inl e \<Rightarrow> (Inl (LaunchStore e), s2)
                       | Inr _ \<Rightarrow> (Inr (), s2))
                    else (Inr (), s2))))"

fun reconcileRuns ::
  "'g service \<Rightarrow> (nat \<Rightarrow> launch_calls) \<Rightarrow> nat \<Rightarrow> string list \<Rightarrow> 'g sandbox_state \<Rightarrow> (unit, 'g) run_outcome" where
  "reconcileRuns sv qs n [] s = (Inr (), s)"
| "reconcileRuns sv qs n (rid # rids) s =
     (case (if lcl_unreadable (qs n) then None else gget (ss_files s) rid) of
        None \<Rightarrow> reconcileRuns sv qs (Suc n) rids s
      | Some m \<Rightarrow>
          (case reconcileRun sv (qs n) m s of
             (Inl e, s1) \<Rightarrow> (Inl e, s1)
           | (Inr _, s1) \<Rightarrow> reconcileRuns sv qs (Suc n) rids s1))"

text \<open>\<open>dir\<close> says that the directory of the runs cannot be read. The entries of a directory come in order.\<close>

definition reconcileService ::
  "'g service \<Rightarrow> bool \<Rightarrow> (nat \<Rightarrow> launch_calls) \<Rightarrow> (nat \<Rightarrow> launch_calls) \<Rightarrow> faults \<Rightarrow> 'g sandbox_state \<Rightarrow> (unit, 'g) run_outcome" where
  "reconcileService sv dir qs qs' f s =
     (if dir then (Inl LaunchFiles, s)
      else case reconcileRuns sv qs 0 (sort (map fst (ss_files s))) s of
        (Inl e, s1) \<Rightarrow> (Inl e, s1)
      | (Inr _, s1) \<Rightarrow> reconcileLaunchIntents sv qs' f s1)"

section \<open>Operations in sequence\<close>

datatype sandbox_op =
    OpLaunch launch_calls string string string string launch_input
  | OpPoll launch_calls string
  | OpStop launch_calls string
  | OpDeadline launch_calls string gotime
  | OpExit launch_calls string string
  | OpCleanup launch_calls string
  | OpReconcile bool "nat \<Rightarrow> launch_calls" "nat \<Rightarrow> launch_calls" faults
  | OpRestart

text \<open>The status an operation answers; a restart loses the memory.\<close>

fun sandbox_exec :: "'g service \<Rightarrow> sandbox_op \<Rightarrow> 'g sandbox_state \<Rightarrow> (string, 'g) run_outcome" where
  "sandbox_exec sv (OpLaunch q who profile rawKey fp inp) s =
     (case LaunchProfile sv q who profile rawKey fp inp s of (r, s1) \<Rightarrow> (map_sum id lo_status r, s1))"
| "sandbox_exec sv (OpPoll q rid) s = (case GetAgentStatus sv q rid s of (r, s1) \<Rightarrow> (map_sum id so_status r, s1))"
| "sandbox_exec sv (OpStop q rid) s = (case StopAgent sv q rid s of (r, s1) \<Rightarrow> (map_sum id so_status r, s1))"
| "sandbox_exec sv (OpDeadline q rid deadline) s = (Inr [], watchTimeout sv q rid deadline s)"
| "sandbox_exec sv (OpExit q rid cid) s = (Inr [], watchExit sv q rid cid s)"
| "sandbox_exec sv (OpCleanup q rid) s = (case CleanupRun sv q rid s of (r, s1) \<Rightarrow> (map_sum id so_status r, s1))"
| "sandbox_exec sv (OpReconcile dir qs qs' f) s =
     (case reconcileService sv dir qs qs' f s of (r, s1) \<Rightarrow> (map_sum id (\<lambda>_. []) r, s1))"
| "sandbox_exec sv OpRestart s = (Inr [], s\<lparr>ss_runs := []\<rparr>)"

end
