(* ===== verification/Launch_Safety.thy ===== *)
theory Launch_Safety
  imports Run_Lifecycle
begin

text \<open>
  What holds of every sequence of launches, with or without a key, recoveries and restarts, whatever calls fail in them: each
  container that is asked for gets the capability of its own run. \<open>quiet\<close> steps send no create request and keep the stored
  capabilities; only \<open>createIntent\<close> and \<open>launchAgent\<close> ask for a container. \<open>launch_inv\<close> is the invariant they keep.
\<close>

section \<open>Steps that ask for no container\<close>

text \<open>Capabilities stay, with the claims they were issued for.\<close>

definition claims_kept :: "cap_store \<Rightarrow> cap_store \<Rightarrow> bool" where
  "claims_kept c c' \<longleftrightarrow>
     (\<forall>d r. findRow c d = Some r \<longrightarrow> (\<exists>r'. findRow c' d = Some r' \<and> row_claims r' = row_claims r))"

lemma claims_kept_refl [simp]: "claims_kept c c"
  by (simp add: claims_kept_def)

lemma claims_kept_trans: "claims_kept c d \<Longrightarrow> claims_kept d e \<Longrightarrow> claims_kept c e"
  unfolding claims_kept_def by metis

lemma claims_kept_Issue:
  assumes "Issue sha f clk raw c s = (r, s1)"
  shows "claims_kept s s1"
proof (cases r)
  case (Inl e)
  then have "s1 = s" using Issue_Inl assms by blast
  then show ?thesis by simp
next
  case (Inr h)
  with Issue_ok assms have "findRow s (sha h) = None" "s1 = s\<lparr>cs_rows := cs_rows s @ [newRow (sha h) c (clk 1)]\<rparr>" by blast+
  then show ?thesis by (auto simp: claims_kept_def findRow_append)
qed

lemma claims_kept_Revoke: "claims_kept s (snd (Revoke sha f clk handle s))"
  by (auto simp: Revoke_state claims_kept_def findRow_updateRow revokedRow_def row_claims_def split: sum.splits)

definition quiet :: "'g docker_view \<Rightarrow> 'g sandbox_state \<Rightarrow> 'g sandbox_state \<Rightarrow> bool" where
  "quiet V s t \<longleftrightarrow> dv_requests V (ss_docker t) = dv_requests V (ss_docker s) \<and> claims_kept (ss_caps s) (ss_caps t)"

lemma quiet_refl [simp, intro]: "quiet V s s"
  by (simp add: quiet_def)

lemma quiet_trans [trans]: "quiet V s t \<Longrightarrow> quiet V t u \<Longrightarrow> quiet V s u"
  by (auto simp: quiet_def intro: claims_kept_trans)

lemma quiet_same: "ss_docker t = ss_docker s \<Longrightarrow> ss_caps t = ss_caps s \<Longrightarrow> quiet V s t"
  by (simp add: quiet_def)

lemma quiet_idle: "idle V (ss_docker s) g \<Longrightarrow> quiet V s (s\<lparr>ss_docker := g\<rparr>)"
  by (simp add: quiet_def idle_def)

lemma quiet_saveIntent: "saveIntent q n i s = (r, t) \<Longrightarrow> quiet V s t"
  by (auto simp: saveIntent_def split: prod.splits sum.splits intro!: quiet_same)

lemma quiet_saveMetadata: "saveMetadata q m s = (r, t) \<Longrightarrow> quiet V s t"
  by (auto simp: saveMetadata_def split: prod.splits sum.splits intro!: quiet_same)

lemma quiet_writeMetadataFile: "writeMetadataFile q m s = (r, t) \<Longrightarrow> quiet V s t"
  by (auto simp: writeMetadataFile_def Let_def split: option.splits if_splits intro!: quiet_same)

lemma quiet_putRun [simp]: "quiet V s (putRun m s)"
  by (simp add: quiet_def putRun_def)

lemma quiet_writeMetadata:
  assumes "writeMetadata q m s = (r, t)"
  shows "quiet V s t"
proof -
  obtain r1 s1 where a: "writeMetadataFile q m s = (r1, s1)" by fastforce
  obtain r2 s2 where b: "saveMetadata q m s1 = (r2, s2)" by fastforce
  have s2: "quiet V s s1" "quiet V s s2"
    using quiet_writeMetadataFile [OF a] quiet_trans [OF quiet_writeMetadataFile [OF a] quiet_saveMetadata [OF b]] by simp_all
  have "t \<in> {s1, s2, putRun m s2}" using assms b by (auto simp: writeMetadata_def a split: sum.splits)
  then show ?thesis using s2 quiet_trans [OF s2(2) quiet_putRun] by auto
qed

lemma quiet_persistTerminalResult: "persistTerminalResult q m s = (r, t) \<Longrightarrow> quiet V s t"
  by (auto simp: persistTerminalResult_def Let_def split: option.splits if_splits intro!: quiet_same)

lemma quiet_lookupRun: "lookupRun rid s = (r, t) \<Longrightarrow> quiet V s t"
  by (auto simp: lookupRun_def split: if_splits option.splits intro!: quiet_same)

lemma quiet_revoke: "quiet V s (revokeLaunchCapability sv q handle s)"
  by (simp add: revokeLaunchCapability_def quiet_def claims_kept_Revoke)

lemma quiet_mint: "mintLaunchCapability sv q t m s = (r, u) \<Longrightarrow> quiet V s u"
  by (auto simp: mintLaunchCapability_def quiet_def split: if_splits sum.splits prod.splits intro: claims_kept_Issue)

text \<open>The ends of a run call Docker, but start nothing and ask for nothing.\<close>

definition idle_update :: "'g docker_view \<Rightarrow> (run_metadata \<Rightarrow> 'g \<Rightarrow> run_metadata \<times> 'g) \<Rightarrow> bool" where
  "idle_update V upd \<longleftrightarrow>
     (\<forall>m g. rm_containerID (fst (upd m g)) = rm_containerID m \<and> rm_runID (fst (upd m g)) = rm_runID m \<and>
        rm_status (fst (upd m g)) \<in> {rm_status m, ''completed'', ''failed'', ''stopped'', ''timed_out''} \<and>
        idle V g (snd (upd m g)))"

lemma quiet_finalizeTerminalRun:
  assumes upd: "idle_update V upd" and fin: "finalizeTerminalRun sv q rid reason source upd s = (r, t)"
  shows "quiet V s t"
proof -
  obtain found s1 where look: "lookupRun rid s = (found, s1)" by fastforce
  have s1: "quiet V s s1" using quiet_lookupRun [OF look] .
  show ?thesis
  proof (cases found)
    case (Inl e)
    then show ?thesis using fin s1 by (simp add: finalizeTerminalRun_def look)
  next
    case (Inr m0)
    obtain m1 g where u: "upd m0 (ss_docker s1) = (m1, g)" by fastforce
    have "idle V (ss_docker s1) g" using upd u unfolding idle_update_def by (metis snd_conv)
    then have k1: "quiet V s (s1\<lparr>ss_docker := g\<rparr>)" using quiet_trans [OF s1 quiet_idle] by blast
    define next' where "next' = terminalMetadata reason source m1"
    obtain r2 s2 where p: "persistTerminalResult q next' (s1\<lparr>ss_docker := g\<rparr>) = (r2, s2)" by fastforce
    let ?s2 = "s2\<lparr>ss_runs := gput rid next' (ss_runs s2)\<rparr>"
    obtain r3 s3 where w: "writeMetadataFile q next' ?s2 = (r3, s3)" by fastforce
    obtain r4 s4 where v: "saveMetadata q next' s3 = (r4, s4)" by fastforce
    have k2: "quiet V s s2" using quiet_trans [OF k1 quiet_persistTerminalResult [OF p]] .
    have "quiet V s ?s2" using k2 by (simp add: quiet_def)
    then have k3: "quiet V s s3" using quiet_trans [OF _ quiet_writeMetadataFile [OF w]] by blast
    have k4: "quiet V s s4" using quiet_trans [OF k3 quiet_saveMetadata [OF v]] .
    have "t \<in> {s1, s1\<lparr>ss_docker := g\<rparr>, s2, s3, s4}"
      using fin p w v unfolding finalizeTerminalRun_def look Inr prod.case sum.case Let_def u next'_def [symmetric]
      by (cases r2; cases r3; cases r4) (auto split: if_splits)
    with s1 k1 k2 k3 k4 show ?thesis by auto
  qed
qed

lemma finalizeExitedRun_ids [simp]:
  "rm_containerID (finalizeExitedRun q st m) = rm_containerID m" "rm_runID (finalizeExitedRun q st m) = rm_runID m"
  "rm_status (finalizeExitedRun q st m) = (if cst_exitCode st = Some 0 then ''completed'' else ''failed'')"
  by (simp_all add: finalizeExitedRun_def Let_def split: option.splits)

lemma idle_exited [simp]: "idle_update V (exitedUpdate q st)"
  by (simp add: idle_update_def exitedUpdate_def)

lemma idle_missing [simp]: "idle_update V (missingUpdate q)"
  by (simp add: idle_update_def missingUpdate_def)

lemma timedOutMetadata_ids [simp]:
  "rm_containerID (timedOutMetadata q m) = rm_containerID m" "rm_runID (timedOutMetadata q m) = rm_runID m"
  "rm_status (timedOutMetadata q m) = ''timed_out''"
  by (simp_all add: timedOutMetadata_def Let_def split: option.splits)

lemma idle_markTimedOut:
  assumes laws: "docker_laws (sr_docker sv) V"
  shows "idle_update V (markTimedOut sv q)"
  unfolding idle_update_def
proof (intro allI conjI)
  fix m :: run_metadata and g
  obtain f1 g1 where a: "Inspect (sr_docker sv) (rm_containerID m) g = (f1, g1)" by fastforce
  obtain st g2 where b: "stopContainer (sr_docker sv) (rm_containerID m) (sg_stopGrace (sr_cfg sv)) g1 = (st, g2)" by fastforce
  obtain f3 g3 where c: "Inspect (sr_docker sv) (rm_containerID m) g2 = (f3, g3)" by fastforce
  have g1: "idle V g g1" using idle_Inspect [OF laws a] .
  have g2: "idle V g g2" using idle_trans [OF g1 idle_stop [OF laws b]] .
  have g3: "idle V g g3" using idle_trans [OF g2 idle_Inspect [OF laws c]] .
  have "snd (markTimedOut sv q m g) \<in> {g, g1, g2, g3}"
    unfolding markTimedOut_def a prod.case b by (auto simp: c split: option.splits stop_answer.splits)
  then show "idle V g (snd (markTimedOut sv q m g))" using g1 g2 g3 by auto
  show "rm_containerID (fst (markTimedOut sv q m g)) = rm_containerID m" "rm_runID (fst (markTimedOut sv q m g)) = rm_runID m"
    "rm_status (fst (markTimedOut sv q m g)) \<in> {rm_status m, ''completed'', ''failed'', ''stopped'', ''timed_out''}"
    unfolding markTimedOut_def a prod.case b by (auto simp: c stopFailed_def split: option.splits stop_answer.splits)
qed

lemma idle_stopUpdate:
  assumes laws: "docker_laws (sr_docker sv) V"
  shows "idle_update V (stopUpdate sv q)"
  unfolding idle_update_def
proof (intro allI conjI)
  fix m :: run_metadata and g
  obtain st g1 where a: "stopContainer (sr_docker sv) (rm_containerID m) (sg_stopGrace (sr_cfg sv)) g = (st, g1)" by fastforce
  obtain f g2 where b: "Inspect (sr_docker sv) (rm_containerID m) g1 = (f, g2)" by fastforce
  have g1: "idle V g g1" using idle_stop [OF laws a] .
  have g2: "idle V g g2" using idle_trans [OF g1 idle_Inspect [OF laws b]] .
  have "snd (stopUpdate sv q m g) \<in> {g, g1, g2}" by (auto simp: stopUpdate_def a b split: option.splits)
  then show "idle V g (snd (stopUpdate sv q m g))" using g1 g2 by auto
  show "rm_containerID (fst (stopUpdate sv q m g)) = rm_containerID m" "rm_runID (fst (stopUpdate sv q m g)) = rm_runID m"
    "rm_status (fst (stopUpdate sv q m g)) \<in> {rm_status m, ''completed'', ''failed'', ''stopped'', ''timed_out''}"
    by (auto simp: stopUpdate_def a b stoppedMetadata_def Let_def split: option.splits)
qed

lemma quiet_commitRunningIntent:
  assumes "commitRunningIntent q i m s = (r, t)"
  shows "quiet V s t"
proof -
  let ?m = "m\<lparr>rm_status := ''running''\<rparr>"
  obtain r1 s1 where a: "saveIntent q 3 (i\<lparr>it_state := IntentRunning, it_metadata := ?m\<rparr>) s = (r1, s1)" by fastforce
  obtain r2 s2 where b: "writeMetadata q ?m s1 = (r2, s2)" by fastforce
  have "t = s1 \<or> t = s2"
    using assms b unfolding commitRunningIntent_def Let_def a by (auto split: sum.splits)
  then show ?thesis using quiet_saveIntent [OF a] quiet_trans [OF quiet_saveIntent [OF a] quiet_writeMetadata [OF b]] by auto
qed

lemma quiet_commitExitedIntent:
  assumes "commitExitedIntent sv q i m st s = (r, t)"
  shows "quiet V s t"
proof -
  let ?m = "m\<lparr>rm_status := ''running''\<rparr>"
  obtain err f s1 where a: "finalizeTerminalRun sv q (rm_runID ?m) ''reconcile_exited'' ''exited'' (exitedUpdate q st)
      (putRun ?m s) = ((err, f), s1)" by (metis surj_pair)
  obtain r2 s2 where b: "saveIntent q 3 (i\<lparr>it_metadata := f, it_state := IntentTerminal\<rparr>) s1 = (r2, s2)" by fastforce
  have s1: "quiet V s s1" using quiet_trans [OF quiet_putRun quiet_finalizeTerminalRun [OF idle_exited a]] .
  have "t = s2" using assms unfolding commitExitedIntent_def Let_def a prod.case b by (auto split: option.splits sum.splits)
  then show ?thesis using quiet_trans [OF s1 quiet_saveIntent [OF b]] by simp
qed

lemma quiet_commitStartupFailureIntent:
  assumes "commitStartupFailureIntent q i m reason s = (r, t)"
  shows "quiet V s t"
proof -
  define m' where "m' = startupFailure q reason m"
  obtain r1 s1 where a: "persistTerminalResult q m' s = (r1, s1)" by fastforce
  obtain r2 s2 where b: "writeMetadata q m' s1 = (r2, s2)" by fastforce
  obtain r3 s3 where c: "saveIntent q 3 (i\<lparr>it_metadata := m', it_state := IntentTerminal\<rparr>) s2 = (r3, s3)" by fastforce
  have k1: "quiet V s s1" using quiet_persistTerminalResult [OF a] .
  have k2: "quiet V s s2" using quiet_trans [OF k1 quiet_writeMetadata [OF b]] .
  have k3: "quiet V s s3" using quiet_trans [OF k2 quiet_saveIntent [OF c]] .
  have "t \<in> {s1, s2, s3, putRun m' s3}"
    using assms b c unfolding commitStartupFailureIntent_def Let_def m'_def [symmetric] a by (auto split: sum.splits)
  with k1 k2 k3 quiet_trans [OF k3 quiet_putRun] show ?thesis by auto
qed

text \<open>What becomes of an intent whose container Docker did not start for certain.\<close>

lemma quiet_startIntent:
  assumes laws: "docker_laws (sr_docker sv) V" and run: "startIntent sv q i m handle info s = (r, t)"
  shows "quiet V s t"
proof (cases "cinf_lifecycle info")
  case ContainerRunning
  then show ?thesis using run by (auto simp: startIntent_def intro: quiet_commitRunningIntent)
next
  case ContainerExited
  then show ?thesis using run by (auto simp: startIntent_def intro: quiet_commitExitedIntent)
next
  case NeverStarted
  let ?i = "i\<lparr>it_state := IntentStartPending, it_metadata := m\<rparr>"
  obtain r1 s1 where a: "saveIntent q 2 ?i s = (r1, s1)" by fastforce
  obtain ok g1 where b: "startContainer (sr_docker sv) (rm_containerID m) (ss_docker s1) = (ok, g1)" by fastforce
  obtain found g2 where c: "Inspect (sr_docker sv) (rm_containerID m) g1 = (found, g2)" by fastforce
  let ?a = "s1\<lparr>ss_docker := g1\<rparr>" and ?b = "s1\<lparr>ss_docker := g2\<rparr>"
  let ?c = "revokeLaunchCapability sv q handle ?b"
  have s1: "quiet V s s1" using quiet_saveIntent [OF a] .
  have qa: "quiet V s ?a" using s1 startContainer_ok(4) [OF laws b] by (simp add: quiet_def)
  have qb: "quiet V s ?b" using qa idle_Inspect [OF laws c] by (simp add: quiet_def idle_def)
  have qc: "quiet V s ?c" using quiet_trans [OF qb quiet_revoke] .
  show ?thesis
  proof (cases r1)
    case (Inl e)
    then show ?thesis using run NeverStarted s1 by (simp add: startIntent_def Let_def a)
  next
    case (Inr u)
    let ?fail = "commitStartupFailureIntent q ?i m ''launch_start_failed'' ?c"
    have "(if ok then commitRunningIntent q ?i m ?a
        else case found of None \<Rightarrow> ?fail
          | Some st \<Rightarrow> if cst_running st then commitRunningIntent q ?i m ?b
              else if \<not> isZero (cst_startedAt st) then commitExitedIntent sv q ?i m st ?b else ?fail) = (r, t)"
      using run NeverStarted Inr b c by (cases ok) (simp_all add: startIntent_def Let_def a)
    then show ?thesis
      using quiet_trans [OF qa quiet_commitRunningIntent] quiet_trans [OF qb quiet_commitRunningIntent]
        quiet_trans [OF qb quiet_commitExitedIntent] quiet_trans [OF qc quiet_commitStartupFailureIntent]
      by (auto split: if_splits option.splits)
  qed
qed

lemma quiet_adoptIntent:
  assumes laws: "docker_laws (sr_docker sv) V" and run: "adoptIntent sv q i m s = (r, t)"
  shows "quiet V s t"
proof -
  obtain found g where a: "Inspect (sr_docker sv) (rm_containerID m) (ss_docker s) = (found, g)" by fastforce
  have k: "quiet V s (s\<lparr>ss_docker := g\<rparr>)" using quiet_idle [OF idle_Inspect [OF laws a]] .
  show ?thesis using run k quiet_trans [OF k quiet_startIntent [OF laws]] by (cases found) (auto simp: adoptIntent_def a)
qed

lemma quiet_resumeRunning:
  assumes laws: "docker_laws (sr_docker sv) V" and run: "resumeRunning sv q m s = (r, t)"
  shows "quiet V s t"
proof -
  obtain found g where a: "Inspect (sr_docker sv) (rm_containerID m) (ss_docker (putRun m s)) = (found, g)" by fastforce
  let ?s = "(putRun m s)\<lparr>ss_docker := g\<rparr>"
  have k: "quiet V s ?s" using quiet_trans [OF quiet_putRun quiet_idle [OF idle_Inspect [OF laws a]]] .
  obtain err n s3 where f: "finalizeTerminalRun sv q (rm_runID m) ''reconcile_exited'' ''exited''
      (exitedUpdate q (the found)) ?s = ((err, n), s3)" by (metis surj_pair)
  have s3: "quiet V s s3" using quiet_trans [OF k quiet_finalizeTerminalRun [OF idle_exited f]] .
  have "t \<in> {putRun m s, ?s, s3}"
    using run f by (cases found; cases err) (auto simp: resumeRunning_def Let_def a split: if_splits)
  with k s3 show ?thesis by auto
qed

section \<open>Steps that ask for a container\<close>

definition asked :: "'g docker_view \<Rightarrow> runtime_spec \<Rightarrow> 'g sandbox_state \<Rightarrow> 'g sandbox_state \<Rightarrow> bool" where
  "asked V spec s t \<longleftrightarrow> claims_kept (ss_caps s) (ss_caps t) \<and>
     (dv_requests V (ss_docker t) = dv_requests V (ss_docker s) \<or>
     (\<exists>req. dv_requests V (ss_docker t) = dv_requests V (ss_docker s) @ [(containerName (ru_runID spec), req)] \<and>
        dc_env req = envList (ru_env spec)))"

lemma asked_quiet: "asked V spec s t \<Longrightarrow> quiet V t u \<Longrightarrow> asked V spec s u"
  by (auto simp: asked_def quiet_def intro: claims_kept_trans)

lemma quiet_asked: "quiet V s t \<Longrightarrow> asked V spec s t"
  by (simp add: asked_def quiet_def)

lemma asked_createContainer:
  assumes "docker_laws dk V" and "createContainer dk fp spec (ss_docker s1) = (info, g)" and "quiet V s s1"
  shows "asked V spec s (s1\<lparr>ss_docker := g\<rparr>)"
  using createContainer_ok(3) [OF assms(1,2)] assms(3) by (simp add: asked_def quiet_def)

lemma asked_createIntent:
  assumes laws: "docker_laws (sr_docker sv) V" and run: "createIntent sv q i m handle spec s = (r, t)"
  shows "asked V spec s t"
proof -
  let ?i = "i\<lparr>it_state := IntentCreatePending\<rparr>"
  obtain r1 s1 where a: "saveIntent q 0 ?i s = (r1, s1)" by fastforce
  obtain info g where b: "createContainer (sr_docker sv) (sr_fingerprint sv) spec (ss_docker s1) = (info, g)" by fastforce
  have k1: "quiet V s s1" using quiet_saveIntent [OF a] .
  note a2 = asked_createContainer [OF laws b k1]
  show ?thesis
  proof (cases r1)
    case (Inl e)
    then have "t = revokeLaunchCapability sv q handle s1" using run by (simp add: createIntent_def Let_def a)
    then show ?thesis using quiet_asked [OF quiet_trans [OF k1 quiet_revoke]] by simp
  next
    case (Inr u)
    show ?thesis
    proof (cases info)
      case None
      then have "commitStartupFailureIntent q ?i m ''launch_create_failed''
          (revokeLaunchCapability sv q handle (s1\<lparr>ss_docker := g\<rparr>)) = (r, t)"
        using run Inr by (simp add: createIntent_def Let_def a b)
      then show ?thesis using asked_quiet [OF a2 quiet_trans [OF quiet_revoke quiet_commitStartupFailureIntent]] by blast
    next
      case (Some x)
      let ?m = "m\<lparr>rm_containerID := cinf_id x, rm_imageDigest := cinf_imageDigest x\<rparr>"
      let ?j = "?i\<lparr>it_metadata := ?m, it_state := IntentContainerMade\<rparr>"
      obtain r2 s2 where c: "saveIntent q 1 ?j (s1\<lparr>ss_docker := g\<rparr>) = (r2, s2)" by fastforce
      have a3: "asked V spec s s2" using asked_quiet [OF a2 quiet_saveIntent [OF c]] .
      have "t = s2 \<or> startIntent sv q ?j ?m handle x s2 = (r, t)"
        using run Inr Some by (cases r2) (simp_all add: createIntent_def Let_def a b c [simplified])
      then show ?thesis using a3 asked_quiet [OF a3 quiet_startIntent [OF laws]] by blast
    qed
  qed
qed

section \<open>The invariant of the launches\<close>

text \<open>A create request that carries the capability of its run: it is for the container of a run, its environment is that
  of the run and of its template, and the handle in it, if the template has a capability, is that of a stored
  capability with the claims of the run, and otherwise there is none.\<close>

definition own_capability :: "'g service \<Rightarrow> cap_store \<Rightarrow> string \<times> create_request \<Rightarrow> bool" where
  "own_capability sv caps x \<longleftrightarrow>
     (\<exists>m t handle. fst x = containerName (rm_runID m) \<and> gget (sg_templates (sr_cfg sv)) (rm_template m) = Some t \<and>
        dc_env (snd x) = envList (launchEnv (sr_cfg sv) m t handle) \<and>
        (if mintsCapability t
         then \<exists>pol r. sb_capability t = Some pol \<and> findRow caps (sr_sha sv handle) = Some r \<and>
                claimsOfRun t pol m (row_claims r)
         else handle = []))"

definition launch_inv :: "'g service \<Rightarrow> 'g docker_view \<Rightarrow> (string \<times> create_request) set \<Rightarrow> 'g sandbox_state \<Rightarrow> bool" where
  "launch_inv sv V old s \<longleftrightarrow> (\<forall>x \<in> set (dv_requests V (ss_docker s)). x \<in> old \<or> own_capability sv (ss_caps s) x)"

lemma own_capability_kept: "own_capability sv c x \<Longrightarrow> claims_kept c d \<Longrightarrow> own_capability sv d x"
  unfolding own_capability_def claims_kept_def by (smt (verit))

lemma launch_inv_quiet: "launch_inv sv V old s \<Longrightarrow> quiet V s t \<Longrightarrow> launch_inv sv V old t"
  by (auto simp: launch_inv_def quiet_def intro: own_capability_kept)

lemma runtimeSpec_Inr:
  "runtimeSpec cfg m t handle = Inr spec \<Longrightarrow> ru_runID spec = rm_runID m \<and> ru_env spec = launchEnv cfg m t handle"
  by (auto simp: runtimeSpec_def split: sum.splits)

lemma claimsOfRun_row: "claimsOfRun t pol m c \<Longrightarrow> claimsOfRun t pol m (row_claims (newRow d c now))"
  by (simp add: claimsOfRun_def row_claims_newRow AllowedModels_def split: if_splits)

lemma mint_Inr:
  assumes "mintLaunchCapability sv q t m s = (Inr handle, s1)"
  shows "if mintsCapability t
         then \<exists>pol r. sb_capability t = Some pol \<and> findRow (ss_caps s1) (sr_sha sv handle) = Some r \<and>
                claimsOfRun t pol m (row_claims r)
         else handle = []"
proof (cases "mintsCapability t")
  case True
  then obtain c t1 where d: "deriveCapabilityClaims t m = Inr c"
    and i: "Issue (sr_sha sv) (lcl_issue q) (lcl_issueClk q) (lcl_random q) c (ss_caps s) = (Inr handle, t1)"
    and s1: "s1 = s\<lparr>ss_caps := t1\<rparr>"
    using assms by (auto simp: mintLaunchCapability_def split: if_splits sum.splits prod.splits)
  obtain pol where pol: "sb_capability t = Some pol" "claimsOfRun t pol m c" using derive_Inr [OF d] by blast
  have t1: "findRow (ss_caps s) (sr_sha sv handle) = None"
    "t1 = ss_caps s\<lparr>cs_rows := cs_rows (ss_caps s) @ [newRow (sr_sha sv handle) c (lcl_issueClk q 1)]\<rparr>"
    using Issue_ok [OF i] by auto
  have "findRow t1 (sr_sha sv handle) = Some (newRow (sr_sha sv handle) c (lcl_issueClk q 1))"
    unfolding t1(2) using findRow_append [OF t1(1)] by (simp add: newRow_def)
  with True pol claimsOfRun_row s1 show ?thesis by auto
next
  case False
  then show ?thesis using assms by (simp add: mintLaunchCapability_def)
qed

text \<open>The image a release gives a template is not part of the environment or of the claims.\<close>

lemma template_image [simp]:
  "launchEnv cfg m (t\<lparr>sb_image := x\<rparr>) handle = launchEnv cfg m t handle"
  "mintsCapability (t\<lparr>sb_image := x\<rparr>) = mintsCapability t"
  "claimsOfRun (t\<lparr>sb_image := x\<rparr>) pol m c = claimsOfRun t pol m c"
  by (simp_all add: launchEnv_def mintsCapability_def claimsOfRun_def Let_def)

text \<open>A capability is minted for a run, then a container is asked for with it.\<close>

lemma launch_inv_asked:
  assumes s: "launch_inv sv V old s" and t0: "gget (sg_templates (sr_cfg sv)) (rm_template m) = Some t0"
    and t: "t = t0 \<or> (\<exists>x. t = t0\<lparr>sb_image := x\<rparr>)"
    and mint: "mintLaunchCapability sv q t m s = (Inr handle, s2)" and spec: "runtimeSpec (sr_cfg sv) m t handle = Inr spec"
    and ask: "asked V spec s2 u"
  shows "launch_inv sv V old u"
proof -
  have s2: "launch_inv sv V old s2" using launch_inv_quiet [OF s quiet_mint [OF mint]] .
  have env: "ru_runID spec = rm_runID m" "ru_env spec = launchEnv (sr_cfg sv) m t0 handle"
    using runtimeSpec_Inr [OF spec] t by auto
  have minted: "if mintsCapability t0
         then \<exists>pol r. sb_capability t0 = Some pol \<and> findRow (ss_caps s2) (sr_sha sv handle) = Some r \<and>
                claimsOfRun t0 pol m (row_claims r)
         else handle = []"
    using mint_Inr [OF mint] t by auto
  have new: "own_capability sv (ss_caps s2) (containerName (rm_runID m), req)"
    if "dc_env req = envList (launchEnv (sr_cfg sv) m t0 handle)" for req
    using that t0 minted unfolding own_capability_def fst_conv snd_conv by blast
  have old: "\<forall>x \<in> set (dv_requests V (ss_docker s2)). x \<in> old \<or> own_capability sv (ss_caps s2) x"
    using s2 by (simp add: launch_inv_def)
  have kept: "claims_kept (ss_caps s2) (ss_caps u)" using ask by (simp add: asked_def)
  have "\<forall>x \<in> set (dv_requests V (ss_docker u)). x \<in> old \<or> own_capability sv (ss_caps s2) x"
    using ask old new env unfolding asked_def by auto
  then have "\<forall>x \<in> set (dv_requests V (ss_docker u)). x \<in> old \<or> own_capability sv (ss_caps u) x"
    using own_capability_kept [OF _ kept] by blast
  then show ?thesis by (simp add: launch_inv_def)
qed

lemma launch_inv_resumeLaunchIntent:
  assumes laws: "docker_laws (sr_docker sv) V" and codex: "\<not> hasCodexWorkflow (sg_launchProfiles (sr_cfg sv))"
    and s: "launch_inv sv V old s" and run: "resumeLaunchIntent sv q i recovering s = (r, u)"
  shows "launch_inv sv V old u"
proof -
  let ?m = "it_metadata i"
  let ?s = "s\<lparr>ss_files := gput (rm_runID ?m) ?m (ss_files s)\<rparr>"
  have s1: "launch_inv sv V old ?s" using launch_inv_quiet [OF s quiet_same] by simp
  have plain: "\<not> (case gget (sg_launchProfiles (sr_cfg sv)) (it_profile i) of None \<Rightarrow> False | Some p \<Rightarrow> sp_codexWorkflow p \<noteq> None)"
    using codex by (fastforce simp: hasCodexWorkflow_def list_ex_iff dest: gget_SomeD split: option.splits)
  show ?thesis
  proof (cases "lp_configVersion (it_plan i) \<noteq> sg_configVersion (sr_cfg sv) \<or> isTerminalStatus (rm_status ?m) \<or>
      it_state i = IntentTerminal \<or> gget (sg_templates (sr_cfg sv)) (rm_template ?m) = None")
    case True
    then have "u = s" using run by (auto simp: resumeLaunchIntent_def Let_def plain split: if_splits)
    then show ?thesis using s by simp
  next
    case False
    then obtain t where t: "gget (sg_templates (sr_cfg sv)) (rm_template ?m) = Some t" by auto
    have run1: "(if it_state i = IntentRunning then resumeRunning sv q ?m s
        else if lcl_prepare q \<noteq> None then (Inl LaunchFiles, if lcl_prepare q = Some True then ?s else s)
        else if it_state i = IntentContainerMade \<or> it_state i = IntentStartPending then
          (case runtimeSpec (sr_cfg sv) ?m t [] of Inl e \<Rightarrow> (Inl e, ?s) | Inr spec \<Rightarrow> adoptIntent sv q i ?m ?s)
        else
          (case mintLaunchCapability sv q t ?m ?s of
             (Inl e, s2) \<Rightarrow> (Inl e, s2)
           | (Inr handle, s2) \<Rightarrow>
               (case runtimeSpec (sr_cfg sv) ?m t handle of
                  Inl e \<Rightarrow> (Inl e, revokeLaunchCapability sv q handle s2)
                | Inr spec \<Rightarrow> createIntent sv q i ?m handle spec s2))) = (r, u)"
      using run False t unfolding resumeLaunchIntent_def Let_def if_not_P [OF plain] by simp
    show ?thesis
    proof (cases "it_state i = IntentRunning \<or> lcl_prepare q \<noteq> None \<or> it_state i = IntentContainerMade \<or> it_state i = IntentStartPending")
      case True
      then show ?thesis
        using run1 s s1 launch_inv_quiet [OF s quiet_resumeRunning [OF laws]] launch_inv_quiet [OF s1 quiet_adoptIntent [OF laws]]
        by (auto split: if_splits sum.splits)
    next
      case False
      obtain mr s2 where mint: "mintLaunchCapability sv q t ?m ?s = (mr, s2)" by fastforce
      have s2: "launch_inv sv V old s2" using launch_inv_quiet [OF s1 quiet_mint [OF mint]] .
      show ?thesis
      proof (cases mr)
        case (Inl e)
        then show ?thesis using run1 False mint s2 by simp
      next
        case (Inr handle)
        show ?thesis
        proof (cases "runtimeSpec (sr_cfg sv) ?m t handle")
          case (Inl e)
          then have "u = revokeLaunchCapability sv q handle s2" using run1 False mint Inr by simp
          then show ?thesis using launch_inv_quiet [OF s2 quiet_revoke] by simp
        next
          case spec: (Inr spec)
          then have "createIntent sv q i ?m handle spec s2 = (r, u)" using run1 False mint Inr by simp
          from launch_inv_asked [OF s1 t _ _ spec asked_createIntent [OF laws this]] mint Inr show ?thesis by simp
        qed
      qed
    qed
  qed
qed

lemma launch_inv_launchKeyed:
  assumes laws: "docker_laws (sr_docker sv) V" and codex: "\<not> hasCodexWorkflow (sg_launchProfiles (sr_cfg sv))"
    and s: "launch_inv sv V old s" and run: "launchKeyed sv q who profile rawKey fp inp s = (r, u)"
  shows "launch_inv sv V old u"
proof -
  have t: "launch_inv sv V old (s\<lparr>ss_intents := t\<rparr>)" for t using launch_inv_quiet [OF s quiet_same] by simp
  have resume: "launch_inv sv V old (snd (replayed b (resumeLaunchIntent sv q i False s')))" if "launch_inv sv V old s'" for b i s'
    using launch_inv_resumeLaunchIntent [OF laws codex that prod.collapse [symmetric]] by (simp add: replayed_def)
  have "launch_inv sv V old (snd (launchKeyed sv q who profile rawKey fp inp s))"
    unfolding launchKeyed_def Let_def by (auto simp: s t resume split: sum.splits option.splits prod.splits)
  then show ?thesis using run by simp
qed

text \<open>A launch without a key.\<close>

lemma quiet_failLaunch:
  assumes "failLaunch sv q handle reason m cause s = (r, t)"
  shows "quiet V s t"
proof -
  define m' where "m' = startupFailure q reason m"
  let ?s = "revokeLaunchCapability sv q handle s"
  obtain r1 s1 where a: "persistTerminalResult q m' ?s = (r1, s1)" by fastforce
  obtain r2 s2 where b: "writeMetadata q m' s1 = (r2, s2)" by fastforce
  have k1: "quiet V s s1" using quiet_trans [OF quiet_revoke quiet_persistTerminalResult [OF a]] .
  have k2: "quiet V s s2" using quiet_trans [OF k1 quiet_writeMetadata [OF b]] .
  have "t \<in> {s1, s2}" using assms b unfolding failLaunch_def Let_def m'_def [symmetric] a by (auto split: sum.splits)
  with k1 k2 show ?thesis by auto
qed

lemma selected_template:
  assumes "selectLaunchTemplate re cfg runID fails releases i = Inr sel"
  shows "\<exists>t0. gget (sg_templates cfg) (la_template i) = Some t0 \<and>
      (sl_template sel = t0 \<or> (\<exists>x. sl_template sel = t0\<lparr>sb_image := x\<rparr>))"
    and "runID = Some (sl_runID sel)"
proof -
  obtain t run branch limit where v: "validateLaunch re cfg runID i = Inr (t, run, branch, limit)"
    using assms by (auto simp: selectLaunchTemplate_def split: sum.splits)
  note V = validateLaunch_Inr [OF v]
  have "sl_runID sel = run \<and> (sl_template sel = t \<or> (\<exists>x. sl_template sel = t\<lparr>sb_image := x\<rparr>))"
    using assms unfolding selectLaunchTemplate_def v sum.case prod.case Let_def
    by (auto split: if_split_asm option.split_asm sum.split_asm)
  with V show "\<exists>t0. gget (sg_templates cfg) (la_template i) = Some t0 \<and>
      (sl_template sel = t0 \<or> (\<exists>x. sl_template sel = t0\<lparr>sb_image := x\<rparr>))" "runID = Some (sl_runID sel)"
    by simp_all
qed

lemma directMetadata_simps [simp]:
  "rm_runID (directMetadata now who i sel) = sl_runID sel" "rm_template (directMetadata now who i sel) = la_template i"
  "rm_containerID (directMetadata now who i sel) = []"
  by (simp_all add: directMetadata_def applyResolvedRelease_def zeroMetadata_def Let_def split: option.splits)

lemma launch_inv_launchAgent:
  assumes laws: "docker_laws (sr_docker sv) V" and s: "launch_inv sv V old s" and run: "launchAgent sv q who inp s = (r, u)"
  shows "launch_inv sv V old u"
proof (cases "selectLaunchTemplate (sr_regexps sv) (sr_cfg sv) (lcl_runID q) (lcl_release q) (sr_releases sv) inp")
  case (Inl e)
  then show ?thesis using run s by (simp add: launchAgent_def)
next
  case (Inr sel)
  define n where "n = directMetadata (lcl_now q) who inp sel"
  obtain mr s1 where mint: "mintLaunchCapability sv q (sl_template sel) n s = (mr, s1)" by fastforce
  have s1: "launch_inv sv V old s1" using launch_inv_quiet [OF s quiet_mint [OF mint]] .
  obtain t0 where t0: "gget (sg_templates (sr_cfg sv)) (rm_template n) = Some t0"
    "sl_template sel = t0 \<or> (\<exists>x. sl_template sel = t0\<lparr>sb_image := x\<rparr>)"
    using selected_template(1) [OF Inr] by (auto simp: n_def)
  show ?thesis
  proof (cases "profileBusy sv (la_profile inp) s \<or> \<not> validateTaskContract sv n \<or> lcl_prepare q \<noteq> None \<or> (\<exists>e. mr = Inl e)")
    case True
    then show ?thesis using run s s1 Inr
      by (auto simp: launchAgent_def Let_def n_def [symmetric] mint split: if_splits)
  next
    case False
    then obtain handle where handle: "mr = Inr handle" by (cases mr) auto
    show ?thesis
    proof (cases "runtimeSpec (sr_cfg sv) n (sl_template sel) handle")
      case (Inl e)
      then have "u = revokeLaunchCapability sv q handle s1"
        using run Inr False handle by (simp add: launchAgent_def Let_def n_def [symmetric] mint)
      then show ?thesis using launch_inv_quiet [OF s1 quiet_revoke] by simp
    next
      case spec: (Inr spec)
      obtain info g1 where c: "createContainer (sr_docker sv) (sr_fingerprint sv) spec (ss_docker s1) = (info, g1)" by fastforce
      have a1: "asked V spec s1 (s1\<lparr>ss_docker := g1\<rparr>)" using asked_createContainer [OF laws c quiet_refl] .
      have "asked V spec s1 u"
      proof (cases info)
        case None
        then have "failLaunch sv q handle ''launch_create_failed'' n LaunchCreate (s1\<lparr>ss_docker := g1\<rparr>) = (r, u)"
          using run Inr False handle spec c by (simp add: launchAgent_def Let_def n_def [symmetric] mint)
        then show ?thesis using asked_quiet [OF a1 quiet_failLaunch] by blast
      next
        case (Some x)
        let ?m = "n\<lparr>rm_containerID := cinf_id x, rm_imageDigest := cinf_imageDigest x\<rparr>"
        obtain ok g2 where d: "startContainer (sr_docker sv) (cinf_id x) g1 = (ok, g2)" by fastforce
        let ?s = "s1\<lparr>ss_docker := g2\<rparr>" and ?w = "?m\<lparr>rm_status := ''running''\<rparr>"
        have a2: "asked V spec s1 ?s" using a1 startContainer_ok(4) [OF laws d] by (simp add: asked_def)
        obtain r3 s3 where w: "writeMetadata q ?w ?s = (r3, s3)" by fastforce
        have a3: "asked V spec s1 s3" using asked_quiet [OF a2 quiet_writeMetadata [OF w]] .
        have "failLaunch sv q handle ''launch_start_failed'' ?m LaunchStart ?s = (r, u) \<or> u = s3 \<or> u = putRun ?w s3"
          using run Inr False handle spec c Some d w
          by (cases ok; cases r3) (simp_all add: launchAgent_def Let_def n_def [symmetric] mint)
        then show ?thesis using asked_quiet [OF a2 quiet_failLaunch] a3 asked_quiet [OF a3 quiet_putRun] by blast
      qed
      from launch_inv_asked [OF s t0 _ spec this] mint handle show ?thesis by simp
    qed
  qed
qed

lemma launch_inv_reconcileAll:
  assumes laws: "docker_laws (sr_docker sv) V" and codex: "\<not> hasCodexWorkflow (sg_launchProfiles (sr_cfg sv))"
    and "launch_inv sv V old s"
  shows "launch_inv sv V old (snd (reconcileAll sv qs n is s))"
  using assms(3)
proof (induction "is" arbitrary: n s)
  case (Cons i "is")
  obtain r s1 where a: "resumeLaunchIntent sv (qs n) i True s = (r, s1)" by fastforce
  have "launch_inv sv V old s1" using launch_inv_resumeLaunchIntent [OF laws codex Cons.prems a] .
  then show ?case using Cons a by (auto split: sum.splits)
qed simp

section \<open>The other operations\<close>

lemma quiet_snd_finalize:
  assumes "idle_update V upd" and "quiet V s s1"
  shows "quiet V s (snd (finalStatus (finalizeTerminalRun sv q rid reason source upd s1)))"
    and "quiet V s (snd (finalizeTerminalRun sv q rid reason source upd s1))"
proof -
  obtain err m t where f: "finalizeTerminalRun sv q rid reason source upd s1 = ((err, m), t)" by (metis surj_pair)
  have "quiet V s t" using quiet_trans [OF assms(2) quiet_finalizeTerminalRun [OF assms(1) f]] .
  then show "quiet V s (snd (finalStatus (finalizeTerminalRun sv q rid reason source upd s1)))"
    "quiet V s (snd (finalizeTerminalRun sv q rid reason source upd s1))"
    by (auto simp: f finalStatus_def split: option.splits)
qed

lemma quiet_GetAgentStatus:
  assumes laws: "docker_laws (sr_docker sv) V"
  shows "quiet V s (snd (GetAgentStatus sv q rid s))"
proof -
  obtain r s1 where a: "lookupRun rid s = (r, s1)" by fastforce
  have s1: "quiet V s s1" using quiet_lookupRun [OF a] .
  obtain found g where b: "Inspect (sr_docker sv) (rm_containerID (projr r)) (ss_docker s1) = (found, g)" by fastforce
  have s2: "quiet V s (s1\<lparr>ss_docker := g\<rparr>)" using quiet_trans [OF s1 quiet_idle [OF idle_Inspect [OF laws b]]] .
  show ?thesis
    using s1 s2 quiet_snd_finalize(1) [OF idle_exited s2] quiet_snd_finalize(1) [OF idle_markTimedOut [OF laws] s2] b
    by (cases r) (auto simp: GetAgentStatus_def a split: option.splits)
qed

lemma quiet_StopAgent:
  assumes laws: "docker_laws (sr_docker sv) V"
  shows "quiet V s (snd (StopAgent sv q rid s))"
proof -
  obtain r s1 where a: "lookupRun rid s = (r, s1)" by fastforce
  have s1: "quiet V s s1" using quiet_lookupRun [OF a] .
  obtain err n t where f: "finalizeTerminalRun sv q (rm_runID (projr r)) ''manual_stop'' ''manual_stop'' (stopUpdate sv q) s1 =
      ((err, n), t)" by (metis surj_pair)
  have "quiet V s t" using quiet_snd_finalize(2) [OF idle_stopUpdate [OF laws] s1] f by (metis snd_conv)
  then show ?thesis using s1 f by (cases r) (auto simp: StopAgent_def a Let_def split: option.splits)
qed

lemma quiet_watchTimeout:
  assumes laws: "docker_laws (sr_docker sv) V"
  shows "quiet V s (watchTimeout sv q rid deadline s)"
proof -
  obtain r s1 where a: "lookupRun rid s = (r, s1)" by fastforce
  have s1: "quiet V s s1" using quiet_lookupRun [OF a] .
  then show ?thesis using quiet_snd_finalize(2) [OF idle_markTimedOut [OF laws] s1]
    by (simp add: watchTimeout_def a split: sum.splits)
qed

lemma quiet_watchExit:
  assumes laws: "docker_laws (sr_docker sv) V"
  shows "quiet V s (watchExit sv q rid cid s)"
proof -
  obtain w g1 where a: "WaitExit (sr_docker sv) cid (ss_docker s) = (w, g1)" by fastforce
  obtain found g2 where b: "Inspect (sr_docker sv) cid g1 = (found, g2)" by fastforce
  have g1: "idle V (ss_docker s) g1" using idle_wait [OF laws a] .
  have s1: "quiet V s (s\<lparr>ss_docker := g1\<rparr>)" using quiet_idle [OF g1] .
  have s2: "quiet V s (s\<lparr>ss_docker := g2\<rparr>)" using quiet_idle [OF idle_trans [OF g1 idle_Inspect [OF laws b]]] .
  obtain r s3 where c: "lookupRun rid (s\<lparr>ss_docker := g2\<rparr>) = (r, s3)" by fastforce
  have s3: "quiet V s s3" using quiet_trans [OF s2 quiet_lookupRun [OF c]] .
  show ?thesis
    using quiet_snd_finalize(2) [OF idle_exited s1] quiet_snd_finalize(2) [OF idle_exited s2] s3
    by (simp add: watchExit_def a b c Let_def split: option.splits)
qed

lemma idle_removeContainers:
  assumes laws: "docker_laws dk V"
  shows "idle V g (snd (removeContainers dk removed cs g))"
proof (induction cs arbitrary: removed g)
  case (Cons c cs)
  obtain ok g1 where a: "removeContainer dk c g = (ok, g1)" by fastforce
  have g1: "idle V g g1" using idle_remove [OF laws a] .
  show ?case using Cons.IH idle_trans [OF g1 Cons.IH] g1 by (simp add: a split: bool.splits)
qed simp

lemma quiet_CleanupRun:
  assumes laws: "docker_laws (sr_docker sv) V"
  shows "quiet V s (snd (CleanupRun sv q rid s))"
proof -
  obtain r s1 where a: "lookupRun rid s = (r, s1)" by fastforce
  have s1: "quiet V s s1" using quiet_lookupRun [OF a] .
  show ?thesis
  proof (cases r)
    case (Inl e)
    then show ?thesis using s1 by (simp add: CleanupRun_def a)
  next
    case (Inr m)
    obtain ok g where b: "removeContainers (sr_docker sv) []
        (if rm_provenance m \<noteq> None then sr_containers sv m else [rm_containerID m]) (ss_docker s1) = (ok, g)" by fastforce
    have "idle V (ss_docker s1) g" using idle_removeContainers [OF laws] b by (metis snd_conv)
    then have s2: "quiet V s (s1\<lparr>ss_docker := g\<rparr>)" using quiet_trans [OF s1 quiet_idle] by blast
    have dir: "quiet V s (removeRunDir gone (rm_runID m) (s1\<lparr>ss_docker := g\<rparr>))" for gone
      using s2 by (simp add: quiet_def removeRunDir_def)
    have gone: "quiet V s ((removeRunDir gone (rm_runID m) (s1\<lparr>ss_docker := g\<rparr>))\<lparr>ss_runs := x\<rparr>)" for gone x
      using dir by (simp add: quiet_def)
    show ?thesis using s1 s2 dir gone
      unfolding CleanupRun_def a Inr prod.case sum.case b by (simp add: Let_def split: bool.splits option.splits)
  qed
qed

lemma quiet_reconcileContainer:
  assumes laws: "docker_laws (sr_docker sv) V" and run: "reconcileContainer sv q m s = (r, t)"
  shows "quiet V s t"
proof -
  obtain found g where b: "Inspect (sr_docker sv) (rm_containerID m) (ss_docker s) = (found, g)" by fastforce
  let ?s = "s\<lparr>ss_docker := g\<rparr>"
  have s1: "quiet V s ?s" using quiet_idle [OF idle_Inspect [OF laws b]] .
  have fin: "quiet V s t" if "idle_update V upd" "finalizeTerminalRun sv q rid reason source upd ?s = (r, t)" for upd rid reason source
    using quiet_trans [OF s1 quiet_finalizeTerminalRun [OF that]] .
  show ?thesis
  proof (cases "rm_provenance m = None \<and> rm_containerID m \<noteq> [] \<and> rm_status m = ''running''")
    case True
    show ?thesis
      using run s1 fin [OF idle_missing] fin [OF idle_exited] fin [OF idle_markTimedOut [OF laws]]
      unfolding reconcileContainer_def if_P [OF True] b prod.case by (cases found) (auto split: if_splits)
  next
    case False
    then show ?thesis using run by (auto simp: reconcileContainer_def)
  qed
qed

lemma quiet_reconcileRun:
  assumes laws: "docker_laws (sr_docker sv) V"
  shows "quiet V s (snd (reconcileRun sv q m s))"
proof -
  obtain r t where a: "RestoreMetadata (lcl_create q) (lcl_now q) m (ss_intents s) = (r, t)" by fastforce
  have s1: "quiet V s (s\<lparr>ss_intents := t\<rparr>)" by (rule quiet_same) simp_all
  obtain err n s2 where b: "reconcileContainer sv q m (s\<lparr>ss_intents := t\<rparr>) = ((err, n), s2)" by (metis surj_pair)
  have s2: "quiet V s s2" using quiet_trans [OF s1 quiet_reconcileContainer [OF laws b]] .
  obtain r3 s3 where c: "backfillResult q n (putRun n s2) = (r3, s3)" by fastforce
  have "quiet V (putRun n s2) s3" using c by (auto simp: backfillResult_def split: if_splits intro: quiet_persistTerminalResult)
  then have s3: "quiet V s s3" using quiet_trans [OF quiet_trans [OF s2 quiet_putRun]] by blast
  show ?thesis
  proof (cases "rm_provenance m \<noteq> None \<and> sr_issuer sv \<and> lcl_cleanup q")
    case True
    then show ?thesis by (simp add: reconcileRun_def)
  next
    case False
    show ?thesis unfolding reconcileRun_def if_not_P [OF False] a prod.case b
      using s1 s2 s3 by (auto simp: c split: sum.splits option.splits)
  qed
qed

lemma quiet_reconcileRuns:
  assumes laws: "docker_laws (sr_docker sv) V"
  shows "quiet V s (snd (reconcileRuns sv qs n rids s))"
proof (induction rids arbitrary: n s)
  case (Cons rid rids)
  show ?case
  proof (cases "if lcl_unreadable (qs n) then None else gget (ss_files s) rid")
    case None
    then show ?thesis using Cons by simp
  next
    case (Some m)
    have r: "quiet V s (snd (reconcileRun sv (qs n) m s))" using quiet_reconcileRun [OF laws] .
    show ?thesis using r Some quiet_trans [OF r Cons.IH] by (auto split: sum.splits prod.splits)
  qed
qed simp

lemma launch_inv_Reconcile:
  assumes laws: "docker_laws (sr_docker sv) V" and codex: "\<not> hasCodexWorkflow (sg_launchProfiles (sr_cfg sv))"
    and s: "launch_inv sv V old s"
  shows "launch_inv sv V old (snd (reconcileService sv dir qs qs' f s))"
proof -
  obtain r s1 where a: "reconcileRuns sv qs 0 (sort (map fst (ss_files s))) s = (r, s1)" by fastforce
  have s1: "launch_inv sv V old s1" using launch_inv_quiet [OF s quiet_reconcileRuns [OF laws]] a by (metis snd_conv)
  have "launch_inv sv V old (snd (reconcileLaunchIntents sv qs' f s1))"
    using s1 launch_inv_reconcileAll [OF laws codex s1] by (auto simp: reconcileLaunchIntents_def split: sum.splits)
  then show ?thesis using s s1 by (auto simp: reconcileService_def a split: sum.splits)
qed

lemma launch_inv_exec:
  assumes laws: "docker_laws (sr_docker sv) V" and codex: "\<not> hasCodexWorkflow (sg_launchProfiles (sr_cfg sv))"
    and s: "launch_inv sv V old s"
  shows "launch_inv sv V old (snd (sandbox_exec sv x s))"
proof (cases x)
  case (OpLaunch q who profile rawKey fp inp)
  then show ?thesis
    using launch_inv_launchKeyed [OF laws codex s prod.collapse [symmetric]] launch_inv_launchAgent [OF laws s prod.collapse [symmetric]]
    by (simp add: split_beta LaunchProfile_def)
next
  case OpRestart
  then show ?thesis using launch_inv_quiet [OF s quiet_same] by simp
qed (simp_all add: split_beta launch_inv_quiet [OF s] quiet_GetAgentStatus [OF laws] quiet_StopAgent [OF laws]
    quiet_watchTimeout [OF laws] quiet_watchExit [OF laws] quiet_CleanupRun [OF laws]
    launch_inv_Reconcile [OF laws codex s])

section \<open>Properties\<close>

definition lawful_inv :: "'g service \<Rightarrow> 'g docker_view \<Rightarrow> (string \<times> create_request) set \<Rightarrow> 'g sandbox_state \<Rightarrow> bool" where
  "lawful_inv sv V old s \<longleftrightarrow>
     docker_laws (sr_docker sv) V \<and> \<not> hasCodexWorkflow (sg_launchProfiles (sr_cfg sv)) \<and> launch_inv sv V old s"

interpretation launches: inv_store "sandbox_exec sv" "lawful_inv sv V old" for sv V old
  by unfold_locales (auto simp: lawful_inv_def intro: launch_inv_exec)


subsection \<open>An example\<close>

text \<open>A Docker that holds the requests it received and its containers, each with its name, whether it is still there, its
  labels and how often it was started; the id of the n-th is n letters.\<close>

type_synonym small_docker = "(string \<times> create_request) list \<times> (string \<times> bool \<times> string gomap \<times> nat) list"

definition smallID :: "nat \<Rightarrow> string" where
  "smallID n = replicate (Suc n) (CHR ''a'')"

definition smallIndex :: "string \<Rightarrow> small_docker \<Rightarrow> nat" where
  "smallIndex key g =
     (if hasPrefix key ''sandbox-'' then length (takeWhile (\<lambda>c. \<not> (fst c = key \<and> fst (snd c))) (snd g))
      else if key \<noteq> [] \<and> list_all (\<lambda>c. c = CHR ''a'') key then length key - 1 else length (snd g))"

definition smallStarts :: "small_docker \<Rightarrow> string \<Rightarrow> nat" where
  "smallStarts g cid =
     (if containerID cid \<and> smallIndex cid g < length (snd g) then snd (snd (snd (snd g ! smallIndex cid g))) else 0)"

definition smallOwner :: "small_docker \<Rightarrow> string \<Rightarrow> string option" where
  "smallOwner g cid =
     (if containerID cid \<and> smallIndex cid g < length (snd g) then Some (fst (snd g ! smallIndex cid g)) else None)"

definition smallView :: "small_docker docker_view" where
  "smallView = \<lparr>dv_starts = smallStarts, dv_owner = smallOwner, dv_requests = fst\<rparr>"

definition smallDocker :: "small_docker docker_api" where
  "smallDocker =
     \<lparr>dk_create = (\<lambda>name req g.
        if list_ex (\<lambda>c. fst c = name \<and> fst (snd c)) (snd g) then (CreateConflict, (fst g @ [(name, req)], snd g))
        else (Created (smallID (length (snd g))), (fst g @ [(name, req)], snd g @ [(name, True, dc_labels req, 0)]))),
      dk_inspect = (\<lambda>key g.
        if smallIndex key g < length (snd g) \<and> fst (snd (snd g ! smallIndex key g)) then
          (case snd g ! smallIndex key g of
             (name, there, labels, n) \<Rightarrow>
               (Some \<lparr>di_id = smallID (smallIndex key g), di_name = ''/'' @ name, di_image = ''img'', di_platform = ''linux'',
                      di_labels = labels, di_running = (0 < n), di_exitCode = 0, di_error = [], di_startedAt = int n,
                      di_finishedAt = 0\<rparr>, g))
        else (None, g)),
      dk_start = (\<lambda>cid g.
        if containerID cid \<and> smallIndex cid g < length (snd g) then
          (case snd g ! smallIndex cid g of
             (name, there, labels, n) \<Rightarrow> (True, (fst g, (snd g)[smallIndex cid g := (name, there, labels, Suc n)])))
        else (False, g)),
      dk_image = (\<lambda>img g. (Some (''img'', ''linux''), g)), dk_wait = (\<lambda>cid g. (Some (0, []), g)),
      dk_stop = (\<lambda>cid n g. (StopDone, g)), 
      dk_remove = (\<lambda>cid g.
        if containerID cid \<and> smallIndex cid g < length (snd g) then
          (case snd g ! smallIndex cid g of
             (name, there, labels, n) \<Rightarrow> (True, (fst g, (snd g)[smallIndex cid g := (name, False, labels, n)])))
        else (False, g))\<rparr>"

lemma smallID_ok [simp]: "containerID (smallID n)" "smallIndex (smallID n) g = n"
  by (simp_all add: containerID_def smallID_def smallIndex_def hasPrefix_def list_all_iff)

lemma smallIndex_id: "containerID key \<Longrightarrow> smallIndex key g < length (snd g) \<Longrightarrow> smallID (smallIndex key g) = key"
  by (cases key) (auto simp: smallIndex_def smallID_def containerID_def list_all_iff replicate_length_same split: if_splits)

lemma smallIndex_snd [simp]: "smallIndex key (x, snd g) = smallIndex key g"
  by (simp add: smallIndex_def)

lemma smallIndex_inj:
  "containerID a \<Longrightarrow> containerID b \<Longrightarrow> smallIndex a (x, y) = smallIndex b (x, y) \<Longrightarrow> smallIndex b (x, y) < length y \<Longrightarrow> a = b"
  using smallIndex_id by (metis snd_conv)

lemma smallIndex_update [simp]: "containerID a \<Longrightarrow> smallIndex a (x, xs[n := c]) = smallIndex a (x, xs)"
  by (simp add: smallIndex_def containerID_def)

lemma small_append:
  "smallStarts (x, xs @ [(name, True, labels, 0)]) = smallStarts (y, xs)"
  "smallOwner (y, xs) c = Some m \<Longrightarrow> smallOwner (x, xs @ [(name, True, labels, 0)]) c = Some m"
  "smallOwner (x, xs @ [(name, True, labels, 0)]) c = Some m \<Longrightarrow> smallOwner (y, xs) c = Some m \<or> smallStarts (y, xs) c = 0"
  by (auto simp: smallStarts_def smallOwner_def smallIndex_def containerID_def nth_append fun_eq_iff split: if_splits)

lemma small_requests: "smallStarts (x, xs) = smallStarts (y, xs)" "smallOwner (x, xs) = smallOwner (y, xs)"
  by (auto simp: smallStarts_def smallOwner_def smallIndex_def containerID_def fun_eq_iff)

lemma small_new: "smallOwner (y, xs) (smallID (length xs)) = None"
  "smallOwner (x, xs @ [(name, True, labels, 0)]) (smallID (length xs)) = Some name"
  by (simp_all add: smallOwner_def)

lemma small_create: "create_law smallDocker smallView"
  unfolding create_law_def
proof (intro allI)
  fix name req and g :: small_docker
  obtain rs xs where g: "g = (rs, xs)" by fastforce
  let ?a = "dk_create smallDocker name req g"
  have "?a = (CreateConflict, (rs @ [(name, req)], xs)) \<or>
      ?a = (Created (smallID (length xs)), (rs @ [(name, req)], xs @ [(name, True, dc_labels req, 0)]))"
    by (simp add: smallDocker_def g)
  then show "dv_requests smallView (snd ?a) = dv_requests smallView g @ [(name, req)] \<and>
      dv_starts smallView (snd ?a) = dv_starts smallView g \<and>
      (\<forall>c n. dv_owner smallView g c = Some n \<longrightarrow> dv_owner smallView (snd ?a) c = Some n) \<and>
      (\<forall>c n. dv_owner smallView (snd ?a) c = Some n \<longrightarrow> dv_owner smallView g c = Some n \<or> dv_starts smallView g c = 0) \<and>
      (\<forall>cid. fst ?a = Created cid \<longrightarrow>
         containerID cid \<and> dv_owner smallView g cid = None \<and> dv_owner smallView (snd ?a) cid = Some name)"
    using small_append(1) [of "rs @ [(name, req)]" xs name "dc_labels req" rs]
      small_append(2) [of rs xs _ _ "rs @ [(name, req)]" name "dc_labels req"]
      small_append(3) [of "rs @ [(name, req)]" xs name "dc_labels req" _ _ rs]
      small_requests [of "rs @ [(name, req)]" xs rs] small_new
    by (elim disjE) (simp_all add: smallView_def g)
qed

lemma small_idle [simp]: "idle smallView g h \<longleftrightarrow> smallStarts h = smallStarts g \<and> smallOwner h = smallOwner g \<and> fst h = fst g"
  by (simp add: idle_def smallView_def)

lemma small_inspect: "inspect_law smallDocker smallView"
  by (auto simp: inspect_law_def smallDocker_def smallView_def smallIndex_id smallStarts_def smallOwner_def idle_def split: prod.splits)

lemma small_update:
  assumes "containerID cid" and "smallIndex cid (y, xs) < length xs" and "xs ! smallIndex cid (y, xs) = (name, there, labels, n)"
  shows "smallOwner (y, xs[smallIndex cid (y, xs) := (name, there', labels, k)]) = smallOwner (y, xs)"
    and "smallStarts (y, xs[smallIndex cid (y, xs) := (name, there', labels, k)]) = (smallStarts (y, xs))(cid := k)"
  using assms
  by (auto simp: smallStarts_def smallOwner_def nth_list_update fun_eq_iff dest: smallIndex_inj)

lemma small_start: "start_law smallDocker smallView"
  unfolding start_law_def
  by (auto simp: smallDocker_def smallView_def small_update split: prod.splits) (simp add: smallStarts_def)

lemma small_remove: "idle smallView g (snd (dk_remove smallDocker cid g))"
proof -
  have "smallStarts (y, xs) cid = n" if "containerID cid" "smallIndex cid (y, xs) < length xs"
    "xs ! smallIndex cid (y, xs) = (name, there, labels, n)" for y xs name there labels n
    using that by (simp add: smallStarts_def)
  then show ?thesis by (cases g) (auto simp: smallDocker_def small_update split: prod.splits)
qed

lemma small_laws: "docker_laws smallDocker smallView"
  using small_create small_inspect small_start small_remove unfolding docker_laws_def by (simp add: smallDocker_def)

definition exampleService :: "small_docker service" where
  "exampleService =
     \<lparr>sr_cfg = exampleSandbox, sr_regexps = (\<lambda>_. None), sr_releases = Some exampleRegistry, sr_minter = True, sr_issuer = False,
      sr_docker = smallDocker, sr_sha = (\<lambda>h. h), sr_digestKey = (\<lambda>k. k),
      sr_fingerprint = (\<lambda>spec. concat (envList (ru_env spec))), sr_contract = (\<lambda>_. 1), sr_containers = (\<lambda>_. []),
      sr_codex = (\<lambda>q i recovering s. (Inl LaunchFiles, s))\<rparr>"

definition exampleCalls :: launch_calls where
  "exampleCalls =
     \<lparr>lcl_now = 9, lcl_runID = Some ''r1'', lcl_release = False, lcl_lookup = False, lcl_create = no_faults,
      lcl_prepare = None, lcl_issue = no_faults, lcl_issueClk = (\<lambda>_. 9), lcl_random = Some [CHR 0x01],
      lcl_revoke = no_faults, lcl_revokeClk = (\<lambda>_. 9), lcl_save = (\<lambda>_. no_faults), lcl_saveMetadata = no_faults,
      lcl_file = None, lcl_result = None, lcl_cleanup = False, lcl_message = (\<lambda>_. ''failed''), lcl_diagnostics = None,
      lcl_remove = None, lcl_unreadable = False, lcl_stat = False\<rparr>"

definition exampleState :: "small_docker sandbox_state" where
  "exampleState =
     \<lparr>ss_runs = [], ss_files = [], ss_results = [],
      ss_intents = emptyIntents\<lparr>ln_rows := [newIntentRow 7 (restoredIntent exampleRun)]\<rparr>,
      ss_caps = emptyCapStore, ss_docker = ([], [])\<rparr>"

definition exampleLaunch :: "launch_calls \<Rightarrow> sandbox_op" where
  "exampleLaunch q = OpLaunch q ''ops'' ''fixer'' ''k'' ''fp'' (sp_input exampleProfile)"

definition failsAt :: "nat \<Rightarrow> launch_calls \<Rightarrow> launch_calls" where
  "failsAt n q = q\<lparr>lcl_save := (\<lambda>k. if k = n then (\<lambda>_. True) else no_faults)\<rparr>"

text \<open>A launch without a key, of another run.\<close>

definition exampleDirect :: sandbox_op where
  "exampleDirect =
     OpLaunch (exampleCalls\<lparr>lcl_runID := Some ''r2'', lcl_random := Some [CHR 0x03]\<rparr>) ''ops'' ''fixer'' [] []
       ((sp_input exampleProfile)\<lparr>la_workItemID := ''w1''\<rparr>)"

text \<open>The container is started, then saving the state fails; the service restarts and the launch is repeated.\<close>

definition exampleOps :: "sandbox_op list" where
  "exampleOps = [exampleLaunch (failsAt 3 exampleCalls), OpRestart, exampleLaunch exampleCalls]"

lemma example_ok:
  "docker_laws (sr_docker exampleService) smallView"
  "\<not> hasCodexWorkflow (sg_launchProfiles (sr_cfg exampleService))"
proof -
  show "\<not> hasCodexWorkflow (sg_launchProfiles (sr_cfg exampleService))" by code_simp
qed (simp add: exampleService_def small_laws)


text \<open>What a crash between the creation of a container and the save of its id leads to: the launch that is repeated mints
  another capability, so that the fingerprint of the specification, which covers the environment, is another one, and the
  container is refused as somebody else's. The run fails, though nothing went wrong but the crash; the container is never
  started, and the capability in it stays active.\<close>

lemma crash_after_create_fails_the_run:
  "let s1 = snd (sandbox_exec exampleService (exampleLaunch (failsAt 1 exampleCalls)) exampleState) in
     (case sandbox_exec exampleService (exampleLaunch (exampleCalls\<lparr>lcl_random := Some [CHR 0x02]\<rparr>)) s1 of
        (Inr status, s2) \<Rightarrow>
          status = ''failed'' \<and> map fst (snd (ss_docker s2)) = [''sandbox-r1''] \<and>
          smallStarts (ss_docker s2) ''a'' = 0 \<and> map_option cp_state (findRow (ss_caps s2) ''01'') = Some CapActive
      | _ \<Rightarrow> False)"
  by code_simp

text \<open>Cleaning a run that has not ended removes its container and its files, but not its intent: the run still counts as
  active, and when the service starts again, resuming the intent fails on the container that is gone, and with it the
  reconciliation, without which the service does not start.\<close>

definition cleanedState :: "small_docker sandbox_state" where
  "cleanedState = run_ops (sandbox_exec exampleService) [exampleLaunch exampleCalls, OpCleanup exampleCalls ''r1'', OpRestart] exampleState"

lemma cleanup_of_active_run_blocks_restart:
  "fst (reconcileService exampleService False (\<lambda>_. exampleCalls) (\<lambda>_. exampleCalls) no_faults cleanedState) = Inl LaunchInspect \<and>
   activeCount ''fixer'' (ss_intents cleanedState) = 1"
proof -
  let ?i = "iw_intent (hd (ln_rows (ss_intents cleanedState)))"
  have one: "length (ln_rows (ss_intents cleanedState)) = 1 \<and> ss_files cleanedState = [] \<and> activeIntent ?i \<and>
      (case decodeLaunchIntent ?i of Inl _ \<Rightarrow> False | Inr _ \<Rightarrow> True) \<and>
      lp_configVersion (it_plan ?i) = sg_configVersion (sr_cfg exampleService) \<and>
      fst (resumeLaunchIntent exampleService exampleCalls ?i True cleanedState) = Inl LaunchInspect \<and>
      activeCount ''fixer'' (ss_intents cleanedState) = 1"
    by code_simp
  then obtain r where r: "ln_rows (ss_intents cleanedState) = [r]" by (cases "ln_rows (ss_intents cleanedState)") auto
  have "decodeLaunchIntent (iw_intent r) = Inr (iw_intent r)"
    using one r by (auto simp: decodeLaunchIntent_def split: if_splits)
  then have "Nonterminal no_faults (ss_intents cleanedState) = Inr [iw_intent r]"
    using one r by (simp add: Nonterminal_def no_faults_def)
  then show ?thesis
    using one r by (simp add: reconcileService_def reconcileLaunchIntents_def split_beta split: sum.splits)
qed

end
