(* ===== verification/Launch_Once.thy ===== *)
theory Launch_Once
  imports Launch_Safety
begin

text \<open>
  The worker of a run is started at most once, whatever launches, crashes and recoveries follow each other. \<open>tracked\<close> says
  that what the service remembers of a run, in memory, in its metadata file and in its intent, names a container that was
  created for this run; \<open>once\<close> says of one run that at most one of its containers was started, and that its intent
  has then left the states in which a container is asked for. \<open>kept\<close> is what every step of every operation keeps.
\<close>

section \<open>The invariant\<close>

definition keyed :: "run_metadata gomap \<Rightarrow> bool" where
  "keyed ms \<longleftrightarrow> (\<forall>(k, m) \<in> set ms. rm_runID m = k)"

lemma set_gput: "set (gput k v m) \<subseteq> insert (k, v) (set m)"
  by (induction k v m rule: gput.induct) auto

lemma keyed_gput: "keyed ms \<Longrightarrow> keyed (gput (rm_runID n) n ms)"
  using set_gput [of "rm_runID n" n ms] by (fastforce simp: keyed_def)

lemma keyed_gget: "keyed ms \<Longrightarrow> gget ms k = Some n \<Longrightarrow> rm_runID n = k"
  by (auto simp: keyed_def dest: gget_SomeD)

lemma keyed_gdel: "keyed ms \<Longrightarrow> keyed (gdel k ms)"
  by (auto simp: keyed_def gdel_def)

text \<open>Metadata that names no container, or one that was created for its run. The status is not that of the Codex workflow.\<close>

definition named :: "'g docker_view \<Rightarrow> 'g \<Rightarrow> run_metadata \<Rightarrow> bool" where
  "named V g m \<longleftrightarrow> containerID (rm_containerID m) \<and> rm_status m \<noteq> ''waiting_external'' \<and>
     (rm_containerID m \<noteq> [] \<longrightarrow> dv_owner V g (rm_containerID m) = Some (containerName (rm_runID m)))"

definition madeState :: "intent_state \<Rightarrow> bool" where
  "madeState st \<longleftrightarrow> st = IntentContainerMade \<or> st = IntentStartPending"

definition movedState :: "intent_state \<Rightarrow> bool" where
  "movedState st \<longleftrightarrow> st = IntentRunning \<or> st = IntentTerminal"

definition intentNamed :: "'g docker_view \<Rightarrow> 'g \<Rightarrow> launch_intent \<Rightarrow> bool" where
  "intentNamed V g i \<longleftrightarrow> named V g (it_metadata i) \<and> it_state i \<noteq> IntentWaitingExternal \<and>
     (madeState (it_state i) \<longrightarrow> dv_owner V g (rm_containerID (it_metadata i)) = Some (containerName (it_runID i)))"

definition tracked :: "'g docker_view \<Rightarrow> 'g sandbox_state \<Rightarrow> bool" where
  "tracked V s \<longleftrightarrow> keyed (ss_runs s) \<and> keyed (ss_files s) \<and>
     (\<forall>(k, m) \<in> set (ss_runs s) \<union> set (ss_files s). named V (ss_docker s) m) \<and>
     (\<forall>r \<in> set (ln_rows (ss_intents s)). intentNamed V (ss_docker s) (iw_intent r)) \<and>
     distinct (map (\<lambda>r. it_runID (iw_intent r)) (ln_rows (ss_intents s)))"

definition started :: "'g docker_view \<Rightarrow> string \<Rightarrow> 'g \<Rightarrow> string \<Rightarrow> bool" where
  "started V rid g c \<longleftrightarrow> dv_owner V g c = Some (containerName rid) \<and> 0 < dv_starts V g c"

definition past :: "string \<Rightarrow> string \<Rightarrow> launch_intent \<Rightarrow> bool" where
  "past rid c i \<longleftrightarrow> it_runID i = rid \<and>
     (movedState (it_state i) \<or> madeState (it_state i) \<and> rm_containerID (it_metadata i) = c)"

definition once :: "'g docker_view \<Rightarrow> string \<Rightarrow> 'g sandbox_state \<Rightarrow> bool" where
  "once V rid s \<longleftrightarrow>
     (\<forall>c. started V rid (ss_docker s) c \<longrightarrow> dv_starts V (ss_docker s) c = 1 \<and>
        (\<forall>c'. started V rid (ss_docker s) c' \<longrightarrow> c' = c) \<and>
        (\<exists>r \<in> set (ln_rows (ss_intents s)). past rid c (iw_intent r)))"

definition unstarted :: "'g docker_view \<Rightarrow> string \<Rightarrow> 'g sandbox_state \<Rightarrow> bool" where
  "unstarted V rid s \<longleftrightarrow> (\<forall>c. \<not> started V rid (ss_docker s) c)"

text \<open>An intent that was read and is still what the store holds.\<close>

definition current :: "launch_intent \<Rightarrow> 'g sandbox_state \<Rightarrow> bool" where
  "current i s \<longleftrightarrow> (\<exists>r \<in> set (ln_rows (ss_intents s)). it_runID (iw_intent r) = it_runID i \<and>
     it_state (iw_intent r) = it_state i \<and> it_metadata (iw_intent r) = it_metadata i)"

definition kept :: "'g docker_view \<Rightarrow> string \<Rightarrow> string \<Rightarrow> 'g sandbox_state \<Rightarrow> 'g sandbox_state \<Rightarrow> bool" where
  "kept V rid k s t \<longleftrightarrow> tracked V t \<and> once V rid t \<and>
     (\<forall>c n. dv_owner V (ss_docker s) c = Some n \<longrightarrow> dv_owner V (ss_docker t) c = Some n) \<and>
     (\<forall>j. it_runID j \<noteq> k \<longrightarrow> current j s \<longrightarrow> current j t)"

lemma kept_refl: "tracked V s \<Longrightarrow> once V rid s \<Longrightarrow> kept V rid k s s"
  by (simp add: kept_def)

lemma kept_trans [trans]: "kept V rid k s t \<Longrightarrow> kept V rid k t u \<Longrightarrow> kept V rid k s u"
  by (simp add: kept_def)

lemma keptD: "kept V rid k s t \<Longrightarrow> tracked V t" "kept V rid k s t \<Longrightarrow> once V rid t"
  by (simp_all add: kept_def)

lemma named_kept: "kept V rid k s t \<Longrightarrow> named V (ss_docker s) m \<Longrightarrow> named V (ss_docker t) m"
  by (auto simp: kept_def named_def)

lemma unstarted_once: "unstarted V rid s \<Longrightarrow> once V rid s"
  by (simp add: unstarted_def once_def)

lemma containerName_inj [simp]: "containerName a = containerName b \<longleftrightarrow> a = b"
  by (simp add: containerName_def)

lemma containerID_Nil [simp]: "containerID []"
  by (simp add: containerID_def hasPrefix_def)

text \<open>Steps that leave the intents and Docker alone.\<close>

lemma kept_plain:
  assumes "tracked V s" and "once V rid s" and "ss_docker t = ss_docker s" and "ss_intents t = ss_intents s"
    and "keyed (ss_runs t)" and "keyed (ss_files t)"
    and "\<forall>(j, m) \<in> set (ss_runs t) \<union> set (ss_files t). named V (ss_docker s) m"
  shows "kept V rid k s t"
  using assms by (simp add: kept_def tracked_def once_def current_def)

lemma kept_runs:
  assumes T: "tracked V s" and O: "once V rid s" and m: "named V (ss_docker s) m" "rm_runID m = j"
  shows "kept V rid k s (s\<lparr>ss_runs := gput j m (ss_runs s)\<rparr>)"
  using T m set_gput [of j m "ss_runs s"] keyed_gput [of "ss_runs s" m]
  by (intro kept_plain [OF T O]) (auto simp: tracked_def)

lemma kept_files:
  assumes T: "tracked V s" and O: "once V rid s" and m: "named V (ss_docker s) m"
  shows "kept V rid k s (s\<lparr>ss_files := gput (rm_runID m) m (ss_files s)\<rparr>)"
  using T m set_gput [of "rm_runID m" m "ss_files s"] keyed_gput [of "ss_files s" m]
  by (intro kept_plain [OF T O]) (auto simp: tracked_def)

lemma kept_putRun:
  "tracked V s \<Longrightarrow> once V rid s \<Longrightarrow> named V (ss_docker s) m \<Longrightarrow> kept V rid k s (putRun m s)"
  unfolding putRun_def by (rule kept_runs) auto

lemma kept_caps: "tracked V s \<Longrightarrow> once V rid s \<Longrightarrow> kept V rid k s (s\<lparr>ss_caps := x\<rparr>)"
  by (simp add: kept_def tracked_def once_def current_def)

lemma kept_results: "tracked V s \<Longrightarrow> once V rid s \<Longrightarrow> kept V rid k s (s\<lparr>ss_results := x\<rparr>)"
  by (simp add: kept_def tracked_def once_def current_def)

text \<open>Steps of Docker that start nothing.\<close>

lemma started_unstarting: "unstarting V g h \<Longrightarrow> started V rid h c \<longleftrightarrow> started V rid g c"
  unfolding started_def unstarting_def by (metis less_irrefl)

lemma kept_unstarting:
  assumes T: "tracked V s" and O: "once V rid s" and g: "unstarting V (ss_docker s) g"
  shows "kept V rid k s (s\<lparr>ss_docker := g\<rparr>)"
proof -
  have mono: "\<And>c n. dv_owner V (ss_docker s) c = Some n \<Longrightarrow> dv_owner V g c = Some n" using g by (simp add: unstarting_def)
  note st = started_unstarting [OF g]
  have "named V (ss_docker s) m \<Longrightarrow> named V g m" for m using mono by (auto simp: named_def)
  then have "tracked V (s\<lparr>ss_docker := g\<rparr>)" using T mono by (fastforce simp: tracked_def intentNamed_def)
  moreover have "once V rid (s\<lparr>ss_docker := g\<rparr>)" using O g by (simp add: once_def st unstarting_def)
  ultimately show ?thesis using mono by (simp add: kept_def current_def)
qed

lemma unstarted_unstarting:
  "unstarted V rid s \<Longrightarrow> unstarting V (ss_docker s) g \<Longrightarrow> unstarted V rid (s\<lparr>ss_docker := g\<rparr>)"
  by (simp add: unstarted_def started_unstarting)

lemma kept_idle: "tracked V s \<Longrightarrow> once V rid s \<Longrightarrow> idle V (ss_docker s) g \<Longrightarrow> kept V rid k s (s\<lparr>ss_docker := g\<rparr>)"
  by (rule kept_unstarting [OF _ _ idle_unstarting])

section \<open>Saving\<close>

lemma rows_updateRun:
  "ln_rows (updateRun k now h t) =
     map (\<lambda>r. if it_runID (iw_intent r) = k then r\<lparr>iw_intent := h (iw_intent r), iw_updatedAt := now\<rparr> else r) (ln_rows t)"
  by (simp add: updateRun_def)

lemma kept_updateRun:
  assumes T: "tracked V s" and O: "once V rid s"
    and h: "\<And>i. it_runID (h i) = it_runID i" "\<And>i. it_state (h i) = st" "\<And>i. it_metadata (h i) = m"
    and m: "named V (ss_docker s) m" "st \<noteq> IntentWaitingExternal"
      "madeState st \<Longrightarrow> dv_owner V (ss_docker s) (rm_containerID m) = Some (containerName k)"
    and step: "k \<noteq> rid \<or> unstarted V rid s \<or> movedState st"
  shows "kept V rid k s (s\<lparr>ss_intents := updateRun k now h (ss_intents s)\<rparr>)"
proof -
  let ?f = "\<lambda>r. if it_runID (iw_intent r) = k then r\<lparr>iw_intent := h (iw_intent r), iw_updatedAt := now\<rparr> else r"
  let ?t = "s\<lparr>ss_intents := updateRun k now h (ss_intents s)\<rparr>"
  have ids: "it_runID (iw_intent (?f r)) = it_runID (iw_intent r)" for r by (simp add: h)
  have named: "intentNamed V (ss_docker s) (iw_intent (?f r))" if "r \<in> set (ln_rows (ss_intents s))" for r
    using that T m by (auto simp: tracked_def intentNamed_def h)
  have "map (\<lambda>r. it_runID (iw_intent r)) (map ?f (ln_rows (ss_intents s))) =
      map (\<lambda>r. it_runID (iw_intent r)) (ln_rows (ss_intents s))" unfolding map_map comp_def ids ..
  then have T': "tracked V ?t"
    using T named unfolding tracked_def by (simp add: rows_updateRun del: map_map if_image_distrib)
  have O': "once V rid ?t"
  proof (cases "unstarted V rid s")
    case True
    then show ?thesis by (simp add: once_def unstarted_def)
  next
    case False
    have past: "past rid c (iw_intent (?f r))" if "past rid c (iw_intent r)" for c r
      using that False step by (auto simp: past_def h)
    show ?thesis unfolding once_def
    proof (intro allI impI)
      fix c
      assume "started V rid (ss_docker ?t) c"
      then have "started V rid (ss_docker s) c" by simp
      with O obtain r where r: "r \<in> set (ln_rows (ss_intents s))" "past rid c (iw_intent r)"
        and one: "dv_starts V (ss_docker s) c = 1" "\<forall>c'. started V rid (ss_docker s) c' \<longrightarrow> c' = c"
        unfolding once_def by blast
      have "?f r \<in> set (ln_rows (ss_intents ?t))" using r(1) by (simp add: rows_updateRun)
      with past [OF r(2)] one
      show "dv_starts V (ss_docker ?t) c = 1 \<and> (\<forall>c'. started V rid (ss_docker ?t) c' \<longrightarrow> c' = c) \<and>
          (\<exists>r \<in> set (ln_rows (ss_intents ?t)). past rid c (iw_intent r))" by auto
    qed
  qed
  have "current j ?t" if j: "it_runID j \<noteq> k" "current j s" for j
  proof -
    obtain r where r: "r \<in> set (ln_rows (ss_intents s))" "it_runID (iw_intent r) = it_runID j"
      "it_state (iw_intent r) = it_state j" "it_metadata (iw_intent r) = it_metadata j" using j(2) by (auto simp: current_def)
    then have "?f r = r" using j(1) by simp
    moreover have "?f r \<in> set (ln_rows (ss_intents ?t))" using r(1) by (simp add: rows_updateRun)
    ultimately show ?thesis using r by (auto simp: current_def)
  qed
  with T' O' show ?thesis by (simp add: kept_def)
qed

lemma kept_intents_same: "tracked V s \<Longrightarrow> once V rid s \<Longrightarrow> kept V rid k s (s\<lparr>ss_intents := ss_intents s\<rparr>)"
  by (simp add: kept_refl)

lemma kept_saveIntent:
  assumes T: "tracked V s" and O: "once V rid s" and i: "intentNamed V (ss_docker s) i"
    and step: "it_runID i \<noteq> rid \<or> unstarted V rid s \<or> movedState (it_state i)" and run: "saveIntent q n i s = (r, t)"
  shows "kept V rid (it_runID i) s t" and "ss_docker t = ss_docker s"
proof -
  have t: "t = s\<lparr>ss_intents := snd (SaveIntent (lcl_save q n) (lcl_now q) i (ss_intents s))\<rparr>"
    using run by (auto simp: saveIntent_def split: prod.splits sum.splits)
  then show "ss_docker t = ss_docker s" by simp
  have save: "snd (SaveIntent (lcl_save q n) (lcl_now q) i (ss_intents s)) \<in>
      {ss_intents s, updateRun (it_runID i) (lcl_now q) (savedIntent i) (ss_intents s)}"
    by (auto simp: SaveIntent_def Let_def)
  have "kept V rid (it_runID i) s (s\<lparr>ss_intents := updateRun (it_runID i) (lcl_now q) (savedIntent i) (ss_intents s)\<rparr>)"
    using i by (intro kept_updateRun [OF T O _ _ _ _ _ _ step]) (auto simp: savedIntent_def intentNamed_def)
  with save kept_intents_same [OF T O] show "kept V rid (it_runID i) s t" unfolding t by auto
qed

lemma saveIntent_saved:
  assumes "saveIntent q n i s = (Inr u, t)"
  shows "\<exists>r \<in> set (ln_rows (ss_intents t)). it_runID (iw_intent r) = it_runID i \<and> it_state (iw_intent r) = it_state i \<and>
    it_metadata (iw_intent r) = it_metadata i"
proof -
  have t: "t = s\<lparr>ss_intents := updateRun (it_runID i) (lcl_now q) (savedIntent i) (ss_intents s)\<rparr>"
    and one: "length (filter (\<lambda>r. it_runID (iw_intent r) = it_runID i) (ln_rows (ss_intents s))) = 1"
    using assms by (auto simp: saveIntent_def SaveIntent_def Let_def split: if_splits)
  have "filter (\<lambda>r. it_runID (iw_intent r) = it_runID i) (ln_rows (ss_intents s)) \<noteq> []" using one by auto
  then obtain r where r: "r \<in> set (ln_rows (ss_intents s))" "it_runID (iw_intent r) = it_runID i"
    by (auto simp: filter_empty_conv)
  let ?r = "r\<lparr>iw_intent := savedIntent i (iw_intent r), iw_updatedAt := lcl_now q\<rparr>"
  have "?r \<in> set (ln_rows (ss_intents t))" using r unfolding t by (auto simp: rows_updateRun intro: rev_image_eqI)
  moreover have "it_runID (iw_intent ?r) = it_runID i \<and> it_state (iw_intent ?r) = it_state i \<and> it_metadata (iw_intent ?r) = it_metadata i"
    using r(2) by (simp add: savedIntent_def)
  ultimately show ?thesis by blast
qed

lemma kept_saveMetadata:
  assumes T: "tracked V s" and O: "once V rid s" and m: "named V (ss_docker s) m" and run: "saveMetadata q m s = (r, t)"
  shows "kept V rid (rm_runID m) s t" and "ss_docker t = ss_docker s"
proof -
  have t: "t = s\<lparr>ss_intents := snd (SaveMetadata (lcl_saveMetadata q) (lcl_now q) m (ss_intents s))\<rparr>"
    using run by (auto simp: saveMetadata_def split: prod.splits sum.splits)
  then show "ss_docker t = ss_docker s" by simp
  have st: "movedState (metadataState m) \<and> metadataState m \<noteq> IntentWaitingExternal \<and> \<not> madeState (metadataState m)"
    using m by (auto simp: movedState_def madeState_def metadataState_def named_def)
  have "kept V rid (rm_runID m) s (s\<lparr>ss_intents := updateRun (rm_runID m) (lcl_now q)
      (\<lambda>i. i\<lparr>it_state := metadataState m, it_metadata := m\<rparr>) (ss_intents s)\<rparr>)"
    by (rule kept_updateRun [OF T O, where st = "metadataState m" and m = m]) (use m st in simp_all)
  then show "kept V rid (rm_runID m) s t" unfolding t using kept_intents_same [OF T O]
    by (auto simp: SaveMetadata_def split: if_splits)
qed

lemma kept_writeMetadataFile:
  assumes "tracked V s" and "once V rid s" and "named V (ss_docker s) m" and "writeMetadataFile q m s = (r, t)"
  shows "kept V rid k s t" and "ss_docker t = ss_docker s"
proof -
  have "t = s \<or> t = s\<lparr>ss_files := gput (rm_runID m) m (ss_files s)\<rparr>"
    using assms(4) by (auto simp: writeMetadataFile_def Let_def split: option.splits if_splits)
  then show "kept V rid k s t" "ss_docker t = ss_docker s" using kept_refl [OF assms(1,2)] kept_files [OF assms(1-3)] by auto
qed

lemma kept_writeMetadata:
  assumes T: "tracked V s" and O: "once V rid s" and m: "named V (ss_docker s) m" and run: "writeMetadata q m s = (r, t)"
  shows "kept V rid (rm_runID m) s t" and "ss_docker t = ss_docker s"
proof -
  obtain r1 s1 where a: "writeMetadataFile q m s = (r1, s1)" by fastforce
  obtain r2 s2 where b: "saveMetadata q m s1 = (r2, s2)" by fastforce
  have A: "kept V rid (rm_runID m) s s1" "ss_docker s1 = ss_docker s" using kept_writeMetadataFile [OF T O m a] by simp_all
  note B = kept_saveMetadata [OF keptD [OF A(1)] named_kept [OF A(1) m] b]
  note AB = kept_trans [OF A(1) B(1)]
  have C: "kept V rid (rm_runID m) s (putRun m s2)" using kept_trans [OF AB kept_putRun [OF keptD [OF AB] named_kept [OF AB m]]] .
  have "t \<in> {s1, s2, putRun m s2}" using run b by (auto simp: writeMetadata_def a split: sum.splits)
  then show "kept V rid (rm_runID m) s t" "ss_docker t = ss_docker s" using A AB B(2) C by (auto simp: putRun_def)
qed

lemma kept_persistTerminalResult:
  assumes "tracked V s" and "once V rid s" and "persistTerminalResult q m s = (r, t)"
  shows "kept V rid k s t" and "ss_docker t = ss_docker s"
proof -
  have "t = s \<or> t = s\<lparr>ss_results := gput (rm_runID m) m (ss_results s)\<rparr>"
    using assms(3) by (auto simp: persistTerminalResult_def Let_def split: option.splits if_splits)
  then show "kept V rid k s t" "ss_docker t = ss_docker s" using kept_refl [OF assms(1,2)] kept_results [OF assms(1,2)] by auto
qed

lemma kept_revoke: "tracked V s \<Longrightarrow> once V rid s \<Longrightarrow> kept V rid k s (revokeLaunchCapability sv q handle s)"
  by (simp add: revokeLaunchCapability_def kept_caps kept_refl)

lemma docker_revoke [simp]: "ss_docker (revokeLaunchCapability sv q handle s) = ss_docker s"
  by (simp add: revokeLaunchCapability_def)

lemma kept_mint:
  assumes "tracked V s" and "once V rid s" and "mintLaunchCapability sv q t m s = (r, u)"
  shows "kept V rid k s u" and "ss_docker u = ss_docker s" and "ss_intents u = ss_intents s"
proof -
  have "u = s \<or> (\<exists>c. u = s\<lparr>ss_caps := c\<rparr>)"
    using assms(3) by (auto simp: mintLaunchCapability_def split: if_splits sum.splits prod.splits)
  then show "kept V rid k s u" "ss_docker u = ss_docker s" "ss_intents u = ss_intents s"
    using kept_refl [OF assms(1,2)] kept_caps [OF assms(1,2)] by auto
qed

lemma kept_lookupRun:
  assumes T: "tracked V s" and O: "once V rid s" and run: "lookupRun j s = (r, t)"
  shows "kept V rid k s t" and "ss_docker t = ss_docker s" and "r = Inr m \<Longrightarrow> named V (ss_docker s) m \<and> rm_runID m = j"
proof -
  have stored: "named V (ss_docker s) m \<and> rm_runID m = j" if "gget (ss_runs s) j = Some m \<or> gget (ss_files s) j = Some m" for m
    using that T keyed_gget by (fastforce simp: tracked_def dest: gget_SomeD)
  then show "r = Inr m \<Longrightarrow> named V (ss_docker s) m \<and> rm_runID m = j"
    using run by (auto simp: lookupRun_def split: if_splits option.splits)
  show "kept V rid k s t" using run stored kept_refl [OF T O] kept_runs [OF T O]
    by (auto simp: lookupRun_def split: if_splits option.splits)
  show "ss_docker t = ss_docker s" using run by (auto simp: lookupRun_def split: if_splits option.splits)
qed

section \<open>The ends of a run\<close>

lemma kept_finalizeTerminalRun:
  assumes T: "tracked V s" and O: "once V rid s" and upd: "idle_update V upd"
    and fin: "finalizeTerminalRun sv q j reason source upd s = ((err, n), t)"
  shows "kept V rid j s t" and "named V (ss_docker t) n" and "rm_runID n = j \<or> n = zeroMetadata"
proof -
  have zero: "named V g zeroMetadata" for g by (simp add: named_def zeroMetadata_def)
  obtain found s1 where look: "lookupRun j s = (found, s1)" by fastforce
  note L = kept_lookupRun [OF T O look]
  have s1: "kept V rid j s s1" by (rule L(1))
  have "kept V rid j s t \<and> named V (ss_docker t) n \<and> (rm_runID n = j \<or> n = zeroMetadata)"
  proof (cases found)
    case (Inl e)
    then show ?thesis using fin s1 zero by (auto simp: finalizeTerminalRun_def look)
  next
    case (Inr m0)
    have m0: "named V (ss_docker s1) m0" "rm_runID m0 = j" using L(2,3) Inr by auto
    obtain m1 g where u: "upd m0 (ss_docker s1) = (m1, g)" by fastforce
    have upd0: "rm_containerID m1 = rm_containerID m0" "rm_runID m1 = rm_runID m0"
      "rm_status m1 \<in> {rm_status m0, ''completed'', ''failed'', ''stopped'', ''timed_out''}" "idle V (ss_docker s1) g"
      using upd u unfolding idle_update_def by (metis fst_conv snd_conv)+
    let ?s = "s1\<lparr>ss_docker := g\<rparr>"
    have k1: "kept V rid j s ?s" using kept_trans [OF s1 kept_idle [OF keptD [OF s1] upd0(4)]] .
    have own: "dv_owner V g = dv_owner V (ss_docker s1)" using upd0(4) by (simp add: idle_def)
    have m1: "named V g m1" "rm_runID m1 = j" using m0 upd0(1-3) own by (auto simp: named_def)
    define next' where "next' = terminalMetadata reason source m1"
    have nx: "named V g next'" "rm_runID next' = j" using m1 by (simp_all add: next'_def terminalMetadata_def Let_def named_def)
    obtain r2 s2 where p: "persistTerminalResult q next' ?s = (r2, s2)" by fastforce
    note P = kept_persistTerminalResult [OF keptD [OF k1] p]
    let ?s2 = "s2\<lparr>ss_runs := gput j next' (ss_runs s2)\<rparr>"
    obtain r3 s3 where w: "writeMetadataFile q next' ?s2 = (r3, s3)" by fastforce
    obtain r4 s4 where v: "saveMetadata q next' s3 = (r4, s4)" by fastforce
    have k2: "kept V rid j s s2" using kept_trans [OF k1 P(1)] .
    have g2: "ss_docker s2 = g" using P(2) by simp
    have k2': "kept V rid j s ?s2" using kept_trans [OF k2 kept_runs [OF keptD [OF k2]]] nx g2 by simp
    have k3: "kept V rid j s s3" and g3: "ss_docker s3 = g"
      using kept_trans [OF k2' kept_writeMetadataFile(1) [OF keptD [OF k2'] _ w]] kept_writeMetadataFile(2) [OF keptD [OF k2'] _ w] nx g2
      by simp_all
    have k4: "kept V rid j s s4" and g4: "ss_docker s4 = g"
      using kept_trans [OF k3] kept_saveMetadata [OF keptD [OF k3] _ v] nx g3 by auto
    have cases: "(t = s1 \<and> n = m0) \<or> (t = ?s \<and> n \<in> {m1, next'}) \<or> (t \<in> {s2, s3, s4} \<and> n = next')"
      using fin p w v unfolding finalizeTerminalRun_def look Inr prod.case sum.case Let_def u next'_def [symmetric]
      by (cases r2; cases r3; cases r4) (auto split: if_splits)
    then show ?thesis using s1 m0 k1 m1 nx k2 k3 k4 g2 g3 g4 by auto
  qed
  then show "kept V rid j s t" "named V (ss_docker t) n" "rm_runID n = j \<or> n = zeroMetadata" by auto
qed

section \<open>The launch\<close>

lemma moved_simps [simp]:
  "movedState IntentRunning" "movedState IntentTerminal" "\<not> movedState IntentCreated" "\<not> movedState IntentCreatePending"
  "\<not> movedState IntentContainerMade" "\<not> movedState IntentStartPending" "\<not> movedState IntentWaitingExternal"
  "madeState IntentContainerMade" "madeState IntentStartPending" "\<not> madeState IntentRunning" "\<not> madeState IntentTerminal"
  "\<not> madeState IntentCreated" "\<not> madeState IntentCreatePending" "\<not> madeState IntentWaitingExternal"
  by (simp_all add: movedState_def madeState_def)

lemma kept_commitRunningIntent:
  assumes T: "tracked V s" and O: "once V rid s" and m: "named V (ss_docker s) m" "rm_runID m = it_runID i"
    and run: "commitRunningIntent q i m s = (r, t)"
  shows "kept V rid (it_runID i) s t"
proof -
  let ?m = "m\<lparr>rm_status := ''running''\<rparr>" and ?k = "it_runID i"
  let ?i = "i\<lparr>it_state := IntentRunning, it_metadata := ?m\<rparr>"
  obtain r1 s1 where a: "saveIntent q 3 ?i s = (r1, s1)" by fastforce
  obtain r2 s2 where b: "writeMetadata q ?m s1 = (r2, s2)" by fastforce
  have n: "named V (ss_docker s) ?m" using m by (simp add: named_def)
  have A: "kept V rid ?k s s1" "ss_docker s1 = ss_docker s"
    using kept_saveIntent [OF T O _ _ a] n by (simp_all add: intentNamed_def)
  have "kept V rid ?k s1 s2" using kept_writeMetadata(1) [OF keptD [OF A(1)] _ b] n A(2) m(2) by simp
  moreover have "t = s1 \<or> t = s2" using run b unfolding commitRunningIntent_def Let_def a by (auto split: sum.splits)
  ultimately show ?thesis using A(1) kept_trans by blast
qed

lemma kept_commitExitedIntent:
  assumes T: "tracked V s" and O: "once V rid s" and m: "named V (ss_docker s) m" "rm_runID m = it_runID i"
    and run: "commitExitedIntent sv q i m st s = (r, t)"
  shows "kept V rid (it_runID i) s t"
proof -
  let ?m = "m\<lparr>rm_status := ''running''\<rparr>" and ?k = "it_runID i"
  obtain err f s1 where a: "finalizeTerminalRun sv q (rm_runID ?m) ''reconcile_exited'' ''exited'' (exitedUpdate q st)
      (putRun ?m s) = ((err, f), s1)" by (metis surj_pair)
  obtain r2 s2 where b: "saveIntent q 3 (i\<lparr>it_metadata := f, it_state := IntentTerminal\<rparr>) s1 = (r2, s2)" by fastforce
  have n: "named V (ss_docker s) ?m" using m by (simp add: named_def)
  have A: "kept V rid ?k s (putRun ?m s)" using kept_putRun [OF T O n] .
  note F = kept_finalizeTerminalRun [OF keptD [OF A] idle_exited a]
  have F1: "kept V rid ?k (putRun ?m s) s1" using F(1) m(2) by simp
  have s1: "kept V rid ?k s s1" using kept_trans [OF A F1] .
  have "kept V rid ?k s1 s2" using kept_saveIntent(1) [OF keptD [OF s1] _ _ b] F(2) by (simp add: intentNamed_def)
  moreover have "t = s2" using run unfolding commitExitedIntent_def Let_def a prod.case b
    by (auto split: option.splits sum.splits)
  ultimately show ?thesis using s1 kept_trans by blast
qed

lemma kept_commitStartupFailureIntent:
  assumes T: "tracked V s" and O: "once V rid s" and m: "named V (ss_docker s) m" "rm_runID m = it_runID i"
    and run: "commitStartupFailureIntent q i m reason s = (r, t)"
  shows "kept V rid (it_runID i) s t"
proof -
  define n where "n = startupFailure q reason m"
  have n: "named V (ss_docker s) n" "rm_runID n = it_runID i" using m by (simp_all add: n_def startupFailure_def named_def)
  obtain r1 s1 where a: "persistTerminalResult q n s = (r1, s1)" by fastforce
  obtain r2 s2 where b: "writeMetadata q n s1 = (r2, s2)" by fastforce
  obtain r3 s3 where c: "saveIntent q 3 (i\<lparr>it_metadata := n, it_state := IntentTerminal\<rparr>) s2 = (r3, s3)" by fastforce
  have A: "kept V rid (it_runID i) s s1" "ss_docker s1 = ss_docker s" using kept_persistTerminalResult [OF T O a] by simp_all
  have B: "kept V rid (it_runID i) s s2" "ss_docker s2 = ss_docker s"
    using kept_trans [OF A(1)] kept_writeMetadata [OF keptD [OF A(1)] _ b] n A(2) by auto
  have C: "kept V rid (it_runID i) s s3" "ss_docker s3 = ss_docker s"
    using kept_trans [OF B(1)] kept_saveIntent [OF keptD [OF B(1)] _ _ c] n B(2) by (auto simp: intentNamed_def)
  have D: "kept V rid (it_runID i) s (putRun n s3)" using kept_trans [OF C(1) kept_putRun [OF keptD [OF C(1)]]] n C(2) by simp
  have "t \<in> {s1, s2, s3, putRun n s3}"
    using run b c unfolding commitStartupFailureIntent_def Let_def n_def [symmetric] a by (auto split: sum.splits)
  with A B C D show ?thesis by auto
qed

text \<open>The start: the container is that of the run, the intent is saved as about to be started, and where the container was
  not started before, no container of the run was.\<close>

lemma kept_startIntent:
  assumes laws: "docker_laws (sr_docker sv) V" and T: "tracked V s" and O: "once V rid s"
    and m: "named V (ss_docker s) m" "rm_runID m = it_runID i"
    and own: "dv_owner V (ss_docker s) (rm_containerID m) = Some (containerName (it_runID i))"
    and fresh: "it_runID i = rid \<Longrightarrow> cinf_lifecycle info = NeverStarted \<Longrightarrow> unstarted V rid s"
    and run: "startIntent sv q i m handle info s = (r, t)"
  shows "kept V rid (it_runID i) s t"
proof (cases "cinf_lifecycle info")
  case ContainerRunning
  then show ?thesis using run kept_commitRunningIntent [OF T O m] by (simp add: startIntent_def)
next
  case ContainerExited
  then show ?thesis using run kept_commitExitedIntent [OF T O m] by (auto simp: startIntent_def)
next
  case NeverStarted
  let ?i = "i\<lparr>it_state := IntentStartPending, it_metadata := m\<rparr>" and ?k = "it_runID i" and ?c = "rm_containerID m"
  obtain r1 s1 where a: "saveIntent q 2 ?i s = (r1, s1)" by fastforce
  have i: "intentNamed V (ss_docker s) ?i" using m own by (simp add: intentNamed_def)
  have "it_runID ?i \<noteq> rid \<or> unstarted V rid s \<or> movedState (it_state ?i)" using fresh [OF _ NeverStarted] by auto
  from kept_saveIntent [OF T O i this a] have A: "kept V rid ?k s s1" "ss_docker s1 = ss_docker s" by simp_all
  show ?thesis
  proof (cases r1)
    case (Inl e)
    then show ?thesis using run NeverStarted A by (simp add: startIntent_def Let_def a)
  next
    case (Inr u)
    obtain row where row: "row \<in> set (ln_rows (ss_intents s1))" "past ?k ?c (iw_intent row)"
      using saveIntent_saved [of q 2 ?i s u s1] a Inr by (auto simp: past_def)
    obtain ok g1 where b: "startContainer (sr_docker sv) ?c (ss_docker s1) = (ok, g1)" by fastforce
    note St = startContainer_ok [OF laws b]
    let ?a = "s1\<lparr>ss_docker := g1\<rparr>"
    have T1: "tracked V s1" and O1: "once V rid s1" using keptD [OF A(1)] by simp_all
    have "named V g1 = named V (ss_docker s1)" using St(3) by (auto simp: named_def fun_eq_iff)
    then have Ta: "tracked V ?a" using T1 St(3) by (auto simp: tracked_def intentNamed_def)
    have Oa: "once V rid ?a"
    proof (cases "?k = rid")
      case True
      have none: "\<not> started V rid (ss_docker s1) c" for c using fresh [OF True NeverStarted] A(2) by (simp add: unstarted_def)
      have only: "c = ?c \<and> dv_starts V g1 c = 1" if h: "started V rid g1 c" for c
      proof -
        have o: "dv_owner V (ss_docker s1) c = Some (containerName rid)" using h St(3) by (simp add: started_def)
        then have "dv_starts V (ss_docker s1) c = 0" using none [of c] by (simp add: started_def)
        then show ?thesis using h St(1) [of c] St(2) by (cases "c = ?c") (auto simp: started_def)
      qed
      show ?thesis unfolding once_def using only row True by auto
    next
      case False
      have "c \<noteq> ?c" if "dv_owner V (ss_docker s1) c = Some (containerName rid)" for c using that own A(2) False by auto
      then have st: "started V rid g1 c \<longleftrightarrow> started V rid (ss_docker s1) c"
        "started V rid g1 c \<Longrightarrow> dv_starts V g1 c = dv_starts V (ss_docker s1) c" for c
        using St(1) [of c] St(3) by (auto simp: started_def)
      then show ?thesis using O1 unfolding once_def by simp
    qed
    have "kept V rid ?k s1 ?a" using Ta Oa St(3) by (simp add: kept_def current_def)
    then have Ka: "kept V rid ?k s ?a" by (rule kept_trans [OF A(1)])
    obtain found g2 where c: "Inspect (sr_docker sv) ?c g1 = (found, g2)" by fastforce
    let ?b = "s1\<lparr>ss_docker := g2\<rparr>"
    have idle: "idle V (ss_docker ?a) g2" using idle_Inspect [OF laws c] by simp
    have Kb: "kept V rid ?k s ?b" using kept_trans [OF Ka kept_idle [OF keptD [OF Ka] idle]] by simp
    let ?d = "revokeLaunchCapability sv q handle ?b"
    have Kd: "kept V rid ?k s ?d" using kept_trans [OF Kb kept_revoke [OF keptD [OF Kb]]] .
    have na: "named V (ss_docker ?a) m" "named V (ss_docker ?b) m" "named V (ss_docker ?d) m"
      using named_kept [OF Ka m(1)] named_kept [OF Kb m(1)] by simp_all
    have id: "rm_runID m = it_runID ?i" using m(2) by simp
    let ?fail = "commitStartupFailureIntent q ?i m ''launch_start_failed'' ?d"
    have "(if ok then commitRunningIntent q ?i m ?a
        else case found of None \<Rightarrow> ?fail
          | Some st \<Rightarrow> if cst_running st then commitRunningIntent q ?i m ?b
              else if \<not> isZero (cst_startedAt st) then commitExitedIntent sv q ?i m st ?b else ?fail) = (r, t)"
      using run NeverStarted Inr b c by (cases ok) (simp_all add: startIntent_def Let_def a)
    then consider "commitRunningIntent q ?i m ?a = (r, t)" | "commitRunningIntent q ?i m ?b = (r, t)"
      | st where "commitExitedIntent sv q ?i m st ?b = (r, t)" | "?fail = (r, t)"
      by (cases ok; cases found) (auto split: if_split_asm)
    then show ?thesis
    proof cases
      case 1
      from kept_trans [OF Ka] kept_commitRunningIntent [OF keptD [OF Ka] na(1) id this] show ?thesis by simp
    next
      case 2
      from kept_trans [OF Kb] kept_commitRunningIntent [OF keptD [OF Kb] na(2) id this] show ?thesis by simp
    next
      case 3
      from kept_trans [OF Kb] kept_commitExitedIntent [OF keptD [OF Kb] na(2) id this] show ?thesis by simp
    next
      case 4
      from kept_trans [OF Kd] kept_commitStartupFailureIntent [OF keptD [OF Kd] na(3) id this] show ?thesis by simp
    qed
  qed
qed

text \<open>The row of an intent that was read tells which containers of its run were started.\<close>

lemma current_row:
  assumes T: "tracked V s" and O: "once V rid s" and i: "current i s" and k: "it_runID i = rid"
    and st: "started V rid (ss_docker s) c"
  shows "movedState (it_state i) \<or> madeState (it_state i) \<and> rm_containerID (it_metadata i) = c"
proof -
  obtain r where r: "r \<in> set (ln_rows (ss_intents s))" "past rid c (iw_intent r)" using O st unfolding once_def by blast
  obtain r' where r': "r' \<in> set (ln_rows (ss_intents s))" "it_runID (iw_intent r') = it_runID i"
    "it_state (iw_intent r') = it_state i" "it_metadata (iw_intent r') = it_metadata i" using i by (auto simp: current_def)
  have "inj_on (\<lambda>r. it_runID (iw_intent r)) (set (ln_rows (ss_intents s)))" using T by (simp add: tracked_def distinct_map)
  then have "r' = r" using r r' k by (auto simp: past_def dest: inj_onD)
  then show ?thesis using r(2) r'(3,4) by (simp add: past_def)
qed

lemma current_named: "tracked V s \<Longrightarrow> current i s \<Longrightarrow> intentNamed V (ss_docker s) i"
  by (auto simp: tracked_def current_def intentNamed_def)

lemma kept_adoptIntent:
  assumes laws: "docker_laws (sr_docker sv) V" and T: "tracked V s" and O: "once V rid s"
    and i: "current i s" "madeState (it_state i)" and m: "rm_runID (it_metadata i) = it_runID i"
    and run: "adoptIntent sv q i (it_metadata i) s = (r, t)"
  shows "kept V rid (it_runID i) s t"
proof -
  let ?m = "it_metadata i" and ?k = "it_runID i"
  have n: "named V (ss_docker s) ?m" "dv_owner V (ss_docker s) (rm_containerID ?m) = Some (containerName ?k)"
    using current_named [OF T i(1)] i(2) by (simp_all add: intentNamed_def)
  obtain found g where a: "Inspect (sr_docker sv) (rm_containerID ?m) (ss_docker s) = (found, g)" by fastforce
  let ?s = "s\<lparr>ss_docker := g\<rparr>"
  have idle: "idle V (ss_docker s) g" using idle_Inspect [OF laws a] .
  have K: "kept V rid ?k s ?s" using kept_idle [OF T O idle] .
  show ?thesis
  proof (cases found)
    case None
    then show ?thesis using run K by (simp add: adoptIntent_def a)
  next
    case (Some st)
    let ?info = "\<lparr>cinf_id = rm_containerID ?m, cinf_imageDigest = rm_imageDigest ?m, cinf_platform = [], cinf_existing = True,
       cinf_lifecycle = lifecycleOf st, cinf_status = Some st\<rparr>"
    have start: "startIntent sv q i ?m [] ?info ?s = (r, t)" using run Some by (simp add: adoptIntent_def a)
    have fresh: "unstarted V rid ?s" if k: "?k = rid" and never: "cinf_lifecycle ?info = NeverStarted"
    proof -
      have "cst_startedAt st = 0" using never by (auto simp: lifecycleOf_def isZero_def split: if_splits)
      then have zero: "dv_starts V (ss_docker s) (rm_containerID ?m) = 0"
        using Inspect_never_started [OF laws a [unfolded Some]] n(1) by (simp add: named_def)
      have "\<not> started V rid (ss_docker s) c" for c
      proof
        assume st: "started V rid (ss_docker s) c"
        then have "rm_containerID ?m = c" using current_row [OF T O i(1) k st] i(2) by (auto simp: movedState_def madeState_def)
        then show False using st zero by (simp add: started_def)
      qed
      then show ?thesis using idle by (simp add: unstarted_def started_def idle_def)
    qed
    have own: "dv_owner V (ss_docker ?s) (rm_containerID ?m) = Some (containerName ?k)" using n(2) idle by (simp add: idle_def)
    show ?thesis
      using kept_trans [OF K kept_startIntent [OF laws keptD [OF K] named_kept [OF K n(1)] m own fresh start]] .
  qed
qed

lemma kept_createIntent:
  assumes laws: "docker_laws (sr_docker sv) V" and T: "tracked V s" and O: "once V rid s"
    and i: "current i s" "\<not> madeState (it_state i)" "\<not> movedState (it_state i)"
    and m: "rm_runID (it_metadata i) = it_runID i" "ru_runID spec = it_runID i"
    and run: "createIntent sv q i (it_metadata i) handle spec s = (r, t)"
  shows "kept V rid (it_runID i) s t"
proof -
  let ?m = "it_metadata i" and ?k = "it_runID i"
  let ?i = "i\<lparr>it_state := IntentCreatePending\<rparr>"
  have n: "named V (ss_docker s) ?m" using current_named [OF T i(1)] by (simp add: intentNamed_def)
  have fresh: "unstarted V rid s" if "?k = rid" using current_row [OF T O i(1) that] i(2,3) by (auto simp: unstarted_def)
  obtain r1 s1 where a: "saveIntent q 0 ?i s = (r1, s1)" by fastforce
  obtain info g where b: "createContainer (sr_docker sv) (sr_fingerprint sv) spec (ss_docker s1) = (info, g)" by fastforce
  have "it_runID ?i \<noteq> rid \<or> unstarted V rid s \<or> movedState (it_state ?i)" using fresh by auto
  from kept_saveIntent [OF T O _ this a] n have A: "kept V rid ?k s s1" "ss_docker s1 = ss_docker s"
    by (simp_all add: intentNamed_def)
  note C = createContainer_ok [OF laws b]
  let ?s = "s1\<lparr>ss_docker := g\<rparr>"
  have B: "kept V rid ?k s ?s" using kept_trans [OF A(1) kept_unstarting [OF keptD [OF A(1)] C(1)]] .
  have fresh2: "unstarted V rid ?s" if "?k = rid"
    using unstarted_unstarting [OF _ C(1)] fresh [OF that] A(2) by (simp add: unstarted_def)
  show ?thesis
  proof (cases r1)
    case (Inl e)
    then have "t = revokeLaunchCapability sv q handle s1" using run by (simp add: createIntent_def Let_def a)
    then show ?thesis using kept_trans [OF A(1) kept_revoke [OF keptD [OF A(1)]]] by simp
  next
    case (Inr u)
    show ?thesis
    proof (cases info)
      case None
      let ?d = "revokeLaunchCapability sv q handle ?s"
      have D: "kept V rid ?k s ?d" using kept_trans [OF B kept_revoke [OF keptD [OF B]]] .
      have "commitStartupFailureIntent q ?i ?m ''launch_create_failed'' ?d = (r, t)"
        using run Inr None by (simp add: createIntent_def Let_def a b)
      from kept_trans [OF D kept_commitStartupFailureIntent [OF keptD [OF D] named_kept [OF D n] _ this, simplified]] m(1)
      show ?thesis by simp
    next
      case (Some x)
      let ?n = "?m\<lparr>rm_containerID := cinf_id x, rm_imageDigest := cinf_imageDigest x\<rparr>"
      let ?j = "?i\<lparr>it_metadata := ?n, it_state := IntentContainerMade\<rparr>"
      have x: "containerID (cinf_id x)" "dv_owner V g (cinf_id x) = Some (containerName ?k)"
        using C(2) [OF Some] m(2) by auto
      have n2: "named V (ss_docker ?s) ?n" "rm_runID ?n = it_runID ?j" using n x m(1) by (simp_all add: named_def)
      obtain r2 s2 where c: "saveIntent q 1 ?j ?s = (r2, s2)" by fastforce
      have j: "intentNamed V (ss_docker ?s) ?j" using n2 x by (simp add: intentNamed_def)
      have "it_runID ?j \<noteq> rid \<or> unstarted V rid ?s \<or> movedState (it_state ?j)" using fresh2 by auto
      from kept_saveIntent [OF keptD [OF B] j this c]
      have E: "kept V rid ?k ?s s2" "ss_docker s2 = g" by simp_all
      have F: "kept V rid ?k s s2" using kept_trans [OF B E(1)] .
      have fresh3: "unstarted V rid s2" if "it_runID ?j = rid" using fresh2 that E(2) by (simp add: unstarted_def)
      have "t = s2 \<or> startIntent sv q ?j ?n handle x s2 = (r, t)"
        using run Inr Some by (cases r2) (simp_all add: createIntent_def Let_def a b c [simplified])
      moreover have "kept V rid ?k s2 t" if "startIntent sv q ?j ?n handle x s2 = (r, t)"
      proof -
        have own: "dv_owner V (ss_docker s2) (rm_containerID ?n) = Some (containerName (it_runID ?j))" using x(2) E(2) by simp
        have "named V (ss_docker s2) ?n" using n2(1) E(2) by simp
        from kept_startIntent [OF laws keptD [OF F] this n2(2) own fresh3 that] show ?thesis by simp
      qed
      ultimately show ?thesis using F kept_trans by blast
    qed
  qed
qed

lemma kept_resumeRunning:
  assumes laws: "docker_laws (sr_docker sv) V" and T: "tracked V s" and O: "once V rid s"
    and m: "named V (ss_docker s) m" and run: "resumeRunning sv q m s = (r, t)"
  shows "kept V rid (rm_runID m) s t"
proof -
  have A: "kept V rid (rm_runID m) s (putRun m s)" using kept_putRun [OF T O m] .
  obtain found g where a: "Inspect (sr_docker sv) (rm_containerID m) (ss_docker (putRun m s)) = (found, g)" by fastforce
  let ?s = "(putRun m s)\<lparr>ss_docker := g\<rparr>"
  have B: "kept V rid (rm_runID m) s ?s" using kept_trans [OF A kept_idle [OF keptD [OF A] idle_Inspect [OF laws a]]] .
  obtain err n s3 where f: "finalizeTerminalRun sv q (rm_runID m) ''reconcile_exited'' ''exited''
      (exitedUpdate q (the found)) ?s = ((err, n), s3)" by (metis surj_pair)
  have C: "kept V rid (rm_runID m) s s3" using kept_trans [OF B kept_finalizeTerminalRun(1) [OF keptD [OF B] idle_exited f]] .
  have "t \<in> {putRun m s, ?s, s3}"
    using run f by (cases found; cases err) (auto simp: resumeRunning_def Let_def a split: if_splits)
  with A B C show ?thesis by auto
qed

lemma kept_resumeLaunchIntent:
  assumes laws: "docker_laws (sr_docker sv) V" and codex: "\<not> hasCodexWorkflow (sg_launchProfiles (sr_cfg sv))"
    and T: "tracked V s" and O: "once V rid s" and i: "current i s" and m: "rm_runID (it_metadata i) = it_runID i"
    and run: "resumeLaunchIntent sv q i recovering s = (r, u)"
  shows "kept V rid (it_runID i) s u"
proof -
  let ?m = "it_metadata i" and ?k = "it_runID i"
  let ?s = "s\<lparr>ss_files := gput (rm_runID ?m) ?m (ss_files s)\<rparr>"
  have n: "named V (ss_docker s) ?m" "it_state i \<noteq> IntentWaitingExternal" using current_named [OF T i] by (simp_all add: intentNamed_def)
  have K: "kept V rid ?k s s" using kept_refl [OF T O] .
  have A: "kept V rid ?k s ?s" using kept_files [OF T O n(1)] .
  have iA: "current i ?s" using i by (simp add: current_def)
  have plain: "\<not> (case gget (sg_launchProfiles (sr_cfg sv)) (it_profile i) of None \<Rightarrow> False | Some p \<Rightarrow> sp_codexWorkflow p \<noteq> None)"
    using codex by (fastforce simp: hasCodexWorkflow_def list_ex_iff dest: gget_SomeD split: option.splits)
  show ?thesis
  proof (cases "lp_configVersion (it_plan i) \<noteq> sg_configVersion (sr_cfg sv) \<or> isTerminalStatus (rm_status ?m) \<or>
      it_state i = IntentTerminal \<or> gget (sg_templates (sr_cfg sv)) (rm_template ?m) = None")
    case True
    then have "u = s" using run by (auto simp: resumeLaunchIntent_def Let_def plain split: if_splits)
    then show ?thesis using K by simp
  next
    case False
    then obtain t where t: "gget (sg_templates (sr_cfg sv)) (rm_template ?m) = Some t" by auto
    have run1: "(if it_state i = IntentRunning then resumeRunning sv q ?m s
        else if lcl_prepare q \<noteq> None then (Inl LaunchFiles, if lcl_prepare q = Some True then ?s else s)
        else if it_state i = IntentContainerMade \<or> it_state i = IntentStartPending then
          (case runtimeSpec (sr_cfg sv) ?m t [] of Inl e \<Rightarrow> (Inl e, ?s) | Inr spec \<Rightarrow> adoptIntent sv q i ?m ?s)
        else
          (case mintLaunchCapability sv q t ?m ?s of
             (Inl e, s2) \<Rightarrow> (Inl e, s2)
           | (Inr handle, s2) \<Rightarrow>
               (case runtimeSpec (sr_cfg sv) ?m t handle of
                  Inl e \<Rightarrow> (Inl e, revokeLaunchCapability sv q handle s2)
                | Inr spec \<Rightarrow> createIntent sv q i ?m handle spec s2))) = (r, u)"
      using run False t unfolding resumeLaunchIntent_def Let_def if_not_P [OF plain] by simp
    show ?thesis
    proof (cases "it_state i = IntentRunning \<or> lcl_prepare q \<noteq> None \<or> madeState (it_state i)")
      case True
      have adopt: "kept V rid ?k s u" if "adoptIntent sv q i ?m ?s = (r, u)" "madeState (it_state i)"
        using kept_trans [OF A kept_adoptIntent [OF laws keptD [OF A] iA that(2) m that(1)]] .
      have running: "kept V rid ?k s u" if "resumeRunning sv q ?m s = (r, u)"
        using kept_resumeRunning [OF laws T O n(1) that] m by simp
      show ?thesis using True run1 K A adopt running by (auto simp: madeState_def split: if_splits sum.splits)
    next
      case fresh: False
      obtain mr s2 where mint: "mintLaunchCapability sv q t ?m ?s = (mr, s2)" by fastforce
      note M = kept_mint [OF keptD [OF A] mint]
      have B: "kept V rid ?k s s2" using kept_trans [OF A M(1)] .
      have iB: "current i s2" using iA M(3) by (simp add: current_def)
      have st: "\<not> madeState (it_state i)" "\<not> movedState (it_state i)" using fresh False by (auto simp: movedState_def)
      show ?thesis
      proof (cases mr)
        case (Inl e)
        then show ?thesis using run1 fresh mint B by (auto simp: madeState_def)
      next
        case (Inr handle)
        show ?thesis
        proof (cases "runtimeSpec (sr_cfg sv) ?m t handle")
          case (Inl e)
          then have "u = revokeLaunchCapability sv q handle s2" using run1 fresh mint Inr by (auto simp: madeState_def)
          then show ?thesis using kept_trans [OF B kept_revoke [OF keptD [OF B]]] by simp
        next
          case spec: (Inr spec)
          then have "createIntent sv q i ?m handle spec s2 = (r, u)" using run1 fresh mint Inr by (auto simp: madeState_def)
          from kept_trans [OF B kept_createIntent [OF laws keptD [OF B] iB st m _ this]] runtimeSpec_Inr [OF spec] m
          show ?thesis by simp
        qed
      qed
    qed
  qed
qed

text \<open>An intent that was read from the store.\<close>

lemma decoded_current:
  assumes "row \<in> set (ln_rows (ss_intents s))" and "decodeLaunchIntent (iw_intent row) = Inr i"
  shows "current i s \<and> rm_runID (it_metadata i) = it_runID i"
  using assms by (auto simp: current_def decodeLaunchIntent_def split: if_splits)

lemma scan_current:
  assumes "scanLaunchIntent b who profile digest (ss_intents s) = Inr (Some i)"
  shows "current i s \<and> rm_runID (it_metadata i) = it_runID i"
proof -
  obtain row where row: "find (\<lambda>r. intentKey (iw_intent r) = (who, profile, digest)) (ln_rows (ss_intents s)) = Some row"
    using assms by (cases "find (\<lambda>r. intentKey (iw_intent r) = (who, profile, digest)) (ln_rows (ss_intents s))")
      (auto simp: scanLaunchIntent_def split: if_splits)
  then have "decodeLaunchIntent (iw_intent row) = Inr i"
    using assms by (cases "decodeLaunchIntent (iw_intent row)") (auto simp: scanLaunchIntent_def split: if_splits)
  moreover have "row \<in> set (ln_rows (ss_intents s))" using row by (auto simp: find_Some_iff)
  ultimately show ?thesis by (rule decoded_current [rotated])
qed

lemma kept_CreateIntent:
  assumes T: "tracked V s" and O: "once V rid s" and i: "intentNamed V (ss_docker s) i"
    and run: "CreateIntent f now i n (ss_intents s) = (r, t)"
  shows "kept V rid k s (s\<lparr>ss_intents := t\<rparr>)"
    and "r = Inr (j, True) \<Longrightarrow> j = i \<and> current i (s\<lparr>ss_intents := t\<rparr>)"
    and "r = Inr (j, False) \<Longrightarrow> current j (s\<lparr>ss_intents := t\<rparr>) \<and> rm_runID (it_metadata j) = it_runID j"
proof -
  have "kept V rid k s (s\<lparr>ss_intents := t\<rparr>) \<and> (r = Inr (j, True) \<longrightarrow> j = i \<and> current i (s\<lparr>ss_intents := t\<rparr>))"
  proof (rule CreateIntent_cases [of f now i n "ss_intents s"])
    assume "snd (CreateIntent f now i n (ss_intents s)) = ss_intents s" "\<And>j. fst (CreateIntent f now i n (ss_intents s)) \<noteq> Inr (j, True)"
    then have "t = ss_intents s" "r \<noteq> Inr (j, True)" using run by (auto simp: prod_eq_iff)
    then show ?thesis using kept_intents_same [OF T O] by simp
  next
    assume c: "CreateIntent f now i n (ss_intents s) =
        (Inr (i, True), (ss_intents s)\<lparr>ln_rows := ln_rows (ss_intents s) @ [newIntentRow now i]\<rparr>)" and free: "keysFree i (ss_intents s)"
    have t: "ln_rows t = ln_rows (ss_intents s) @ [newIntentRow now i]" and r: "r = Inr (i, True)" using run c by auto
    have new: "it_runID (iw_intent (newIntentRow now i)) = it_runID i" "it_state (iw_intent (newIntentRow now i)) = it_state i"
      "it_metadata (iw_intent (newIntentRow now i)) = it_metadata i" by (simp_all add: newIntentRow_def)
    then have "intentNamed V (ss_docker s) (iw_intent (newIntentRow now i))" using i by (simp add: intentNamed_def)
    moreover have "it_runID i \<notin> (\<lambda>r. it_runID (iw_intent r)) ` set (ln_rows (ss_intents s))"
      using free by (auto simp: keysFree_def list_all_iff)
    ultimately have "tracked V (s\<lparr>ss_intents := t\<rparr>)" using T t new by (auto simp: tracked_def)
    moreover have "once V rid (s\<lparr>ss_intents := t\<rparr>)" using O t by (auto simp: once_def)
    ultimately have "kept V rid k s (s\<lparr>ss_intents := t\<rparr>)" using t by (auto simp: kept_def current_def)
    moreover have "current i (s\<lparr>ss_intents := t\<rparr>)" using t new by (auto simp: current_def)
    ultimately show ?thesis using r by auto
  qed
  then show "kept V rid k s (s\<lparr>ss_intents := t\<rparr>)" "r = Inr (j, True) \<Longrightarrow> j = i \<and> current i (s\<lparr>ss_intents := t\<rparr>)" by auto
  show "r = Inr (j, False) \<Longrightarrow> current j (s\<lparr>ss_intents := t\<rparr>) \<and> rm_runID (it_metadata j) = it_runID j"
    using run scan_current [of "f 4" "it_principal i" "it_profile i" "it_keyDigest i" s j]
    by (auto simp: CreateIntent_def split: if_splits sum.splits option.splits)
qed

lemma profileMetadata_simps:
  "rm_runID (profileMetadata cfg now who profile digest fp inp sel) = sl_runID sel"
  "rm_containerID (profileMetadata cfg now who profile digest fp inp sel) = []"
  "rm_status (profileMetadata cfg now who profile digest fp inp sel) = ''pending''"
  by (simp_all add: profileMetadata_def applyResolvedRelease_def Let_def split: option.splits)

text \<open>Of the invariant at the end of an operation.\<close>

definition sole :: "'g docker_view \<Rightarrow> string \<Rightarrow> 'g sandbox_state \<Rightarrow> bool" where
  "sole V rid s \<longleftrightarrow> tracked V s \<and> once V rid s"

lemma sole_kept: "kept V rid k s t \<Longrightarrow> sole V rid t"
  by (simp add: sole_def kept_def)

lemma soleD: "sole V rid s \<Longrightarrow> tracked V s" "sole V rid s \<Longrightarrow> once V rid s"
  by (simp_all add: sole_def)

lemma sole_launchKeyed:
  assumes laws: "docker_laws (sr_docker sv) V" and codex: "\<not> hasCodexWorkflow (sg_launchProfiles (sr_cfg sv))"
    and s: "sole V rid s" and run: "launchKeyed sv q who profile rawKey fp inp s = (r, u)"
  shows "sole V rid u"
proof -
  have resume: "sole V rid (snd (replayed b (resumeLaunchIntent sv q i False s')))"
    if "sole V rid s'" "current i s' \<and> rm_runID (it_metadata i) = it_runID i" for b i s'
    using sole_kept [OF kept_resumeLaunchIntent [OF laws codex soleD [OF that(1)] _ _ prod.collapse [symmetric]]] that(2)
    by (simp add: replayed_def)
  let ?digest = "sr_digestKey sv rawKey"
  show ?thesis
  proof (cases "Lookup (lcl_lookup q) who profile ?digest (ss_intents s)")
    case (Inl e)
    then show ?thesis using run s by (auto simp: launchKeyed_def Let_def)
  next
    case (Inr found)
    show ?thesis
    proof (cases found)
      case (Some i)
      then have "current i s \<and> rm_runID (it_metadata i) = it_runID i" using scan_current Inr by (simp add: Lookup_def)
      from resume [OF s this, of True] show ?thesis using run s Inr Some by (auto simp: launchKeyed_def Let_def split: if_splits)
    next
      case None
      show ?thesis
      proof (cases "selectLaunchTemplate (sr_regexps sv) (sr_cfg sv) (lcl_runID q) (lcl_release q) (sr_releases sv) inp")
        case (Inl e)
        then show ?thesis using run s Inr None by (auto simp: launchKeyed_def Let_def)
      next
        case sel: (Inr sel)
        define n where "n = profileMetadata (sr_cfg sv) (lcl_now q) who profile ?digest fp inp sel"
        define i where "i = \<lparr>it_principal = who, it_profile = profile, it_keyDigest = ?digest, it_fingerprint = fp,
            it_runID = sl_runID sel, it_state = IntentCreated,
            it_plan = \<lparr>lp_version = 1, lp_configVersion = sg_configVersion (sr_cfg sv), lp_request = inp,
                       lp_runtimeSeconds = truncSeconds (sl_limit sel), lp_metadata = n\<rparr>, it_metadata = n\<rparr>"
        define bound where
          "bound = (case gget (sg_launchProfiles (sr_cfg sv)) profile of None \<Rightarrow> 0 | Some p \<Rightarrow> sp_maxConcurrentRuns p)"
        obtain cr t where c: "CreateIntent (lcl_create q) (lcl_now q) i bound (ss_intents s) = (cr, t)" by fastforce
        have i: "intentNamed V (ss_docker s) i" "rm_runID (it_metadata i) = it_runID i"
          by (simp_all add: i_def n_def intentNamed_def named_def profileMetadata_simps)
        note C = kept_CreateIntent [OF soleD [OF s] i(1) c]
        have t: "sole V rid (s\<lparr>ss_intents := t\<rparr>)" using sole_kept [OF C(1)] .
        have run1: "(if \<not> validateTaskContract sv n then (Inl LaunchContract, s)
            else case (cr, t) of
              (Inl e, t) \<Rightarrow> (Inl (LaunchStore e), s\<lparr>ss_intents := t\<rparr>)
            | (Inr (persisted, created), t) \<Rightarrow>
                if \<not> created \<and> it_fingerprint persisted \<noteq> fp then (Inl LaunchKeyConflict, s\<lparr>ss_intents := t\<rparr>)
                else replayed (\<not> created)
                  (resumeLaunchIntent sv q (if created then i else persisted) False (s\<lparr>ss_intents := t\<rparr>))) = (r, u)"
          using run Inr None sel unfolding launchKeyed_def Let_def c [symmetric] i_def n_def bound_def by simp
        show ?thesis
        proof (cases cr)
          case (Inl e)
          then show ?thesis using run1 s t by (auto split: if_splits)
        next
          case pc: (Inr pc)
          obtain j created where j: "pc = (j, created)" by fastforce
          let ?i = "if created then i else j"
          have "current ?i (s\<lparr>ss_intents := t\<rparr>) \<and> rm_runID (it_metadata ?i) = it_runID ?i"
            using C(2) [of j] C(3) [of j] pc j i(2) by (cases created) simp_all
          from resume [OF t this, of "\<not> created"] show ?thesis using run1 pc j s t by (auto split: if_splits)
        qed
      qed
    qed
  qed
qed

text \<open>A launch without a key, of another run.\<close>

lemma kept_failLaunch:
  assumes T: "tracked V s" and O: "once V rid s" and m: "named V (ss_docker s) m"
    and run: "failLaunch sv q handle reason m cause s = (r, t)"
  shows "kept V rid (rm_runID m) s t"
proof -
  define n where "n = startupFailure q reason m"
  have n: "named V (ss_docker s) n" "rm_runID n = rm_runID m" using m by (simp_all add: n_def startupFailure_def named_def)
  let ?s = "revokeLaunchCapability sv q handle s"
  obtain r1 s1 where a: "persistTerminalResult q n ?s = (r1, s1)" by fastforce
  obtain r2 s2 where b: "writeMetadata q n s1 = (r2, s2)" by fastforce
  have K: "kept V rid (rm_runID m) s ?s" using kept_revoke [OF T O] .
  note P = kept_persistTerminalResult [OF keptD [OF K] a]
  have A: "kept V rid (rm_runID m) s s1" "ss_docker s1 = ss_docker s" using kept_trans [OF K P(1)] P(2) by simp_all
  have B: "kept V rid (rm_runID m) s s2"
    using kept_trans [OF A(1)] kept_writeMetadata(1) [OF keptD [OF A(1)] _ b] n A(2) by auto
  have "t \<in> {s1, s2}" using run b unfolding failLaunch_def Let_def n_def [symmetric] a by (auto split: sum.splits)
  with A B show ?thesis by auto
qed

lemma sole_launchAgent:
  assumes laws: "docker_laws (sr_docker sv) V" and s: "sole V rid s" and other: "lcl_runID q \<noteq> Some rid"
    and run: "launchAgent sv q who inp s = (r, u)"
  shows "sole V rid u"
proof (cases "selectLaunchTemplate (sr_regexps sv) (sr_cfg sv) (lcl_runID q) (lcl_release q) (sr_releases sv) inp")
  case (Inl e)
  then show ?thesis using run s by (simp add: launchAgent_def)
next
  case (Inr sel)
  define k where "k = sl_runID sel"
  have k: "k \<noteq> rid" using selected_template(2) [OF Inr] other by (simp add: k_def)
  define n where "n = directMetadata (lcl_now q) who inp sel"
  have n: "named V g n" "rm_runID n = k" for g
    by (simp_all add: n_def k_def named_def) (simp add: directMetadata_def applyResolvedRelease_def zeroMetadata_def Let_def split: option.splits)
  obtain mr s1 where mint: "mintLaunchCapability sv q (sl_template sel) n s = (mr, s1)" by fastforce
  have A: "kept V rid k s s1" using kept_mint(1) [OF soleD [OF s] mint] .
  show ?thesis
  proof (cases "profileBusy sv (la_profile inp) s \<or> \<not> validateTaskContract sv n \<or> lcl_prepare q \<noteq> None \<or> (\<exists>e. mr = Inl e)")
    case True
    then show ?thesis using run s sole_kept [OF A] Inr
      by (auto simp: launchAgent_def Let_def n_def [symmetric] mint split: if_splits)
  next
    case False
    then obtain handle where handle: "mr = Inr handle" by (cases mr) auto
    show ?thesis
    proof (cases "runtimeSpec (sr_cfg sv) n (sl_template sel) handle")
      case (Inl e)
      then have "u = revokeLaunchCapability sv q handle s1"
        using run Inr False handle by (simp add: launchAgent_def Let_def n_def [symmetric] mint)
      then show ?thesis using sole_kept [OF kept_revoke [OF keptD [OF A]]] by simp
    next
      case spec: (Inr spec)
      obtain info g1 where c: "createContainer (sr_docker sv) (sr_fingerprint sv) spec (ss_docker s1) = (info, g1)" by fastforce
      note C = createContainer_ok [OF laws c]
      let ?s = "s1\<lparr>ss_docker := g1\<rparr>"
      have B: "kept V rid k s1 ?s" using kept_unstarting [OF keptD [OF A] C(1)] .
      show ?thesis
      proof (cases info)
        case None
        then have "failLaunch sv q handle ''launch_create_failed'' n LaunchCreate ?s = (r, u)"
          using run Inr False handle spec c by (simp add: launchAgent_def Let_def n_def [symmetric] mint)
        then show ?thesis using sole_kept [OF kept_failLaunch [OF keptD [OF B] n(1)]] by blast
      next
        case (Some x)
        let ?m = "n\<lparr>rm_containerID := cinf_id x, rm_imageDigest := cinf_imageDigest x\<rparr>"
        have x: "containerID (cinf_id x)" "dv_owner V g1 (cinf_id x) = Some (containerName k)"
          using C(2) [OF Some] runtimeSpec_Inr [OF spec] n(2) by auto
        obtain ok g2 where d: "startContainer (sr_docker sv) (cinf_id x) g1 = (ok, g2)" by fastforce
        note St = startContainer_ok [OF laws d]
        let ?t = "s1\<lparr>ss_docker := g2\<rparr>"
        have m: "named V g2 ?m" "named V g2 (?m\<lparr>rm_status := ''running''\<rparr>)"
          using n(1) x St(3) n(2) by (simp_all add: named_def)
        have T: "tracked V ?t"
          using keptD(1) [OF B] St(3) by (simp add: tracked_def named_def intentNamed_def)
        have st: "started V rid g2 c \<longleftrightarrow> started V rid g1 c" "started V rid g1 c \<Longrightarrow> dv_starts V g2 c = dv_starts V g1 c" for c
          using St(1) [of c] St(3) x(2) k by (cases "c = cinf_id x"; simp add: started_def)+
        have O: "once V rid ?t" using keptD(2) [OF B] st by (simp add: once_def)
        obtain r3 s3 where w: "writeMetadata q (?m\<lparr>rm_status := ''running''\<rparr>) ?t = (r3, s3)" by fastforce
        have W: "kept V rid k ?t s3" "ss_docker s3 = g2" using kept_writeMetadata [OF T O _ w] m n(2) by auto
        have P: "kept V rid k s3 (putRun (?m\<lparr>rm_status := ''running''\<rparr>) s3)" using kept_putRun [OF keptD [OF W(1)]] m W(2) by simp
        have "failLaunch sv q handle ''launch_start_failed'' ?m LaunchStart ?t = (r, u) \<or> u = s3 \<or>
            u = putRun (?m\<lparr>rm_status := ''running''\<rparr>) s3"
          using run Inr False handle spec c Some d w
          by (cases ok; cases r3) (simp_all add: launchAgent_def Let_def n_def [symmetric] mint)
        then show ?thesis using sole_kept [OF kept_failLaunch [OF T O]] m sole_kept [OF W(1)] sole_kept [OF P] by auto
      qed
    qed
  qed
qed

section \<open>The other operations\<close>

text \<open>The intents that a recovery goes through are of different runs, so that each is still current when its turn comes.\<close>

lemma sole_reconcileAll:
  assumes laws: "docker_laws (sr_docker sv) V" and codex: "\<not> hasCodexWorkflow (sg_launchProfiles (sr_cfg sv))"
    and "sole V rid s" and "\<forall>i \<in> set is. current i s \<and> rm_runID (it_metadata i) = it_runID i" and "distinct (map it_runID is)"
  shows "sole V rid (snd (reconcileAll sv qs n is s))"
  using assms(3-5)
proof (induction "is" arbitrary: n s)
  case (Cons i "is")
  obtain r s1 where a: "resumeLaunchIntent sv (qs n) i True s = (r, s1)" by fastforce
  have K: "kept V rid (it_runID i) s s1"
    using kept_resumeLaunchIntent [OF laws codex soleD [OF Cons.prems(1)] _ _ a] Cons.prems(2) by simp
  have "current j s1" if j: "j \<in> set is" for j
  proof -
    have "it_runID j \<noteq> it_runID i" using Cons.prems(3) j by (metis distinct.simps(2) imageI list.set_map list.simps(9))
    moreover have "current j s" using Cons.prems(2) j by simp
    ultimately show ?thesis using K by (simp add: kept_def)
  qed
  then have "\<forall>j \<in> set is. current j s1 \<and> rm_runID (it_metadata j) = it_runID j" using Cons.prems(2) by simp
  then have "sole V rid (snd (reconcileAll sv qs (Suc n) is s1))"
    using Cons.IH sole_kept [OF K] Cons.prems(3) by simp
  then show ?case using Cons.prems(1) sole_kept [OF K] a by (auto split: sum.splits)
qed simp

lemma decodeAll_Inr: "decodeAll is = Inr js \<Longrightarrow> js = is"
  by (induction "is" arbitrary: js) (auto simp: decodeLaunchIntent_def split: sum.splits if_splits)

lemma decodeAll_wf: "decodeAll is = Inr js \<Longrightarrow> i \<in> set js \<Longrightarrow> decodeLaunchIntent i = Inr i"
  by (induction "is" arbitrary: js) (auto simp: decodeLaunchIntent_def split: sum.splits if_splits)

lemma nonterminal_rows:
  assumes "Nonterminal f t = Inr is"
  shows "\<forall>i \<in> set is. decodeLaunchIntent i = Inr i \<and> (\<exists>row \<in> set (ln_rows t). i = iw_intent row)"
    and "distinct (map (\<lambda>r. it_runID (iw_intent r)) (ln_rows t)) \<Longrightarrow> distinct (map it_runID is)"
proof -
  let ?rows = "sort_key (\<lambda>r. formatTime (iw_createdAt r)) (filter (\<lambda>r. activeIntent (iw_intent r)) (ln_rows t))"
  have d: "decodeAll (map iw_intent ?rows) = Inr is" using assms by (simp add: Nonterminal_def split: if_splits)
  have eq: "is = map iw_intent ?rows" using decodeAll_Inr [OF d] .
  then show "\<forall>i \<in> set is. decodeLaunchIntent i = Inr i \<and> (\<exists>row \<in> set (ln_rows t). i = iw_intent row)"
    using decodeAll_wf [OF d] unfolding eq by auto
  assume "distinct (map (\<lambda>r. it_runID (iw_intent r)) (ln_rows t))"
  then have "distinct (ln_rows t)" "inj_on (\<lambda>r. it_runID (iw_intent r)) (set (ln_rows t))" by (simp_all add: distinct_map)
  then have "distinct ?rows" "inj_on (\<lambda>r. it_runID (iw_intent r)) (set ?rows)" by (auto intro: inj_on_subset)
  then show "distinct (map it_runID is)" unfolding eq by (simp add: distinct_map comp_def inj_on_def)
qed

lemma sole_finalize:
  assumes s: "sole V rid s" and upd: "idle_update V upd"
  shows "sole V rid (snd (finalStatus (finalizeTerminalRun sv q j reason source upd s)))"
    and "sole V rid (snd (finalizeTerminalRun sv q j reason source upd s))"
proof -
  obtain err n t where f: "finalizeTerminalRun sv q j reason source upd s = ((err, n), t)" by (metis surj_pair)
  have "sole V rid t" using sole_kept [OF kept_finalizeTerminalRun(1) [OF soleD [OF s] upd f]] .
  then show "sole V rid (snd (finalStatus (finalizeTerminalRun sv q j reason source upd s)))"
    "sole V rid (snd (finalizeTerminalRun sv q j reason source upd s))"
    by (auto simp: f finalStatus_def split: option.splits)
qed

lemma sole_idle: "sole V rid s \<Longrightarrow> idle V (ss_docker s) g \<Longrightarrow> sole V rid (s\<lparr>ss_docker := g\<rparr>)"
  by (rule sole_kept [OF kept_idle [OF soleD]])

lemma sole_lookupRun: "sole V rid s \<Longrightarrow> lookupRun j s = (r, t) \<Longrightarrow> sole V rid t"
  by (rule sole_kept [OF kept_lookupRun(1) [OF soleD]])

lemma sole_GetAgentStatus:
  assumes laws: "docker_laws (sr_docker sv) V" and s: "sole V rid s"
  shows "sole V rid (snd (GetAgentStatus sv q j s))"
proof -
  obtain r s1 where a: "lookupRun j s = (r, s1)" by fastforce
  have s1: "sole V rid s1" using sole_lookupRun [OF s a] .
  show ?thesis
  proof (cases r)
    case (Inl e)
    then show ?thesis using s1 by (simp add: GetAgentStatus_def a)
  next
    case (Inr m)
    obtain found g where b: "Inspect (sr_docker sv) (rm_containerID m) (ss_docker s1) = (found, g)" by fastforce
    have s2: "sole V rid (s1\<lparr>ss_docker := g\<rparr>)" using sole_idle [OF s1 idle_Inspect [OF laws b]] .
    show ?thesis using s1 s2 sole_finalize(1) [OF s2 idle_exited] sole_finalize(1) [OF s2 idle_markTimedOut [OF laws]]
      by (simp add: GetAgentStatus_def a Inr b split: option.splits)
  qed
qed

lemma sole_StopAgent:
  assumes laws: "docker_laws (sr_docker sv) V" and s: "sole V rid s"
  shows "sole V rid (snd (StopAgent sv q j s))"
proof -
  obtain r s1 where a: "lookupRun j s = (r, s1)" by fastforce
  have s1: "sole V rid s1" using sole_lookupRun [OF s a] .
  obtain err n t where f: "finalizeTerminalRun sv q (rm_runID (projr r)) ''manual_stop'' ''manual_stop'' (stopUpdate sv q) s1 =
      ((err, n), t)" by (metis surj_pair)
  have "sole V rid t" using sole_finalize(2) [OF s1 idle_stopUpdate [OF laws]] f by (metis snd_conv)
  then show ?thesis using s1 f by (cases r) (auto simp: StopAgent_def a Let_def split: option.splits)
qed

lemma sole_watchTimeout:
  assumes laws: "docker_laws (sr_docker sv) V" and s: "sole V rid s"
  shows "sole V rid (watchTimeout sv q j deadline s)"
proof -
  obtain r s1 where a: "lookupRun j s = (r, s1)" by fastforce
  have s1: "sole V rid s1" using sole_lookupRun [OF s a] .
  then show ?thesis using sole_finalize(2) [OF s1 idle_markTimedOut [OF laws]] by (simp add: watchTimeout_def a split: sum.splits)
qed

lemma sole_watchExit:
  assumes laws: "docker_laws (sr_docker sv) V" and s: "sole V rid s"
  shows "sole V rid (watchExit sv q j cid s)"
proof -
  obtain w g1 where a: "WaitExit (sr_docker sv) cid (ss_docker s) = (w, g1)" by fastforce
  obtain found g2 where b: "Inspect (sr_docker sv) cid g1 = (found, g2)" by fastforce
  have g1: "idle V (ss_docker s) g1" using idle_wait [OF laws a] .
  have s1: "sole V rid (s\<lparr>ss_docker := g1\<rparr>)" using sole_idle [OF s g1] .
  have s2: "sole V rid (s\<lparr>ss_docker := g2\<rparr>)" using sole_idle [OF s idle_trans [OF g1 idle_Inspect [OF laws b]]] .
  obtain r s3 where c: "lookupRun j (s\<lparr>ss_docker := g2\<rparr>) = (r, s3)" by fastforce
  show ?thesis
    using sole_finalize(2) [OF s1 idle_exited] sole_finalize(2) [OF s2 idle_exited] sole_lookupRun [OF s2 c]
    by (simp add: watchExit_def a b c Let_def split: option.splits)
qed

lemma set_gdel: "set (gdel k m) \<subseteq> set m"
  by (auto simp: gdel_def)

lemma sole_removed:
  assumes "sole V rid s"
  shows "sole V rid (removeRunDir gone j s)" and "sole V rid (s\<lparr>ss_runs := gdel j (ss_runs s)\<rparr>)"
  using assms set_gdel [of j "ss_runs s"] set_gdel [of j "ss_files s"]
  by (auto simp: sole_def tracked_def once_def removeRunDir_def keyed_gdel)

lemma sole_CleanupRun:
  assumes laws: "docker_laws (sr_docker sv) V" and s: "sole V rid s"
  shows "sole V rid (snd (CleanupRun sv q j s))"
proof -
  obtain r s1 where a: "lookupRun j s = (r, s1)" by fastforce
  have s1: "sole V rid s1" using sole_lookupRun [OF s a] .
  show ?thesis
  proof (cases r)
    case (Inl e)
    then show ?thesis using s1 by (simp add: CleanupRun_def a)
  next
    case (Inr m)
    obtain ok g where b: "removeContainers (sr_docker sv) []
        (if rm_provenance m \<noteq> None then sr_containers sv m else [rm_containerID m]) (ss_docker s1) = (ok, g)" by fastforce
    have "idle V (ss_docker s1) g" using idle_removeContainers [OF laws] b by (metis snd_conv)
    then have s2: "sole V rid (s1\<lparr>ss_docker := g\<rparr>)" by (rule sole_idle [OF s1])
    show ?thesis using s1 s2 sole_removed(1) [OF s2] sole_removed(2) [OF sole_removed(1) [OF s2]]
      unfolding CleanupRun_def a Inr prod.case sum.case b by (simp add: Let_def split: bool.splits option.splits)
  qed
qed

lemma sole_RestoreMetadata:
  assumes s: "sole V rid s" and m: "named V (ss_docker s) m" and run: "RestoreMetadata f now m (ss_intents s) = (r, t)"
  shows "kept V rid k s (s\<lparr>ss_intents := t\<rparr>)"
proof -
  have new: "intentNamed V (ss_docker s) (restoredIntent m)"
    using m by (auto simp: intentNamed_def restoredIntent_def restoredState_def named_def Let_def)
  obtain r1 t1 where c: "CreateIntent f now (restoredIntent m) 0 (ss_intents s) = (r1, t1)" by fastforce
  have "t = ss_intents s \<or> t = t1" using snd_RestoreMetadata [of f now m "ss_intents s"] run c by simp
  then show ?thesis using kept_intents_same [OF soleD [OF s]] kept_CreateIntent(1) [OF soleD [OF s] new c] by auto
qed

lemma kept_reconcileContainer:
  assumes laws: "docker_laws (sr_docker sv) V" and s: "sole V rid s" and m: "named V (ss_docker s) m"
    and run: "reconcileContainer sv q m s = ((err, n), t)"
  shows "kept V rid (rm_runID m) s t \<and> named V (ss_docker t) n"
proof -
  obtain found g where b: "Inspect (sr_docker sv) (rm_containerID m) (ss_docker s) = (found, g)" by fastforce
  let ?s = "s\<lparr>ss_docker := g\<rparr>"
  have K: "kept V rid (rm_runID m) s ?s" using kept_idle [OF soleD [OF s] idle_Inspect [OF laws b]] .
  have fin: "kept V rid (rm_runID m) s t \<and> named V (ss_docker t) n"
    if "idle_update V upd" "finalizeTerminalRun sv q (rm_runID m) reason source upd ?s = ((err, n), t)" for upd reason source
  proof -
    note F = kept_finalizeTerminalRun [OF keptD [OF K] that]
    show ?thesis using kept_trans [OF K F(1)] F(2) by blast
  qed
  show ?thesis
  proof (cases "rm_provenance m = None \<and> rm_containerID m \<noteq> [] \<and> rm_status m = ''running''")
    case True
    show ?thesis
      using run K named_kept [OF K m] fin [OF idle_missing] fin [OF idle_exited] fin [OF idle_markTimedOut [OF laws]]
      unfolding reconcileContainer_def if_P [OF True] b prod.case by (cases found) (auto split: if_splits)
  next
    case False
    then show ?thesis using run m kept_refl [OF soleD [OF s]] by (auto simp: reconcileContainer_def)
  qed
qed

lemma sole_reconcileRun:
  assumes laws: "docker_laws (sr_docker sv) V" and s: "sole V rid s" and m: "named V (ss_docker s) m"
  shows "sole V rid (snd (reconcileRun sv q m s))"
proof -
  obtain r t where a: "RestoreMetadata (lcl_create q) (lcl_now q) m (ss_intents s) = (r, t)" by fastforce
  have K: "kept V rid (rm_runID m) s (s\<lparr>ss_intents := t\<rparr>)" using sole_RestoreMetadata [OF s m a] .
  obtain err n s2 where b: "reconcileContainer sv q m (s\<lparr>ss_intents := t\<rparr>) = ((err, n), s2)" by (metis surj_pair)
  have C: "kept V rid (rm_runID m) (s\<lparr>ss_intents := t\<rparr>) s2" "named V (ss_docker s2) n"
    using kept_reconcileContainer [OF laws sole_kept [OF K] named_kept [OF K m] b] by auto
  have P: "kept V rid (rm_runID m) s2 (putRun n s2)" using kept_putRun [OF keptD [OF C(1)] C(2)] .
  obtain r3 s3 where c: "backfillResult q n (putRun n s2) = (r3, s3)" by fastforce
  have "s3 = putRun n s2 \<or> (\<exists>x. persistTerminalResult q n (putRun n s2) = (x, s3))"
    using c by (auto simp: backfillResult_def split: if_splits)
  then have s3: "sole V rid s3" using sole_kept [OF P] sole_kept [OF kept_persistTerminalResult(1) [OF keptD [OF P]]] by blast
  show ?thesis
  proof (cases "rm_provenance m \<noteq> None \<and> sr_issuer sv \<and> lcl_cleanup q")
    case True
    then show ?thesis using s by (simp add: reconcileRun_def)
  next
    case False
    show ?thesis unfolding reconcileRun_def if_not_P [OF False] a prod.case b
      using sole_kept [OF K] sole_kept [OF C(1)] s3 by (auto simp: c split: sum.splits option.splits)
  qed
qed

lemma sole_reconcileRuns:
  assumes laws: "docker_laws (sr_docker sv) V" and "sole V rid s"
  shows "sole V rid (snd (reconcileRuns sv qs n ks s))"
  using assms(2)
proof (induction ks arbitrary: n s)
  case (Cons k ks)
  show ?case
  proof (cases "if lcl_unreadable (qs n) then None else gget (ss_files s) k")
    case None
    then show ?thesis using Cons by simp
  next
    case (Some m)
    then have "(k, m) \<in> set (ss_files s)" by (auto dest: gget_SomeD split: if_splits)
    then have "named V (ss_docker s) m" using Cons.prems by (auto simp: sole_def tracked_def)
    from sole_reconcileRun [OF laws Cons.prems this]
    have r: "sole V rid (snd (reconcileRun sv (qs n) m s))" .
    show ?thesis using r Cons.IH Some by (auto split: sum.splits prod.splits)
  qed
qed simp

lemma sole_Reconcile:
  assumes laws: "docker_laws (sr_docker sv) V" and codex: "\<not> hasCodexWorkflow (sg_launchProfiles (sr_cfg sv))"
    and s: "sole V rid s"
  shows "sole V rid (snd (reconcileService sv dir qs qs' f s))"
proof -
  obtain r s1 where a: "reconcileRuns sv qs 0 (sort (map fst (ss_files s))) s = (r, s1)" by fastforce
  have s1: "sole V rid s1" using sole_reconcileRuns [OF laws s] a by (metis snd_conv)
  have "sole V rid (snd (reconcileAll sv qs' 0 is s1))" if n: "Nonterminal f (ss_intents s1) = Inr is" for "is"
  proof (rule sole_reconcileAll [OF laws codex s1])
    show "\<forall>i \<in> set is. current i s1 \<and> rm_runID (it_metadata i) = it_runID i"
    proof
      fix i
      assume "i \<in> set is"
      then obtain row where "row \<in> set (ln_rows (ss_intents s1))" "i = iw_intent row" "decodeLaunchIntent i = Inr i"
        using nonterminal_rows(1) [OF n] by blast
      then show "current i s1 \<and> rm_runID (it_metadata i) = it_runID i" using decoded_current [of row s1 i] by simp
    qed
    show "distinct (map it_runID is)" using nonterminal_rows(2) [OF n] s1 by (simp add: sole_def tracked_def)
  qed
  then have "sole V rid (snd (reconcileLaunchIntents sv qs' f s1))"
    using s1 by (auto simp: reconcileLaunchIntents_def split: sum.splits)
  then show ?thesis using s s1 by (auto simp: reconcileService_def a split: sum.splits)
qed

text \<open>A launch without a key that takes the id of a given run.\<close>

fun keylessLaunch :: "string \<Rightarrow> sandbox_op \<Rightarrow> bool" where
  "keylessLaunch rid (OpLaunch q who profile rawKey fp inp) \<longleftrightarrow> rawKey = [] \<and> lcl_runID q = Some rid"
| "keylessLaunch rid _ \<longleftrightarrow> False"

lemma sole_exec:
  assumes laws: "docker_laws (sr_docker sv) V" and codex: "\<not> hasCodexWorkflow (sg_launchProfiles (sr_cfg sv))"
    and s: "sole V rid s" and x: "\<not> keylessLaunch rid x"
  shows "sole V rid (snd (sandbox_exec sv x s))"
proof (cases x)
  case (OpLaunch q who profile rawKey fp inp)
  then show ?thesis
    using sole_launchKeyed [OF laws codex s prod.collapse [symmetric]] sole_launchAgent [OF laws s _ prod.collapse [symmetric]] x
    by (simp add: split_beta LaunchProfile_def)
next
  case OpRestart
  have "sole V rid (s\<lparr>ss_runs := []\<rparr>)" using s by (auto simp: sole_def tracked_def once_def keyed_def)
  then show ?thesis using OpRestart by simp
qed (simp_all add: split_beta sole_GetAgentStatus [OF laws s] sole_StopAgent [OF laws s] sole_watchTimeout [OF laws s]
    sole_watchExit [OF laws s] sole_CleanupRun [OF laws s] sole_Reconcile [OF laws codex s])

section \<open>Properties\<close>

text \<open>C37. The worker of a run is started at most once. Take a run none of whose containers was started, such as one that is
  about to be launched with a key, in a state whose records name each container as that of its run. Whatever launches, with or without a key, polls, stops,
  deadlines, exits, cleanups, recoveries and restarts of the service follow each other, and whatever calls fail in them,
  with or without an effect: of all containers that are ever created for the run, also of those removed since, at most one
  is started, and it is started once. So a replay of the launch after a crash between any two of its steps, or after its
  run was cleaned up, does not run the work again; an idempotency key stands for one run (\<open>launch_key_binds_one_run\<close>). Launches without a
  key take other run ids, as those are random; Docker is assumed to behave as documented, and no launch profile to use
  the Codex workflow, which is not in the model.\<close>

theorem worker_started_at_most_once:
  assumes "docker_laws (sr_docker sv) V" and "\<not> hasCodexWorkflow (sg_launchProfiles (sr_cfg sv))"
    and "tracked V s" and "unstarted V rid s" and "\<forall>x \<in> set xs. \<not> keylessLaunch rid x"
    and "started V rid (ss_docker (run_ops (sandbox_exec sv) xs s)) c"
  shows "dv_starts V (ss_docker (run_ops (sandbox_exec sv) xs s)) c = 1 \<and>
    (\<forall>c'. started V rid (ss_docker (run_ops (sandbox_exec sv) xs s)) c' \<longrightarrow> c' = c)"
proof -
  have "sole V rid (run_ops (sandbox_exec sv) xs s)" if "sole V rid s" "\<forall>x \<in> set xs. \<not> keylessLaunch rid x"
    using that
  proof (induction xs arbitrary: s)
    case (Cons x xs)
    then show ?case using sole_exec [OF assms(1,2), of rid s x] by simp
  qed simp
  moreover have "sole V rid s" using assms(3) unstarted_once [OF assms(4)] by (simp add: sole_def)
  ultimately have "once V rid (run_ops (sandbox_exec sv) xs s)" using assms(5) soleD(2) by blast
  with assms(6) show ?thesis unfolding once_def by blast
qed

text \<open>The container is started, then saving the state fails; the launch is repeated after a restart, the run is cleaned up
  with its container, and the launch is repeated again, beside a launch without a key.\<close>

theorem worker_started_at_most_once_witness:
  "let t = run_ops (sandbox_exec exampleService) (exampleOps @ [OpCleanup exampleCalls ''r1'', exampleLaunch exampleCalls, exampleDirect])
         exampleState
   in smallStarts (ss_docker t) ''a'' = 1 \<and>
      (\<forall>c. smallOwner (ss_docker t) c = Some (containerName ''r1'') \<and> 0 < smallStarts (ss_docker t) c \<longrightarrow> c = ''a'')"
proof -
  let ?xs = "exampleOps @ [OpCleanup exampleCalls ''r1'', exampleLaunch exampleCalls, exampleDirect]"
  let ?t = "run_ops (sandbox_exec exampleService) ?xs exampleState"
  have view: "dv_owner smallView = smallOwner" "dv_starts smallView = smallStarts" by (simp_all add: smallView_def)
  have tracked: "tracked smallView exampleState"
    by (simp add: tracked_def keyed_def exampleState_def newIntentRow_def intentNamed_def named_def restoredIntent_def Let_def
        exampleRun_def exampleMetadata_def restoredState_def isTerminalStatus_def emptyIntents_def)
  have unstarted: "unstarted smallView ''r1'' exampleState"
    by (simp add: unstarted_def started_def view exampleState_def smallOwner_def)
  have other: "\<forall>x \<in> set ?xs. \<not> keylessLaunch ''r1'' x"
    by (simp add: exampleOps_def exampleLaunch_def exampleDirect_def)
  have a: "started smallView ''r1'' (ss_docker ?t) ''a''" unfolding started_def view by code_simp
  from worker_started_at_most_once [OF example_ok tracked unstarted other a]
  show ?thesis unfolding Let_def started_def view by blast
qed

end
