(* ===== verification/Run_Finality.thy ===== *)
theory Run_Finality
  imports Launch_Once
begin

text \<open>
  The end of a run is final. \<open>settled\<close> says that the metadata file, the terminal result, the intent and the memory, if it
  has the run, agree on how the run ended; a finalization that answers no error brings this about, and every operation keeps
  it; the cleanup of the run takes the file and the result away. The steps of the operations are sorted by the run they write:
  \<open>settled\<close> is kept by each that writes another run.
\<close>

section \<open>A settled run\<close>

definition hasIntent :: "string \<Rightarrow> intent_store \<Rightarrow> bool" where
  "hasIntent rid t \<longleftrightarrow> (\<exists>r \<in> set (ln_rows t). it_runID (iw_intent r) = rid)"

definition intentEnded :: "string \<Rightarrow> run_metadata \<Rightarrow> intent_store \<Rightarrow> bool" where
  "intentEnded rid m t \<longleftrightarrow>
     (\<forall>r \<in> set (ln_rows t). it_runID (iw_intent r) = rid \<longrightarrow> it_state (iw_intent r) = IntentTerminal \<and> it_metadata (iw_intent r) = m)"

text \<open>\<open>gone\<close>: the run may have been cleaned up, which removes its file and its result, each as far as the removal comes.
  \<open>bound\<close>: the run has an intent, unlike one that was launched without a key.\<close>

definition settled :: "bool \<Rightarrow> bool \<Rightarrow> string \<Rightarrow> run_metadata \<Rightarrow> 'g sandbox_state \<Rightarrow> bool" where
  "settled gone bound rid m s \<longleftrightarrow>
     isTerminalStatus (rm_status m) \<and> rm_runID m = rid \<and> keyed (ss_runs s) \<and> keyed (ss_files s) \<and>
     (gget (ss_runs s) rid = None \<or> gget (ss_runs s) rid = Some m) \<and>
     (gget (ss_files s) rid = Some m \<or> gone \<and> gget (ss_files s) rid = None) \<and>
     (gget (ss_results s) rid = Some m \<or> gone \<and> gget (ss_results s) rid = None) \<and>
     (bound \<longrightarrow> hasIntent rid (ss_intents s)) \<and> intentEnded rid m (ss_intents s)"

lemma terminal_not_running: "isTerminalStatus st \<Longrightarrow> st \<noteq> ''running''"
  by (auto simp: isTerminalStatus_def)

section \<open>Steps that write another run\<close>

lemma settled_docker [simp]: "settled gone bound rid m (s\<lparr>ss_docker := g\<rparr>) = settled gone bound rid m s"
  by (simp add: settled_def)

lemma settled_caps [simp]: "settled gone bound rid m (s\<lparr>ss_caps := c\<rparr>) = settled gone bound rid m s"
  by (simp add: settled_def)

lemma settled_runs: "settled gone bound rid m s \<Longrightarrow> rm_runID n = k \<Longrightarrow> k \<noteq> rid \<or> n = m \<Longrightarrow> settled gone bound rid m (s\<lparr>ss_runs := gput k n (ss_runs s)\<rparr>)"
  by (auto simp: settled_def keyed_gput)

lemma settled_putRun: "settled gone bound rid m s \<Longrightarrow> rm_runID n \<noteq> rid \<or> n = m \<Longrightarrow> settled gone bound rid m (putRun n s)"
  unfolding putRun_def by (rule settled_runs) auto

lemma settled_files: "settled gone bound rid m s \<Longrightarrow> rm_runID n \<noteq> rid \<Longrightarrow> settled gone bound rid m (s\<lparr>ss_files := gput (rm_runID n) n (ss_files s)\<rparr>)"
  by (auto simp: settled_def keyed_gput)

lemma settled_results:
  "settled gone bound rid m s \<Longrightarrow> rm_runID n \<noteq> rid \<or> n = m \<Longrightarrow> settled gone bound rid m (s\<lparr>ss_results := gput (rm_runID n) n (ss_results s)\<rparr>)"
  by (auto simp: settled_def)

lemma settled_updateRun:
  assumes "settled gone bound rid m s" and "k \<noteq> rid" and "\<And>i. it_runID (h i) = it_runID i"
  shows "settled gone bound rid m (s\<lparr>ss_intents := updateRun k now h (ss_intents s)\<rparr>)"
  using assms by (auto simp: settled_def hasIntent_def intentEnded_def updateRun_def)

lemma settled_saveIntent:
  assumes "settled gone bound rid m s" and "it_runID i \<noteq> rid" and "saveIntent q n i s = (r, s1)"
  shows "settled gone bound rid m s1"
proof -
  have "s1 = s\<lparr>ss_intents := snd (SaveIntent (lcl_save q n) (lcl_now q) i (ss_intents s))\<rparr>"
    using assms(3) by (auto simp: saveIntent_def split: prod.splits sum.splits)
  moreover have "snd (SaveIntent (lcl_save q n) (lcl_now q) i (ss_intents s)) = ss_intents s \<or>
      snd (SaveIntent (lcl_save q n) (lcl_now q) i (ss_intents s)) =
        updateRun (it_runID i) (lcl_now q) (savedIntent i) (ss_intents s)"
    by (auto simp: SaveIntent_def Let_def)
  ultimately show ?thesis using settled_updateRun [OF assms(1,2), of "savedIntent i"] assms(1) by (auto simp: savedIntent_def)
qed

lemma settled_saveMetadata:
  assumes "settled gone bound rid m s" and "rm_runID n \<noteq> rid" and "saveMetadata q n s = (r, s1)"
  shows "settled gone bound rid m s1"
proof -
  have "s1 = s\<lparr>ss_intents := snd (SaveMetadata (lcl_saveMetadata q) (lcl_now q) n (ss_intents s))\<rparr>"
    using assms(3) by (auto simp: saveMetadata_def split: prod.splits sum.splits)
  then show ?thesis
    using settled_updateRun [OF assms(1,2), of "\<lambda>i. i\<lparr>it_state := metadataState n, it_metadata := n\<rparr>"] assms(1)
    by (auto simp: SaveMetadata_def split: if_splits)
qed

lemma settled_writeMetadataFile:
  "settled gone bound rid m s \<Longrightarrow> rm_runID n \<noteq> rid \<Longrightarrow> writeMetadataFile q n s = (r, s1) \<Longrightarrow> settled gone bound rid m s1"
  by (auto simp: writeMetadataFile_def settled_files Let_def split: option.splits if_splits)

lemma settled_writeMetadata:
  assumes s: "settled gone bound rid m s" and n: "rm_runID n \<noteq> rid" and run: "writeMetadata q n s = (r, t)"
  shows "settled gone bound rid m t"
proof -
  obtain r1 s1 where a: "writeMetadataFile q n s = (r1, s1)" by fastforce
  obtain r2 s2 where b: "saveMetadata q n s1 = (r2, s2)" by fastforce
  have s1: "settled gone bound rid m s1" using settled_writeMetadataFile [OF s n a] .
  have s2: "settled gone bound rid m s2" using settled_saveMetadata [OF s1 n b] .
  have "t \<in> {s1, s2, putRun n s2}" using run b by (auto simp: writeMetadata_def a split: sum.splits)
  then show ?thesis using s1 s2 settled_putRun [OF s2] n by auto
qed

lemma settled_persistTerminalResult:
  "settled gone bound rid m s \<Longrightarrow> rm_runID n \<noteq> rid \<or> n = m \<Longrightarrow> persistTerminalResult q n s = (r, s1) \<Longrightarrow> settled gone bound rid m s1"
  by (auto simp: persistTerminalResult_def settled_results Let_def split: option.splits if_splits)

lemma settled_revoke [simp]: "settled gone bound rid m (revokeLaunchCapability sv q handle s) = settled gone bound rid m s"
  by (simp add: revokeLaunchCapability_def)

lemma settled_mint: "settled gone bound rid m s \<Longrightarrow> mintLaunchCapability sv q t n s = (r, s1) \<Longrightarrow> settled gone bound rid m s1"
  by (auto simp: mintLaunchCapability_def split: if_splits sum.splits prod.splits)

text \<open>What a lookup finds is keyed by its run, and for the settled run it is its end.\<close>

lemma settled_lookupRun:
  assumes s: "settled gone bound rid m s" and run: "lookupRun k s = (r, t)"
  shows "settled gone bound rid m t" and "r = Inr n \<Longrightarrow> rm_runID n = k" and "r = Inr n \<Longrightarrow> k = rid \<Longrightarrow> n = m"
proof -
  have keys: "keyed (ss_files s)" "keyed (ss_runs s)" and ends: "gget (ss_files s) rid = Some m \<or> gget (ss_files s) rid = None"
    "gget (ss_runs s) rid = None \<or> gget (ss_runs s) rid = Some m" using s by (auto simp: settled_def)
  have stored: "rm_runID n = k \<and> (k = rid \<longrightarrow> n = m)" if "gget (ss_files s) k = Some n" for n
    using that ends(1) keyed_gget [OF keys(1) that] by auto
  have mem: "rm_runID n = k \<and> (k = rid \<longrightarrow> n = m)" if "gget (ss_runs s) k = Some n" for n
    using that ends(2) keyed_gget [OF keys(2) that] by auto
  show "r = Inr n \<Longrightarrow> rm_runID n = k" "r = Inr n \<Longrightarrow> k = rid \<Longrightarrow> n = m"
    using run stored mem by (auto simp: lookupRun_def split: if_splits option.splits)
  show "settled gone bound rid m t" using run s stored settled_runs [OF s] by (auto simp: lookupRun_def split: if_splits option.splits)
qed

text \<open>An update of the metadata of a run leaves its id.\<close>

definition sameRun :: "(run_metadata \<Rightarrow> 'g \<Rightarrow> run_metadata \<times> 'g) \<Rightarrow> bool" where
  "sameRun upd \<longleftrightarrow> (\<forall>n g. rm_runID (fst (upd n g)) = rm_runID n)"

lemma settled_finalizeTerminalRun:
  assumes s: "settled gone bound rid m s" and upd: "sameRun upd"
    and fin: "finalizeTerminalRun sv q k reason source upd s = ((err, n), t)"
  shows "settled gone bound rid m t" and "rm_runID n = k \<or> n = zeroMetadata" and "k = rid \<Longrightarrow> n = m \<or> n = zeroMetadata"
proof -
  obtain r s1 where look: "lookupRun k s = (r, s1)" by fastforce
  note L = settled_lookupRun [OF s look]
  have "settled gone bound rid m t \<and> (rm_runID n = k \<or> n = zeroMetadata) \<and> (k = rid \<longrightarrow> n = m \<or> n = zeroMetadata)"
  proof (cases r)
    case (Inl e)
    then show ?thesis using fin L(1) by (auto simp: finalizeTerminalRun_def look)
  next
    case (Inr m0)
    show ?thesis
    proof (cases "rm_status m0 \<noteq> ''running''")
      case True
      then have "t = s1" "n = m0" using fin Inr by (auto simp: finalizeTerminalRun_def look)
      then show ?thesis using L Inr by auto
    next
      case False
      then have other: "k \<noteq> rid" using L(3) [OF Inr] s terminal_not_running by (auto simp: settled_def)
      obtain m1 g where u: "upd m0 (ss_docker s1) = (m1, g)" by fastforce
      have id1: "rm_runID m1 = k" using upd u L(2) [OF Inr] unfolding sameRun_def by (metis fst_conv)
      define next' where "next' = terminalMetadata reason source m1"
      have id2: "rm_runID next' = k" using id1 by (simp add: next'_def terminalMetadata_def Let_def)
      let ?s = "s1\<lparr>ss_docker := g\<rparr>"
      obtain r2 s2 where p: "persistTerminalResult q next' ?s = (r2, s2)" by fastforce
      let ?s2 = "s2\<lparr>ss_runs := gput k next' (ss_runs s2)\<rparr>"
      obtain r3 s3 where w: "writeMetadataFile q next' ?s2 = (r3, s3)" by fastforce
      obtain r4 s4 where v: "saveMetadata q next' s3 = (r4, s4)" by fastforce
      have apart: "rm_runID next' \<noteq> rid" using id2 other by simp
      have k1: "settled gone bound rid m ?s" using L(1) by simp
      have k2: "settled gone bound rid m s2" using settled_persistTerminalResult [OF k1 _ p] apart by blast
      have "settled gone bound rid m ?s2" using settled_runs [OF k2 id2] other by simp
      then have k3: "settled gone bound rid m s3" using settled_writeMetadataFile [OF _ apart w] by blast
      have k4: "settled gone bound rid m s4" using settled_saveMetadata [OF k3 apart v] .
      have "t \<in> {?s, s2, s3, s4} \<and> n \<in> {m1, next'}"
        using fin p w v False unfolding finalizeTerminalRun_def look Inr prod.case sum.case Let_def u next'_def [symmetric]
        by (cases r2; cases r3; cases r4) (auto split: if_splits)
      with k1 k2 k3 k4 id1 id2 other show ?thesis by auto
    qed
  qed
  then show "settled gone bound rid m t" "rm_runID n = k \<or> n = zeroMetadata" "k = rid \<Longrightarrow> n = m \<or> n = zeroMetadata" by auto
qed

section \<open>Launches of other runs\<close>

lemma sameRun_exited [simp]: "sameRun (exitedUpdate q st)"
  by (auto simp: sameRun_def exitedUpdate_def finalizeExitedRun_def Let_def split: option.splits)

lemma zeroMetadata_apart: "rid \<noteq> [] \<Longrightarrow> rm_runID zeroMetadata \<noteq> rid"
  by (simp add: zeroMetadata_def)

lemma settled_commitRunningIntent:
  assumes s: "settled gone bound rid m s" and ids: "it_runID i \<noteq> rid" "rm_runID n \<noteq> rid" and run: "commitRunningIntent q i n s = (r, t)"
  shows "settled gone bound rid m t"
proof -
  let ?n = "n\<lparr>rm_status := ''running''\<rparr>"
  obtain r1 s1 where a: "saveIntent q 3 (i\<lparr>it_state := IntentRunning, it_metadata := ?n\<rparr>) s = (r1, s1)" by fastforce
  obtain r2 s2 where b: "writeMetadata q ?n s1 = (r2, s2)" by fastforce
  have s1: "settled gone bound rid m s1" using settled_saveIntent [OF s _ a] ids by simp
  have s2: "settled gone bound rid m s2" using settled_writeMetadata [OF s1 _ b] ids by simp
  have "t = s1 \<or> t = s2" using run b unfolding commitRunningIntent_def Let_def a by (auto split: sum.splits)
  with s1 s2 show ?thesis by auto
qed

lemma settled_commitExitedIntent:
  assumes s: "settled gone bound rid m s" and ids: "it_runID i \<noteq> rid" "rm_runID n \<noteq> rid" and run: "commitExitedIntent sv q i n st s = (r, t)"
  shows "settled gone bound rid m t"
proof -
  let ?n = "n\<lparr>rm_status := ''running''\<rparr>"
  obtain err f s1 where a: "finalizeTerminalRun sv q (rm_runID ?n) ''reconcile_exited'' ''exited'' (exitedUpdate q st)
      (putRun ?n s) = ((err, f), s1)" by (metis surj_pair)
  obtain r2 s2 where b: "saveIntent q 3 (i\<lparr>it_metadata := f, it_state := IntentTerminal\<rparr>) s1 = (r2, s2)" by fastforce
  have "settled gone bound rid m (putRun ?n s)" using settled_putRun [OF s] ids by simp
  then have s1: "settled gone bound rid m s1" using settled_finalizeTerminalRun(1) [OF _ sameRun_exited a] by blast
  have "settled gone bound rid m s2" using settled_saveIntent [OF s1 _ b] ids by simp
  moreover have "t = s2" using run unfolding commitExitedIntent_def Let_def a prod.case b
    by (auto split: option.splits sum.splits)
  ultimately show ?thesis by simp
qed

lemma settled_commitStartupFailureIntent:
  assumes s: "settled gone bound rid m s" and ids: "it_runID i \<noteq> rid" "rm_runID n \<noteq> rid"
    and run: "commitStartupFailureIntent q i n reason s = (r, t)"
  shows "settled gone bound rid m t"
proof -
  define n' where "n' = startupFailure q reason n"
  have id: "rm_runID n' \<noteq> rid" using ids by (simp add: n'_def startupFailure_def)
  obtain r1 s1 where a: "persistTerminalResult q n' s = (r1, s1)" by fastforce
  obtain r2 s2 where b: "writeMetadata q n' s1 = (r2, s2)" by fastforce
  obtain r3 s3 where c: "saveIntent q 3 (i\<lparr>it_metadata := n', it_state := IntentTerminal\<rparr>) s2 = (r3, s3)" by fastforce
  have s1: "settled gone bound rid m s1" using settled_persistTerminalResult [OF s _ a] id by blast
  have s2: "settled gone bound rid m s2" using settled_writeMetadata [OF s1 id b] .
  have s3: "settled gone bound rid m s3" using settled_saveIntent [OF s2 _ c] ids by simp
  have s4: "settled gone bound rid m (putRun n' s3)" using settled_putRun [OF s3] id by simp
  have "t \<in> {s1, s2, s3, putRun n' s3}"
    using run b c unfolding commitStartupFailureIntent_def Let_def n'_def [symmetric] a by (auto split: sum.splits)
  with s1 s2 s3 s4 show ?thesis by auto
qed

lemma settled_startIntent:
  assumes s: "settled gone bound rid m s" and ids: "it_runID i \<noteq> rid" "rm_runID n \<noteq> rid" and run: "startIntent sv q i n handle info s = (r, t)"
  shows "settled gone bound rid m t"
proof (cases "cinf_lifecycle info")
  case ContainerRunning
  then have "commitRunningIntent q i n s = (r, t)" using run by (simp add: startIntent_def)
  then show ?thesis using settled_commitRunningIntent [OF s ids] by blast
next
  case ContainerExited
  then obtain st where "commitExitedIntent sv q i n st s = (r, t)" using run by (simp add: startIntent_def)
  then show ?thesis using settled_commitExitedIntent [OF s ids] by blast
next
  case NeverStarted
  let ?i = "i\<lparr>it_state := IntentStartPending, it_metadata := n\<rparr>"
  have ids': "it_runID ?i \<noteq> rid" using ids by simp
  obtain r1 s1 where a: "saveIntent q 2 ?i s = (r1, s1)" by fastforce
  have s1: "settled gone bound rid m s1" using settled_saveIntent [OF s ids' a] .
  obtain ok g1 where b: "startContainer (sr_docker sv) (rm_containerID n) (ss_docker s1) = (ok, g1)" by fastforce
  obtain found g2 where c: "Inspect (sr_docker sv) (rm_containerID n) g1 = (found, g2)" by fastforce
  have s2: "settled gone bound rid m (s1\<lparr>ss_docker := g1\<rparr>)" "settled gone bound rid m (s1\<lparr>ss_docker := g2\<rparr>)"
    "settled gone bound rid m (revokeLaunchCapability sv q handle (s1\<lparr>ss_docker := g2\<rparr>))" using s1 by simp_all
  note steps = settled_commitRunningIntent [OF s2(1) ids' ids(2)] settled_commitRunningIntent [OF s2(2) ids' ids(2)]
    settled_commitExitedIntent [OF s2(2) ids' ids(2)] settled_commitStartupFailureIntent [OF s2(3) ids' ids(2)]
  show ?thesis
  proof (cases r1)
    case (Inl e)
    then show ?thesis using run NeverStarted s1 by (simp add: startIntent_def Let_def a)
  next
    case (Inr u)
    show ?thesis
    proof (cases ok)
      case True
      then have "commitRunningIntent q ?i n (s1\<lparr>ss_docker := g1\<rparr>) = (r, t)"
        using run NeverStarted Inr b by (simp add: startIntent_def Let_def a)
      then show ?thesis by (rule steps(1))
    next
      case False
      let ?s = "s1\<lparr>ss_docker := g2\<rparr>"
      let ?fail = "commitStartupFailureIntent q ?i n ''launch_start_failed'' (revokeLaunchCapability sv q handle ?s)"
      have fin: "(case found of None \<Rightarrow> ?fail
          | Some st \<Rightarrow> if cst_running st then commitRunningIntent q ?i n ?s
              else if \<not> isZero (cst_startedAt st) then commitExitedIntent sv q ?i n st ?s else ?fail) = (r, t)"
        using run NeverStarted Inr b c False by (simp add: startIntent_def Let_def a)
      show ?thesis using fin steps(2-) by (cases found) (auto split: if_splits)
    qed
  qed
qed

lemma settled_adoptIntent:
  assumes s: "settled gone bound rid m s" and ids: "it_runID i \<noteq> rid" "rm_runID n \<noteq> rid" and run: "adoptIntent sv q i n s = (r, t)"
  shows "settled gone bound rid m t"
proof -
  obtain found g where a: "Inspect (sr_docker sv) (rm_containerID n) (ss_docker s) = (found, g)" by fastforce
  have s1: "settled gone bound rid m (s\<lparr>ss_docker := g\<rparr>)" using s by simp
  show ?thesis using run s1 settled_startIntent [OF s1 ids] by (cases found) (auto simp: adoptIntent_def a)
qed

lemma settled_createIntent:
  assumes s: "settled gone bound rid m s" and ids: "it_runID i \<noteq> rid" "rm_runID n \<noteq> rid"
    and run: "createIntent sv q i n handle spec s = (r, t)"
  shows "settled gone bound rid m t"
proof -
  let ?i = "i\<lparr>it_state := IntentCreatePending\<rparr>"
  obtain r1 s1 where a: "saveIntent q 0 ?i s = (r1, s1)" by fastforce
  have s1: "settled gone bound rid m s1" using settled_saveIntent [OF s _ a] ids by simp
  obtain info g where b: "createContainer (sr_docker sv) (sr_fingerprint sv) spec (ss_docker s1) = (info, g)" by fastforce
  have s2: "settled gone bound rid m (s1\<lparr>ss_docker := g\<rparr>)"
    "settled gone bound rid m (revokeLaunchCapability sv q handle (s1\<lparr>ss_docker := g\<rparr>))"
    "settled gone bound rid m (revokeLaunchCapability sv q handle s1)" using s1 by simp_all
  show ?thesis
  proof (cases r1)
    case (Inl e)
    then show ?thesis using run s2(3) by (simp add: createIntent_def Let_def a)
  next
    case (Inr u)
    show ?thesis
    proof (cases info)
      case None
      then have "commitStartupFailureIntent q ?i n ''launch_create_failed''
          (revokeLaunchCapability sv q handle (s1\<lparr>ss_docker := g\<rparr>)) = (r, t)"
        using run Inr by (simp add: createIntent_def Let_def a b)
      from settled_commitStartupFailureIntent [OF s2(2) _ ids(2) this] ids(1) show ?thesis by simp
    next
      case (Some x)
      let ?n = "n\<lparr>rm_containerID := cinf_id x, rm_imageDigest := cinf_imageDigest x\<rparr>"
      let ?j = "?i\<lparr>it_metadata := ?n, it_state := IntentContainerMade\<rparr>"
      have ids': "it_runID ?j \<noteq> rid" "rm_runID ?n \<noteq> rid" using ids by simp_all
      obtain r2 s3 where c: "saveIntent q 1 ?j (s1\<lparr>ss_docker := g\<rparr>) = (r2, s3)" by fastforce
      have s3: "settled gone bound rid m s3" using settled_saveIntent [OF s2(1) ids'(1) c] .
      have "t = s3 \<or> startIntent sv q ?j ?n handle x s3 = (r, t)"
        using run Inr Some by (cases r2) (simp_all add: createIntent_def Let_def a b c [simplified])
      then show ?thesis using s3 settled_startIntent [OF s3 ids'] by blast
    qed
  qed
qed

lemma settled_resumeRunning:
  assumes s: "settled gone bound rid m s" and ids: "rm_runID n \<noteq> rid" and run: "resumeRunning sv q n s = (r, t)"
  shows "settled gone bound rid m t"
proof -
  have s1: "settled gone bound rid m (putRun n s)" using settled_putRun [OF s] ids by simp
  obtain found g where a: "Inspect (sr_docker sv) (rm_containerID n) (ss_docker (putRun n s)) = (found, g)" by fastforce
  let ?s = "(putRun n s)\<lparr>ss_docker := g\<rparr>"
  have s2: "settled gone bound rid m ?s" using s1 by simp
  obtain err f s3 where b: "finalizeTerminalRun sv q (rm_runID n) ''reconcile_exited'' ''exited''
      (exitedUpdate q (the found)) ?s = ((err, f), s3)" by (metis surj_pair)
  have s3: "settled gone bound rid m s3" using settled_finalizeTerminalRun(1) [OF s2 sameRun_exited b] .
  have "t \<in> {putRun n s, ?s, s3}"
    using run b by (cases found; cases err) (auto simp: resumeRunning_def Let_def a split: if_splits)
  with s1 s2 s3 show ?thesis by auto
qed

text \<open>An intent that was read: it is of its run, and of the settled run it is the end.\<close>

definition readIntent :: "string \<Rightarrow> run_metadata \<Rightarrow> launch_intent \<Rightarrow> bool" where
  "readIntent rid m i \<longleftrightarrow>
     rm_runID (it_metadata i) = it_runID i \<and> (it_runID i = rid \<longrightarrow> it_state i = IntentTerminal \<and> it_metadata i = m)"

lemma readIntent_row:
  assumes "settled gone bound rid m s" and "row \<in> set (ln_rows (ss_intents s))" and "decodeLaunchIntent (iw_intent row) = Inr i"
  shows "readIntent rid m i"
  using assms by (auto simp: readIntent_def settled_def intentEnded_def decodeLaunchIntent_def split: if_splits)

lemma readIntent_scan:
  assumes "settled gone bound rid m s" and "scanLaunchIntent b who profile digest (ss_intents s) = Inr (Some i)"
  shows "readIntent rid m i"
proof -
  obtain row where row: "find (\<lambda>r. intentKey (iw_intent r) = (who, profile, digest)) (ln_rows (ss_intents s)) = Some row"
    using assms(2) by (cases "find (\<lambda>r. intentKey (iw_intent r) = (who, profile, digest)) (ln_rows (ss_intents s))")
      (auto simp: scanLaunchIntent_def split: if_splits)
  then have "decodeLaunchIntent (iw_intent row) = Inr i"
    using assms(2) by (cases "decodeLaunchIntent (iw_intent row)") (auto simp: scanLaunchIntent_def split: if_splits)
  moreover have "row \<in> set (ln_rows (ss_intents s))" using row by (auto simp: find_Some_iff)
  ultimately show ?thesis using readIntent_row [OF assms(1)] by blast
qed

lemma settled_resumeLaunchIntent:
  assumes codex: "\<not> hasCodexWorkflow (sg_launchProfiles (sr_cfg sv))" and s: "settled gone bound rid m s" and i: "readIntent rid m i"
    and run: "resumeLaunchIntent sv q i recovering s = (r, u)"
  shows "settled gone bound rid m u"
proof -
  let ?m = "it_metadata i"
  let ?s = "s\<lparr>ss_files := gput (rm_runID ?m) ?m (ss_files s)\<rparr>"
  have plain: "\<not> (case gget (sg_launchProfiles (sr_cfg sv)) (it_profile i) of None \<Rightarrow> False | Some p \<Rightarrow> sp_codexWorkflow p \<noteq> None)"
    using codex by (fastforce simp: hasCodexWorkflow_def list_ex_iff dest: gget_SomeD split: option.splits)
  show ?thesis
  proof (cases "lp_configVersion (it_plan i) \<noteq> sg_configVersion (sr_cfg sv) \<or> isTerminalStatus (rm_status ?m) \<or>
      it_state i = IntentTerminal \<or> gget (sg_templates (sr_cfg sv)) (rm_template ?m) = None")
    case True
    then have "u = s" using run by (auto simp: resumeLaunchIntent_def Let_def plain split: if_splits)
    then show ?thesis using s by simp
  next
    case False
    then obtain t where t: "gget (sg_templates (sr_cfg sv)) (rm_template ?m) = Some t" by auto
    have ids: "it_runID i \<noteq> rid" "rm_runID ?m \<noteq> rid" using i False by (auto simp: readIntent_def)
    have s1: "settled gone bound rid m ?s" using settled_files [OF s ids(2)] .
    have run1: "(if it_state i = IntentRunning then resumeRunning sv q ?m s
        else if lcl_prepare q \<noteq> None then (Inl LaunchFiles, if lcl_prepare q = Some True then ?s else s)
        else if it_state i = IntentContainerMade \<or> it_state i = IntentStartPending then
          (case runtimeSpec (sr_cfg sv) ?m t [] of Inl e \<Rightarrow> (Inl e, ?s) | Inr spec \<Rightarrow> adoptIntent sv q i ?m ?s)
        else
          (case mintLaunchCapability sv q t ?m ?s of
             (Inl e, s2) \<Rightarrow> (Inl e, s2)
           | (Inr handle, s2) \<Rightarrow>
               (case runtimeSpec (sr_cfg sv) ?m t handle of
                  Inl e \<Rightarrow> (Inl e, revokeLaunchCapability sv q handle s2)
                | Inr spec \<Rightarrow> createIntent sv q i ?m handle spec s2))) = (r, u)"
      using run False t unfolding resumeLaunchIntent_def Let_def if_not_P [OF plain] by simp
    obtain mr s2 where mint: "mintLaunchCapability sv q t ?m ?s = (mr, s2)" by fastforce
    have s2: "settled gone bound rid m s2" using settled_mint [OF s1 mint] .
    show ?thesis
      using run1 s s1 s2 settled_resumeRunning [OF s ids(2)] settled_adoptIntent [OF s1 ids] settled_createIntent [OF s2 ids]
      unfolding mint by (auto split: if_splits sum.splits)
  qed
qed

definition endsAs :: "run_metadata \<Rightarrow> launch_intent \<Rightarrow> bool" where
  "endsAs m i \<longleftrightarrow> it_state i = IntentTerminal \<and> it_metadata i = m"

lemma settled_CreateIntent:
  assumes s: "settled gone bound rid m s" and run: "CreateIntent f now i n (ss_intents s) = (r, t)"
    and other: "bound \<or> it_runID i \<noteq> rid \<or> endsAs m i"
  shows "settled gone bound rid m (s\<lparr>ss_intents := t\<rparr>)" and "r = Inr (j, True) \<Longrightarrow> j = i \<and> (it_runID i \<noteq> rid \<or> endsAs m i)"
    and "r = Inr (j, False) \<Longrightarrow> readIntent rid m j"
proof -
  show "r = Inr (j, False) \<Longrightarrow> readIntent rid m j"
    using run readIntent_scan [OF s, of "f 4" "it_principal i" "it_profile i" "it_keyDigest i" j]
    by (auto simp: CreateIntent_def split: if_splits sum.splits option.splits)
  have new: "it_runID i \<noteq> rid \<or> endsAs m i" if free: "keysFree i (ss_intents s)"
    using free s other by (auto simp: settled_def hasIntent_def keysFree_def list_all_iff)
  have "settled gone bound rid m (s\<lparr>ss_intents := t\<rparr>) \<and> (r = Inr (j, True) \<longrightarrow> j = i \<and> (it_runID i \<noteq> rid \<or> endsAs m i))"
  proof (rule CreateIntent_cases [of f now i n "ss_intents s"])
    assume "snd (CreateIntent f now i n (ss_intents s)) = ss_intents s" "\<And>j. fst (CreateIntent f now i n (ss_intents s)) \<noteq> Inr (j, True)"
    then have "t = ss_intents s" "r \<noteq> Inr (j, True)" using run by (auto simp: prod_eq_iff)
    then show ?thesis using s by (simp add: settled_def)
  next
    assume "CreateIntent f now i n (ss_intents s) =
        (Inr (i, True), (ss_intents s)\<lparr>ln_rows := ln_rows (ss_intents s) @ [newIntentRow now i]\<rparr>)" and "keysFree i (ss_intents s)"
    then show ?thesis using run s new by (auto simp: settled_def hasIntent_def intentEnded_def newIntentRow_def endsAs_def)
  qed
  then show "settled gone bound rid m (s\<lparr>ss_intents := t\<rparr>)" "r = Inr (j, True) \<Longrightarrow> j = i \<and> (it_runID i \<noteq> rid \<or> endsAs m i)" by auto
qed

lemma settled_launchKeyed:
  assumes codex: "\<not> hasCodexWorkflow (sg_launchProfiles (sr_cfg sv))" and s: "settled gone bound rid m s"
    and other: "bound \<or> lcl_runID q \<noteq> Some rid" and run: "launchKeyed sv q who profile rawKey fp inp s = (r, u)"
  shows "settled gone bound rid m u"
proof -
  have resume: "settled gone bound rid m (snd (replayed b (resumeLaunchIntent sv q i False s')))"
    if "settled gone bound rid m s'" "readIntent rid m i" for b i s'
    using settled_resumeLaunchIntent [OF codex that prod.collapse [symmetric]] by (simp add: replayed_def)
  let ?digest = "sr_digestKey sv rawKey"
  show ?thesis
  proof (cases "Lookup (lcl_lookup q) who profile ?digest (ss_intents s)")
    case (Inl e)
    then show ?thesis using run s by (auto simp: launchKeyed_def Let_def)
  next
    case (Inr found)
    show ?thesis
    proof (cases found)
      case (Some i)
      then have "readIntent rid m i" using readIntent_scan [OF s] Inr by (simp add: Lookup_def)
      from resume [OF s this, of True] show ?thesis using run s Inr Some by (auto simp: launchKeyed_def Let_def split: if_splits)
    next
      case None
      show ?thesis
      proof (cases "selectLaunchTemplate (sr_regexps sv) (sr_cfg sv) (lcl_runID q) (lcl_release q) (sr_releases sv) inp")
        case (Inl e)
        then show ?thesis using run s Inr None by (auto simp: launchKeyed_def Let_def)
      next
        case sel: (Inr sel)
        define n where "n = profileMetadata (sr_cfg sv) (lcl_now q) who profile ?digest fp inp sel"
        define i where "i = \<lparr>it_principal = who, it_profile = profile, it_keyDigest = ?digest, it_fingerprint = fp,
            it_runID = sl_runID sel, it_state = IntentCreated,
            it_plan = \<lparr>lp_version = 1, lp_configVersion = sg_configVersion (sr_cfg sv), lp_request = inp,
                       lp_runtimeSeconds = truncSeconds (sl_limit sel), lp_metadata = n\<rparr>, it_metadata = n\<rparr>"
        define limit where
          "limit = (case gget (sg_launchProfiles (sr_cfg sv)) profile of None \<Rightarrow> 0 | Some p \<Rightarrow> sp_maxConcurrentRuns p)"
        obtain cr t where c: "CreateIntent (lcl_create q) (lcl_now q) i limit (ss_intents s) = (cr, t)" by fastforce
        have "bound \<or> it_runID i \<noteq> rid" using other selected_template(2) [OF sel] by (auto simp: i_def)
        then have new: "bound \<or> it_runID i \<noteq> rid \<or> endsAs m i" by blast
        note C = settled_CreateIntent [OF s c new]
        have run1: "(if \<not> validateTaskContract sv n then (Inl LaunchContract, s)
            else case (cr, t) of
              (Inl e, t) \<Rightarrow> (Inl (LaunchStore e), s\<lparr>ss_intents := t\<rparr>)
            | (Inr (persisted, created), t) \<Rightarrow>
                if \<not> created \<and> it_fingerprint persisted \<noteq> fp then (Inl LaunchKeyConflict, s\<lparr>ss_intents := t\<rparr>)
                else replayed (\<not> created)
                  (resumeLaunchIntent sv q (if created then i else persisted) False (s\<lparr>ss_intents := t\<rparr>))) = (r, u)"
          using run Inr None sel unfolding launchKeyed_def Let_def c [symmetric] i_def n_def limit_def by simp
        show ?thesis
        proof (cases cr)
          case (Inl e)
          then show ?thesis using run1 s C(1) by (auto split: if_splits)
        next
          case pc: (Inr pc)
          obtain j created where j: "pc = (j, created)" by fastforce
          have "rm_runID (it_metadata i) = it_runID i" by (simp add: i_def n_def profileMetadata_simps)
          then have "readIntent rid m (if created then i else j)"
            using C(2) [of j] C(3) [of j] pc j by (cases created) (auto simp: readIntent_def endsAs_def)
          from resume [OF C(1) this, of "\<not> created"] show ?thesis using run1 pc j s C(1) by (auto split: if_splits)
        qed
      qed
    qed
  qed
qed

text \<open>A launch without a key.\<close>

lemma settled_failLaunch:
  assumes s: "settled gone bound rid m s" and n: "rm_runID n \<noteq> rid" and run: "failLaunch sv q handle reason n cause s = (r, t)"
  shows "settled gone bound rid m t"
proof -
  define n' where "n' = startupFailure q reason n"
  have id: "rm_runID n' \<noteq> rid" using n by (simp add: n'_def startupFailure_def)
  have s0: "settled gone bound rid m (revokeLaunchCapability sv q handle s)" using s by simp
  obtain r1 s1 where a: "persistTerminalResult q n' (revokeLaunchCapability sv q handle s) = (r1, s1)" by fastforce
  obtain r2 s2 where b: "writeMetadata q n' s1 = (r2, s2)" by fastforce
  have s1: "settled gone bound rid m s1" using settled_persistTerminalResult [OF s0 _ a] id by blast
  have s2: "settled gone bound rid m s2" using settled_writeMetadata [OF s1 id b] .
  have "t \<in> {s1, s2}" using run b unfolding failLaunch_def Let_def n'_def [symmetric] a by (auto split: sum.splits)
  with s1 s2 show ?thesis by auto
qed

lemma settled_launchAgent:
  assumes s: "settled gone bound rid m s" and other: "lcl_runID q \<noteq> Some rid" and run: "launchAgent sv q who inp s = (r, u)"
  shows "settled gone bound rid m u"
proof (cases "selectLaunchTemplate (sr_regexps sv) (sr_cfg sv) (lcl_runID q) (lcl_release q) (sr_releases sv) inp")
  case (Inl e)
  then show ?thesis using run s by (simp add: launchAgent_def)
next
  case (Inr sel)
  define n where "n = directMetadata (lcl_now q) who inp sel"
  have n: "rm_runID n \<noteq> rid" using other selected_template(2) [OF Inr]
    by (simp add: n_def directMetadata_def applyResolvedRelease_def Let_def split: option.splits)
  obtain mr s1 where mint: "mintLaunchCapability sv q (sl_template sel) n s = (mr, s1)" by fastforce
  have s1: "settled gone bound rid m s1" using settled_mint [OF s mint] .
  show ?thesis
  proof (cases "profileBusy sv (la_profile inp) s \<or> \<not> validateTaskContract sv n \<or> lcl_prepare q \<noteq> None \<or> (\<exists>e. mr = Inl e)")
    case True
    then show ?thesis using run s s1 Inr by (auto simp: launchAgent_def Let_def n_def [symmetric] mint split: if_splits)
  next
    case False
    then obtain handle where handle: "mr = Inr handle" by (cases mr) auto
    show ?thesis
    proof (cases "runtimeSpec (sr_cfg sv) n (sl_template sel) handle")
      case (Inl e)
      then show ?thesis using run Inr False handle s1 by (auto simp: launchAgent_def Let_def n_def [symmetric] mint)
    next
      case spec: (Inr spec)
      obtain info g1 where c: "createContainer (sr_docker sv) (sr_fingerprint sv) spec (ss_docker s1) = (info, g1)" by fastforce
      have s2: "settled gone bound rid m (s1\<lparr>ss_docker := g\<rparr>)" for g using s1 by simp
      show ?thesis
      proof (cases info)
        case None
        then have "failLaunch sv q handle ''launch_create_failed'' n LaunchCreate (s1\<lparr>ss_docker := g1\<rparr>) = (r, u)"
          using run Inr False handle spec c by (simp add: launchAgent_def Let_def n_def [symmetric] mint)
        then show ?thesis using settled_failLaunch [OF s2 n] by blast
      next
        case (Some x)
        let ?m = "n\<lparr>rm_containerID := cinf_id x, rm_imageDigest := cinf_imageDigest x\<rparr>"
        let ?n = "?m\<lparr>rm_status := ''running''\<rparr>"
        have ids: "rm_runID ?m \<noteq> rid" "rm_runID ?n \<noteq> rid" using n by simp_all
        obtain ok g2 where d: "startContainer (sr_docker sv) (cinf_id x) g1 = (ok, g2)" by fastforce
        obtain r3 s3 where w: "writeMetadata q ?n (s1\<lparr>ss_docker := g2\<rparr>) = (r3, s3)" by fastforce
        have s3: "settled gone bound rid m s3" using settled_writeMetadata [OF s2 ids(2) w] .
        have "failLaunch sv q handle ''launch_start_failed'' ?m LaunchStart (s1\<lparr>ss_docker := g2\<rparr>) = (r, u) \<or> u = s3 \<or> u = putRun ?n s3"
          using run Inr False handle spec c Some d w
          by (cases ok; cases r3) (simp_all add: launchAgent_def Let_def n_def [symmetric] mint)
        then show ?thesis using settled_failLaunch [OF s2 ids(1)] s3 settled_putRun [OF s3] ids(2) by blast
      qed
    qed
  qed
qed

section \<open>The other operations\<close>

lemma settled_reconcileAll:
  assumes codex: "\<not> hasCodexWorkflow (sg_launchProfiles (sr_cfg sv))"
    and "settled gone bound rid m s" and "\<forall>i \<in> set is. readIntent rid m i"
  shows "settled gone bound rid m (snd (reconcileAll sv qs n is s))"
  using assms(2,3)
proof (induction "is" arbitrary: n s)
  case (Cons i "is")
  obtain r s1 where a: "resumeLaunchIntent sv (qs n) i True s = (r, s1)" by fastforce
  have "settled gone bound rid m s1" using settled_resumeLaunchIntent [OF codex Cons.prems(1) _ a] Cons.prems(2) by simp
  then show ?case using Cons a by (auto split: sum.splits)
qed simp

lemma readIntent_nonterminal:
  assumes "settled gone bound rid m s" and "Nonterminal f (ss_intents s) = Inr is" and "i \<in> set is"
  shows "readIntent rid m i"
proof -
  have d: "decodeAll (map iw_intent (sort_key (\<lambda>r. formatTime (iw_createdAt r))
      (filter (\<lambda>r. activeIntent (iw_intent r)) (ln_rows (ss_intents s))))) = Inr is"
    using assms(2) by (simp add: Nonterminal_def split: if_splits)
  obtain row where "row \<in> set (ln_rows (ss_intents s))" "i = iw_intent row"
    using assms(3) unfolding decodeAll_Inr [OF d] by auto
  moreover have "decodeLaunchIntent i = Inr i" using decodeAll_wf [OF d assms(3)] .
  ultimately show ?thesis using readIntent_row [OF assms(1)] by blast
qed

lemma sameRun_missing [simp]: "sameRun (missingUpdate q)"
  by (simp add: sameRun_def missingUpdate_def)

lemma sameRun_markTimedOut [simp]: "sameRun (markTimedOut sv q)"
proof -
  have ex: "rm_runID (finalizeExitedRun q st n) = rm_runID n" for st n
    by (simp add: finalizeExitedRun_def Let_def split: option.splits)
  have to: "rm_runID (timedOutMetadata q n) = rm_runID n" for n
    by (simp add: timedOutMetadata_def Let_def split: option.splits)
  show ?thesis
    by (auto simp: sameRun_def markTimedOut_def ex to stopFailed_def split: prod.splits option.splits stop_answer.splits)
qed

lemma sameRun_stopUpdate [simp]: "sameRun (stopUpdate sv q)"
  by (auto simp: sameRun_def stopUpdate_def stoppedMetadata_def Let_def split: prod.splits option.splits)

lemma settled_finalStatus:
  assumes "settled gone bound rid m s" and "sameRun upd"
  shows "settled gone bound rid m (snd (finalStatus (finalizeTerminalRun sv q k reason source upd s)))"
    and "settled gone bound rid m (snd (finalizeTerminalRun sv q k reason source upd s))"
proof -
  obtain err n t where f: "finalizeTerminalRun sv q k reason source upd s = ((err, n), t)" by (metis surj_pair)
  show "settled gone bound rid m (snd (finalStatus (finalizeTerminalRun sv q k reason source upd s)))"
    "settled gone bound rid m (snd (finalizeTerminalRun sv q k reason source upd s))"
    using settled_finalizeTerminalRun(1) [OF assms f] by (auto simp: f finalStatus_def split: option.splits)
qed

lemma settled_GetAgentStatus:
  assumes s: "settled gone bound rid m s"
  shows "settled gone bound rid m (snd (GetAgentStatus sv q k s))"
proof -
  obtain r s1 where a: "lookupRun k s = (r, s1)" by fastforce
  have s1: "settled gone bound rid m (s1\<lparr>ss_docker := g\<rparr>)" for g using settled_lookupRun(1) [OF s a] by simp
  show ?thesis
  proof (cases r)
    case (Inl e)
    then show ?thesis using settled_lookupRun(1) [OF s a] by (simp add: GetAgentStatus_def a)
  next
    case (Inr n)
    obtain found g where b: "Inspect (sr_docker sv) (rm_containerID n) (ss_docker s1) = (found, g)" by fastforce
    show ?thesis
      using settled_lookupRun(1) [OF s a] settled_finalStatus(1) [OF s1 sameRun_exited]
        settled_finalStatus(1) [OF s1 sameRun_markTimedOut]
      by (simp add: GetAgentStatus_def a Inr b split: option.splits)
  qed
qed

lemma settled_StopAgent:
  assumes s: "settled gone bound rid m s"
  shows "settled gone bound rid m (snd (StopAgent sv q k s))"
proof -
  obtain r s1 where a: "lookupRun k s = (r, s1)" by fastforce
  have s1: "settled gone bound rid m s1" using settled_lookupRun(1) [OF s a] .
  obtain err f t where b: "finalizeTerminalRun sv q (rm_runID (projr r)) ''manual_stop'' ''manual_stop'' (stopUpdate sv q) s1 =
      ((err, f), t)" by (metis surj_pair)
  have "settled gone bound rid m t" using settled_finalizeTerminalRun(1) [OF s1 sameRun_stopUpdate b] .
  then show ?thesis using s1 b by (cases r) (auto simp: StopAgent_def a Let_def split: option.splits)
qed

lemma settled_watchTimeout:
  assumes s: "settled gone bound rid m s"
  shows "settled gone bound rid m (watchTimeout sv q k deadline s)"
proof -
  obtain r s1 where a: "lookupRun k s = (r, s1)" by fastforce
  have s1: "settled gone bound rid m s1" using settled_lookupRun(1) [OF s a] .
  then show ?thesis using settled_finalStatus(2) [OF s1 sameRun_markTimedOut]
    by (simp add: watchTimeout_def a split: sum.splits)
qed

lemma settled_watchExit:
  assumes s: "settled gone bound rid m s"
  shows "settled gone bound rid m (watchExit sv q k cid s)"
proof -
  obtain w g1 where a: "WaitExit (sr_docker sv) cid (ss_docker s) = (w, g1)" by fastforce
  obtain found g2 where b: "Inspect (sr_docker sv) cid g1 = (found, g2)" by fastforce
  have s1: "settled gone bound rid m (s\<lparr>ss_docker := g\<rparr>)" for g using s by simp
  obtain r s3 where c: "lookupRun k (s\<lparr>ss_docker := g2\<rparr>) = (r, s3)" by fastforce
  show ?thesis
    using settled_finalStatus(2) [OF s1 sameRun_exited] settled_lookupRun(1) [OF s1 c]
    by (simp add: watchExit_def a b c Let_def split: option.splits)
qed

lemma settled_removeRunDir:
  "settled gone bound rid m s \<Longrightarrow> k \<noteq> rid \<or> gone \<Longrightarrow> settled gone bound rid m (removeRunDir parts k s)"
  by (auto simp: settled_def removeRunDir_def keyed_gdel)

lemma settled_CleanupRun:
  assumes s: "settled gone bound rid m s" and k: "k \<noteq> rid \<or> gone"
  shows "settled gone bound rid m (snd (CleanupRun sv q k s))"
proof -
  obtain r s1 where a: "lookupRun k s = (r, s1)" by fastforce
  note L = settled_lookupRun [OF s a]
  show ?thesis
  proof (cases r)
    case (Inl e)
    then show ?thesis using L(1) by (simp add: CleanupRun_def a)
  next
    case (Inr n)
    obtain ok g where b: "removeContainers (sr_docker sv) []
        (if rm_provenance n \<noteq> None then sr_containers sv n else [rm_containerID n]) (ss_docker s1) = (ok, g)" by fastforce
    have n: "rm_runID n \<noteq> rid \<or> gone" using L(2) [OF Inr] k by simp
    have dir: "settled gone bound rid m (removeRunDir parts (rm_runID n) (s1\<lparr>ss_docker := g\<rparr>))" for parts
      by (rule settled_removeRunDir [OF _ n]) (use L(1) in simp)
    have mem: "settled gone bound rid m (t\<lparr>ss_runs := gdel (rm_runID n) (ss_runs t)\<rparr>)" if t: "settled gone bound rid m t" for t
      using t by (auto simp: settled_def keyed_gdel)
    show ?thesis using L(1) dir mem [OF dir]
      unfolding CleanupRun_def a Inr prod.case sum.case b by (simp add: Let_def split: bool.splits option.splits)
  qed
qed

lemma settled_reconcileContainer:
  assumes s: "settled gone bound rid m s" and n: "rm_runID n \<noteq> rid \<or> n = m" and run: "reconcileContainer sv q n s = ((err, f), t)"
  shows "settled gone bound rid m t" and "rid \<noteq> [] \<Longrightarrow> rm_runID f \<noteq> rid \<or> f = m"
proof -
  obtain found g where b: "Inspect (sr_docker sv) (rm_containerID n) (ss_docker s) = (found, g)" by fastforce
  let ?s = "s\<lparr>ss_docker := g\<rparr>"
  have s1: "settled gone bound rid m ?s" using s by simp
  have "settled gone bound rid m t \<and> (rid \<noteq> [] \<longrightarrow> rm_runID f \<noteq> rid \<or> f = m)"
  proof (cases "rm_provenance n = None \<and> rm_containerID n \<noteq> [] \<and> rm_status n = ''running''")
    case True
    have fin: "settled gone bound rid m t \<and> (rid \<noteq> [] \<longrightarrow> rm_runID f \<noteq> rid \<or> f = m)"
      if "sameRun upd" "finalizeTerminalRun sv q (rm_runID n) reason source upd ?s = ((err, f), t)" for upd reason source
    proof -
      note F = settled_finalizeTerminalRun [OF s1 that]
      show ?thesis using F zeroMetadata_apart [of rid] n by (cases "rm_runID n = rid") auto
    qed
    show ?thesis
      using run s1 n fin [OF sameRun_missing] fin [OF sameRun_exited] fin [OF sameRun_markTimedOut]
      unfolding reconcileContainer_def if_P [OF True] b prod.case
      by (cases found) (auto split: if_splits)
  next
    case False
    then show ?thesis using run s n by (auto simp: reconcileContainer_def)
  qed
  then show "settled gone bound rid m t" "rid \<noteq> [] \<Longrightarrow> rm_runID f \<noteq> rid \<or> f = m" by auto
qed

lemma settled_RestoreMetadata:
  assumes s: "settled gone bound rid m s" and n: "rm_runID n \<noteq> rid \<or> n = m"
    and run: "RestoreMetadata f now n (ss_intents s) = (r, t)"
  shows "settled gone bound rid m (s\<lparr>ss_intents := t\<rparr>)"
proof -
  obtain r1 t1 where c: "CreateIntent f now (restoredIntent n) 0 (ss_intents s) = (r1, t1)" by fastforce
  have new: "bound \<or> it_runID (restoredIntent n) \<noteq> rid \<or> endsAs m (restoredIntent n)"
    using n s by (auto simp: restoredIntent_def restoredState_def endsAs_def settled_def Let_def)
  have "t = ss_intents s \<or> t = t1" using snd_RestoreMetadata [of f now n "ss_intents s"] run c by simp
  then show ?thesis using s settled_CreateIntent(1) [OF s c new] by auto
qed

lemma settled_backfillResult:
  assumes s: "settled gone bound rid m s" and n: "rm_runID n \<noteq> rid \<or> n = m" and run: "backfillResult q n s = (r, t)"
  shows "settled gone bound rid m t"
  using s run settled_persistTerminalResult [OF s n] by (auto simp: backfillResult_def split: if_splits)

lemma settled_reconcileRun:
  assumes s: "settled gone bound rid m s" and rid: "rid \<noteq> []" and n: "rm_runID n \<noteq> rid \<or> n = m"
  shows "settled gone bound rid m (snd (reconcileRun sv q n s))"
proof -
  obtain r t where a: "RestoreMetadata (lcl_create q) (lcl_now q) n (ss_intents s) = (r, t)" by fastforce
  have s1: "settled gone bound rid m (s\<lparr>ss_intents := t\<rparr>)" using settled_RestoreMetadata [OF s n a] .
  obtain err f s2 where b: "reconcileContainer sv q n (s\<lparr>ss_intents := t\<rparr>) = ((err, f), s2)" by (metis surj_pair)
  have s2: "settled gone bound rid m s2" using settled_reconcileContainer(1) [OF s1 n b] .
  have f: "rm_runID f \<noteq> rid \<or> f = m" using settled_reconcileContainer(2) [OF s1 n b rid] .
  obtain r3 s3 where c: "backfillResult q f (putRun f s2) = (r3, s3)" by fastforce
  have s3: "settled gone bound rid m s3" using settled_backfillResult [OF settled_putRun [OF s2 f] f c] .
  show ?thesis
  proof (cases "rm_provenance n \<noteq> None \<and> sr_issuer sv \<and> lcl_cleanup q")
    case True
    then show ?thesis using s by (simp add: reconcileRun_def)
  next
    case False
    show ?thesis
      unfolding reconcileRun_def if_not_P [OF False] a prod.case b
      using s1 s2 s3 by (auto simp: c split: sum.splits option.splits)
  qed
qed

lemma settled_reconcileRuns:
  assumes "settled gone bound rid m s" and rid: "rid \<noteq> []"
  shows "settled gone bound rid m (snd (reconcileRuns sv qs n ks s))"
  using assms(1)
proof (induction ks arbitrary: n s)
  case (Cons k ks)
  show ?case
  proof (cases "if lcl_unreadable (qs n) then None else gget (ss_files s) k")
    case None
    then show ?thesis using Cons by simp
  next
    case (Some f)
    then have f: "gget (ss_files s) k = Some f" by (auto split: if_splits)
    have files: "keyed (ss_files s)" "gget (ss_files s) rid = Some m \<or> gget (ss_files s) rid = None"
      using Cons.prems by (auto simp: settled_def)
    have "rm_runID f \<noteq> rid \<or> f = m" using keyed_gget [OF files(1) f] f files(2) by auto
    from settled_reconcileRun [OF Cons.prems rid this]
    have r: "settled gone bound rid m (snd (reconcileRun sv (qs n) f s))" .
    show ?thesis using r Cons.IH Some by (auto split: sum.splits prod.splits)
  qed
qed simp

lemma settled_Reconcile:
  assumes codex: "\<not> hasCodexWorkflow (sg_launchProfiles (sr_cfg sv))" and s: "settled gone bound rid m s" and rid: "rid \<noteq> []"
  shows "settled gone bound rid m (snd (reconcileService sv dir qs qs' f s))"
proof -
  obtain r s1 where a: "reconcileRuns sv qs 0 (sort (map fst (ss_files s))) s = (r, s1)" by fastforce
  have s1: "settled gone bound rid m s1" using settled_reconcileRuns [OF s rid] a by (metis snd_conv)
  have ids: "\<forall>i \<in> set is. readIntent rid m i" if "Nonterminal f (ss_intents s1) = Inr is" for "is"
    using readIntent_nonterminal [OF s1 that] by blast
  have "settled gone bound rid m (snd (reconcileLaunchIntents sv qs' f s1))"
    using s1 settled_reconcileAll [OF codex s1 ids] by (auto simp: reconcileLaunchIntents_def split: sum.splits)
  then show ?thesis using s s1 by (auto simp: reconcileService_def a split: sum.splits)
qed

text \<open>The cleanup of a run, and a launch that takes its id: without a key, or when the run has no intent that says whose it is.\<close>

fun cleans :: "string \<Rightarrow> sandbox_op \<Rightarrow> bool" where
  "cleans rid (OpCleanup q k) \<longleftrightarrow> k = rid"
| "cleans rid _ \<longleftrightarrow> False"

fun takesID :: "bool \<Rightarrow> string \<Rightarrow> sandbox_op \<Rightarrow> bool" where
  "takesID bound rid (OpLaunch q who profile rawKey fp inp) \<longleftrightarrow> lcl_runID q = Some rid \<and> (rawKey = [] \<or> \<not> bound)"
| "takesID bound rid _ \<longleftrightarrow> False"

lemma settled_exec:
  assumes codex: "\<not> hasCodexWorkflow (sg_launchProfiles (sr_cfg sv))" and rid: "rid \<noteq> []" and s: "settled gone bound rid m s"
    and x: "gone \<or> \<not> cleans rid x" "\<not> takesID bound rid x"
  shows "settled gone bound rid m (snd (sandbox_exec sv x s))"
proof (cases x)
  case (OpLaunch q who profile rawKey fp inp)
  then show ?thesis
    using settled_launchKeyed [OF codex s _ prod.collapse [symmetric], of q] settled_launchAgent [OF s _ prod.collapse [symmetric], of q] x(2)
    by (auto simp: split_beta LaunchProfile_def)
next
  case (OpCleanup q k)
  then show ?thesis using settled_CleanupRun [OF s, of k] x(1) by (auto simp: split_beta)
next
  case OpRestart
  then show ?thesis using s by (simp add: settled_def keyed_def)
qed (simp_all add: split_beta settled_GetAgentStatus [OF s] settled_StopAgent [OF s] settled_watchTimeout [OF s]
    settled_watchExit [OF s] settled_Reconcile [OF codex s rid])

lemma settled_run:
  assumes codex: "\<not> hasCodexWorkflow (sg_launchProfiles (sr_cfg sv))" and rid: "rid \<noteq> []" and "settled gone bound rid m s"
    and "\<forall>x \<in> set xs. gone \<or> \<not> cleans rid x" and "\<forall>x \<in> set xs. \<not> takesID bound rid x"
  shows "settled gone bound rid m (run_ops (sandbox_exec sv) xs s)"
  using assms(3-5)
proof (induction xs arbitrary: s)
  case (Cons x xs)
  then show ?case using settled_exec [OF codex rid, of gone bound m s x] by auto
qed simp

section \<open>Settling\<close>

lemma hasIntent_updateRun:
  assumes "\<And>i. it_runID (h i) = it_runID i"
  shows "hasIntent rid (updateRun k now h t) = hasIntent rid t"
proof -
  let ?f = "\<lambda>r. if it_runID (iw_intent r) = k then r\<lparr>iw_intent := h (iw_intent r), iw_updatedAt := now\<rparr> else r"
  have same: "it_runID (iw_intent (?f r)) = it_runID (iw_intent r)" for r by (simp add: assms)
  have "hasIntent rid (updateRun k now h t) = (\<exists>r \<in> set (ln_rows t). it_runID (iw_intent (?f r)) = rid)"
    unfolding hasIntent_def rows_updateRun by (simp only: set_map bex_simps)
  then show ?thesis unfolding same hasIntent_def .
qed

lemma intentEnded_updateRun:
  "intentEnded rid m (updateRun rid now (\<lambda>i. i\<lparr>it_state := IntentTerminal, it_metadata := m\<rparr>) t)"
  unfolding intentEnded_def rows_updateRun by (simp only: set_map ball_simps) simp

text \<open>A finalization of a running run that answers no error settles it.\<close>

lemma finalization_settles:
  assumes keyed: "keyed (ss_runs s)" "keyed (ss_files s)" and intent: "bound \<longrightarrow> hasIntent rid (ss_intents s)"
    and running: "lookupRun rid s = (Inr n, s0)" "rm_status n = ''running''" and upd: "sameRun upd"
    and fin: "finalizeTerminalRun sv q rid reason source upd s = ((None, m), t)" and ended: "isTerminalStatus (rm_status m)"
  shows "settled gone bound rid m t"
proof -
  have s0: "keyed (ss_runs s0)" "keyed (ss_files s0)" "ss_intents s0 = ss_intents s" and n: "rm_runID n = rid"
  proof -
    have stored: "gget (ss_files s) rid = Some x \<Longrightarrow> rm_runID x = rid" for x using keyed_gget keyed(2) .
    show "rm_runID n = rid" using running(1) keyed_gget [OF keyed(1), of rid n] stored
      by (auto simp: lookupRun_def split: if_splits option.splits)
    show "keyed (ss_files s0)" "ss_intents s0 = ss_intents s"
      using running(1) keyed by (auto simp: lookupRun_def split: if_splits option.splits)
    show "keyed (ss_runs s0)" using running(1) keyed keyed_gput [OF keyed(1), of n] stored
      by (auto simp: lookupRun_def split: if_splits option.splits)
  qed
  obtain m1 g where u: "upd n (ss_docker s0) = (m1, g)" by fastforce
  have id1: "rm_runID m1 = rid" using upd u n unfolding sameRun_def by (metis fst_conv)
  have st1: "rm_status m1 \<noteq> ''running''"
  proof
    assume "rm_status m1 = ''running''"
    then have "m = m1" using fin running by (simp add: finalizeTerminalRun_def u)
    then show False using ended terminal_not_running [of "rm_status m1"] \<open>rm_status m1 = ''running''\<close> by simp
  qed
  define next' where "next' = terminalMetadata reason source m1"
  have id2: "rm_runID next' = rid" using id1 by (simp add: next'_def terminalMetadata_def Let_def)
  let ?s = "s0\<lparr>ss_docker := g\<rparr>"
  obtain r2 s2 where p: "persistTerminalResult q next' ?s = (r2, s2)" by fastforce
  let ?s2 = "s2\<lparr>ss_runs := gput rid next' (ss_runs s2)\<rparr>"
  obtain r3 s3 where w: "writeMetadataFile q next' ?s2 = (r3, s3)" by fastforce
  obtain r4 s4 where v: "saveMetadata q next' s3 = (r4, s4)" by fastforce
  have steps: "m = next' \<and> t = s4 \<and> r2 = Inr () \<and> r3 = Inr () \<and> r4 = Inr ()"
    using fin p w v running(2) st1
    unfolding finalizeTerminalRun_def running(1) prod.case sum.case Let_def u next'_def [symmetric]
    by (cases r2; cases r3; cases r4) (auto split: if_splits)
  have s2: "s2 = ?s\<lparr>ss_results := gput rid next' (ss_results ?s)\<rparr>"
    using p steps id2 by (auto simp: persistTerminalResult_def Let_def split: option.splits)
  have s3: "s3 = ?s2\<lparr>ss_files := gput rid next' (ss_files ?s2)\<rparr>"
    using w steps id2 by (auto simp: writeMetadataFile_def Let_def split: option.splits)
  have s4: "s4 = s3\<lparr>ss_intents := updateRun rid (lcl_now q)
      (\<lambda>i. i\<lparr>it_state := metadataState next', it_metadata := next'\<rparr>) (ss_intents s3)\<rparr>"
    using v steps id2 by (auto simp: saveMetadata_def SaveMetadata_def split: if_splits)
  have ending: "metadataState next' = IntentTerminal" using ended steps by (simp add: metadataState_def)
  have k: "keyed (gput rid next' (ss_runs s0))" "keyed (gput rid next' (ss_files s0))"
    using keyed_gput [OF s0(1), of next'] keyed_gput [OF s0(2), of next'] id2 by simp_all
  have i4: "ss_intents s4 = updateRun rid (lcl_now q) (\<lambda>i. i\<lparr>it_state := IntentTerminal, it_metadata := next'\<rparr>) (ss_intents s)"
    using s4 s3 s2 s0(3) ending by simp
  have "bound \<longrightarrow> hasIntent rid (ss_intents s4)" "intentEnded rid next' (ss_intents s4)"
    unfolding i4 using intent hasIntent_updateRun intentEnded_updateRun by simp_all
  then show ?thesis using steps s2 s3 s4 k id2 ended by (simp add: settled_def)
qed

text \<open>What a caller is told of a settled run.\<close>

lemma settled_status:
  assumes s: "settled gone bound rid m s" and safe: "safeRunID rid" and "rm_status m \<noteq> ''running''"
  shows "case fst (GetAgentStatus sv q rid s) of Inr out \<Rightarrow> out = statusOutput m | Inl e \<Rightarrow> gone"
proof -
  obtain r t where look: "lookupRun rid s = (r, t)" by fastforce
  have "r = Inr m \<or> (\<exists>e. r = Inl e) \<and> gone"
    using s safe look by (auto simp: settled_def lookupRun_def split: option.splits)
  then show ?thesis using assms(3) by (auto simp: GetAgentStatus_def look)
qed

section \<open>Properties\<close>


definition launchedState :: "small_docker sandbox_state" where
  "launchedState = snd (sandbox_exec exampleService (exampleLaunch exampleCalls) exampleState)"

definition stoppedRun :: "(launch_error option \<times> run_metadata) \<times> small_docker sandbox_state" where
  "stoppedRun = finalizeTerminalRun exampleService exampleCalls ''r1'' ''manual_stop'' ''manual_stop''
     (stopUpdate exampleService exampleCalls) launchedState"


text \<open>What a crash between the terminal result and the metadata file leads to: a run that was stopped, and whose result says
  so, is ended again when the service starts, and the result then says that it completed.\<close>

lemma result_of_a_stopped_run_is_rewritten:
  "(let s1 = snd (StopAgent exampleService (exampleCalls\<lparr>lcl_file := Some False\<rparr>) ''r1'' launchedState);
        s2 = snd (sandbox_exec exampleService OpRestart s1);
        s3 = watchExit exampleService exampleCalls ''r1'' ''a'' s2
    in map_option rm_status (gget (ss_results s1) ''r1'') = Some ''stopped'' \<and>
       map_option rm_status (gget (ss_results s3) ''r1'') \<noteq> Some ''stopped'')"
  by code_simp

text \<open>What an inspection that fails leads to when the service starts: a run whose container still runs is ended as failed, since
  any failure is taken for a container that is missing; nothing stops the container.\<close>

lemma failed_inspection_ends_a_running_run:
  "case gget (ss_files launchedState) ''r1'' of
     None \<Rightarrow> False
   | Some m \<Rightarrow>
       (let s1 = snd (reconcileRun (exampleService\<lparr>sr_docker := smallDocker\<lparr>dk_inspect := \<lambda>key g. (None, g)\<rparr>\<rparr>) exampleCalls m
                   (snd (sandbox_exec exampleService OpRestart launchedState)))
        in map_option rm_status (gget (ss_runs s1) ''r1'') = Some ''failed'' \<and>
           snd (ss_docker s1) = snd (ss_docker launchedState))"
  by code_simp

end
