(* ===== verification/Direct_Launch.thy ===== *)
theory Direct_Launch
  imports Launch_Once
begin

text \<open>
  The launch without an idempotency key (\<open>launchAgent\<close>): what is left of one that fails.
\<close>

lemma caps_writeMetadata: "writeMetadata q n s = (r, t) \<Longrightarrow> ss_caps t = ss_caps s"
  unfolding writeMetadata_def writeMetadataFile_def saveMetadata_def putRun_def Let_def
  by (cases "lcl_file q"; cases "SaveMetadata (lcl_saveMetadata q) (lcl_now q) n (ss_intents s)")
    (auto split: prod.splits sum.splits if_splits)

lemma caps_persistTerminalResult: "persistTerminalResult q n s = (r, t) \<Longrightarrow> ss_caps t = ss_caps s"
  by (auto simp: persistTerminalResult_def Let_def split: option.splits if_splits)

lemma caps_failLaunch:
  assumes "failLaunch sv q handle reason n cause s = (r, t)"
  shows "ss_caps t = ss_caps (revokeLaunchCapability sv q handle s)"
proof -
  let ?s = "revokeLaunchCapability sv q handle s"
  obtain r1 s1 where a: "persistTerminalResult q (startupFailure q reason n) ?s = (r1, s1)" by fastforce
  obtain r2 s2 where b: "writeMetadata q (startupFailure q reason n) s1 = (r2, s2)" by fastforce
  have "t = s1 \<or> t = s2" using assms b unfolding failLaunch_def Let_def a by (auto split: sum.splits)
  then show ?thesis using caps_persistTerminalResult [OF a] caps_writeMetadata [OF b] by auto
qed

lemma writeMetadata_written:
  assumes "lcl_file q = None" and "\<not> lcl_saveMetadata q 0" and "\<not> lcl_saveMetadata q 1"
  shows "fst (writeMetadata q n s) = Inr ()"
  using assms by (simp add: writeMetadata_def writeMetadataFile_def saveMetadata_def SaveMetadata_def Let_def)

text \<open>The capabilities that are active are those that were active before.\<close>

definition noneNew :: "cap_store \<Rightarrow> cap_store \<Rightarrow> bool" where
  "noneNew c c' \<longleftrightarrow> (\<forall>d r. findRow c' d = Some r \<and> cp_state r = CapActive \<longrightarrow> findRow c d = Some r)"

lemma noneNew_refl [simp]: "noneNew c c"
  by (simp add: noneNew_def)

lemma noneNew_revoked:
  assumes mint: "mintLaunchCapability sv q t n s = (Inr handle, s1)" and bytes: "\<forall>bs. lcl_random q = Some bs \<longrightarrow> length bs = 32"
    and revoke: "\<not> lcl_revoke q 0"
    and u: "ss_caps u = ss_caps (revokeLaunchCapability sv q handle (s1\<lparr>ss_docker := g\<rparr>))"
  shows "noneNew (ss_caps s) (ss_caps u)"
proof (cases "mintsCapability t")
  case False
  then have "handle = []" "s1 = s" using mint by (simp_all add: mintLaunchCapability_def)
  then show ?thesis using u by (simp add: revokeLaunchCapability_def)
next
  case True
  then obtain c t1 where i: "Issue (sr_sha sv) (lcl_issue q) (lcl_issueClk q) (lcl_random q) c (ss_caps s) = (Inr handle, t1)"
    and s1: "s1 = s\<lparr>ss_caps := t1\<rparr>" and minter: "sr_minter sv"
    using mint by (auto simp: mintLaunchCapability_def split: if_splits sum.splits prod.splits)
  let ?d = "sr_sha sv handle"
  obtain bs where bs: "lcl_random q = Some bs" "handle = hexEncode bs" and fresh: "findRow (ss_caps s) ?d = None"
    and t1: "t1 = ss_caps s\<lparr>cs_rows := cs_rows (ss_caps s) @ [newRow ?d c (lcl_issueClk q 1)]\<rparr>"
    using Issue_ok [OF i] by auto
  have len: "length handle = 64" using bytes bs by simp
  then have dg: "digestOf (sr_sha sv) handle = Inr ?d" using bs(2) by (simp add: digestOf_def)
  have ne: "handle \<noteq> []" using len by auto
  have "ss_caps u = updateRow ?d (revokedRow (lcl_revokeClk q 0)) t1"
    using u minter dg ne revoke s1 by (simp add: revokeLaunchCapability_def Revoke_state)
  moreover have "cp_digest (newRow ?d c now) = ?d" for now by (simp add: newRow_def)
  ultimately show ?thesis
    by (auto simp: noneNew_def findRow_updateRow findRow_append [OF fresh] t1 revokedRow_def fresh split: if_splits option.splits)
qed

text \<open>C40. A launch without a key that fails leaves no usable capability. When \<open>launchAgent\<close> answers an error, at whatever
  step it failed and whatever Docker did, every capability that is active afterwards was active before: the one that was
  minted for the run is revoked. The revocation itself must not fail, nor the writing of the run once its container is
  started (\<open>unwritten_run_is_lost\<close> is what happens then).\<close>

theorem failed_launch_leaves_no_capability:
  assumes "launchAgent sv q who inp s = (Inl e, t)" and "\<not> lcl_revoke q 0"
    and "lcl_file q = None" and "\<not> lcl_saveMetadata q 0" and "\<not> lcl_saveMetadata q 1"
    and "\<forall>bytes. lcl_random q = Some bytes \<longrightarrow> length bytes = 32"
  shows "noneNew (ss_caps s) (ss_caps t)"
proof (cases "selectLaunchTemplate (sr_regexps sv) (sr_cfg sv) (lcl_runID q) (lcl_release q) (sr_releases sv) inp")
  case (Inl e')
  then show ?thesis using assms(1) by (simp add: launchAgent_def)
next
  case (Inr sel)
  define n where "n = directMetadata (lcl_now q) who inp sel"
  obtain mr s1 where mint: "mintLaunchCapability sv q (sl_template sel) n s = (mr, s1)" by fastforce
  show ?thesis
  proof (cases "profileBusy sv (la_profile inp) s \<or> \<not> validateTaskContract sv n \<or> lcl_prepare q \<noteq> None")
    case True
    then have "t = s" using assms(1) Inr by (auto simp: launchAgent_def Let_def n_def split: if_splits)
    then show ?thesis by simp
  next
    case False
    have run: "(case (mr, s1) of
        (Inl e, s1) \<Rightarrow> (Inl e, s1)
      | (Inr handle, s1) \<Rightarrow>
          (case runtimeSpec (sr_cfg sv) n (sl_template sel) handle of
             Inl e \<Rightarrow> (Inl e, revokeLaunchCapability sv q handle s1)
           | Inr spec \<Rightarrow>
               (case createContainer (sr_docker sv) (sr_fingerprint sv) spec (ss_docker s1) of
                  (None, g1) \<Rightarrow> failLaunch sv q handle ''launch_create_failed'' n LaunchCreate (s1\<lparr>ss_docker := g1\<rparr>)
                | (Some info, g1) \<Rightarrow>
                    (let m1 = n\<lparr>rm_containerID := cinf_id info, rm_imageDigest := cinf_imageDigest info\<rparr> in
                     case startContainer (sr_docker sv) (cinf_id info) g1 of
                       (False, g2) \<Rightarrow> failLaunch sv q handle ''launch_start_failed'' m1 LaunchStart (s1\<lparr>ss_docker := g2\<rparr>)
                     | (True, g2) \<Rightarrow>
                         (let m2 = m1\<lparr>rm_status := ''running''\<rparr> in
                          case writeMetadata q m2 (s1\<lparr>ss_docker := g2\<rparr>) of
                            (Inl e, s2) \<Rightarrow> (Inl e, s2)
                          | (Inr _, s2) \<Rightarrow> (Inr (launchOutput m2), putRun m2 s2)))))) = (Inl e, t)"
      using assms(1) False unfolding launchAgent_def Inr sum.case Let_def n_def [symmetric] mint by simp
    show ?thesis
    proof (cases mr)
      case (Inl e')
      then have "ss_caps s1 = ss_caps s"
        using mint by (auto simp: mintLaunchCapability_def split: if_splits sum.splits prod.splits dest: Issue_Inl)
      then show ?thesis using run Inl by simp
    next
      case (Inr handle)
      note revoked = noneNew_revoked [OF mint [unfolded Inr] assms(6) assms(2)]
      show ?thesis
      proof (cases "runtimeSpec (sr_cfg sv) n (sl_template sel) handle")
        case (Inl e')
        then have "t = revokeLaunchCapability sv q handle s1" using run Inr by simp
        then show ?thesis using revoked [of t "ss_docker s1"] by simp
      next
        case spec: (Inr spec)
        obtain info g1 where create: "createContainer (sr_docker sv) (sr_fingerprint sv) spec (ss_docker s1) = (info, g1)"
          by fastforce
        show ?thesis
        proof (cases info)
          case None
          then have "failLaunch sv q handle ''launch_create_failed'' n LaunchCreate (s1\<lparr>ss_docker := g1\<rparr>) = (Inl e, t)"
            using run Inr spec create by simp
          then show ?thesis using revoked [OF caps_failLaunch] by blast
        next
          case (Some x)
          let ?n = "n\<lparr>rm_containerID := cinf_id x, rm_imageDigest := cinf_imageDigest x\<rparr>"
          obtain ok g2 where start: "startContainer (sr_docker sv) (cinf_id x) g1 = (ok, g2)" by fastforce
          have "\<not> ok"
          proof
            assume ok
            obtain wr s2 where w: "writeMetadata q (?n\<lparr>rm_status := ''running''\<rparr>) (s1\<lparr>ss_docker := g2\<rparr>) = (wr, s2)" by fastforce
            have "wr = Inr ()" using writeMetadata_written [OF assms(3-5)] w by (metis fst_conv)
            then show False using run Inr spec create Some start \<open>ok\<close> w by (simp add: Let_def)
          qed
          then have "failLaunch sv q handle ''launch_start_failed'' ?n LaunchStart (s1\<lparr>ss_docker := g2\<rparr>) = (Inl e, t)"
            using run Inr spec create Some start by (simp add: Let_def)
          then show ?thesis using revoked [OF caps_failLaunch] by blast
        qed
      qed
    qed
  qed
qed

text \<open>A start that Docker refuses.\<close>

definition refusingService :: "small_docker service" where
  "refusingService = exampleService\<lparr>sr_releases := Some exampleRegistry,
     sr_docker := smallDocker\<lparr>dk_start := \<lambda>cid g. (False, g)\<rparr>\<rparr>"

definition directRequest :: launch_input where
  "directRequest = (sp_input exampleProfile)\<lparr>la_workItemID := ''w1''\<rparr>"

definition randomCalls :: launch_calls where
  "randomCalls = exampleCalls\<lparr>lcl_random := Some (replicate 32 (CHR 0x01))\<rparr>"

theorem failed_launch_leaves_no_capability_witness:
  "\<exists>t. launchAgent refusingService randomCalls ''ops'' directRequest exampleState = (Inl LaunchStart, t) \<and>
     length (cs_rows (ss_caps t)) = 1 \<and> noneNew emptyCapStore (ss_caps t)"
proof -
  have "case launchAgent refusingService randomCalls ''ops'' directRequest exampleState of
      (Inl e, t) \<Rightarrow> e = LaunchStart \<and> length (cs_rows (ss_caps t)) = 1 | (Inr out, t) \<Rightarrow> False"
    by code_simp
  then obtain t where t: "launchAgent refusingService randomCalls ''ops'' directRequest exampleState = (Inl LaunchStart, t)"
    "length (cs_rows (ss_caps t)) = 1" by (auto split: prod.splits sum.splits)
  have "noneNew (ss_caps exampleState) (ss_caps t)"
    by (rule failed_launch_leaves_no_capability [OF t(1)])
      (simp_all add: randomCalls_def exampleCalls_def no_faults_def)
  with t show ?thesis by (auto simp: exampleState_def)
qed

text \<open>What a file that cannot be written leads to in a launch without a key: the container runs, and the launch is answered as
  failed; nothing of the service knows the run, so that nothing can stop it.\<close>

lemma unwritten_run_is_lost:
  "case launchAgent (exampleService\<lparr>sr_releases := Some exampleRegistry\<rparr>) (exampleCalls\<lparr>lcl_file := Some False\<rparr>) ''ops''
          directRequest exampleState of
     (Inl e, t) \<Rightarrow> smallStarts (ss_docker t) ''a'' = 1 \<and> ss_runs t = [] \<and> ss_files t = []
   | (Inr out, t) \<Rightarrow> False"
  by code_simp

text \<open>What the two ways to launch do not see of each other: the bound on the runs of a profile is checked against the intents when
  a launch has a key, and a launch without a key has none. A profile that admits one run has two of them running.\<close>

lemma keyless_launch_is_not_counted:
  "let q = exampleCalls\<lparr>lcl_runID := Some ''r2'', lcl_random := Some [CHR 0x03]\<rparr>;
       sv = exampleService\<lparr>sr_cfg := (sr_cfg exampleService)\<lparr>sg_launchProfiles :=
              [(''fixer'', exampleProfile\<lparr>sp_requireIdempotencyKey := False\<rparr>)]\<rparr>\<rparr>;
       t = run_ops (sandbox_exec sv)
             [OpLaunch q ''ops'' ''fixer'' [] [] (directRequest\<lparr>la_profile := ''fixer''\<rparr>),
              OpLaunch exampleCalls ''ops'' ''fixer'' ''k'' ''fp'' (directRequest\<lparr>la_profile := ''fixer''\<rparr>)]
             (exampleState\<lparr>ss_intents := emptyIntents\<rparr>)
   in sp_maxConcurrentRuns exampleProfile = 1 \<and>
      map (\<lambda>(k, m). (k, rm_profile m, rm_status m)) (ss_runs t) =
        [(''r2'', ''fixer'', ''running''), (''r1'', ''fixer'', ''running'')] \<and>
      smallStarts (ss_docker t) ''a'' = 1 \<and> smallStarts (ss_docker t) ''aa'' = 1"
  by code_simp

end
