(* ===== verification/Spec2Isabelle.thy ===== *)
theory Spec2Isabelle
  imports Policy Agent_Auth Limits Idempotency Release Capability_Rest Outbox Server_Pulls Launch_Intents Git_Transport
    Tripwire_Api Server_CI Run_Finality Direct_Launch
begin

text \<open>
  The GitHub agent broker: a verification development of its core, in the order in which a request meets it.

  \<^bold>\<open>The program.\<close> Agents in sandboxes have no GitHub credentials. They call the broker, which authenticates
  the agent, decides by the configured policy whether the agent may do the operation to the repository, scans what
  would be written for credentials, keeps within the budget of the run, makes the call to GitHub with an installation
  token, remembers the answer under an idempotency key, and records which run opened which pull request. A second
  service launches the sandboxes: it resolves a released image, mints a capability for the run, and keeps a durable
  intent of every launch. The model proxy charges model calls to the same capability.

  \<^bold>\<open>Theories and sources\<close> (all under \<open>src/internal/\<close>).
  \<^item> \<open>Go_Prelude\<close>, \<open>Go_Regexp\<close>, \<open>Go_Time\<close>, \<open>Go_Http\<close>: the part of Go the sources use: byte strings,
    64-bit integers, calls that can fail, regular expressions that are constants of the source (run by derivatives), instants and
    their text, bearer tokens. \<open>Go_Prelude\<close> also holds the locales every store shares: an operation either fails
    or gives a result and a new state, a run is a list of operations, and invariants and monotone facts of operations
    carry over to runs.
  \<^item> \<open>Broker_Config\<close> (\<open>config/config.go\<close>): records, defaults, secrets, validation, lookups.
  \<^item> \<open>Policy\<close> (\<open>policy/policy.go\<close>), \<open>Agent_Auth\<close> (\<open>auth/auth.go\<close>, \<open>metadata/metadata.go\<close>): who may do what.
  \<^item> \<open>State_File\<close>, \<open>Limits\<close> (\<open>limits/limits.go\<close>), \<open>Idempotency\<close> (\<open>idempotency/idempotency.go\<close>): the two
    state files, one step of the file per call.
  \<^item> \<open>Release\<close> (\<open>release/release.go\<close>): the release registry.
  \<^item> \<open>Capability\<close>, \<open>Capability_Store\<close>, \<open>Capability_Rest\<close> (\<open>capability/capability.go\<close>, \<open>store.go\<close>,
    \<open>rest.go\<close>): claims and their evaluator, the durable store, its private HTTP surface.
  \<^item> \<open>Correlation\<close> (\<open>correlation/correlation.go\<close>), \<open>Outbox\<close> (\<open>server/outbox.go\<close>): the registry of runs and
    pull requests, its outbox, and the HTTP surface through which a consumer drains it.
  \<^item> \<open>Security_Scan\<close> (\<open>securityscan/securityscan.go\<close>): the credential detectors and the bounded scan.
  \<^item> \<open>Server_Base\<close>, \<open>Server_Issues\<close>, \<open>Server_Pulls\<close>, \<open>Git_Transport\<close> (\<open>server/server.go\<close>,
    \<open>server/capability.go\<close>): what the handlers share (authorization, scan, budget, idempotent answers), then the
    handlers of issues and comments, of pull requests with and without correlation, and of the Git transport with its
    parser of pushes.
  \<^item> \<open>Push_Tripwire\<close> (\<open>pushtripwire/pushtripwire.go\<close>): the durable halts of the push tripwire and the responses
    that apply them; \<open>Scan_Material\<close> (\<open>githubapp/client.go\<close>): reading a commit and its blobs back for the scan of
    a push; \<open>Tripwire_Api\<close> (\<open>server/server.go\<close>): the two handlers through which a reviewer drives them.
  \<^item> \<open>Server_CI\<close> (\<open>server/server.go\<close>, \<open>githubapp/client.go\<close>): the observation of CI for a pull request, from
    the checks that the branch rules require, their runs and the workflow they must come from.
  \<^item> \<open>Launch_Intents\<close> (\<open>sandbox/launch_intents.go\<close>): the durable launch intents.
  \<^item> \<open>Go_Path\<close>, \<open>Sandbox_Config\<close> (\<open>sandbox/config.go\<close>): cleaned paths, and the configuration of the sandbox service
    with its whole validation; \<open>Sandbox_Policy\<close> (\<open>sandbox/service.go\<close>, \<open>config.go\<close>, \<open>rest.go\<close>, \<open>capability_launch.go\<close>):
    what a launch may be, from the parameters of its request to the container the runtime is asked for.
  \<^item> \<open>Docker_Runtime\<close> (\<open>sandbox/runtime.go\<close>): the request that creates a container, its digest, the adoption of a
    container that exists, and start, wait, inspect, stop and remove over the parameter \<open>docker_api\<close>.
  \<^item> \<open>Sandbox_Launch\<close>, \<open>Run_Lifecycle\<close> (\<open>sandbox/service.go\<close>, \<open>capability_launch.go\<close>, \<open>terminal_result.go\<close>): the
    sandbox service. A launch with a key is a state machine over its durable intent (prepared, create pending, container
    made, start pending, running, terminal), resumed where a crash left it; a launch without a key has no intent. Then the life of
    a run: status, stop, deadline, exit, cleanup and the reconciliation at the start of the service, each through the one
    finalization. \<open>sandbox_op\<close> lists these operations and \<open>sandbox_exec\<close> applies one.
  \<^item> \<open>Launch_Safety\<close>, \<open>Launch_Once\<close>, \<open>Run_Finality\<close>, \<open>Direct_Launch\<close>: what spans these operations, launches without a key
    among them. A container has the capability of its own run; of the containers of a run one is started, once; the end of a
    run that a finalization has recorded stays; a launch without a key that fails leaves no usable capability.

  \<^bold>\<open>How the code is modelled.\<close> A struct is a record, an enumeration a datatype, an error a constructor of the
  error type of its package in place of the formatted text. Go's \<open>int\<close> and \<open>int64\<close> are integers, with
  \<open>wrap64\<close> where a result can leave the range. A SQLite table is the list of its rows in order of insertion; a state
  file is its decoded content. Every call that can fail (a statement, a read, a commit) takes its verdict from an
  argument \<open>faults\<close>, counted in the order of the source, so that the theorems quantify over all failures; a
  transaction that fails leaves the state as it was. Clock readings, random bytes, SHA-256, HMAC, the JSON length of a
  value and patterns that come from the configuration are arguments. GitHub is a record of operations on a state of its
  own (\<open>github\<close>, \<open>git_upstream\<close>); the few properties that rely on how GitHub behaves state that as a named
  predicate, and their witnesses exhibit a concrete service that has it. The order in which Go ranges over a map is an
  argument where it matters.

  \<^bold>\<open>What the lemmas show.\<close> For each store: an invariant that every operation keeps, for every run and all
  failures, and the functional behaviour of each operation, errors included; for the outbox and the two HTTP surfaces a
  refinement; for budgets, leases and idempotency keys the safety property that spans all later operations; for the
  handlers, what must have been checked before a call to GitHub is made, and for the observation of CI what an answer
  says about the checks as they were; for launches, an invariant that ties the container requests to the stored capabilities,
  one that ties what the service remembers of a run to the one container of it that was started, and one that ties the file, the result and
  the intent of a run that has ended, each through every crash, cleanup and restart. What falls short of what the code means to do is
  a lemma on a concrete input beside the property that it limits. The properties are the lemmas whose text opens
  with an id C\<open>n\<close>.

  \<^bold>\<open>Bounds and fuel.\<close> No definition takes fuel, except the scan of a text, whose loop runs at most 256 rounds; that
  this suffices is a property. Loops over a body recurse over the bytes that are left, with a termination proof.
  Instants have an RFC 3339 text with four digits of the year only in \<open>in_text_range\<close>, which the theorems on the
  order of texts assume.

  \<^bold>\<open>Not modelled.\<close> The model proxy, whose core is the rewriting of streams of third-party protocols; the Codex issue
  workflow, which drives several containers through files in them, so that the theorems on launches assume no profile with
  that workflow; the remaining read handlers, labels and reviews of the server; routing, authentication of operators
  and the release endpoints of the sandbox REST surface; artifacts, logs, retention, redaction and audit files; completion
  status files; the clients of external services (GitHub's REST API, Docker, the model providers); YAML and JSON decoding,
  entry points and metrics. Concurrency is the interleaving of whole operations: every store works under one lock or
  one database connection, and the operations of the sandbox service are taken one after the other.
\<close>

end
